(* ===== verification/Prelude.thy ===== *)
theory Prelude
  imports "HOL-Library.Word" "HOL-Library.Monad_Syntax"
begin

text \<open>
  Shared vocabulary of the development: the C integer types, programs as state
  transformers with an explicit "does not return" outcome, the weakest-precondition
  predicates used to reason about them, the bounded polling loop that the drivers
  repeat, and generic lemmas on words.

  A C function of the model has the type \<open>'s \<Rightarrow> ('a \<times> 's) option\<close>: \<open>Some (r, s')\<close> when
  it returns \<open>r\<close> in state \<open>s'\<close>, \<open>None\<close> when it never returns (an unbounded loop).  The
  option monad of the library supplies the \<open>do\<close> notation, with the state threaded by name.
\<close>

unbundle bit_operations_syntax

section \<open>C types\<close>

type_synonym u8 = "8 word"
type_synonym u16 = "16 word"
type_synonym u32 = "32 word"
type_synonym u64 = "64 word"

text \<open>A C function over a state \<open>'s\<close>; \<open>None\<close> is "does not return".\<close>

type_synonym ('a, 's) prog = "'s \<Rightarrow> ('a \<times> 's) option"

section \<open>Weakest preconditions\<close>

named_theorems wp_simps "equations that push wp and wlp through a program"
named_theorems prog_defs "definitions of small program fragments, unfolded together"

text \<open>\<open>wp m Q\<close>: the run \<open>m\<close> returns, with a value and a state that satisfy \<open>Q\<close>.\<close>

definition wp :: "('a \<times> 's) option \<Rightarrow> ('a \<Rightarrow> 's \<Rightarrow> bool) \<Rightarrow> bool" where
  "wp m Q = (case m of None \<Rightarrow> False | Some (a, s) \<Rightarrow> Q a s)"

text \<open>\<open>wlp m Q\<close>: if the run \<open>m\<close> returns, value and state satisfy \<open>Q\<close>.\<close>

definition wlp :: "('a \<times> 's) option \<Rightarrow> ('a \<Rightarrow> 's \<Rightarrow> bool) \<Rightarrow> bool" where
  "wlp m Q = (case m of None \<Rightarrow> True | Some (a, s) \<Rightarrow> Q a s)"

lemma wp_Some [wp_simps, simp]: "wp (Some (a, s)) Q = Q a s"
  by (simp add: wp_def)

lemma wp_Some_pair: "wp (Some x) Q = Q (fst x) (snd x)"
  by (simp add: wp_def split: prod.splits)

lemma wp_None [wp_simps, simp]: "wp None Q = False"
  by (simp add: wp_def)

lemma wp_bind [wp_simps, simp]:
  "wp (Option.bind m f) Q = wp m (\<lambda>a s. wp (f (a, s)) Q)"
  by (cases m) (auto simp: wp_def)

lemma wp_if [wp_simps]: "wp (if b then m else n) Q = (if b then wp m Q else wp n Q)"
  by simp

lemma wlp_Some [wp_simps, simp]: "wlp (Some (a, s)) Q = Q a s"
  by (simp add: wlp_def)

lemma wlp_None [wp_simps, simp]: "wlp None Q"
  by (simp add: wlp_def)

lemma wlp_bind [wp_simps, simp]:
  "wlp (Option.bind m f) Q = wlp m (\<lambda>a s. wlp (f (a, s)) Q)"
  by (cases m) (auto simp: wlp_def)

lemma wlp_if [wp_simps]: "wlp (if b then m else n) Q = (if b then wlp m Q else wlp n Q)"
  by simp

lemma wp_mono: "wp m Q \<Longrightarrow> (\<And>a s. Q a s \<Longrightarrow> R a s) \<Longrightarrow> wp m R"
  by (cases m) (auto simp: wp_def)

lemma wlp_mono: "wlp m Q \<Longrightarrow> (\<And>a s. Q a s \<Longrightarrow> R a s) \<Longrightarrow> wlp m R"
  by (cases m) (auto simp: wlp_def)

lemma wp_iff: "wp m Q \<longleftrightarrow> (\<exists>a s. m = Some (a, s) \<and> Q a s)"
  by (cases m) (auto simp: wp_def)

lemma wlp_iff: "wlp m Q \<longleftrightarrow> (\<forall>a s. m = Some (a, s) \<longrightarrow> Q a s)"
  by (cases m) (auto simp: wlp_def)

lemma wp_wlp: "wp m Q \<Longrightarrow> wlp m Q"
  by (auto simp: wp_iff wlp_iff)

lemma wp_conj: "wp m Q \<Longrightarrow> wlp m R \<Longrightarrow> wp m (\<lambda>a s. Q a s \<and> R a s)"
  by (auto simp: wp_iff wlp_iff)

lemma wpD: "m = Some (a, s) \<Longrightarrow> wp m Q \<Longrightarrow> Q a s"
  by simp

lemma wlpD: "m = Some (a, s) \<Longrightarrow> wlp m Q \<Longrightarrow> Q a s"
  by simp

lemma wlp_runI: "(\<And>r. m = Some r \<Longrightarrow> Q (fst r) (snd r)) \<Longrightarrow> wlp m Q"
  by (auto simp: wlp_iff)

lemma wlp_runD: "m = Some r \<Longrightarrow> wlp m Q \<Longrightarrow> Q (fst r) (snd r)"
  by (cases r) simp

lemma wp_wlp_conj: "wp m Q \<Longrightarrow> wlp m R \<Longrightarrow> wp m (\<lambda>a s. Q a s \<and> R a s)"
  by (auto simp: wp_iff wlp_iff)

text \<open>Both readings at once, for lemmas that hold in either: \<open>tot\<close> says whether returning is claimed.\<close>

definition ends :: "bool \<Rightarrow> ('a \<times> 's) option \<Rightarrow> ('a \<Rightarrow> 's \<Rightarrow> bool) \<Rightarrow> bool" where
  "ends tot m Q = (if tot then wp m Q else wlp m Q)"

lemma ends_simps [simp]: "ends tot (Some (a, s)) Q = Q a s" "ends tot None Q = (\<not> tot)"
  "ends tot (Option.bind m f) Q = ends tot m (\<lambda>a s. ends tot (f (a, s)) Q)"
  by (simp_all add: ends_def)

lemma ends_mono: "ends tot m Q \<Longrightarrow> (\<And>a s. Q a s \<Longrightarrow> R a s) \<Longrightarrow> ends tot m R"
  by (auto simp: ends_def intro: wp_mono wlp_mono split: if_splits)

lemma ends_wp: "ends True m Q = wp m Q"
  by (simp add: ends_def)

lemma ends_wlp: "ends False m Q = wlp m Q"
  by (simp add: ends_def)

lemma ends_imp_wlp: "ends tot m Q \<Longrightarrow> wlp m Q"
  by (simp add: ends_def wp_wlp split: if_splits)

lemma wp_ends: "wp m Q \<Longrightarrow> ends tot m Q"
  by (simp add: ends_def wp_wlp)

section \<open>Words\<close>

lemma unat_minus_one_less: "(w :: 'a :: len word) \<noteq> 0 \<Longrightarrow> unat (w - 1) < unat w"
  by (simp add: unat_minus_one unat_gt_0)

lemma word_gt_1_minus_less: "(w :: 'a :: len word) > 1 \<Longrightarrow> unat (w - 1) < unat w"
  by (rule unat_minus_one_less) auto

lemma unat_Suc_pred: "(w :: 'a :: len word) \<noteq> 0 \<Longrightarrow> Suc (unat (w - 1)) = unat w"
  by (simp add: unat_minus_one unat_gt_0)

lemma unat_minus_two_less: "(w :: 'a :: len word) \<noteq> 1 \<Longrightarrow> unat (w - 2) < unat (w - 1)"
  using unat_minus_one_less [of "w - 1"] by simp

lemma unat_plus_one_less:
  assumes "(w :: 'a :: len word) < v"
  shows "unat (w + 1) = Suc (unat w)"
proof -
  have "1 + w \<noteq> 0"
  proof
    assume "1 + w = 0"
    then have "w = - 1" by (simp add: add_eq_0_iff)
    with assms have "- 1 < v" by simp
    moreover have "v \<le> - 1" by simp
    ultimately show False by (simp add: not_less [symmetric])
  qed
  then show ?thesis using unatSuc [of w] by (simp add: add.commute)
qed

lemma unat_sub_less: "(n :: 'a :: len word) \<noteq> 0 \<Longrightarrow> n \<le> w \<Longrightarrow> unat (w - n) < unat w"
proof -
  assume "n \<noteq> 0" "n \<le> w"
  then have "0 < unat n" "unat n \<le> unat w" by (simp_all add: unat_gt_0 word_le_nat_alt)
  with \<open>n \<le> w\<close> show ?thesis by (simp add: unat_sub)
qed

lemma unat_up_measure: "(w :: 'a :: len word) < v \<Longrightarrow> unat v - unat (w + 1) < unat v - unat w"
  by (simp add: unat_plus_one_less word_less_nat_alt diff_less_mono2)

text \<open>A C \<open>int\<close> read from an unsigned value below \<open>2 ^ 31\<close> is that value.\<close>

lemma sint_u32_small:
  assumes "uint (w :: u32) < 2 ^ 31"
  shows "sint w = uint w"
proof -
  have "- (2 ^ 31) \<le> uint w" by (rule order_trans [OF _ uint_ge_0]) simp
  with assms show ?thesis unfolding sint_uint by (intro signed_take_bit_int_eq_self) auto
qed

text \<open>A \<open>char\<close> is signed.\<close>

lemma sint_byte: "sint (c :: u8) = (if uint c < 128 then uint c else uint c - 256)"
proof -
  have u: "0 \<le> uint c" "uint c < 256" using uint_bounded [of c] by simp_all
  then have "uint c div 128 = (if uint c < 128 then 0 else 1)" by (auto simp: not_less)
  then have "bit (uint c) 7 \<longleftrightarrow> \<not> uint c < 128" by (auto simp: bit_iff_odd)
  moreover have "uint c mod 256 = uint c" using u by simp
  ultimately show ?thesis by (simp add: sint_uint signed_take_bit_eq_take_bit_minus take_bit_eq_mod)
qed

text \<open>A small negative number modulo the word range.\<close>

lemma mod_small_signed: "- m \<le> x \<Longrightarrow> x < m \<Longrightarrow> x mod m = (if x < 0 then x + m else (x :: int))"
  using mod_pos_pos_trivial [of "x + m" m] mod_pos_pos_trivial [of x m] by (auto simp: not_less)

lemma uint_int_unat: "uint w = int (unat w)"
  by simp

lemma int_le_uint: "n \<le> unat w \<Longrightarrow> int n \<le> uint w"
  using of_nat_mono [of n "unat w", where 'a = int] by simp

text \<open>A non-negative C \<open>int\<close>.\<close>

lemma sint_of_nat_31: "n < 2 ^ 31 \<Longrightarrow> sint (of_nat n :: u32) = int n"
  by (simp only: signed_of_nat) (simp add: signed_take_bit_int_eq_self)

lemma unat_of_nat_32: "n < 2 ^ 32 \<Longrightarrow> unat (of_nat n :: u32) = n"
  by (simp only: unsigned_of_nat) (simp add: take_bit_nat_eq_self)

lemma sint_nonneg:
  assumes "0 \<le> sint (w :: u32)"
  shows "sint w = uint w" "unat w < 2 ^ 31"
proof -
  have lt: "sint w < 2 ^ 31" using sint_lt [of w] by simp
  have "uint w = sint w mod 2 ^ 32" by (simp add: uint_sint take_bit_eq_mod)
  with assms lt show e: "sint w = uint w" by simp
  show "unat w < 2 ^ 31"
  proof (rule ccontr)
    assume "\<not> unat w < 2 ^ 31"
    then have "int (2 ^ 31) \<le> uint w" by (intro int_le_uint) simp
    with lt e show False by simp
  qed
qed

lemma sint_sub_pos:
  assumes "0 < sint (w :: u32)" "n \<le> w" "n \<noteq> w"
  shows "0 < sint (w - n)"
proof -
  have w: "sint w = uint w" using sint_nonneg [of w] assms(1) by simp
  have lt: "uint w < 2 ^ 31" using sint_lt [of w] by (simp flip: w)
  have "uint n \<le> uint w" using assms(2) by (simp add: word_le_def)
  then have e: "uint (w - n) = uint w - uint n" by (simp add: uint_sub_if')
  moreover have "uint n \<noteq> uint w" using assms(3) by (simp add: word_uint_eq_iff)
  ultimately have "0 < uint (w - n)" "uint (w - n) < 2 ^ 31"
    using \<open>uint n \<le> uint w\<close> lt uint_ge_0 [of n] by linarith+
  then show ?thesis by (simp add: sint_u32_small)
qed

section \<open>Byte memory\<close>

fun read_bytes :: "(u32 \<Rightarrow> u8) \<Rightarrow> u32 \<Rightarrow> nat \<Rightarrow> u8 list" where
  "read_bytes m a 0 = []"
| "read_bytes m a (Suc n) = m a # read_bytes m (a + 1) n"

fun write_bytes :: "(u32 \<Rightarrow> u8) \<Rightarrow> u32 \<Rightarrow> u8 list \<Rightarrow> u32 \<Rightarrow> u8" where
  "write_bytes m a [] = m"
| "write_bytes m a (x # xs) = write_bytes (m(a := x)) (a + 1) xs"

lemma length_read_bytes [simp]: "length (read_bytes m a n) = n"
  by (induction n arbitrary: a) simp_all

lemma nth_read_bytes: "i < n \<Longrightarrow> read_bytes m a n ! i = m (a + of_nat i)"
  by (induction n arbitrary: a i) (auto simp: nth_Cons add.assoc split: nat.splits)

lemma read_bytes_append:
  "read_bytes m a (n + k) = read_bytes m a n @ read_bytes m (a + of_nat n) k"
  by (induction n arbitrary: a) (simp_all add: add.assoc)

lemma take_read_bytes: "take k (read_bytes m a n) = read_bytes m a (min k n)"
proof (induction n arbitrary: a k)
  case (Suc n)
  then show ?case by (cases k) simp_all
qed simp

lemma write_bytes_append:
  "write_bytes m a (xs @ ys) = write_bytes (write_bytes m a xs) (a + of_nat (length xs)) ys"
  by (induction xs arbitrary: m a) (simp_all add: add.assoc)

text \<open>Bytes written from \<open>a\<close> on leave what lies outside, and are read back.\<close>

lemma write_bytes_other:
  "(\<And>k. k < length xs \<Longrightarrow> b \<noteq> a + of_nat k) \<Longrightarrow> write_bytes m a xs b = m b"
proof (induction xs arbitrary: m a)
  case (Cons x xs)
  have "b \<noteq> a + 1 + of_nat k" if "k < length xs" for k
    using Cons.prems [of "Suc k"] that by (simp add: add.assoc)
  moreover have "b \<noteq> a" using Cons.prems [of 0] by simp
  ultimately show ?case using Cons.IH by simp
qed simp

lemma read_write_bytes:
  "length xs \<le> 2 ^ 31 \<Longrightarrow> read_bytes (write_bytes m a xs) a (length xs) = xs"
proof (induction xs arbitrary: m a)
  case (Cons x xs)
  have "a \<noteq> a + 1 + of_nat k" if "k < length xs" for k
  proof
    assume "a = a + 1 + of_nat k"
    then have "(of_nat (Suc k) :: u32) = 0" by (simp add: add.assoc)
    moreover have "unat (of_nat (Suc k) :: u32) = Suc k"
      using that Cons.prems by (simp add: unsigned_of_nat take_bit_nat_eq_self del: of_nat_Suc)
    ultimately show False by simp
  qed
  then show ?case using Cons by (simp add: write_bytes_other)
qed simp

section \<open>The bounded polling loop\<close>

text \<open>
  The drivers repeat one loop:
  \<^verbatim>\<open>while (busy) { if (timeout<10) alt_busy_sleep(10000); if (--timeout == 0) { ...; break; } }\<close>
  with a 32-bit \<open>timeout\<close>.  \<open>timed_poll busy nap t\<close> returns True when the loop ends because
  the condition became false, False when the counter reached zero.  A start value of 0 wraps
  to \<open>2 ^ 32 - 1\<close> at the first decrement, as in C.
\<close>

function timed_poll :: "(bool, 's) prog \<Rightarrow> (unit, 's) prog \<Rightarrow> u32 \<Rightarrow> (bool, 's) prog" where
  "timed_poll busy nap t s = do {
     (b, s) \<leftarrow> busy s;
     if \<not> b then Some (True, s)
     else do {
       (_, s) \<leftarrow> (if t < 10 then nap s else Some ((), s));
       (if t - 1 = 0 then Some (False, s) else timed_poll busy nap (t - 1) s)
     }
   }"
  by pat_completeness auto
termination
  by (relation "measure (\<lambda>(_, _, t, _). unat (t - 1))") (auto intro: unat_minus_two_less)

declare timed_poll.simps [simp del]

text \<open>The number of polls the loop makes at most: \<open>t\<close>, or \<open>2 ^ 32\<close> for a counter of 0.\<close>

definition poll_budget :: "u32 \<Rightarrow> nat" where
  "poll_budget t = Suc (unat (t - 1))"

lemma poll_budget_pos [simp]: "t \<noteq> 0 \<Longrightarrow> poll_budget t = unat t"
  by (simp add: poll_budget_def unat_minus_one unat_gt_0 Suc_pred')

lemma poll_budget_0: "poll_budget 0 = 2 ^ 32"
  by (simp add: poll_budget_def unsigned_minus_1_eq_mask mask_eq_exp_minus_1)

text \<open>
  Total-correctness rule: an invariant kept by the condition and by the pauses, strong
  enough for the caller in both ways out.
\<close>

lemma timed_poll_wp:
  assumes busy: "\<And>s. I s \<Longrightarrow> wp (busy s) (\<lambda>b s'. I s' \<and> (\<not> b \<longrightarrow> Q True s'))"
    and nap: "\<And>s. I s \<Longrightarrow> wp (nap s) (\<lambda>_ s'. I s')"
    and out: "\<And>s. I s \<Longrightarrow> Q False s"
  shows "I s \<Longrightarrow> wp (timed_poll busy nap t s) Q"
proof (induction "poll_budget t" arbitrary: t s rule: less_induct)
  case less
  have rest: "wp (if t - 1 = 0 then Some (False, s') else timed_poll busy nap (t - 1) s') Q"
    if "I s'" for s'
  proof (cases "t - 1 = 0")
    case True
    then show ?thesis using out that by simp
  next
    case False
    then have "poll_budget (t - 1) < poll_budget t"
      by (simp add: poll_budget_def unat_minus_two_less)
    with False show ?thesis using less.hyps that by simp
  qed
  have nap': "wp (if t < 10 then nap s' else Some ((), s')) (\<lambda>_ s'. I s')" if "I s'" for s'
    using nap that by simp
  have after: "wp (do {
       (_, s) \<leftarrow> (if t < 10 then nap s' else Some ((), s'));
       (if t - 1 = 0 then Some (False, s) else timed_poll busy nap (t - 1) s)
     }) Q" if "I s'" for s'
    by (simp only: wp_bind prod.case, rule wp_mono [OF nap' [OF that]], rule rest)
  show ?case
    by (subst timed_poll.simps, rule wp_bind [THEN iffD2], rule wp_mono [OF busy [OF less.prems]])
       (simp add: after del: wp_bind right_minus_eq)
qed

lemma timed_poll_first:
  "busy s = Some (False, s') \<Longrightarrow> timed_poll busy nap t s = Some (True, s')"
  by (subst timed_poll.simps) simp

text \<open>A condition that never becomes false uses up the whole budget.\<close>

lemma timed_poll_exhausts:
  assumes busy: "\<And>s. P s \<Longrightarrow> wp (busy s) (\<lambda>b s'. b \<and> P s' \<and> cnt s' = Suc (cnt s))"
    and nap: "\<And>s. P s \<Longrightarrow> wp (nap s) (\<lambda>_ s'. P s' \<and> cnt s' = cnt s)"
  shows "P s \<Longrightarrow> wp (timed_poll busy nap t s) (\<lambda>ok s'. \<not> ok \<and> P s' \<and> cnt s' = cnt s + poll_budget t)"
proof (induction "poll_budget t" arbitrary: t s rule: less_induct)
  case less
  let ?Q = "\<lambda>ok s'. \<not> ok \<and> P s' \<and> cnt s' = cnt s + poll_budget t"
  have rest: "wp (if t - 1 = 0 then Some (False, s') else timed_poll busy nap (t - 1) s') ?Q"
    if "P s'" "cnt s' = Suc (cnt s)" for s'
  proof (cases "t - 1 = 0")
    case True
    then show ?thesis using that by (simp add: poll_budget_def)
  next
    case False
    then have e: "poll_budget t = Suc (poll_budget (t - 1))"
      using unat_Suc_pred [of "t - 1"] by (simp add: poll_budget_def)
    from less.hyps [of "t - 1" s'] e False that show ?thesis
      by (auto elim!: wp_mono)
  qed
  have nap': "wp (if t < 10 then nap s' else Some ((), s')) (\<lambda>_ s''. P s'' \<and> cnt s'' = cnt s')" if "P s'" for s'
    using nap that by simp
  have after: "wp (do {
       (_, s) \<leftarrow> (if t < 10 then nap s' else Some ((), s'));
       (if t - 1 = 0 then Some (False, s) else timed_poll busy nap (t - 1) s)
     }) ?Q" if "P s'" "cnt s' = Suc (cnt s)" for s'
    by (simp only: wp_bind prod.case, rule wp_mono [OF nap' [OF that(1)]], rule rest) (use that in auto)
  show ?case
    by (subst timed_poll.simps, rule wp_bind [THEN iffD2], rule wp_mono [OF busy [OF less.prems]])
       (simp add: after del: wp_bind right_minus_eq)
qed

text \<open>The same for partial correctness.\<close>

lemma timed_poll_wlp:
  assumes busy: "\<And>s. I s \<Longrightarrow> wlp (busy s) (\<lambda>_. I)" and nap: "\<And>s. I s \<Longrightarrow> wlp (nap s) (\<lambda>_. I)"
  shows "I s \<Longrightarrow> wlp (timed_poll busy nap t s) (\<lambda>_. I)"
proof (induction "poll_budget t" arbitrary: t s rule: less_induct)
  case less
  have rest: "wlp (if t - 1 = 0 then Some (False, s') else timed_poll busy nap (t - 1) s') (\<lambda>_. I)"
    if "I s'" for s'
    using less.hyps [of "t - 1" s'] that by (auto simp: poll_budget_def unat_minus_two_less)
  have nap': "wlp (if t < 10 then nap s' else Some ((), s')) (\<lambda>_. I)" if "I s'" for s'
    using nap that by simp
  have after: "wlp (do {
       (_, s) \<leftarrow> (if t < 10 then nap s' else Some ((), s'));
       (if t - 1 = 0 then Some (False, s) else timed_poll busy nap (t - 1) s)
     }) (\<lambda>_. I)" if "I s'" for s'
    by (simp only: wlp_bind prod.case, rule wlp_mono [OF nap' [OF that]], rule rest)
  show ?case
    by (subst timed_poll.simps, rule wlp_bind [THEN iffD2], rule wlp_mono [OF busy [OF less.prems]])
       (simp add: after del: wlp_bind right_minus_eq)
qed

section \<open>Regions of words\<close>

text \<open>The word \<open>i\<close> of a region that starts at \<open>b\<close>; \<open>holds b n v f\<close>: its first \<open>n\<close> words are those of \<open>v\<close>.\<close>

lemma unat_word_at: "unat b + 4 * i < 2 ^ 32 \<Longrightarrow> unat (b + of_nat i * 4 :: u32) = unat b + 4 * i"
proof -
  assume a: "unat b + 4 * i < 2 ^ 32"
  have "b + of_nat i * 4 = of_nat (unat b + 4 * i)" by simp
  then have "unat (b + of_nat i * 4) = unat (of_nat (unat b + 4 * i) :: u32)" by (rule arg_cong)
  with a show ?thesis by (simp only: unsigned_of_nat) (simp add: take_bit_nat_eq_self)
qed

definition words_at :: "u32 \<Rightarrow> nat \<Rightarrow> u32 set" where
  "words_at b n = (\<lambda>i. b + of_nat i * 4) ` {..<n}"

lemma words_atI: "i < n \<Longrightarrow> b + of_nat i * 4 \<in> words_at b n"
  by (auto simp: words_at_def)

lemma words_at_range:
  "a \<in> words_at b n \<Longrightarrow> unat b + 4 * n \<le> 2 ^ 32 \<Longrightarrow> unat b \<le> unat a \<and> unat a < unat b + 4 * n"
  by (auto simp: words_at_def unat_word_at)

lemma words_at_inj:
  assumes "unat b + 4 * n \<le> 2 ^ 32" "i < n" "k < n" "b + of_nat i * 4 = (b + of_nat k * 4 :: u32)"
  shows "i = k"
proof -
  have "unat (b + of_nat i * 4) = unat (b + of_nat k * 4)" using assms(4) by simp
  with assms(1-3) show ?thesis by (simp add: unat_word_at)
qed

text \<open>A region that ends before another begins has no word of it.\<close>

lemma words_at_apart:
  assumes "unat b + 4 * n \<le> unat c" "unat c + 4 * m \<le> 2 ^ 32" "i < n" "k < m"
  shows "b + of_nat i * 4 \<noteq> (c + of_nat k * 4 :: u32)"
proof
  assume "b + of_nat i * 4 = (c + of_nat k * 4 :: u32)"
  then have "unat (b + of_nat i * 4) = unat (c + of_nat k * 4)" by simp
  moreover have "unat b + 4 * i < 2 ^ 32" "unat c + 4 * k < 2 ^ 32" using assms by linarith+
  ultimately show False using assms by (simp add: unat_word_at)
qed

definition holds :: "u32 \<Rightarrow> nat \<Rightarrow> (nat \<Rightarrow> u32) \<Rightarrow> (u32 \<Rightarrow> u32) \<Rightarrow> bool" where
  "holds b n v f \<longleftrightarrow> (\<forall>k<n. f (b + of_nat k * 4) = v k)"

lemma holds_0 [simp]: "holds b 0 v f"
  by (simp add: holds_def)

lemma holds_snoc:
  assumes "holds b i v f" "i < n" "unat b + 4 * n \<le> 2 ^ 32"
  shows "holds b (Suc i) v (f(b + of_nat i * 4 := v i))"
  unfolding holds_def
proof (intro allI impI)
  fix k assume k: "k < Suc i"
  show "(f(b + of_nat i * 4 := v i)) (b + of_nat k * 4) = v k"
  proof (cases "k = i")
    case False
    then have "b + of_nat k * 4 \<noteq> b + of_nat i * 4"
      using words_at_inj [OF assms(3), of k i] k assms(2) by linarith
    then show ?thesis using False k assms(1) by (simp add: holds_def)
  qed simp
qed

lemma holds_other:
  assumes "holds b n v f" "\<And>k. k < n \<Longrightarrow> a \<noteq> b + of_nat k * 4"
  shows "holds b n v (f(a := x))"
  using assms unfolding holds_def by auto

end
