(* ===== verification/Bus_IO.thy ===== *)
theory Bus_IO
  imports Prelude
begin

text \<open>
  The processor's view of the hardware (\<open>HAL/inc/io.h\<close>, \<open>HAL/inc/sys/alt_irq.h\<close>,
  \<open>HAL/src/alt_busy_sleep.c\<close>): uncached word reads and writes at an address, the time
  that passes in a calibrated delay, and the two Nios II control registers that the
  interrupt macros use.

  The devices behind the bus are not C code of the repository.  They are a parameter
  \<open>B :: 'h bus\<close> of every definition that does input or output, over an arbitrary type
  \<open>'h\<close> of hardware states: a read returns a value and may change the hardware (a FIFO
  pops), a write changes it, a delay lets it run.  The field \<open>trace\<close> records the accesses
  in order; the code never looks at it, it is there to state properties.
\<close>

section \<open>Hardware and machine state\<close>

record 'h bus =
  bus_rd :: "u32 \<Rightarrow> 'h \<Rightarrow> u32 \<times> 'h"
  bus_wr :: "u32 \<Rightarrow> u32 \<Rightarrow> 'h \<Rightarrow> 'h"
  bus_delay :: "u32 \<Rightarrow> 'h \<Rightarrow> 'h"

datatype io_event = Rd u32 u32 | Wr u32 u32 | Delay u32

record 'h mach =
  hw :: 'h
  trace :: "io_event list"
  cpu_status :: u32
  cpu_ienable :: u32

section \<open>io.h\<close>

definition IORD_32DIRECT :: "'h bus \<Rightarrow> u32 \<Rightarrow> u32 \<Rightarrow> (u32, ('h, 'x) mach_scheme) prog" where
  "IORD_32DIRECT B base off s =
     (let a = base + off; (v, h) = bus_rd B a (hw s)
      in Some (v, s\<lparr>hw := h, trace := trace s @ [Rd a v]\<rparr>))"

definition IOWR_32DIRECT :: "'h bus \<Rightarrow> u32 \<Rightarrow> u32 \<Rightarrow> u32 \<Rightarrow> (unit, ('h, 'x) mach_scheme) prog" where
  "IOWR_32DIRECT B base off d s =
     (let a = base + off
      in Some ((), s\<lparr>hw := bus_wr B a d (hw s), trace := trace s @ [Wr a d]\<rparr>))"

text \<open>Native access: register numbers count 32-bit words (\<open>SYSTEM_BUS_WIDTH/8 = 4\<close>).\<close>

definition IO_CALC_ADDRESS_NATIVE :: "u32 \<Rightarrow> u32 \<Rightarrow> u32" where
  [prog_defs]: "IO_CALC_ADDRESS_NATIVE base reg = base + reg * (32 div 8)"

definition IORD :: "'h bus \<Rightarrow> u32 \<Rightarrow> u32 \<Rightarrow> (u32, ('h, 'x) mach_scheme) prog" where
  "IORD B base reg s = IORD_32DIRECT B (IO_CALC_ADDRESS_NATIVE base reg) 0 s"

definition IOWR :: "'h bus \<Rightarrow> u32 \<Rightarrow> u32 \<Rightarrow> u32 \<Rightarrow> (unit, ('h, 'x) mach_scheme) prog" where
  "IOWR B base reg d s = IOWR_32DIRECT B (IO_CALC_ADDRESS_NATIVE base reg) 0 d s"

text \<open>\<open>alt_busy_sleep(us)\<close> spins for \<open>us\<close> microseconds and returns 0.\<close>

definition alt_busy_sleep :: "'h bus \<Rightarrow> u32 \<Rightarrow> (unit, ('h, 'x) mach_scheme) prog" where
  "alt_busy_sleep B us s =
     Some ((), s\<lparr>hw := bus_delay B us (hw s), trace := trace s @ [Delay us]\<rparr>)"

section \<open>alt_irq.h: the global interrupt enable\<close>

abbreviation (input) NIOS2_STATUS_PIE_MSK :: u32 where "NIOS2_STATUS_PIE_MSK \<equiv> 1"

definition alt_irq_enabled :: "(u32, ('h, 'x) mach_scheme) prog" where
  [prog_defs]: "alt_irq_enabled s = Some (cpu_status s AND NIOS2_STATUS_PIE_MSK, s)"

definition alt_irq_disable_all :: "(u32, ('h, 'x) mach_scheme) prog" where
  [prog_defs]: "alt_irq_disable_all s =
     (let context = cpu_status s
      in Some (context, s\<lparr>cpu_status := context AND NOT NIOS2_STATUS_PIE_MSK\<rparr>))"

text \<open>This CPU has no shadow register sets, EIC, MMU or MPU: the second branch of the macro.\<close>

definition alt_irq_enable_all :: "u32 \<Rightarrow> (unit, ('h, 'x) mach_scheme) prog" where
  [prog_defs]: "alt_irq_enable_all context s = Some ((), s\<lparr>cpu_status := context\<rparr>)"

definition alt_irq_cpu_enable_interrupts :: "(unit, ('h, 'x) mach_scheme) prog" where
  [prog_defs]: "alt_irq_cpu_enable_interrupts s = Some ((), s\<lparr>cpu_status := NIOS2_STATUS_PIE_MSK\<rparr>)"

section \<open>Evaluation rules\<close>

lemma IORD_32DIRECT_eq [simp]:
  "IORD_32DIRECT B base off s =
     Some (fst (bus_rd B (base + off) (hw s)),
           s\<lparr>hw := snd (bus_rd B (base + off) (hw s)),
             trace := trace s @ [Rd (base + off) (fst (bus_rd B (base + off) (hw s)))]\<rparr>)"
  by (simp add: IORD_32DIRECT_def Let_def split: prod.splits)

lemma IOWR_32DIRECT_eq [simp]:
  "IOWR_32DIRECT B base off d s =
     Some ((), s\<lparr>hw := bus_wr B (base + off) d (hw s), trace := trace s @ [Wr (base + off) d]\<rparr>)"
  by (simp add: IOWR_32DIRECT_def Let_def)

lemma IORD_eq [simp]:
  "IORD B base reg s =
     Some (fst (bus_rd B (base + reg * 4) (hw s)),
           s\<lparr>hw := snd (bus_rd B (base + reg * 4) (hw s)),
             trace := trace s @ [Rd (base + reg * 4) (fst (bus_rd B (base + reg * 4) (hw s)))]\<rparr>)"
  by (simp add: IORD_def IO_CALC_ADDRESS_NATIVE_def)

lemma IOWR_eq [simp]:
  "IOWR B base reg d s =
     Some ((), s\<lparr>hw := bus_wr B (base + reg * 4) d (hw s), trace := trace s @ [Wr (base + reg * 4) d]\<rparr>)"
  by (simp add: IOWR_def IO_CALC_ADDRESS_NATIVE_def)

lemma alt_busy_sleep_eq [simp]:
  "alt_busy_sleep B us s =
     Some ((), s\<lparr>hw := bus_delay B us (hw s), trace := trace s @ [Delay us]\<rparr>)"
  by (simp add: alt_busy_sleep_def)

section \<open>Observing a trace\<close>

text \<open>The data written to one address, in order.\<close>

fun writes_to :: "u32 \<Rightarrow> io_event list \<Rightarrow> u32 list" where
  "writes_to a [] = []"
| "writes_to a (Wr b d # es) = (if a = b then d # writes_to a es else writes_to a es)"
| "writes_to a (Rd b v # es) = writes_to a es"
| "writes_to a (Delay u # es) = writes_to a es"

lemma writes_to_append [simp]: "writes_to a (es @ fs) = writes_to a es @ writes_to a fs"
  by (induction a es rule: writes_to.induct) auto

text \<open>All writes, in order, as address and data.\<close>

fun bus_writes :: "io_event list \<Rightarrow> (u32 \<times> u32) list" where
  "bus_writes [] = []"
| "bus_writes (Wr b d # es) = (b, d) # bus_writes es"
| "bus_writes (Rd b v # es) = bus_writes es"
| "bus_writes (Delay u # es) = bus_writes es"

lemma bus_writes_append [simp]: "bus_writes (es @ fs) = bus_writes es @ bus_writes fs"
  by (induction es rule: bus_writes.induct) auto

text \<open>How often an address is read.\<close>

fun reads_of :: "u32 \<Rightarrow> io_event list \<Rightarrow> nat" where
  "reads_of a [] = 0"
| "reads_of a (Rd b v # es) = (if a = b then Suc (reads_of a es) else reads_of a es)"
| "reads_of a (Wr b d # es) = reads_of a es"
| "reads_of a (Delay u # es) = reads_of a es"

lemma reads_of_append [simp]: "reads_of a (es @ fs) = reads_of a es + reads_of a fs"
  by (induction a es rule: reads_of.induct) auto

text \<open>A bracket of \<open>alt_irq_disable_all\<close> and \<open>alt_irq_enable_all\<close> restores the status.\<close>

lemma irq_bracket:
  "do { (c, s) \<leftarrow> alt_irq_disable_all s; alt_irq_enable_all c s } = Some ((), s)"
  by (simp add: prog_defs Let_def)

end
