(* ===== verification/HAL_List.thy ===== *)
theory HAL_List
  imports Bus_IO
begin

text \<open>
  The intrusive doubly linked lists of the HAL (\<open>HAL/inc/sys/alt_llist.h\<close>) and the searches
  over them (\<open>HAL/src/alt_find_dev.c\<close>, the loop of \<open>HAL/src/alt_find_file.c\<close>), with the parts
  of \<open>string.h\<close> they call.  Every registry of the HAL is such a list: the devices, the file
  systems, the alarms.

  List nodes are addresses; the two pointer fields of all nodes are two maps, as in a
  component-wise heap.  Strings live in byte memory, so that a read past the end of a string
  is a read of whatever is there, as on the machine.  The contract of the list operations is
  the locale \<open>llist_contract\<close>, over the abstract value of a list (the sequence of its entries).
\<close>

section \<open>alt_llist.h\<close>

record llist_heap =
  ll_next :: "u32 \<Rightarrow> u32"
  ll_prev :: "u32 \<Rightarrow> u32"

definition alt_llist_head :: "u32 \<Rightarrow> llist_heap \<Rightarrow> llist_heap" where
  "alt_llist_head l h = h\<lparr>ll_next := (ll_next h)(l := l), ll_prev := (ll_prev h)(l := l)\<rparr>"

definition alt_llist_insert :: "u32 \<Rightarrow> u32 \<Rightarrow> llist_heap \<Rightarrow> llist_heap" where
  "alt_llist_insert lst entry h =
     (let h = h\<lparr>ll_prev := (ll_prev h)(entry := lst)\<rparr>;
          h = h\<lparr>ll_next := (ll_next h)(entry := ll_next h lst)\<rparr>;
          h = h\<lparr>ll_prev := (ll_prev h)(ll_next h lst := entry)\<rparr>
      in h\<lparr>ll_next := (ll_next h)(lst := entry)\<rparr>)"

definition alt_llist_remove :: "u32 \<Rightarrow> llist_heap \<Rightarrow> llist_heap" where
  "alt_llist_remove entry h =
     (let h = h\<lparr>ll_prev := (ll_prev h)(ll_next h entry := ll_prev h entry)\<rparr>;
          h = h\<lparr>ll_next := (ll_next h)(ll_prev h entry := ll_next h entry)\<rparr>;
          h = h\<lparr>ll_prev := (ll_prev h)(entry := entry)\<rparr>
      in h\<lparr>ll_next := (ll_next h)(entry := entry)\<rparr>)"

section \<open>The value of a list\<close>

text \<open>\<open>linked h a xs z\<close>: from \<open>a\<close> the next pointers go through \<open>xs\<close> to \<open>z\<close>, and the previous
  pointers go back the same way.\<close>

fun linked :: "llist_heap \<Rightarrow> u32 \<Rightarrow> u32 list \<Rightarrow> u32 \<Rightarrow> bool" where
  "linked h a [] z = (ll_next h a = z \<and> ll_prev h z = a)"
| "linked h a (x # xs) z = (ll_next h a = x \<and> ll_prev h x = a \<and> linked h x xs z)"

definition ring :: "llist_heap \<Rightarrow> u32 \<Rightarrow> u32 list \<Rightarrow> bool" where
  "ring h l xs \<longleftrightarrow> distinct (l # xs) \<and> linked h l xs l"

lemma linked_append [simp]:
  "linked h a (xs @ y # ys) z \<longleftrightarrow> linked h a xs y \<and> linked h y ys z"
  by (induction xs arbitrary: a) auto

text \<open>A chain depends on the next pointers of its start and the previous pointers of its end.\<close>

lemma linked_cong:
  assumes "\<And>b. b \<in> set (a # xs) \<Longrightarrow> ll_next h' b = ll_next h b"
    and "\<And>b. b \<in> set xs \<or> b = z \<Longrightarrow> ll_prev h' b = ll_prev h b"
  shows "linked h' a xs z = linked h a xs z"
  using assms by (induction xs arbitrary: a) auto

lemma ring_cong:
  assumes "\<And>b. b \<in> set (l # xs) \<Longrightarrow> ll_next h' b = ll_next h b \<and> ll_prev h' b = ll_prev h b"
  shows "ring h' l xs = ring h l xs"
  unfolding ring_def using assms by (intro arg_cong2 [where f = "(\<and>)"] refl linked_cong) auto

lemma insert_next: "ll_next (alt_llist_insert l e h) = (ll_next h)(e := ll_next h l, l := e)"
  by (simp add: alt_llist_insert_def Let_def)

lemma insert_prev:
  "l \<noteq> e \<Longrightarrow> ll_prev (alt_llist_insert l e h) = (ll_prev h)(e := l, ll_next h l := e)"
  by (simp add: alt_llist_insert_def Let_def)

lemma ring_next: "ring h l xs \<Longrightarrow> ll_next h l = (case xs of [] \<Rightarrow> l | x # _ \<Rightarrow> x)"
  by (auto simp: ring_def split: list.splits)

lemma ring_insert:
  assumes "ring h l xs" "e \<notin> set (l # xs)"
  shows "ring (alt_llist_insert l e h) l (e # xs)"
proof (cases xs)
  case Nil
  then show ?thesis using assms by (auto simp: ring_def insert_next insert_prev)
next
  case (Cons x ys)
  have "linked (alt_llist_insert l e h) x ys l = linked h x ys l"
    using assms Cons by (intro linked_cong) (auto simp: insert_next insert_prev ring_def)
  then show ?thesis using assms Cons by (auto simp: ring_def insert_next insert_prev)
qed

lemma ring_insert_other:
  assumes "ring h l xs" "ring h k ys" "set (l # xs) \<inter> set (k # ys) = {}" "e \<notin> set (l # k # xs @ ys)"
  shows "ring (alt_llist_insert l e h) k ys"
proof (rule ring_cong [THEN iffD2, OF _ assms(2)])
  fix b assume "b \<in> set (k # ys)"
  with assms show "ll_next (alt_llist_insert l e h) b = ll_next h b
      \<and> ll_prev (alt_llist_insert l e h) b = ll_prev h b"
    using ring_next [OF assms(1)] by (auto simp: insert_next insert_prev split: list.splits)
qed

text \<open>The entry's neighbours.\<close>

lemma ring_neighbours:
  assumes "ring h l (xs @ e # ys)"
  shows "ll_prev h e = last (l # xs)" "ll_next h e = hd (ys @ [l])"
  using assms
proof -
  have "linked h l (xs @ e # ys) l" using assms by (simp add: ring_def)
  then have *: "linked h l xs e" "linked h e ys l" by auto
  have p: "linked h a xs e \<Longrightarrow> ll_prev h e = last (a # xs)" for a
    by (induction xs arbitrary: a) auto
  show "ll_prev h e = last (l # xs)" using p * by blast
  show "ll_next h e = hd (ys @ [l])" using *(2) by (cases ys) auto
qed

lemma remove_next:
  "ll_prev h e \<noteq> e \<Longrightarrow> ll_next h e \<noteq> e \<Longrightarrow>
   ll_next (alt_llist_remove e h) = (ll_next h)(ll_prev h e := ll_next h e, e := e)"
  by (auto simp: alt_llist_remove_def Let_def)

lemma remove_prev:
  "ll_prev h e \<noteq> e \<Longrightarrow> ll_next h e \<noteq> e \<Longrightarrow>
   ll_prev (alt_llist_remove e h) = (ll_prev h)(ll_next h e := ll_prev h e, e := e)"
  by (auto simp: alt_llist_remove_def Let_def)

text \<open>Rewiring the ends of two adjacent chains joins them.\<close>

lemma linked_join:
  assumes "linked h a xs e" "linked h e ys z" "distinct (a # xs @ e # ys)" "z \<notin> set (xs @ e # ys)"
    and n: "ll_next h' = (ll_next h)(last (a # xs) := hd (ys @ [z]), e := e)"
    and p: "ll_prev h' = (ll_prev h)(hd (ys @ [z]) := last (a # xs), e := e)"
  shows "linked h' a (xs @ ys) z"
  using assms(1-4) n p
proof (induction xs arbitrary: a)
  case Nil
  show ?case
  proof (cases ys)
    case Nil with Nil.prems show ?thesis by auto
  next
    case (Cons y zs)
    have "linked h' y zs z = linked h y zs z"
      using Nil.prems Cons by (intro linked_cong) auto
    with Nil.prems Cons show ?thesis by auto
  qed
next
  case (Cons x xs)
  have "linked h' x (xs @ ys) z"
    by (rule Cons.IH) (use Cons.prems in auto)
  moreover have "ll_next h' a = x" using Cons.prems by (auto split: if_splits)
  moreover have "ll_prev h' x = a" using Cons.prems by (cases ys) (auto split: if_splits)
  ultimately show ?case by simp
qed

lemma ring_remove:
  assumes "ring h l (xs @ e # ys)"
  shows "ring (alt_llist_remove e h) l (xs @ ys)"
proof -
  have ne: "ll_prev h e \<noteq> e" "ll_next h e \<noteq> e"
    using assms ring_neighbours [OF assms] by (auto simp: ring_def last_conv_nth hd_append split: list.splits)
  have "linked (alt_llist_remove e h) l (xs @ ys) l"
    by (rule linked_join [of h l xs e ys])
       (use assms ne ring_neighbours [OF assms] in \<open>auto simp: ring_def remove_next remove_prev\<close>)
  then show ?thesis using assms by (auto simp: ring_def)
qed

lemma ring_remove_self: "ring (alt_llist_remove e h) e []"
  by (simp add: ring_def alt_llist_remove_def Let_def)

lemma ring_single_remove: "ring h e [] \<Longrightarrow> alt_llist_remove e h = h"
  by (simp add: ring_def alt_llist_remove_def Let_def fun_upd_idem)

lemma ring_head: "ring (alt_llist_head l h) l []"
  by (simp add: ring_def alt_llist_head_def)

lemma ring_remove_other:
  assumes "ring h l (xs @ e # ys)" "ring h k zs" "set (l # xs @ e # ys) \<inter> set (k # zs) = {}"
  shows "ring (alt_llist_remove e h) k zs"
proof (rule ring_cong [THEN iffD2, OF _ assms(2)])
  note nb = ring_neighbours [OF assms(1)]
  have mem: "ll_prev h e \<in> set (l # xs)" "ll_next h e \<in> set (l # ys)"
    unfolding nb using last_in_set [of "l # xs"] hd_in_set [of "ys @ [l]"] by auto
  then have ne: "ll_prev h e \<noteq> e" "ll_next h e \<noteq> e" using assms(1) by (auto simp: ring_def)
  fix b assume "b \<in> set (k # zs)"
  then have "b \<noteq> e" "b \<noteq> ll_prev h e" "b \<noteq> ll_next h e" using mem assms(3) by auto
  then show "ll_next (alt_llist_remove e h) b = ll_next h b
      \<and> ll_prev (alt_llist_remove e h) b = ll_prev h b"
    using ne by (simp add: remove_next remove_prev)
qed

section \<open>The contract of the list operations\<close>

text \<open>
  What the registries rely on: \<open>rep h l xs\<close> says that in heap \<open>h\<close> the list with head \<open>l\<close> holds
  the entries \<open>xs\<close>.  Insertion puts an entry in front, removal takes it out and leaves it a
  list of its own, both leave every disjoint list alone, and removing an entry that is on no
  list changes nothing (the comment in \<open>alt_llist_remove\<close>).
\<close>

locale llist_contract =
  fixes ins :: "'p \<Rightarrow> 'p \<Rightarrow> 'h \<Rightarrow> 'h"
    and rem :: "'p \<Rightarrow> 'h \<Rightarrow> 'h"
    and rep :: "'h \<Rightarrow> 'p \<Rightarrow> 'p list \<Rightarrow> bool"
  assumes rep_distinct: "rep h l xs \<Longrightarrow> distinct (l # xs)"
    and ins_rep: "rep h l xs \<Longrightarrow> e \<notin> set (l # xs) \<Longrightarrow> rep (ins l e h) l (e # xs)"
    and ins_frame: "rep h l xs \<Longrightarrow> rep h k ys \<Longrightarrow> set (l # xs) \<inter> set (k # ys) = {}
          \<Longrightarrow> e \<notin> set (l # k # xs @ ys) \<Longrightarrow> rep (ins l e h) k ys"
    and rem_rep: "rep h l (xs @ e # ys) \<Longrightarrow> rep (rem e h) l (xs @ ys)"
    and rem_frame: "rep h l (xs @ e # ys) \<Longrightarrow> rep h k zs
          \<Longrightarrow> set (l # xs @ e # ys) \<inter> set (k # zs) = {} \<Longrightarrow> rep (rem e h) k zs"
    and rem_alone: "rep (rem e h) e []"
    and rem_idle: "rep h e [] \<Longrightarrow> rem e h = h"
begin

text \<open>Registering several entries: the last one registered is found first.\<close>

lemma register_all:
  "rep h l xs \<Longrightarrow> distinct (es @ l # xs) \<Longrightarrow> rep (fold (ins l) es h) l (rev es @ xs)"
proof (induction es arbitrary: h xs)
  case (Cons e es)
  then have "rep (ins l e h) l (e # xs)" by (intro ins_rep) auto
  from Cons.IH [OF this] Cons.prems show ?case by auto
qed simp

lemma remove_entry:
  assumes "rep h l xs" "e \<in> set xs"
  shows "rep (rem e h) l (remove1 e xs)"
proof -
  obtain ys zs where "xs = ys @ e # zs" "e \<notin> set ys" using assms(2) by (meson split_list_first)
  then show ?thesis using rem_rep assms(1) by (auto simp: remove1_append)
qed

text \<open>A second removal is harmless.\<close>

lemma remove_again: "rem e (rem e h) = rem e h"
  by (rule rem_idle [OF rem_alone])

lemma insert_remove:
  "rep h l xs \<Longrightarrow> e \<notin> set (l # xs) \<Longrightarrow> rep (rem e (ins l e h)) l xs"
  using rem_rep [of "ins l e h" l "[]" e xs] ins_rep by simp

end

interpretation ll: llist_contract alt_llist_insert alt_llist_remove ring
proof (unfold_locales, goal_cases)
  case (1 h l xs) then show ?case by (simp add: ring_def)
next
  case (2 h l xs e) then show ?case by (rule ring_insert)
next
  case (3 h l xs k ys e) then show ?case by (rule ring_insert_other)
next
  case (4 h l xs e ys) then show ?case by (rule ring_remove)
next
  case (5 h l xs e ys k zs) then show ?case by (rule ring_remove_other)
next
  case (6 e h) show ?case by (rule ring_remove_self)
next
  case (7 h e) then show ?case by (rule ring_single_remove)
qed

section \<open>string.h\<close>

text \<open>\<open>strlen\<close> reads memory up to the first zero byte.\<close>

partial_function (option) strlen :: "(u32 \<Rightarrow> u8) \<Rightarrow> u32 \<Rightarrow> u32 option" where
  "strlen m p = (if m p = 0 then Some 0 else do { n \<leftarrow> strlen m (p + 1); Some (n + 1) })"

text \<open>\<open>memcmp (p, q, n) == 0\<close>; the callers test nothing else.\<close>

fun memcmp_eq :: "(u32 \<Rightarrow> u8) \<Rightarrow> u32 \<Rightarrow> u32 \<Rightarrow> nat \<Rightarrow> bool" where
  "memcmp_eq m p q 0 = True"
| "memcmp_eq m p q (Suc n) = (m p = m q \<and> memcmp_eq m (p + 1) (q + 1) n)"

text \<open>The bytes of a C string at an address, its terminator included.\<close>

fun cstr :: "(u32 \<Rightarrow> u8) \<Rightarrow> u32 \<Rightarrow> u8 list \<Rightarrow> bool" where
  "cstr m p [] = (m p = 0)"
| "cstr m p (c # cs) = (c \<noteq> 0 \<and> m p = c \<and> cstr m (p + 1) cs)"

lemma strlen_cstr: "cstr m p cs \<Longrightarrow> strlen m p = Some (of_nat (length cs))"
  by (induction m p cs rule: cstr.induct) (subst strlen.simps, simp add: add.commute)+

lemma cstr_nth: "cstr m p cs \<Longrightarrow> i < length cs \<Longrightarrow> m (p + of_nat i) = cs ! i"
proof (induction m p cs arbitrary: i rule: cstr.induct)
  case (2 m p c cs)
  then show ?case
    by (cases i) (auto simp: add.assoc)
qed simp

lemma cstr_end: "cstr m p cs \<Longrightarrow> m (p + of_nat (length cs)) = 0"
  by (induction m p cs rule: cstr.induct) (auto simp: algebra_simps)

lemma cstr_nonzero: "cstr m p cs \<Longrightarrow> 0 \<notin> set cs"
  by (induction m p cs rule: cstr.induct) auto

text \<open>Comparing one byte more than the length of one string decides equality.\<close>

lemma memcmp_whole: "cstr m p as \<Longrightarrow> cstr m q bs \<Longrightarrow> memcmp_eq m p q (Suc (length bs)) = (as = bs)"
proof (induction bs arbitrary: p q as)
  case Nil
  then show ?case by (cases as) auto
next
  case (Cons b bs)
  show ?case
  proof (cases as)
    case Nil
    then show ?thesis using Cons.prems by auto
  next
    case (Cons a as')
    then show ?thesis using Cons.prems Cons.IH [of "p + 1" as' "q + 1"] by auto
  qed
qed

text \<open>Comparing at most the length of one string decides whether that much of it is a prefix.\<close>

lemma memcmp_prefix:
  "cstr m p as \<Longrightarrow> cstr m q bs \<Longrightarrow> n \<le> length as \<Longrightarrow>
   memcmp_eq m p q n = (n \<le> length bs \<and> take n bs = take n as)"
proof (induction n arbitrary: p q as bs)
  case (Suc n)
  obtain a as' where a: "as = a # as'" using Suc.prems by (cases as) auto
  show ?case
  proof (cases bs)
    case Nil
    then show ?thesis using Suc.prems a by auto
  next
    case (Cons b bs')
    then show ?thesis using Suc.prems a Suc.IH [of "p + 1" as' "q + 1" bs'] by auto
  qed
qed simp

section \<open>Searching a list\<close>

text \<open>
  The loop of both searches:
  \<^verbatim>\<open>while (next != llist) { if (test) return next; next = next->llist.next; } return NULL;\<close>
\<close>

partial_function (option) llist_find ::
  "(u32 \<Rightarrow> bool option) \<Rightarrow> llist_heap \<Rightarrow> u32 \<Rightarrow> u32 \<Rightarrow> u32 option" where
  "llist_find test h llist nxt =
     (if nxt = llist then Some 0
      else do {
        b \<leftarrow> test nxt;
        (if b then Some nxt else llist_find test h llist (ll_next h nxt))
      })"

text \<open>On a proper list the loop ends, with the first entry that passes the test.\<close>

definition first_match :: "(u32 \<Rightarrow> bool) \<Rightarrow> u32 list \<Rightarrow> u32" where
  "first_match P xs = (case find P xs of None \<Rightarrow> 0 | Some e \<Rightarrow> e)"

lemma first_match_simps [simp]:
  "first_match P [] = 0"
  "first_match P (x # xs) = (if P x then x else first_match P xs)"
  by (simp_all add: first_match_def)

lemma llist_find_linked:
  assumes "linked h a xs l" "l \<notin> set xs" "\<And>x. x \<in> set xs \<Longrightarrow> test x = Some (P x)"
  shows "llist_find test h l (ll_next h a) = Some (first_match P xs)"
  using assms
proof (induction xs arbitrary: a)
  case Nil
  then show ?case by (simp add: llist_find.simps [of test])
next
  case (Cons x xs)
  then show ?case by (auto simp: llist_find.simps [of test h l x])
qed

lemma llist_find_ring:
  "ring h l xs \<Longrightarrow> (\<And>x. x \<in> set xs \<Longrightarrow> test x = Some (P x)) \<Longrightarrow>
   llist_find test h l (ll_next h l) = Some (first_match P xs)"
  by (rule llist_find_linked) (auto simp: ring_def)

text \<open>\<open>alt_find_dev\<close>: \<open>nm d\<close> is the \<open>name\<close> pointer of the device structure at \<open>d\<close>.\<close>

definition alt_find_dev ::
  "(u32 \<Rightarrow> u8) \<Rightarrow> (u32 \<Rightarrow> u32) \<Rightarrow> u32 \<Rightarrow> u32 \<Rightarrow> llist_heap \<Rightarrow> u32 option" where
  "alt_find_dev m nm name llist h = do {
     n \<leftarrow> strlen m name;
     let len = n + 1;
     llist_find (\<lambda>nxt. Some (memcmp_eq m (nm nxt) name (unat len))) h llist (ll_next h llist)
   }"

text \<open>The test of \<open>alt_find_file\<close> on one file system.\<close>

definition mount_test :: "(u32 \<Rightarrow> u8) \<Rightarrow> u32 \<Rightarrow> u32 \<Rightarrow> bool option" where
  "mount_test m name fsname = do {
     len \<leftarrow> strlen m fsname;
     let len = (if m (fsname + (len - 1)) = 0x2F then len - 1 else len);
     Some ((m (name + len) = 0x2F \<or> m (name + len) = 0) \<and> memcmp_eq m fsname name (unat len))
   }"

definition alt_find_file ::
  "(u32 \<Rightarrow> u8) \<Rightarrow> (u32 \<Rightarrow> u32) \<Rightarrow> u32 \<Rightarrow> u32 \<Rightarrow> llist_heap \<Rightarrow> u32 option" where
  "alt_find_file m nm name fs_list h =
     llist_find (\<lambda>nxt. mount_test m name (nm nxt)) h fs_list (ll_next h fs_list)"

text \<open>What the comment of \<open>alt_find_file\<close> promises: the file system's name, without a trailing
  slash, followed by a slash or the end of the name, is a prefix of the file name.\<close>

definition mount_point :: "u8 list \<Rightarrow> u8 list" where
  "mount_point fs = (if fs \<noteq> [] \<and> last fs = 0x2F then butlast fs else fs)"

definition mounts :: "u8 list \<Rightarrow> u8 list \<Rightarrow> bool" where
  "mounts fs name \<longleftrightarrow>
     (let mp = mount_point fs in
      name = mp \<or> (length mp < length name \<and> take (length mp) name = mp \<and> name ! length mp = 0x2F))"

lemma alt_find_dev_ring:
  assumes r: "ring h l ds" and nm: "cstr m name bs" and len: "length bs < 2 ^ 31"
    and ns: "\<And>d. d \<in> set ds \<Longrightarrow> cstr m (nm d) (dn d)"
  shows "alt_find_dev m nm name l h = Some (first_match (\<lambda>d. dn d = bs) ds)"
proof -
  have u: "unat (of_nat (length bs) + 1 :: u32) = Suc (length bs)"
    using len by (simp add: unat_word_ariths unat_of_nat take_bit_eq_mod)
  show ?thesis
    unfolding alt_find_dev_def strlen_cstr [OF nm]
    by (simp add: Let_def u del: memcmp_eq.simps, rule llist_find_ring [OF r])
       (simp add: memcmp_whole [OF ns nm] del: memcmp_eq.simps)
qed

lemma mount_test_cstr:
  assumes fs: "cstr m f fs" "fs \<noteq> []" and nm: "cstr m name bs" and len: "length fs < 2 ^ 31"
  shows "mount_test m name f = Some (mounts fs bs)"
proof -
  let ?n = "length (mount_point fs)"
  have w: "of_nat (length fs) - 1 = (of_nat (length fs - 1) :: u32)"
    using fs(2) by (cases fs) auto
  have l: "m (f + (of_nat (length fs) - 1)) = last fs"
    unfolding w using cstr_nth [OF fs(1), of "length fs - 1"] fs(2) by (simp add: last_conv_nth)
  have le: "?n \<le> length fs" by (simp add: mount_point_def)
  have mp: "take ?n fs = mount_point fs" by (auto simp: mount_point_def butlast_conv_take)
  have n: "(if last fs = 0x2F then of_nat (length fs) - 1 else of_nat (length fs)) = (of_nat ?n :: u32)"
    using fs(2) w by (simp add: mount_point_def)
  have u: "unat (of_nat ?n :: u32) = ?n"
    using le len by (simp add: unat_of_nat take_bit_eq_mod)
  have ch: "m (name + of_nat ?n) = (if ?n < length bs then bs ! ?n else 0)" if "?n \<le> length bs"
    using that cstr_nth [OF nm, of ?n] cstr_end [OF nm] by auto
  have nz: "0 \<notin> set bs" by (rule cstr_nonzero [OF nm])
  show ?thesis
    unfolding mount_test_def strlen_cstr [OF fs(1)]
    using ch nz mp
    by (auto simp: Let_def l n u memcmp_prefix [OF fs(1) nm le] mounts_def in_set_conv_nth
             split: if_splits)
qed

lemma alt_find_file_ring:
  assumes r: "ring h l ds" and nm: "cstr m name bs"
    and ns: "\<And>d. d \<in> set ds \<Longrightarrow> cstr m (nm d) (dn d) \<and> dn d \<noteq> [] \<and> length (dn d) < 2 ^ 31"
  shows "alt_find_file m nm name l h = Some (first_match (\<lambda>d. mounts (dn d) bs) ds)"
  unfolding alt_find_file_def
  by (rule llist_find_ring [OF r]) (use ns mount_test_cstr [OF _ _ nm] in auto)

end
