(* ===== verification/HAL_Irq.thy ===== *)
theory HAL_Irq
  imports Bus_IO
begin

text \<open>
  Interrupts: the internal interrupt controller of the Nios II as the HAL drives it
  (\<open>HAL/src/alt_iic.c\<close>, \<open>alt_iic_isr_register.c\<close>, \<open>alt_irq_register.c\<close>, \<open>alt_irq_handler.c\<close>,
  \<open>alt_irq_vars.c\<close>, \<open>altera_nios2_gen2_irq.c\<close>, \<open>HAL/inc/priv/alt_legacy_irq.h\<close>) and the
  dispatch of instruction exceptions (\<open>alt_instruction_exception_entry.c\<close>,
  \<open>alt_instruction_exception_register.c\<close>).

  The interrupt lines are hardware: \<open>lines :: 'h \<Rightarrow> u32\<close> says which are raised.  The handlers
  behind function pointers are a table \<open>H\<close>.  None stands for a run without a defined result:
  a handler that does not return, an endless loop, an index outside the table, a call through
  a null pointer, a shift by more than the width.
\<close>

abbreviation (input) ALT_NIRQ :: nat where "ALT_NIRQ \<equiv> 32"

record isr_entry =
  ih_handler :: u32
  ih_context :: u32

record 'h irq_st = "'h mach" +
  alt_irq_active :: u32
  alt_priority_mask :: u32
  alt_irq :: "nat \<Rightarrow> isr_entry"
  alt_instruction_exception_handler :: u32

type_synonym 's isr_table = "u32 \<Rightarrow> u32 \<Rightarrow> (unit, 's) prog"

section \<open>Single interrupt lines (alt_legacy_irq.h, alt_iic.c)\<close>

text \<open>\<open>1 << id\<close>; a shift by 32 or more is undefined.\<close>

definition irq_bit :: "u32 \<Rightarrow> u32 option" where
  "irq_bit n = (if n < 32 then Some (push_bit (unat n) 1) else None)"

definition altera_nios2_gen2_irq_init :: "(unit, ('h, 'x) irq_st_scheme) prog" where
  "altera_nios2_gen2_irq_init s = Some ((), s\<lparr>cpu_ienable := 0\<rparr>)"

definition alt_irq_disable :: "u32 \<Rightarrow> (int, ('h, 'x) irq_st_scheme) prog" where
  "alt_irq_disable n s = do {
     b \<leftarrow> irq_bit n;
     (status, s) \<leftarrow> alt_irq_disable_all s;
     let s = s\<lparr>alt_irq_active := alt_irq_active s AND NOT b\<rparr>;
     let s = s\<lparr>cpu_ienable := alt_irq_active s\<rparr>;
     (_, s) \<leftarrow> alt_irq_enable_all status s;
     Some (0, s)
   }"

definition alt_irq_enable :: "u32 \<Rightarrow> (int, ('h, 'x) irq_st_scheme) prog" where
  "alt_irq_enable n s = do {
     b \<leftarrow> irq_bit n;
     (status, s) \<leftarrow> alt_irq_disable_all s;
     let s = s\<lparr>alt_irq_active := alt_irq_active s OR b\<rparr>;
     let s = s\<lparr>cpu_ienable := alt_irq_active s\<rparr>;
     (_, s) \<leftarrow> alt_irq_enable_all status s;
     Some (0, s)
   }"

definition alt_ic_irq_enable :: "u32 \<Rightarrow> u32 \<Rightarrow> (int, ('h, 'x) irq_st_scheme) prog" where
  "alt_ic_irq_enable ic_id irq s = alt_irq_enable irq s"

definition alt_ic_irq_disable :: "u32 \<Rightarrow> u32 \<Rightarrow> (int, ('h, 'x) irq_st_scheme) prog" where
  "alt_ic_irq_disable ic_id irq s = alt_irq_disable irq s"

definition alt_ic_irq_enabled :: "u32 \<Rightarrow> u32 \<Rightarrow> (u32, ('h, 'x) irq_st_scheme) prog" where
  "alt_ic_irq_enabled ic_id irq s = do {
     b \<leftarrow> irq_bit irq;
     Some (if cpu_ienable s AND b \<noteq> 0 then 1 else 0, s)
   }"

text \<open>Nested interrupts.\<close>

definition alt_irq_interruptible :: "u32 \<Rightarrow> (u32, ('h, 'x) irq_st_scheme) prog" where
  "alt_irq_interruptible priority s = do {
     b \<leftarrow> irq_bit priority;
     let old_priority = alt_priority_mask s;
     let s = s\<lparr>alt_priority_mask := b - 1\<rparr>;
     let s = s\<lparr>cpu_ienable := alt_irq_active s AND alt_priority_mask s\<rparr>;
     Some (old_priority, s\<lparr>cpu_status := 1\<rparr>)
   }"

definition alt_irq_non_interruptible :: "u32 \<Rightarrow> (unit, ('h, 'x) irq_st_scheme) prog" where
  "alt_irq_non_interruptible prio_mask s =
     (let s = s\<lparr>cpu_status := 0\<rparr>;
          s = s\<lparr>alt_priority_mask := prio_mask\<rparr>
      in Some ((), s\<lparr>cpu_ienable := prio_mask AND alt_irq_active s\<rparr>))"

section \<open>Registration\<close>

text \<open>The enhanced API compares the interrupt number as a signed \<open>int\<close>; a negative one passes
  the test and is used as an index.\<close>

definition alt_iic_isr_register :: "u32 \<Rightarrow> u32 \<Rightarrow> u32 \<Rightarrow> u32 \<Rightarrow> (int, ('h, 'x) irq_st_scheme) prog" where
  "alt_iic_isr_register ic_id irq isr isr_context s =
     (let id = sint irq in
      if id < int ALT_NIRQ then
        (if id < 0 then None
         else do {
           (status, s) \<leftarrow> alt_irq_disable_all s;
           let s = s\<lparr>alt_irq := (alt_irq s)(nat id := \<lparr>ih_handler = isr, ih_context = isr_context\<rparr>)\<rparr>;
           (rc, s) \<leftarrow> (if isr \<noteq> 0 then alt_ic_irq_enable ic_id (word_of_int id) s
                       else alt_ic_irq_disable ic_id (word_of_int id) s);
           (_, s) \<leftarrow> alt_irq_enable_all status s;
           Some (rc, s)
         })
      else Some (- 22, s))"

definition alt_ic_isr_register :: "u32 \<Rightarrow> u32 \<Rightarrow> u32 \<Rightarrow> u32 \<Rightarrow> (int, ('h, 'x) irq_st_scheme) prog" where
  "alt_ic_isr_register ic_id irq isr isr_context s = alt_iic_isr_register ic_id irq isr isr_context s"

text \<open>The legacy API compares unsigned.\<close>

definition alt_irq_register :: "u32 \<Rightarrow> u32 \<Rightarrow> u32 \<Rightarrow> (int, ('h, 'x) irq_st_scheme) prog" where
  "alt_irq_register n context handler s =
     (if n < of_nat ALT_NIRQ then do {
        (status, s) \<leftarrow> alt_irq_disable_all s;
        let s = s\<lparr>alt_irq := (alt_irq s)(unat n := \<lparr>ih_handler = handler, ih_context = context\<rparr>)\<rparr>;
        (rc, s) \<leftarrow> (if handler \<noteq> 0 then alt_irq_enable n s else alt_irq_disable n s);
        (_, s) \<leftarrow> alt_irq_enable_all status s;
        Some (rc, s)
      } else Some (- 22, s))"

section \<open>Dispatch (alt_irq_handler.c)\<close>

text \<open>\<open>ipending\<close> is the set of raised lines that are enabled.\<close>

definition alt_irq_pending :: "('h \<Rightarrow> u32) \<Rightarrow> ('h, 'x) irq_st_scheme \<Rightarrow> u32" where
  "alt_irq_pending lines s = lines (hw s) AND cpu_ienable s"

text \<open>The inner loop: the index of the first bit of \<open>active\<close>, from \<open>i\<close> and \<open>m\<close> on.\<close>

partial_function (option) irq_scan :: "u32 \<Rightarrow> nat \<Rightarrow> u32 \<Rightarrow> nat option" where
  "irq_scan active i m =
     (if active AND m \<noteq> 0 then Some i else irq_scan active (i + 1) (push_bit 1 m))"

definition call_isr :: "'s isr_table \<Rightarrow> isr_entry \<Rightarrow> (unit, 's) prog" where
  "call_isr H e s = (if ih_handler e = 0 then None else H (ih_handler e) (ih_context e) s)"

partial_function (option) irq_loop ::
  "('h, 'x) irq_st_scheme isr_table \<Rightarrow> ('h \<Rightarrow> u32) \<Rightarrow> u32 \<Rightarrow> (unit, ('h, 'x) irq_st_scheme) prog" where
  "irq_loop H lines active s = do {
     i \<leftarrow> irq_scan active 0 1;
     (_, s) \<leftarrow> call_isr H (alt_irq s i) s;
     (let active = alt_irq_pending lines s in
      if active \<noteq> 0 then irq_loop H lines active s else Some ((), s))
   }"

definition alt_irq_handler ::
  "('h, 'x) irq_st_scheme isr_table \<Rightarrow> ('h \<Rightarrow> u32) \<Rightarrow> (unit, ('h, 'x) irq_st_scheme) prog" where
  "alt_irq_handler H lines s = irq_loop H lines (alt_irq_pending lines s) s"

section \<open>Instruction exceptions\<close>

datatype alt_exception_cause =
    CAUSE_NOT_PRESENT | EXC_RESET | CPU_ONLY_RESET_REQUEST | EXC_INTERRUPT | TRAP_INST
  | UNIMPLEMENTED_INST | ILLEGAL_INST | MISALIGNED_DATA_ADDR | MISALIGNED_TARGET_PC
  | DIVISION_ERROR | SUPERVISOR_ONLY_INST_ADDR | SUPERVISOR_ONLY_INST
  | SUPERVISOR_ONLY_DATA_ADDR | TLB_MISS | TLB_EXECUTE_PERM_VIOLATION
  | TLB_READ_PERM_VIOLATION | TLB_WRITE_PERM_VIOLATION | MPU_INST_REGION_VIOLATION
  | MPU_DATA_REGION_VIOLATION | ECC_TLB_ERR | ECC_FETCH_ERR | ECC_REGISTER_FILE_ERR
  | ECC_DATA_ERR | ECC_DATA_CACHE_WRITEBACK_ERR

fun cause_code :: "alt_exception_cause \<Rightarrow> int" where
  "cause_code CAUSE_NOT_PRESENT = -1"
| "cause_code EXC_RESET = 0"
| "cause_code CPU_ONLY_RESET_REQUEST = 1"
| "cause_code EXC_INTERRUPT = 2"
| "cause_code TRAP_INST = 3"
| "cause_code UNIMPLEMENTED_INST = 4"
| "cause_code ILLEGAL_INST = 5"
| "cause_code MISALIGNED_DATA_ADDR = 6"
| "cause_code MISALIGNED_TARGET_PC = 7"
| "cause_code DIVISION_ERROR = 8"
| "cause_code SUPERVISOR_ONLY_INST_ADDR = 9"
| "cause_code SUPERVISOR_ONLY_INST = 10"
| "cause_code SUPERVISOR_ONLY_DATA_ADDR = 11"
| "cause_code TLB_MISS = 12"
| "cause_code TLB_EXECUTE_PERM_VIOLATION = 13"
| "cause_code TLB_READ_PERM_VIOLATION = 14"
| "cause_code TLB_WRITE_PERM_VIOLATION = 15"
| "cause_code MPU_INST_REGION_VIOLATION = 16"
| "cause_code MPU_DATA_REGION_VIOLATION = 17"
| "cause_code ECC_TLB_ERR = 18"
| "cause_code ECC_FETCH_ERR = 19"
| "cause_code ECC_REGISTER_FILE_ERR = 20"
| "cause_code ECC_DATA_ERR = 21"
| "cause_code ECC_DATA_CACHE_WRITEBACK_ERR = 22"

text \<open>The argument is the 5-bit code as an \<open>int\<close>, which need not be one of the enumeration.\<close>

definition alt_exception_cause_generated_bad_addr :: "int \<Rightarrow> int" where
  "alt_exception_cause_generated_bad_addr cause =
     (if cause \<in> cause_code ` {SUPERVISOR_ONLY_DATA_ADDR, MISALIGNED_DATA_ADDR, MISALIGNED_TARGET_PC,
           TLB_READ_PERM_VIOLATION, TLB_WRITE_PERM_VIOLATION, MPU_DATA_REGION_VIOLATION, ECC_DATA_ERR}
      then 1 else 0)"

definition alt_instruction_exception_register :: "u32 \<Rightarrow> (unit, ('h, 'x) irq_st_scheme) prog" where
  "alt_instruction_exception_register handler s =
     Some ((), s\<lparr>alt_instruction_exception_handler := handler\<rparr>)"

text \<open>\<open>exc_reg\<close> and \<open>badaddr\<close> are the control registers \<open>exception\<close> and \<open>badaddr\<close>; a handler
  takes the cause, the program counter and the address.  Without a handler the routine breaks
  into the debugger, from where it is not resumed by the program.\<close>

definition alt_instruction_exception_entry ::
  "(u32 \<Rightarrow> u32 \<Rightarrow> u32 \<Rightarrow> u32 \<Rightarrow> (int, ('h, 'x) irq_st_scheme) prog) \<Rightarrow> u32 \<Rightarrow> u32 \<Rightarrow> u32
     \<Rightarrow> (int, ('h, 'x) irq_st_scheme) prog" where
  "alt_instruction_exception_entry X exc_reg badaddr exception_pc s =
     (let cause = drop_bit 2 (exc_reg AND 0x7C) in
      if alt_instruction_exception_handler s \<noteq> 0
      then X (alt_instruction_exception_handler s) cause exception_pc badaddr s
      else None)"

section \<open>The scan finds the lowest bit\<close>

lemma irq_scan_step:
  "irq_scan active i (push_bit i 1) =
     (if bit active i then Some i else irq_scan active (i + 1) (push_bit (i + 1) 1))" if "i < 32" for i
proof -
  have "active AND push_bit i 1 \<noteq> 0 \<longleftrightarrow> bit active i"
    using that by (simp add: bit_iff_and_push_bit_not_eq_0)
  then show ?thesis
    by (subst irq_scan.simps) (simp add: push_bit_push_bit add.commute mult.commute)
qed

lemma irq_scan_from:
  assumes "bit active k" "k < 32" "\<forall>j. i \<le> j \<and> j < k \<longrightarrow> \<not> bit active j" "i \<le> k"
  shows "irq_scan active i (push_bit i 1) = Some k"
  using assms
proof (induction "k - i" arbitrary: i)
  case 0
  then show ?case by (subst irq_scan_step) auto
next
  case (Suc n)
  then have "i < k" by simp
  moreover have "irq_scan active (i + 1) (push_bit (i + 1) 1) = Some k"
    by (rule Suc.hyps(1)) (use Suc \<open>i < k\<close> in auto)
  ultimately show ?case using Suc.prems by (subst irq_scan_step) auto
qed

definition lowest :: "u32 \<Rightarrow> nat" where
  "lowest w = (LEAST i. bit w i)"

lemma lowest_bit: "w \<noteq> 0 \<Longrightarrow> bit w (lowest w) \<and> lowest w < 32 \<and> (\<forall>j < lowest w. \<not> bit w j)"
proof -
  assume "w \<noteq> 0"
  then obtain i where i: "bit w i" by (auto simp: bit_eq_iff)
  then have b: "bit w (lowest w)" unfolding lowest_def by (rule LeastI)
  moreover have "lowest w < 32" using bit_imp_le_length [OF b] by simp
  moreover have "\<not> bit w j" if "j < lowest w" for j
    using that unfolding lowest_def by (rule not_less_Least)
  ultimately show ?thesis by simp
qed

lemma irq_scan_lowest: "active \<noteq> 0 \<Longrightarrow> irq_scan active 0 1 = Some (lowest active)"
  using irq_scan_from [of active "lowest active" 0] lowest_bit [of active] by simp

text \<open>With nothing pending the scan never ends.\<close>

lemma irq_scan_Some:
  assumes r: "irq_scan active i m = Some r"
  shows "active \<noteq> 0"
proof -
  let ?P = "\<lambda>(a :: u32) (i :: nat) (m :: u32) (r :: nat). a \<noteq> 0"
  show ?thesis
    by (rule irq_scan.raw_induct [where P = ?P, OF _ r]) (auto split: if_splits)
qed

lemma irq_scan_zero: "irq_scan 0 i m = None"
  using irq_scan_Some [of 0 i m] by (cases "irq_scan 0 i m") auto

section \<open>Registration in one step\<close>

lemma irq_bit_eq: "n < 32 \<Longrightarrow> irq_bit n = Some (push_bit (unat n) 1)"
  by (simp add: irq_bit_def)

lemma small_irq:
  assumes "n < (32 :: u32)"
  shows "sint n = int (unat n)" "unat n < 32"
proof -
  show l: "unat n < 32" using assms by (simp add: word_less_nat_alt)
  have "uint n < 2 ^ 31" using assms by (simp add: word_less_def)
  from sint_u32_small [OF this]
  show "sint n = int (unat n)" by simp
qed

lemma isr_register_eq:
  assumes "n < 32"
  shows "alt_ic_isr_register ic n h c s =
    Some (0, let act = (if h \<noteq> 0 then alt_irq_active s OR push_bit (unat n) 1
                        else alt_irq_active s AND NOT (push_bit (unat n) 1))
             in s\<lparr>alt_irq := (alt_irq s)(unat n := \<lparr>ih_handler = h, ih_context = c\<rparr>),
                  alt_irq_active := act, cpu_ienable := act\<rparr>)"
proof -
  have ui: "uint n < 32" using assms by (simp add: word_less_def)
  show ?thesis
    using small_irq [OF assms] ui
    by (simp add: alt_ic_isr_register_def alt_iic_isr_register_def alt_ic_irq_enable_def
          alt_ic_irq_disable_def alt_irq_enable_def alt_irq_disable_def irq_bit_eq [OF assms]
          prog_defs Let_def del: push_bit_of_1 of_int_of_nat_eq)
qed

end
