(* ===== verification/HAL_FD.thy ===== *)
theory HAL_FD
  imports HAL_List HAL_Irq
begin

text \<open>
  The file layer of the HAL (\<open>HAL/src/alt_dev.c\<close>, \<open>alt_open.c\<close>, \<open>alt_close.c\<close>, \<open>alt_read.c\<close>,
  \<open>alt_write.c\<close>, \<open>alt_lseek.c\<close>, \<open>alt_fstat.c\<close>, \<open>alt_isatty.c\<close>, \<open>alt_ioctl.c\<close>, \<open>alt_fcntl.c\<close>,
  \<open>alt_get_fd.c\<close>, \<open>alt_release_fd.c\<close>, \<open>alt_fd_lock.c\<close>, \<open>alt_fd_unlock.c\<close>,
  \<open>alt_io_redirect.c\<close>, \<open>alt_dev_llist_insert.c\<close>, \<open>alt_fs_reg.c\<close>): the pool of descriptors, the
  registries of devices and file systems, and the system calls that dispatch to a driver.
  This build does not define \<open>ALT_USE_DIRECT_DRIVERS\<close>, so the second variants apply.

  A device structure is read through a table \<open>E\<close>, a parameter: its function pointers are
  drivers, optional as in C.  The result None of a call stands for a driver that does not
  return, a descriptor number outside the pool, or a null device pointer: in those cases C
  gives no meaning to the run.
\<close>

section \<open>Constants of newlib and the HAL\<close>

abbreviation (input) ALT_MAX_FD :: nat where "ALT_MAX_FD \<equiv> 32"
abbreviation (input) ALT_FD_EXCL :: u32 where "ALT_FD_EXCL \<equiv> 0x80000000"
abbreviation (input) ALT_FD_DEV :: u32 where "ALT_FD_DEV \<equiv> 0x40000000"
abbreviation (input) ALT_FD_FLAGS_MASK :: u32 where "ALT_FD_FLAGS_MASK \<equiv> 0xC0000000"
abbreviation (input) O_RDONLY :: u32 where "O_RDONLY \<equiv> 0"
abbreviation (input) O_WRONLY :: u32 where "O_WRONLY \<equiv> 1"
abbreviation (input) O_ACCMODE :: u32 where "O_ACCMODE \<equiv> 3"
abbreviation (input) ALT_FCNTL_FLAGS_MASK :: u32 where "ALT_FCNTL_FLAGS_MASK \<equiv> 0x4008"
abbreviation (input) F_GETFL :: int where "F_GETFL \<equiv> 3"
abbreviation (input) F_SETFL :: int where "F_SETFL \<equiv> 4"
abbreviation (input) TIOCEXCL :: u32 where "TIOCEXCL \<equiv> 0x740d"
abbreviation (input) TIOCNXCL :: u32 where "TIOCNXCL \<equiv> 0x740e"
abbreviation (input) IFCHR :: u32 where "IFCHR \<equiv> 0x2000"
abbreviation (input) EACCES :: int where "EACCES \<equiv> 13"
abbreviation (input) ENODEV :: int where "ENODEV \<equiv> 19"
abbreviation (input) EINVAL :: int where "EINVAL \<equiv> 22"
abbreviation (input) EMFILE :: int where "EMFILE \<equiv> 24"
abbreviation (input) ENOTTY :: int where "ENOTTY \<equiv> 25"
abbreviation (input) EBADFD :: int where "EBADFD \<equiv> 81"
abbreviation (input) ENOTSUP :: int where "ENOTSUP \<equiv> 134"

section \<open>State\<close>

record alt_fd =
  fd_dev :: u32
  fd_priv :: u32
  fd_flags :: u32

record 'h hal = "'h irq_st" +
  alt_fd_list :: "nat \<Rightarrow> alt_fd"
  alt_max_fd :: int
  errno :: int
  links :: llist_heap
  bytes :: "u32 \<Rightarrow> u8"
  st_mode :: "u32 \<Rightarrow> u32"

text \<open>A device structure over the states of the program; descriptors are passed by index.\<close>

record 's alt_dev =
  dv_name :: u32
  dv_open :: "(nat \<Rightarrow> u32 \<Rightarrow> u32 \<Rightarrow> u32 \<Rightarrow> (int, 's) prog) option"
  dv_close :: "(nat \<Rightarrow> (int, 's) prog) option"
  dv_read :: "(nat \<Rightarrow> u32 \<Rightarrow> u32 \<Rightarrow> (int, 's) prog) option"
  dv_write :: "(nat \<Rightarrow> u32 \<Rightarrow> u32 \<Rightarrow> (int, 's) prog) option"
  dv_lseek :: "(nat \<Rightarrow> int \<Rightarrow> int \<Rightarrow> (int, 's) prog) option"
  dv_fstat :: "(nat \<Rightarrow> u32 \<Rightarrow> (int, 's) prog) option"
  dv_ioctl :: "(nat \<Rightarrow> u32 \<Rightarrow> u32 \<Rightarrow> (int, 's) prog) option"

text \<open>Where the linker put the list heads and the null device, and the device structures.\<close>

record 's hal_env =
  alt_dev_list :: u32
  alt_fs_list :: u32
  devs :: "u32 \<Rightarrow> 's alt_dev"

definition alt_dev_null_write :: "nat \<Rightarrow> u32 \<Rightarrow> u32 \<Rightarrow> (int, 's) prog" where
  "alt_dev_null_write fd ptr len s = Some (sint len, s)"

definition alt_dev_null :: "u32 \<Rightarrow> 's alt_dev" where
  "alt_dev_null name = \<lparr>dv_name = name, dv_open = None, dv_close = None, dv_read = None,
     dv_write = Some alt_dev_null_write, dv_lseek = None, dv_fstat = None, dv_ioctl = None\<rparr>"

text \<open>The initial pool: the three standard descriptors on the null device.\<close>

definition alt_fd_list_init :: "u32 \<Rightarrow> nat \<Rightarrow> alt_fd" where
  "alt_fd_list_init null i = \<lparr>fd_dev = (if i < 3 then null else 0), fd_priv = 0, fd_flags = 0\<rparr>"

section \<open>Small helpers\<close>

text \<open>\<open>&alt_fd_list[file]\<close>; outside the array the access has no defined result.\<close>

definition fd_index :: "int \<Rightarrow> nat option" where
  "fd_index file = (if 0 \<le> file \<and> file < int ALT_MAX_FD then Some (nat file) else None)"

text \<open>\<open>fd->dev->\<dots>\<close>; a null device pointer has no defined result.\<close>

definition dev_at :: "'s hal_env \<Rightarrow> u32 \<Rightarrow> 's alt_dev option" where
  "dev_at E d = (if d = 0 then None else Some (devs E d))"

definition set_errno :: "int \<Rightarrow> ('h, 'x) hal_scheme \<Rightarrow> ('h, 'x) hal_scheme" where
  "set_errno e s = s\<lparr>errno := e\<rparr>"

definition upd_fd :: "nat \<Rightarrow> (alt_fd \<Rightarrow> alt_fd) \<Rightarrow> ('h, 'x) hal_scheme \<Rightarrow> ('h, 'x) hal_scheme" where
  "upd_fd i f s = s\<lparr>alt_fd_list := (alt_fd_list s)(i := f (alt_fd_list s i))\<rparr>"

text \<open>\<open>if (rval < 0) { ALT_ERRNO = -rval; return -1; } return rval;\<close>\<close>

definition errno_result :: "int \<times> ('h, 'x) hal_scheme \<Rightarrow> (int \<times> ('h, 'x) hal_scheme) option" where
  "errno_result = (\<lambda>(rval, s). if rval < 0 then Some (-1, set_errno (- rval) s) else Some (rval, s))"

section \<open>The descriptor pool\<close>

function get_fd_loop :: "u32 \<Rightarrow> nat \<Rightarrow> (int, ('h, 'x) hal_scheme) prog" where
  "get_fd_loop dev i s =
     (if i < ALT_MAX_FD then
        (if fd_dev (alt_fd_list s i) = 0 then
           (let s = upd_fd i (fd_dev_update (\<lambda>_. dev)) s
            in Some (int i, if int i > alt_max_fd s then s\<lparr>alt_max_fd := int i\<rparr> else s))
         else get_fd_loop dev (i + 1) s)
      else Some (- EMFILE, s))"
  by pat_completeness auto
termination by (relation "measure (\<lambda>(_, i, _). ALT_MAX_FD - i)") auto

declare get_fd_loop.simps [simp del]

definition alt_get_fd :: "u32 \<Rightarrow> (int, ('h, 'x) hal_scheme) prog" where
  "alt_get_fd dev s = get_fd_loop dev 0 s"

definition alt_release_fd :: "int \<Rightarrow> (unit, ('h, 'x) hal_scheme) prog" where
  "alt_release_fd fd s =
     (if fd > 2 then do {
        i \<leftarrow> fd_index fd;
        Some ((), upd_fd i (\<lambda>r. r\<lparr>fd_flags := 0, fd_dev := 0\<rparr>) s)
      } else Some ((), s))"

definition alt_fd_lock :: "nat \<Rightarrow> (int, ('h, 'x) hal_scheme) prog" where
  "alt_fd_lock fd s =
     (if list_ex (\<lambda>i. i \<noteq> fd \<and> fd_dev (alt_fd_list s i) = fd_dev (alt_fd_list s fd))
           [0 ..< nat (alt_max_fd s)]
      then Some (- EACCES, s)
      else Some (0, upd_fd fd (fd_flags_update (\<lambda>f. f OR ALT_FD_EXCL)) s))"

definition alt_fd_unlock :: "nat \<Rightarrow> (int, ('h, 'x) hal_scheme) prog" where
  "alt_fd_unlock fd s = Some (0, upd_fd fd (fd_flags_update (\<lambda>f. f AND NOT ALT_FD_EXCL)) s)"

text \<open>The loop of \<open>alt_file_locked\<close> compares unsigned: a negative \<open>alt_max_fd\<close> sends it past the pool.\<close>

definition alt_file_locked :: "nat \<Rightarrow> (int, ('h, 'x) hal_scheme) prog" where
  "alt_file_locked fd s =
     (let s = upd_fd fd (fd_flags_update (\<lambda>f. f OR ALT_FD_DEV)) s in
      if alt_max_fd s < 0 then None
      else if list_ex (\<lambda>i. fd_dev (alt_fd_list s i) = fd_dev (alt_fd_list s fd)
                 \<and> fd_flags (alt_fd_list s i) AND ALT_FD_EXCL \<noteq> 0 \<and> i \<noteq> fd)
              [0 ..< Suc (nat (alt_max_fd s))]
      then Some (- EACCES, s) else Some (0, s))"

section \<open>Registration\<close>

definition alt_dev_llist_insert :: "'s hal_env \<Rightarrow> u32 \<Rightarrow> u32 \<Rightarrow> (int, ('h, 'x) hal_scheme) prog" where
  "alt_dev_llist_insert E dev lst s =
     (if dev = 0 \<or> dv_name (devs E dev) = 0 then Some (- EINVAL, set_errno EINVAL s)
      else Some (0, s\<lparr>links := alt_llist_insert lst dev (links s)\<rparr>))"

definition alt_dev_reg :: "'s hal_env \<Rightarrow> u32 \<Rightarrow> (int, ('h, 'x) hal_scheme) prog" where
  "alt_dev_reg E dev s = alt_dev_llist_insert E dev (alt_dev_list E) s"

definition alt_fs_reg :: "'s hal_env \<Rightarrow> u32 \<Rightarrow> (int, ('h, 'x) hal_scheme) prog" where
  "alt_fs_reg E dev s =
     (if dv_name (devs E dev) = 0 then Some (- ENODEV, s)
      else Some (0, s\<lparr>links := alt_llist_insert (alt_fs_list E) dev (links s)\<rparr>))"

section \<open>System calls\<close>

definition find_name :: "'s hal_env \<Rightarrow> u32 \<Rightarrow> ('h, 'x) hal_scheme \<Rightarrow> (u32 \<times> bool) option" where
  "find_name E file s = do {
     dev \<leftarrow> alt_find_dev (bytes s) (\<lambda>d. dv_name (devs E d)) file (alt_dev_list E) (links s);
     (if dev = 0 then do {
        dev \<leftarrow> alt_find_file (bytes s) (\<lambda>d. dv_name (devs E d)) file (alt_fs_list E) (links s);
        Some (dev, True)
      } else Some (dev, False))
   }"

text \<open>The body of \<open>open\<close> once a descriptor is allocated.\<close>

definition open_fd :: "('h, 'x) hal_scheme hal_env \<Rightarrow> u32 \<Rightarrow> bool \<Rightarrow> nat \<Rightarrow> u32 \<Rightarrow> u32 \<Rightarrow> u32
    \<Rightarrow> (int, ('h, 'x) hal_scheme) prog" where
  "open_fd E dev isafs i file flags mode s =
     (let s = upd_fd i (fd_flags_update (\<lambda>_. flags AND NOT ALT_FD_FLAGS_MASK)) s in do {
        (status, s) \<leftarrow> (if isafs then Some (0, s) else alt_file_locked i s);
        (if isafs \<or> status \<ge> 0 then
           (case dv_open (devs E dev) of
              Some f \<Rightarrow> f i file flags mode s
            | None \<Rightarrow> Some (0, s))
         else Some (status, s))
      })"

definition ALT_OPEN :: "('h, 'x) hal_scheme hal_env \<Rightarrow> u32 \<Rightarrow> u32 \<Rightarrow> u32
    \<Rightarrow> (int, ('h, 'x) hal_scheme) prog" where
  "ALT_OPEN E file flags mode s = do {
     (dev, isafs) \<leftarrow> find_name E file s;
     ((index, status), s) \<leftarrow>
       (if dev \<noteq> 0 then do {
          (index, s) \<leftarrow> alt_get_fd dev s;
          (if index < 0 then Some ((index, index), s)
           else do {
             (status, s) \<leftarrow> open_fd E dev isafs (nat index) file flags mode s;
             Some ((index, status), s)
           })
        } else Some ((-1, - ENODEV), s));
     (if status < 0 then do {
        (_, s) \<leftarrow> alt_release_fd index s;
        Some (-1, set_errno (- status) s)
      } else Some (index, s))
   }"

definition ALT_CLOSE :: "('h, 'x) hal_scheme hal_env \<Rightarrow> int \<Rightarrow> (int, ('h, 'x) hal_scheme) prog" where
  "ALT_CLOSE E fildes s =
     (if fildes < 0 then Some (-1, set_errno EBADFD s)
      else do {
        i \<leftarrow> fd_index fildes;
        dv \<leftarrow> dev_at E (fd_dev (alt_fd_list s i));
        (rval, s) \<leftarrow> (case dv_close dv of Some f \<Rightarrow> f i s | None \<Rightarrow> Some (0, s));
        (_, s) \<leftarrow> alt_release_fd fildes s;
        (if rval < 0 then Some (-1, set_errno (- rval) s) else Some (0, s))
      })"

definition ALT_READ :: "('h, 'x) hal_scheme hal_env \<Rightarrow> int \<Rightarrow> u32 \<Rightarrow> u32
    \<Rightarrow> (int, ('h, 'x) hal_scheme) prog" where
  "ALT_READ E file ptr len s =
     (if file < 0 then Some (-1, set_errno EBADFD s)
      else do {
        i \<leftarrow> fd_index file;
        (if fd_flags (alt_fd_list s i) AND O_ACCMODE \<noteq> O_WRONLY then do {
           dv \<leftarrow> dev_at E (fd_dev (alt_fd_list s i));
           (case dv_read dv of
              Some f \<Rightarrow> do { rs \<leftarrow> f i ptr len s; errno_result rs }
            | None \<Rightarrow> Some (-1, set_errno EACCES s))
         } else Some (-1, set_errno EACCES s))
      })"

definition ALT_WRITE :: "('h, 'x) hal_scheme hal_env \<Rightarrow> int \<Rightarrow> u32 \<Rightarrow> u32
    \<Rightarrow> (int, ('h, 'x) hal_scheme) prog" where
  "ALT_WRITE E file ptr len s =
     (if file < 0 then Some (-1, set_errno EBADFD s)
      else do {
        i \<leftarrow> fd_index file;
        (if fd_flags (alt_fd_list s i) AND O_ACCMODE \<noteq> O_RDONLY then do {
           dv \<leftarrow> dev_at E (fd_dev (alt_fd_list s i));
           (case dv_write dv of
              Some f \<Rightarrow> do { rs \<leftarrow> f i ptr len s; errno_result rs }
            | None \<Rightarrow> Some (-1, set_errno EACCES s))
         } else Some (-1, set_errno EACCES s))
      })"

definition ALT_LSEEK :: "('h, 'x) hal_scheme hal_env \<Rightarrow> int \<Rightarrow> int \<Rightarrow> int
    \<Rightarrow> (int, ('h, 'x) hal_scheme) prog" where
  "ALT_LSEEK E file ptr dir s = do {
     rs \<leftarrow> (if file < 0 then Some (- EBADFD, s)
       else do {
         i \<leftarrow> fd_index file;
         dv \<leftarrow> dev_at E (fd_dev (alt_fd_list s i));
         (case dv_lseek dv of
            Some f \<Rightarrow> f i ptr dir s
          | None \<Rightarrow> Some (- ENOTSUP, s))
       });
     errno_result rs
   }"

definition ALT_FSTAT :: "('h, 'x) hal_scheme hal_env \<Rightarrow> int \<Rightarrow> u32 \<Rightarrow> (int, ('h, 'x) hal_scheme) prog" where
  "ALT_FSTAT E file st s =
     (if file < 0 then Some (-1, set_errno EBADFD s)
      else do {
        i \<leftarrow> fd_index file;
        dv \<leftarrow> dev_at E (fd_dev (alt_fd_list s i));
        (case dv_fstat dv of
           Some f \<Rightarrow> f i st s
         | None \<Rightarrow> Some (0, s\<lparr>st_mode := (st_mode s)(st := IFCHR)\<rparr>))
      })"

text \<open>\<open>stat\<close> is the address of the local variable.\<close>

definition ALT_ISATTY :: "('h, 'x) hal_scheme hal_env \<Rightarrow> u32 \<Rightarrow> int \<Rightarrow> (int, ('h, 'x) hal_scheme) prog" where
  "ALT_ISATTY E stat file s =
     (if file < 0 then Some (0, set_errno EBADFD s)
      else do {
        i \<leftarrow> fd_index file;
        dv \<leftarrow> dev_at E (fd_dev (alt_fd_list s i));
        (if dv_fstat dv = None then Some (1, s)
         else do {
           (_, s) \<leftarrow> ALT_FSTAT E file stat s;
           Some (if st_mode s stat = IFCHR then 1 else 0, s)
         })
      })"

definition ALT_IOCTL :: "('h, 'x) hal_scheme hal_env \<Rightarrow> int \<Rightarrow> u32 \<Rightarrow> u32
    \<Rightarrow> (int, ('h, 'x) hal_scheme) prog" where
  "ALT_IOCTL E file req arg s = do {
     (rc, s) \<leftarrow> (if file < 0 then Some (- EBADFD, s)
       else do {
         i \<leftarrow> fd_index file;
         (if fd_flags (alt_fd_list s i) AND ALT_FD_DEV \<noteq> 0 \<and> req = TIOCEXCL then alt_fd_lock i s
          else if fd_flags (alt_fd_list s i) AND ALT_FD_DEV \<noteq> 0 \<and> req = TIOCNXCL then alt_fd_unlock i s
          else do {
            dv \<leftarrow> dev_at E (fd_dev (alt_fd_list s i));
            (case dv_ioctl dv of
               Some f \<Rightarrow> f i req arg s
             | None \<Rightarrow> Some (- ENOTTY, s))
          })
       });
     Some (rc, if rc < 0 then set_errno (- rc) s else s)
   }"

definition ALT_FCNTL :: "int \<Rightarrow> int \<Rightarrow> u32 \<Rightarrow> (int, ('h, 'x) hal_scheme) prog" where
  "ALT_FCNTL file cmd arg s =
     (if file < 0 then Some (-1, set_errno EBADFD s)
      else do {
        i \<leftarrow> fd_index file;
        (if cmd = F_GETFL then
           Some (sint (fd_flags (alt_fd_list s i) AND NOT ALT_FD_FLAGS_MASK), s)
         else if cmd = F_SETFL then
           Some (0, upd_fd i (fd_flags_update
             (\<lambda>f. (f AND NOT ALT_FCNTL_FLAGS_MASK) OR (arg AND ALT_FCNTL_FLAGS_MASK))) s)
         else Some (-1, set_errno EINVAL s))
      })"

section \<open>Standard streams\<close>

definition alt_open_fd :: "('h, 'x) hal_scheme hal_env \<Rightarrow> nat \<Rightarrow> u32 \<Rightarrow> u32 \<Rightarrow> u32
    \<Rightarrow> (unit, ('h, 'x) hal_scheme) prog" where
  "alt_open_fd E fd name flags mode s = do {
     (old, s) \<leftarrow> ALT_OPEN E name flags mode s;
     (if old \<ge> 0 then do {
        i \<leftarrow> fd_index old;
        alt_release_fd old (upd_fd fd (\<lambda>_. alt_fd_list s i) s)
      } else Some ((), s))
   }"

definition alt_io_redirect :: "('h, 'x) hal_scheme hal_env \<Rightarrow> u32 \<Rightarrow> u32 \<Rightarrow> u32
    \<Rightarrow> (unit, ('h, 'x) hal_scheme) prog" where
  "alt_io_redirect E stdout_dev stdin_dev stderr_dev s = do {
     (_, s) \<leftarrow> alt_open_fd E 1 stdout_dev O_WRONLY 0x1FF s;
     (_, s) \<leftarrow> alt_open_fd E 0 stdin_dev O_RDONLY 0x1FF s;
     alt_open_fd E 2 stderr_dev O_WRONLY 0x1FF s
   }"

end
