(* ===== verification/HAL_Time.thy ===== *)
theory HAL_Time
  imports HAL_FD
begin

text \<open>
  Time in the HAL: the tick counter and the alarms (\<open>HAL/src/alt_tick.c\<close>,
  \<open>alt_alarm_start.c\<close>, \<open>HAL/inc/sys/alt_alarm.h\<close>), the wall clock (\<open>alt_gettod.c\<close>,
  \<open>alt_settod.c\<close>, \<open>alt_times.c\<close>), the calibrated delay loop (\<open>alt_busy_sleep.c\<close>,
  \<open>alt_usleep.c\<close>), the system clock driver (\<open>drivers/src/altera_avalon_timer_sc.c\<close>) and the
  heap (\<open>alt_sbrk.c\<close>).

  An alarm is identified with its list node; callbacks are a table \<open>C\<close>; \<open>al\<close> is the address of
  \<open>alt_alarm_list\<close>.  \<open>long\<close> and \<open>time_t\<close> have 32 bits; signed quantities that the code never
  lets overflow are integers.
\<close>

section \<open>State\<close>

record alt_alarm =
  al_time :: u32
  al_callback :: u32
  al_rollover :: u8
  al_context :: u32

record timeval =
  tv_sec :: int
  tv_usec :: int

record 'h time_st = "'h hal" +
  tick_rate :: u32
  nticks :: u32
  alarms :: "u32 \<Rightarrow> alt_alarm"
  alt_resettime :: timeval
  alt_timezone :: "int \<times> int"
  heap_end :: u32

type_synonym 's callbacks = "u32 \<Rightarrow> u32 \<Rightarrow> (u32, 's) prog"

abbreviation (input) ENOSYS :: int where "ENOSYS \<equiv> 88"
abbreviation (input) ALT_US :: u32 where "ALT_US \<equiv> 1000000"

section \<open>alt_alarm.h\<close>

definition alt_ticks_per_second :: "('h, 'x) time_st_scheme \<Rightarrow> u32" where
  "alt_ticks_per_second s = tick_rate s"

definition alt_nticks :: "('h, 'x) time_st_scheme \<Rightarrow> u32" where
  "alt_nticks s = nticks s"

definition alt_sysclk_init :: "u32 \<Rightarrow> (int, ('h, 'x) time_st_scheme) prog" where
  "alt_sysclk_init n s =
     (if tick_rate s = 0 then Some (0, s\<lparr>tick_rate := n\<rparr>) else Some (-1, s))"

definition upd_alarm :: "u32 \<Rightarrow> (alt_alarm \<Rightarrow> alt_alarm) \<Rightarrow> ('h, 'x) time_st_scheme \<Rightarrow> ('h, 'x) time_st_scheme" where
  "upd_alarm a f s = s\<lparr>alarms := (alarms s)(a := f (alarms s a))\<rparr>"

section \<open>Alarms\<close>

definition alt_alarm_start :: "u32 \<Rightarrow> u32 \<Rightarrow> u32 \<Rightarrow> u32 \<Rightarrow> u32 \<Rightarrow> (int, ('h, 'x) time_st_scheme) prog" where
  "alt_alarm_start al alarm n callback context s =
     (if alt_ticks_per_second s \<noteq> 0 then
        (if alarm \<noteq> 0 then do {
           let s = upd_alarm alarm (\<lambda>r. r\<lparr>al_callback := callback, al_context := context\<rparr>) s;
           (irq_context, s) \<leftarrow> alt_irq_disable_all s;
           let current_nticks = alt_nticks s;
           let t = n + current_nticks + 1;
           let s = upd_alarm alarm (\<lambda>r. r\<lparr>al_time := t\<rparr>) s;
           let s = upd_alarm alarm (\<lambda>r. r\<lparr>al_rollover := (if t < current_nticks then 1 else 0)\<rparr>) s;
           let s = s\<lparr>links := alt_llist_insert al alarm (links s)\<rparr>;
           (_, s) \<leftarrow> alt_irq_enable_all irq_context s;
           Some (0, s)
         } else Some (- EINVAL, s))
      else Some (- ENOTSUP, s))"

definition alt_alarm_stop :: "u32 \<Rightarrow> (unit, ('h, 'x) time_st_scheme) prog" where
  "alt_alarm_stop alarm s = do {
     (irq_context, s) \<leftarrow> alt_irq_disable_all s;
     let s = s\<lparr>links := alt_llist_remove alarm (links s)\<rparr>;
     alt_irq_enable_all irq_context s
   }"

text \<open>The body of the loop of \<open>alt_tick\<close> for one alarm.\<close>

definition alarm_due :: "u32 \<Rightarrow> ('h, 'x) time_st_scheme \<Rightarrow> bool" where
  "alarm_due alarm s \<longleftrightarrow> al_time (alarms s alarm) \<le> nticks s \<and> al_rollover (alarms s alarm) = 0"

definition alarm_next :: "u32 \<Rightarrow> u32 \<Rightarrow> (unit, ('h, 'x) time_st_scheme) prog" where
  "alarm_next alarm next_callback s =
     (if next_callback = 0 then alt_alarm_stop alarm s
      else
        (let s = upd_alarm alarm (al_time_update (\<lambda>t. t + next_callback)) s in
         Some ((), if al_time (alarms s alarm) < nticks s
                   then upd_alarm alarm (al_rollover_update (\<lambda>_. 1)) s else s)))"

definition tick_alarm :: "('h, 'x) time_st_scheme callbacks \<Rightarrow> u32 \<Rightarrow> (unit, ('h, 'x) time_st_scheme) prog" where
  "tick_alarm C alarm s =
     (let s = (if al_rollover (alarms s alarm) \<noteq> 0 \<and> nticks s = 0
               then upd_alarm alarm (al_rollover_update (\<lambda>_. 0)) s else s) in
      if alarm_due alarm s then do {
        (next_callback, s) \<leftarrow> C (al_callback (alarms s alarm)) (al_context (alarms s alarm)) s;
        alarm_next alarm next_callback s
      } else Some ((), s))"

partial_function (option) tick_loop ::
  "('h, 'x) time_st_scheme callbacks \<Rightarrow> u32 \<Rightarrow> u32 \<Rightarrow> (unit, ('h, 'x) time_st_scheme) prog" where
  "tick_loop C al alarm s =
     (if alarm = al then Some ((), s)
      else (let nxt = ll_next (links s) alarm in do {
        (_, s) \<leftarrow> tick_alarm C alarm s;
        tick_loop C al nxt s
      }))"

definition alt_tick :: "('h, 'x) time_st_scheme callbacks \<Rightarrow> u32 \<Rightarrow> (unit, ('h, 'x) time_st_scheme) prog" where
  "alt_tick C al s =
     (let alarm = ll_next (links s) al;
          s = s\<lparr>nticks := nticks s + 1\<rparr>
      in tick_loop C al alarm s)"

section \<open>The system clock driver\<close>

definition alt_avalon_timer_sc_irq :: "'h bus \<Rightarrow> ('h, 'x) time_st_scheme callbacks \<Rightarrow> u32 \<Rightarrow> u32
    \<Rightarrow> (unit, ('h, 'x) time_st_scheme) prog" where
  "alt_avalon_timer_sc_irq B C al base s = do {
     (_, s) \<leftarrow> IOWR B base 0 0 s;
     (_, s) \<leftarrow> IORD B base 1 s;
     (cpu_sr, s) \<leftarrow> alt_irq_disable_all s;
     (_, s) \<leftarrow> alt_tick C al s;
     alt_irq_enable_all cpu_sr s
   }"

text \<open>\<open>isr\<close> is the address of \<open>alt_avalon_timer_sc_irq\<close>; the control bits are ITO, CONT and START.\<close>

definition alt_avalon_timer_sc_init :: "'h bus \<Rightarrow> u32 \<Rightarrow> u32 \<Rightarrow> u32 \<Rightarrow> u32 \<Rightarrow> u32
    \<Rightarrow> (unit, ('h, 'x) time_st_scheme) prog" where
  "alt_avalon_timer_sc_init B isr base irq_controller_id irq freq s = do {
     (_, s) \<leftarrow> alt_sysclk_init freq s;
     (_, s) \<leftarrow> IOWR B base 1 (0x1 OR 0x2 OR 0x4) s;
     (_, s) \<leftarrow> alt_ic_isr_register irq_controller_id irq isr base s;
     Some ((), s)
   }"

datatype timer_units = UNITS_us | UNITS_ms | UNITS_s | UNITS_Hz

definition ALTERA_AVALON_TIMER_FREQ :: "u32 \<Rightarrow> u32 \<Rightarrow> timer_units \<Rightarrow> u32" where
  "ALTERA_AVALON_TIMER_FREQ freq period units =
     (case units of
        UNITS_us \<Rightarrow> (1000000 + (period - 1)) div period
      | UNITS_ms \<Rightarrow> (1000 + (period - 1)) div period
      | UNITS_s \<Rightarrow> 1
      | UNITS_Hz \<Rightarrow> (freq + (period - 1)) div period)"

section \<open>The wall clock\<close>

text \<open>The two normalisation loops of \<open>gettimeofday\<close>.\<close>

function carry_down :: "int \<Rightarrow> int \<Rightarrow> int \<times> int" where
  "carry_down sec usec =
     (if usec < 0 then
        (if sec \<le> 0 then (0, 0) else carry_down (sec - 1) (usec + 1000000))
      else (sec, usec))"
  by pat_completeness auto
termination by (relation "measure (\<lambda>(sec, usec). nat (- usec))") auto

function carry_up :: "int \<Rightarrow> int \<Rightarrow> int \<times> int" where
  "carry_up sec usec =
     (if usec \<ge> 1000000 then carry_up (sec + 1) (usec - 1000000) else (sec, usec))"
  by pat_completeness auto
termination by (relation "measure (\<lambda>(sec, usec). nat usec)") auto

declare carry_down.simps [simp del] carry_up.simps [simp del]

text \<open>A \<open>long\<close> assigned from an unsigned sum.\<close>

definition to_long :: "u32 \<Rightarrow> int" where
  "to_long w = sint w"

definition ALT_GETTIMEOFDAY :: "('h, 'x) time_st_scheme \<Rightarrow> int \<times> (timeval \<times> int \<times> int) option" where
  "ALT_GETTIMEOFDAY s =
     (let nt = alt_nticks s; rate = alt_ticks_per_second s in
      if rate \<noteq> 0 then
        (let sec = to_long (word_of_int (tv_sec (alt_resettime s)) + nt div rate);
             usec = to_long (word_of_int (tv_usec (alt_resettime s)) +
                      ucast ((ucast nt * ucast (ALT_US div rate) :: u64) mod 1000000));
             (sec, usec) = carry_down sec usec;
             (sec, usec) = carry_up sec usec
         in (0, Some (\<lparr>tv_sec = sec, tv_usec = usec\<rparr>, alt_timezone s)))
      else (- ENOTSUP, None))"

definition ALT_SETTIMEOFDAY :: "timeval \<Rightarrow> int \<times> int \<Rightarrow> (int, ('h, 'x) time_st_scheme) prog" where
  "ALT_SETTIMEOFDAY t tz s =
     (let nt = alt_nticks s; rate = alt_ticks_per_second s in
      if rate \<noteq> 0 then
        Some (0, s\<lparr>alt_resettime :=
            \<lparr>tv_sec = to_long (word_of_int (tv_sec t) - nt div rate),
             tv_usec = to_long (word_of_int (tv_usec t) - ((nt * (ALT_US div rate)) mod ALT_US))\<rparr>,
          alt_timezone := tz\<rparr>)
      else Some (-1, set_errno ENOSYS s))"

definition ALT_TIMES :: "(u32, ('h, 'x) time_st_scheme) prog" where
  "ALT_TIMES s =
     (if alt_ticks_per_second s = 0 then Some (0, set_errno ENOSYS s) else Some (alt_nticks s, s))"

section \<open>The delay loop\<close>

text \<open>Passes of \<open>0: addi r,r,-1; bne r,zero,0b\<close> and of \<open>0: addi r,r,-1; bgt r,zero,0b\<close>.\<close>

function bne_passes :: "u32 \<Rightarrow> nat" where
  "bne_passes r = (if r - 1 \<noteq> 0 then Suc (bne_passes (r - 1)) else 1)"
  by pat_completeness auto
termination by (relation "measure (\<lambda>r. unat (r - 1))") (auto intro: unat_minus_two_less)

function bgt_passes :: "u32 \<Rightarrow> nat" where
  "bgt_passes r = (if 0 <s r - 1 then Suc (bgt_passes (r - 1)) else 1)"
  by pat_completeness auto
termination
  by (relation "measure (\<lambda>r. unat (r - 1))") (auto intro!: unat_minus_two_less simp: word_sless_alt)

declare bne_passes.simps [simp del] bgt_passes.simps [simp del]

text \<open>\<open>ALT_CPU_FREQ/(cycles_per_loop * 1000000)\<close> with the 50 MHz clock and 3 cycles per pass.\<close>

abbreviation (input) loops_per_us :: u32 where "loops_per_us \<equiv> 16"
abbreviation (input) INT_MAX :: u32 where "INT_MAX \<equiv> 0x7FFFFFFF"

primrec big_loop :: "nat \<Rightarrow> u32 \<Rightarrow> nat \<times> u32" where
  "big_loop 0 us = (0, us)"
| "big_loop (Suc n) us =
     (let (p, us') = big_loop n (us - INT_MAX div loops_per_us) in (bne_passes INT_MAX + p, us'))"

definition busy_passes :: "u32 \<Rightarrow> nat" where
  "busy_passes us =
     (let big_loops = us div (INT_MAX div loops_per_us) in
      if big_loops \<noteq> 0 then
        (let (p, us) = big_loop (unat big_loops) us in p + bne_passes (us * loops_per_us))
      else bgt_passes (us * loops_per_us))"

definition ALT_USLEEP :: "'h bus \<Rightarrow> u32 \<Rightarrow> (u32, ('h, 'x) mach_scheme) prog" where
  "ALT_USLEEP B us s = do { (_, s) \<leftarrow> alt_busy_sleep B us s; Some (0, s) }"

section \<open>The heap\<close>

text \<open>\<open>limit\<close> is \<open>__alt_heap_limit\<close>; this build sets no \<open>ALT_MAX_HEAP_BYTES\<close> and no stack check.\<close>

definition ALT_SBRK :: "u32 \<Rightarrow> u32 \<Rightarrow> (u32, ('h, 'x) time_st_scheme) prog" where
  "ALT_SBRK limit incr s = do {
     (context, s) \<leftarrow> alt_irq_disable_all s;
     let s = s\<lparr>heap_end := (heap_end s + 3) AND NOT 3\<rparr>;
     (if heap_end s + incr > limit then do {
        (_, s) \<leftarrow> alt_irq_enable_all context s;
        Some (-1, s)
      } else do {
        let prev_heap_end = heap_end s;
        let s = s\<lparr>heap_end := heap_end s + incr\<rparr>;
        (_, s) \<leftarrow> alt_irq_enable_all context s;
        Some (prev_heap_end, s)
      })
   }"

end
