(* ===== verification/I2C_Driver.thy ===== *)
theory I2C_Driver
  imports HAL_Time
begin

text \<open>
  The Avalon I2C master driver, \<open>drivers/src/altera_avalon_i2c.c\<close> with its headers
  \<open>altera_avalon_i2c.h\<close> and \<open>altera_avalon_i2c_regs.h\<close>: every function of the file, over
  an arbitrary I2C core behind the bus.

  The state is the machine, the device structure the functions receive a pointer to, the
  \<open>IRQ_DATA_t\<close> cells that its callback context may point to, and byte-addressed memory for
  the caller's buffers.  Status codes are \<open>alt_u32\<close> values, the negative codes wrapped.
\<close>

section \<open>Registers (altera_avalon_i2c_regs.h)\<close>

datatype i2c_reg =
  TFR_CMD | RX_DATA | CTRL | ISER | ISR | STATUS | TFR_CMD_FIFO_LVL | RX_DATA_FIFO_LVL
  | SCL_LOW | SCL_HIGH | SDA_HOLD

fun reg_num :: "i2c_reg \<Rightarrow> u32" where
  "reg_num TFR_CMD = 0"
| "reg_num RX_DATA = 1"
| "reg_num CTRL = 2"
| "reg_num ISER = 3"
| "reg_num ISR = 4"
| "reg_num STATUS = 5"
| "reg_num TFR_CMD_FIFO_LVL = 6"
| "reg_num RX_DATA_FIFO_LVL = 7"
| "reg_num SCL_LOW = 8"
| "reg_num SCL_HIGH = 9"
| "reg_num SDA_HOLD = 0xa"

abbreviation (input) TFR_CMD_STA_OFST :: nat where "TFR_CMD_STA_OFST \<equiv> 9"
abbreviation (input) TFR_CMD_STO_OFST :: nat where "TFR_CMD_STO_OFST \<equiv> 8"
abbreviation (input) CTRL_RX_DATA_FIFO_THD_OFST :: nat where "CTRL_RX_DATA_FIFO_THD_OFST \<equiv> 4"
abbreviation (input) CTRL_RX_DATA_FIFO_THD_MSK :: u32 where "CTRL_RX_DATA_FIFO_THD_MSK \<equiv> 0x30"
abbreviation (input) CTRL_TFR_CMD_FIFO_THD_OFST :: nat where "CTRL_TFR_CMD_FIFO_THD_OFST \<equiv> 2"
abbreviation (input) CTRL_TFR_CMD_FIFO_THD_MSK :: u32 where "CTRL_TFR_CMD_FIFO_THD_MSK \<equiv> 0xC"
abbreviation (input) CTRL_BUS_SPEED_OFST :: nat where "CTRL_BUS_SPEED_OFST \<equiv> 1"
abbreviation (input) CTRL_BUS_SPEED_MSK :: u32 where "CTRL_BUS_SPEED_MSK \<equiv> 2"
abbreviation (input) CTRL_EN_OFST :: nat where "CTRL_EN_OFST \<equiv> 0"
abbreviation (input) CTRL_EN_MSK :: u32 where "CTRL_EN_MSK \<equiv> 1"
abbreviation (input) ISER_RX_READY_EN_MSK :: u32 where "ISER_RX_READY_EN_MSK \<equiv> 2"
abbreviation (input) ISER_TX_READY_EN_MSK :: u32 where "ISER_TX_READY_EN_MSK \<equiv> 1"
abbreviation (input) ISR_RX_OVER_MSK :: u32 where "ISR_RX_OVER_MSK \<equiv> 16"
abbreviation (input) ISR_ARBLOST_DET_MSK :: u32 where "ISR_ARBLOST_DET_MSK \<equiv> 8"
abbreviation (input) ISR_NACK_DET_MSK :: u32 where "ISR_NACK_DET_MSK \<equiv> 4"
abbreviation (input) ISR_RX_READY_MSK :: u32 where "ISR_RX_READY_MSK \<equiv> 2"
abbreviation (input) ISR_TX_READY_MSK :: u32 where "ISR_TX_READY_MSK \<equiv> 1"
abbreviation (input) ISR_ALLINTS_MSK :: u32 where "ISR_ALLINTS_MSK \<equiv> 0x1F"
abbreviation (input) ISR_ALL_CLEARABLE_INTS_MSK :: u32 where "ISR_ALL_CLEARABLE_INTS_MSK \<equiv> 0x1C"
abbreviation (input) STATUS_CORE_STATUS_MSK :: u32 where "STATUS_CORE_STATUS_MSK \<equiv> 1"
abbreviation (input) COUNT_PERIOD_MSK :: u32 where "COUNT_PERIOD_MSK \<equiv> 0xffff"

section \<open>Status codes, structures (altera_avalon_i2c.h)\<close>

abbreviation (input) I2C_TRUE :: u32 where "I2C_TRUE \<equiv> 1"
abbreviation (input) I2C_FALSE :: u32 where "I2C_FALSE \<equiv> 0"
abbreviation (input) I2C_SUCCESS :: u32 where "I2C_SUCCESS \<equiv> 0"
abbreviation (input) I2C_ERROR :: u32 where "I2C_ERROR \<equiv> - 1"
abbreviation (input) I2C_TIMEOUT :: u32 where "I2C_TIMEOUT \<equiv> - 2"
abbreviation (input) I2C_BAD_ARG :: u32 where "I2C_BAD_ARG \<equiv> - 3"
abbreviation (input) I2C_RANGE :: u32 where "I2C_RANGE \<equiv> - 4"
abbreviation (input) I2C_NACK_ERR :: u32 where "I2C_NACK_ERR \<equiv> - 5"
abbreviation (input) I2C_ARB_LOST_ERR :: u32 where "I2C_ARB_LOST_ERR \<equiv> - 6"
abbreviation (input) I2C_BUSY :: u32 where "I2C_BUSY \<equiv> - 7"

abbreviation (input) I2C_WRITE :: u32 where "I2C_WRITE \<equiv> 0"
abbreviation (input) I2C_READ :: u32 where "I2C_READ \<equiv> 1"
abbreviation (input) I2C_NO_RESTART :: u8 where "I2C_NO_RESTART \<equiv> 0"
abbreviation (input) I2C_RESTART :: u8 where "I2C_RESTART \<equiv> 1"
abbreviation (input) I2C_NO_STOP :: u8 where "I2C_NO_STOP \<equiv> 0"
abbreviation (input) I2C_STOP :: u8 where "I2C_STOP \<equiv> 1"

abbreviation (input) TARGET_ADDR_MASK_10BIT :: u32 where "TARGET_ADDR_MASK_10BIT \<equiv> 0x7800"

abbreviation (input) FS_MAX_HZ :: u32 where "FS_MAX_HZ \<equiv> 400000"
abbreviation (input) FS_MIN_HZ :: u32 where "FS_MIN_HZ \<equiv> 100000"
abbreviation (input) SS_MAX_HZ :: u32 where "SS_MAX_HZ \<equiv> 100000"
abbreviation (input) SS_MIN_HZ :: u32 where "SS_MIN_HZ \<equiv> 1"
abbreviation (input) DIFF_LCNT_HCNT :: u32 where "DIFF_LCNT_HCNT \<equiv> 60"

datatype i2c_addr_mode = ADDR_MODE_7_BIT | ADDR_MODE_10_BIT

datatype i2c_speed = SPEED_STANDARD | SPEED_FAST

text \<open>The driver only ever compares the callback pointer with its own routine and with NULL.\<close>

datatype i2c_callback = CB_null | CB_optional_irq | CB_user nat

record i2c_dev =
  dev_name :: u32
  i2c_base :: u32
  irq_controller_ID :: u32
  irq_ID :: u32
  callback :: i2c_callback
  callback_context :: u32
  control :: u32
  master_target_address :: u32
  cmd_fifo_size :: u32
  rx_fifo_size :: u32
  ip_freq_in_hz :: u32
  address_mode :: i2c_addr_mode

record i2c_master_config =
  addr_mode :: i2c_addr_mode
  speed_mode :: i2c_speed
  scl_hcnt :: u16
  scl_lcnt :: u16
  sda_cnt :: u16

record irq_data =
  irq_buffer :: u32
  irq_size :: u32
  irq_busy :: u32

record 'h i2c_st = "'h time_st" +
  dev :: i2c_dev
  irq_cells :: "u32 \<Rightarrow> irq_data"

text \<open>The cell behind \<open>i2c_dev->callback_context\<close>, read and updated.\<close>

definition irq_data_of :: "('h, 'x) i2c_st_scheme \<Rightarrow> irq_data" where
  [prog_defs]: "irq_data_of s = irq_cells s (callback_context (dev s))"

definition upd_irq_data :: "(irq_data \<Rightarrow> irq_data) \<Rightarrow> ('h, 'x) i2c_st_scheme \<Rightarrow> ('h, 'x) i2c_st_scheme" where
  [prog_defs]: "upd_irq_data f s =
     (let p = callback_context (dev s) in s\<lparr>irq_cells := (irq_cells s)(p := f (irq_cells s p))\<rparr>)"

section \<open>Register access\<close>

definition I2C_RD :: "'h bus \<Rightarrow> i2c_reg \<Rightarrow> (u32, ('h, 'x) i2c_st_scheme) prog" where
  "I2C_RD B r s = IORD B (i2c_base (dev s)) (reg_num r) s"

definition I2C_WR :: "'h bus \<Rightarrow> i2c_reg \<Rightarrow> u32 \<Rightarrow> (unit, ('h, 'x) i2c_st_scheme) prog" where
  "I2C_WR B r d s = IOWR B (i2c_base (dev s)) (reg_num r) d s"

text \<open>\<open>IORMW(base, reg, data, mask)\<close>.\<close>

definition I2C_RMW :: "'h bus \<Rightarrow> i2c_reg \<Rightarrow> u32 \<Rightarrow> u32 \<Rightarrow> (unit, ('h, 'x) i2c_st_scheme) prog" where
  "I2C_RMW B r data msk s = do {
     (v, s) \<leftarrow> I2C_RD B r s;
     I2C_WR B r ((v AND NOT msk) OR (data AND msk)) s
   }"

section \<open>Interrupt conditions\<close>

definition alt_avalon_i2c_enabled_ints_get :: "'h bus \<Rightarrow> (u32, ('h, 'x) i2c_st_scheme) prog" where
  "alt_avalon_i2c_enabled_ints_get B s = do {
     (v, s) \<leftarrow> I2C_RD B ISER s;
     Some (v AND ISR_ALLINTS_MSK, s)
   }"

definition alt_avalon_i2c_int_status_get :: "'h bus \<Rightarrow> (u32, ('h, 'x) i2c_st_scheme) prog" where
  "alt_avalon_i2c_int_status_get B s = do {
     (i, s) \<leftarrow> I2C_RD B ISR s;
     (e, s) \<leftarrow> I2C_RD B ISER s;
     Some (i AND e, s)
   }"

definition alt_avalon_i2c_int_raw_status_get :: "'h bus \<Rightarrow> (u32, ('h, 'x) i2c_st_scheme) prog" where
  "alt_avalon_i2c_int_raw_status_get B s = I2C_RD B ISR s"

definition alt_avalon_i2c_int_clear :: "'h bus \<Rightarrow> u32 \<Rightarrow> (unit, ('h, 'x) i2c_st_scheme) prog" where
  "alt_avalon_i2c_int_clear B msk s = I2C_WR B ISR msk s"

definition alt_avalon_i2c_int_disable :: "'h bus \<Rightarrow> u32 \<Rightarrow> (unit, ('h, 'x) i2c_st_scheme) prog" where
  "alt_avalon_i2c_int_disable B msk s = do {
     (enabled_ints, s) \<leftarrow> alt_avalon_i2c_enabled_ints_get B s;
     let enabled_ints = enabled_ints AND NOT msk;
     I2C_WR B ISER (ISR_ALLINTS_MSK AND enabled_ints) s
   }"

definition alt_avalon_i2c_int_enable :: "'h bus \<Rightarrow> u32 \<Rightarrow> (unit, ('h, 'x) i2c_st_scheme) prog" where
  "alt_avalon_i2c_int_enable B msk s = do {
     (enabled_ints, s) \<leftarrow> alt_avalon_i2c_enabled_ints_get B s;
     let enabled_ints = enabled_ints OR msk;
     I2C_WR B ISER (ISR_ALLINTS_MSK AND enabled_ints) s
   }"

section \<open>FIFO thresholds\<close>

definition alt_avalon_i2c_rx_fifo_threshold_get :: "'h bus \<Rightarrow> (u32, ('h, 'x) i2c_st_scheme) prog" where
  "alt_avalon_i2c_rx_fifo_threshold_get B s = do {
     (v, s) \<leftarrow> I2C_RD B CTRL s;
     Some (drop_bit CTRL_RX_DATA_FIFO_THD_OFST (v AND CTRL_RX_DATA_FIFO_THD_MSK), s)
   }"

definition alt_avalon_i2c_rx_fifo_threshold_set :: "'h bus \<Rightarrow> u32 \<Rightarrow> (unit, ('h, 'x) i2c_st_scheme) prog" where
  "alt_avalon_i2c_rx_fifo_threshold_set B threshold s =
     I2C_RMW B CTRL (push_bit CTRL_RX_DATA_FIFO_THD_OFST threshold) CTRL_RX_DATA_FIFO_THD_MSK s"

definition alt_avalon_i2c_tfr_cmd_fifo_threshold_get :: "'h bus \<Rightarrow> (u32, ('h, 'x) i2c_st_scheme) prog" where
  "alt_avalon_i2c_tfr_cmd_fifo_threshold_get B s = do {
     (v, s) \<leftarrow> I2C_RD B CTRL s;
     Some (drop_bit CTRL_TFR_CMD_FIFO_THD_OFST (v AND CTRL_TFR_CMD_FIFO_THD_MSK), s)
   }"

definition alt_avalon_i2c_tfr_cmd_fifo_threshold_set :: "'h bus \<Rightarrow> u32 \<Rightarrow> (unit, ('h, 'x) i2c_st_scheme) prog" where
  "alt_avalon_i2c_tfr_cmd_fifo_threshold_set B threshold s =
     I2C_RMW B CTRL (push_bit CTRL_TFR_CMD_FIFO_THD_OFST threshold) CTRL_TFR_CMD_FIFO_THD_MSK s"

section \<open>Enable and disable\<close>

definition alt_avalon_i2c_enable :: "'h bus \<Rightarrow> (u32, ('h, 'x) i2c_st_scheme) prog" where
  "alt_avalon_i2c_enable B s = do {
     (v, s) \<leftarrow> I2C_RD B CTRL s;
     let enable_status = drop_bit CTRL_EN_OFST (v AND CTRL_EN_MSK);
     (if enable_status \<noteq> 0 then Some (I2C_BUSY, s)
      else do {
        let s = (if callback (dev s) = CB_optional_irq
                 then upd_irq_data (\<lambda>d. d\<lparr>irq_busy := 0\<rparr>) s else s);
        (_, s) \<leftarrow> I2C_RMW B CTRL CTRL_EN_MSK CTRL_EN_MSK s;
        Some (I2C_SUCCESS, s)
      })
   }"

definition alt_avalon_i2c_disable :: "'h bus \<Rightarrow> (unit, ('h, 'x) i2c_st_scheme) prog" where
  "alt_avalon_i2c_disable B s = I2C_RMW B CTRL 0 CTRL_EN_MSK s"

section \<open>Bus speed configuration\<close>

fun speed_code :: "i2c_speed \<Rightarrow> u32" where
  "speed_code SPEED_STANDARD = 0"
| "speed_code SPEED_FAST = 1"

definition alt_avalon_i2c_master_config_get :: "'h bus \<Rightarrow> (i2c_master_config, ('h, 'x) i2c_st_scheme) prog" where
  "alt_avalon_i2c_master_config_get B s = do {
     let am = address_mode (dev s);
     (v, s) \<leftarrow> I2C_RD B CTRL s;
     let sm = (if drop_bit CTRL_BUS_SPEED_OFST (v AND CTRL_BUS_SPEED_MSK) = 0
               then SPEED_STANDARD else SPEED_FAST);
     (h, s) \<leftarrow> I2C_RD B SCL_HIGH s;
     (l, s) \<leftarrow> I2C_RD B SCL_LOW s;
     (d, s) \<leftarrow> I2C_RD B SDA_HOLD s;
     Some (\<lparr>addr_mode = am, speed_mode = sm, scl_hcnt = ucast (h AND COUNT_PERIOD_MSK),
            scl_lcnt = ucast (l AND COUNT_PERIOD_MSK), sda_cnt = ucast (d AND COUNT_PERIOD_MSK)\<rparr>, s)
   }"

definition alt_avalon_i2c_master_config_set :: "'h bus \<Rightarrow> i2c_master_config \<Rightarrow> (unit, ('h, 'x) i2c_st_scheme) prog" where
  "alt_avalon_i2c_master_config_set B cfg s = do {
     let s = s\<lparr>dev := (dev s)\<lparr>address_mode := addr_mode cfg\<rparr>\<rparr>;
     (_, s) \<leftarrow> I2C_RMW B CTRL (push_bit CTRL_BUS_SPEED_OFST (speed_code (speed_mode cfg))) CTRL_BUS_SPEED_MSK s;
     (_, s) \<leftarrow> I2C_WR B SCL_HIGH (ucast (scl_hcnt cfg)) s;
     (_, s) \<leftarrow> I2C_WR B SCL_LOW (ucast (scl_lcnt cfg)) s;
     I2C_WR B SDA_HOLD (ucast (sda_cnt cfg)) s
   }"

text \<open>The status and, on success, the speed written through the result pointer.\<close>

definition alt_avalon_i2c_master_config_speed_get ::
  "i2c_dev \<Rightarrow> i2c_master_config \<Rightarrow> u32 \<times> u32 option" where
  "alt_avalon_i2c_master_config_speed_get d cfg =
     (if scl_lcnt cfg = 0 \<or> scl_hcnt cfg = 0 then (I2C_BAD_ARG, None)
      else (I2C_SUCCESS, Some (ip_freq_in_hz d div (ucast (scl_lcnt cfg) + ucast (scl_hcnt cfg)))))"

text \<open>The status and the configuration after the call; the counts are cut to 16 bits.\<close>

definition alt_avalon_i2c_master_config_speed_set ::
  "i2c_dev \<Rightarrow> i2c_master_config \<Rightarrow> u32 \<Rightarrow> u32 \<times> i2c_master_config" where
  "alt_avalon_i2c_master_config_speed_set d cfg speed_in_hz =
     (if speed_in_hz > FS_MAX_HZ \<or> speed_in_hz < SS_MIN_HZ \<or> speed_in_hz = 0 then (I2C_RANGE, cfg)
      else let
        lcnt0 = ip_freq_in_hz d div push_bit 1 speed_in_hz;
        hcnt = lcnt0 + DIFF_LCNT_HCNT;
        lcnt = lcnt0 - DIFF_LCNT_HCNT;
        cfg = cfg\<lparr>speed_mode := (if speed_in_hz > FS_MIN_HZ then SPEED_FAST else SPEED_STANDARD)\<rparr>;
        cfg = cfg\<lparr>scl_lcnt := ucast lcnt, scl_hcnt := ucast hcnt, sda_cnt := ucast (lcnt - lcnt div 2)\<rparr>
      in (I2C_SUCCESS, cfg))"

section \<open>Polling the core\<close>

definition alt_avalon_i2c_is_busy :: "'h bus \<Rightarrow> (u32, ('h, 'x) i2c_st_scheme) prog" where
  "alt_avalon_i2c_is_busy B s = do {
     (v, s) \<leftarrow> I2C_RD B STATUS s;
     Some (if v AND STATUS_CORE_STATUS_MSK \<noteq> 0 then I2C_TRUE else I2C_FALSE, s)
   }"

definition busy_cond :: "'h bus \<Rightarrow> (bool, ('h, 'x) i2c_st_scheme) prog" where
  "busy_cond B s = do { (b, s) \<leftarrow> alt_avalon_i2c_is_busy B s; Some (b \<noteq> 0, s) }"

text \<open>
  The loop that five functions repeat at the end of a transaction: wait for the core to be
  idle, with a status of TIMEOUT when it is not in time.
\<close>

definition wait_idle :: "'h bus \<Rightarrow> u32 \<Rightarrow> u32 \<Rightarrow> (u32, ('h, 'x) i2c_st_scheme) prog" where
  "wait_idle B timeout status s = do {
     (ok, s) \<leftarrow> timed_poll (busy_cond B) (alt_busy_sleep B 10000) timeout s;
     Some (if ok then status else I2C_TIMEOUT, s)
   }"

definition alt_avalon_i2c_check_nack :: "'h bus \<Rightarrow> u32 \<Rightarrow> (u32, ('h, 'x) i2c_st_scheme) prog" where
  "alt_avalon_i2c_check_nack B status s = do {
     (v, s) \<leftarrow> I2C_RD B ISR s;
     Some (if v AND ISR_NACK_DET_MSK \<noteq> 0 then I2C_NACK_ERR else status, s)
   }"

definition alt_avalon_i2c_check_arblost :: "'h bus \<Rightarrow> u32 \<Rightarrow> (u32, ('h, 'x) i2c_st_scheme) prog" where
  "alt_avalon_i2c_check_arblost B status s = do {
     (v, s) \<leftarrow> I2C_RD B ISR s;
     Some (if v AND ISR_ARBLOST_DET_MSK \<noteq> 0 then I2C_ARB_LOST_ERR else status, s)
   }"

section \<open>The receive FIFO\<close>

text \<open>
  \<open>rx_read_available\<close> empties the FIFO as long as its level is not zero, so it may not
  return; the loop's result is the number of bytes read.
\<close>

partial_function (option) rx_read_loop ::
  "'h bus \<Rightarrow> u32 \<Rightarrow> u32 \<Rightarrow> u32 \<Rightarrow> ('h, 'x) i2c_st_scheme \<Rightarrow> (u32 \<times> ('h, 'x) i2c_st_scheme) option" where
  "rx_read_loop B buffer max_bytes n s = do {
     (lvl, s) \<leftarrow> I2C_RD B RX_DATA_FIFO_LVL s;
     (if lvl = 0 then Some (n, s)
      else do {
        (d, s) \<leftarrow> I2C_RD B RX_DATA s;
        (if n + 1 = max_bytes \<and> max_bytes \<noteq> 0
         then Some (n + 1, s\<lparr>bytes := (bytes s)(buffer + n := ucast d)\<rparr>)
         else rx_read_loop B buffer max_bytes (n + 1) (s\<lparr>bytes := (bytes s)(buffer + n := ucast d)\<rparr>))
      })
   }"

definition alt_avalon_i2c_rx_read_available ::
  "'h bus \<Rightarrow> u32 \<Rightarrow> u32 \<Rightarrow> (u32, ('h, 'x) i2c_st_scheme) prog" where
  "alt_avalon_i2c_rx_read_available B buffer max_bytes_to_read s = rx_read_loop B buffer max_bytes_to_read 0 s"

definition rx_empty_cond :: "'h bus \<Rightarrow> (bool, ('h, 'x) i2c_st_scheme) prog" where
  "rx_empty_cond B s = do { (lvl, s) \<leftarrow> I2C_RD B RX_DATA_FIFO_LVL s; Some (lvl = 0, s) }"

definition alt_avalon_i2c_rx_read :: "'h bus \<Rightarrow> u32 \<Rightarrow> (u32, ('h, 'x) i2c_st_scheme) prog" where
  "alt_avalon_i2c_rx_read B val s = do {
     (ok, s) \<leftarrow> timed_poll (rx_empty_cond B) (alt_busy_sleep B 10000) 100000 s;
     let status = (if ok then I2C_SUCCESS else I2C_TIMEOUT);
     (d, s) \<leftarrow> I2C_RD B RX_DATA s;
     let s = s\<lparr>bytes := (bytes s)(val := ucast d)\<rparr>;
     Some (status, s)
   }"

section \<open>The transfer command FIFO\<close>

definition tx_full_cond :: "'h bus \<Rightarrow> (bool, ('h, 'x) i2c_st_scheme) prog" where
  "tx_full_cond B s = do { (v, s) \<leftarrow> I2C_RD B ISR s; Some (v AND ISR_TX_READY_MSK = 0, s) }"

definition tfr_cmd :: "u8 \<Rightarrow> u8 \<Rightarrow> u8 \<Rightarrow> u32" where
  "tfr_cmd val issue_restart issue_stop =
     ucast val OR push_bit TFR_CMD_STA_OFST (ucast issue_restart) OR push_bit TFR_CMD_STO_OFST (ucast issue_stop)"

definition alt_avalon_i2c_cmd_write :: "'h bus \<Rightarrow> u8 \<Rightarrow> u8 \<Rightarrow> u8 \<Rightarrow> (u32, ('h, 'x) i2c_st_scheme) prog" where
  "alt_avalon_i2c_cmd_write B val issue_restart issue_stop s = do {
     (ok, s) \<leftarrow> timed_poll (tx_full_cond B) (alt_busy_sleep B 10000) 10000 s;
     (if \<not> ok then Some (I2C_TIMEOUT, s)
      else do {
        (_, s) \<leftarrow> I2C_WR B TFR_CMD (tfr_cmd val issue_restart issue_stop) s;
        (status, s) \<leftarrow> alt_avalon_i2c_check_nack B I2C_SUCCESS s;
        alt_avalon_i2c_check_arblost B status s
      })
   }"

text \<open>Arguments of type \<open>alt_u8\<close> are cut to 8 bits at the call.\<close>

definition alt_avalon_i2c_send_address :: "'h bus \<Rightarrow> u32 \<Rightarrow> u8 \<Rightarrow> (u32, ('h, 'x) i2c_st_scheme) prog" where
  "alt_avalon_i2c_send_address B rw_bit issue_restart s =
     (let target = master_target_address (dev s)
      in if address_mode (dev s) = ADDR_MODE_10_BIT
         then do {
           (status, s) \<leftarrow> alt_avalon_i2c_cmd_write B
              (ucast ((drop_bit 7 (target OR TARGET_ADDR_MASK_10BIT) AND 0xfe) OR rw_bit))
              issue_restart I2C_NO_STOP s;
           alt_avalon_i2c_cmd_write B (ucast (target AND 0xff)) I2C_NO_RESTART I2C_NO_STOP s
         }
         else alt_avalon_i2c_cmd_write B (ucast (push_bit 1 target OR rw_bit)) issue_restart I2C_NO_STOP s)"

definition alt_avalon_i2c_master_target_get :: "(u32, ('h, 'x) i2c_st_scheme) prog" where
  "alt_avalon_i2c_master_target_get s = Some (master_target_address (dev s), s)"

definition alt_avalon_i2c_master_target_set :: "u32 \<Rightarrow> (unit, ('h, 'x) i2c_st_scheme) prog" where
  "alt_avalon_i2c_master_target_set target_addr s =
     Some ((), s\<lparr>dev := (dev s)\<lparr>master_target_address := target_addr\<rparr>\<rparr>)"

section \<open>An induction rule for the FIFO loop\<close>

lemma rx_read_loop_wlp:
  assumes rd: "\<And>r s. I s \<Longrightarrow> wlp (I2C_RD B r s) (\<lambda>_. I)"
    and mem: "\<And>s m. I s \<Longrightarrow> I (s\<lparr>bytes := m\<rparr>)"
  shows "I s \<Longrightarrow> wlp (rx_read_loop B b m n s) (\<lambda>_. I)"
proof -
  have rd': "I2C_RD B r s = Some (v, s') \<Longrightarrow> I s \<Longrightarrow> I s'" for r s v s'
    using rd [of s r] by (auto dest: wlpD)
  have "I s \<Longrightarrow> I (snd r)" if "rx_read_loop B b m n s = Some r" for s r
  proof -
    have "B = B \<longrightarrow> I s \<longrightarrow> I (snd r)"
    proof (rule rx_read_loop.raw_induct [where P = "\<lambda>B' b m n s r. B' = B \<longrightarrow> I s \<longrightarrow> I (snd r)", OF _ that])
      fix f B' b m n s r
      assume IH: "\<And>B' b m n s r. f B' b m n s = Some r \<Longrightarrow> B' = B \<longrightarrow> I s \<longrightarrow> I (snd r)"
        and eq: "(do {
           (lvl, s) \<leftarrow> I2C_RD B' RX_DATA_FIFO_LVL s;
           (if lvl = 0 then Some (n, s)
            else do {
              (d, s) \<leftarrow> I2C_RD B' RX_DATA s;
              (if n + 1 = m \<and> m \<noteq> 0
               then Some (n + 1, s\<lparr>bytes := (bytes s)(b + n := ucast d)\<rparr>)
               else f B' b m (n + 1) (s\<lparr>bytes := (bytes s)(b + n := ucast d)\<rparr>))
            })
         }) = Some r"
      show "B' = B \<longrightarrow> I s \<longrightarrow> I (snd r)"
        using eq by (auto simp: bind_eq_Some_conv split: if_splits dest!: IH intro!: mem dest: rd')
    qed
    then show "I s \<Longrightarrow> I (snd r)" by simp
  qed
  then show "I s \<Longrightarrow> ?thesis" by (auto simp: wlp_iff)
qed

end
