(* ===== verification/I2C_Transfer.thy ===== *)
theory I2C_Transfer
  imports I2C_Driver
begin

text \<open>
  The transactions of \<open>drivers/src/altera_avalon_i2c.c\<close>: transmit and receive, polled and
  interrupt driven, the retrying entry points, the interrupt handler with the optional
  callback, and the initialisation of the device.
\<close>

section \<open>Sending and receiving the bytes of a transaction\<close>

text \<open>
  \<open>while ((size > 1) && (status == SUCCESS)) cmd_write(*buffer, NO_RESTART, NO_STOP)\<close>, then
  the last byte with the caller's stop flag, both inside the function's test of the status.
\<close>

function tx_bytes ::
  "'h bus \<Rightarrow> u32 \<Rightarrow> u32 \<Rightarrow> u8 \<Rightarrow> u32 \<Rightarrow> (u32, ('h, 'x) i2c_st_scheme) prog" where
  "tx_bytes B buffer sz issue_stop status s =
     (if sz > 1 \<and> status = I2C_SUCCESS
      then do {
        (status, s) \<leftarrow> alt_avalon_i2c_cmd_write B (bytes s buffer) I2C_NO_RESTART I2C_NO_STOP s;
        tx_bytes B (buffer + 1) (sz - 1) issue_stop status s
      }
      else if status = I2C_SUCCESS
      then alt_avalon_i2c_cmd_write B (bytes s buffer) I2C_NO_RESTART issue_stop s
      else Some (status, s))"
  by pat_completeness auto
termination
  by (relation "measure (\<lambda>(_, _, sz, _). unat sz)") (auto intro: word_gt_1_minus_less)

declare tx_bytes.simps [simp del]

text \<open>
  The prologue of a transaction without restart: enable the core, clear the interrupt
  status.  \<open>Some status\<close> is the early return of the caller with that status.
\<close>

definition begin_transaction :: "'h bus \<Rightarrow> u8 \<Rightarrow> (u32 option, ('h, 'x) i2c_st_scheme) prog" where
  "begin_transaction B issue_restart s =
     (if issue_restart = 0
      then do {
        (status, s) \<leftarrow> alt_avalon_i2c_enable B s;
        (if status \<noteq> I2C_SUCCESS then Some (Some status, s)
         else do {
           (_, s) \<leftarrow> alt_avalon_i2c_int_clear B ISR_ALL_CLEARABLE_INTS_MSK s;
           Some (None, s)
         })
      }
      else Some (None, s))"

definition alt_avalon_i2c_master_transmit ::
  "'h bus \<Rightarrow> u32 \<Rightarrow> u32 \<Rightarrow> u8 \<Rightarrow> u8 \<Rightarrow> (u32, ('h, 'x) i2c_st_scheme) prog" where
  "alt_avalon_i2c_master_transmit B buffer sz issue_restart issue_stop s =
     (let timeout = sz * 10000
      in if sz = 0 then Some (I2C_SUCCESS, s)
      else do {
        (early, s) \<leftarrow> begin_transaction B issue_restart s;
        (case early of
           Some status \<Rightarrow> Some (status, s)
         | None \<Rightarrow> do {
             (status, s) \<leftarrow> alt_avalon_i2c_send_address B I2C_WRITE issue_restart s;
             (status, s) \<leftarrow> (if status = I2C_SUCCESS then tx_bytes B buffer sz issue_stop status s
                             else Some (status, s));
             (if issue_stop \<noteq> 0 \<or> status \<noteq> I2C_SUCCESS
              then do {
                (status, s) \<leftarrow> wait_idle B timeout status s;
                (status, s) \<leftarrow> alt_avalon_i2c_check_nack B status s;
                (_, s) \<leftarrow> alt_avalon_i2c_disable B s;
                Some (status, s)
              }
              else Some (status, s))
           })
      })"

text \<open>The read commands of a receive, with the FIFO emptied after each; the result is the
  status and the number of bytes already in the buffer.\<close>

function rx_commands ::
  "'h bus \<Rightarrow> u32 \<Rightarrow> u32 \<Rightarrow> u32 \<Rightarrow> u32 \<Rightarrow> u32 \<Rightarrow> (u32 \<times> u32, ('h, 'x) i2c_st_scheme) prog" where
  "rx_commands B buffer sz bytes_written bytes_read status s =
     (if bytes_written < sz - 1 \<and> status = I2C_SUCCESS
      then do {
        (status, s) \<leftarrow> alt_avalon_i2c_cmd_write B 0 I2C_NO_RESTART I2C_NO_STOP s;
        (n, s) \<leftarrow> (if status = I2C_SUCCESS
                    then alt_avalon_i2c_rx_read_available B (buffer + bytes_read) 0 s
                    else Some (0, s));
        rx_commands B buffer sz (bytes_written + 1) (bytes_read + n) status s
      }
      else Some ((status, bytes_read), s))"
  by pat_completeness auto
termination
by (relation "measure (\<lambda>(_, _, sz, w, _). unat (sz - 1) - unat w)") (auto intro: unat_up_measure)

declare rx_commands.simps [simp del]

text \<open>\<open>while ((bytes_read < size) && (status==SUCCESS)) status = rx_read(buffer++)\<close>\<close>

function rx_rest ::
  "'h bus \<Rightarrow> u32 \<Rightarrow> u32 \<Rightarrow> u32 \<Rightarrow> u32 \<Rightarrow> (u32, ('h, 'x) i2c_st_scheme) prog" where
  "rx_rest B buffer sz bytes_read status s =
     (if bytes_read < sz \<and> status = I2C_SUCCESS
      then do {
        (status, s) \<leftarrow> alt_avalon_i2c_rx_read B (buffer + bytes_read) s;
        rx_rest B buffer sz (bytes_read + 1) status s
      }
      else Some (status, s))"
  by pat_completeness auto
termination
by (relation "measure (\<lambda>(_, _, sz, r, _). unat sz - unat r)") (auto intro: unat_up_measure)

declare rx_rest.simps [simp del]

definition alt_avalon_i2c_master_receive ::
  "'h bus \<Rightarrow> u32 \<Rightarrow> u32 \<Rightarrow> u8 \<Rightarrow> u8 \<Rightarrow> (u32, ('h, 'x) i2c_st_scheme) prog" where
  "alt_avalon_i2c_master_receive B buffer sz issue_restart issue_stop s =
     (if sz = 0 then Some (I2C_SUCCESS, s)
      else do {
        (early, s) \<leftarrow> begin_transaction B issue_restart s;
        (case early of
           Some status \<Rightarrow> Some (status, s)
         | None \<Rightarrow> do {
             (status, s) \<leftarrow> alt_avalon_i2c_send_address B I2C_READ issue_restart s;
             ((status, bytes_read), s) \<leftarrow>
               (if status = I2C_SUCCESS
                then do {
                  ((status, bytes_read), s) \<leftarrow> rx_commands B buffer sz 0 0 status s;
                  (status, s) \<leftarrow> (if status = I2C_SUCCESS
                                  then alt_avalon_i2c_cmd_write B 0 I2C_NO_RESTART issue_stop s
                                  else Some (status, s));
                  Some ((status, bytes_read), s)
                }
                else Some ((status, 0), s));
             (status, s) \<leftarrow> rx_rest B buffer sz bytes_read status s;
             (if issue_stop \<noteq> 0 \<or> status \<noteq> I2C_SUCCESS
              then do {
                (status, s) \<leftarrow> wait_idle B (10000 * sz) status s;
                (status, s) \<leftarrow> alt_avalon_i2c_check_nack B status s;
                (_, s) \<leftarrow> alt_avalon_i2c_disable B s;
                Some (status, s)
              }
              else Some (status, s))
           })
      })"

section \<open>Interrupt-driven transactions\<close>

abbreviation (input) TFR_CMD_FIFO_EMPTY :: u32 where "TFR_CMD_FIFO_EMPTY \<equiv> 0"
abbreviation (input) TFR_CMD_FIFO_NOT_FULL :: u32 where "TFR_CMD_FIFO_NOT_FULL \<equiv> 3"
abbreviation (input) RX_DATA_FIFO_1_ENTRY :: u32 where "RX_DATA_FIFO_1_ENTRY \<equiv> 0"
abbreviation (input) RX_DATA_FIFO_FULL :: u32 where "RX_DATA_FIFO_FULL \<equiv> 3"

definition alt_avalon_i2c_master_transmit_using_interrupts ::
  "'h bus \<Rightarrow> u32 \<Rightarrow> u32 \<Rightarrow> u8 \<Rightarrow> u8 \<Rightarrow> (u32, ('h, 'x) i2c_st_scheme) prog" where
  "alt_avalon_i2c_master_transmit_using_interrupts B buffer sz issue_restart issue_stop s =
     (let timeout = sz * 10000
      in if sz = 0 then Some (I2C_SUCCESS, s)
      else if callback (dev s) \<noteq> CB_optional_irq then Some (I2C_BAD_ARG, s)
      else do {
        (early, s) \<leftarrow> begin_transaction B issue_restart s;
        (case early of
           Some status \<Rightarrow> Some (status, s)
         | None \<Rightarrow> do {
             (status, s) \<leftarrow> alt_avalon_i2c_send_address B I2C_WRITE issue_restart s;
             (status, s) \<leftarrow> (if status = I2C_SUCCESS then tx_bytes B buffer sz issue_stop status s
                             else Some (status, s));
             (if status \<noteq> I2C_SUCCESS
              then do {
                (status, s) \<leftarrow> wait_idle B timeout status s;
                (_, s) \<leftarrow> alt_avalon_i2c_disable B s;
                Some (status, s)
              }
              else if issue_stop \<noteq> 0
              then do {
                (_, s) \<leftarrow> alt_avalon_i2c_int_clear B ISR_ALL_CLEARABLE_INTS_MSK s;
                (_, s) \<leftarrow> alt_avalon_i2c_tfr_cmd_fifo_threshold_set B TFR_CMD_FIFO_EMPTY s;
                let s = upd_irq_data (\<lambda>d. d\<lparr>irq_busy := 1\<rparr>) s;
                (_, s) \<leftarrow> alt_avalon_i2c_int_enable B ISER_TX_READY_EN_MSK s;
                Some (status, s)
              }
              else Some (status, s))
           })
      })"

text \<open>The commands of an interrupt-driven receive; the bytes are left to the callback.\<close>

function rx_int_commands ::
  "'h bus \<Rightarrow> u32 \<Rightarrow> u32 \<Rightarrow> u32 \<Rightarrow> (u32, ('h, 'x) i2c_st_scheme) prog" where
  "rx_int_commands B sz bytes_written status s =
     (if bytes_written < sz - 1 \<and> status = I2C_SUCCESS
      then do {
        (status, s) \<leftarrow> alt_avalon_i2c_cmd_write B 0 I2C_NO_RESTART I2C_NO_STOP s;
        rx_int_commands B sz (bytes_written + 1) status s
      }
      else Some (status, s))"
  by pat_completeness auto
termination
  by (relation "measure (\<lambda>(_, sz, w, _). unat (sz - 1) - unat w)") (auto intro: unat_up_measure)

declare rx_int_commands.simps [simp del]

definition alt_avalon_i2c_master_receive_using_interrupts ::
  "'h bus \<Rightarrow> u32 \<Rightarrow> u32 \<Rightarrow> u8 \<Rightarrow> u8 \<Rightarrow> (u32, ('h, 'x) i2c_st_scheme) prog" where
  "alt_avalon_i2c_master_receive_using_interrupts B buffer sz issue_restart issue_stop s =
     (if sz = 0 then Some (I2C_SUCCESS, s)
      else if callback (dev s) \<noteq> CB_optional_irq then Some (I2C_BAD_ARG, s)
      else do {
        (early, s) \<leftarrow> begin_transaction B issue_restart s;
        (case early of
           Some status \<Rightarrow> Some (status, s)
         | None \<Rightarrow> do {
             (status, s) \<leftarrow> alt_avalon_i2c_send_address B I2C_READ issue_restart s;
             (status, s) \<leftarrow>
               (if status = I2C_SUCCESS
                then do {
                  (status, s) \<leftarrow> rx_int_commands B sz 0 status s;
                  (if status = I2C_SUCCESS
                   then alt_avalon_i2c_cmd_write B 0 I2C_NO_RESTART issue_stop s
                   else Some (status, s))
                }
                else Some (status, s));
             (if status \<noteq> I2C_SUCCESS
              then do {
                (status, s) \<leftarrow> wait_idle B (10000 * sz) status s;
                (_, s) \<leftarrow> alt_avalon_i2c_disable B s;
                Some (status, s)
              }
              else if issue_stop \<noteq> 0
              then do {
                (_, s) \<leftarrow> alt_avalon_i2c_int_clear B ISR_ALL_CLEARABLE_INTS_MSK s;
                (_, s) \<leftarrow> alt_avalon_i2c_rx_fifo_threshold_set B RX_DATA_FIFO_1_ENTRY s;
                let s = upd_irq_data (\<lambda>d. d\<lparr>irq_busy := 2, irq_buffer := buffer, irq_size := sz\<rparr>) s;
                (_, s) \<leftarrow> alt_avalon_i2c_int_enable B ISER_RX_READY_EN_MSK s;
                Some (status, s)
              }
              else Some (status, s))
           })
      })"

definition alt_avalon_i2c_interrupt_transaction_status ::
  "'h bus \<Rightarrow> (u32, ('h, 'x) i2c_st_scheme) prog" where
  "alt_avalon_i2c_interrupt_transaction_status B s = do {
     let timeout = 10000 * irq_size (irq_data_of s) + 10000;
     (saveints, s) \<leftarrow> alt_avalon_i2c_enabled_ints_get B s;
     (_, s) \<leftarrow> alt_avalon_i2c_int_disable B saveints s;
     (status, s) \<leftarrow> alt_avalon_i2c_check_nack B I2C_SUCCESS s;
     (if status \<noteq> I2C_SUCCESS
      then (if irq_busy (irq_data_of s) \<noteq> 0
            then do {
              (status, s) \<leftarrow> wait_idle B timeout status s;
              (_, s) \<leftarrow> alt_avalon_i2c_rx_read_available B (irq_buffer (irq_data_of s)) 0 s;
              (_, s) \<leftarrow> alt_avalon_i2c_disable B s;
              Some (status, upd_irq_data (\<lambda>d. d\<lparr>irq_busy := 0\<rparr>) s)
            }
            else Some (status, s))
      else if irq_busy (irq_data_of s) \<noteq> 0
      then do {
        (_, s) \<leftarrow> alt_avalon_i2c_int_enable B saveints s;
        Some (I2C_BUSY, s)
      }
      else Some (I2C_SUCCESS, s))
   }"

section \<open>The interrupt handler and the optional callback\<close>

definition optional_irq_callback :: "'h bus \<Rightarrow> (unit, ('h, 'x) i2c_st_scheme) prog" where
  "optional_irq_callback B s = do {
     (more, s) \<leftarrow>
       (if irq_busy (irq_data_of s) = 2
        then do {
          (n, s) \<leftarrow> alt_avalon_i2c_rx_read_available B (irq_buffer (irq_data_of s)) (irq_size (irq_data_of s)) s;
          let s = upd_irq_data (\<lambda>d. d\<lparr>irq_size := irq_size d - n, irq_buffer := irq_buffer d + n\<rparr>) s;
          Some (irq_size (irq_data_of s) > 0, s)
        }
        else Some (False, s));
     (if more
      then do {
        (_, s) \<leftarrow> alt_avalon_i2c_int_clear B ISR_ALL_CLEARABLE_INTS_MSK s;
        alt_avalon_i2c_int_enable B ISER_RX_READY_EN_MSK s
      }
      else do {
        (_, s) \<leftarrow> timed_poll (busy_cond B) (\<lambda>s. Some ((), s)) 100000 s;
        (_, s) \<leftarrow> alt_avalon_i2c_disable B s;
        Some ((), upd_irq_data (\<lambda>d. d\<lparr>irq_busy := 0\<rparr>) s)
      })
   }"

definition alt_avalon_i2c_register_callback ::
  "i2c_callback \<Rightarrow> u32 \<Rightarrow> u32 \<Rightarrow> (unit, ('h, 'x) i2c_st_scheme) prog" where
  "alt_avalon_i2c_register_callback cb ctl context s =
     Some ((), s\<lparr>dev := (dev s)\<lparr>callback := cb, callback_context := context, control := ctl\<rparr>\<rparr>)"

definition alt_avalon_i2c_register_optional_irq_handler ::
  "u32 \<Rightarrow> (unit, ('h, 'x) i2c_st_scheme) prog" where
  "alt_avalon_i2c_register_optional_irq_handler irq_data s = do {
     let s = s\<lparr>irq_cells := (irq_cells s)(irq_data := (irq_cells s irq_data)\<lparr>irq_busy := 0\<rparr>)\<rparr>;
     alt_avalon_i2c_register_callback CB_optional_irq 0 irq_data s
   }"

text \<open>A callback of the user's own is a parameter, \<open>user_cb\<close>.\<close>

definition alt_avalon_i2c_irq ::
  "(nat \<Rightarrow> (unit, ('h, 'x) i2c_st_scheme) prog) \<Rightarrow> 'h bus \<Rightarrow> (unit, ('h, 'x) i2c_st_scheme) prog" where
  "alt_avalon_i2c_irq user_cb B s = do {
     (_, s) \<leftarrow> alt_avalon_i2c_int_disable B ISR_ALLINTS_MSK s;
     (_, s) \<leftarrow> alt_avalon_i2c_int_clear B ISR_ALL_CLEARABLE_INTS_MSK s;
     (if callback (dev s) \<noteq> CB_null
      then do {
        (cpu_sr, s) \<leftarrow> alt_irq_disable_all s;
        (_, s) \<leftarrow> (case callback (dev s) of
             CB_null \<Rightarrow> Some ((), s)
           | CB_optional_irq \<Rightarrow> optional_irq_callback B s
           | CB_user k \<Rightarrow> user_cb k s);
        alt_irq_enable_all cpu_sr s
      }
      else Some ((), s))
   }"

section \<open>Transactions with retry\<close>

definition retryable :: "u32 \<Rightarrow> bool" where
  "retryable status \<longleftrightarrow> status = I2C_ARB_LOST_ERR \<or> status = I2C_NACK_ERR \<or> status = I2C_BUSY"

text \<open>
  \<open>while (retry--) { if (retry<10) alt_busy_sleep(10000); status = ...; if (retryable) continue; break; }\<close>;
  the attempt is the body's transaction.
\<close>

fun retry_loop ::
  "'h bus \<Rightarrow> (u32, ('h, 'x) i2c_st_scheme) prog \<Rightarrow> nat \<Rightarrow> u32 \<Rightarrow> (u32, ('h, 'x) i2c_st_scheme) prog" where
  "retry_loop B attempt 0 status s = Some (status, s)"
| "retry_loop B attempt (Suc retry) status s = do {
     (_, s) \<leftarrow> (if retry < 10 then alt_busy_sleep B 10000 s else Some ((), s));
     (status, s) \<leftarrow> attempt s;
     (if retryable status then retry_loop B attempt retry status s else Some (status, s))
   }"

abbreviation (input) I2C_RETRIES :: nat where "I2C_RETRIES \<equiv> 10000"

text \<open>
  The initial status stands for the uninitialised local of the C functions; the loop body
  runs at least once and overwrites it.
\<close>

definition alt_avalon_i2c_master_tx :: "'h bus \<Rightarrow> u32 \<Rightarrow> u32 \<Rightarrow> u8 \<Rightarrow> (u32, ('h, 'x) i2c_st_scheme) prog" where
  "alt_avalon_i2c_master_tx B buffer sz use_interrupts s =
     retry_loop B
       (if use_interrupts \<noteq> 0
        then alt_avalon_i2c_master_transmit_using_interrupts B buffer sz I2C_NO_RESTART I2C_STOP
        else alt_avalon_i2c_master_transmit B buffer sz I2C_NO_RESTART I2C_STOP)
       I2C_RETRIES I2C_SUCCESS s"

definition alt_avalon_i2c_master_rx :: "'h bus \<Rightarrow> u32 \<Rightarrow> u32 \<Rightarrow> u8 \<Rightarrow> (u32, ('h, 'x) i2c_st_scheme) prog" where
  "alt_avalon_i2c_master_rx B buffer sz use_interrupts s =
     (if use_interrupts \<noteq> 0
      then retry_loop B (alt_avalon_i2c_master_receive_using_interrupts B buffer sz I2C_NO_RESTART I2C_STOP)
             I2C_RETRIES I2C_SUCCESS s
      else retry_loop B (alt_avalon_i2c_master_receive B buffer sz I2C_NO_RESTART I2C_STOP)
             I2C_RETRIES I2C_SUCCESS s)"

text \<open>One attempt of \<open>master_tx_rx\<close>: a retryable transmit skips the receive.\<close>

definition tx_rx_attempt ::
  "(u32, 's) prog \<Rightarrow> (u32, 's) prog \<Rightarrow> (u32, 's) prog" where
  "tx_rx_attempt transmit receive s = do {
     (status, s) \<leftarrow> transmit s;
     (if retryable status then Some (status, s) else receive s)
   }"

definition alt_avalon_i2c_master_tx_rx ::
  "'h bus \<Rightarrow> u32 \<Rightarrow> u32 \<Rightarrow> u32 \<Rightarrow> u32 \<Rightarrow> u8 \<Rightarrow> (u32, ('h, 'x) i2c_st_scheme) prog" where
  "alt_avalon_i2c_master_tx_rx B txbuffer txsize rxbuffer rxsize use_interrupts s =
     (if use_interrupts \<noteq> 0
      then retry_loop B
        (tx_rx_attempt
          (alt_avalon_i2c_master_transmit_using_interrupts B txbuffer txsize I2C_NO_RESTART I2C_NO_STOP)
          (alt_avalon_i2c_master_receive_using_interrupts B rxbuffer rxsize I2C_RESTART I2C_STOP))
        I2C_RETRIES I2C_SUCCESS s
      else retry_loop B
        (tx_rx_attempt
          (alt_avalon_i2c_master_transmit B txbuffer txsize I2C_NO_RESTART I2C_NO_STOP)
          (alt_avalon_i2c_master_receive B rxbuffer rxsize I2C_RESTART I2C_STOP))
        I2C_RETRIES I2C_SUCCESS s)"

end
