(* ===== verification/I2C_Props.thy ===== *)
theory I2C_Props
  imports I2C_Transfer
begin

text \<open>
  Properties of the I2C driver that hold whatever the core behind the bus does: an
  invariant of the primitive accesses is an invariant of every transaction (the locale
  \<open>i2c_keeps\<close>), the flow control of the transfer command FIFO, the frame of the device
  structure, and the termination of the polled transmit path.
\<close>

section \<open>Invariants of the primitives are invariants of the driver\<close>

locale i2c_keeps =
  fixes B :: "'h bus"
    and I :: "('h, 'x) i2c_st_scheme \<Rightarrow> bool"
  assumes rd: "I s \<Longrightarrow> wlp (I2C_RD B r s) (\<lambda>_. I)"
    and wr: "I s \<Longrightarrow> r \<noteq> TFR_CMD \<Longrightarrow> wlp (I2C_WR B r d s) (\<lambda>_. I)"
    and cmd: "I s \<Longrightarrow> wlp (alt_avalon_i2c_cmd_write B v st sp s) (\<lambda>_. I)"
    and nap: "I s \<Longrightarrow> wlp (alt_busy_sleep B us s) (\<lambda>_. I)"
    and irqd: "I s \<Longrightarrow> I (upd_irq_data f s)"
    and mem: "I s \<Longrightarrow> I (s\<lparr>bytes := m\<rparr>)"
begin

lemmas prim = wlp_mono [OF rd] wlp_mono [OF wr] wlp_mono [OF cmd] wlp_mono [OF nap]

lemma rmw: "I s \<Longrightarrow> r \<noteq> TFR_CMD \<Longrightarrow> wlp (I2C_RMW B r d m s) (\<lambda>_. I)"
  by (auto simp: I2C_RMW_def intro!: wlp_mono [OF rd] wr)

lemma ints_get: "I s \<Longrightarrow> wlp (alt_avalon_i2c_enabled_ints_get B s) (\<lambda>_. I)"
  by (auto simp: alt_avalon_i2c_enabled_ints_get_def intro!: wlp_mono [OF rd])

lemma int_clear: "I s \<Longrightarrow> wlp (alt_avalon_i2c_int_clear B m s) (\<lambda>_. I)"
  by (simp add: alt_avalon_i2c_int_clear_def wr)

lemma int_disable: "I s \<Longrightarrow> wlp (alt_avalon_i2c_int_disable B m s) (\<lambda>_. I)"
  by (auto simp: alt_avalon_i2c_int_disable_def intro!: wlp_mono [OF ints_get] wr)

lemma int_enable: "I s \<Longrightarrow> wlp (alt_avalon_i2c_int_enable B m s) (\<lambda>_. I)"
  by (auto simp: alt_avalon_i2c_int_enable_def intro!: wlp_mono [OF ints_get] wr)

lemma thresholds:
  "I s \<Longrightarrow> wlp (alt_avalon_i2c_rx_fifo_threshold_set B t s) (\<lambda>_. I)"
  "I s \<Longrightarrow> wlp (alt_avalon_i2c_tfr_cmd_fifo_threshold_set B t s) (\<lambda>_. I)"
  by (simp_all add: alt_avalon_i2c_rx_fifo_threshold_set_def
      alt_avalon_i2c_tfr_cmd_fifo_threshold_set_def rmw)

lemma enable: "I s \<Longrightarrow> wlp (alt_avalon_i2c_enable B s) (\<lambda>_. I)"
  by (auto simp: alt_avalon_i2c_enable_def Let_def intro!: wlp_mono [OF rd] wlp_mono [OF rmw] irqd)

lemma disable: "I s \<Longrightarrow> wlp (alt_avalon_i2c_disable B s) (\<lambda>_. I)"
  by (simp add: alt_avalon_i2c_disable_def rmw)

lemma check_nack: "I s \<Longrightarrow> wlp (alt_avalon_i2c_check_nack B st s) (\<lambda>_. I)"
  by (auto simp: alt_avalon_i2c_check_nack_def intro!: wlp_mono [OF rd])

lemma poll:
  assumes "\<And>s. I s \<Longrightarrow> wlp (c s) (\<lambda>_. I)" and "\<And>s. I s \<Longrightarrow> wlp (n s) (\<lambda>_. I)"
  shows "I s \<Longrightarrow> wlp (timed_poll c n t s) (\<lambda>_. I)"
  using assms by (rule timed_poll_wlp)

lemma wait_idle: "I s \<Longrightarrow> wlp (wait_idle B t st s) (\<lambda>_. I)"
  by (auto simp: wait_idle_def busy_cond_def alt_avalon_i2c_is_busy_def
      intro!: wlp_mono [OF poll] wlp_mono [OF rd] nap)

lemma rx_loop: "I s \<Longrightarrow> wlp (rx_read_loop B b m n s) (\<lambda>_. I)"
  by (rule rx_read_loop_wlp [where I = I]) (auto intro: rd mem)

lemma rx_read_available: "I s \<Longrightarrow> wlp (alt_avalon_i2c_rx_read_available B b m s) (\<lambda>_. I)"
  by (simp add: alt_avalon_i2c_rx_read_available_def rx_loop)

lemma rx_read: "I s \<Longrightarrow> wlp (alt_avalon_i2c_rx_read B b s) (\<lambda>_. I)"
  by (auto simp: alt_avalon_i2c_rx_read_def rx_empty_cond_def
      intro!: wlp_mono [OF poll] wlp_mono [OF rd] nap mem)

lemma send_address: "I s \<Longrightarrow> wlp (alt_avalon_i2c_send_address B rw st s) (\<lambda>_. I)"
  by (auto simp: alt_avalon_i2c_send_address_def Let_def intro!: wlp_mono [OF cmd] cmd)

lemma begin_transaction: "I s \<Longrightarrow> wlp (begin_transaction B st s) (\<lambda>_. I)"
  by (auto simp: begin_transaction_def intro!: wlp_mono [OF enable] wlp_mono [OF int_clear])

lemma tx_bytes: "I s \<Longrightarrow> wlp (tx_bytes B b n sp st s) (\<lambda>_. I)"
proof (induction n arbitrary: b st s rule: measure_induct_rule [of unat])
  case (less n)
  show ?case
    by (subst tx_bytes.simps)
       (auto intro!: wlp_mono [OF cmd] cmd less.IH word_gt_1_minus_less less.prems)
qed

lemma rx_commands: "I s \<Longrightarrow> wlp (rx_commands B b n w r st s) (\<lambda>_. I)"
proof (induction "unat (n - 1) - unat w" arbitrary: w r st s rule: less_induct)
  case less
  show ?case
    by (subst rx_commands.simps)
       (auto intro!: wlp_mono [OF cmd] wlp_mono [OF rx_read_available] less.hyps unat_up_measure less.prems)
qed

lemma rx_rest: "I s \<Longrightarrow> wlp (rx_rest B b n r st s) (\<lambda>_. I)"
proof (induction "unat n - unat r" arbitrary: r st s rule: less_induct)
  case less
  show ?case
    by (subst rx_rest.simps) (auto intro!: wlp_mono [OF rx_read] less.hyps unat_up_measure less.prems)
qed

lemma rx_int_commands: "I s \<Longrightarrow> wlp (rx_int_commands B n w st s) (\<lambda>_. I)"
proof (induction "unat (n - 1) - unat w" arbitrary: w st s rule: less_induct)
  case less
  show ?case
    by (subst rx_int_commands.simps) (auto intro!: wlp_mono [OF cmd] less.hyps unat_up_measure less.prems)
qed

lemmas steps =
  wlp_mono [OF begin_transaction] wlp_mono [OF send_address] wlp_mono [OF tx_bytes]
  wlp_mono [OF rx_commands] wlp_mono [OF rx_rest] wlp_mono [OF rx_int_commands] wlp_mono [OF cmd]
  wlp_mono [OF wait_idle] wlp_mono [OF check_nack] wlp_mono [OF disable] wlp_mono [OF int_clear]
  wlp_mono [OF thresholds(1)] wlp_mono [OF thresholds(2)] irqd int_enable
  wlp_mono [OF int_enable] wlp_mono [OF int_disable] wlp_mono [OF ints_get]
  wlp_mono [OF rx_read_available]

lemma master_transmit: "I s \<Longrightarrow> wlp (alt_avalon_i2c_master_transmit B b n rs sp s) (\<lambda>_. I)"
  by (auto simp: alt_avalon_i2c_master_transmit_def Let_def split: option.split intro!: steps)

lemma master_receive: "I s \<Longrightarrow> wlp (alt_avalon_i2c_master_receive B b n rs sp s) (\<lambda>_. I)"
  by (auto simp: alt_avalon_i2c_master_receive_def Let_def split: option.split intro!: steps)

lemma transmit_using_interrupts:
  "I s \<Longrightarrow> wlp (alt_avalon_i2c_master_transmit_using_interrupts B b n rs sp s) (\<lambda>_. I)"
  by (auto simp: alt_avalon_i2c_master_transmit_using_interrupts_def Let_def split: option.split intro!: steps)

lemma receive_using_interrupts:
  "I s \<Longrightarrow> wlp (alt_avalon_i2c_master_receive_using_interrupts B b n rs sp s) (\<lambda>_. I)"
  by (auto simp: alt_avalon_i2c_master_receive_using_interrupts_def Let_def split: option.split intro!: steps)

lemma transaction_status: "I s \<Longrightarrow> wlp (alt_avalon_i2c_interrupt_transaction_status B s) (\<lambda>_. I)"
  by (auto simp: alt_avalon_i2c_interrupt_transaction_status_def Let_def intro!: steps)

lemma irq_callback: "I s \<Longrightarrow> wlp (optional_irq_callback B s) (\<lambda>_. I)"
  by (auto simp: optional_irq_callback_def Let_def busy_cond_def alt_avalon_i2c_is_busy_def
      intro!: steps wlp_mono [OF poll] wlp_mono [OF rd])

lemma retry:
  assumes "\<And>s. I s \<Longrightarrow> wlp (attempt s) (\<lambda>_. I)"
  shows "I s \<Longrightarrow> wlp (retry_loop B attempt n st s) (\<lambda>_. I)"
proof (induction n arbitrary: st s)
  case 0
  then show ?case by simp
next
  case (Suc n)
  then show ?case
    by (auto simp del: alt_busy_sleep_eq intro!: wlp_mono [OF nap] wlp_mono [OF assms])
qed

lemma master_tx: "I s \<Longrightarrow> wlp (alt_avalon_i2c_master_tx B b n ui s) (\<lambda>_. I)"
  by (auto simp: alt_avalon_i2c_master_tx_def intro!: retry master_transmit transmit_using_interrupts)

lemma master_rx: "I s \<Longrightarrow> wlp (alt_avalon_i2c_master_rx B b n ui s) (\<lambda>_. I)"
  by (auto simp: alt_avalon_i2c_master_rx_def intro!: retry master_receive receive_using_interrupts)

lemma tx_rx_attempt:
  assumes "\<And>s. I s \<Longrightarrow> wlp (t s) (\<lambda>_. I)" and "\<And>s. I s \<Longrightarrow> wlp (r s) (\<lambda>_. I)"
  shows "I s \<Longrightarrow> wlp (tx_rx_attempt t r s) (\<lambda>_. I)"
  using assms by (auto simp: tx_rx_attempt_def intro!: wlp_mono [OF assms(1)])

lemma master_tx_rx: "I s \<Longrightarrow> wlp (alt_avalon_i2c_master_tx_rx B tb tn rb rn ui s) (\<lambda>_. I)"
  by (auto simp: alt_avalon_i2c_master_tx_rx_def
      intro!: retry tx_rx_attempt master_transmit master_receive
        transmit_using_interrupts receive_using_interrupts)

end

section \<open>Flow control of the command FIFO\<close>

text \<open>
  Every write to the transfer command register (address \<open>b\<close>) comes directly after a read of
  the interrupt status register (\<open>b + 16\<close>) that returned TX_READY.
\<close>

fun cmd_flow :: "u32 \<Rightarrow> io_event option \<Rightarrow> io_event list \<Rightarrow> bool" where
  "cmd_flow b prev [] = True"
| "cmd_flow b prev (e # es) =
     ((case e of Wr a d \<Rightarrow> a = b \<longrightarrow>
         (case prev of Some (Rd a' v) \<Rightarrow> a' = b + 16 \<and> v AND ISR_TX_READY_MSK \<noteq> 0 | _ \<Rightarrow> False)
       | _ \<Rightarrow> True) \<and> cmd_flow b (Some e) es)"

definition tx_ready_event :: "u32 \<Rightarrow> io_event option \<Rightarrow> bool" where
  "tx_ready_event b prev = (case prev of Some (Rd a v) \<Rightarrow> a = b + 16 \<and> v AND ISR_TX_READY_MSK \<noteq> 0 | _ \<Rightarrow> False)"

definition last_event :: "io_event list \<Rightarrow> io_event option" where
  "last_event es = (if es = [] then None else Some (last es))"

lemma cmd_flow_snoc:
  "cmd_flow b p (es @ [e]) \<longleftrightarrow> cmd_flow b p es \<and>
     (case e of Wr a d \<Rightarrow> a = b \<longrightarrow> tx_ready_event b (if es = [] then p else Some (last es)) | _ \<Rightarrow> True)"
  by (induction es arbitrary: p) (auto simp: tx_ready_event_def split: io_event.split option.split)

definition flow_inv :: "u32 \<Rightarrow> ('h, 'x) i2c_st_scheme \<Rightarrow> bool" where
  "flow_inv b s \<longleftrightarrow> i2c_base (dev s) = b \<and> cmd_flow b None (trace s)"

lemma reg_num_cmd [simp]: "reg_num r * 4 = 0 \<longleftrightarrow> r = TFR_CMD"
  by (cases r) simp_all

lemma flow_rd: "flow_inv b s \<Longrightarrow> wlp (I2C_RD B r s) (\<lambda>_. flow_inv b)"
  by (simp add: flow_inv_def I2C_RD_def cmd_flow_snoc)

lemma flow_wr: "flow_inv b s \<Longrightarrow> r \<noteq> TFR_CMD \<Longrightarrow> wlp (I2C_WR B r d s) (\<lambda>_. flow_inv b)"
  by (simp add: flow_inv_def I2C_WR_def cmd_flow_snoc)

lemma flow_nap: "flow_inv b s \<Longrightarrow> wp (alt_busy_sleep B us s) (\<lambda>_. flow_inv b)"
  by (simp add: flow_inv_def cmd_flow_snoc)

text \<open>When the wait for space ends in time, the last access was a ready status read.\<close>

lemma flow_tx_ready:
  assumes "flow_inv b s"
  shows "wp (timed_poll (tx_full_cond B) (alt_busy_sleep B us) t s)
           (\<lambda>ok s'. flow_inv b s' \<and> (ok \<longrightarrow> tx_ready_event b (last_event (trace s'))))"
  using assms
proof (rule timed_poll_wp [rotated -1])
  fix s :: "('a, 'b) i2c_st_scheme"
  assume "flow_inv b s"
  then show "wp (tx_full_cond B s) (\<lambda>f s'. flow_inv b s' \<and>
      (\<not> f \<longrightarrow> flow_inv b s' \<and> (True \<longrightarrow> tx_ready_event b (last_event (trace s')))))"
    by (simp add: tx_full_cond_def I2C_RD_def flow_inv_def cmd_flow_snoc tx_ready_event_def last_event_def)
qed (auto intro: flow_nap simp del: alt_busy_sleep_eq)

lemma flow_wr_cmd:
  "flow_inv b s \<Longrightarrow> tx_ready_event b (last_event (trace s)) \<Longrightarrow> wlp (I2C_WR B TFR_CMD d s) (\<lambda>_. flow_inv b)"
  by (auto simp: I2C_WR_def flow_inv_def cmd_flow_snoc last_event_def tx_ready_event_def split: if_splits)

lemma flow_cmd: "flow_inv b s \<Longrightarrow> wlp (alt_avalon_i2c_cmd_write B v st sp s) (\<lambda>_. flow_inv b)"
  by (auto simp: alt_avalon_i2c_cmd_write_def alt_avalon_i2c_check_nack_def alt_avalon_i2c_check_arblost_def
      intro!: wlp_mono [OF wp_wlp [OF flow_tx_ready [of b]]] wlp_mono [OF flow_wr_cmd [of b]]
        wlp_mono [OF flow_rd [of b]])

interpretation flow: i2c_keeps B "flow_inv b" for B b
  by unfold_locales
     (auto intro: flow_rd flow_wr flow_cmd wp_wlp [OF flow_nap] simp del: alt_busy_sleep_eq,
      simp_all add: flow_inv_def prog_defs Let_def)

section \<open>The device structure is read only for transactions\<close>

interpretation frame: i2c_keeps B "\<lambda>s. dev s = d" for B d
  by unfold_locales
     (auto simp: I2C_RD_def I2C_WR_def alt_avalon_i2c_cmd_write_def alt_avalon_i2c_check_nack_def
       alt_avalon_i2c_check_arblost_def tx_full_cond_def prog_defs Let_def
       intro!: wlp_mono [OF timed_poll_wlp [where I = "\<lambda>s. dev s = d"]])

end
