(* ===== verification/I2C_Correct.thy ===== *)
theory I2C_Correct
  imports I2C_Props
begin

text \<open>
  What the driver achieves: the polled transmit path returns on any hardware, a transaction
  that ran leaves the core disabled, a core that is ready receives exactly the bytes of the
  buffer, the time-outs are exact, and the clock counts of a bus speed.
\<close>

section \<open>The polled transmit path always returns\<close>

lemma I2C_RD_eq: "I2C_RD B r s = IORD B (i2c_base (dev s)) (reg_num r) s"
  by (simp add: I2C_RD_def)

lemma cmd_write_returns: "wp (alt_avalon_i2c_cmd_write B v st sp s) (\<lambda>_ _. True)"
  by (auto simp: alt_avalon_i2c_cmd_write_def alt_avalon_i2c_check_nack_def
      alt_avalon_i2c_check_arblost_def I2C_RD_def I2C_WR_def tx_full_cond_def
      intro!: timed_poll_wp [where I = "\<lambda>_. True"])

lemma wait_idle_returns: "wp (wait_idle B t st s) (\<lambda>_ _. True)"
  by (auto simp: wait_idle_def busy_cond_def alt_avalon_i2c_is_busy_def I2C_RD_def
      intro!: timed_poll_wp [where I = "\<lambda>_. True"])

lemma send_address_returns: "wp (alt_avalon_i2c_send_address B rw st s) (\<lambda>_ _. True)"
  by (auto simp: alt_avalon_i2c_send_address_def Let_def
      intro!: wp_mono [OF cmd_write_returns] cmd_write_returns)

lemma tx_bytes_returns: "wp (tx_bytes B b n sp st s) (\<lambda>_ _. True)"
proof (induction n arbitrary: b st s rule: measure_induct_rule [of unat])
  case (less n)
  show ?case
    by (subst tx_bytes.simps)
       (auto intro!: wp_mono [OF cmd_write_returns] cmd_write_returns less.IH word_gt_1_minus_less)
qed

lemma begin_transaction_returns: "wp (begin_transaction B st s) (\<lambda>_ _. True)"
  by (auto simp: begin_transaction_def alt_avalon_i2c_enable_def alt_avalon_i2c_int_clear_def
      I2C_RMW_def I2C_RD_def I2C_WR_def Let_def)

lemma master_transmit_returns: "wp (alt_avalon_i2c_master_transmit B b n rs sp s) (\<lambda>_ _. True)"
  by (auto simp: alt_avalon_i2c_master_transmit_def Let_def alt_avalon_i2c_check_nack_def
      alt_avalon_i2c_disable_def I2C_RMW_def I2C_RD_def I2C_WR_def split: option.split
      intro!: wp_mono [OF begin_transaction_returns] wp_mono [OF send_address_returns]
        wp_mono [OF tx_bytes_returns] wp_mono [OF wait_idle_returns])

lemma retry_returns:
  assumes "\<And>s. wp (attempt s) (\<lambda>_ _. True)"
  shows "wp (retry_loop B attempt n st s) (\<lambda>_ _. True)"
proof (induction n arbitrary: st s)
  case 0
  then show ?case by simp
next
  case (Suc n)
  show ?case by (auto intro!: wp_mono [OF assms] Suc.IH)
qed

lemma master_tx_returns: "wp (alt_avalon_i2c_master_tx B b n 0 s) (\<lambda>_ _. True)"
  by (auto simp: alt_avalon_i2c_master_tx_def intro!: retry_returns master_transmit_returns)

section \<open>A core whose control register stores what is written\<close>

text \<open>
  The control register of the core (\<open>b + 8\<close>) reads back the value last written; nothing else
  changes it.  Everything else about the core stays open: it may be busy, full, or answer
  with a NACK at any time.
\<close>

definition ctrl_stores :: "'h bus \<Rightarrow> u32 \<Rightarrow> ('h \<Rightarrow> u32) \<Rightarrow> bool" where
  "ctrl_stores B b ctrl \<longleftrightarrow>
     (\<forall>h. fst (bus_rd B (b + 8) h) = ctrl h) \<and>
     (\<forall>h a. ctrl (snd (bus_rd B a h)) = ctrl h) \<and>
     (\<forall>h a d. ctrl (bus_wr B a d h) = (if a = b + 8 then d else ctrl h)) \<and>
     (\<forall>h us. ctrl (bus_delay B us h) = ctrl h)"

lemma disable_clears_enable:
  assumes "ctrl_stores B b ctrl" and "i2c_base (dev s) = b"
  shows "wlp (alt_avalon_i2c_disable B s)
           (\<lambda>_ s'. ctrl (hw s') = ctrl (hw s) AND NOT CTRL_EN_MSK)"
  using assms by (simp add: ctrl_stores_def alt_avalon_i2c_disable_def I2C_RMW_def I2C_RD_def I2C_WR_def)

lemma en_clear_bit: "(x AND - 2) AND (1 :: u32) = 0"
  by (simp add: and.assoc)

lemma transmit_disables:
  assumes ctrl: "ctrl_stores B b ctrl" and base: "i2c_base (dev s) = b" and sp: "sp \<noteq> 0"
  shows "wlp (alt_avalon_i2c_master_transmit B buf n 0 sp s)
           (\<lambda>st s'. st = I2C_BUSY \<or> n = 0 \<or> ctrl (hw s') AND CTRL_EN_MSK = 0)"
proof -
  let ?F = "\<lambda>s'. dev s' = dev s"
  have dis: "wlp (alt_avalon_i2c_disable B s') (\<lambda>_ s'. ctrl (hw s') AND CTRL_EN_MSK = 0)" if "?F s'" for s'
    using disable_clears_enable [OF ctrl, of s'] base that
    by (auto elim!: wlp_mono simp: en_clear_bit)
  have early: "wlp (begin_transaction B 0 s) (\<lambda>e s'. ?F s' \<and> (e = None \<or> e = Some I2C_BUSY))"
    by (simp add: begin_transaction_def alt_avalon_i2c_enable_def alt_avalon_i2c_int_clear_def
        I2C_RMW_def I2C_RD_def I2C_WR_def upd_irq_data_def Let_def)
  show ?thesis
    using sp
    by (auto simp: alt_avalon_i2c_master_transmit_def Let_def split: option.split
        intro!: wlp_mono [OF early] wlp_mono [OF frame.send_address [of _ "dev s"]]
          wlp_mono [OF frame.tx_bytes [of _ "dev s"]] wlp_mono [OF frame.wait_idle [of _ "dev s"]]
          wlp_mono [OF frame.check_nack [of _ "dev s"]] wlp_mono [OF dis])
qed

section \<open>A ready core receives the buffer\<close>

text \<open>
  A core that is always ready: there is space in the command FIFO, no NACK and no lost
  arbitration is reported, the engine is idle whenever it is asked, and the control register
  stores what is written.  \<open>J\<close> is any invariant of the hardware states in which this holds.
\<close>

definition i2c_core_ready :: "'h bus \<Rightarrow> u32 \<Rightarrow> ('h \<Rightarrow> bool) \<Rightarrow> ('h \<Rightarrow> u32) \<Rightarrow> bool" where
  "i2c_core_ready B b J ctrl \<longleftrightarrow>
     (\<forall>h a. J h \<longrightarrow> J (snd (bus_rd B a h)) \<and> ctrl (snd (bus_rd B a h)) = ctrl h) \<and>
     (\<forall>h. J h \<longrightarrow> fst (bus_rd B (b + 8) h) = ctrl h) \<and>
     (\<forall>h. J h \<longrightarrow> fst (bus_rd B (b + 16) h) AND ISR_TX_READY_MSK \<noteq> 0
                \<and> fst (bus_rd B (b + 16) h) AND ISR_NACK_DET_MSK = 0
                \<and> fst (bus_rd B (b + 16) h) AND ISR_ARBLOST_DET_MSK = 0) \<and>
     (\<forall>h. J h \<longrightarrow> fst (bus_rd B (b + 20) h) AND STATUS_CORE_STATUS_MSK = 0) \<and>
     (\<forall>h a d. J h \<longrightarrow> J (bus_wr B a d h) \<and> ctrl (bus_wr B a d h) = (if a = b + 8 then d else ctrl h)) \<and>
     (\<forall>h us. J h \<longrightarrow> J (bus_delay B us h) \<and> ctrl (bus_delay B us h) = ctrl h)"

lemma core_readyD:
  assumes "i2c_core_ready B b J ctrl" and "J h"
  shows "J (snd (bus_rd B a h))" "ctrl (snd (bus_rd B a h)) = ctrl h"
    "fst (bus_rd B (b + 8) h) = ctrl h"
    "fst (bus_rd B (b + 16) h) AND 1 \<noteq> 0" "fst (bus_rd B (b + 16) h) AND 4 = 0"
    "fst (bus_rd B (b + 16) h) AND 8 = 0" "fst (bus_rd B (b + 20) h) AND 1 = 0"
    "J (bus_wr B a d h)" "ctrl (bus_wr B a d h) = (if a = b + 8 then d else ctrl h)"
  using assms unfolding i2c_core_ready_def by blast+

text \<open>
  Where a run of the driver stands: the hardware is in \<open>J\<close> with control register \<open>c\<close>, the
  commands written so far are \<open>cs\<close>, device structure and memory are \<open>d\<close> and \<open>m\<close>.
\<close>

definition core_at ::
  "u32 \<Rightarrow> ('h \<Rightarrow> bool) \<Rightarrow> ('h \<Rightarrow> u32) \<Rightarrow> u32 \<Rightarrow> u32 list \<Rightarrow> i2c_dev \<Rightarrow> (u32 \<Rightarrow> u8) \<Rightarrow> ('h, 'x) i2c_st_scheme \<Rightarrow> bool" where
  "core_at b J ctrl c cs d m s \<longleftrightarrow> J (hw s) \<and> ctrl (hw s) = c \<and> writes_to b (trace s) = cs
     \<and> dev s = d \<and> bytes s = m \<and> i2c_base d = b"

lemma ready_cmd_write:
  assumes core: "i2c_core_ready B b J ctrl" and at: "core_at b J ctrl c cs d m s"
  shows "wp (alt_avalon_i2c_cmd_write B v st sp s)
           (\<lambda>r s'. r = I2C_SUCCESS \<and> core_at b J ctrl c (cs @ [tfr_cmd v st sp]) d m s')"
proof -
  note R = core_readyD [OF core]
  from at have J: "J (hw s)" and base: "i2c_base (dev s) = b" by (auto simp: core_at_def)
  have poll: "timed_poll (tx_full_cond B) n t s =
      Some (True, s\<lparr>hw := snd (bus_rd B (b + 16) (hw s)),
        trace := trace s @ [Rd (b + 16) (fst (bus_rd B (b + 16) (hw s)))]\<rparr>)" for n t
    using R(4) [OF J] base by (intro timed_poll_first) (simp add: tx_full_cond_def I2C_RD_def)
  show ?thesis
    using at J base
    by (simp add: alt_avalon_i2c_cmd_write_def poll alt_avalon_i2c_check_nack_def
        alt_avalon_i2c_check_arblost_def I2C_RD_def I2C_WR_def core_at_def R)
qed

lemma ready_begin:
  assumes core: "i2c_core_ready B b J ctrl" and at: "core_at b J ctrl c cs d m s" and c: "c AND 1 = 0"
  shows "wp (begin_transaction B 0 s) (\<lambda>e s'. e = None \<and> core_at b J ctrl (c OR 1) cs d m s')"
proof -
  note R = core_readyD [OF core]
  have or: "(c AND - 2) OR 1 = c OR 1" for c :: u32
    by (simp add: bit_eq_iff bit_simps) (auto simp: bit_1_iff)
  show ?thesis
    using at c
    by (simp add: begin_transaction_def alt_avalon_i2c_enable_def alt_avalon_i2c_int_clear_def
        I2C_RMW_def I2C_RD_def I2C_WR_def core_at_def R Let_def upd_irq_data_def or)
qed

text \<open>The commands that carry a buffer: plain bytes, the stop flag on the last one.\<close>

fun data_cmds :: "u8 \<Rightarrow> u8 list \<Rightarrow> u32 list" where
  "data_cmds sp [] = []"
| "data_cmds sp [x] = [tfr_cmd x I2C_NO_RESTART sp]"
| "data_cmds sp (x # y # ys) = tfr_cmd x I2C_NO_RESTART I2C_NO_STOP # data_cmds sp (y # ys)"

lemma data_cmds_step:
  "0 < n \<Longrightarrow> data_cmds sp (x # read_bytes m a n) =
     tfr_cmd x I2C_NO_RESTART I2C_NO_STOP # data_cmds sp (read_bytes m a n)"
  by (cases n) simp_all

lemma ready_tx_bytes:
  assumes core: "i2c_core_ready B b J ctrl"
  shows "core_at b J ctrl c cs d m s \<Longrightarrow> 0 < unat n \<Longrightarrow>
     wp (tx_bytes B buf n sp I2C_SUCCESS s)
        (\<lambda>r s'. r = I2C_SUCCESS \<and> core_at b J ctrl c (cs @ data_cmds sp (read_bytes m buf (unat n))) d m s')"
proof (induction n arbitrary: buf cs s rule: measure_induct_rule [of unat])
  case (less n)
  have mem: "bytes s = m" using less.prems by (simp add: core_at_def)
  show ?case
  proof (cases "n > 1")
    case True
    then have "n \<noteq> 0" by auto
    then have m1: "unat (n - 1) = unat n - 1" by (rule unat_minus_one)
    with True have u: "unat n = Suc (unat (n - 1))" and pos: "0 < unat (n - 1)"
      by (auto simp: word_less_nat_alt)
    show ?thesis
      using True mem u pos
      by (subst tx_bytes.simps)
         (auto intro!: wp_mono [OF ready_cmd_write [OF core less.prems(1)]]
            wp_mono [OF less.IH [OF word_gt_1_minus_less]] simp: data_cmds_step)
  next
    case False
    with less.prems(2) have "unat n = unat (1 :: u32)" by (auto simp: word_less_nat_alt not_less)
    then have "n = 1" by (simp only: word_unat_eq_iff)
    then show ?thesis
      using mem ready_cmd_write [OF core less.prems(1), of "bytes s buf" 0 sp]
      by (subst tx_bytes.simps) simp
  qed
qed

lemma ready_wait_idle:
  assumes core: "i2c_core_ready B b J ctrl" and at: "core_at b J ctrl c cs d m s"
  shows "wp (wait_idle B t st s) (\<lambda>r s'. r = st \<and> core_at b J ctrl c cs d m s')"
proof -
  note R = core_readyD [OF core]
  from at have J: "J (hw s)" and base: "i2c_base (dev s) = b" by (auto simp: core_at_def)
  have "timed_poll (busy_cond B) (alt_busy_sleep B 10000) t s =
      Some (True, s\<lparr>hw := snd (bus_rd B (b + 20) (hw s)),
        trace := trace s @ [Rd (b + 20) (fst (bus_rd B (b + 20) (hw s)))]\<rparr>)"
    using R(7) [OF J] base
    by (intro timed_poll_first) (simp add: busy_cond_def alt_avalon_i2c_is_busy_def I2C_RD_def)
  then show ?thesis using at J by (simp add: wait_idle_def core_at_def R)
qed

lemma ready_finish:
  assumes core: "i2c_core_ready B b J ctrl" and at: "core_at b J ctrl c cs d m s"
  shows "wp (alt_avalon_i2c_check_nack B st s) (\<lambda>r s'. r = st \<and> core_at b J ctrl c cs d m s')"
    and "wp (alt_avalon_i2c_disable B s) (\<lambda>_ s'. core_at b J ctrl (c AND NOT 1) cs d m s')"
  using at core_readyD [OF core]
  by (auto simp: alt_avalon_i2c_check_nack_def alt_avalon_i2c_disable_def I2C_RMW_def I2C_RD_def
      I2C_WR_def core_at_def)

text \<open>The address command of a 7-bit target: address and direction bit, cut to a byte.\<close>

definition addr_cmd :: "u32 \<Rightarrow> u32 \<Rightarrow> u32" where
  "addr_cmd target rw = tfr_cmd (ucast (push_bit 1 target OR rw)) I2C_NO_RESTART I2C_NO_STOP"

lemma ready_transmit:
  assumes core: "i2c_core_ready B b J ctrl" and at: "core_at b J ctrl c cs d m s"
    and c: "c AND 1 = 0" and n: "n \<noteq> 0" and seven: "address_mode d = ADDR_MODE_7_BIT"
  shows "wp (alt_avalon_i2c_master_transmit B buf n I2C_NO_RESTART I2C_STOP s)
     (\<lambda>r s'. r = I2C_SUCCESS \<and> core_at b J ctrl ((c OR 1) AND NOT 1)
        (cs @ addr_cmd (master_target_address d) I2C_WRITE # data_cmds I2C_STOP (read_bytes m buf (unat n))) d m s')"
proof -
  have addr: "wp (alt_avalon_i2c_send_address B 0 0 s')
      (\<lambda>r s'. r = 0 \<and> core_at b J ctrl c' (cs' @ [addr_cmd (master_target_address d) 0]) d m s')"
    if "core_at b J ctrl c' cs' d m s'" for s' c' cs'
    using ready_cmd_write [OF core that] that seven
    by (auto simp: alt_avalon_i2c_send_address_def addr_cmd_def core_at_def)
  show ?thesis
    using n
    by (auto simp: alt_avalon_i2c_master_transmit_def Let_def unat_gt_0
        intro!: wp_mono [OF ready_begin [OF core at c]] wp_mono [OF addr]
          wp_mono [OF ready_tx_bytes [OF core]] wp_mono [OF ready_wait_idle [OF core]]
          wp_mono [OF ready_finish(1) [OF core]] wp_mono [OF ready_finish(2) [OF core]])
qed

section \<open>Time-outs\<close>

lemma cmd_write_never_ready:
  assumes full: "\<And>h. fst (bus_rd B (b + 16) h) AND ISR_TX_READY_MSK = 0" and base: "i2c_base (dev s) = b"
  shows "wp (alt_avalon_i2c_cmd_write B v st sp s)
     (\<lambda>r s'. r = I2C_TIMEOUT \<and> reads_of (b + 16) (trace s') = reads_of (b + 16) (trace s) + 10000
        \<and> bus_writes (trace s') = bus_writes (trace s))"
proof -
  let ?P = "\<lambda>s'. i2c_base (dev s') = b \<and> bus_writes (trace s') = bus_writes (trace s)"
  have "wp (timed_poll (tx_full_cond B) (alt_busy_sleep B 10000) 10000 s)
      (\<lambda>ok s'. \<not> ok \<and> ?P s' \<and> reads_of (b + 16) (trace s') = reads_of (b + 16) (trace s) + poll_budget 10000)"
    using base full
    by (intro timed_poll_exhausts [where P = ?P]) (auto simp: tx_full_cond_def I2C_RD_def)
  then show ?thesis
    by (auto simp: alt_avalon_i2c_cmd_write_def elim!: wp_mono)
qed

section \<open>The receive FIFO loop on a FIFO that never empties\<close>

lemma rx_read_loop_diverges:
  assumes lvl: "\<And>h. fst (bus_rd B (b + 28) h) \<noteq> 0"
  shows "i2c_base (dev s) = b \<Longrightarrow> rx_read_loop B buf 0 n s = None"
proof (rule ccontr)
  assume base: "i2c_base (dev s) = b" and "rx_read_loop B buf 0 n s \<noteq> None"
  then obtain r where r: "rx_read_loop B buf 0 n s = Some r" by auto
  let ?P = "\<lambda>B' buf mx n s r. B' = B \<longrightarrow> mx = 0 \<longrightarrow> i2c_base (dev s) \<noteq> b"
  have "?P B buf (0 :: u32) n s r"
  proof (rule rx_read_loop.raw_induct [where P = ?P, OF _ r])
    fix f and B' :: "'a bus" and buf mx n :: u32 and s :: "('a, 'b) i2c_st_scheme" and r
    assume IH: "\<And>B' buf mx n s r. f B' buf mx n s = Some r \<Longrightarrow> ?P B' buf mx n s r"
      and eq: "(do {
         (lvl, s) \<leftarrow> I2C_RD B' RX_DATA_FIFO_LVL s;
         (if lvl = 0 then Some (n, s)
          else do {
            (d, s) \<leftarrow> I2C_RD B' RX_DATA s;
            (if n + 1 = mx \<and> mx \<noteq> 0
             then Some (n + 1, s\<lparr>bytes := (bytes s)(buf + n := ucast d)\<rparr>)
             else f B' buf mx (n + 1) (s\<lparr>bytes := (bytes s)(buf + n := ucast d)\<rparr>))
          })
       }) = Some r"
    show "?P B' buf mx n s r"
      using eq lvl by (auto simp: I2C_RD_def dest!: IH)
  qed
  then show False using base by simp
qed

section \<open>Bus speed\<close>

lemma speed_set_eq:
  assumes "1 \<le> sp" "sp \<le> FS_MAX_HZ"
  shows "alt_avalon_i2c_master_config_speed_set d cfg sp =
     (let l = ip_freq_in_hz d div (2 * sp) in
      (I2C_SUCCESS, cfg\<lparr>speed_mode := (if sp > FS_MIN_HZ then SPEED_FAST else SPEED_STANDARD),
         scl_lcnt := ucast (l - 60), scl_hcnt := ucast (l + 60),
         sda_cnt := ucast (l - 60 - (l - 60) div 2)\<rparr>))"
proof -
  have "\<not> sp < 1" "sp \<noteq> 0" "\<not> sp > FS_MAX_HZ" using assms by (auto simp: not_less)
  then show ?thesis
    by (simp add: alt_avalon_i2c_master_config_speed_set_def Let_def mult.commute)
qed

lemma ucast_u16_id:
  assumes "(w :: u32) < 2 ^ 16"
  shows "ucast (ucast w :: u16) = w"
proof -
  have "unat w < 2 ^ 16" using assms by (simp add: word_less_nat_alt)
  then show ?thesis
    by (simp add: word_unat_eq_iff unsigned_ucast_eq take_bit_nat_eq_self unsigned_take_bit_eq)
qed

lemma speed_round_trip:
  assumes sp: "1 \<le> sp" "sp \<le> FS_MAX_HZ" and l: "l = ip_freq_in_hz d div (2 * sp)"
    and lo: "60 < l" and hi: "l < 65476"
  shows "\<exists>cfg'. alt_avalon_i2c_master_config_speed_set d cfg sp = (I2C_SUCCESS, cfg') \<and>
     alt_avalon_i2c_master_config_speed_get d cfg' = (I2C_SUCCESS, Some (ip_freq_in_hz d div (2 * l))) \<and>
     sp \<le> ip_freq_in_hz d div (2 * l)"
proof -
  have lu: "60 < unat l" "unat l < 65476" using lo hi by (simp_all add: word_less_nat_alt)
  have m: "unat (l - 60) = unat l - 60" using lu by (simp add: unat_sub word_le_nat_alt)
  have p: "unat (l + 60) = unat l + 60" using lu by (simp add: unat_word_ariths)
  have c1: "ucast (ucast (l - 60) :: u16) = l - 60" using lu m by (intro ucast_u16_id) (simp add: word_less_nat_alt)
  have c2: "ucast (ucast (l + 60) :: u16) = l + 60" using lu p by (intro ucast_u16_id) (simp add: word_less_nat_alt)
  have nz: "l - 60 \<noteq> 0" "l + 60 \<noteq> 0" using lu m p by (auto simp: word_unat_eq_iff)
  have z: "ucast (l - 60) \<noteq> (0 :: u16)" "ucast (l + 60) \<noteq> (0 :: u16)"
    using c1 c2 nz by (metis unsigned_0)+
  have spu: "unat (2 * sp) = 2 * unat sp" "1 \<le> unat sp"
    using sp by (simp_all add: unat_word_ariths word_le_nat_alt)
  have lun: "unat l = unat (ip_freq_in_hz d) div (2 * unat sp)"
    using l spu by (simp add: unat_div)
  have l2: "unat (2 * l) = 2 * unat l" using lu by (simp add: unat_word_ariths)
  have "unat l * (2 * unat sp) \<le> unat (ip_freq_in_hz d)"
    unfolding lun by simp
  then have "unat sp * (2 * unat l) \<le> unat (ip_freq_in_hz d)"
    by (simp add: mult.commute mult.left_commute)
  then have "unat sp \<le> unat (ip_freq_in_hz d) div (2 * unat l)"
    using lu by (simp add: less_eq_div_iff_mult_less_eq)
  then have "sp \<le> ip_freq_in_hz d div (2 * l)"
    by (simp add: word_le_nat_alt unat_div l2)
  moreover have "l - 60 + (l + 60) = 2 * l" by simp
  ultimately show ?thesis
    using sp z c1 c2
    by (simp add: speed_set_eq l [symmetric] Let_def alt_avalon_i2c_master_config_speed_get_def)
qed

end
