(* ===== verification/I2C_Claims.thy ===== *)
theory I2C_Claims
  imports I2C_Correct
begin

text \<open>
  The properties of the I2C driver and a concrete core to instantiate them: a control
  register that stores what is written, a fixed interrupt status, an idle engine.
\<close>

section \<open>A target that never acknowledges\<close>

definition i2c_core_nacks :: "'h bus \<Rightarrow> u32 \<Rightarrow> ('h \<Rightarrow> u32) \<Rightarrow> bool" where
  "i2c_core_nacks B b ctrl \<longleftrightarrow> ctrl_stores B b ctrl \<and>
     (\<forall>h. fst (bus_rd B (b + 16) h) AND ISR_TX_READY_MSK \<noteq> 0
        \<and> fst (bus_rd B (b + 16) h) AND ISR_NACK_DET_MSK \<noteq> 0
        \<and> fst (bus_rd B (b + 16) h) AND ISR_ARBLOST_DET_MSK = 0) \<and>
     (\<forall>h. fst (bus_rd B (b + 20) h) AND STATUS_CORE_STATUS_MSK = 0)"

lemma core_nacksD:
  assumes "i2c_core_nacks B b ctrl"
  shows "fst (bus_rd B (b + 8) h) = ctrl h" "ctrl (snd (bus_rd B a h)) = ctrl h"
    "ctrl (bus_wr B a d h) = (if a = b + 8 then d else ctrl h)" "ctrl (bus_delay B us h) = ctrl h"
    "fst (bus_rd B (b + 16) h) AND 1 \<noteq> 0" "fst (bus_rd B (b + 16) h) AND 4 \<noteq> 0"
    "fst (bus_rd B (b + 16) h) AND 8 = 0" "fst (bus_rd B (b + 20) h) AND 1 = 0"
  using assms unfolding i2c_core_nacks_def ctrl_stores_def by auto

definition nack_at :: "u32 \<Rightarrow> ('h \<Rightarrow> u32) \<Rightarrow> i2c_dev \<Rightarrow> u32 \<Rightarrow> u32 list \<Rightarrow> ('h, 'x) i2c_st_scheme \<Rightarrow> bool" where
  "nack_at b ctrl d c cs s \<longleftrightarrow> dev s = d \<and> i2c_base d = b \<and> writes_to b (trace s) = cs \<and> ctrl (hw s) = c"

lemma nack_cmd_write:
  assumes core: "i2c_core_nacks B b ctrl" and at: "nack_at b ctrl d c cs s"
  shows "wp (alt_avalon_i2c_cmd_write B v st sp s)
     (\<lambda>r s'. r = I2C_NACK_ERR \<and> nack_at b ctrl d c (cs @ [tfr_cmd v st sp]) s')"
proof -
  note R = core_nacksD [OF core]
  from at have base: "i2c_base (dev s) = b" by (auto simp: nack_at_def)
  have "timed_poll (tx_full_cond B) n t s =
      Some (True, s\<lparr>hw := snd (bus_rd B (b + 16) (hw s)),
        trace := trace s @ [Rd (b + 16) (fst (bus_rd B (b + 16) (hw s)))]\<rparr>)" for n t
    using R(5) base by (intro timed_poll_first) (simp add: tx_full_cond_def I2C_RD_def)
  then show ?thesis
    using at R by (simp add: alt_avalon_i2c_cmd_write_def alt_avalon_i2c_check_nack_def
        alt_avalon_i2c_check_arblost_def I2C_RD_def I2C_WR_def nack_at_def)
qed

lemma nack_begin:
  assumes core: "i2c_core_nacks B b ctrl" and at: "nack_at b ctrl d c cs s" and c: "c AND 1 = 0"
  shows "wp (begin_transaction B 0 s) (\<lambda>e s'. e = None \<and> nack_at b ctrl d ((c AND - 2) OR 1) cs s')"
  using at c core_nacksD [OF core]
  by (simp add: begin_transaction_def alt_avalon_i2c_enable_def alt_avalon_i2c_int_clear_def
      I2C_RMW_def I2C_RD_def I2C_WR_def nack_at_def Let_def upd_irq_data_def)

lemma nack_wait_idle:
  assumes core: "i2c_core_nacks B b ctrl" and at: "nack_at b ctrl d c cs s"
  shows "wp (wait_idle B t st s) (\<lambda>r s'. r = st \<and> nack_at b ctrl d c cs s')"
proof -
  note R = core_nacksD [OF core]
  from at have base: "i2c_base (dev s) = b" by (auto simp: nack_at_def)
  have "timed_poll (busy_cond B) (alt_busy_sleep B 10000) t s =
      Some (True, s\<lparr>hw := snd (bus_rd B (b + 20) (hw s)),
        trace := trace s @ [Rd (b + 20) (fst (bus_rd B (b + 20) (hw s)))]\<rparr>)"
    using R(8) base
    by (intro timed_poll_first) (simp add: busy_cond_def alt_avalon_i2c_is_busy_def I2C_RD_def)
  then show ?thesis using at R by (simp add: wait_idle_def nack_at_def)
qed

lemma nack_finish:
  assumes core: "i2c_core_nacks B b ctrl" and at: "nack_at b ctrl d c cs s"
  shows "wp (alt_avalon_i2c_check_nack B st s) (\<lambda>r s'. r = I2C_NACK_ERR \<and> nack_at b ctrl d c cs s')"
    and "wp (alt_avalon_i2c_disable B s) (\<lambda>_ s'. nack_at b ctrl d (c AND - 2) cs s')"
  using at core_nacksD [OF core]
  by (auto simp: alt_avalon_i2c_check_nack_def alt_avalon_i2c_disable_def I2C_RMW_def I2C_RD_def
      I2C_WR_def nack_at_def)

lemma nack_attempt:
  assumes core: "i2c_core_nacks B b ctrl" and at: "nack_at b ctrl d c cs s" and n: "n \<noteq> 0"
    and seven: "address_mode d = ADDR_MODE_7_BIT" and c: "c AND 1 = 0"
  shows "wp (alt_avalon_i2c_master_transmit B buf n I2C_NO_RESTART I2C_STOP s)
     (\<lambda>r s'. r = I2C_NACK_ERR \<and>
        nack_at b ctrl d (((c AND - 2) OR 1) AND - 2) (cs @ [addr_cmd (master_target_address d) I2C_WRITE]) s')"
proof -
  have addr: "wp (alt_avalon_i2c_send_address B 0 0 s')
      (\<lambda>r s'. r = I2C_NACK_ERR \<and> nack_at b ctrl d c' (cs' @ [addr_cmd (master_target_address d) 0]) s')"
    if "nack_at b ctrl d c' cs' s'" for s' c' cs'
    using nack_cmd_write [OF core that] that seven
    by (auto simp: alt_avalon_i2c_send_address_def addr_cmd_def nack_at_def)
  show ?thesis
    using n
    by (auto simp: alt_avalon_i2c_master_transmit_def Let_def
        intro!: wp_mono [OF nack_begin [OF core at c]] wp_mono [OF addr]
          wp_mono [OF nack_wait_idle [OF core]]
          wp_mono [OF nack_finish(1) [OF core]] wp_mono [OF nack_finish(2) [OF core]])
qed

lemma nack_retry:
  assumes core: "i2c_core_nacks B b ctrl" and n: "n \<noteq> 0" and seven: "address_mode d = ADDR_MODE_7_BIT"
  shows "nack_at b ctrl d c cs s \<Longrightarrow> c AND 1 = 0 \<Longrightarrow> 0 < k \<or> st = I2C_NACK_ERR \<Longrightarrow>
     wp (retry_loop B (alt_avalon_i2c_master_transmit B buf n I2C_NO_RESTART I2C_STOP) k st s)
       (\<lambda>r s'. r = I2C_NACK_ERR \<and> (\<exists>c'. c' AND 1 = 0 \<and>
          nack_at b ctrl d c' (cs @ replicate k (addr_cmd (master_target_address d) I2C_WRITE)) s'))"
proof (induction k arbitrary: c cs st s)
  case 0
  then show ?case by auto
next
  case (Suc k)
  have nap: "wp (if k < 10 then alt_busy_sleep B 10000 s else Some ((), s)) (\<lambda>_. nack_at b ctrl d c cs)"
    using Suc.prems(1) core_nacksD(4) [OF core] by (simp add: nack_at_def)
  note again = wp_mono [OF Suc.IH [OF _ en_clear_bit]]
  show ?case
    apply (simp only: retry_loop.simps wp_bind prod.case)
    apply (rule wp_mono [OF nap], rule wp_mono [OF nack_attempt [OF core _ n seven Suc.prems(2)]], assumption)
    by (auto simp: retryable_def intro!: again)
qed

section \<open>A concrete core and a concrete call\<close>

definition simple_core :: "u32 \<Rightarrow> u32 \<Rightarrow> u32 bus" where
  "simple_core b isr =
     \<lparr>bus_rd = (\<lambda>a h. (if a = b + 8 then h else if a = b + 16 then isr else 0, h)),
      bus_wr = (\<lambda>a d h. if a = b + 8 then d else h),
      bus_delay = (\<lambda>us h. h)\<rparr>"

definition adv_dev :: i2c_dev where
  "adv_dev = \<lparr>dev_name = 0x300, i2c_base = 0x20040, irq_controller_ID = 0, irq_ID = 2,
     callback = CB_null, callback_context = 0, control = 0, master_target_address = 0x39,
     cmd_fifo_size = 4, rx_fifo_size = 4, ip_freq_in_hz = 50000000, address_mode = ADDR_MODE_7_BIT\<rparr>"

definition adv_state :: "u32 i2c_st" where
  "adv_state = \<lparr>hw = 0, trace = [], cpu_status = 1, cpu_ienable = 0,
     alt_irq_active = 0, alt_priority_mask = -1, alt_irq = (\<lambda>_. \<lparr>ih_handler = 0, ih_context = 0\<rparr>),
     alt_instruction_exception_handler = 0, alt_fd_list = alt_fd_list_init 0x40, alt_max_fd = -1,
     errno = 0, links = \<lparr>ll_next = (\<lambda>x. x), ll_prev = (\<lambda>x. x)\<rparr>,
     bytes = (\<lambda>a. if a = 0x100 then 0x41 else 0x10), st_mode = (\<lambda>_. 0), tick_rate = 1000, nticks = 0,
     alarms = (\<lambda>_. \<lparr>al_time = 0, al_callback = 0, al_rollover = 0, al_context = 0\<rparr>),
     alt_resettime = \<lparr>tv_sec = 0, tv_usec = 0\<rparr>, alt_timezone = (0, 0), heap_end = 0x1000,
     dev = adv_dev, irq_cells = (\<lambda>_. \<lparr>irq_buffer = 0, irq_size = 0, irq_busy = 0\<rparr>)\<rparr>"

definition zero_cfg :: i2c_master_config where
  "zero_cfg = \<lparr>addr_mode = ADDR_MODE_7_BIT, speed_mode = SPEED_STANDARD, scl_hcnt = 0, scl_lcnt = 0, sda_cnt = 0\<rparr>"

lemma adv_sel [simp]:
  "i2c_base (dev adv_state) = 0x20040" "address_mode (dev adv_state) = ADDR_MODE_7_BIT"
  "master_target_address (dev adv_state) = 0x39" "hw adv_state = 0" "trace adv_state = []"
  "bytes adv_state = (\<lambda>a. if a = 0x100 then 0x41 else 0x10)" "ip_freq_in_hz adv_dev = 50000000"
  by (simp_all add: adv_state_def adv_dev_def)

lemma read_bytes_2: "read_bytes m a 2 = [m a, m (a + 1)]"
  by (simp add: numeral_2_eq_2)

lemma simple_core_stores: "ctrl_stores (simple_core b isr) b (\<lambda>h. h)"
  by (simp add: ctrl_stores_def simple_core_def)

lemma simple_core_ready: "i2c_core_ready (simple_core b 1) b (\<lambda>_. True) (\<lambda>h. h)"
  by (simp add: i2c_core_ready_def simple_core_def)

lemma simple_core_nacks: "i2c_core_nacks (simple_core b 5) b (\<lambda>h. h)"
  by (simp add: i2c_core_nacks_def simple_core_stores) (simp add: simple_core_def)

section \<open>Properties\<close>

text \<open>
  C5. A polled write transaction to a ready core returns SUCCESS, writes the address command
  and then exactly the bytes of the caller's buffer, in order, with the stop flag on the last
  one, and leaves the core disabled and device structure and memory unchanged.
\<close>

theorem i2c_transmit_sends_buffer:
  assumes core: "i2c_core_ready B b J ctrl" and "J (hw s)" and "i2c_base (dev s) = b"
    and "ctrl (hw s) AND CTRL_EN_MSK = 0" and n: "n \<noteq> 0"
    and seven: "address_mode (dev s) = ADDR_MODE_7_BIT"
  shows "\<exists>s'. alt_avalon_i2c_master_transmit B buf n I2C_NO_RESTART I2C_STOP s = Some (I2C_SUCCESS, s') \<and>
     writes_to b (trace s') = writes_to b (trace s) @
       addr_cmd (master_target_address (dev s)) I2C_WRITE # data_cmds I2C_STOP (read_bytes (bytes s) buf (unat n)) \<and>
     ctrl (hw s') AND CTRL_EN_MSK = 0 \<and> J (hw s') \<and> dev s' = dev s \<and> bytes s' = bytes s"
proof -
  have "core_at b J ctrl (ctrl (hw s)) (writes_to b (trace s)) (dev s) (bytes s) s"
    using assms by (simp add: core_at_def)
  from ready_transmit [OF core this assms(4) n seven, of buf] show ?thesis
    by (auto simp: wp_iff core_at_def en_clear_bit)
qed

theorem i2c_transmit_sends_buffer_witness:
  "\<exists>s'. alt_avalon_i2c_master_transmit (simple_core 0x20040 1) 0x100 2 I2C_NO_RESTART I2C_STOP adv_state
      = Some (I2C_SUCCESS, s') \<and> writes_to 0x20040 (trace s') = [0x72, 0x41, 0x110]"
  using i2c_transmit_sends_buffer [OF simple_core_ready, of adv_state "0x20040" 2 "0x100"]
  by (auto simp: addr_cmd_def tfr_cmd_def read_bytes_2)

text \<open>
  C20. The command FIFO is never written blindly: whatever the hardware answers, in any
  transmit, receive or combined transaction, polled or interrupt driven, and in the interrupt
  callback, every command is written directly after a status read that reported space.
\<close>

theorem i2c_commands_flow_controlled:
  assumes "flow_inv b s"
  shows "wlp (alt_avalon_i2c_master_tx B buf n ui s) (\<lambda>_. flow_inv b) \<and>
    wlp (alt_avalon_i2c_master_rx B buf n ui s) (\<lambda>_. flow_inv b) \<and>
    wlp (alt_avalon_i2c_master_tx_rx B buf n rbuf rn ui s) (\<lambda>_. flow_inv b) \<and>
    wlp (optional_irq_callback B s) (\<lambda>_. flow_inv b)"
  using assms by (simp add: flow.master_tx flow.master_rx flow.master_tx_rx flow.irq_callback)

theorem i2c_commands_flow_controlled_witness:
  "flow_inv 0x20040 adv_state \<and>
   wlp (alt_avalon_i2c_master_tx (simple_core 0x20040 5) 0x100 2 0 adv_state) (\<lambda>_. flow_inv 0x20040)"
proof -
  have "flow_inv 0x20040 adv_state" by (simp add: flow_inv_def)
  then show ?thesis using i2c_commands_flow_controlled by blast
qed

text \<open>
  The polled transmit with retries returns whatever the hardware does: every loop under it
  is bounded.
\<close>

theorem i2c_master_tx_always_returns:
  "\<exists>status s'. alt_avalon_i2c_master_tx B buf n 0 s = Some (status, s')"
  using master_tx_returns [of B buf n s] by (auto simp: wp_iff)

text \<open>
  A write transaction with a stop on a core whose control register stores what is written
  returns, and unless it was refused as busy (or empty) the core is disabled afterwards,
  after every error too: NACK, lost arbitration, time-out.
\<close>

theorem i2c_transaction_disables_core:
  assumes "ctrl_stores B b ctrl" and "i2c_base (dev s) = b" and "sp \<noteq> 0"
  shows "\<exists>status s'. alt_avalon_i2c_master_transmit B buf n I2C_NO_RESTART sp s = Some (status, s') \<and>
     (status = I2C_BUSY \<or> n = 0 \<or> ctrl (hw s') AND CTRL_EN_MSK = 0)"
  using wp_conj [OF master_transmit_returns transmit_disables [OF assms], of buf n]
  by (auto simp: wp_iff)

theorem i2c_transaction_disables_core_witness:
  "\<exists>status s'. alt_avalon_i2c_master_transmit (simple_core 0x20040 5) 0x100 2 I2C_NO_RESTART I2C_STOP adv_state
      = Some (status, s') \<and> (status = I2C_BUSY \<or> hw s' AND CTRL_EN_MSK = 0)"
  using i2c_transaction_disables_core [OF simple_core_stores, of adv_state "0x20040" I2C_STOP 5 "0x100" 2] by simp

text \<open>
  A target that never acknowledges is addressed exactly 10000 times, no data byte is ever
  sent, and the caller gets NACK_ERR.
\<close>

theorem i2c_nack_retries_exactly:
  assumes core: "i2c_core_nacks B b ctrl" and "i2c_base (dev s) = b" and "ctrl (hw s) AND CTRL_EN_MSK = 0"
    and n: "n \<noteq> 0" and seven: "address_mode (dev s) = ADDR_MODE_7_BIT"
  shows "\<exists>s'. alt_avalon_i2c_master_tx B buf n 0 s = Some (I2C_NACK_ERR, s') \<and>
     writes_to b (trace s') = writes_to b (trace s) @
       replicate 10000 (addr_cmd (master_target_address (dev s)) I2C_WRITE)"
proof -
  have "nack_at b ctrl (dev s) (ctrl (hw s)) (writes_to b (trace s)) s" using assms by (simp add: nack_at_def)
  from nack_retry [OF core n seven this assms(3), of 10000 I2C_SUCCESS buf] show ?thesis
    by (auto simp: wp_iff alt_avalon_i2c_master_tx_def nack_at_def)
qed

theorem i2c_nack_retries_exactly_witness:
  "\<exists>s'. alt_avalon_i2c_master_tx (simple_core 0x20040 5) 0x100 2 0 adv_state = Some (I2C_NACK_ERR, s')"
  using i2c_nack_retries_exactly [OF simple_core_nacks, of adv_state "0x20040" 2 "0x100"] by auto

text \<open>
  When the core never has space, a command write gives up with TIMEOUT after exactly 10000
  reads of the interrupt status and has written nothing to any register.
\<close>

theorem i2c_cmd_write_timeout_exact:
  assumes "\<And>h. fst (bus_rd B (b + 16) h) AND ISR_TX_READY_MSK = 0" and "i2c_base (dev s) = b"
  shows "\<exists>s'. alt_avalon_i2c_cmd_write B v st sp s = Some (I2C_TIMEOUT, s') \<and>
     reads_of (b + 16) (trace s') = reads_of (b + 16) (trace s) + 10000 \<and>
     bus_writes (trace s') = bus_writes (trace s)"
  using cmd_write_never_ready [OF assms, of v st sp] by (auto simp: wp_iff)

theorem i2c_cmd_write_timeout_exact_witness:
  "\<exists>s'. alt_avalon_i2c_cmd_write (simple_core 0x20040 0) 0x41 0 0 adv_state = Some (I2C_TIMEOUT, s')"
  using i2c_cmd_write_timeout_exact [of "simple_core 0x20040 0" "0x20040" adv_state "0x41" 0 0]
  by (auto simp: simple_core_def)

text \<open>
  Setting a bus speed and reading it back: when the half period \<open>l\<close> leaves room for the
  60-cycle adjustment and fits the 16-bit counters, the configuration's speed is
  \<open>freq div (2 * l)\<close>, never below the speed asked for.
\<close>

theorem i2c_speed_round_trip:
  assumes "1 \<le> sp" "sp \<le> FS_MAX_HZ" and "l = ip_freq_in_hz d div (2 * sp)" and "60 < l" and "l < 65476"
  shows "\<exists>cfg'. alt_avalon_i2c_master_config_speed_set d cfg sp = (I2C_SUCCESS, cfg') \<and>
     alt_avalon_i2c_master_config_speed_get d cfg' = (I2C_SUCCESS, Some (ip_freq_in_hz d div (2 * l))) \<and>
     sp \<le> ip_freq_in_hz d div (2 * l)"
  using assms by (rule speed_round_trip)

theorem i2c_speed_round_trip_witness:
  "\<exists>cfg'. alt_avalon_i2c_master_config_speed_set adv_dev zero_cfg 100000 = (I2C_SUCCESS, cfg') \<and>
     alt_avalon_i2c_master_config_speed_get adv_dev cfg' = (I2C_SUCCESS, Some 100000)"
  using i2c_speed_round_trip [of 100000 250 adv_dev zero_cfg] by simp

text \<open>
  Below 382 Hz the 16-bit counters overflow although the call succeeds: on the board's
  50 MHz clock a request for 100 Hz is accepted and configures 468 Hz.
\<close>

theorem i2c_speed_overflow:
  "\<exists>cfg'. alt_avalon_i2c_master_config_speed_set adv_dev cfg 100 = (I2C_SUCCESS, cfg') \<and>
     alt_avalon_i2c_master_config_speed_get adv_dev cfg' = (I2C_SUCCESS, Some 468)"
  by (simp add: speed_set_eq alt_avalon_i2c_master_config_speed_get_def Let_def)

text \<open>
  Reading "all available" bytes is unbounded: on a receive FIFO whose level register never
  reads zero the call does not return, and no argument bounds the bytes it stores.
\<close>

theorem i2c_rx_read_available_unbounded:
  assumes "\<And>h. fst (bus_rd B (b + 28) h) \<noteq> 0" and "i2c_base (dev s) = b"
  shows "alt_avalon_i2c_rx_read_available B buf 0 s = None"
  using rx_read_loop_diverges [OF assms] by (simp add: alt_avalon_i2c_rx_read_available_def)

theorem i2c_rx_read_available_unbounded_witness:
  "alt_avalon_i2c_rx_read_available
     \<lparr>bus_rd = (\<lambda>a h. (1, h)), bus_wr = (\<lambda>a d h. h), bus_delay = (\<lambda>us h. h)\<rparr> 0x100 0 adv_state = None"
  by (rule i2c_rx_read_available_unbounded [where b = "0x20040"]) simp_all

end
