(* ===== verification/HAL_Irq_Claims.thy ===== *)
theory HAL_Irq_Claims
  imports HAL_Irq
begin

text \<open>
  Properties of the interrupt layer: the order and completeness of the dispatch, its two ways
  not to behave, registration, and the brackets of nested interrupts.
\<close>

section \<open>Pending interrupts in order\<close>

definition bits_of :: "u32 \<Rightarrow> nat list" where
  "bits_of w = filter (bit w) [0 ..< 32]"

primrec run_isrs :: "('h, 'x) irq_st_scheme isr_table \<Rightarrow> nat list \<Rightarrow> (unit, ('h, 'x) irq_st_scheme) prog" where
  "run_isrs H [] s = Some ((), s)"
| "run_isrs H (i # is) s = do {
     (_, s) \<leftarrow> call_isr H (alt_irq s i) s;
     run_isrs H is s
   }"

lemma bits_of_0: "bits_of w = [] \<longleftrightarrow> w = 0"
  unfolding bits_of_def filter_empty_conv
  by (auto simp: bit_eq_iff)

lemma bit_clear: "bit (w AND NOT (push_bit k 1)) i \<longleftrightarrow> bit w i \<and> i \<noteq> k" for w :: u32
  using bit_imp_le_length [of w i]
  by (auto simp: bit_and_iff bit_not_iff bit_exp_iff possible_bit_def)

lemma bits_of_lowest:
  assumes "w \<noteq> 0"
  shows "bits_of w = lowest w # bits_of (w AND NOT (push_bit (lowest w) 1))"
proof -
  let ?k = "lowest w"
  have k: "bit w ?k" "?k < 32" "\<forall>j < ?k. \<not> bit w j" using lowest_bit [OF assms] by auto
  have "[0 ..< 32] = [0 ..< ?k] @ ?k # [Suc ?k ..< 32]"
    using k(2) upt_add_eq_append [of 0 ?k "32 - ?k"] by (simp add: upt_conv_Cons del: upt_rec_numeral)
  moreover have "filter (bit w) [Suc ?k ..< 32]
      = filter (bit (w AND NOT (push_bit ?k 1))) [Suc ?k ..< 32]"
    by (rule filter_cong) (auto simp: bit_clear simp del: push_bit_of_1)
  moreover have "filter (bit w) [0 ..< ?k] = []"
    "filter (bit (w AND NOT (push_bit ?k 1))) [0 ..< ?k] = []"
    using k(3) by (auto simp: filter_empty_conv bit_clear simp del: push_bit_of_1)
  ultimately show ?thesis
    using k(1) by (simp add: bits_of_def bit_clear del: push_bit_of_1 upt_rec_numeral)
qed

lemma irq_loop_runs:
  assumes ack: "\<And>s i. I s \<Longrightarrow> bit (alt_irq_pending lines s) i \<Longrightarrow>
      \<exists>s'. call_isr H (alt_irq s i) s = Some ((), s') \<and> I s' \<and>
        alt_irq_pending lines s' = alt_irq_pending lines s AND NOT (push_bit i 1)"
  shows "I s \<Longrightarrow> alt_irq_pending lines s = w \<Longrightarrow> w \<noteq> 0 \<Longrightarrow>
    \<exists>s'. irq_loop H lines w s = Some ((), s') \<and> alt_irq_pending lines s' = 0 \<and>
      run_isrs H (bits_of w) s = Some ((), s')"
proof (induction "length (bits_of w)" arbitrary: w s rule: less_induct)
  case less
  let ?k = "lowest w" and ?v = "w AND NOT (push_bit (lowest w) 1)"
  have "bit (alt_irq_pending lines s) ?k" using less.prems lowest_bit by simp
  from ack [OF less.prems(1) this] obtain t where
    t: "call_isr H (alt_irq s ?k) s = Some ((), t)" "I t" "alt_irq_pending lines t = ?v"
    using less.prems(2) by auto
  note sc = irq_scan_lowest [OF less.prems(3)] and b = bits_of_lowest [OF less.prems(3)]
  show ?case
  proof (cases "?v = 0")
    case True
    have "irq_loop H lines w s = Some ((), t)"
      by (subst irq_loop.simps) (simp add: sc t(1), simp add: t(3) True del: push_bit_of_1)
    moreover have "bits_of ?v = []" using True by (simp add: bits_of_0)
    ultimately show ?thesis using t True by (simp add: b del: push_bit_of_1)
  next
    case False
    have "length (bits_of ?v) < length (bits_of w)" by (simp add: b del: push_bit_of_1)
    from less.hyps [OF this t(2,3) False] obtain u where
      u: "irq_loop H lines ?v t = Some ((), u)" "alt_irq_pending lines u = 0"
         "run_isrs H (bits_of ?v) t = Some ((), u)" by blast
    have "irq_loop H lines w s = Some ((), u)"
      by (subst irq_loop.simps) (use u(1) False in \<open>simp add: sc t(1) t(3) del: push_bit_of_1\<close>)
    then show ?thesis using t(1) u by (simp add: b del: push_bit_of_1)
  qed
qed

text \<open>
  C6. The interrupt handler serves every pending interrupt, lowest number first: when each
  pending handler acknowledges its own line and nothing else changes, a run with interrupts
  pending returns, with nothing pending, and has called exactly the handlers of the lines
  that were pending, in increasing order of their numbers.
\<close>

theorem irq_handler_services_in_order:
  assumes "\<And>s i. I s \<Longrightarrow> bit (alt_irq_pending lines s) i \<Longrightarrow>
      \<exists>s'. call_isr H (alt_irq s i) s = Some ((), s') \<and> I s' \<and>
        alt_irq_pending lines s' = alt_irq_pending lines s AND NOT (push_bit i 1)"
    and "I s" "alt_irq_pending lines s \<noteq> 0"
  shows "\<exists>s'. alt_irq_handler H lines s = Some ((), s') \<and> alt_irq_pending lines s' = 0 \<and>
     run_isrs H (bits_of (alt_irq_pending lines s)) s = Some ((), s')"
  unfolding alt_irq_handler_def by (rule irq_loop_runs [OF assms(1)]) (use assms(2,3) in auto)

text \<open>A machine whose hardware is the set of raised lines, and whose handlers lower their own.\<close>

definition demo_H :: "u32 irq_st isr_table" where
  "demo_H h c s = Some ((), s\<lparr>hw := hw s AND NOT (push_bit (unat c) 1), trace := trace s @ [Wr 0 c]\<rparr>)"

definition demo_irq :: "u32 irq_st" where
  "demo_irq = \<lparr>hw = 0x16, trace = [], cpu_status = 1, cpu_ienable = 0xF6, alt_irq_active = 0xF6,
     alt_priority_mask = -1, alt_irq = (\<lambda>i. \<lparr>ih_handler = 1, ih_context = of_nat i\<rparr>),
     alt_instruction_exception_handler = 0\<rparr>"

lemma demo_ack:
  assumes "alt_irq s = alt_irq demo_irq" "bit (alt_irq_pending (\<lambda>h. h) s) i"
  shows "\<exists>s'. call_isr demo_H (alt_irq s i) s = Some ((), s') \<and> alt_irq s' = alt_irq demo_irq \<and>
        alt_irq_pending (\<lambda>h. h) s' = alt_irq_pending (\<lambda>h. h) s AND NOT (push_bit i 1)"
proof -
  have "i < 32" using bit_imp_le_length [OF assms(2)] by simp
  then have "unat (of_nat i :: u32) = i" by (simp add: unat_of_nat take_bit_eq_mod)
  then show ?thesis
    using assms(1)
    by (simp add: call_isr_def demo_H_def demo_irq_def alt_irq_pending_def and.assoc del: push_bit_of_1)
       (simp add: and.commute)
qed

theorem irq_handler_services_in_order_witness:
  "\<exists>s'. alt_irq_handler demo_H (\<lambda>h. h) demo_irq = Some ((), s') \<and> trace s' = [Wr 0 1, Wr 0 2, Wr 0 4]"
proof -
  have p: "alt_irq_pending (\<lambda>h. h) demo_irq = 0x16"
    by (simp add: alt_irq_pending_def demo_irq_def)
  have b: "bits_of 0x16 = [1, 2, 4]" by code_simp
  have t: "run_isrs demo_H [1, 2, 4] demo_irq = Some ((), s') \<Longrightarrow> trace s' = [Wr 0 1, Wr 0 2, Wr 0 4]" for s'
    by (auto simp: call_isr_def demo_H_def demo_irq_def)
  obtain s' where "alt_irq_handler demo_H (\<lambda>h. h) demo_irq = Some ((), s')"
    "run_isrs demo_H [1, 2, 4] demo_irq = Some ((), s')"
    using irq_handler_services_in_order [of "\<lambda>s. alt_irq s = alt_irq demo_irq" "\<lambda>h. h" demo_H demo_irq]
      demo_ack p b by auto
  with t show ?thesis by blast
qed

text \<open>
  Whatever the handlers do, a run of the interrupt handler that returns leaves no enabled
  interrupt pending; and a run that starts with none pending never returns: its inner loop
  searches for a bit that is not there.
\<close>

theorem irq_handler_exit:
  "(alt_irq_pending lines s = 0 \<longrightarrow> alt_irq_handler H lines s = None) \<and>
   (alt_irq_handler H lines s = Some ((), s') \<longrightarrow> alt_irq_pending lines s' = 0)"
proof (intro conjI impI)
  assume "alt_irq_pending lines s = 0"
  then show "alt_irq_handler H lines s = None"
    unfolding alt_irq_handler_def by (subst irq_loop.simps) (simp add: irq_scan_zero)
next
  assume r: "alt_irq_handler H lines s = Some ((), s')"
  let ?P = "\<lambda>H lines (active :: u32) s r. alt_irq_pending lines (snd r) = 0"
  have "?P H lines (alt_irq_pending lines s) s ((), s')"
    by (rule irq_loop.raw_induct [where P = ?P, OF _ r [unfolded alt_irq_handler_def]])
       (auto simp: Let_def bind_eq_Some_conv split: if_splits prod.splits)
  then show "alt_irq_pending lines s' = 0" by simp
qed

theorem irq_handler_exit_witness:
  "alt_irq_handler demo_H (\<lambda>h. h) (demo_irq\<lparr>hw := 0x100\<rparr>) = None"
  using irq_handler_exit [of "\<lambda>h. h" "demo_irq\<lparr>hw := 0x100\<rparr>" demo_H undefined]
  by (simp add: alt_irq_pending_def demo_irq_def)

section \<open>Registration\<close>

text \<open>
  Registering a handler for line n below 32 returns 0, puts handler and context into slot
  n and no other, enables exactly line n when the handler is not null and disables exactly
  line n when it is, in the register and in its shadow copy, and leaves the global interrupt
  enable as it was.
\<close>

theorem isr_register_effect:
  assumes "n < 32" "cpu_ienable s = alt_irq_active s"
  shows "\<exists>s'. alt_ic_isr_register ic n h c s = Some (0, s') \<and>
     alt_irq s' = (alt_irq s)(unat n := \<lparr>ih_handler = h, ih_context = c\<rparr>) \<and>
     (\<forall>i. bit (cpu_ienable s') i \<longleftrightarrow> (if i = unat n then h \<noteq> 0 else bit (cpu_ienable s) i)) \<and>
     cpu_ienable s' = alt_irq_active s' \<and> cpu_status s' = cpu_status s \<and>
     alt_ic_irq_enabled ic n s' = Some (if h \<noteq> 0 then 1 else 0, s')"
proof -
  let ?l = "push_bit (unat n) 1 :: u32"
  have set: "bit (v OR ?l) i \<longleftrightarrow> (i = unat n \<or> bit v i)" for v :: u32 and i
    using small_irq(2) [OF assms(1)] by (auto simp: bit_or_iff bit_exp_iff possible_bit_def)
  have test: "(v AND ?l \<noteq> 0) = bit v (unat n)" for v :: u32
    by (simp add: bit_iff_and_push_bit_not_eq_0)
  show ?thesis
    using assms(2)
    by (simp add: isr_register_eq [OF assms(1)] Let_def alt_ic_irq_enabled_def irq_bit_eq [OF assms(1)] test set
          bit_clear del: push_bit_of_1)
qed

theorem isr_register_effect_witness:
  "\<exists>s'. alt_ic_isr_register 0 3 7 9 demo_irq = Some (0, s') \<and>
     alt_ic_irq_enabled 0 3 s' = Some (1, s') \<and> cpu_status s' = 1"
  using isr_register_effect [of 3 demo_irq 0 7 9] by (auto simp: demo_irq_def)

text \<open>
  The range check of the enhanced registration is signed: a line from 32 to 2 ^ 31 - 1 is
  refused with -EINVAL and nothing changed, but a number with the top bit set passes the check
  and indexes the handler table below its start.  The legacy call refuses it.
\<close>

theorem isr_register_range:
  "(32 \<le> n \<and> n < 0x80000000 \<longrightarrow> alt_ic_isr_register ic n h c s = Some (- 22, s)) \<and>
   (0x80000000 \<le> n \<longrightarrow> alt_ic_isr_register ic n h c s = None \<and>
      alt_irq_register n c h s = Some (- 22, s))"
proof -
  have r: "0 \<le> uint n" "uint n < 2 ^ 32" using uint_bounded [of n] by simp_all
  have u: "sint n = (if n < 0x80000000 then uint n else uint n - 2 ^ 32)"
  proof (cases "n < 0x80000000")
    case True
    then have "uint n < 2 ^ 31" by (simp add: word_less_def)
    from sint_u32_small [OF this] True show ?thesis by simp
  next
    case False
    then have h: "2 ^ 31 \<le> uint n" by (simp add: word_less_def)
    have "sint n = (uint n + 2 ^ 31) mod 2 ^ 32 - 2 ^ 31"
      unfolding sint_uint by (simp add: signed_take_bit_eq_take_bit_shift take_bit_eq_mod)
    also have "(uint n + 2 ^ 31) mod 2 ^ 32 = uint n + 2 ^ 31 - 2 ^ 32"
      using r h by (simp add: mod_pos_geq)
    finally show ?thesis using False by simp
  qed
  show ?thesis
    using r by (auto simp: alt_ic_isr_register_def alt_iic_isr_register_def alt_irq_register_def Let_def u
          word_le_def word_less_def)
qed

theorem isr_register_range_witness:
  "alt_ic_isr_register 0 0xFFFFFFFF 7 9 demo_irq = None \<and>
   alt_ic_isr_register 0 40 7 9 demo_irq = Some (- 22, demo_irq)"
  using isr_register_range [of "0xFFFFFFFF" 0 7 9 demo_irq] isr_register_range [of 40 0 7 9 demo_irq]
  by simp

section \<open>Nested interrupts\<close>

text \<open>
  Between alt_irq_interruptible p and the matching alt_irq_non_interruptible exactly the
  registered lines of higher priority (lower number than p) are enabled, with interrupts on;
  afterwards interrupts are off again and the priority mask and the enabled lines are as
  before, so that the brackets nest.
\<close>

theorem irq_nesting_bracket:
  assumes "p < 32" "cpu_ienable s = alt_irq_active s AND alt_priority_mask s"
  shows "\<exists>old s' s''. alt_irq_interruptible p s = Some (old, s') \<and> cpu_status s' = 1 \<and>
     (\<forall>i. bit (cpu_ienable s') i \<longleftrightarrow> bit (alt_irq_active s) i \<and> i < unat p) \<and>
     alt_irq_non_interruptible old s' = Some ((), s'') \<and>
     cpu_ienable s'' = cpu_ienable s \<and> alt_priority_mask s'' = alt_priority_mask s \<and> cpu_status s'' = 0"
proof -
  have l: "unat p < 32" using assms(1) by (simp add: word_less_nat_alt)
  have "push_bit (unat p) 1 - 1 = (Bit_Operations.mask (unat p) :: u32)"
    by (simp add: mask_eq_exp_minus_1)
  then have "bit (v AND (push_bit (unat p) 1 - 1)) i \<longleftrightarrow> bit v i \<and> i < unat p" for v :: u32 and i
    using bit_imp_le_length [of v i] by (auto simp: bit_and_iff bit_mask_iff possible_bit_def)
  then show ?thesis
    using assms(2)
    by (simp add: alt_irq_interruptible_def alt_irq_non_interruptible_def irq_bit_eq [OF assms(1)]
          Let_def and.commute del: push_bit_of_1)
qed

theorem irq_nesting_bracket_witness:
  "\<exists>old s'. alt_irq_interruptible 4 demo_irq = Some (old, s') \<and> bit (cpu_ienable s') 2 \<and> \<not> bit (cpu_ienable s') 5"
  using irq_nesting_bracket [of 4 demo_irq] by (auto simp: demo_irq_def)

end
