(* ===== verification/HAL_FD_Props.thy ===== *)
theory HAL_FD_Props
  imports HAL_FD
begin

text \<open>
  Lemmas on the file layer: the value of the descriptor pool, what every system call does to
  it, the invariant that all of them keep, and the contract between the file layer and the
  drivers (locale \<open>device_table\<close>), with its instance for the initial table of \<open>alt_dev.c\<close>.
\<close>

section \<open>The value of the pool\<close>

text \<open>
  What a slot of the pool says to the file layer: its device and its flags; of a free slot
  only the two bits of the HAL (\<open>fcntl\<close> may change the others on a closed descriptor).
\<close>

definition slot_of :: "alt_fd \<Rightarrow> u32 \<times> u32" where
  "slot_of r = (fd_dev r, if fd_dev r = 0 then fd_flags r AND ALT_FD_FLAGS_MASK else fd_flags r)"

definition slot :: "('h, 'x) hal_scheme \<Rightarrow> nat \<Rightarrow> u32 \<times> u32" where
  "slot s i = slot_of (alt_fd_list s i)"

lemma fst_slot_of [simp]: "fst (slot_of r) = fd_dev r"
  by (simp add: slot_of_def)

lemma slot_of_used: "fd_dev r \<noteq> 0 \<Longrightarrow> slot_of r = (fd_dev r, fd_flags r)"
  by (simp add: slot_of_def)

lemma slot_of_free: "fd_dev r = 0 \<Longrightarrow> slot_of r = (0, fd_flags r AND ALT_FD_FLAGS_MASK)"
  by (simp add: slot_of_def)

lemma slot_used: "fst (slot s i) \<noteq> 0 \<Longrightarrow> slot s i = (fd_dev (alt_fd_list s i), fd_flags (alt_fd_list s i))"
  by (simp add: slot_def slot_of_def split: if_splits)

text \<open>The lock bit and the device bit lie in the mask, the bits of \<open>fcntl\<close> do not.\<close>

lemma flag_in_mask:
  "f AND ALT_FD_FLAGS_MASK = 0 \<Longrightarrow> f AND ALT_FD_DEV = 0"
  "f AND ALT_FD_FLAGS_MASK = 0 \<Longrightarrow> f AND ALT_FD_EXCL = 0"
proof -
  have "f AND ALT_FD_DEV = (f AND ALT_FD_FLAGS_MASK) AND ALT_FD_DEV"
    "f AND ALT_FD_EXCL = (f AND ALT_FD_FLAGS_MASK) AND ALT_FD_EXCL"
    by (simp_all add: and.assoc)
  then show "f AND ALT_FD_FLAGS_MASK = 0 \<Longrightarrow> f AND ALT_FD_DEV = 0"
    "f AND ALT_FD_FLAGS_MASK = 0 \<Longrightarrow> f AND ALT_FD_EXCL = 0" by simp_all
qed

lemma fcntl_keeps_mask:
  "((f AND NOT ALT_FCNTL_FLAGS_MASK) OR (arg AND ALT_FCNTL_FLAGS_MASK)) AND ALT_FD_FLAGS_MASK
     = f AND ALT_FD_FLAGS_MASK"
  by (simp add: bit.conj_disj_distrib2 and.assoc)

lemma fst_slot: "fst (slot s i) = fd_dev (alt_fd_list s i)"
  by (simp add: slot_def slot_of_def)

definition keeps_pool :: "(int, ('h, 'x) hal_scheme) prog \<Rightarrow> bool" where
  "keeps_pool p \<longleftrightarrow> (\<forall>s. wlp (p s) (\<lambda>_ s'. slot s' = slot s \<and> alt_max_fd s' = alt_max_fd s))"

definition fd_inv :: "('h, 'x) hal_scheme \<Rightarrow> bool" where
  "fd_inv s \<longleftrightarrow>
     (\<forall>i < 3. fd_dev (alt_fd_list s i) \<noteq> 0) \<and>
     (\<forall>i \<ge> 3. fd_dev (alt_fd_list s i) \<noteq> 0 \<longrightarrow> int i \<le> alt_max_fd s) \<and>
     (\<forall>i. fd_dev (alt_fd_list s i) = 0 \<longrightarrow> fd_flags (alt_fd_list s i) AND ALT_FD_FLAGS_MASK = 0) \<and>
     - 1 \<le> alt_max_fd s \<and> alt_max_fd s < int ALT_MAX_FD"

text \<open>The invariant is a statement about the value of the pool.\<close>

lemma fd_inv_slot:
  "fd_inv s \<longleftrightarrow>
     (\<forall>i < 3. fst (slot s i) \<noteq> 0) \<and> (\<forall>i \<ge> 3. fst (slot s i) \<noteq> 0 \<longrightarrow> int i \<le> alt_max_fd s) \<and>
     (\<forall>i. fst (slot s i) = 0 \<longrightarrow> snd (slot s i) = 0) \<and> - 1 \<le> alt_max_fd s \<and> alt_max_fd s < 32"
  by (simp add: fd_inv_def slot_def slot_of_def)

lemma fd_inv_cong: "slot s' = slot s \<Longrightarrow> alt_max_fd s' = alt_max_fd s \<Longrightarrow> fd_inv s' = fd_inv s"
  by (simp add: fd_inv_slot)

lemma slot_upd [simp]:
  "slot (upd_fd i f s) = (slot s)(i := slot_of (f (alt_fd_list s i)))"
  by (auto simp: slot_def upd_fd_def fun_eq_iff)

lemma upd_fd_simps [simp]:
  "alt_max_fd (upd_fd i f s) = alt_max_fd s" "links (upd_fd i f s) = links s"
  "bytes (upd_fd i f s) = bytes s" "errno (upd_fd i f s) = errno s"
  "alt_fd_list (upd_fd i f s) = (alt_fd_list s)(i := f (alt_fd_list s i))"
  by (simp_all add: upd_fd_def)

lemma slot_ext [simp]:
  "slot (set_errno e s) = slot s" "slot (s\<lparr>alt_max_fd := m\<rparr>) = slot s"
  "slot (s\<lparr>st_mode := sm\<rparr>) = slot s" "slot (s\<lparr>links := h\<rparr>) = slot s"
  by (auto simp: slot_def set_errno_def fun_eq_iff)

lemma set_errno_simps [simp]:
  "alt_max_fd (set_errno e s) = alt_max_fd s" "links (set_errno e s) = links s"
  "bytes (set_errno e s) = bytes s" "errno (set_errno e s) = e"
  "alt_fd_list (set_errno e s) = alt_fd_list s"
  by (simp_all add: set_errno_def)

lemma fd_index_Some [simp]: "fd_index file = Some i \<longleftrightarrow> 0 \<le> file \<and> i < 32 \<and> file = int i"
  by (auto simp: fd_index_def)

lemma fd_index_int [simp]: "i < 32 \<Longrightarrow> fd_index (int i) = Some i"
  by simp

text \<open>The state apart from the pool and \<open>errno\<close>.\<close>

definition rest :: "('h, 'x) hal_scheme \<Rightarrow> 'h \<times> io_event list \<times> llist_heap \<times> (u32 \<Rightarrow> u8)" where
  "rest s = (hw s, trace s, links s, bytes s)"

lemma rest_simps [simp]:
  "rest (upd_fd i f s) = rest s" "rest (set_errno e s) = rest s" "rest (s\<lparr>alt_max_fd := m\<rparr>) = rest s"
  by (simp_all add: rest_def upd_fd_def set_errno_def)

lemma find_name_rest: "rest s = rest t \<Longrightarrow> find_name E f s = find_name E f t"
  by (simp add: rest_def find_name_def cong: if_cong)

section \<open>Allocation and release\<close>

text \<open>Allocation takes the lowest free slot.\<close>

lemma get_fd_loop_full:
  "(\<forall>k. i \<le> k \<and> k < 32 \<longrightarrow> fd_dev (alt_fd_list s k) \<noteq> 0) \<Longrightarrow> get_fd_loop dev i s = Some (- EMFILE, s)"
  by (induction dev i s rule: get_fd_loop.induct) (subst get_fd_loop.simps, auto)

lemma get_fd_loop_free:
  assumes "i \<le> k" "k < 32" "fd_dev (alt_fd_list s k) = 0"
    and "\<forall>j. i \<le> j \<and> j < k \<longrightarrow> fd_dev (alt_fd_list s j) \<noteq> 0"
  shows "get_fd_loop dev i s =
    (let t = upd_fd k (fd_dev_update (\<lambda>_. dev)) s
     in Some (int k, if int k > alt_max_fd s then t\<lparr>alt_max_fd := int k\<rparr> else t))"
  using assms
proof (induction dev i s rule: get_fd_loop.induct)
  case (1 dev i s)
  show ?case
  proof (cases "i = k")
    case True
    then show ?thesis using 1 by (subst get_fd_loop.simps) (simp add: Let_def)
  next
    case False
    then have "fd_dev (alt_fd_list s i) \<noteq> 0" "i < 32" "i + 1 \<le> k" using 1 by auto
    with 1 show ?thesis by (subst get_fd_loop.simps) auto
  qed
qed

definition free_fd :: "('h, 'x) hal_scheme \<Rightarrow> nat \<Rightarrow> bool" where
  "free_fd s k \<longleftrightarrow> k < 32 \<and> fst (slot s k) = 0 \<and> (\<forall>j < k. fst (slot s j) \<noteq> 0)"

definition pool_full :: "('h, 'x) hal_scheme \<Rightarrow> bool" where
  "pool_full s \<longleftrightarrow> (\<forall>k < 32. fst (slot s k) \<noteq> 0)"

lemma free_or_full: "pool_full s \<or> (\<exists>k. free_fd s k)"
  unfolding pool_full_def free_fd_def
  by (metis (no_types, lifting) less_trans nat_neq_iff exists_least_iff [of "\<lambda>k. k < 32 \<and> fst (slot s k) = 0"])

lemma free_fd_inv: "fd_inv s \<Longrightarrow> free_fd s k \<Longrightarrow> 3 \<le> k \<and> k < 32 \<and> slot s k = (0, 0)"
  by (auto simp: fd_inv_slot free_fd_def prod_eq_iff not_le [symmetric])

lemma alt_get_fd_full: "pool_full s \<Longrightarrow> alt_get_fd dev s = Some (- EMFILE, s)"
  unfolding alt_get_fd_def by (rule get_fd_loop_full) (auto simp: pool_full_def fst_slot)

lemma alt_get_fd_free:
  "free_fd s k \<Longrightarrow> alt_get_fd dev s =
    (let t = upd_fd k (fd_dev_update (\<lambda>_. dev)) s
     in Some (int k, if int k > alt_max_fd s then t\<lparr>alt_max_fd := int k\<rparr> else t))"
  unfolding alt_get_fd_def by (rule get_fd_loop_free) (auto simp: free_fd_def fst_slot)

lemma alt_release_slot:
  "3 \<le> k \<Longrightarrow> k < 32 \<Longrightarrow>
   alt_release_fd (int k) s = Some ((), upd_fd k (\<lambda>r. r\<lparr>fd_flags := 0, fd_dev := 0\<rparr>) s)"
  by (simp add: alt_release_fd_def)

text \<open>Releasing what was just allocated gives the pool back.\<close>

lemma release_fresh:
  "slot s k = (0, 0) \<Longrightarrow> slot t = (slot s)(k := x) \<Longrightarrow>
   slot (upd_fd k (\<lambda>r. r\<lparr>fd_flags := 0, fd_dev := 0\<rparr>) t) = slot s"
  by (simp add: fun_upd_idem slot_of_def)

section \<open>The contract of the drivers\<close>

text \<open>No driver operation touches the descriptor pool, apart from the private pointer.\<close>

definition driver_ok :: "('h, 'x) hal_scheme alt_dev \<Rightarrow> bool" where
  "driver_ok dv \<longleftrightarrow>
     (\<forall>f. dv_open dv = Some f \<longrightarrow> (\<forall>i p fl md. keeps_pool (f i p fl md))) \<and>
     (\<forall>f. dv_close dv = Some f \<longrightarrow> (\<forall>i. keeps_pool (f i))) \<and>
     (\<forall>f. dv_read dv = Some f \<longrightarrow> (\<forall>i p n. keeps_pool (f i p n))) \<and>
     (\<forall>f. dv_write dv = Some f \<longrightarrow> (\<forall>i p n. keeps_pool (f i p n))) \<and>
     (\<forall>f. dv_lseek dv = Some f \<longrightarrow> (\<forall>i p n. keeps_pool (f i p n))) \<and>
     (\<forall>f. dv_fstat dv = Some f \<longrightarrow> (\<forall>i p. keeps_pool (f i p))) \<and>
     (\<forall>f. dv_ioctl dv = Some f \<longrightarrow> (\<forall>i r a. keeps_pool (f i r a)))"

locale device_table =
  fixes E :: "('h, 'x) hal_scheme hal_env"
  assumes drivers: "driver_ok (devs E d)"
begin

lemma op_keeps:
  "dv_open (devs E d) = Some f \<Longrightarrow> keeps_pool (f i p fl md)"
  "dv_close (devs E d) = Some f1 \<Longrightarrow> keeps_pool (f1 i)"
  "dv_read (devs E d) = Some f2 \<Longrightarrow> keeps_pool (f2 i p n)"
  "dv_write (devs E d) = Some f2 \<Longrightarrow> keeps_pool (f2 i p n)"
  "dv_lseek (devs E d) = Some f3 \<Longrightarrow> keeps_pool (f3 i o1 o2)"
  "dv_fstat (devs E d) = Some f4 \<Longrightarrow> keeps_pool (f4 i p)"
  "dv_ioctl (devs E d) = Some f2 \<Longrightarrow> keeps_pool (f2 i p n)"
  using drivers [of d] by (simp_all add: driver_ok_def)

lemma op_wlp:
  "keeps_pool p \<Longrightarrow> (\<And>r s'. slot s' = slot s \<Longrightarrow> alt_max_fd s' = alt_max_fd s \<Longrightarrow> Q r s')
    \<Longrightarrow> wlp (p s) Q"
  unfolding keeps_pool_def by (rule wlp_mono) blast+

text \<open>The calls that only vector to the driver keep the pool.\<close>

lemma vectored_calls:
  "keeps_pool (ALT_READ E file ptr len)" "keeps_pool (ALT_WRITE E file ptr len)"
  "keeps_pool (ALT_LSEEK E file off dir)" "keeps_pool (ALT_FSTAT E file st)"
  "keeps_pool (ALT_ISATTY E st file)"
proof -
  have er: "wlp (errno_result (r, t)) (\<lambda>_ s'. slot s' = slot s \<and> alt_max_fd s' = alt_max_fd s)"
    if "slot t = slot s" "alt_max_fd t = alt_max_fd s" for r and t s :: "('h, 'x) hal_scheme"
    using that by (simp add: errno_result_def)
  show "keeps_pool (ALT_READ E file ptr len)"
    by (auto simp: ALT_READ_def keeps_pool_def dev_at_def fd_index_def
          split: option.splits intro!: op_wlp [OF op_keeps(3)] er)
  show "keeps_pool (ALT_WRITE E file ptr len)"
    by (auto simp: ALT_WRITE_def keeps_pool_def dev_at_def fd_index_def
          split: option.splits intro!: op_wlp [OF op_keeps(4)] er)
  show "keeps_pool (ALT_LSEEK E file off dir)"
    by (auto simp: ALT_LSEEK_def keeps_pool_def dev_at_def fd_index_def
          split: option.splits intro!: op_wlp [OF op_keeps(5)] er)
  show fs: "keeps_pool (ALT_FSTAT E f st)" for f st
    by (auto simp: ALT_FSTAT_def keeps_pool_def dev_at_def fd_index_def
          split: option.splits intro!: op_wlp [OF op_keeps(6)])
  show "keeps_pool (ALT_ISATTY E st file)"
    by (auto simp: ALT_ISATTY_def keeps_pool_def dev_at_def fd_index_def intro!: op_wlp [OF fs])
qed

text \<open>\<open>ioctl\<close> changes at most the lock bit of its own descriptor.\<close>

lemma ioctl_wlp:
  "fd_inv s \<Longrightarrow> wlp (ALT_IOCTL E file req arg s) (\<lambda>rc s'. alt_max_fd s' = alt_max_fd s \<and>
     (slot s' = slot s \<or>
      (\<exists>i < 32. file = int i \<and> fst (slot s i) \<noteq> 0 \<and> snd (slot s i) AND ALT_FD_DEV \<noteq> 0 \<and> rc = 0 \<and>
        (req = TIOCEXCL \<and> slot s' = (slot s)(i := (fst (slot s i), snd (slot s i) OR ALT_FD_EXCL)) \<or>
         req = TIOCNXCL \<and> slot s' = (slot s)(i := (fst (slot s i), snd (slot s i) AND NOT ALT_FD_EXCL))))))"
proof (cases "file < 0 \<or> \<not> file < 32")
  case True
  then show ?thesis by (auto simp: ALT_IOCTL_def fd_index_def)
next
  case False
  define i where "i = nat file"
  have f: "file = int i" "i < 32" using False by (auto simp: i_def)
  assume inv: "fd_inv s"
  show ?thesis
  proof (cases "fd_flags (alt_fd_list s i) AND ALT_FD_DEV = 0")
    case True
    then show ?thesis
      unfolding f(1)
      by (auto simp: ALT_IOCTL_def f(2) dev_at_def split: option.splits intro!: op_wlp [OF op_keeps(7)])
  next
    case dev: False
    then have "fd_dev (alt_fd_list s i) \<noteq> 0" using inv flag_in_mask(1) unfolding fd_inv_def by blast
    then show ?thesis
      unfolding f(1) using dev
      by (auto simp: ALT_IOCTL_def f(2) alt_fd_lock_def alt_fd_unlock_def dev_at_def
            slot_def [of s i] slot_of_used split: option.splits intro!: op_wlp [OF op_keeps(7)])
  qed
qed

end

lemma fcntl_wlp:
  "wlp (ALT_FCNTL file cmd arg s) (\<lambda>rc s'. alt_max_fd s' = alt_max_fd s \<and>
     (slot s' = slot s \<or>
      (\<exists>i < 32. file = int i \<and> fst (slot s i) \<noteq> 0 \<and> slot s' = (slot s)(i := (fst (slot s i),
         (snd (slot s i) AND NOT ALT_FCNTL_FLAGS_MASK) OR (arg AND ALT_FCNTL_FLAGS_MASK))))))"
proof (cases "0 \<le> file \<and> file < 32 \<and> cmd = F_SETFL")
  case False
  then show ?thesis by (auto simp: ALT_FCNTL_def fd_index_def)
next
  case True
  define i where "i = nat file"
  have f: "file = int i" "i < 32" using True by (auto simp: i_def)
  show ?thesis
  proof (cases "fd_dev (alt_fd_list s i) = 0")
    case True
    then have "slot_of (fd_flags_update (\<lambda>f. (f AND NOT ALT_FCNTL_FLAGS_MASK) OR
        (arg AND ALT_FCNTL_FLAGS_MASK)) (alt_fd_list s i)) = slot s i"
      unfolding slot_def by (subst (1 2) slot_of_free) (simp_all add: fcntl_keeps_mask [simplified])
    then show ?thesis
      unfolding f(1) by (simp add: ALT_FCNTL_def f(2) fun_upd_idem)
  next
    case False
    then show ?thesis
      unfolding f(1) by (auto simp: ALT_FCNTL_def f(2) slot_def [of s i] slot_of_used)
  qed
qed

section \<open>Open and close\<close>

definition locked_dev :: "('h, 'x) hal_scheme \<Rightarrow> u32 \<Rightarrow> nat \<Rightarrow> bool" where
  "locked_dev s d k \<longleftrightarrow>
     (\<exists>i < 32. i \<noteq> k \<and> fst (slot s i) = d \<and> snd (slot s i) AND ALT_FD_EXCL \<noteq> 0)"

definition open_flags :: "u32 \<Rightarrow> bool \<Rightarrow> u32" where
  "open_flags flags isafs = (flags AND NOT ALT_FD_FLAGS_MASK) OR (if isafs then 0 else ALT_FD_DEV)"

text \<open>Every slot in use lies below the high water mark (the standard ones too, after an open).\<close>

definition covered :: "('h, 'x) hal_scheme \<Rightarrow> bool" where
  "covered s \<longleftrightarrow> 0 \<le> alt_max_fd s \<and> alt_max_fd s < 32 \<and> (\<forall>i. fst (slot s i) \<noteq> 0 \<longrightarrow> int i \<le> alt_max_fd s)"

lemma file_locked_eq:
  assumes c: "covered s" and d: "fst (slot s k) \<noteq> 0"
  shows "alt_file_locked k s =
    Some (if locked_dev s (fst (slot s k)) k then - EACCES else 0,
          upd_fd k (fd_flags_update (\<lambda>f. f OR ALT_FD_DEV)) s)"
proof -
  let ?l = "alt_fd_list (upd_fd k (fd_flags_update (\<lambda>f. f OR ALT_FD_DEV)) s)"
  have r: "i \<in> set [0 ..< Suc (nat (alt_max_fd s))] \<longleftrightarrow> int i \<le> alt_max_fd s" for i
    using c by (auto simp: covered_def less_Suc_eq_le le_nat_iff)
  have e: "(fd_dev (?l i) = fd_dev (?l k) \<and> fd_flags (?l i) AND ALT_FD_EXCL \<noteq> 0 \<and> i \<noteq> k)
      \<longleftrightarrow> (i \<noteq> k \<and> fst (slot s i) = fst (slot s k) \<and> snd (slot s i) AND ALT_FD_EXCL \<noteq> 0)" for i
    using d by (auto simp: slot_def slot_of_def)
  have rng: "int i \<le> alt_max_fd s \<and> fst (slot s i) = fst (slot s k) \<longleftrightarrow>
      i < 32 \<and> fst (slot s i) = fst (slot s k)" for i
    using c d unfolding covered_def by (metis int_ops(3) le_less_trans of_nat_less_iff of_nat_numeral)
  have "list_ex (\<lambda>i. fd_dev (?l i) = fd_dev (?l k) \<and> fd_flags (?l i) AND ALT_FD_EXCL \<noteq> 0 \<and> i \<noteq> k)
          [0 ..< Suc (nat (alt_max_fd s))] = locked_dev s (fst (slot s k)) k"
    unfolding list_ex_iff e Bex_def r locked_dev_def using rng by blast
  then show ?thesis
    using c by (simp add: alt_file_locked_def Let_def covered_def del: upd_fd_simps(5))
qed

context device_table
begin

lemma open_fd_wlp:
  assumes c: "covered s" and d: "fst (slot s k) \<noteq> 0"
  shows "wlp (open_fd E dev isafs k fname flags mode s) (\<lambda>st s'.
      alt_max_fd s' = alt_max_fd s \<and>
      slot s' = (slot s)(k := (fst (slot s k), open_flags flags isafs)) \<and>
      (\<not> isafs \<and> locked_dev s (fst (slot s k)) k \<longrightarrow> st = - EACCES))"
proof -
  let ?t = "upd_fd k (fd_flags_update (\<lambda>_. flags AND NOT ALT_FD_FLAGS_MASK)) s"
  have l: "locked_dev ?t a k = locked_dev s a k" for a
    by (auto simp: locked_dev_def)
  have ts: "fst (slot ?t k) = fst (slot s k)" by (simp add: fst_slot)
  then have ct: "covered ?t" "fst (slot ?t k) \<noteq> 0" using c d by (auto simp: covered_def fst_slot)
  have u: "fd_dev (alt_fd_list s k) \<noteq> 0" using d by (simp add: fst_slot)
  show ?thesis
  proof (cases isafs)
    case True
    then show ?thesis
      using u
      by (auto simp: open_fd_def open_flags_def Let_def fst_slot slot_of_used split: option.splits
            intro!: op_wlp [OF op_keeps(1)])
  next
    case False
    show ?thesis
      unfolding open_fd_def Let_def file_locked_eq [OF ct] ts l
      using False u
      by (auto simp: open_flags_def fst_slot slot_of_used split: option.splits
            intro!: op_wlp [OF op_keeps(1)])
  qed
qed

end

text \<open>The state in which \<open>open\<close> goes on after it got slot \<open>k\<close> for device \<open>d\<close>.\<close>

lemma alloc_state:
  assumes inv: "fd_inv s" and k: "free_fd s k" and d: "d \<noteq> 0"
  obtains t where "alt_get_fd d s = Some (int k, t)" "alt_max_fd t = max (alt_max_fd s) (int k)"
    "slot t = (slot s)(k := (d, fd_flags (alt_fd_list s k)))" "covered t" "locked_dev t d k = locked_dev s d k"
    "rest t = rest s"
proof -
  note kk = free_fd_inv [OF inv k]
  define t where "t = (let t = upd_fd k (fd_dev_update (\<lambda>_. d)) s
                        in if int k > alt_max_fd s then t\<lparr>alt_max_fd := int k\<rparr> else t)"
  have g: "alt_get_fd d s = Some (int k, t)"
    unfolding alt_get_fd_free [OF k] t_def by (simp add: Let_def)
  have m: "alt_max_fd t = max (alt_max_fd s) (int k)" by (auto simp: t_def Let_def)
  have sl: "slot t = (slot s)(k := (d, fd_flags (alt_fd_list s k)))"
    using d by (simp add: t_def Let_def slot_of_used)
  have "int i \<le> max (alt_max_fd s) (int k)" if "fst (slot s i) \<noteq> 0" for i
    using that inv kk by (cases "i < 3") (auto simp: fd_inv_slot le_max_iff_disj)
  then have c: "covered t" using inv kk by (auto simp: covered_def sl m fd_inv_slot)
  have "locked_dev t d k = locked_dev s d k" by (auto simp: locked_dev_def sl)
  moreover have "rest t = rest s" by (simp add: t_def Let_def)
  ultimately show ?thesis using g m sl c that by blast
qed

context device_table
begin

text \<open>
  What \<open>open\<close> does to the pool: it fails, and leaves the pool as it was, or it puts the device
  it found into the lowest free slot, with the caller's flags, and only when no descriptor
  has locked that device.
\<close>

lemma open_wlp:
  assumes inv: "fd_inv s"
  shows "wlp (ALT_OPEN E fname flags mode s) (\<lambda>r s'.
     (r = - 1 \<and> slot s' = slot s \<and> 0 < errno s' \<and> alt_max_fd s \<le> alt_max_fd s' \<and> alt_max_fd s' < 32) \<or>
     (\<exists>k d fs. r = int k \<and> free_fd s k \<and> find_name E fname s = Some (d, fs) \<and> d \<noteq> 0 \<and>
        slot s' = (slot s)(k := (d, open_flags flags fs)) \<and>
        alt_max_fd s' = max (alt_max_fd s) (int k) \<and>
        (fs \<or> \<not> locked_dev s d k)))"
proof (cases "find_name E fname s")
  case None
  then show ?thesis by (simp add: ALT_OPEN_def)
next
  case (Some df)
  obtain d fs where df: "find_name E fname s = Some (d, fs)" using Some by (cases df) auto
  consider (no) "d = 0" | (full) "d \<noteq> 0" "pool_full s" | (ok) k where "d \<noteq> 0" "free_fd s k"
    using free_or_full by blast
  then show ?thesis
  proof cases
    case no
    then show ?thesis using inv by (simp add: ALT_OPEN_def df alt_release_fd_def fd_inv_def)
  next
    case full
    then show ?thesis
      using inv by (simp add: ALT_OPEN_def df alt_get_fd_full alt_release_fd_def fd_inv_def)
  next
    case ok
    note k = free_fd_inv [OF inv ok(2)]
    obtain t where t: "alt_get_fd d s = Some (int k, t)" "alt_max_fd t = max (alt_max_fd s) (int k)"
      "slot t = (slot s)(k := (d, fd_flags (alt_fd_list s k)))" "covered t"
      "locked_dev t d k = locked_dev s d k"
      by (rule alloc_state [OF inv ok(2,1)])
    have "fst (slot t k) \<noteq> 0" "fst (slot t k) = d" using t(3) ok(1) by auto
    note o = open_fd_wlp [OF t(4) this(1), unfolded this(2) t(5), of d fs fname flags mode]
    have mx: "max (alt_max_fd s) (int k) < 32" using inv k by (simp add: fd_inv_def)
    have sk: "slot s k = (0, 0)" using k by simp
    show ?thesis
      unfolding ALT_OPEN_def df
      by (simp add: ok(1) t(1), rule wlp_mono [OF o])
         (use ok k sk mx t(2) in \<open>auto simp: alt_release_slot t(3) slot_of_free fun_upd_idem split: if_splits\<close>)
  qed
qed

end

text \<open>Two runs of \<open>open\<close> on a device in full: refused because it is locked, and granted by a
  device without an \<open>open\<close> function.\<close>

lemma open_locked:
  assumes inv: "fd_inv s" and f: "find_name E fname s = Some (d, False)" "d \<noteq> 0"
    and l: "locked_dev s d 32"
  shows "\<exists>s'. ALT_OPEN E fname flags mode s = Some (- 1, s') \<and> slot s' = slot s
      \<and> errno s' = (if pool_full s then EMFILE else EACCES) \<and> rest s' = rest s"
proof (cases "pool_full s")
  case True
  then show ?thesis by (simp add: ALT_OPEN_def f alt_get_fd_full alt_release_fd_def)
next
  case False
  then obtain k where fk: "free_fd s k" using free_or_full by blast
  note k = free_fd_inv [OF inv fk]
  obtain t where t: "alt_get_fd d s = Some (int k, t)" "alt_max_fd t = max (alt_max_fd s) (int k)"
    "slot t = (slot s)(k := (d, fd_flags (alt_fd_list s k)))" "covered t"
    "locked_dev t d k = locked_dev s d k" "rest t = rest s"
    by (rule alloc_state [OF inv fk f(2)])
  let ?t = "upd_fd k (fd_flags_update (\<lambda>_. flags AND NOT ALT_FD_FLAGS_MASK)) t"
  have st: "fst (slot ?t k) = d" "fst (slot t k) = d" using t(3) by (simp_all add: fst_slot [symmetric])
  have ct: "covered ?t" using t(4) by (auto simp: covered_def fst_slot)
  have "locked_dev s d k" using l k f(2) by (auto simp: locked_dev_def)
  then have lt: "locked_dev ?t d k" using t(5) by (auto simp: locked_dev_def)
  have "alt_file_locked k ?t = Some (- EACCES, upd_fd k (fd_flags_update (\<lambda>f. f OR ALT_FD_DEV)) ?t)"
    using file_locked_eq [OF ct, of k] st(1) f(2) lt by simp
  then show ?thesis
    using k False
    by (simp add: ALT_OPEN_def f t(1,3,6) open_fd_def Let_def alt_release_slot slot_of_free fun_upd_idem)
qed

lemma open_plain:
  assumes inv: "fd_inv s" and f: "find_name E fname s = Some (d, False)" "d \<noteq> 0"
    and l: "\<not> locked_dev s d 32" and k: "free_fd s k" and o: "dv_open (devs E d) = None"
  shows "\<exists>s'. ALT_OPEN E fname flags mode s = Some (int k, s') \<and>
      slot s' = (slot s)(k := (d, open_flags flags False)) \<and>
      alt_max_fd s' = max (alt_max_fd s) (int k) \<and> rest s' = rest s"
proof -
  obtain t where t: "alt_get_fd d s = Some (int k, t)" "alt_max_fd t = max (alt_max_fd s) (int k)"
    "slot t = (slot s)(k := (d, fd_flags (alt_fd_list s k)))" "covered t"
    "locked_dev t d k = locked_dev s d k" "rest t = rest s"
    by (rule alloc_state [OF inv k f(2)])
  let ?t = "upd_fd k (fd_flags_update (\<lambda>_. flags AND NOT ALT_FD_FLAGS_MASK)) t"
  have st: "fst (slot ?t k) = d" "fd_dev (alt_fd_list t k) = d"
    using t(3) by (simp_all add: fst_slot [symmetric])
  have ct: "covered ?t" using t(4) by (auto simp: covered_def fst_slot)
  have "\<not> locked_dev s d k" using l by (auto simp: locked_dev_def)
  then have lt: "\<not> locked_dev ?t d k" using t(5) by (auto simp: locked_dev_def)
  have "alt_file_locked k ?t = Some (0, upd_fd k (fd_flags_update (\<lambda>f. f OR ALT_FD_DEV)) ?t)"
    using file_locked_eq [OF ct, of k] st(1) f(2) lt by simp
  then show ?thesis
    using st(2) f(2)
    by (simp add: ALT_OPEN_def f t(1,2,3,6) open_fd_def Let_def o slot_of_used open_flags_def)
qed

section \<open>Closing, and the reachable states\<close>

context device_table
begin

lemma close_wlp:
  assumes inv: "fd_inv s"
  shows "wlp (ALT_CLOSE E file s) (\<lambda>r s'. alt_max_fd s' = alt_max_fd s \<and>
     (file < 0 \<and> slot s' = slot s \<or>
      (\<exists>i < 32. file = int i \<and> fst (slot s i) \<noteq> 0 \<and>
         slot s' = (if i < 3 then slot s else (slot s)(i := (0, 0))))))"
proof (cases "file < 0 \<or> \<not> file < 32")
  case True
  then show ?thesis by (auto simp: ALT_CLOSE_def fd_index_def)
next
  case False
  define i where "i = nat file"
  have f: "file = int i" "i < 32" using False by (auto simp: i_def)
  have rel: "alt_release_fd (int i) t =
      Some ((), if i < 3 then t else upd_fd i (\<lambda>r. r\<lparr>fd_flags := 0, fd_dev := 0\<rparr>) t)"
    for t :: "('h, 'x) hal_scheme"
    using f(2) by (auto simp: alt_release_fd_def)
  show ?thesis
    unfolding f(1)
    by (auto simp: ALT_CLOSE_def f(2) dev_at_def fst_slot rel slot_of_free split: option.splits
          intro!: op_wlp [OF op_keeps(2)])
qed

end

text \<open>One system call of the application, with any arguments, that C gives a meaning to.\<close>

inductive fd_step :: "('h, 'x) hal_scheme hal_env \<Rightarrow> ('h, 'x) hal_scheme \<Rightarrow> ('h, 'x) hal_scheme \<Rightarrow> bool"
  for E :: "('h, 'x) hal_scheme hal_env" where
  step_open: "ALT_OPEN E fname flags mode s = Some (r, s') \<Longrightarrow> fd_step E s s'"
| step_close: "ALT_CLOSE E file s = Some (r, s') \<Longrightarrow> fd_step E s s'"
| step_read: "ALT_READ E file ptr len s = Some (r, s') \<Longrightarrow> fd_step E s s'"
| step_write: "ALT_WRITE E file ptr len s = Some (r, s') \<Longrightarrow> fd_step E s s'"
| step_lseek: "ALT_LSEEK E file off dir s = Some (r, s') \<Longrightarrow> fd_step E s s'"
| step_fstat: "ALT_FSTAT E file st s = Some (r, s') \<Longrightarrow> fd_step E s s'"
| step_isatty: "ALT_ISATTY E st file s = Some (r, s') \<Longrightarrow> fd_step E s s'"
| step_ioctl: "ALT_IOCTL E file req arg s = Some (r, s') \<Longrightarrow> fd_step E s s'"
| step_fcntl: "ALT_FCNTL file cmd arg s = Some (r, s') \<Longrightarrow> fd_step E s s'"

text \<open>The ways in which a call may change the pool.\<close>

inductive pool_step :: "('h, 'x) hal_scheme \<Rightarrow> ('h, 'x) hal_scheme \<Rightarrow> bool" where
  pool_same: "slot s' = slot s \<Longrightarrow> alt_max_fd s \<le> alt_max_fd s' \<Longrightarrow> alt_max_fd s' < 32 \<Longrightarrow> pool_step s s'"
| pool_take: "free_fd s k \<Longrightarrow> d \<noteq> 0 \<Longrightarrow> slot s' = (slot s)(k := (d, f)) \<Longrightarrow> f AND ALT_FD_EXCL = 0 \<Longrightarrow>
     alt_max_fd s' = max (alt_max_fd s) (int k) \<Longrightarrow>
     f AND ALT_FD_DEV \<noteq> 0 \<Longrightarrow> \<not> locked_dev s d k \<Longrightarrow> pool_step s s'"
| pool_take_file: "free_fd s k \<Longrightarrow> d \<noteq> 0 \<Longrightarrow> slot s' = (slot s)(k := (d, f)) \<Longrightarrow>
     f AND ALT_FD_FLAGS_MASK = 0 \<Longrightarrow> alt_max_fd s' = max (alt_max_fd s) (int k) \<Longrightarrow> pool_step s s'"
| pool_drop: "3 \<le> i \<Longrightarrow> slot s' = (slot s)(i := (0, 0)) \<Longrightarrow> alt_max_fd s' = alt_max_fd s \<Longrightarrow> pool_step s s'"
| pool_flags: "fst (slot s i) \<noteq> 0 \<Longrightarrow> slot s' = (slot s)(i := (fst (slot s i), f)) \<Longrightarrow>
     alt_max_fd s' = alt_max_fd s \<Longrightarrow> pool_step s s'"

inductive_cases pool_stepE: "pool_step s s'"

lemma pool_step_inv:
  assumes "pool_step s s'" "fd_inv s"
  shows "fd_inv s'"
  using assms
proof cases
  case pool_same
  then show ?thesis using assms(2) by (force simp: fd_inv_slot)
next
  case (pool_take k d f)
  have "3 \<le> k \<and> k < 32 \<and> slot s k = (0, 0)" using free_fd_inv assms(2) pool_take(1) by blast
  then show ?thesis using assms(2) pool_take by (auto simp: fd_inv_slot)
next
  case (pool_take_file k d f)
  have "3 \<le> k \<and> k < 32 \<and> slot s k = (0, 0)" using free_fd_inv assms(2) pool_take_file(1) by blast
  then show ?thesis using assms(2) pool_take_file by (auto simp: fd_inv_slot)
qed (use assms(2) in \<open>auto simp: fd_inv_slot\<close>)

lemma open_flags_bits:
  "open_flags flags fs AND ALT_FD_EXCL = 0"
  "open_flags flags False AND ALT_FD_DEV \<noteq> 0"
  "open_flags flags True AND ALT_FD_FLAGS_MASK = 0"
proof -
  have b: "bit (0x40000000 :: u32) 30" "bit (0xC0000000 :: u32) 30" "bit (0xC0000000 :: u32) 31"
    "\<not> bit (0x40000000 :: u32) 31"
    by (simp_all add: bit_iff_odd)
  have x: "(flags AND NOT ALT_FD_FLAGS_MASK) AND ALT_FD_FLAGS_MASK = 0"
    by (simp only: and.assoc bit.conj_cancel_left) simp
  then show f: "open_flags flags True AND ALT_FD_FLAGS_MASK = 0"
    unfolding open_flags_def by simp
  show "open_flags flags fs AND ALT_FD_EXCL = 0"
    using flag_in_mask(2) [OF x] by (cases fs) (simp_all add: open_flags_def bit.conj_disj_distrib2)
  show "open_flags flags False AND ALT_FD_DEV \<noteq> 0"
    using flag_in_mask(1) [OF x] by (simp add: open_flags_def bit.conj_disj_distrib2)
qed

context device_table
begin

lemma fd_step_pool:
  assumes "fd_step E s s'" "fd_inv s"
  shows "pool_step s s'"
proof -
  have mx: "alt_max_fd s < 32" using assms(2) by (simp add: fd_inv_def)
  have keeps: "pool_step s s'" if "keeps_pool p" "p s = Some (r, s')" for p r
    using that mx unfolding keeps_pool_def by (auto intro!: pool_same dest!: spec [of _ s])
  note v = vectored_calls
  from assms(1) show ?thesis
  proof cases
    case (step_open fname flags mode r)
    from wlpD [OF step_open open_wlp [OF assms(2)]]
    consider "slot s' = slot s" "alt_max_fd s \<le> alt_max_fd s'" "alt_max_fd s' < 32"
      | k d fs where "free_fd s k" "d \<noteq> 0" "slot s' = (slot s)(k := (d, open_flags flags fs))"
          "alt_max_fd s' = max (alt_max_fd s) (int k)" "fs \<or> \<not> locked_dev s d k"
      by blast
    then show ?thesis
    proof cases
      case 1
      then show ?thesis by (rule pool_same)
    next
      case (2 k d fs)
      show ?thesis
      proof (cases fs)
        case True
        with 2 show ?thesis using open_flags_bits(3) by (intro pool_take_file [of s k d]) auto
      next
        case False
        with 2 show ?thesis
          using open_flags_bits(1,2) by (intro pool_take [of s k d]) auto
      qed
    qed
  next
    case (step_close f r)
    from wlpD [OF this close_wlp [OF assms(2)]] show ?thesis
      using mx by (auto split: if_splits intro: pool_same pool_drop [OF leI [of _ 3]])
  next
    case (step_ioctl f req arg r)
    from wlpD [OF this ioctl_wlp [OF assms(2)]] show ?thesis
      using mx by (auto intro: pool_step.intros)
  next
    case (step_fcntl f cmd arg r)
    from wlpD [OF this fcntl_wlp] show ?thesis
      using mx by (auto intro: pool_step.intros)
  qed (erule keeps [OF v(1)] keeps [OF v(2)] keeps [OF v(3)] keeps [OF v(4)] keeps [OF v(5)])+
qed

lemma fd_reachable_inv: "(fd_step E)\<^sup>*\<^sup>* s s' \<Longrightarrow> fd_inv s \<Longrightarrow> fd_inv s'"
  by (induction rule: rtranclp_induct) (auto dest: fd_step_pool pool_step_inv)

end

section \<open>The initial table\<close>

text \<open>The table before \<open>alt_sys_init\<close>: every structure is the null device.\<close>

definition null_env :: "u32 \<Rightarrow> u32 \<Rightarrow> u32 \<Rightarrow> 's hal_env" where
  "null_env dl fl name = \<lparr>alt_dev_list = dl, alt_fs_list = fl, devs = (\<lambda>_. alt_dev_null name)\<rparr>"

lemma null_driver_ok: "driver_ok (alt_dev_null name)"
  by (simp add: driver_ok_def alt_dev_null_def keeps_pool_def alt_dev_null_write_def)

interpretation nulls: device_table "null_env dl fl name"
  by unfold_locales (simp add: null_env_def null_driver_ok)

end
