(* ===== verification/I2C_Init.thy ===== *)
theory I2C_Init
  imports I2C_Claims HAL_Irq_Claims HAL_FD_Props
begin

text \<open>
  The two functions of the I2C driver that need the rest of the HAL: \<open>alt_avalon_i2c_init\<close>,
  which \<open>alt_sys_init\<close> calls for every instance, and \<open>alt_avalon_i2c_open\<close>.  \<open>p\<close> is the address
  of the device structure, \<open>lst\<close> that of \<open>alt_avalon_i2c_list\<close>, \<open>isr\<close> that of
  \<open>alt_avalon_i2c_irq\<close>; \<open>u\<close> is the uninitialised local configuration.  The creation of the
  semaphore is \<open>alt_no_error ()\<close> in this single-threaded build, so it never fails.
\<close>

definition alt_avalon_i2c_init :: "('h, 'x) i2c_st_scheme hal_env \<Rightarrow> 'h bus \<Rightarrow> u32 \<Rightarrow> u32 \<Rightarrow> u32 \<Rightarrow> i2c_master_config
    \<Rightarrow> (unit, ('h, 'x) i2c_st_scheme) prog" where
  "alt_avalon_i2c_init E B p lst isr u s = do {
     (_, s) \<leftarrow> alt_avalon_i2c_disable B s;
     (_, s) \<leftarrow> alt_avalon_i2c_int_disable B ISR_ALLINTS_MSK s;
     (_, s) \<leftarrow> alt_avalon_i2c_int_clear B ISR_ALL_CLEARABLE_INTS_MSK s;
     (_, s) \<leftarrow> alt_avalon_i2c_tfr_cmd_fifo_threshold_set B 3 s;
     (_, s) \<leftarrow> alt_avalon_i2c_rx_fifo_threshold_set B 3 s;
     let cfg = u\<lparr>speed_mode := SPEED_STANDARD\<rparr>;
     let cfg = cfg\<lparr>addr_mode := ADDR_MODE_7_BIT\<rparr>;
     let (_, cfg) = alt_avalon_i2c_master_config_speed_set (dev s) cfg SS_MAX_HZ;
     (_, s) \<leftarrow> alt_avalon_i2c_master_config_set B cfg s;
     (_, s) \<leftarrow> alt_dev_llist_insert E p lst s;
     (_, s) \<leftarrow> alt_ic_isr_register (irq_controller_ID (dev s)) (irq_ID (dev s)) isr p s;
     Some ((), s)
   }"

definition alt_avalon_i2c_open :: "('h, 'x) i2c_st_scheme hal_env \<Rightarrow> u32 \<Rightarrow> u32 \<Rightarrow> ('h, 'x) i2c_st_scheme \<Rightarrow> u32 option" where
  "alt_avalon_i2c_open E lst name s = alt_find_dev (bytes s) (\<lambda>d. dv_name (devs E d)) name lst (links s)"

section \<open>Initialise, then open\<close>

lemma i2c_speed_100k:
  "ip_freq_in_hz d = 50000000 \<Longrightarrow> alt_avalon_i2c_master_config_speed_set d cfg SS_MAX_HZ =
     (I2C_SUCCESS, cfg\<lparr>speed_mode := SPEED_STANDARD, scl_lcnt := 190, scl_hcnt := 310, sda_cnt := 95\<rparr>)"
  by (simp add: speed_set_eq Let_def)

text \<open>The accesses of the driver change hardware and trace only.\<close>

lemmas i2c_access =
  alt_avalon_i2c_disable_def alt_avalon_i2c_int_disable_def alt_avalon_i2c_enabled_ints_get_def
  alt_avalon_i2c_int_clear_def alt_avalon_i2c_tfr_cmd_fifo_threshold_set_def
  alt_avalon_i2c_rx_fifo_threshold_set_def alt_avalon_i2c_master_config_set_def
  I2C_RMW_def I2C_RD_def I2C_WR_def

definition hw_only :: "(unit, ('h, 'x) i2c_st_scheme) prog \<Rightarrow> bool" where
  "hw_only m \<longleftrightarrow> (\<forall>s. \<exists>h t. m s = Some ((), s\<lparr>hw := h, trace := t\<rparr>))"

lemma hw_onlyE:
  assumes "hw_only m"
  obtains h t where "m s = Some ((), s\<lparr>hw := h, trace := t\<rparr>)"
  using assms unfolding hw_only_def by metis

lemma hw_only_access:
  "hw_only (alt_avalon_i2c_disable B)" "hw_only (alt_avalon_i2c_int_disable B m)"
  "hw_only (alt_avalon_i2c_int_clear B m)" "hw_only (alt_avalon_i2c_tfr_cmd_fifo_threshold_set B n)"
  "hw_only (alt_avalon_i2c_rx_fifo_threshold_set B n)"
  by (auto simp: hw_only_def i2c_access Let_def)

lemma config_set_writes:
  "\<exists>h t pre. alt_avalon_i2c_master_config_set B cfg s =
       Some ((), s\<lparr>dev := (dev s)\<lparr>address_mode := addr_mode cfg\<rparr>, hw := h, trace := t\<rparr>) \<and>
     bus_writes t = pre @ [(i2c_base (dev s) + 36, ucast (scl_hcnt cfg)),
        (i2c_base (dev s) + 32, ucast (scl_lcnt cfg)), (i2c_base (dev s) + 40, ucast (sda_cnt cfg))]"
  unfolding alt_avalon_i2c_master_config_set_def I2C_RMW_def I2C_RD_def I2C_WR_def Let_def
  by (simp, intro exI conjI, rule refl, simp)

text \<open>The part of the initialisation that programs the core.\<close>

lemma i2c_init_core:
  assumes "ip_freq_in_hz (dev s) = 50000000"
  obtains h t pre where
    "alt_avalon_i2c_init E B p lst isr u s = do {
       (_, s) \<leftarrow> alt_dev_llist_insert E p lst
         (s\<lparr>dev := (dev s)\<lparr>address_mode := ADDR_MODE_7_BIT\<rparr>, hw := h, trace := t\<rparr>);
       (_, s) \<leftarrow> alt_ic_isr_register (irq_controller_ID (dev s)) (irq_ID (dev s)) isr p s;
       Some ((), s) }"
    "bus_writes t = pre @ [(i2c_base (dev s) + 36, 310), (i2c_base (dev s) + 32, 190),
        (i2c_base (dev s) + 40, 95)]"
proof -
  let ?s1 = "\<lambda>h t. s\<lparr>hw := h, trace := t\<rparr>"
  obtain h1 t1 where 1: "alt_avalon_i2c_disable B s = Some ((), ?s1 h1 t1)"
    by (rule hw_onlyE [OF hw_only_access(1)])
  obtain h2 t2 where 2: "alt_avalon_i2c_int_disable B ISR_ALLINTS_MSK (?s1 h1 t1) = Some ((), ?s1 h2 t2)"
    by (rule hw_onlyE [OF hw_only_access(2), where s = "?s1 h1 t1"]) simp
  obtain h3 t3 where 3: "alt_avalon_i2c_int_clear B ISR_ALL_CLEARABLE_INTS_MSK (?s1 h2 t2) = Some ((), ?s1 h3 t3)"
    by (rule hw_onlyE [OF hw_only_access(3), where s = "?s1 h2 t2"]) simp
  obtain h4 t4 where 4: "alt_avalon_i2c_tfr_cmd_fifo_threshold_set B 3 (?s1 h3 t3) = Some ((), ?s1 h4 t4)"
    by (rule hw_onlyE [OF hw_only_access(4), where s = "?s1 h3 t3"]) simp
  obtain h5 t5 where 5: "alt_avalon_i2c_rx_fifo_threshold_set B 3 (?s1 h4 t4) = Some ((), ?s1 h5 t5)"
    by (rule hw_onlyE [OF hw_only_access(5), where s = "?s1 h4 t4"]) simp
  let ?cfg = "u\<lparr>speed_mode := SPEED_STANDARD, addr_mode := ADDR_MODE_7_BIT, speed_mode := SPEED_STANDARD,
      scl_lcnt := 190, scl_hcnt := 310, sda_cnt := 95\<rparr>"
  obtain h t pre where 6: "alt_avalon_i2c_master_config_set B ?cfg (?s1 h5 t5) =
       Some ((), s\<lparr>dev := (dev s)\<lparr>address_mode := ADDR_MODE_7_BIT\<rparr>, hw := h, trace := t\<rparr>)"
     "bus_writes t = pre @ [(i2c_base (dev s) + 36, 310), (i2c_base (dev s) + 32, 190),
        (i2c_base (dev s) + 40, 95)]"
    using config_set_writes [of B ?cfg "?s1 h5 t5"] by auto
  show ?thesis
    by (rule that [OF _ 6(2)])
       (simp add: alt_avalon_i2c_init_def 1 2 3 4 5 i2c_speed_100k [of "dev s", OF assms] Let_def 6(1) [simplified])
qed

text \<open>
  Initialising the I2C instance of the board (50 MHz, interrupt line below 32) programs
  the SCL and SDA counts for 100 kHz last, registers the device on the driver's list, installs
  its interrupt handler and enables exactly its line; opening it by name afterwards finds it,
  whatever the core does.
\<close>

theorem i2c_init_then_open:
  assumes "ip_freq_in_hz (dev s) = 50000000" "irq_ID (dev s) < 32" "isr \<noteq> 0"
    and "ring (links s) lst ds" "p \<notin> set (lst # ds)" "p \<noteq> 0" "dv_name (devs E p) \<noteq> 0"
    and "cstr (bytes s) name bs" "length bs < 2 ^ 31"
    and "cstr (bytes s) (dv_name (devs E p)) bs" "\<forall>d \<in> set ds. cstr (bytes s) (dv_name (devs E d)) (nm d)"
  shows "\<exists>s' pre. alt_avalon_i2c_init E B p lst isr u s = Some ((), s') \<and>
     bus_writes (trace s') = pre @ [(i2c_base (dev s) + 36, 310), (i2c_base (dev s) + 32, 190),
        (i2c_base (dev s) + 40, 95)] \<and>
     alt_avalon_i2c_open E lst name s' = Some p \<and>
     alt_irq s' (unat (irq_ID (dev s))) = \<lparr>ih_handler = isr, ih_context = p\<rparr> \<and>
     alt_irq_active s' = alt_irq_active s OR push_bit (unat (irq_ID (dev s))) 1 \<and>
     cpu_status s' = cpu_status s"
proof -
  obtain h t pre where i: "alt_avalon_i2c_init E B p lst isr u s = do {
       (_, s) \<leftarrow> alt_dev_llist_insert E p lst
         (s\<lparr>dev := (dev s)\<lparr>address_mode := ADDR_MODE_7_BIT\<rparr>, hw := h, trace := t\<rparr>);
       (_, s) \<leftarrow> alt_ic_isr_register (irq_controller_ID (dev s)) (irq_ID (dev s)) isr p s;
       Some ((), s) }"
    "bus_writes t = pre @ [(i2c_base (dev s) + 36, 310), (i2c_base (dev s) + 32, 190),
        (i2c_base (dev s) + 40, 95)]"
    by (rule i2c_init_core [OF assms(1)])
  have r: "ring (alt_llist_insert lst p (links s)) lst (p # ds)"
    by (rule ll.ins_rep [OF assms(4,5)])
  have ns: "cstr (bytes s) (dv_name (devs E d)) ((nm(p := bs)) d)" if "d \<in> set (p # ds)" for d
    using that assms(10,11) by auto
  have f: "alt_find_dev (bytes s) (\<lambda>d. dv_name (devs E d)) name lst (alt_llist_insert lst p (links s)) = Some p"
    using alt_find_dev_ring [OF r assms(8,9) ns] by simp
  show ?thesis
    using assms(2,3,6,7) i(2) f
    by (simp add: i(1) alt_dev_llist_insert_def isr_register_eq Let_def alt_avalon_i2c_open_def del: push_bit_of_1)
qed

definition i2c_demo :: "u32 i2c_st" where
  "i2c_demo = adv_state\<lparr>bytes := (\<lambda>_. 0)(0x300 := 0x69)\<rparr>"

lemma i2c_demo_simps [simp]:
  "dev i2c_demo = adv_dev" "bytes i2c_demo = (\<lambda>_. 0)(0x300 := 0x69)" "ring (links i2c_demo) l []"
  "alt_irq_active i2c_demo = 0"
  by (simp_all add: i2c_demo_def adv_state_def ring_def)

theorem i2c_init_then_open_witness:
  "\<exists>s'. alt_avalon_i2c_init (null_env 0x10 0x20 0x300) (simple_core 0x20040 1) 0x80 0x90 0x400 zero_cfg i2c_demo =
       Some ((), s') \<and> alt_irq_active s' = 4 \<and>
     alt_avalon_i2c_open (null_env 0x10 0x20 0x300) 0x90 0x300 s' = Some 0x80"
proof -
  have d: "ip_freq_in_hz adv_dev = 50000000" "irq_ID adv_dev = 2" by (simp_all add: adv_dev_def)
  have n: "dv_name (devs (null_env 0x10 0x20 0x300 :: u32 i2c_st hal_env) q) = 0x300" for q
    by (simp add: null_env_def alt_dev_null_def)
  show ?thesis
    using i2c_init_then_open [of i2c_demo "0x400" "0x90" "[]" "0x80" "null_env 0x10 0x20 0x300" "0x300" "[0x69]"
        "\<lambda>_. []" "simple_core 0x20040 1" zero_cfg]
    by (auto simp: d n)
qed

end
