(* ===== verification/HAL_FD_Claims.thy ===== *)
theory HAL_FD_Claims
  imports HAL_FD_Props
begin

text \<open>
  Properties of the HAL's lists and of its file layer.  The witnesses run on a small system
  whose only device is the null device at address \<open>0x40\<close>, registered under the one-letter
  name stored at \<open>0x100\<close>.
\<close>

section \<open>A concrete system\<close>

definition demo_env :: "unit hal hal_env" where
  "demo_env = null_env 0x10 0x20 0x100"

definition demo_links :: llist_heap where
  "demo_links = \<lparr>ll_next = (\<lambda>x. x)(0x10 := 0x40, 0x40 := 0x10),
                 ll_prev = (\<lambda>x. x)(0x10 := 0x40, 0x40 := 0x10)\<rparr>"

definition demo_hal :: "unit hal" where
  "demo_hal = \<lparr>hw = (), trace = [], cpu_status = 0, cpu_ienable = 0,
     alt_irq_active = 0, alt_priority_mask = -1, alt_irq = (\<lambda>_. \<lparr>ih_handler = 0, ih_context = 0\<rparr>),
     alt_instruction_exception_handler = 0, alt_fd_list = alt_fd_list_init 0x40, alt_max_fd = -1, errno = 0, links = demo_links,
     bytes = (\<lambda>_. 0)(0x100 := 0x61), st_mode = (\<lambda>_. 0)\<rparr>"

lemma demo_rings: "ring demo_links 0x10 [0x40]" "ring demo_links 0x20 []"
  by (simp_all add: ring_def demo_links_def)

lemma demo_name: "cstr ((\<lambda>_. 0)(0x100 := 0x61)) 0x100 [0x61]"
  by simp

lemma demo_drivers: "driver_ok (devs demo_env d)"
  by (simp add: demo_env_def null_env_def null_driver_ok)

lemma init_inv:
  "alt_fd_list s = alt_fd_list_init d \<Longrightarrow> d \<noteq> 0 \<Longrightarrow> alt_max_fd s = -1 \<Longrightarrow> fd_inv s"
  by (simp add: fd_inv_def alt_fd_list_init_def)

lemma demo_inv: "fd_inv demo_hal"
  by (rule init_inv [of _ "0x40"]) (simp_all add: demo_hal_def)

lemma demo_find:
  "links s = demo_links \<Longrightarrow> bytes s = (\<lambda>_. 0)(0x100 := 0x61) \<Longrightarrow>
   find_name demo_env 0x100 s = Some (0x40, False)"
  using alt_find_dev_ring [OF demo_rings(1) demo_name, of "\<lambda>_. 0x100" "\<lambda>_. [0x61]"]
  by (simp add: find_name_def demo_env_def null_env_def alt_dev_null_def)

lemma demo_free: "free_fd demo_hal 3"
  by (auto simp: free_fd_def fst_slot demo_hal_def alt_fd_list_init_def)

lemma demo_plain: "dv_open (devs demo_env d) = None" "dv_close (devs demo_env d) = None"
  by (simp_all add: demo_env_def null_env_def alt_dev_null_def)

lemma demo_open:
  obtains s' where "ALT_OPEN demo_env 0x100 0 0 demo_hal = Some (3, s')"
    "slot s' = (slot demo_hal)(3 := (0x40, ALT_FD_DEV))" "alt_max_fd s' = 3" "rest s' = rest demo_hal"
proof -
  have "find_name demo_env 0x100 demo_hal = Some (0x40, False)"
    by (rule demo_find) (simp_all add: demo_hal_def)
  moreover have "\<not> locked_dev demo_hal 0x40 32"
    by (auto simp: locked_dev_def slot_def slot_of_def demo_hal_def alt_fd_list_init_def)
  ultimately obtain s' where "ALT_OPEN demo_env 0x100 0 0 demo_hal = Some (int 3, s')"
    "slot s' = (slot demo_hal)(3 := (0x40, open_flags 0 False))"
    "alt_max_fd s' = max (alt_max_fd demo_hal) (int 3)" "rest s' = rest demo_hal"
    using open_plain [OF demo_inv _ _ _ demo_free, of demo_env "0x100" "0x40" 0 0] demo_plain(1)
    by (auto simp del: fun_upd_apply)
  moreover have "alt_max_fd demo_hal = -1" by (simp add: demo_hal_def)
  ultimately show ?thesis using that by (simp add: open_flags_def)
qed

section \<open>The lists\<close>

text \<open>
  C7. The linked lists behave as sequences.  If entry e is on no list, inserting it into the
  list with head l that holds xs gives the list e # xs; every other disjoint list keeps its
  entries; removing it again gives xs back and leaves e linked to itself, so that a second
  removal changes nothing, as the comment in alt_llist_remove promises.
\<close>

theorem llist_insert_remove:
  assumes "ring h l xs" "ring h k ys" "set (l # xs) \<inter> set (k # ys) = {}"
    and "e \<notin> set (l # k # xs @ ys)"
  shows "ring (alt_llist_insert l e h) l (e # xs) \<and> ring (alt_llist_insert l e h) k ys \<and>
     ring (alt_llist_remove e (alt_llist_insert l e h)) l xs \<and>
     ring (alt_llist_remove e (alt_llist_insert l e h)) k ys \<and>
     alt_llist_remove e (alt_llist_remove e h) = alt_llist_remove e h"
proof -
  have i: "ring (alt_llist_insert l e h) l (e # xs)"
    by (rule ll.ins_rep [OF assms(1)]) (use assms(4) in auto)
  have o: "ring (alt_llist_insert l e h) k ys" by (rule ll.ins_frame [OF assms])
  have "ring (alt_llist_remove e (alt_llist_insert l e h)) l xs"
    by (rule ll.insert_remove [OF assms(1)]) (use assms(4) in auto)
  moreover have "ring (alt_llist_remove e (alt_llist_insert l e h)) k ys"
    by (rule ll.rem_frame [of _ l "[]" e xs, OF _ o]) (use i assms(3,4) in auto)
  ultimately show ?thesis using i o ll.remove_again by blast
qed

theorem llist_insert_remove_witness:
  "ring (alt_llist_insert 0x10 0x50 demo_links) 0x10 [0x50, 0x40]"
  using llist_insert_remove [OF demo_rings, of "0x50"] by simp

text \<open>
  C37. Name resolution of open.  With the devices ds on the device list, the file systems fs on
  the file system list, and every name a C string, open looks up the first device whose name
  is exactly the file name, and failing that the first file system of which the name without a
  trailing slash, followed by a slash or the end, is a prefix of the file name - whatever
  bytes follow the file name in memory, although the code reads beyond its end when a
  registered name is longer.
\<close>

theorem open_name_resolution:
  assumes "ring (links s) (alt_dev_list E) ds" "ring (links s) (alt_fs_list E) fs"
    and "cstr (bytes s) fname bs" "length bs < 2 ^ 31" "0 \<notin> set (ds @ fs)"
    and "\<And>d. d \<in> set (ds @ fs) \<Longrightarrow> cstr (bytes s) (dv_name (devs E d)) (nm d)"
    and "\<And>d. d \<in> set fs \<Longrightarrow> nm d \<noteq> [] \<and> length (nm d) < 2 ^ 31"
  shows "find_name E fname s =
     Some (if bs \<in> nm ` set ds then (first_match (\<lambda>d. nm d = bs) ds, False)
           else (first_match (\<lambda>d. mounts (nm d) bs) fs, True))"
proof -
  have d: "alt_find_dev (bytes s) (\<lambda>d. dv_name (devs E d)) fname (alt_dev_list E) (links s)
      = Some (first_match (\<lambda>d. nm d = bs) ds)"
    by (rule alt_find_dev_ring [OF assms(1,3,4)]) (use assms(6) in auto)
  have f: "alt_find_file (bytes s) (\<lambda>d. dv_name (devs E d)) fname (alt_fs_list E) (links s)
      = Some (first_match (\<lambda>d. mounts (nm d) bs) fs)"
    by (rule alt_find_file_ring [OF assms(2,3)]) (use assms(6,7) in auto)
  have "first_match (\<lambda>d. nm d = bs) ds = 0 \<longleftrightarrow> bs \<notin> nm ` set ds" if "0 \<notin> set ds"
    using that by (induction ds) auto
  with d f assms(5) show ?thesis by (auto simp: find_name_def)
qed

theorem open_name_resolution_witness:
  "find_name demo_env 0x100 demo_hal = Some (0x40, False)"
  using open_name_resolution [of demo_hal demo_env "[0x40]" "[]" "0x100" "[0x61]" "\<lambda>_. [0x61]"]
    demo_rings by (simp add: demo_hal_def demo_env_def null_env_def alt_dev_null_def)

section \<open>Descriptors\<close>

text \<open>
  C4. The descriptor pool stays consistent under any sequence of system calls, successful or
  not, with drivers that keep out of it: from the pool of alt_dev.c, every reachable state has
  the three standard descriptors in use, every other descriptor in use at or below the high
  water mark, and the mark inside the pool.
\<close>

theorem fd_pool_invariant:
  assumes "\<And>d. driver_ok (devs E d)"
    and "alt_fd_list s = alt_fd_list_init null" "null \<noteq> 0" "alt_max_fd s = - 1"
    and "(fd_step E)\<^sup>*\<^sup>* s s'"
  shows "(\<forall>i < 3. fd_dev (alt_fd_list s' i) \<noteq> 0) \<and>
     (\<forall>i \<ge> 3. fd_dev (alt_fd_list s' i) \<noteq> 0 \<longrightarrow> int i \<le> alt_max_fd s') \<and> alt_max_fd s' < 32"
proof -
  have "fd_inv s'"
    by (rule device_table.fd_reachable_inv [OF device_table.intro, OF assms(1,5)])
       (rule init_inv [OF assms(2,3,4)])
  then show ?thesis by (simp add: fd_inv_def)
qed

theorem fd_pool_invariant_witness:
  "\<exists>s'. (fd_step demo_env)\<^sup>*\<^sup>* demo_hal s' \<and> alt_max_fd s' = 3 \<and>
     (\<forall>i < 3. fd_dev (alt_fd_list s' i) \<noteq> 0)"
proof -
  obtain s' where s': "ALT_OPEN demo_env 0x100 0 0 demo_hal = Some (3, s')" "alt_max_fd s' = 3"
    by (rule demo_open)
  have r: "(fd_step demo_env)\<^sup>*\<^sup>* demo_hal s'"
    by (rule r_into_rtranclp) (rule step_open [OF s'(1)])
  from fd_pool_invariant [OF demo_drivers _ _ _ r, of "0x40"] r s'(2) show ?thesis
    by (auto simp: demo_hal_def)
qed

text \<open>
  C21. Opening takes the lowest free descriptor, never a standard one, for the device that the
  name resolves to, and closing it puts the pool back exactly as it was.
\<close>

theorem fd_open_close_roundtrip:
  assumes "\<And>d. driver_ok (devs E d)" "fd_inv s"
    and "ALT_OPEN E fname flags mode s = Some (fd, s1)" "0 \<le> fd"
    and "ALT_CLOSE E fd s1 = Some (r, s2)"
  shows "free_fd s (nat fd) \<and> 3 \<le> fd \<and> fd < 32 \<and>
     (\<exists>d fs. find_name E fname s = Some (d, fs) \<and> slot s1 (nat fd) = (d, open_flags flags fs)) \<and>
     slot s2 = slot s"
proof -
  note dt = device_table.intro [of E, OF assms(1)]
  from wlpD [OF assms(3) device_table.open_wlp [OF dt assms(2)]] assms(4)
  obtain k d fs where k: "fd = int k" "free_fd s k" "find_name E fname s = Some (d, fs)" "d \<noteq> 0"
    "slot s1 = (slot s)(k := (d, open_flags flags fs))" by auto
  have b: "3 \<le> k" "k < 32" "slot s k = (0, 0)" using free_fd_inv [OF assms(2) k(2)] by auto
  have "fd_inv s1"
    by (rule pool_step_inv [OF device_table.fd_step_pool [OF dt step_open [OF assms(3)] assms(2)] assms(2)])
  from wlpD [OF assms(5) device_table.close_wlp [OF dt this]] k b
  have "slot s2 = (slot s1)(k := (0, 0))" by auto
  with k b show ?thesis by (auto simp: fun_upd_idem)
qed

theorem fd_open_close_roundtrip_witness:
  "\<exists>s1 s2. ALT_OPEN demo_env 0x100 0 0 demo_hal = Some (3, s1) \<and>
     ALT_CLOSE demo_env 3 s1 = Some (0, s2) \<and> slot s2 = slot demo_hal"
proof -
  obtain s1 where s1: "ALT_OPEN demo_env 0x100 0 0 demo_hal = Some (3, s1)"
    "slot s1 = (slot demo_hal)(3 := (0x40, ALT_FD_DEV))"
    by (rule demo_open)
  have "fd_dev (alt_fd_list s1 3) = 0x40" using s1(2) by (simp add: fst_slot [symmetric])
  then obtain s2 where s2: "ALT_CLOSE demo_env 3 s1 = Some (0, s2)"
    by (simp add: ALT_CLOSE_def fd_index_def dev_at_def demo_plain alt_release_fd_def)
  show ?thesis
    using fd_open_close_roundtrip [OF demo_drivers demo_inv s1(1) _ s2] s1(1) s2 by simp
qed

text \<open>
  C36. A failed open leaks nothing: it returns -1, sets errno to a positive code, and leaves
  every descriptor as it was.
\<close>

theorem fd_open_failure_leaks_nothing:
  assumes "\<And>d. driver_ok (devs E d)" "fd_inv s"
    and "ALT_OPEN E fname flags mode s = Some (r, s')" "r < 0"
  shows "r = - 1 \<and> 0 < errno s' \<and> slot s' = slot s"
  using wlpD [OF assms(3) device_table.open_wlp [OF device_table.intro, OF assms(1,2)]] assms(4)
  by auto

text \<open>The same system with descriptor 3 on the device, locked, and a second one on it as well.\<close>

definition demo_locked :: "u32 \<Rightarrow> unit hal" where
  "demo_locked f = demo_hal\<lparr>alt_max_fd := 4,
     alt_fd_list := (alt_fd_list_init 0x90)(3 := \<lparr>fd_dev = 0x40, fd_priv = 0, fd_flags = f\<rparr>,
        4 := \<lparr>fd_dev = 0x40, fd_priv = 0, fd_flags = ALT_FD_DEV\<rparr>)\<rparr>"

lemma demo_locked_inv: "fd_inv (demo_locked f)"
  by (auto simp: fd_inv_def demo_locked_def alt_fd_list_init_def)

lemma demo_locked_find: "find_name demo_env 0x100 (demo_locked f) = Some (0x40, False)"
  by (rule demo_find) (simp_all add: demo_locked_def demo_hal_def)

text \<open>
  C18. Exclusive access: while any descriptor holds the lock on a device, every open of that
  device by name returns -1 with errno EACCES (EMFILE when the pool is full), without calling
  the driver or touching the hardware, and with no descriptor changed.
\<close>

theorem fd_lock_excludes_open:
  assumes "fd_inv s" "find_name E fname s = Some (d, False)" "d \<noteq> 0"
    and "i < 32" "slot s i = (d, f)" "f AND ALT_FD_EXCL \<noteq> 0"
  shows "\<exists>s'. ALT_OPEN E fname flags mode s = Some (- 1, s') \<and> slot s' = slot s \<and>
     errno s' = (if pool_full s then EMFILE else EACCES) \<and> hw s' = hw s \<and> trace s' = trace s"
proof -
  have "locked_dev s d 32" using assms(4-6) by (auto simp: locked_dev_def intro!: exI [of _ i])
  from open_locked [OF assms(1-3) this, of flags mode] show ?thesis by (auto simp: rest_def)
qed

theorem fd_lock_excludes_open_witness:
  "\<exists>s'. ALT_OPEN demo_env 0x100 0 0 (demo_locked 0xC0000000) = Some (- 1, s') \<and> errno s' = EACCES"
proof -
  have "slot (demo_locked 0xC0000000) 3 = (0x40, 0xC0000000)"
    by (simp add: slot_def slot_of_def demo_locked_def)
  moreover have "\<not> pool_full (demo_locked 0xC0000000)"
    by (auto simp: pool_full_def slot_def slot_of_def demo_locked_def alt_fd_list_init_def
          intro!: exI [of _ 5])
  ultimately show ?thesis
    using fd_lock_excludes_open [OF demo_locked_inv [of "0xC0000000"] demo_locked_find, where i = 3 and f = "0xC0000000" and flags = 0 and mode = 0]
    by auto
qed

theorem fd_open_failure_leaks_nothing_witness:
  "\<exists>s'. ALT_OPEN demo_env 0x100 0 0 (demo_locked 0xC0000000) = Some (- 1, s') \<and>
     slot s' = slot (demo_locked 0xC0000000)"
proof -
  have "locked_dev (demo_locked 0xC0000000) 0x40 32"
    by (auto simp: locked_dev_def slot_def slot_of_def demo_locked_def intro!: exI [of _ 3])
  then obtain s' where s': "ALT_OPEN demo_env 0x100 0 0 (demo_locked 0xC0000000) = Some (- 1, s')"
    using open_locked [OF demo_locked_inv demo_locked_find, of _ 0 0] by auto
  with fd_open_failure_leaks_nothing [OF demo_drivers demo_locked_inv s'] show ?thesis by auto
qed

text \<open>
  The lock is granted although the device is in use: alt_fd_lock stops its search before
  the high water mark, so that when the only other descriptor on the device is the one opened
  last, ioctl TIOCEXCL succeeds and both descriptors stay on the device.  The comment of
  alt_fd_lock grants the lock only when no other open descriptor references the device.
\<close>

theorem fd_lock_misses_highest:
  assumes "i < m" "m < 32" "alt_max_fd s = int m" "fd_flags (alt_fd_list s i) AND ALT_FD_DEV \<noteq> 0"
    and "fd_dev (alt_fd_list s m) = fd_dev (alt_fd_list s i)"
    and "\<forall>j < m. j \<noteq> i \<longrightarrow> fd_dev (alt_fd_list s j) \<noteq> fd_dev (alt_fd_list s i)"
  shows "\<exists>s'. ALT_IOCTL E (int i) TIOCEXCL arg s = Some (0, s') \<and>
     fd_flags (alt_fd_list s' i) AND ALT_FD_EXCL \<noteq> 0 \<and>
     fd_dev (alt_fd_list s' m) = fd_dev (alt_fd_list s' i)"
proof -
  have "\<not> list_ex (\<lambda>j. j \<noteq> i \<and> fd_dev (alt_fd_list s j) = fd_dev (alt_fd_list s i)) [0 ..< nat (alt_max_fd s)]"
    using assms(3,6) by (auto simp: list_ex_iff)
  then show ?thesis
    using assms by (simp add: ALT_IOCTL_def alt_fd_lock_def bit.conj_disj_distrib2)
qed

theorem fd_lock_misses_highest_witness:
  "\<exists>s'. ALT_IOCTL demo_env 3 TIOCEXCL 0 (demo_locked ALT_FD_DEV) = Some (0, s') \<and>
     fd_dev (alt_fd_list s' 4) = fd_dev (alt_fd_list s' 3)"
  using fd_lock_misses_highest [of 3 4 "demo_locked ALT_FD_DEV" demo_env 0]
  by (auto simp: demo_locked_def alt_fd_list_init_def)

text \<open>
  fcntl changes only O_APPEND and O_NONBLOCK: F_GETFL after F_SETFL reads the old flags
  with those two bits replaced, the lock and device bits of the HAL are never shown (the
  result is never negative) and never changed.
\<close>

theorem fcntl_round_trip:
  assumes "0 \<le> file" "file < 32" "fl = fd_flags (alt_fd_list s (nat file))"
  shows "\<exists>s'. ALT_FCNTL file F_SETFL arg s = Some (0, s') \<and>
     ALT_FCNTL file F_GETFL a s' =
       Some (uint (((fl AND NOT ALT_FD_FLAGS_MASK) AND NOT ALT_FCNTL_FLAGS_MASK) OR
                   (arg AND ALT_FCNTL_FLAGS_MASK)), s') \<and>
     fd_flags (alt_fd_list s' (nat file)) AND ALT_FD_FLAGS_MASK = fl AND ALT_FD_FLAGS_MASK"
proof -
  define i where "i = nat file"
  have f: "file = int i" "i < 32" using assms by (auto simp: i_def)
  let ?g = "(fl AND NOT ALT_FCNTL_FLAGS_MASK) OR (arg AND ALT_FCNTL_FLAGS_MASK)"
  have e: "?g AND NOT ALT_FD_FLAGS_MASK =
      ((fl AND NOT ALT_FD_FLAGS_MASK) AND NOT ALT_FCNTL_FLAGS_MASK) OR (arg AND ALT_FCNTL_FLAGS_MASK)"
  proof -
    have "(arg AND ALT_FCNTL_FLAGS_MASK) AND NOT ALT_FD_FLAGS_MASK = arg AND ALT_FCNTL_FLAGS_MASK"
      by (simp add: and.assoc)
    moreover have "(fl AND NOT ALT_FCNTL_FLAGS_MASK) AND NOT ALT_FD_FLAGS_MASK =
        (fl AND NOT ALT_FD_FLAGS_MASK) AND NOT ALT_FCNTL_FLAGS_MASK"
      by (simp add: and.assoc)
    ultimately show ?thesis by (simp only: bit.conj_disj_distrib2)
  qed
  have nn: "sint (w AND NOT ALT_FD_FLAGS_MASK) = uint (w AND NOT ALT_FD_FLAGS_MASK)" for w :: u32
  proof -
    have "uint (w AND NOT ALT_FD_FLAGS_MASK) \<le> uint (NOT ALT_FD_FLAGS_MASK :: u32)"
      unfolding word_le_def [symmetric] by (rule word_and_le1)
    then have "uint (w AND NOT ALT_FD_FLAGS_MASK) < 2 ^ 31" by simp
    then show ?thesis by (rule sint_u32_small)
  qed
  show ?thesis
    using f assms(3) e nn [of ?g] fcntl_keeps_mask [of fl arg] by (simp add: ALT_FCNTL_def)
qed

theorem fcntl_round_trip_witness:
  "\<exists>s'. ALT_FCNTL 1 F_SETFL 0xFFFFFFFF demo_hal = Some (0, s') \<and>
     ALT_FCNTL 1 F_GETFL 0 s' = Some (0x4008, s')"
  using fcntl_round_trip [of 1 0 demo_hal "0xFFFFFFFF" 0]
  by (auto simp: demo_hal_def alt_fd_list_init_def)

end
