(* ===== verification/HAL_Time_Claims.thy ===== *)
theory HAL_Time_Claims
  imports HAL_Time
begin

text \<open>
  Properties of time in the HAL: when an alarm fires, across the wrap of the 32-bit tick
  counter; what the wall clock reads and when setting it goes wrong; how long the delay loop
  runs; that the heap hands out disjoint blocks.
\<close>

section \<open>Alarms\<close>

primrec ticks :: "('h, 'x) time_st_scheme callbacks \<Rightarrow> u32 \<Rightarrow> nat \<Rightarrow> (unit, ('h, 'x) time_st_scheme) prog" where
  "ticks C al 0 s = Some ((), s)"
| "ticks C al (Suc k) s = do { (_, s) \<leftarrow> ticks C al k s; alt_tick C al s }"

lemma bind_unit [simp]: "do { (u, s) \<leftarrow> m; Some ((), s) } = (m :: (unit \<times> 's) option)"
  by (cases m) auto

lemma alarms_upd [simp]:
  "alarms (upd_alarm a f s) = (alarms s)(a := f (alarms s a))"
  "links (upd_alarm a f s) = links s" "nticks (upd_alarm a f s) = nticks s"
  by (simp_all add: upd_alarm_def)

text \<open>One tick with a single alarm registered.\<close>

lemma alt_tick_single:
  assumes "ring (links s) al [a]"
  shows "alt_tick C al s = tick_alarm C a (s\<lparr>nticks := nticks s + 1\<rparr>)"
proof -
  have n: "ll_next (links s) al = a" "ll_next (links s) a = al" "a \<noteq> al"
    using assms by (auto simp: ring_def)
  have e: "tick_loop C al al = (\<lambda>t. Some ((), t))" by (rule ext) (simp add: tick_loop.simps)
  show ?thesis
    unfolding alt_tick_def Let_def n by (subst tick_loop.simps) (simp add: n e)
qed

text \<open>The state \<open>k\<close> ticks after the alarm was set at tick \<open>t0\<close> for tick \<open>T\<close>, counted without wrap.\<close>

definition armed :: "u32 \<Rightarrow> u32 \<Rightarrow> u32 \<Rightarrow> u32 \<Rightarrow> nat \<Rightarrow> nat \<Rightarrow> ('h, 'x) time_st_scheme \<Rightarrow> bool" where
  "armed al a cb cx m T s \<longleftrightarrow>
     ring (links s) al [a] \<and> nticks s = of_nat m \<and>
     alarms s a = \<lparr>al_time = of_nat T, al_callback = cb,
       al_rollover = (if 2 ^ 32 \<le> T \<and> m < 2 ^ 32 then 1 else 0), al_context = cx\<rparr>"

lemma armed_tick:
  assumes a: "armed al a cb cx m T s" and T: "m < T" "T < 2 ^ 33"
  defines "s' \<equiv> (if 2 ^ 32 \<le> T \<and> Suc m = 2 ^ 32
                 then upd_alarm a (al_rollover_update (\<lambda>_. 0)) (s\<lparr>nticks := nticks s + 1\<rparr>)
                 else s\<lparr>nticks := nticks s + 1\<rparr>)"
  shows "armed al a cb cx (Suc m) T s'"
    and "alt_tick C al s = (if Suc m = T then do { (r, t) \<leftarrow> C cb cx s'; alarm_next a r t } else Some ((), s'))"
proof -
  let ?n = "s\<lparr>nticks := nticks s + 1\<rparr>"
  have nt: "nticks s + 1 = of_nat (Suc m)" using a by (simp add: armed_def add.commute)
  have al: "alarms s a = \<lparr>al_time = of_nat T, al_callback = cb,
       al_rollover = (if 2 ^ 32 \<le> T \<and> m < 2 ^ 32 then 1 else 0), al_context = cx\<rparr>"
    and r: "ring (links s) al [a]"
    using a by (simp_all add: armed_def)
  have z: "(of_nat (Suc m) = (0 :: u32)) \<longleftrightarrow> Suc m mod 2 ^ 32 = 0"
    by (simp add: word_of_nat_eq_0_iff dvd_eq_mod_eq_0 del: of_nat_Suc)
  have clr: "(al_rollover (alarms ?n a) \<noteq> 0 \<and> nticks ?n = 0) \<longleftrightarrow> 2 ^ 32 \<le> T \<and> Suc m = 2 ^ 32"
  proof -
    have "Suc m = 2 ^ 32" if "m < 2 ^ 32" "Suc m mod 2 ^ 32 = 0"
      using that by (metis Suc_leI mod_less le_neq_implies_less nat.distinct(1))
    then show ?thesis using z by (auto simp: al nt simp del: of_nat_Suc)
  qed
  show A: "armed al a cb cx (Suc m) T s'"
    using a nt by (auto simp: s'_def armed_def)
  have ro: "al_rollover (alarms s' a) = (if 2 ^ 32 \<le> T \<and> Suc m < 2 ^ 32 then 1 else 0)"
    "al_time (alarms s' a) = of_nat T" "nticks s' = of_nat (Suc m)"
    "al_callback (alarms s' a) = cb" "al_context (alarms s' a) = cx"
    using A by (simp_all add: armed_def del: of_nat_Suc)
  have le: "(of_nat T \<le> (of_nat (Suc m) :: u32)) \<longleftrightarrow> T mod 2 ^ 32 \<le> Suc m mod 2 ^ 32"
    by (simp add: word_le_nat_alt unat_of_nat take_bit_eq_mod del: of_nat_Suc)
  have md: "x mod 2 ^ 32 = (if x < 2 ^ 32 then x else x - 2 ^ 32)" if "x < 2 ^ 33" for x :: nat
    using that by (simp add: mod_if)
  have mods: "T mod 2 ^ 32 = (if T < 2 ^ 32 then T else T - 2 ^ 32)"
    "Suc m mod 2 ^ 32 = (if Suc m < 2 ^ 32 then Suc m else Suc m - 2 ^ 32)"
    by (rule md, use T in simp)+
  have due: "alarm_due a s' \<longleftrightarrow> Suc m = T"
    unfolding alarm_due_def ro le mods using T by auto
  have "tick_alarm C a ?n = (if alarm_due a s' then do { (r, t) \<leftarrow> C cb cx s'; alarm_next a r t }
      else Some ((), s'))"
    unfolding tick_alarm_def Let_def clr s'_def [symmetric] ro(4,5) ..
  then show "alt_tick C al s = (if Suc m = T then do { (r, t) \<leftarrow> C cb cx s'; alarm_next a r t }
      else Some ((), s'))"
    unfolding alt_tick_single [OF r] due .
qed

lemma armed_ticks:
  assumes "armed al a cb cx m T s" "m + k < T" "T < 2 ^ 33"
  shows "\<exists>s'. ticks C al k s = Some ((), s') \<and> armed al a cb cx (m + k) T s'"
  using assms(2)
proof (induction k)
  case 0
  then show ?case using assms(1) by simp
next
  case (Suc k)
  then obtain t where t: "ticks C al k s = Some ((), t)" "armed al a cb cx (m + k) T t" by auto
  from armed_tick [OF t(2) _ assms(3)] Suc.prems t(1) show ?case by auto
qed

lemma armed_start:
  assumes "tick_rate s \<noteq> 0" "a \<noteq> 0" "a \<noteq> al" "ring (links s) al []" "n \<noteq> - 1"
  shows "\<exists>s1. alt_alarm_start al a n cb cx s = Some (0, s1) \<and> cpu_status s1 = cpu_status s \<and>
    armed al a cb cx (unat (nticks s)) (unat (nticks s) + unat n + 1) s1"
proof -
  let ?t = "n + nticks s + 1" and ?T = "unat (nticks s) + unat n + 1"
  have l: "unat (nticks s) < 2 ^ 32" "unat n < 2 ^ 32 - 1"
  proof -
    show "unat (nticks s) < 2 ^ 32" using unsigned_less [of "nticks s"] by simp
    have "unat n \<noteq> unat (- 1 :: u32)" using assms(5) by (simp add: word_unat_eq_iff)
    moreover have "unat (- 1 :: u32) = 2 ^ 32 - 1" by (simp add: unsigned_minus_1_eq_mask mask_eq_exp_minus_1)
    ultimately have "unat n \<noteq> 2 ^ 32 - 1" by simp
    moreover have "unat n < 2 ^ 32" using unsigned_less [of n] by simp
    ultimately show "unat n < 2 ^ 32 - 1" by simp
  qed
  have t: "?t = of_nat ?T" by simp
  have u: "unat ?t = (if ?T < 2 ^ 32 then ?T else ?T - 2 ^ 32)"
    unfolding t using l by (simp add: unat_of_nat take_bit_eq_mod mod_if del: of_nat_add of_nat_Suc)
  have c: "?t < nticks s \<longleftrightarrow> 2 ^ 32 \<le> ?T"
    using u l by (auto simp: word_less_nat_alt)
  have r: "ring (alt_llist_insert al a (links s)) al [a]"
    using ring_insert [OF assms(4)] assms(3) by auto
  show ?thesis
    using assms(1,2) r c l(1) by (simp add: alt_alarm_start_def alt_ticks_per_second_def alt_nticks_def
        prog_defs Let_def armed_def upd_alarm_def)
qed

text \<open>
  C15. An alarm set for n ticks fires exactly at the (n+1)-th tick, also when the 32-bit tick
  counter wraps in between: whatever the callback, the first n ticks return without calling
  it, and the next one calls it, with its context, once, and goes on as its result says.
  (n below 2 ^ 32 - 1.)
\<close>

theorem alarm_fires_exactly:
  assumes "tick_rate s \<noteq> 0" "a \<noteq> 0" "a \<noteq> al" "ring (links s) al []" "n \<noteq> - 1"
    and "alt_alarm_start al a n cb cx s = Some (r, s1)"
  shows "r = 0 \<and> (\<forall>k \<le> unat n. \<exists>sk. ticks C al k s1 = Some ((), sk) \<and> nticks sk = nticks s + of_nat k) \<and>
     (\<exists>sn t. ticks C al (unat n) s1 = Some ((), sn) \<and> nticks t = nticks s + n + 1 \<and>
        alt_tick C al sn = do { (nxt, u) \<leftarrow> C cb cx t; alarm_next a nxt u })"
proof -
  let ?m = "unat (nticks s)" let ?T = "?m + unat n + 1"
  obtain ar: "r = 0" "armed al a cb cx ?m ?T s1"
    using armed_start [OF assms(1-5), of cb cx] assms(6) by auto
  have "unat (nticks s) < 2 ^ 32" using unsigned_less [of "nticks s"] by simp
  moreover have "unat n < 2 ^ 32" using unsigned_less [of n] by simp
  ultimately have T: "?T < 2 ^ 33" by simp
  have run: "\<exists>s'. ticks C al k s1 = Some ((), s') \<and> armed al a cb cx (?m + k) ?T s'" if "k \<le> unat n" for k
    by (rule armed_ticks [OF ar(2) _ T]) (use that in simp)
  have nt: "nticks t = nticks s + of_nat k" if "armed al a cb cx (?m + k) ?T t" for k and t :: "('a, 'b) time_st_scheme"
    using that by (simp add: armed_def)
  obtain sn where sn: "ticks C al (unat n) s1 = Some ((), sn)" "armed al a cb cx (?m + unat n) ?T sn"
    using run by blast
  obtain t where t: "armed al a cb cx (Suc (?m + unat n)) ?T t"
    "alt_tick C al sn = do { (nxt, u) \<leftarrow> C cb cx t; alarm_next a nxt u }"
    using armed_tick(1) [OF sn(2) _ T] armed_tick(2) [OF sn(2) _ T, of C] by auto
  have "nticks t = nticks s + n + 1" using t(1) by (simp add: armed_def)
  moreover have "\<forall>k \<le> unat n. \<exists>sk. ticks C al k s1 = Some ((), sk) \<and> nticks sk = nticks s + of_nat k"
    using run nt by blast
  ultimately show ?thesis using ar(1) sn(1) t(2) by blast
qed

text \<open>A machine with the clock at 1000 ticks per second, two ticks before the counter wraps.\<close>

definition demo_time :: "unit time_st" where
  "demo_time = \<lparr>hw = (), trace = [], cpu_status = 1, cpu_ienable = 0,
     alt_irq_active = 0, alt_priority_mask = -1, alt_irq = (\<lambda>_. \<lparr>ih_handler = 0, ih_context = 0\<rparr>),
     alt_instruction_exception_handler = 0, alt_fd_list = alt_fd_list_init 0x40, alt_max_fd = -1,
     errno = 0, links = \<lparr>ll_next = (\<lambda>x. x), ll_prev = (\<lambda>x. x)\<rparr>, bytes = (\<lambda>_. 0), st_mode = (\<lambda>_. 0),
     tick_rate = 1000, nticks = -2,
     alarms = (\<lambda>_. \<lparr>al_time = 0, al_callback = 0, al_rollover = 0, al_context = 0\<rparr>),
     alt_resettime = \<lparr>tv_sec = 0, tv_usec = 0\<rparr>, alt_timezone = (0, 0), heap_end = 0x1001\<rparr>"

text \<open>A callback that leaves a mark and asks to be removed.\<close>

definition demo_cb :: "unit time_st callbacks" where
  "demo_cb cb cx s = Some (0, s\<lparr>trace := trace s @ [Wr cb cx]\<rparr>)"

lemma demo_time_simps [simp]:
  "tick_rate demo_time = 1000" "nticks demo_time = -2" "heap_end demo_time = 0x1001"
  "cpu_status demo_time = 1"
  "alt_resettime demo_time = \<lparr>tv_sec = 0, tv_usec = 0\<rparr>" "ring (links demo_time) l []"
  by (simp_all add: demo_time_def ring_def)

theorem alarm_fires_exactly_witness:
  "\<exists>s1 sn t. alt_alarm_start 0x10 0x50 3 7 9 demo_time = Some (0, s1) \<and>
     ticks demo_cb 0x10 3 s1 = Some ((), sn) \<and> nticks sn = 1 \<and> nticks t = 2 \<and>
     alt_tick demo_cb 0x10 sn = do { (nxt, u) \<leftarrow> demo_cb 7 9 t; alarm_next 0x50 nxt u }"
proof -
  obtain s1 where s1: "alt_alarm_start 0x10 0x50 3 7 9 demo_time = Some (0, s1)"
    using armed_start [of demo_time "0x50" "0x10" 3 7 9] by auto
  note f = alarm_fires_exactly [of demo_time "0x50" "0x10" 3 7 9 0 s1 demo_cb, simplified, OF s1]
  then show ?thesis using s1 by fastforce
qed

text \<open>
  The longest interval is the shortest: an alarm set for 2 ^ 32 - 1 ticks gets the current
  tick as its time without the rollover mark, and fires at the very next tick (unless that one
  wraps the counter).
\<close>

theorem alarm_longest_fires_at_once:
  assumes "tick_rate s \<noteq> 0" "a \<noteq> 0" "a \<noteq> al" "ring (links s) al []" "nticks s \<noteq> - 1"
  shows "\<exists>s1 t. alt_alarm_start al a (- 1) cb cx s = Some (0, s1) \<and> nticks t = nticks s + 1 \<and>
     alt_tick C al s1 = do { (nxt, u) \<leftarrow> C cb cx t; alarm_next a nxt u }"
proof -
  have r: "ring (alt_llist_insert al a (links s)) al [a]"
    using ring_insert [OF assms(4)] assms(3) by auto
  have "nticks s < - 1" using assms(5) by (simp add: order_less_le)
  then have le: "nticks s \<le> nticks s + 1"
    by (simp add: word_le_nat_alt unat_plus_one_less [of _ "- 1"])
  define s1 where "s1 = upd_alarm a (\<lambda>r. r\<lparr>al_callback := cb, al_context := cx, al_time := nticks s,
     al_rollover := 0\<rparr>) s\<lparr>links := alt_llist_insert al a (links s)\<rparr>"
  have st: "alt_alarm_start al a (- 1) cb cx s = Some (0, s1)"
    using assms(1,2) by (simp add: alt_alarm_start_def alt_ticks_per_second_def alt_nticks_def
        prog_defs Let_def upd_alarm_def s1_def)
  have al: "alarms s1 a = \<lparr>al_time = nticks s, al_callback = cb, al_rollover = 0, al_context = cx\<rparr>"
    "ring (links s1) al [a]" "nticks s1 = nticks s"
    using r by (simp_all add: s1_def upd_alarm_def alt_alarm.defs)
  have "alt_tick C al s1 = do { (nxt, u) \<leftarrow> C cb cx (s1\<lparr>nticks := nticks s1 + 1\<rparr>); alarm_next a nxt u }"
    using al le by (simp add: alt_tick_single tick_alarm_def Let_def alarm_due_def)
  moreover have "nticks (s1\<lparr>nticks := nticks s1 + 1\<rparr>) = nticks s + 1" using al(3) by simp
  ultimately show ?thesis using st by blast
qed

theorem alarm_longest_fires_at_once_witness:
  "\<exists>s1 t. alt_alarm_start 0x10 0x50 (- 1) 7 9 demo_time = Some (0, s1) \<and> nticks t = - 1 \<and>
     alt_tick demo_cb 0x10 s1 = do { (nxt, u) \<leftarrow> demo_cb 7 9 t; alarm_next 0x50 nxt u }"
  using alarm_longest_fires_at_once [of demo_time "0x50" "0x10" 7 9 demo_cb] by simp

section \<open>The timer interrupt\<close>

text \<open>
  The timer's interrupt routine acknowledges the timeout first (a write of 0 to the status
  register, then a read of the control register), then counts exactly one tick, with
  interrupts disabled while the alarms run, and restores the interrupt state; with no alarm
  registered it always returns.
\<close>

theorem timer_irq_counts_one_tick:
  assumes "ring (links s) al []"
  shows "\<exists>s' v. alt_avalon_timer_sc_irq B C al base s = Some ((), s') \<and> nticks s' = nticks s + 1 \<and>
     trace s' = trace s @ [Wr base 0, Rd (base + 4) v] \<and> cpu_status s' = cpu_status s"
proof -
  have n: "ll_next (links s) al = al" using assms by (simp add: ring_def)
  show ?thesis
    by (simp add: alt_avalon_timer_sc_irq_def alt_tick_def prog_defs Let_def n tick_loop.simps)
qed

definition quiet_bus :: "unit bus" where
  "quiet_bus = \<lparr>bus_rd = (\<lambda>_ h. (0, h)), bus_wr = (\<lambda>_ _ h. h), bus_delay = (\<lambda>_ h. h)\<rparr>"

theorem timer_irq_counts_one_tick_witness:
  "\<exists>s'. alt_avalon_timer_sc_irq quiet_bus (\<lambda>_ _ _. None) 0x10 0x20080 demo_time = Some ((), s') \<and>
     nticks s' = - 1"
  using timer_irq_counts_one_tick [of demo_time "0x10" quiet_bus "\<lambda>_ _ _. None" "0x20080"] by auto

section \<open>The wall clock\<close>

lemma carry_up_normal:
  "0 \<le> usec \<Longrightarrow> carry_up sec usec = (sec', usec') \<Longrightarrow>
   sec' * 1000000 + usec' = sec * 1000000 + usec \<and> 0 \<le> usec' \<and> usec' < 1000000"
proof (induction sec usec rule: carry_up.induct)
  case (1 sec usec)
  show ?case
  proof (cases "usec \<ge> 1000000")
    case True
    then have "carry_up (sec + 1) (usec - 1000000) = (sec', usec')"
      using 1(3) by (subst (asm) carry_up.simps) simp
    with 1(1) True show ?thesis by auto
  next
    case False
    then show ?thesis using 1(2,3) by (subst (asm) carry_up.simps) auto
  qed
qed

lemma carry_down_normal:
  "0 \<le> sec * 1000000 + usec \<Longrightarrow> carry_down sec usec = (sec', usec') \<Longrightarrow>
   sec' * 1000000 + usec' = sec * 1000000 + usec \<and> 0 \<le> usec'"
proof (induction sec usec rule: carry_down.induct)
  case (1 sec usec)
  show ?case
  proof (cases "usec < 0")
    case True
    then have "\<not> sec \<le> 0" using 1(2) by auto
    with True have "carry_down (sec - 1) (usec + 1000000) = (sec', usec')"
      using 1(3) by (subst (asm) carry_down.simps) simp
    with 1(1) True \<open>\<not> sec \<le> 0\<close> 1(2) show ?thesis by auto
  next
    case False
    then show ?thesis using 1(3) by (subst (asm) carry_down.simps) auto
  qed
qed

text \<open>Both loops: exact, but for a time before the epoch with negative microseconds, which becomes 0.\<close>

lemma carry_down_clamps:
  "usec < 0 \<Longrightarrow> sec * 1000000 + usec < 0 \<Longrightarrow> carry_down sec usec = (0, 0)"
proof (induction sec usec rule: carry_down.induct)
  case (1 sec usec)
  show ?case
  proof (cases "sec \<le> 0")
    case True
    then show ?thesis using 1(2) by (subst carry_down.simps) simp
  next
    case False
    then have "usec + 1000000 < 0" using 1(3) by simp
    then show ?thesis using 1(1) 1(2,3) False by (subst carry_down.simps) simp
  qed
qed

lemma carry_normal:
  assumes "carry_down sec usec = (a, b)" "carry_up a b = (c, d)"
  shows "0 \<le> d \<and> d < 1000000 \<and>
    c * 1000000 + d = (if usec < 0 \<and> sec * 1000000 + usec < 0 then 0 else sec * 1000000 + usec)"
proof (cases "usec < 0 \<and> sec * 1000000 + usec < 0")
  case True
  then have "a = 0" "b = 0" using carry_down_clamps assms(1) by simp_all
  then show ?thesis using assms(2) True by (simp add: carry_up.simps)
next
  case False
  have "a * 1000000 + b = sec * 1000000 + usec \<and> 0 \<le> b"
  proof (cases "usec < 0")
    case True
    then show ?thesis using False carry_down_normal [OF _ assms(1)] by simp
  next
    case pos: False
    then have "carry_down sec usec = (sec, usec)" by (subst carry_down.simps) simp
    then show ?thesis using assms(1) pos by simp
  qed
  then show ?thesis using carry_up_normal [OF _ assms(2)] False by auto
qed

text \<open>The microseconds that the two functions compute from the ticks.\<close>

lemma usec32: "unat ((a * b) mod 1000000 :: u32) = (unat a * unat b) mod 2 ^ 32 mod 1000000"
  by (simp add: unat_mod unat_word_ariths(2))

lemma unat_up: "unat (ucast (w :: u32) :: u64) = unat w"
  by (simp add: unsigned_ucast_eq take_bit_nat_eq_self_iff order_less_trans [OF unsigned_less])

lemma usec64:
  "unat (ucast ((ucast a * ucast b :: u64) mod 1000000) :: u32) = (unat (a :: u32) * unat (b :: u32)) mod 1000000"
proof -
  have "unat a < 2 ^ 32" "unat b < 2 ^ 32" using unsigned_less [of a] unsigned_less [of b] by simp_all
  then have "unat a * unat b < 2 ^ 64" using mult_strict_mono' [of "unat a" "2 ^ 32" "unat b" "2 ^ 32"] by simp
  then have "unat (ucast a * ucast b :: u64) = unat a * unat b"
    by (simp add: unat_word_ariths(2) unat_up)
  then have m: "unat ((ucast a * ucast b :: u64) mod 1000000) = (unat a * unat b) mod 1000000"
    by (simp add: unat_mod)
  have "(unat a * unat b) mod 1000000 < 1000000" by simp
  with m show ?thesis by (simp add: unsigned_ucast_eq take_bit_nat_eq_self_iff)
qed

lemma to_long_inv [simp]: "word_of_int (to_long w) = w"
  by (simp add: to_long_def)

lemma to_long_word: "0 \<le> i \<Longrightarrow> i < 2 ^ 31 \<Longrightarrow> to_long (word_of_int i) = i"
  unfolding to_long_def
  by (subst sint_u32_small) (simp_all add: uint_word_of_int take_bit_int_eq_self)

lemma to_long_signed: "- (2 ^ 31) \<le> i \<Longrightarrow> i < 2 ^ 31 \<Longrightarrow> to_long (word_of_int i) = i"
  unfolding to_long_def by transfer (simp add: signed_take_bit_int_eq_self)

lemma carry_done: "0 \<le> usec \<Longrightarrow> usec < 1000000 \<Longrightarrow>
   carry_down sec usec = (sec, usec) \<and> carry_up sec usec = (sec, usec)"
  by (simp add: carry_down.simps [of sec usec] carry_up.simps [of sec usec])

text \<open>
  Setting the clock and reading it at the same tick gives back the time and the time zone
  that were set, as long as the microseconds since reset fit 32 bits (71 minutes at 1000 ticks
  per second).
\<close>

theorem settimeofday_round_trip:
  assumes "tick_rate s \<noteq> 0" "unat (nticks s) * (1000000 div unat (tick_rate s)) < 2 ^ 32"
    and "0 \<le> sec" "sec < 2 ^ 31" "0 \<le> usec" "usec < 1000000"
  shows "\<exists>s'. ALT_SETTIMEOFDAY \<lparr>tv_sec = sec, tv_usec = usec\<rparr> tz s = Some (0, s') \<and>
     ALT_GETTIMEOFDAY s' = (0, Some (\<lparr>tv_sec = sec, tv_usec = usec\<rparr>, tz))"
proof -
  have d: "unat (ALT_US div tick_rate s) = 1000000 div unat (tick_rate s)" by (simp add: unat_div)
  have eq: "ucast ((ucast (nticks s) * ucast (ALT_US div tick_rate s) :: u64) mod 1000000)
      = (nticks s * (ALT_US div tick_rate s)) mod ALT_US"
    by (rule word_unat_eq_iff [THEN iffD2]) (use assms(2) in \<open>simp only: usec32 usec64 d, simp\<close>)
  show ?thesis
    using assms(1,3-6)
    by (simp add: ALT_SETTIMEOFDAY_def ALT_GETTIMEOFDAY_def alt_nticks_def alt_ticks_per_second_def
          Let_def eq to_long_word carry_done)
qed

theorem settimeofday_round_trip_witness:
  "\<exists>s'. ALT_SETTIMEOFDAY \<lparr>tv_sec = 1700000000, tv_usec = 5\<rparr> (60, 0) (demo_time\<lparr>nticks := 4294967\<rparr>) = Some (0, s') \<and>
     ALT_GETTIMEOFDAY s' = (0, Some (\<lparr>tv_sec = 1700000000, tv_usec = 5\<rparr>, (60, 0)))"
  using settimeofday_round_trip [of "demo_time\<lparr>nticks := 4294967\<rparr>" 1700000000 5 "(60, 0)"] by simp

text \<open>
  Past that point the clock is set wrong: settimeofday multiplies ticks by microseconds in
  32 bits where gettimeofday uses 64.  At tick 4294968 of the 1000 Hz clock (71 minutes and 35
  seconds after reset) a time set to 100 s reads back as 100.967296 s.
\<close>

theorem settimeofday_overflow:
  assumes "tick_rate s = 1000" "nticks s = 4294968"
  shows "\<exists>s'. ALT_SETTIMEOFDAY \<lparr>tv_sec = 100, tv_usec = 0\<rparr> tz s = Some (0, s') \<and>
     ALT_GETTIMEOFDAY s' = (0, Some (\<lparr>tv_sec = 100, tv_usec = 967296\<rparr>, tz))"
proof -
  have x: "(4294968 * 1000 :: u32) mod 1000000 = 704" by simp
  have y: "(ucast ((ucast (4294968 :: u32) * ucast (1000 :: u32) :: u64) mod 1000000) :: u32) = 968000"
    by simp
  have "to_long 967296 = 967296" using to_long_word [of 967296] by simp
  moreover have "to_long 100 = 100" using to_long_word [of 100] by simp
  ultimately show ?thesis
    using assms
    by (simp add: ALT_SETTIMEOFDAY_def ALT_GETTIMEOFDAY_def alt_nticks_def alt_ticks_per_second_def
          Let_def x y carry_done)
qed

theorem settimeofday_overflow_witness:
  "\<exists>s'. ALT_SETTIMEOFDAY \<lparr>tv_sec = 100, tv_usec = 0\<rparr> (0, 0) (demo_time\<lparr>nticks := 4294968\<rparr>) = Some (0, s') \<and>
     ALT_GETTIMEOFDAY s' = (0, Some (\<lparr>tv_sec = 100, tv_usec = 967296\<rparr>, (0, 0)))"
  using settimeofday_overflow [of "demo_time\<lparr>nticks := 4294968\<rparr>" "(0, 0)"] by simp

text \<open>
  C39. The wall clock is exact, also after \<open>settimeofday\<close>, which leaves reset microseconds between
  -999999 and 999999 and may leave negative reset seconds.  With a tick rate that divides a
  million and seconds that stay in range, gettimeofday returns a normalised time (0 to 999999
  microseconds) whose total in microseconds is that of the reset time plus the ticks times
  the tick period; only a total before the epoch whose microseconds add up to less than 0
  becomes the time 0.
\<close>

theorem gettimeofday_exact:
  assumes "tick_rate s \<noteq> 0" "unat (tick_rate s) dvd 1000000"
    and "alt_resettime s = \<lparr>tv_sec = sec, tv_usec = usec\<rparr>"
    and "- (2 ^ 31) \<le> sec" "sec + int (unat (nticks s)) < 2 ^ 31" "-1000000 < usec" "usec < 1000000"
  shows "let ticks_usec = unat (nticks s) * (1000000 div unat (tick_rate s));
             total = sec * 1000000 + usec + int ticks_usec
    in \<exists>sec' usec'. ALT_GETTIMEOFDAY s = (0, Some (\<lparr>tv_sec = sec', tv_usec = usec'\<rparr>, alt_timezone s)) \<and>
       0 \<le> usec' \<and> usec' < 1000000 \<and>
       sec' * 1000000 + usec' = (if total < 0 \<and> usec + int (ticks_usec mod 1000000) < 0 then 0 else total)"
proof -
  let ?n = "unat (nticks s)" and ?r = "unat (tick_rate s)"
  obtain q where q: "1000000 = ?r * q" using assms(2) by (auto simp: dvd_def)
  have r: "0 < ?r" using assms(1) by (simp add: unat_gt_0)
  then have dq: "1000000 div ?r = q" unfolding q by simp
  have split: "?n * q = (?n div ?r) * 1000000 + (?n * q) mod 1000000"
  proof -
    have e: "?n * q = (?n div ?r) * 1000000 + (?n mod ?r) * q"
      unfolding q by (metis (no_types, lifting) add_mult_distrib div_mult_mod_eq mult.assoc)
    have "q \<noteq> 0" using q by (cases q) auto
    moreover have "?n mod ?r < ?r" using r by simp
    ultimately have "(?n mod ?r) * q < ?r * q" by simp
    then have "(?n mod ?r) * q < 1000000" unfolding q .
    then have "(?n * q) mod 1000000 = (?n mod ?r) * q" unfolding e by simp
    with e show ?thesis by simp
  qed
  have nd: "?n div ?r \<le> ?n" by simp
  let ?sec = "sec + int (?n div ?r)" and ?usec = "usec + int ((?n * q) mod 1000000)"
  have s1: "to_long (word_of_int sec + nticks s div tick_rate s) = ?sec"
  proof -
    have "word_of_int sec + nticks s div tick_rate s = (word_of_int ?sec :: u32)"
      by (simp add: unat_div [symmetric])
    moreover have "int (?n div ?r) \<le> int ?n" using nd by (simp only: of_nat_le_iff)
    ultimately show ?thesis using assms(4,5) by (simp only:) (rule to_long_signed, linarith+)
  qed
  have u1: "to_long (word_of_int usec + ucast ((ucast (nticks s) * ucast (ALT_US div tick_rate s) :: u64) mod 1000000))
      = ?usec"
  proof -
    have "ucast ((ucast (nticks s) * ucast (ALT_US div tick_rate s) :: u64) mod 1000000) =
        (of_nat ((?n * q) mod 1000000) :: u32)"
      by (rule word_unat_eq_iff [THEN iffD2])
         (simp only: usec64, simp add: unat_div dq unat_of_nat take_bit_nat_eq_self_iff less_trans [of _ 1000000])
    then have "word_of_int usec + ucast ((ucast (nticks s) * ucast (ALT_US div tick_rate s) :: u64) mod 1000000)
        = (word_of_int ?usec :: u32)" by simp
    moreover have "int ((?n * q) mod 1000000) < 1000000" by simp
    moreover have "0 \<le> int ((?n * q) mod 1000000)" by (rule of_nat_0_le_iff)
    moreover have "(2 :: int) ^ 31 = 2147483648" by simp
    ultimately show ?thesis using assms(6,7) by (simp only:) (rule to_long_signed, linarith+)
  qed
  obtain a b where ab: "carry_down ?sec ?usec = (a, b)" by fastforce
  obtain c d where cd: "carry_up a b = (c, d)" by fastforce
  have "int (?n * q) = int (?n div ?r) * 1000000 + int ((?n * q) mod 1000000)"
    using split by (metis of_nat_add of_nat_mult of_nat_numeral)
  then have t: "?sec * 1000000 + ?usec = sec * 1000000 + usec + int (?n * q)" by (simp add: algebra_simps)
  show ?thesis
    using assms(1,3) carry_normal [OF ab cd] unfolding t
    by (auto simp: ALT_GETTIMEOFDAY_def alt_nticks_def alt_ticks_per_second_def Let_def s1 u1 ab cd dq)
qed

text \<open>
  The time set at tick 2900 of the 1000 Hz clock leaves -899995 microseconds; 200 ticks later
  they are still negative and the loop takes a second back.
\<close>

theorem gettimeofday_exact_witness:
  "\<exists>s'. ALT_SETTIMEOFDAY \<lparr>tv_sec = 100, tv_usec = 5\<rparr> (60, 0) (demo_time\<lparr>nticks := 2900\<rparr>) = Some (0, s') \<and>
     alt_resettime s' = \<lparr>tv_sec = 98, tv_usec = -899995\<rparr> \<and>
     ALT_GETTIMEOFDAY (s'\<lparr>nticks := 3100\<rparr>) = (0, Some (\<lparr>tv_sec = 100, tv_usec = 200005\<rparr>, (60, 0)))"
proof -
  let ?s = "demo_time\<lparr>nticks := 2900, alt_resettime := \<lparr>tv_sec = 98, tv_usec = -899995\<rparr>, alt_timezone := (60, 0)\<rparr>"
  have set: "ALT_SETTIMEOFDAY \<lparr>tv_sec = 100, tv_usec = 5\<rparr> (60, 0) (demo_time\<lparr>nticks := 2900\<rparr>) = Some (0, ?s)"
    by (simp add: ALT_SETTIMEOFDAY_def demo_time_def alt_nticks_def alt_ticks_per_second_def Let_def to_long_def)
  let ?t = "?s\<lparr>nticks := 3100\<rparr>"
  have rate: "tick_rate ?t = 1000" "nticks ?t = 3100" "alt_resettime ?t = \<lparr>tv_sec = 98, tv_usec = -899995\<rparr>"
      "alt_timezone ?t = (60, 0)"
    by (simp_all add: demo_time_def)
  have "(1000 :: nat) dvd 1000000" by simp
  then obtain sec' usec' where get: "ALT_GETTIMEOFDAY ?t = (0, Some (\<lparr>tv_sec = sec', tv_usec = usec'\<rparr>, (60, 0)))"
      "0 \<le> usec'" "usec' < 1000000" "sec' * 1000000 + usec' = 100200005"
    using gettimeofday_exact [OF _ _ rate(3)] unfolding rate(1,2,4) Let_def by auto
  have "sec' < 101" "99 < sec'" using get(2-4) by linarith+
  then have "sec' = 100" by simp
  with get set show ?thesis by simp
qed

section \<open>The delay loop\<close>

lemma bne_passes_eq: "bne_passes r = (if r = 0 then 2 ^ 32 else unat r)"
proof (induction "unat (r - 1)" arbitrary: r rule: less_induct)
  case less
  show ?case
  proof (cases "r - 1 = 0")
    case True
    then have "r = 1" by simp
    then show ?thesis by (simp add: bne_passes.simps)
  next
    case False
    then have "unat (r - 1 - 1) < unat (r - 1)" by (rule unat_minus_one_less)
    with False have "bne_passes r = Suc (unat (r - 1))"
      using less by (subst bne_passes.simps) simp
    moreover have "unat (r - 1) = (if r = 0 then 2 ^ 32 - 1 else unat r - 1)"
      by (simp add: unat_minus_one unsigned_minus_1_eq_mask mask_eq_exp_minus_1)
    moreover have "r \<noteq> 0 \<Longrightarrow> 0 < unat r" by (simp add: unat_gt_0)
    ultimately show ?thesis by auto
  qed
qed

lemma sless_small: "unat (w :: u32) < 2 ^ 31 \<Longrightarrow> 0 <s w \<longleftrightarrow> w \<noteq> 0"
proof -
  assume "unat w < 2 ^ 31"
  then have "int (unat w) < int (2 ^ 31)" by (simp only: of_nat_less_iff)
  then have "uint w < 2 ^ 31" by simp
  moreover have "0 < uint w \<longleftrightarrow> w \<noteq> 0"
    using uint_ge_0 [of w] by (auto simp: order_less_le uint_0_iff)
  ultimately show ?thesis by (simp add: word_sless_alt sint_u32_small)
qed

lemma bgt_passes_eq: "0 < unat r \<Longrightarrow> unat r < 2 ^ 31 \<Longrightarrow> bgt_passes r = unat r"
proof (induction "unat r" arbitrary: r rule: less_induct)
  case less
  have m: "unat (r - 1) = unat r - 1" using less.prems by (simp add: unat_minus_one unat_gt_0)
  then have "0 <s r - 1 \<longleftrightarrow> r - 1 \<noteq> 0" using less.prems by (intro sless_small) simp
  moreover have "r - 1 \<noteq> 0 \<longleftrightarrow> 0 < unat r - 1" using m by (metis unat_gt_0)
  ultimately show ?case
    using less.hyps [of "r - 1"] less.prems m by (subst bgt_passes.simps) auto
qed

text \<open>
  The calibrated delay is four percent short: below the threshold of the big loops the
  delay for us microseconds makes 16 passes of three cycles for each (one pass for zero),
  48 cycles where the 50 MHz clock has 50.
\<close>

theorem busy_sleep_length:
  assumes "us < 134217727"
  shows "busy_passes us = max 1 (16 * unat us) \<and>
     (us \<noteq> 0 \<longrightarrow> 3 * busy_passes us = 48 * unat us \<and> 3 * busy_passes us < 50 * unat us)"
proof -
  have l: "unat us < 134217727" using assms by (simp add: word_less_nat_alt)
  have "us div 134217727 = 0" using assms by (simp add: word_less_nat_alt word_unat_eq_iff unat_div)
  then have b: "busy_passes us = bgt_passes (us * 16)" by (simp add: busy_passes_def Let_def)
  have u: "unat (us * 16) = 16 * unat us" using l by (simp add: unat_word_ariths(2))
  show ?thesis
  proof (cases "us = 0")
    case True
    then show ?thesis using b by (simp add: bgt_passes.simps [of 0] word_sless_alt)
  next
    case False
    then have "0 < unat us" by (simp add: unat_gt_0)
    with b u l bgt_passes_eq [of "us * 16"] show ?thesis by simp
  qed
qed

theorem busy_sleep_length_witness: "busy_passes 10000 = 160000"
  using busy_sleep_length [of 10000] by simp

text \<open>
  At the threshold the delay is three times too long: for 134217727 microseconds nothing is
  left after the big loop, but the closing loop counts down from 0 and makes 2 ^ 32 passes.
\<close>

theorem busy_sleep_residue_zero: "busy_passes 134217727 = (2 ^ 31 - 1) + 2 ^ 32"
  by (simp add: busy_passes_def Let_def bne_passes_eq)

section \<open>The heap\<close>

lemma unat_align: "unat (w AND NOT (3 :: u32)) = unat w - unat w mod 4"
proof -
  have "w AND 3 = take_bit 2 w" by (simp add: take_bit_eq_mask mask_eq_exp_minus_1)
  then have m: "unat (w AND 3) = unat w mod 4" by (simp add: take_bit_eq_mod unat_mod)
  have "(w AND 3) + (w AND NOT 3) = w"
    using word_plus_and_or [of "w AND 3" "w AND NOT 3"]
    by (simp add: and.assoc and.left_commute [of 3] bit.conj_disj_distrib [symmetric])
  then have "w AND NOT 3 = w - (w AND 3)" by (simp add: algebra_simps)
  moreover have "w AND 3 \<le> w" by (simp add: word_le_nat_alt m)
  ultimately show ?thesis by (simp add: unat_sub m)
qed

text \<open>One call of \<open>sbrk\<close> with a size that is not negative.\<close>

lemma sbrk_once:
  assumes "unat limit < 2 ^ 30" "unat (heap_end s) < 2 ^ 30" "unat n < 2 ^ 31"
    and "ALT_SBRK limit n s = Some (p, s')" "p \<noteq> - 1"
  shows "unat (heap_end s) \<le> unat p \<and> unat p mod 4 = 0 \<and> unat (heap_end s') = unat p + unat n \<and>
     unat p + unat n \<le> unat limit \<and> cpu_status s' = cpu_status s"
proof -
  let ?p = "(heap_end s + 3) AND NOT 3"
  have p: "p = ?p" "heap_end s' = ?p + n" "\<not> limit < ?p + n" "cpu_status s' = cpu_status s"
    using assms(4,5) by (auto simp: ALT_SBRK_def prog_defs Let_def split: if_splits)
  have h3: "unat (heap_end s + 3) = unat (heap_end s) + 3"
    using assms(2) by (simp add: unat_word_ariths(1))
  then have u: "unat ?p = unat (heap_end s) + 3 - (unat (heap_end s) + 3) mod 4"
    by (simp only: unat_align)
  then have b: "unat ?p \<le> unat (heap_end s) + 3" "unat (heap_end s) \<le> unat ?p" "unat ?p mod 4 = 0"
    by (presburger+)
  have "unat ?p + unat n < 2 ^ 32" using b(1) assms(2,3) by simp
  then have "unat (?p + n) = unat ?p + unat n" by (simp add: unat_word_ariths(1))
  with p b show ?thesis by (simp add: not_less word_le_nat_alt)
qed

text \<open>
  Two blocks that sbrk hands out never overlap: for sizes that are not negative, both
  start on a word boundary, the second begins at or after the end of the first, and both end
  below the limit.
\<close>

theorem sbrk_blocks_disjoint:
  assumes "unat limit < 2 ^ 30" "unat (heap_end s) < 2 ^ 30" "unat n1 < 2 ^ 31" "unat n2 < 2 ^ 31"
    and "ALT_SBRK limit n1 s = Some (p1, s1)" "p1 \<noteq> - 1"
    and "ALT_SBRK limit n2 s1 = Some (p2, s2)" "p2 \<noteq> - 1"
  shows "unat (heap_end s) \<le> unat p1 \<and> unat p1 + unat n1 \<le> unat p2 \<and>
     unat p2 + unat n2 \<le> unat limit \<and> unat p1 mod 4 = 0 \<and> unat p2 mod 4 = 0 \<and>
     cpu_status s2 = cpu_status s"
proof -
  note a = sbrk_once [OF assms(1-3,5,6)]
  then have "unat (heap_end s1) < 2 ^ 30" using assms(1) by linarith
  from a sbrk_once [OF assms(1) this assms(4,7,8)] show ?thesis by simp
qed

theorem sbrk_blocks_disjoint_witness:
  "\<exists>s1 s2. ALT_SBRK 0x8000 10 demo_time = Some (0x1004, s1) \<and> ALT_SBRK 0x8000 20 s1 = Some (0x1010, s2)"
proof -
  obtain s1 where s1: "ALT_SBRK 0x8000 10 demo_time = Some (0x1004, s1)" "heap_end s1 = 0x100E"
    by (simp add: ALT_SBRK_def prog_defs)
  then obtain s2 where s2: "ALT_SBRK 0x8000 20 s1 = Some (0x1010, s2)"
    by (simp add: ALT_SBRK_def prog_defs Let_def)
  from sbrk_blocks_disjoint [OF _ _ _ _ s1(1) _ s2(1)] s1 s2 show ?thesis by auto
qed

end
