(* ===== verification/App_Common.thy ===== *)
theory App_Common
  imports Complex_Main I2C_Init HAL_Time
begin

text \<open>
  The video application (\<open>nios_software/video_app2\<close>): what its files share.  This theory holds the
  state of the program, the platform it runs on, \<open>common.c\<close> and the flush of the data cache
  (\<open>HAL/src/alt_dcache_flush_all.c\<close>).

  The platform is a parameter: the bus, the effect of the cache instruction \<open>flushd\<close>, the
  interrupts taken at a program point, the devices of the HAL, the addresses the linker chose,
  and the function \<open>pow\<close> of newlib.  A C object that hardware also sees (the frame buffer, the
  buffers of the DMA tests) is accessed through the bus, word by word, at its C address; the data
  cache is part of the bus.  \<open>printf\<close> appends its format (line feeds left out) and its
  arguments to \<open>console\<close>.
\<close>

section \<open>State and platform\<close>

datatype printf_arg = PInt int | PStr string | PReal real

record 'h app_st = "'h i2c_st" +
  hdmi_i2c_dev :: u32
  gamma_en :: bool
  dma_mode_active :: bool
  cont_active :: bool
  console :: "(string \<times> printf_arg list) list"

record ('h, 's) platform =
  pf_bus :: "'h bus"
  pf_flushd :: "u32 \<Rightarrow> 'h \<Rightarrow> 'h"
  pf_irq :: "(unit, 's) prog"
  pf_env :: "'s hal_env"
  pf_i2c_list :: u32
  pf_i2c_name :: u32
  pf_ocm :: u32
  pf_stack :: u32
  pf_pow :: "real \<Rightarrow> real \<Rightarrow> real"

text \<open>\<open>system.h\<close>, \<open>common.h\<close> and \<open>hdmi_control.h\<close>.\<close>

abbreviation (input) CACHE_BYPASS_MASK :: u32 where "CACHE_BYPASS_MASK \<equiv> 0x80000000"
abbreviation (input) WINDOWED_SLAVE_BASE :: u32 where "WINDOWED_SLAVE_BASE \<equiv> 0x8000000"
abbreviation (input) WINDOWED_SLAVE_SPAN :: u32 where "WINDOWED_SLAVE_SPAN \<equiv> 134217728"
abbreviation (input) SPAN_CNTL_BASE :: u32 where "SPAN_CNTL_BASE \<equiv> 0x20008"
abbreviation (input) JTAG_UART_BASE :: u32 where "JTAG_UART_BASE \<equiv> 0x20000"
abbreviation (input) PLL_LOCKED_BASE :: u32 where "PLL_LOCKED_BASE \<equiv> 0x20010"
abbreviation (input) HDMI_SYNC_GEN_BASE :: u32 where "HDMI_SYNC_GEN_BASE \<equiv> 0x20020"
abbreviation (input) TIMER_0_BASE :: u32 where "TIMER_0_BASE \<equiv> 0x20080"
abbreviation (input) BURST_MASTER_0_BASE :: u32 where "BURST_MASTER_0_BASE \<equiv> 0x200a0"
abbreviation (input) BURST_MASTER_4_0_BASE :: u32 where "BURST_MASTER_4_0_BASE \<equiv> 0x200c0"

definition DDR3_WINDOW_BASE :: u32 where
  "DDR3_WINDOW_BASE = WINDOWED_SLAVE_BASE OR CACHE_BYPASS_MASK"

lemma DDR3_WINDOW_BASE_eq [simp]: "DDR3_WINDOW_BASE = 0x88000000"
  by (simp add: DDR3_WINDOW_BASE_def)

section \<open>Console and memory\<close>

definition printf :: "string \<Rightarrow> printf_arg list \<Rightarrow> (unit, ('h, 'x) app_st_scheme) prog" where
  "printf fmt args s = Some ((), s\<lparr>console := console s @ [(fmt, args)]\<rparr>)"

text \<open>\<open>p[i] = v\<close> and \<open>p[i]\<close> for a pointer to 32-bit words.\<close>

definition store_word :: "('h, 's) platform \<Rightarrow> u32 \<Rightarrow> u32 \<Rightarrow> u32 \<Rightarrow> (unit, ('h, 'x) app_st_scheme) prog" where
  "store_word P p i v s = IOWR_32DIRECT (pf_bus P) p (i * 4) v s"

definition load_word :: "('h, 's) platform \<Rightarrow> u32 \<Rightarrow> u32 \<Rightarrow> (u32, ('h, 'x) app_st_scheme) prog" where
  "load_word P p i s = IORD_32DIRECT (pf_bus P) p (i * 4) s"

lemma printf_eq [simp]: "printf fmt args s = Some ((), s\<lparr>console := console s @ [(fmt, args)]\<rparr>)"
  by (simp add: printf_def)

text \<open>A run of \<open>printf\<close> calls without arguments.\<close>

fun print_lines :: "string list \<Rightarrow> (unit, ('h, 'x) app_st_scheme) prog" where
  "print_lines [] s = Some ((), s)"
| "print_lines (l # ls) s = do { (_, s) \<leftarrow> printf l [] s; print_lines ls s }"

lemma print_lines_eq [simp]:
  "print_lines ls s = Some ((), s\<lparr>console := console s @ map (\<lambda>l. (l, [])) ls\<rparr>)"
  by (induction ls arbitrary: s) simp_all

text \<open>A counting loop \<open>for (i = a; i < b; i++) body\<close> over programs without a result.\<close>

function for_up :: "nat \<Rightarrow> nat \<Rightarrow> (nat \<Rightarrow> (unit, 's) prog) \<Rightarrow> (unit, 's) prog" where
  "for_up a b body s =
     (if a < b then do { (_, s) \<leftarrow> body a s; for_up (Suc a) b body s } else Some ((), s))"
  by pat_completeness auto
termination by (relation "measure (\<lambda>(a, b, _). b - a)") auto

declare for_up.simps [simp del]

lemma for_up_done: "\<not> a < b \<Longrightarrow> for_up a b body s = Some ((), s)"
  by (subst for_up.simps) simp

lemma for_up_step: "a < b \<Longrightarrow> for_up a b body s = do { (_, s) \<leftarrow> body a s; for_up (Suc a) b body s }"
  by (subst for_up.simps) simp

text \<open>Invariant rules for the counting loop, total and partial.\<close>

lemma for_up_wp:
  assumes "\<And>i s. a \<le> i \<Longrightarrow> i < b \<Longrightarrow> I i s \<Longrightarrow> wp (body i s) (\<lambda>_. I (Suc i))"
  shows "a \<le> b \<Longrightarrow> I a s \<Longrightarrow> wp (for_up a b body s) (\<lambda>_. I b)"
  using assms
proof (induction "b - a" arbitrary: a s)
  case 0
  then show ?case by (simp add: for_up_done)
next
  case (Suc n)
  then have lt: "a < b" by simp
  have "wp (for_up (Suc a) b body s') (\<lambda>_. I b)" if "I (Suc a) s'" for s'
    using Suc.hyps(2) lt that by (intro Suc.hyps(1)) (auto intro: Suc.prems(3))
  then show ?case
    using wp_mono [OF Suc.prems(3) [OF order_refl lt Suc.prems(2)]]
    by (simp add: for_up_step [OF lt])
qed

lemma for_up_wlp:
  assumes "\<And>i s. a \<le> i \<Longrightarrow> i < b \<Longrightarrow> I i s \<Longrightarrow> wlp (body i s) (\<lambda>_. I (Suc i))"
  shows "a \<le> b \<Longrightarrow> I a s \<Longrightarrow> wlp (for_up a b body s) (\<lambda>_. I b)"
  using assms
proof (induction "b - a" arbitrary: a s)
  case 0
  then show ?case by (simp add: for_up_done)
next
  case (Suc n)
  then have lt: "a < b" by simp
  have "wlp (for_up (Suc a) b body s') (\<lambda>_. I b)" if "I (Suc a) s'" for s'
    using Suc.hyps(2) lt that by (intro Suc.hyps(1)) (auto intro: Suc.prems(3))
  then show ?case
    using wlp_mono [OF Suc.prems(3) [OF order_refl lt Suc.prems(2)]]
    by (simp add: for_up_step [OF lt])
qed

section \<open>The data cache\<close>

text \<open>\<open>NIOS2_DCACHE_SIZE\<close> is 2048, \<open>NIOS2_DCACHE_LINE_SIZE\<close> 32.\<close>

function flush_lines :: "('h, 's) platform \<Rightarrow> u32 \<Rightarrow> (unit, ('h, 'x) mach_scheme) prog" where
  "flush_lines P i s =
     (if i < 2048 then flush_lines P (i + 32) (s\<lparr>hw := pf_flushd P i (hw s)\<rparr>)
      else Some ((), s))"
  by pat_completeness auto
termination
  by (relation "measure (\<lambda>(_, i, _). 2048 - unat i)")
     (auto simp: word_less_nat_alt unat_word_ariths)

declare flush_lines.simps [simp del]

definition alt_dcache_flush_all :: "('h, 's) platform \<Rightarrow> (unit, ('h, 'x) mach_scheme) prog" where
  "alt_dcache_flush_all P s = flush_lines P 0 s"

lemma flush_lines_returns: "\<exists>h. flush_lines P i s = Some ((), s\<lparr>hw := h\<rparr>)"
proof (induction P i s rule: flush_lines.induct)
  case (1 P i s)
  show ?case
  proof (cases "i < 2048")
    case True
    with 1 show ?thesis by (subst flush_lines.simps) auto
  next
    case False
    then have "flush_lines P i s = Some ((), s\<lparr>hw := hw s\<rparr>)" by (subst flush_lines.simps) simp
    then show ?thesis by blast
  qed
qed

lemma flush_lines_keeps:
  "J (hw s) \<Longrightarrow> (\<And>i h. J h \<Longrightarrow> J (pf_flushd P i h)) \<Longrightarrow>
     \<exists>h. flush_lines P i s = Some ((), s\<lparr>hw := h\<rparr>) \<and> J h"
proof (induction P i s rule: flush_lines.induct)
  case (1 P i s)
  show ?case
  proof (cases "i < 2048")
    case True
    with "1.IH" "1.prems" show ?thesis by (subst flush_lines.simps) auto
  next
    case False
    then have "flush_lines P i s = Some ((), s\<lparr>hw := hw s\<rparr>)" by (subst flush_lines.simps) simp
    then show ?thesis using "1.prems"(1) by blast
  qed
qed

section \<open>common.c\<close>

text \<open>\<open>ALTERA_AVALON_JTAG_UART_DATA_RVALID_MSK\<close> is bit 15, \<open>_DATA_MSK\<close> the low byte.\<close>

partial_function (option) get_char_polled :: "('h, 's) platform \<Rightarrow> (u8, ('h, 'x) app_st_scheme) prog" where
  "get_char_polled P s = do {
     (data, s) \<leftarrow> IORD (pf_bus P) JTAG_UART_BASE 0 s;
     (if data AND 0x8000 \<noteq> 0 then Some (ucast (data AND 0xFF), s) else get_char_polled P s)
   }"

definition get_char_async :: "('h, 's) platform \<Rightarrow> (u8, ('h, 'x) app_st_scheme) prog" where
  "get_char_async P s = do {
     (data, s) \<leftarrow> IORD (pf_bus P) JTAG_UART_BASE 0 s;
     Some (if data AND 0x8000 \<noteq> 0 then ucast (data AND 0xFF) else 0, s)
   }"

text \<open>
  One pass of the loop of \<open>get_total_cycles\<close>: \<open>t1\<close>, the snapshot, \<open>t2\<close>.  Interrupts are taken
  between its accesses, where they can change \<open>alt_nticks()\<close>; register 4 is \<open>SNAPL\<close>, register 5
  is \<open>SNAPH\<close>.
\<close>

definition cycles_pass ::
  "('h, ('h, 'x) app_st_scheme) platform \<Rightarrow> (u32 \<times> u32 \<times> u32, ('h, 'x) app_st_scheme) prog" where
  "cycles_pass P s = do {
     let t1 = alt_nticks s;
     (_, s) \<leftarrow> pf_irq P s;
     (_, s) \<leftarrow> IOWR (pf_bus P) TIMER_0_BASE 4 0 s;
     (_, s) \<leftarrow> pf_irq P s;
     (low, s) \<leftarrow> IORD (pf_bus P) TIMER_0_BASE 4 s;
     (_, s) \<leftarrow> pf_irq P s;
     (high, s) \<leftarrow> IORD (pf_bus P) TIMER_0_BASE 5 s;
     let snap = push_bit 16 high OR low;
     (_, s) \<leftarrow> pf_irq P s;
     let t2 = alt_nticks s;
     Some ((t1, snap, t2), s)
   }"

partial_function (option) cycles_loop ::
  "('h, ('h, 'x) app_st_scheme) platform \<Rightarrow> (u32 \<times> u32, ('h, 'x) app_st_scheme) prog" where
  "cycles_loop P s = do {
     ((t1, snap, t2), s) \<leftarrow> cycles_pass P s;
     (if t1 \<noteq> t2 then cycles_loop P s else Some ((t1, snap), s))
   }"

definition get_total_cycles :: "('h, ('h, 'x) app_st_scheme) platform \<Rightarrow> (u64, ('h, 'x) app_st_scheme) prog" where
  "get_total_cycles P s = do {
     ((t1, snap), s) \<leftarrow> cycles_loop P s;
     let cycles = (ucast t1 :: u64) * 50000;
     let cycles = cycles + ucast (49999 - snap);
     Some (cycles, s)
   }"

end
