(* ===== verification/App_HDMI.thy ===== *)
theory App_HDMI
  imports App_Common
begin

text \<open>
  \<open>hdmi_config.c\<close> (the ADV7513 transmitter over I2C) and \<open>hdmi_control.c\<close> (frame buffer, test
  patterns, gamma tables, DMA control and the submenus) of the video application.

  The gamma tables are computed in C with \<open>double\<close>; the model uses exact real numbers and a
  parameter for \<open>pow\<close>.
\<close>

section \<open>hdmi_config.c\<close>

abbreviation (input) ADV7513_ADDR :: u32 where "ADV7513_ADDR \<equiv> 0x39"

text \<open>\<open>pf_stack\<close> is the address of the local \<open>buffer[2]\<close>; a null handle has no defined result.\<close>

definition hdmi_i2c_write ::
  "('h, ('h, 'x) app_st_scheme) platform \<Rightarrow> u8 \<Rightarrow> u8 \<Rightarrow> (unit, ('h, 'x) app_st_scheme) prog" where
  "hdmi_i2c_write P reg data s =
     (if hdmi_i2c_dev s = 0 then None
      else do {
        let s = s\<lparr>bytes := (bytes s)(pf_stack P := reg)\<rparr>;
        let s = s\<lparr>bytes := (bytes s)(pf_stack P + 1 := data)\<rparr>;
        (_, s) \<leftarrow> alt_avalon_i2c_master_target_set ADV7513_ADDR s;
        (_, s) \<leftarrow> alt_avalon_i2c_master_tx (pf_bus P) (pf_stack P) 2 0 s;
        Some ((), s)
      })"

function pll_wait :: "('h, 's) platform \<Rightarrow> u32 \<Rightarrow> (bool, ('h, 'x) app_st_scheme) prog" where
  "pll_wait P timeout s = do {
     (v, s) \<leftarrow> IORD (pf_bus P) PLL_LOCKED_BASE 0 s;
     (if v \<noteq> 0 then Some (True, s)
      else do {
        (_, s) \<leftarrow> ALT_USLEEP (pf_bus P) 1000 s;
        (if timeout - 1 = 0 then do {
           (_, s) \<leftarrow> printf ''Error: PLL Lock Timeout! Check Clock settings.'' [] s;
           Some (False, s)
         } else pll_wait P (timeout - 1) s)
      })
   }"
  by pat_completeness auto
termination
  by (relation "measure (\<lambda>(_, t, _). unat (t - 1))") (auto intro: unat_minus_two_less)

declare pll_wait.simps [simp del]

definition adv7513_init_sequence :: "(u8 \<times> u8) list" where
  "adv7513_init_sequence =
     [(0x41, 0x10), (0x16, 0x00), (0xAF, 0x06), (0x3C, 0x18),
      (0x98, 0x03), (0x9A, 0xE0), (0x9C, 0x30), (0x9D, 0x61),
      (0xA2, 0xA4), (0xA3, 0xA4), (0xE0, 0xD0), (0xF9, 0x00)]"

fun hdmi_i2c_writes ::
  "('h, ('h, 'x) app_st_scheme) platform \<Rightarrow> (u8 \<times> u8) list \<Rightarrow> (unit, ('h, 'x) app_st_scheme) prog" where
  "hdmi_i2c_writes P [] s = Some ((), s)"
| "hdmi_i2c_writes P ((reg, data) # ws) s = do {
     (_, s) \<leftarrow> hdmi_i2c_write P reg data s;
     hdmi_i2c_writes P ws s
   }"

definition hdmi_init :: "('h, ('h, 'x) app_st_scheme) platform \<Rightarrow> (int, ('h, 'x) app_st_scheme) prog" where
  "hdmi_init P s = do {
     (_, s) \<leftarrow> printf ''Waiting for PLL Lock (74.25 MHz)...'' [] s;
     (locked, s) \<leftarrow> pll_wait P 1000 s;
     (if \<not> locked then Some (-1, s)
      else do {
        (_, s) \<leftarrow> printf ''PLL Locked! Initializing ADV7513 HDMI Transmitter...'' [] s;
        h \<leftarrow> alt_avalon_i2c_open (pf_env P) (pf_i2c_list P) (pf_i2c_name P) s;
        let s = s\<lparr>hdmi_i2c_dev := h\<rparr>;
        (if hdmi_i2c_dev s = 0 then do {
           (_, s) \<leftarrow> printf ''Error: Could not open I2C device %s'' [PStr ''/dev/i2c_hdmi''] s;
           Some (-2, s)
         } else do {
           (cfg, s) \<leftarrow> alt_avalon_i2c_master_config_get (pf_bus P) s;
           let (_, cfg) = alt_avalon_i2c_master_config_speed_set (dev s) cfg 100000;
           (_, s) \<leftarrow> alt_avalon_i2c_master_config_set (pf_bus P) cfg s;
           (_, s) \<leftarrow> hdmi_i2c_writes P adv7513_init_sequence s;
           (_, s) \<leftarrow> printf ''HDMI Controller Configured. Ready for Video!'' [] s;
           Some (0, s)
         })
      })
   }"

section \<open>hdmi_control.c: registers of the sync generator\<close>

abbreviation (input) REG_PATTERN_MODE :: u32 where "REG_PATTERN_MODE \<equiv> 0"
abbreviation (input) REG_DMA_CTRL :: u32 where "REG_DMA_CTRL \<equiv> 4"
abbreviation (input) REG_LUT_ADDR :: u32 where "REG_LUT_ADDR \<equiv> 8"
abbreviation (input) REG_LUT_DATA :: u32 where "REG_LUT_DATA \<equiv> 12"
abbreviation (input) REG_BITMAP_ADDR :: u32 where "REG_BITMAP_ADDR \<equiv> 16"
abbreviation (input) REG_BITMAP_DATA :: u32 where "REG_BITMAP_DATA \<equiv> 20"
abbreviation (input) AS_DMA_BUSY_MSK :: u32 where "AS_DMA_BUSY_MSK \<equiv> 0x80000000"
abbreviation (input) AS_DMA_DONE_MSK :: u32 where "AS_DMA_DONE_MSK \<equiv> 0x40000000"
abbreviation (input) AS_DMA_START_MSK :: u32 where "AS_DMA_START_MSK \<equiv> 4"
abbreviation (input) AS_DMA_CONT_MSK :: u32 where "AS_DMA_CONT_MSK \<equiv> 2"
abbreviation (input) AS_GAMMA_EN_MSK :: u32 where "AS_GAMMA_EN_MSK \<equiv> 1"

text \<open>\<open>HDMI_SYNC_GEN_BASE | CACHE_BYPASS_MASK\<close>\<close>

definition SYNC_GEN :: u32 where
  "SYNC_GEN = HDMI_SYNC_GEN_BASE OR CACHE_BYPASS_MASK"

lemma SYNC_GEN_eq [simp]: "SYNC_GEN = 0x80020020"
  by (simp add: SYNC_GEN_def)

section \<open>Frame buffer\<close>

definition bar_colors :: "u32 list" where
  "bar_colors = [0xFFFFFF, 0xFFFF00, 0x00FFFF, 0x00FF00, 0xFF00FF, 0xFF0000, 0x0000FF, 0x000000]"

definition bar_index :: "nat \<Rightarrow> nat" where
  "bar_index x = (let color_idx = x div (960 div 8) in if color_idx > 7 then 7 else color_idx)"

definition color_bar_loop :: "('h, 's) platform \<Rightarrow> (unit, ('h, 'x) app_st_scheme) prog" where
  "color_bar_loop P =
     for_up 0 540 (\<lambda>y. for_up 0 960 (\<lambda>x.
       store_word P DDR3_WINDOW_BASE (of_nat (y * 960 + x)) (bar_colors ! bar_index x)))"

definition generate_color_bar_pattern :: "('h, 's) platform \<Rightarrow> (unit, ('h, 'x) app_st_scheme) prog" where
  "generate_color_bar_pattern P s = do {
     (_, s) \<leftarrow> printf ''Generating 540p Color Bar Pattern in DDR3... '' [] s;
     let fb = DDR3_WINDOW_BASE;
     (_, s) \<leftarrow> printf ''[DEBUG] Frame Buffer Addr: 0x%08X (Physical: 0x30000000)'' [PInt (uint fb)] s;
     (_, s) \<leftarrow> color_bar_loop P s;
     (_, s) \<leftarrow> alt_dcache_flush_all P s;
     (_, s) \<leftarrow> printf ''Done! (Total %d pixels written)'' [PInt (960 * 540)] s;
     (v, s) \<leftarrow> load_word P fb 0 s;
     (_, s) \<leftarrow> printf ''[DEBUG] Verify @ 0x%08X: Wrote 0x%08X, Read 0x%08X''
       [PInt (uint fb), PInt 0xFFFFFF, PInt (uint v)] s;
     (v, s) \<leftarrow> load_word P fb (960 div 8) s;
     printf ''[DEBUG] Verify @ 0x%08X: Wrote 0xFFFF00, Read 0x%08X''
       [PInt (uint (fb + 480)), PInt (uint v)] s
   }"

section \<open>Gamma tables\<close>

text \<open>\<open>(unsigned char)(corrected * 255.0 + 0.5)\<close>: the truncation of a non-negative number.\<close>

definition lut_value :: "real \<Rightarrow> u8" where
  "lut_value corrected = word_of_int \<lfloor>corrected * 255 + 1 / 2\<rfloor>"

text \<open>One table entry, with the two short delays.\<close>

definition lut_write :: "('h, 's) platform \<Rightarrow> nat \<Rightarrow> u8 \<Rightarrow> (unit, ('h, 'x) app_st_scheme) prog" where
  "lut_write P i val s = do {
     (_, s) \<leftarrow> IOWR_32DIRECT (pf_bus P) SYNC_GEN REG_LUT_ADDR (of_nat i) s;
     (_, s) \<leftarrow> ALT_USLEEP (pf_bus P) 10 s;
     (_, s) \<leftarrow> IOWR_32DIRECT (pf_bus P) SYNC_GEN REG_LUT_DATA (ucast val) s;
     (_, s) \<leftarrow> ALT_USLEEP (pf_bus P) 10 s;
     Some ((), s)
   }"

definition lut_print :: "nat \<Rightarrow> u8 \<Rightarrow> (unit, ('h, 'x) app_st_scheme) prog" where
  "lut_print i val s = do {
     (_, s) \<leftarrow> printf ''%3d '' [PInt (uint val)] s;
     (if (i + 1) mod 16 = 0 then printf '''' [] s else Some ((), s))
   }"

definition gamma_entry :: "(real \<Rightarrow> real \<Rightarrow> real) \<Rightarrow> real \<Rightarrow> nat \<Rightarrow> u8" where
  "gamma_entry pow inv_gamma i = (let normalized = real i / 255 in lut_value (pow normalized inv_gamma))"

definition load_gamma_table :: "('h, 's) platform \<Rightarrow> real \<Rightarrow> (unit, ('h, 'x) app_st_scheme) prog" where
  "load_gamma_table P gamma_val s = do {
     (_, s) \<leftarrow> printf ''Calculating and Loading Gamma Table (index^1/%.1f)... '' [PReal gamma_val] s;
     let gamma_val = (if gamma_val \<le> 1 / 10 then 22 / 10 else gamma_val);
     let inv_gamma = 1 / gamma_val;
     (_, s) \<leftarrow> for_up 0 256 (\<lambda>i s. do {
        let val = gamma_entry (pf_pow P) inv_gamma i;
        (_, s) \<leftarrow> lut_write P i val s;
        lut_print i val s
      }) s;
     printf ''Done.'' [] s
   }"

definition srgb_entry :: "(real \<Rightarrow> real \<Rightarrow> real) \<Rightarrow> nat \<Rightarrow> u8" where
  "srgb_entry pow i =
     (let normalized = real i / 255;
          corrected = (if normalized \<le> 31308 / 10000000 then 1292 / 100 * normalized
                       else 1055 / 1000 * pow normalized (10 / 24) - 55 / 1000)
      in lut_value corrected)"

definition load_srgb_gamma_table :: "('h, 's) platform \<Rightarrow> (unit, ('h, 'x) app_st_scheme) prog" where
  "load_srgb_gamma_table P s = do {
     (_, s) \<leftarrow> printf ''Calculating and Loading sRGB Gamma Table...'' [] s;
     (_, s) \<leftarrow> for_up 0 256 (\<lambda>i s. do {
        let val = srgb_entry (pf_pow P) i;
        (_, s) \<leftarrow> lut_write P i val s;
        lut_print i val s
      }) s;
     printf ''sRGB Gamma Loaded.'' [] s
   }"

definition load_inverse_gamma_table :: "('h, 's) platform \<Rightarrow> (unit, ('h, 'x) app_st_scheme) prog" where
  "load_inverse_gamma_table P s = do {
     (_, s) \<leftarrow> printf ''Calculating and Loading Inverse Gamma Table (x^2.2) for Linear Panels...'' [] s;
     (_, s) \<leftarrow> for_up 0 256 (\<lambda>i. lut_write P i (gamma_entry (pf_pow P) (22 / 10) i)) s;
     printf ''Inverse Gamma Loaded.'' [] s
   }"

definition set_gamma_enable :: "('h, 's) platform \<Rightarrow> bool \<Rightarrow> (unit, ('h, 'x) app_st_scheme) prog" where
  "set_gamma_enable P enable s = do {
     (ctrl, s) \<leftarrow> IORD_32DIRECT (pf_bus P) SYNC_GEN REG_DMA_CTRL s;
     let ctrl = (if enable then ctrl OR AS_GAMMA_EN_MSK else ctrl AND NOT AS_GAMMA_EN_MSK);
     (_, s) \<leftarrow> IOWR_32DIRECT (pf_bus P) SYNC_GEN REG_DMA_CTRL ctrl s;
     printf ''Gamma Correction %s'' [PStr (if enable then ''Enabled'' else ''Disabled'')] s
   }"

section \<open>Character bitmap\<close>

definition char_bitmap :: "u16 list" where
  "char_bitmap = [0x3C60, 0x0060, 0x7E60, 0x0660, 0x0E60, 0x1C70, 0x3E60, 0x7760, 0xE360,
     0x0060, 0x0060, 0x0060, 0x0000, 0x0000, 0x0000, 0x0000]"

definition load_char_bitmap :: "('h, 's) platform \<Rightarrow> (unit, ('h, 'x) app_st_scheme) prog" where
  "load_char_bitmap P s = do {
     (_, s) \<leftarrow> printf ''Loading Custom Character Bitmap... '' [] s;
     (_, s) \<leftarrow> for_up 0 16 (\<lambda>i s. do {
        (_, s) \<leftarrow> IOWR_32DIRECT (pf_bus P) SYNC_GEN REG_BITMAP_ADDR (of_nat i) s;
        IOWR_32DIRECT (pf_bus P) SYNC_GEN REG_BITMAP_DATA (ucast (char_bitmap ! i)) s
      }) s;
     printf ''Done.'' [] s
   }"

section \<open>DMA control\<close>

definition dma_start_single :: "('h, 's) platform \<Rightarrow> (unit, ('h, 'x) app_st_scheme) prog" where
  "dma_start_single P s = do {
     (ctrl, s) \<leftarrow> IORD_32DIRECT (pf_bus P) SYNC_GEN REG_DMA_CTRL s;
     (_, s) \<leftarrow> IOWR_32DIRECT (pf_bus P) SYNC_GEN REG_DMA_CTRL (ctrl OR AS_DMA_START_MSK) s;
     printf ''DMA Single Frame Transfer Started.'' [] s
   }"

definition dma_set_continuous :: "('h, 's) platform \<Rightarrow> bool \<Rightarrow> (unit, ('h, 'x) app_st_scheme) prog" where
  "dma_set_continuous P enable s = do {
     (ctrl, s) \<leftarrow> IORD_32DIRECT (pf_bus P) SYNC_GEN REG_DMA_CTRL s;
     (if enable then do {
        (_, s) \<leftarrow> IOWR_32DIRECT (pf_bus P) SYNC_GEN REG_DMA_CTRL (ctrl OR AS_DMA_CONT_MSK) s;
        printf ''DMA Continuous Mode: ENABLED'' [] s
      } else do {
        (_, s) \<leftarrow> IOWR_32DIRECT (pf_bus P) SYNC_GEN REG_DMA_CTRL (ctrl AND NOT AS_DMA_CONT_MSK) s;
        printf ''DMA Continuous Mode: DISABLED'' [] s
      })
   }"

definition print_dma_status :: "('h, 's) platform \<Rightarrow> (unit, ('h, 'x) app_st_scheme) prog" where
  "print_dma_status P s = do {
     (ctrl, s) \<leftarrow> IORD_32DIRECT (pf_bus P) SYNC_GEN REG_DMA_CTRL s;
     (_, s) \<leftarrow> printf ''--- DMA Status ---'' [] s;
     (_, s) \<leftarrow> printf ''  Busy: %s'' [PStr (if ctrl AND AS_DMA_BUSY_MSK \<noteq> 0 then ''YES'' else ''NO'')] s;
     (_, s) \<leftarrow> printf ''  Done: %s''
       [PStr (if ctrl AND AS_DMA_DONE_MSK \<noteq> 0 then ''YES (Read-to-Clear)'' else ''NO'')] s;
     printf ''  Cont: %s'' [PStr (if ctrl AND AS_DMA_CONT_MSK \<noteq> 0 then ''ON'' else ''OFF'')] s
   }"

section \<open>Submenus\<close>

text \<open>Characters are compared as the signed \<open>char\<close> of the compiler.\<close>

abbreviation (input) ch :: "char \<Rightarrow> u8" where "ch c \<equiv> of_char c"

partial_function (option) run_gamma_submenu ::
  "('h, 's) platform \<Rightarrow> (unit, ('h, 'x) app_st_scheme) prog" where
  "run_gamma_submenu P s = do {
     (_, s) \<leftarrow> printf ''--- Gamma Correction Settings ---'' [] s;
     (_, s) \<leftarrow> printf '' [1] Toggle Enable (Current: %s)'' [PStr (if gamma_en s then ''ON'' else ''OFF'')] s;
     (_, s) \<leftarrow> print_lines ['' [2] Load Gamma 2.2 (Standard)'', '' [3] Load sRGB Gamma (Standard)'',
       '' [4] Load Inverse Gamma 2.2 (for Linear Panel)'', '' [b] Back to Main Menu'', ''Enter choice: ''] s;
     (c, s) \<leftarrow> get_char_polled P s;
     (_, s) \<leftarrow> printf ''%c'' [PInt (sint c)] s;
     (if c = ch CHR ''b'' then Some ((), s)
      else do {
        (_, s) \<leftarrow>
          (if c = ch CHR ''1'' then
             (let s = s\<lparr>gamma_en := \<not> gamma_en s\<rparr> in set_gamma_enable P (gamma_en s) s)
           else if c = ch CHR ''2'' then load_gamma_table P (22 / 10) s
           else if c = ch CHR ''3'' then load_srgb_gamma_table P s
           else if c = ch CHR ''4'' then load_inverse_gamma_table P s
           else Some ((), s));
        run_gamma_submenu P s
      })
   }"

partial_function (option) change_rtl_pattern ::
  "('h, 's) platform \<Rightarrow> (unit, ('h, 'x) app_st_scheme) prog" where
  "change_rtl_pattern P s = do {
     (_, s) \<leftarrow> print_lines [''Select RTL Pattern Mode:'', '' [0] Solid Red'', '' [1] Solid Green'',
       '' [2] Solid Blue'', '' [3] Grayscale Ramp'', '' [4] Grid Pattern'', '' [5] Solid White'',
       '' [6] 8-level Gray Scale'', '' [7] Character Tile (4x Scaling)'', '' [b] Back to Main Menu'',
       ''Enter choice: ''] s;
     (c, s) \<leftarrow> get_char_polled P s;
     (_, s) \<leftarrow> printf ''%c'' [PInt (sint c)] s;
     (if c = ch CHR ''b'' then Some ((), s)
      else do {
        let mode = (scast c :: u32) - 48;
        (_, s) \<leftarrow>
          (if mode \<le> 7 then do {
             (_, s) \<leftarrow> IOWR_32DIRECT (pf_bus P) SYNC_GEN REG_PATTERN_MODE mode s;
             printf ''Pattern changed to %u'' [PInt (uint mode)] s
           } else print_lines [''Invalid mode! Try again or press 'b' to go back.''] s);
        change_rtl_pattern P s
      })
   }"

definition dma_debug_choice :: "('h, 's) platform \<Rightarrow> u8 \<Rightarrow> (unit, ('h, 'x) app_st_scheme) prog" where
  "dma_debug_choice P c s =
     (if c = ch CHR ''1'' then do {
        let s = s\<lparr>dma_mode_active := \<not> dma_mode_active s\<rparr>;
        (_, s) \<leftarrow> IOWR_32DIRECT (pf_bus P) SYNC_GEN REG_PATTERN_MODE (if dma_mode_active s then 8 else 0) s;
        printf ''Source switched to %s'' [PStr (if dma_mode_active s then ''DMA'' else ''Pattern 0'')] s
      } else if c = ch CHR ''2'' then
        (let s = s\<lparr>cont_active := \<not> cont_active s\<rparr> in dma_set_continuous P (cont_active s) s)
      else if c = ch CHR ''3'' then dma_start_single P s
      else if c = ch CHR ''4'' then print_dma_status P s
      else printf ''Invalid choice!'' [] s)"

partial_function (option) run_dma_debug_submenu ::
  "('h, 's) platform \<Rightarrow> (unit, ('h, 'x) app_st_scheme) prog" where
  "run_dma_debug_submenu P s = do {
     (ctrl, s) \<leftarrow> IORD_32DIRECT (pf_bus P) SYNC_GEN REG_DMA_CTRL s;
     (mode, s) \<leftarrow> IORD_32DIRECT (pf_bus P) SYNC_GEN REG_PATTERN_MODE s;
     let s = s\<lparr>dma_mode_active := mode = 8\<rparr>;
     let s = s\<lparr>cont_active := ctrl AND AS_DMA_CONT_MSK \<noteq> 0\<rparr>;
     (_, s) \<leftarrow> printf ''========= DMA DEBUG MENU ========='' [] s;
     (_, s) \<leftarrow> printf '' [1] Toggle Source    : [%s]''
       [PStr (if dma_mode_active s then ''DMA (DDR3)'' else ''Test Pattern'')] s;
     (_, s) \<leftarrow> printf '' [2] Toggle Cont Mode : [%s]''
       [PStr (if cont_active s then ''ENABLED'' else ''DISABLED'')] s;
     (_, s) \<leftarrow> printf '' [3] Trigger Single   : [START PULSE]'' [] s;
     (_, s) \<leftarrow> printf '' [4] Refresh Status   : [Busy:%s, Done:%s]''
       [PStr (if ctrl AND AS_DMA_BUSY_MSK \<noteq> 0 then ''Y'' else ''N''),
        PStr (if ctrl AND AS_DMA_DONE_MSK \<noteq> 0 then ''Y'' else ''N'')] s;
     (_, s) \<leftarrow> print_lines ['' [b] Back to Main Menu'', ''----------------------------------'',
       ''Select option: ''] s;
     (c, s) \<leftarrow> get_char_polled P s;
     (_, s) \<leftarrow> printf ''%c'' [PInt (sint c)] s;
     (if c = ch CHR ''b'' then Some ((), s)
      else do {
        (_, s) \<leftarrow> dma_debug_choice P c s;
        run_dma_debug_submenu P s
      })
   }"

end
