(* ===== verification/App_Timer_Claims.thy ===== *)
theory App_Timer_Claims
  imports App_Common
begin

text \<open>
  \<open>get_total_cycles\<close> (\<open>common.c\<close>) combines the tick counter, which the timer interrupt updates,
  with a snapshot of the running hardware counter.  This theory states what the hardware
  documentation promises of the timer (\<open>timer_board\<close>) and proves the reading exact under
  interrupts at every point between its accesses.
\<close>

section \<open>The timer of the board\<close>

text \<open>
  \<open>cyc h\<close> counts the clock cycles since the counter was started, \<open>latch h\<close> is the last snapshot.
  The counter runs down from 49999.  Every access and every interrupt point takes at most 1000
  cycles; an interrupt point that is left has counted every period that has ended.
\<close>

definition timer_steps :: "('h \<Rightarrow> nat) \<Rightarrow> 'h \<Rightarrow> 'h \<Rightarrow> bool" where
  "timer_steps cyc h h' \<longleftrightarrow> cyc h \<le> cyc h' \<and> cyc h' \<le> cyc h + 1000"

definition timer_synced :: "('h \<Rightarrow> nat) \<Rightarrow> ('h, 'x) app_st_scheme \<Rightarrow> bool" where
  "timer_synced cyc s \<longleftrightarrow> nticks s = of_nat (cyc (hw s) div 50000)"

definition timer_board ::
  "('h, ('h, 'x) app_st_scheme) platform \<Rightarrow> ('h \<Rightarrow> nat) \<Rightarrow> ('h \<Rightarrow> nat) \<Rightarrow> bool" where
  "timer_board P cyc latch \<longleftrightarrow>
     (\<forall>a h. timer_steps cyc h (snd (bus_rd (pf_bus P) a h)) \<and>
        latch (snd (bus_rd (pf_bus P) a h)) = latch h) \<and>
     (\<forall>h. fst (bus_rd (pf_bus P) (TIMER_0_BASE + 16) h) = of_nat (latch h mod 65536)) \<and>
     (\<forall>h. fst (bus_rd (pf_bus P) (TIMER_0_BASE + 20) h) = of_nat (latch h div 65536)) \<and>
     (\<forall>h. let h' = bus_wr (pf_bus P) (TIMER_0_BASE + 16) 0 h in timer_steps cyc h h' \<and>
        (\<exists>c. cyc h \<le> c \<and> c \<le> cyc h' \<and> latch h' = 49999 - c mod 50000)) \<and>
     (\<forall>s. wp (pf_irq P s) (\<lambda>_ s'. timer_steps cyc (hw s) (hw s') \<and> latch (hw s') = latch (hw s) \<and>
        timer_synced cyc s'))"

lemma timer_boardD:
  assumes "timer_board P cyc latch"
  shows "timer_steps cyc h (snd (bus_rd (pf_bus P) a h))"
    "latch (snd (bus_rd (pf_bus P) a h)) = latch h"
    "fst (bus_rd (pf_bus P) (TIMER_0_BASE + 16) h) = of_nat (latch h mod 65536)"
    "fst (bus_rd (pf_bus P) (TIMER_0_BASE + 20) h) = of_nat (latch h div 65536)"
    "timer_steps cyc h (bus_wr (pf_bus P) (TIMER_0_BASE + 16) 0 h)"
    "\<exists>c. cyc h \<le> c \<and> c \<le> cyc (bus_wr (pf_bus P) (TIMER_0_BASE + 16) 0 h) \<and>
        latch (bus_wr (pf_bus P) (TIMER_0_BASE + 16) 0 h) = 49999 - c mod 50000"
    "wp (pf_irq P s) (\<lambda>_ s'. timer_steps cyc (hw s) (hw s') \<and> latch (hw s') = latch (hw s) \<and>
        timer_synced cyc s')"
  using assms unfolding timer_board_def Let_def by auto

section \<open>One pass\<close>

definition good_pass :: "('h \<Rightarrow> nat) \<Rightarrow> nat \<Rightarrow> u32 \<times> u32 \<times> u32 \<Rightarrow> ('h, 'x) app_st_scheme \<Rightarrow> bool" where
  "good_pass cyc c0 r s \<longleftrightarrow>
     (case r of (t1, snap, t2) \<Rightarrow> timer_synced cyc s \<and> cyc (hw s) \<le> c0 + 7000 \<and>
        t1 = of_nat (c0 div 50000) \<and> t2 = of_nat (cyc (hw s) div 50000) \<and>
        (\<exists>c. c0 \<le> c \<and> c \<le> cyc (hw s) \<and> snap = of_nat (49999 - c mod 50000)))"

lemma cycles_pass_good:
  assumes b: "timer_board P cyc latch" and s: "timer_synced cyc s"
  shows "wp (cycles_pass P s) (good_pass cyc (cyc (hw s)))"
proof -
  note D = timer_boardD [OF b, unfolded timer_steps_def]
  obtain s1 where 1: "pf_irq P s = Some ((), s1)" "cyc (hw s) \<le> cyc (hw s1)" "cyc (hw s1) \<le> cyc (hw s) + 1000"
    using D(7) [of s] by (auto simp: wp_iff)
  define s2 where "s2 = s1\<lparr>hw := bus_wr (pf_bus P) (TIMER_0_BASE + 16) 0 (hw s1),
      trace := trace s1 @ [Wr (TIMER_0_BASE + 16) 0]\<rparr>"
  have 2: "cyc (hw s1) \<le> cyc (hw s2)" "cyc (hw s2) \<le> cyc (hw s1) + 1000"
    using D(5) [of "hw s1"] by (simp_all add: s2_def)
  obtain c where c: "cyc (hw s1) \<le> c" "c \<le> cyc (hw s2)" "latch (hw s2) = 49999 - c mod 50000"
    using D(6) [of "hw s1"] by (auto simp: s2_def)
  obtain s3 where 3: "pf_irq P s2 = Some ((), s3)" "cyc (hw s2) \<le> cyc (hw s3)" "cyc (hw s3) \<le> cyc (hw s2) + 1000"
    "latch (hw s3) = latch (hw s2)"
    using D(7) [of s2] by (auto simp: wp_iff)
  define s4 where "s4 = s3\<lparr>hw := snd (bus_rd (pf_bus P) (TIMER_0_BASE + 16) (hw s3)),
      trace := trace s3 @ [Rd (TIMER_0_BASE + 16) (of_nat (latch (hw s3) mod 65536))]\<rparr>"
  have 4: "cyc (hw s3) \<le> cyc (hw s4)" "cyc (hw s4) \<le> cyc (hw s3) + 1000" "latch (hw s4) = latch (hw s3)"
    using D(1) [of "hw s3" "TIMER_0_BASE + 16"] D(2) [of "TIMER_0_BASE + 16" "hw s3"] by (simp_all add: s4_def)
  obtain s5 where 5: "pf_irq P s4 = Some ((), s5)" "cyc (hw s4) \<le> cyc (hw s5)" "cyc (hw s5) \<le> cyc (hw s4) + 1000"
    "latch (hw s5) = latch (hw s4)"
    using D(7) [of s4] by (auto simp: wp_iff)
  define s6 where "s6 = s5\<lparr>hw := snd (bus_rd (pf_bus P) (TIMER_0_BASE + 20) (hw s5)),
      trace := trace s5 @ [Rd (TIMER_0_BASE + 20) (of_nat (latch (hw s5) div 65536))]\<rparr>"
  have 6: "cyc (hw s5) \<le> cyc (hw s6)" "cyc (hw s6) \<le> cyc (hw s5) + 1000"
    using D(1) [of "hw s5" "TIMER_0_BASE + 20"] by (simp_all add: s6_def)
  obtain s7 where 7: "pf_irq P s6 = Some ((), s7)" "cyc (hw s6) \<le> cyc (hw s7)" "cyc (hw s7) \<le> cyc (hw s6) + 1000"
    "timer_synced cyc s7"
    using D(7) [of s6] by (auto simp: wp_iff)
  have "latch (hw s5) = 49999 - c mod 50000" using c 3 4 5 by simp
  then have "latch (hw s5) div 65536 = 0" "latch (hw s3) mod 65536 = 49999 - c mod 50000"
    using c(3) 3 by simp_all
  then have "cycles_pass P s = Some ((nticks s, of_nat (49999 - c mod 50000), nticks s7), s7)"
    using 1(1) 3(1) 5(1) 7(1) D(3) [of "hw s3"] D(4) [of "hw s5"]
    by (simp add: cycles_pass_def alt_nticks_def Let_def s2_def s4_def s6_def)
  moreover have "cyc (hw s) \<le> c" "c \<le> cyc (hw s7)" "cyc (hw s7) \<le> cyc (hw s) + 7000"
    using 1 2 3 4 5 6 7 c by linarith+
  ultimately show ?thesis
    using s 7(4) by (auto simp: good_pass_def timer_synced_def)
qed

text \<open>Two readings of the tick counter within 7000 cycles agree exactly when no period ended.\<close>

lemma tick_words_eq:
  assumes "c0 \<le> c1" "c1 \<le> c0 + 7000"
  shows "(of_nat (c0 div 50000) :: u32) = of_nat (c1 div 50000) \<longleftrightarrow> c0 div 50000 = c1 div 50000"
proof -
  have "c1 div 50000 = c0 div 50000 \<or> c1 div 50000 = Suc (c0 div 50000)" using assms by linarith
  then show ?thesis by auto
qed

lemma cycles_value:
  assumes "c0 \<le> c" "c \<le> c1" "c0 div 50000 = c1 div 50000"
  shows "unat ((ucast (of_nat (c0 div 50000) :: u32) :: u64) * 50000 +
      ucast (49999 - (of_nat (49999 - c mod 50000) :: u32))) = c mod (50000 * 2 ^ 32)"
proof -
  have q: "c0 div 50000 = c div 50000" using assms by linarith
  define r where "r = c mod 50000"
  have r: "r \<le> 49999" using pos_mod_bound [of 50000 c] by (simp add: r_def)
  have "49999 - (of_nat (49999 - r) :: u32) = of_nat r"
    by (simp only: of_nat_diff [OF r]) simp
  then have l: "(ucast (49999 - (of_nat (49999 - c mod 50000) :: u32)) :: u64) = of_nat (c mod 50000)"
    using r by (simp add: r_def [symmetric] word_unat_eq_iff unsigned_of_nat unsigned_ucast_eq take_bit_nat_eq_self)
  have h: "(ucast (of_nat (c div 50000) :: u32) :: u64) = of_nat (c div 50000 mod 2 ^ 32)"
    by (simp add: word_unat_eq_iff unsigned_of_nat unsigned_ucast_eq take_bit_eq_mod)
  have lt: "50000 * (c div 50000 mod 2 ^ 32) + c mod 50000 < 2 ^ 64"
  proof -
    have "c div 50000 mod 2 ^ 32 < (2 ^ 32 :: nat)" by simp
    then show ?thesis by simp
  qed
  have m: "c mod (50000 * 2 ^ 32) = 50000 * (c div 50000 mod 2 ^ 32) + c mod 50000"
    by (rule mod_mult2_eq)
  have w: "(of_nat (c div 50000 mod 2 ^ 32) :: u64) * 50000 + of_nat (c mod 50000) =
      of_nat (50000 * (c div 50000 mod 2 ^ 32) + c mod 50000)"
    by (simp only: of_nat_add of_nat_mult of_nat_numeral mult.commute)
  have n: "unat (of_nat n :: u64) = n" if "n < 2 ^ 64" for n
    using that by (simp add: unsigned_of_nat take_bit_nat_eq_self)
  show ?thesis by (simp only: q l h w m n [OF lt])
qed

definition good_reading :: "('h \<Rightarrow> nat) \<Rightarrow> nat \<Rightarrow> nat \<Rightarrow> u32 \<times> u32 \<Rightarrow> ('h, 'x) app_st_scheme \<Rightarrow> bool" where
  "good_reading cyc c0 d r s \<longleftrightarrow>
     (case r of (t1, snap) \<Rightarrow> timer_synced cyc s \<and> cyc (hw s) \<le> c0 + d \<and>
        (\<exists>c. c0 \<le> c \<and> c \<le> cyc (hw s) \<and>
          unat ((ucast t1 :: u64) * 50000 + ucast (49999 - snap)) = c mod (50000 * 2 ^ 32)))"

lemma good_reading_mono:
  "good_reading cyc c1 7000 r s \<Longrightarrow> c0 \<le> c1 \<Longrightarrow> c1 \<le> c0 + 7000 \<Longrightarrow> good_reading cyc c0 14000 r s"
  unfolding good_reading_def by (auto split: prod.splits intro: order_trans)

lemma cycles_loop_quiet:
  assumes p: "cycles_pass P s = Some ((t1, snap, t2), s')"
    and g: "good_pass cyc (cyc (hw s)) (t1, snap, t2) s'" and q: "cyc (hw s) div 50000 = cyc (hw s') div 50000"
  shows "wp (cycles_loop P s) (good_reading cyc (cyc (hw s)) 7000)"
proof -
  from g q have "t1 = t2" by (simp add: good_pass_def)
  with p have "cycles_loop P s = Some ((t1, snap), s')" by (subst cycles_loop.simps) simp
  moreover obtain c where c: "cyc (hw s) \<le> c" "c \<le> cyc (hw s')" "snap = of_nat (49999 - c mod 50000)"
      "t1 = of_nat (cyc (hw s) div 50000)" "timer_synced cyc s'" "cyc (hw s') \<le> cyc (hw s) + 7000"
    using g by (auto simp: good_pass_def)
  moreover note cycles_value [OF c(1,2) q, folded c(3,4)]
  ultimately show ?thesis unfolding good_reading_def wp_def by auto
qed

lemma cycles_loop_good:
  assumes b: "timer_board P cyc latch" and s: "timer_synced cyc s"
  shows "wp (cycles_loop P s) (good_reading cyc (cyc (hw s)) 14000)"
proof -
  obtain t1 snap t2 s1 where p: "cycles_pass P s = Some ((t1, snap, t2), s1)"
    and g: "good_pass cyc (cyc (hw s)) (t1, snap, t2) s1"
    using cycles_pass_good [OF b s] by (auto simp: wp_iff)
  from g have r: "cyc (hw s) \<le> cyc (hw s1)" "cyc (hw s1) \<le> cyc (hw s) + 7000" and s1: "timer_synced cyc s1"
    by (auto simp: good_pass_def)
  show ?thesis
  proof (cases "cyc (hw s) div 50000 = cyc (hw s1) div 50000")
    case True
    show ?thesis
      by (rule wp_mono [OF cycles_loop_quiet [OF p g True]]) (erule good_reading_mono, simp_all)
  next
    case False
    then have ne: "t1 \<noteq> t2" using g tick_words_eq [OF r] by (simp add: good_pass_def)
    obtain u1 snap' u2 s2 where p2: "cycles_pass P s1 = Some ((u1, snap', u2), s2)"
      and g2: "good_pass cyc (cyc (hw s1)) (u1, snap', u2) s2"
      using cycles_pass_good [OF b s1] by (auto simp: wp_iff)
    from g2 have "cyc (hw s1) \<le> cyc (hw s2)" "cyc (hw s2) \<le> cyc (hw s1) + 7000" by (auto simp: good_pass_def)
    with False r have "cyc (hw s1) div 50000 = cyc (hw s2) div 50000" by linarith
    from wp_mono [OF cycles_loop_quiet [OF p2 g2 this] good_reading_mono [OF _ r]]
    show ?thesis using p ne by (subst cycles_loop.simps) simp
  qed
qed

section \<open>Property\<close>

text \<open>
  C16. \<open>get_total_cycles\<close> returns, after at most two passes, the cycle count at an instant between
  its call and its return (modulo the range of the tick counter), wherever the timer interrupt
  strikes: the low word of the counter and the tick count always belong to the same period.
\<close>

theorem total_cycles_exact:
  assumes "timer_board P cyc latch" and "timer_synced cyc s"
  shows "\<exists>r s' c. get_total_cycles P s = Some (r, s') \<and> timer_synced cyc s' \<and>
     cyc (hw s) \<le> c \<and> c \<le> cyc (hw s') \<and> cyc (hw s') \<le> cyc (hw s) + 14000 \<and>
     unat r = c mod (50000 * 2 ^ 32)"
  using cycles_loop_good [OF assms]
  by (auto simp: wp_iff get_total_cycles_def good_reading_def Let_def)

text \<open>A concrete timer: the hardware is the cycle count and the last snapshot.\<close>

definition demo_timer_bus :: "(nat \<times> nat) bus" where
  "demo_timer_bus = \<lparr>
     bus_rd = (\<lambda>a (c, l). (if a = 0x20090 then of_nat (l mod 65536) else if a = 0x20094 then of_nat (l div 65536)
         else if a = 0x20000 then 0x8071 else 1, (c + 900, l))),
     bus_wr = (\<lambda>a d (c, l). (c + 900, if a = 0x20090 then 49999 - (c + 100) mod 50000 else l)),
     bus_delay = (\<lambda>us h. h)\<rparr>"

definition demo_platform :: "'h bus \<Rightarrow> ('h \<Rightarrow> nat) \<Rightarrow> ('h, 'h app_st) platform" where
  "demo_platform B cyc = \<lparr>pf_bus = B, pf_flushd = (\<lambda>_ h. h),
     pf_irq = (\<lambda>s. Some ((), s\<lparr>nticks := of_nat (cyc (hw s) div 50000)\<rparr>)),
     pf_env = null_env 0x80 0x88 0x300, pf_i2c_list = 0x90, pf_i2c_name = 0x300,
     pf_ocm = 0x1000, pf_stack = 0x2000, pf_pow = (\<lambda>x y. x)\<rparr>"

definition demo_app :: "'h \<Rightarrow> 'h app_st" where
  "demo_app h = \<lparr>hw = h, trace = [], cpu_status = 1, cpu_ienable = 0,
     alt_irq_active = 0, alt_priority_mask = -1, alt_irq = (\<lambda>_. \<lparr>ih_handler = 0, ih_context = 0\<rparr>),
     alt_instruction_exception_handler = 0, alt_fd_list = alt_fd_list_init 0x40, alt_max_fd = -1,
     errno = 0, links = \<lparr>ll_next = (\<lambda>x. x), ll_prev = (\<lambda>x. x)\<rparr>,
     bytes = (\<lambda>a. if a = 0x300 then 0x69 else 0), st_mode = (\<lambda>_. 0), tick_rate = 1000, nticks = 0,
     alarms = (\<lambda>_. \<lparr>al_time = 0, al_callback = 0, al_rollover = 0, al_context = 0\<rparr>),
     alt_resettime = \<lparr>tv_sec = 0, tv_usec = 0\<rparr>, alt_timezone = (0, 0), heap_end = 0x1000,
     dev = adv_dev, irq_cells = (\<lambda>_. \<lparr>irq_buffer = 0, irq_size = 0, irq_busy = 0\<rparr>),
     hdmi_i2c_dev = 0, gamma_en = False, dma_mode_active = False, cont_active = False, console = []\<rparr>"

lemma demo_sel [simp]:
  "hw (demo_app h) = h" "trace (demo_app h) = []" "nticks (demo_app h) = 0" "dev (demo_app h) = adv_dev"
  "console (demo_app h) = []" "gamma_en (demo_app h) = False"
  by (simp_all add: demo_app_def)

lemma demo_platform_sel [simp]:
  "pf_bus (demo_platform B cyc) = B" "pf_flushd (demo_platform B cyc) = (\<lambda>_ h. h)"
  "pf_irq (demo_platform B cyc) = (\<lambda>s. Some ((), s\<lparr>nticks := of_nat (cyc (hw s) div 50000)\<rparr>))"
  "pf_ocm (demo_platform B cyc) = 0x1000" "pf_stack (demo_platform B cyc) = 0x2000"
  by (simp_all add: demo_platform_def)

lemma demo_timer_board: "timer_board (demo_platform demo_timer_bus fst) fst snd"
proof -
  have "\<exists>c'. c \<le> c' \<and> c' \<le> c + 900 \<and> 49999 - (c + 100) mod 50000 = 49999 - c' mod 50000" for c :: nat
    by (intro exI [of _ "c + 100"]) simp
  then show ?thesis
    by (auto simp: timer_board_def timer_steps_def timer_synced_def demo_timer_bus_def split: prod.splits)
qed

theorem total_cycles_exact_witness:
  "\<exists>r s' c. get_total_cycles (demo_platform demo_timer_bus fst) (demo_app (0 :: nat, 0 :: nat)) = Some (r, s') \<and>
     c \<le> 14000 \<and> unat r = c"
proof -
  obtain r s' c where *: "get_total_cycles (demo_platform demo_timer_bus fst) (demo_app (0 :: nat, 0 :: nat)) = Some (r, s')"
      "c \<le> fst (hw s')" "fst (hw s') \<le> 14000" "unat r = c mod (50000 * 2 ^ 32)"
    using total_cycles_exact [OF demo_timer_board, of "demo_app (0, 0)"] by (auto simp: timer_synced_def)
  then have "c < 50000 * 2 ^ 32" by simp
  with * have "unat r = c" "c \<le> 14000" by simp_all
  with *(1) show ?thesis by blast
qed

end
