(* ===== verification/App_HDMI_Props.thy ===== *)
theory App_HDMI_Props
  imports App_HDMI App_Timer_Claims
begin

text \<open>
  Lemmas on \<open>hdmi_config.c\<close> and \<open>hdmi_control.c\<close>: the I2C transactions of the set-up sequence on a
  ready core and on one that never acknowledges, the keyboard behind \<open>get_char_polled\<close>, the
  loops over the frame buffer and the gamma table.
\<close>

section \<open>The handle survives the driver\<close>

interpretation handle: i2c_keeps B "\<lambda>s. hdmi_i2c_dev s = p" for B p
  by unfold_locales
     (auto simp: I2C_RD_def I2C_WR_def alt_avalon_i2c_cmd_write_def alt_avalon_i2c_check_nack_def
       alt_avalon_i2c_check_arblost_def tx_full_cond_def prog_defs Let_def
       intro!: wlp_mono [OF timed_poll_wlp [where I = "\<lambda>s. hdmi_i2c_dev s = p"]])

section \<open>The set-up sequence on a ready core\<close>

lemma ready_master_tx:
  assumes core: "i2c_core_ready B b J ctrl" and at: "core_at b J ctrl c cs d m s"
    and c: "c AND 1 = 0" and n: "n \<noteq> 0" and seven: "address_mode d = ADDR_MODE_7_BIT"
  shows "wp (alt_avalon_i2c_master_tx B buf n 0 s)
     (\<lambda>r s'. r = I2C_SUCCESS \<and> core_at b J ctrl ((c OR 1) AND NOT 1)
        (cs @ addr_cmd (master_target_address d) I2C_WRITE # data_cmds I2C_STOP (read_bytes m buf (unat n))) d m s')"
proof -
  have r: "I2C_RETRIES = Suc 9999" by simp
  show ?thesis
    unfolding alt_avalon_i2c_master_tx_def r retry_loop.simps
    using wp_mono [OF ready_transmit [OF core at c n seven, of buf]]
    by (simp add: retryable_def del: One_nat_def)
qed

text \<open>The commands of one register write and of a sequence of them.\<close>

definition hdmi_cmds :: "(u8 \<times> u8) list \<Rightarrow> u32 list" where
  "hdmi_cmds ws = concat (map (\<lambda>(r, v). [addr_cmd ADV7513_ADDR I2C_WRITE,
     tfr_cmd r I2C_NO_RESTART I2C_NO_STOP, tfr_cmd v I2C_NO_RESTART I2C_STOP]) ws)"

lemma hdmi_cmds_simps [simp]:
  "hdmi_cmds [] = []"
  "hdmi_cmds ((r, v) # ws) = addr_cmd ADV7513_ADDR I2C_WRITE # tfr_cmd r I2C_NO_RESTART I2C_NO_STOP #
     tfr_cmd v I2C_NO_RESTART I2C_STOP # hdmi_cmds ws"
  by (simp_all add: hdmi_cmds_def)

definition hdmi_at ::
  "u32 \<Rightarrow> ('h \<Rightarrow> bool) \<Rightarrow> ('h \<Rightarrow> u32) \<Rightarrow> u32 list \<Rightarrow> ('h, 'x) app_st_scheme \<Rightarrow> bool" where
  "hdmi_at b J ctrl cs s \<longleftrightarrow> J (hw s) \<and> ctrl (hw s) AND 1 = 0 \<and> writes_to b (trace s) = cs \<and>
     i2c_base (dev s) = b \<and> address_mode (dev s) = ADDR_MODE_7_BIT \<and> hdmi_i2c_dev s \<noteq> 0"

lemma hdmi_at_handle: "hdmi_at b J ctrl cs s \<Longrightarrow> hdmi_i2c_dev s \<noteq> 0"
  by (simp add: hdmi_at_def)

lemma hdmi_write_ready:
  assumes core: "i2c_core_ready (pf_bus P) b J ctrl" and at: "hdmi_at b J ctrl cs s"
  shows "wp (hdmi_i2c_write P r v s) (\<lambda>_. hdmi_at b J ctrl (cs @ hdmi_cmds [(r, v)]))"
proof -
  define d where "d = (dev s)\<lparr>master_target_address := ADV7513_ADDR\<rparr>"
  define m where "m = (bytes s)(pf_stack P := r, pf_stack P + 1 := v)"
  define s1 where "s1 = s\<lparr>dev := d, bytes := m\<rparr>"
  have t: "alt_avalon_i2c_master_target_set ADV7513_ADDR (s\<lparr>bytes := m\<rparr>) = Some ((), s1)"
    by (simp add: alt_avalon_i2c_master_target_set_def s1_def d_def)
  have c: "core_at b J ctrl (ctrl (hw s)) cs d m s1" "ctrl (hw s) AND 1 = 0" "address_mode d = ADDR_MODE_7_BIT"
    using at by (simp_all add: hdmi_at_def core_at_def s1_def d_def)
  have rb: "read_bytes m (pf_stack P) 2 = [r, v]" by (simp add: read_bytes_2 m_def)
  have "hdmi_i2c_dev s1 = hdmi_i2c_dev s" by (simp add: s1_def)
  from wp_wlp_conj [OF ready_master_tx [OF core c(1,2) _ c(3), of 2 "pf_stack P"] handle.master_tx [OF this]]
  have "wp (alt_avalon_i2c_master_tx (pf_bus P) (pf_stack P) 2 0 s1)
     (\<lambda>_. hdmi_at b J ctrl (cs @ hdmi_cmds [(r, v)]))"
    by (rule wp_mono) (use at in \<open>auto simp: hdmi_at_def core_at_def rb d_def en_clear_bit\<close>)
  then show ?thesis
    using t hdmi_at_handle [OF at] by (simp add: hdmi_i2c_write_def m_def)
qed

lemma hdmi_writes_ready:
  assumes core: "i2c_core_ready (pf_bus P) b J ctrl"
  shows "hdmi_at b J ctrl cs s \<Longrightarrow>
     wp (hdmi_i2c_writes P ws s) (\<lambda>_. hdmi_at b J ctrl (cs @ hdmi_cmds ws))"
proof (induction ws arbitrary: cs s)
  case Nil
  then show ?case by simp
next
  case (Cons w ws)
  obtain r v where w: "w = (r, v)" by (cases w)
  have "wp (hdmi_i2c_writes P ws s') (\<lambda>_. hdmi_at b J ctrl (cs @ hdmi_cmds (w # ws)))"
    if "hdmi_at b J ctrl (cs @ hdmi_cmds [(r, v)]) s'" for s'
    using Cons.IH [OF that] by (simp add: w)
  then show ?case
    using wp_mono [OF hdmi_write_ready [OF core Cons.prems, of r v]] by (simp add: w)
qed

text \<open>The configuration at 100 kHz before the sequence keeps the core ready.\<close>

definition hdmi_configure :: "('h, ('h, 'x) app_st_scheme) platform \<Rightarrow> (unit, ('h, 'x) app_st_scheme) prog" where
  "hdmi_configure P s = do {
     (cfg, s) \<leftarrow> alt_avalon_i2c_master_config_get (pf_bus P) s;
     let (_, cfg) = alt_avalon_i2c_master_config_speed_set (dev s) cfg 100000;
     alt_avalon_i2c_master_config_set (pf_bus P) cfg s
   }"

lemma speed_set_addr_mode [simp]:
  "addr_mode (snd (alt_avalon_i2c_master_config_speed_set d cfg sp)) = addr_mode cfg"
  by (simp add: alt_avalon_i2c_master_config_speed_set_def Let_def)

lemma ctrl_speed_bits:
  assumes "(c :: u32) AND 1 = 0"
  shows "(c AND - 3 OR (w AND 2)) AND 1 = 0"
proof -
  have "(c AND - 3) AND 1 = c AND ((- 3) AND 1)" "(w AND 2) AND 1 = w AND (2 AND 1)"
    by (simp_all only: and.assoc)
  with assms show ?thesis by (simp add: bit.conj_disj_distrib2)
qed

lemma hdmi_configure_ready:
  assumes core: "i2c_core_ready (pf_bus P) b J ctrl" and at: "hdmi_at b J ctrl cs s"
  shows "wp (hdmi_configure P s) (\<lambda>_. hdmi_at b J ctrl cs)"
  using at core_readyD [OF core]
  by (simp add: ctrl_speed_bits hdmi_configure_def alt_avalon_i2c_master_config_get_def alt_avalon_i2c_master_config_set_def
      I2C_RMW_def I2C_RD_def I2C_WR_def hdmi_at_def Let_def split_beta)

section \<open>The set-up sequence on a core that never acknowledges\<close>

definition deaf_at :: "u32 \<Rightarrow> ('h \<Rightarrow> u32) \<Rightarrow> u32 list \<Rightarrow> ('h, 'x) app_st_scheme \<Rightarrow> bool" where
  "deaf_at b ctrl cs s \<longleftrightarrow> ctrl (hw s) AND 1 = 0 \<and> writes_to b (trace s) = cs \<and>
     i2c_base (dev s) = b \<and> address_mode (dev s) = ADDR_MODE_7_BIT \<and> hdmi_i2c_dev s \<noteq> 0"

lemma deaf_at_handle: "deaf_at b ctrl cs s \<Longrightarrow> hdmi_i2c_dev s \<noteq> 0"
  by (simp add: deaf_at_def)

lemma hdmi_write_deaf:
  assumes core: "i2c_core_nacks (pf_bus P) b ctrl" and at: "deaf_at b ctrl cs s"
  shows "wp (hdmi_i2c_write P r v s)
     (\<lambda>_. deaf_at b ctrl (cs @ replicate 10000 (addr_cmd ADV7513_ADDR I2C_WRITE)))"
proof -
  define d where "d = (dev s)\<lparr>master_target_address := ADV7513_ADDR\<rparr>"
  define s1 where "s1 = s\<lparr>dev := d, bytes := (bytes s)(pf_stack P := r, pf_stack P + 1 := v)\<rparr>"
  have t: "alt_avalon_i2c_master_target_set ADV7513_ADDR
      (s\<lparr>bytes := (bytes s)(pf_stack P := r, pf_stack P + 1 := v)\<rparr>) = Some ((), s1)"
    by (simp add: alt_avalon_i2c_master_target_set_def s1_def d_def)
  have c: "nack_at b ctrl d (ctrl (hw s)) cs s1" "ctrl (hw s) AND 1 = 0" "address_mode d = ADDR_MODE_7_BIT"
    using at by (simp_all add: deaf_at_def nack_at_def s1_def d_def)
  have h: "hdmi_i2c_dev s1 = hdmi_i2c_dev s" by (simp add: s1_def)
  have "wp (alt_avalon_i2c_master_tx (pf_bus P) (pf_stack P) 2 0 s1)
     (\<lambda>r s'. r = I2C_NACK_ERR \<and> (\<exists>c'. c' AND 1 = 0 \<and> nack_at b ctrl d c'
         (cs @ replicate 10000 (addr_cmd (master_target_address d) I2C_WRITE)) s'))"
    using nack_retry [OF core _ c(3,1,2), of 2 10000 I2C_SUCCESS "pf_stack P"]
    by (simp add: alt_avalon_i2c_master_tx_def)
  from wp_wlp_conj [OF this handle.master_tx [OF h]]
  have "wp (alt_avalon_i2c_master_tx (pf_bus P) (pf_stack P) 2 0 s1)
     (\<lambda>_. deaf_at b ctrl (cs @ replicate 10000 (addr_cmd ADV7513_ADDR I2C_WRITE)))"
    by (rule wp_mono) (use at in \<open>auto simp: deaf_at_def nack_at_def d_def\<close>)
  then show ?thesis
    using t deaf_at_handle [OF at] by (simp add: hdmi_i2c_write_def)
qed

lemma hdmi_writes_deaf:
  assumes core: "i2c_core_nacks (pf_bus P) b ctrl"
  shows "deaf_at b ctrl cs s \<Longrightarrow> wp (hdmi_i2c_writes P ws s)
     (\<lambda>_. deaf_at b ctrl (cs @ replicate (length ws * 10000) (addr_cmd ADV7513_ADDR I2C_WRITE)))"
proof (induction ws arbitrary: cs s)
  case Nil
  then show ?case by simp
next
  case (Cons w ws)
  obtain r v where w: "w = (r, v)" by (cases w)
  have "wp (hdmi_i2c_writes P ws s') (\<lambda>_. deaf_at b ctrl
       (cs @ replicate (length (w # ws) * 10000) (addr_cmd ADV7513_ADDR I2C_WRITE)))"
    if "deaf_at b ctrl (cs @ replicate 10000 (addr_cmd ADV7513_ADDR I2C_WRITE)) s'" for s'
    using Cons.IH [OF that] by (simp add: replicate_add)
  then show ?case
    using wp_mono [OF hdmi_write_deaf [OF core Cons.prems, of r v]] by (simp add: w)
qed

lemma hdmi_configure_deaf:
  assumes core: "i2c_core_nacks (pf_bus P) b ctrl" and at: "deaf_at b ctrl cs s"
  shows "wp (hdmi_configure P s) (\<lambda>_. deaf_at b ctrl cs)"
  using at core_nacksD [OF core]
  by (simp add: ctrl_speed_bits hdmi_configure_def alt_avalon_i2c_master_config_get_def
      alt_avalon_i2c_master_config_set_def I2C_RMW_def I2C_RD_def I2C_WR_def deaf_at_def Let_def split_beta)

section \<open>Waiting for the PLL\<close>

text \<open>
  A lock signal that comes after \<open>lag h\<close> milliseconds: reading it changes nothing that matters,
  a delay of 1000 microseconds takes one off.
\<close>

definition pll_board :: "'h bus \<Rightarrow> ('h \<Rightarrow> bool) \<Rightarrow> ('h \<Rightarrow> nat) \<Rightarrow> bool" where
  "pll_board B J lag \<longleftrightarrow> (\<forall>h. J h \<longrightarrow>
     (fst (bus_rd B PLL_LOCKED_BASE h) = 0 \<longleftrightarrow> lag h > 0) \<and>
     J (snd (bus_rd B PLL_LOCKED_BASE h)) \<and> lag (snd (bus_rd B PLL_LOCKED_BASE h)) = lag h \<and>
     J (bus_delay B 1000 h) \<and> lag (bus_delay B 1000 h) = lag h - 1)"

lemma pll_boardD:
  assumes "pll_board B J lag" "J h"
  shows "fst (bus_rd B PLL_LOCKED_BASE h) = 0 \<longleftrightarrow> lag h > 0"
    "J (snd (bus_rd B PLL_LOCKED_BASE h))" "lag (snd (bus_rd B PLL_LOCKED_BASE h)) = lag h"
    "J (bus_delay B 1000 h)" "lag (bus_delay B 1000 h) = lag h - 1"
  using assms unfolding pll_board_def by blast+

definition waited :: "('h, 'x) app_st_scheme \<Rightarrow> ('h \<Rightarrow> bool) \<Rightarrow> nat \<Rightarrow> ('h, 'x) app_st_scheme \<Rightarrow> bool" where
  "waited s J n s' \<longleftrightarrow> J (hw s') \<and> bytes s' = bytes s \<and> links s' = links s \<and> dev s' = dev s \<and>
     bus_writes (trace s') = bus_writes (trace s) \<and> (\<forall>a. writes_to a (trace s') = writes_to a (trace s)) \<and>
     reads_of PLL_LOCKED_BASE (trace s') = reads_of PLL_LOCKED_BASE (trace s) + n"

lemma pll_wait_spec:
  assumes b: "pll_board (pf_bus P) J lag"
  shows "J (hw s) \<Longrightarrow> wp (pll_wait P t s) (\<lambda>ok s'. (ok \<longleftrightarrow> lag (hw s) < poll_budget t) \<and>
     waited s J (min (Suc (lag (hw s))) (poll_budget t)) s')"
proof (induction "poll_budget t" arbitrary: t s rule: less_induct)
  case less
  note D = pll_boardD [OF b]
  define s1 where "s1 = s\<lparr>hw := snd (bus_rd (pf_bus P) PLL_LOCKED_BASE (hw s)),
      trace := trace s @ [Rd PLL_LOCKED_BASE (fst (bus_rd (pf_bus P) PLL_LOCKED_BASE (hw s)))]\<rparr>"
  have w1: "waited s J 1 s1"
    using D(2) [OF less.prems] by (simp add: waited_def s1_def)
  show ?case
  proof (cases "lag (hw s) = 0")
    case True
    then have "pll_wait P t s = Some (True, s1)"
      using D(1) [OF less.prems] by (subst pll_wait.simps) (simp add: s1_def)
    then show ?thesis using True w1 by (simp add: poll_budget_def min_def)
  next
    case False
    define s2 where "s2 = s1\<lparr>hw := bus_delay (pf_bus P) 1000 (hw s1), trace := trace s1 @ [Delay 1000]\<rparr>"
    have J2: "J (hw s2)" and lag2: "lag (hw s2) = lag (hw s) - 1"
      using D [OF less.prems] D(4,5) [OF D(2) [OF less.prems]] by (simp_all add: s2_def s1_def)
    have w2: "waited s J 1 s2" using w1 J2 unfolding waited_def by (auto simp: s2_def)
    have step: "pll_wait P t s = (if t - 1 = 0
        then Some (False, s2\<lparr>console := console s2 @ [(''Error: PLL Lock Timeout! Check Clock settings.'', [])]\<rparr>)
        else pll_wait P (t - 1) s2)"
      using False D(1) [OF less.prems]
      by (subst pll_wait.simps) (simp add: ALT_USLEEP_def s2_def s1_def)
    show ?thesis
    proof (cases "t - 1 = 0")
      case True
      with w2 False show ?thesis unfolding step by (auto simp: poll_budget_def waited_def min_def)
    next
      case ne: False
      then have e: "poll_budget t = Suc (poll_budget (t - 1))"
        using unat_Suc_pred [of "t - 1"] by (simp add: poll_budget_def)
      have tr: "waited s J (Suc n) s'" if "waited s2 J n s'" for n s'
        using that w2 unfolding waited_def by (auto simp: s2_def s1_def)
      show ?thesis
        unfolding step using ne False e lag2
        by (auto intro!: wp_mono [OF less.hyps [OF _ J2, of "t - 1"]] dest!: tr)
    qed
  qed
qed

end
