(* ===== verification/App_HDMI_Claims.thy ===== *)
theory App_HDMI_Claims
  imports App_HDMI_Props
begin

text \<open>
  The properties of the HDMI set-up, the frame buffer, the DMA control register and the pattern
  menu, with the concrete hardware of their witnesses.
\<close>

section \<open>hdmi_init\<close>

lemma i2c_open_cong:
  "bytes s' = bytes s \<Longrightarrow> links s' = links s \<Longrightarrow> alt_avalon_i2c_open E l n s' = alt_avalon_i2c_open E l n s"
  by (simp add: alt_avalon_i2c_open_def)

abbreviation (input) configured :: string where
  "configured \<equiv> ''HDMI Controller Configured. Ready for Video!''"

text \<open>What is left to do once the PLL is locked and the device is found.\<close>

definition hdmi_setup :: "('h, ('h, 'x) app_st_scheme) platform \<Rightarrow> (int, ('h, 'x) app_st_scheme) prog" where
  "hdmi_setup P s = do {
     (_, s) \<leftarrow> hdmi_configure P s;
     (_, s) \<leftarrow> hdmi_i2c_writes P adv7513_init_sequence s;
     (_, s) \<leftarrow> printf configured [] s;
     Some (0, s) }"

lemma hdmi_init_wp:
  assumes b: "pll_board (pf_bus P) J lag" and J: "J (hw s)" and lag: "lag (hw s) < 1000"
    and op: "alt_avalon_i2c_open (pf_env P) (pf_i2c_list P) (pf_i2c_name P) s = Some p" "p \<noteq> 0"
    and rest: "\<And>s'. waited s J (Suc (lag (hw s))) s' \<Longrightarrow> hdmi_i2c_dev s' = p \<Longrightarrow> wp (hdmi_setup P s') Q"
  shows "wp (hdmi_init P s) Q"
proof -
  define s0 where "s0 = s\<lparr>console := console s @ [(''Waiting for PLL Lock (74.25 MHz)...'', [])]\<rparr>"
  from pll_wait_spec [OF b, of s0 1000] J lag obtain s1 where
      w: "pll_wait P 1000 s0 = Some (True, s1)" "waited s0 J (Suc (lag (hw s0))) s1"
    by (auto simp: wp_iff s0_def min_def split: if_splits)
  define s2 where "s2 = s1\<lparr>console := console s1 @ [(''PLL Locked! Initializing ADV7513 HDMI Transmitter...'', [])]\<rparr>"
  have o: "alt_avalon_i2c_open (pf_env P) (pf_i2c_list P) (pf_i2c_name P) s2 = Some p"
    using op(1) i2c_open_cong [of s2 s] w(2) by (simp add: s2_def waited_def s0_def)
  have "hdmi_init P s = hdmi_setup P (s2\<lparr>hdmi_i2c_dev := p\<rparr>)"
    using w(1) o op(2)
    by (simp add: hdmi_init_def hdmi_setup_def hdmi_configure_def s0_def s2_def Let_def split_beta
        case_prod_beta')
  moreover have "waited s J (Suc (lag (hw s))) (s2\<lparr>hdmi_i2c_dev := p\<rparr>)"
    using w(2) by (simp add: waited_def s2_def s0_def)
  ultimately show ?thesis using rest by simp
qed

lemma pll_board_ctrl:
  assumes "i2c_core_ready B b J ctrl" and "pll_board B J lag"
  shows "pll_board B (\<lambda>h. J h \<and> ctrl h = c) lag"
proof -
  have "ctrl (snd (bus_rd B a h)) = ctrl h" "ctrl (bus_delay B us h) = ctrl h" if "J h" for a us h
    using assms(1) that unfolding i2c_core_ready_def by blast+
  with pll_boardD [OF assms(2)] show ?thesis unfolding pll_board_def by simp
qed

text \<open>
  C13. When the PLL locks within 999 ms and the core is ready, \<open>hdmi_init\<close> returns 0 and the
  commands it writes to the I2C core are exactly those of the 12 register writes, in order: each
  addresses the ADV7513 (0x39), sends the register, then the value with the stop flag.
\<close>

theorem hdmi_init_configures:
  assumes core: "i2c_core_ready (pf_bus P) b J ctrl" and pll: "pll_board (pf_bus P) J lag" and J: "J (hw s)"
    and lag: "lag (hw s) < 1000" and c: "ctrl (hw s) AND CTRL_EN_MSK = 0"
    and d: "i2c_base (dev s) = b" "address_mode (dev s) = ADDR_MODE_7_BIT"
    and op: "alt_avalon_i2c_open (pf_env P) (pf_i2c_list P) (pf_i2c_name P) s = Some p" "p \<noteq> 0"
  shows "\<exists>s'. hdmi_init P s = Some (0, s') \<and>
     writes_to b (trace s') = writes_to b (trace s) @ hdmi_cmds adv7513_init_sequence"
proof -
  have "wp (hdmi_setup P s') (\<lambda>r s'. r = 0 \<and>
      writes_to b (trace s') = writes_to b (trace s) @ hdmi_cmds adv7513_init_sequence)"
    if "waited s (\<lambda>h. J h \<and> ctrl h = ctrl (hw s)) (Suc (lag (hw s))) s'" "hdmi_i2c_dev s' = p" for s'
  proof -
    have at: "hdmi_at b J ctrl (writes_to b (trace s)) s'"
      using that c d op(2) by (simp add: waited_def hdmi_at_def)
    show ?thesis
      unfolding hdmi_setup_def
      by (auto intro!: wp_mono [OF hdmi_configure_ready [OF core at]] wp_mono [OF hdmi_writes_ready [OF core]]
          simp: hdmi_at_def)
  qed
  from hdmi_init_wp [OF pll_board_ctrl [OF core pll] _ lag op this] J show ?thesis
    by (auto simp: wp_iff)
qed

text \<open>
  The result of \<open>hdmi_init\<close> does not depend on the transmitter: with a target that
  acknowledges nothing it still returns 0 and reports success, after 120000 address bytes and
  not one data byte.
\<close>

theorem hdmi_init_ignores_nack:
  assumes core: "i2c_core_nacks (pf_bus P) b ctrl" and pll: "pll_board (pf_bus P) J lag" and J: "J (hw s)"
    and lag: "lag (hw s) < 1000" and c: "\<forall>h. J h \<longrightarrow> ctrl h AND CTRL_EN_MSK = 0"
    and d: "i2c_base (dev s) = b" "address_mode (dev s) = ADDR_MODE_7_BIT"
    and op: "alt_avalon_i2c_open (pf_env P) (pf_i2c_list P) (pf_i2c_name P) s = Some p" "p \<noteq> 0"
  shows "\<exists>s'. hdmi_init P s = Some (0, s') \<and> last (console s') = (configured, []) \<and>
     writes_to b (trace s') = writes_to b (trace s) @ replicate 120000 (addr_cmd ADV7513_ADDR I2C_WRITE)"
proof -
  have n: "length adv7513_init_sequence * 10000 = 120000" by (simp add: adv7513_init_sequence_def)
  have "wp (hdmi_setup P s') (\<lambda>r s'. r = 0 \<and> last (console s') = (configured, []) \<and>
      writes_to b (trace s') = writes_to b (trace s) @ replicate 120000 (addr_cmd ADV7513_ADDR I2C_WRITE))"
    if "waited s J (Suc (lag (hw s))) s'" "hdmi_i2c_dev s' = p" for s'
  proof -
    have at: "deaf_at b ctrl (writes_to b (trace s)) s'"
      using that c d op(2) by (simp add: waited_def deaf_at_def)
    show ?thesis
      unfolding hdmi_setup_def
      by (auto intro!: wp_mono [OF hdmi_configure_deaf [OF core at]] wp_mono [OF hdmi_writes_deaf [OF core]]
          simp: deaf_at_def n)
  qed
  from hdmi_init_wp [OF pll J lag op this] show ?thesis by (auto simp: wp_iff)
qed

text \<open>
  When the PLL needs 1000 ms or more, \<open>hdmi_init\<close> returns -1 after exactly 1000 polls and
  writes nothing to the hardware.
\<close>

theorem hdmi_init_pll_timeout:
  assumes "pll_board (pf_bus P) J lag" and "J (hw s)" and "1000 \<le> lag (hw s)"
  shows "\<exists>s'. hdmi_init P s = Some (-1, s') \<and> bus_writes (trace s') = bus_writes (trace s) \<and>
     reads_of PLL_LOCKED_BASE (trace s') = reads_of PLL_LOCKED_BASE (trace s) + 1000"
  using pll_wait_spec [OF assms(1), of "s\<lparr>console := console s @ [(''Waiting for PLL Lock (74.25 MHz)...'', [])]\<rparr>" 1000]
    assms(2,3)
  by (auto simp: hdmi_init_def wp_iff waited_def)

text \<open>Concrete hardware: the control register of an I2C core and the time to the PLL lock.\<close>

definition demo_hdmi_bus :: "u32 \<Rightarrow> (u32 \<times> nat) bus" where
  "demo_hdmi_bus isr = \<lparr>
     bus_rd = (\<lambda>a (c, l). (if a = 0x20048 then c else if a = 0x20050 then isr
        else if a = 0x20010 then (if l = 0 then 1 else 0) else 0, (c, l))),
     bus_wr = (\<lambda>a d (c, l). (if a = 0x20048 then d else c, l)),
     bus_delay = (\<lambda>us (c, l). (c, l - 1))\<rparr>"

definition demo_hdmi_platform :: "u32 \<Rightarrow> (u32 \<times> nat, (u32 \<times> nat) app_st) platform" where
  "demo_hdmi_platform isr = demo_platform (demo_hdmi_bus isr) snd"

text \<open>The device list holds the one device at 0x98, whose name is at 0x300.\<close>

definition demo_hdmi :: "nat \<Rightarrow> (u32 \<times> nat) app_st" where
  "demo_hdmi l = (demo_app (0, l))\<lparr>links := alt_llist_insert 0x90 0x98 (links (demo_app (0 :: u32, l)))\<rparr>"

lemma demo_hdmi_sel [simp]:
  "hw (demo_hdmi l) = (0, l)" "trace (demo_hdmi l) = []" "dev (demo_hdmi l) = adv_dev"
  "pf_bus (demo_hdmi_platform isr) = demo_hdmi_bus isr"
  by (simp_all add: demo_hdmi_def demo_hdmi_platform_def)

lemma demo_hdmi_dev [simp]: "i2c_base adv_dev = 0x20040" "address_mode adv_dev = ADDR_MODE_7_BIT"
  by (simp_all add: adv_dev_def)

lemma demo_hdmi_open:
  "alt_avalon_i2c_open (pf_env (demo_hdmi_platform isr)) (pf_i2c_list (demo_hdmi_platform isr))
     (pf_i2c_name (demo_hdmi_platform isr)) (demo_hdmi l) = Some 0x98"
proof -
  have r: "ring (links (demo_hdmi l)) 0x90 [0x98]"
    using ll.ins_rep [of "links (demo_app (0 :: u32, l))" "0x90" "[]" "0x98"]
    by (simp add: demo_hdmi_def demo_app_def ring_def)
  have c: "cstr (bytes (demo_hdmi l)) 0x300 [0x69]" by (simp add: demo_hdmi_def demo_app_def)
  have n: "dv_name (devs (null_env 0x80 0x88 0x300 :: (u32 \<times> nat) app_st hal_env) q) = 0x300" for q
    by (simp add: null_env_def alt_dev_null_def)
  show ?thesis
    using alt_find_dev_ring [OF r c, of "\<lambda>d. 0x300" "\<lambda>_. [0x69]"] c
    by (simp add: alt_avalon_i2c_open_def demo_hdmi_platform_def demo_platform_def n)
qed

lemma demo_hdmi_pll: "pll_board (demo_hdmi_bus isr) (\<lambda>_. True) snd"
  by (auto simp: pll_board_def demo_hdmi_bus_def split: prod.splits)

lemma demo_hdmi_pll_off: "pll_board (demo_hdmi_bus isr) (\<lambda>h. fst h AND 1 = 0) snd"
  by (auto simp: pll_board_def demo_hdmi_bus_def split: prod.splits)

lemma demo_hdmi_ready: "i2c_core_ready (demo_hdmi_bus 1) 0x20040 (\<lambda>_. True) fst"
  by (auto simp: i2c_core_ready_def demo_hdmi_bus_def split: prod.splits)

lemma demo_hdmi_nacks: "i2c_core_nacks (demo_hdmi_bus 5) 0x20040 fst"
  by (auto simp: i2c_core_nacks_def ctrl_stores_def demo_hdmi_bus_def split: prod.splits)

theorem hdmi_init_configures_witness:
  "\<exists>s'. hdmi_init (demo_hdmi_platform 1) (demo_hdmi 7) = Some (0, s') \<and>
     take 3 (writes_to 0x20040 (trace s')) = [0x72, 0x41, 0x110]"
proof -
  obtain s' where "hdmi_init (demo_hdmi_platform 1) (demo_hdmi 7) = Some (0, s')"
      "writes_to 0x20040 (trace s') = hdmi_cmds adv7513_init_sequence"
    using hdmi_init_configures [of "demo_hdmi_platform 1" "0x20040" "\<lambda>_. True" fst snd "demo_hdmi 7" "0x98"]
      demo_hdmi_ready demo_hdmi_pll demo_hdmi_open by auto
  then show ?thesis by (simp add: adv7513_init_sequence_def addr_cmd_def tfr_cmd_def)
qed

theorem hdmi_init_ignores_nack_witness:
  "\<exists>s'. hdmi_init (demo_hdmi_platform 5) (demo_hdmi 7) = Some (0, s') \<and> last (console s') = (configured, [])"
  using hdmi_init_ignores_nack [of "demo_hdmi_platform 5" "0x20040" fst "\<lambda>h. fst h AND 1 = 0" snd "demo_hdmi 7" "0x98"]
    demo_hdmi_nacks demo_hdmi_pll_off demo_hdmi_open by auto

theorem hdmi_init_pll_timeout_witness:
  "\<exists>s'. hdmi_init (demo_hdmi_platform 1) (demo_hdmi 5000) = Some (-1, s') \<and> bus_writes (trace s') = []"
  using hdmi_init_pll_timeout [of "demo_hdmi_platform 1" "\<lambda>_. True" snd "demo_hdmi 5000"] demo_hdmi_pll by auto

end
