(* ===== verification/App_Video_Claims.thy ===== *)
theory App_Video_Claims
  imports App_HDMI_Claims
begin

text \<open>
  The properties of \<open>hdmi_control.c\<close>: the frame buffer, the gamma tables, the control register
  and the pattern menu under any keyboard input.
\<close>

section \<open>The frame buffer\<close>

text \<open>Word \<open>k\<close> of the frame buffer as the program writes it: its address and its colour.\<close>

definition fb_pixel :: "nat \<Rightarrow> u32 \<times> u32" where
  "fb_pixel k = (0x88000000 + 4 * of_nat k, bar_colors ! (k mod 960 div 120))"

lemma bar_index_eq: "x < 960 \<Longrightarrow> bar_index x = x div 120"
  by (simp add: bar_index_def Let_def)

lemma color_bar_row:
  fixes s :: "('a, 'b) app_st_scheme"
  assumes "bus_writes (trace s) = pre @ map fb_pixel [0..<y * 960]"
  shows "wp (for_up 0 960 (\<lambda>x. store_word P DDR3_WINDOW_BASE (of_nat (y * 960 + x)) (bar_colors ! bar_index x)) s)
     (\<lambda>_ s'. bus_writes (trace s') = pre @ map fb_pixel [0..<Suc y * 960])"
proof -
  have "wp (for_up 0 960 (\<lambda>x. store_word P DDR3_WINDOW_BASE (of_nat (y * 960 + x)) (bar_colors ! bar_index x)) s)
     (\<lambda>_ s'. bus_writes (trace s') = pre @ map fb_pixel [0..<y * 960 + 960])"
  proof (rule for_up_wp [where I = "\<lambda>x s'. bus_writes (trace s') = pre @ map fb_pixel [0..<y * 960 + x]"])
    fix i and s' :: "('a, 'b) app_st_scheme"
    assume i: "i < 960" and w: "bus_writes (trace s') = pre @ map fb_pixel [0..<y * 960 + i]"
    have "fb_pixel (y * 960 + i) = (0x88000000 + of_nat (y * 960 + i) * 4, bar_colors ! bar_index i)"
      using i by (simp add: fb_pixel_def bar_index_eq mult.commute)
    then show "wp (store_word P DDR3_WINDOW_BASE (of_nat (y * 960 + i)) (bar_colors ! bar_index i) s')
       (\<lambda>_ s'. bus_writes (trace s') = pre @ map fb_pixel [0..<y * 960 + Suc i])"
      using w by (simp add: store_word_def)
  qed (use assms in simp_all)
  then show ?thesis by (simp add: add.commute)
qed

lemma color_bar_writes:
  "wp (color_bar_loop P s) (\<lambda>_ s'. bus_writes (trace s') = bus_writes (trace s) @ map fb_pixel [0..<540 * 960])"
  unfolding color_bar_loop_def
  by (rule for_up_wp [where I = "\<lambda>y s'. bus_writes (trace s') = bus_writes (trace s) @ map fb_pixel [0..<y * 960]"])
     (simp_all only: color_bar_row mult_0 upt_conv_Nil list.map append_Nil2 order_refl zero_le)

text \<open>
  C19. The colour bars fill the frame buffer exactly: the only bus writes are one to each of its
  960 * 540 words, in ascending order from the start of the DDR3 window, and the word of pixel
  (x, y) gets the colour of bar \<open>x / 120\<close>.
\<close>

theorem color_bars_exact:
  "\<exists>s'. generate_color_bar_pattern P s = Some ((), s') \<and>
     bus_writes (trace s') = bus_writes (trace s) @
       map (\<lambda>k. (0x88000000 + 4 * of_nat k, bar_colors ! (k mod 960 div 120))) [0..<540 * 960]"
proof -
  have f: "\<exists>h. alt_dcache_flush_all P s' = Some ((), s'\<lparr>hw := h\<rparr>)" for s'
    unfolding alt_dcache_flush_all_def by (rule flush_lines_returns)
  obtain s1 where s1: "color_bar_loop P (s\<lparr>console := console s @
        [(''Generating 540p Color Bar Pattern in DDR3... '', []),
         (''[DEBUG] Frame Buffer Addr: 0x%08X (Physical: 0x30000000)'', [PInt 0x88000000])]\<rparr>) = Some ((), s1)"
      "bus_writes (trace s1) = bus_writes (trace s) @ map fb_pixel [0..<540 * 960]"
    using color_bar_writes [of P "s\<lparr>console := console s @
        [(''Generating 540p Color Bar Pattern in DDR3... '', []),
         (''[DEBUG] Frame Buffer Addr: 0x%08X (Physical: 0x30000000)'', [PInt 0x88000000])]\<rparr>"]
    by (auto simp: wp_iff)
  obtain h where h: "alt_dcache_flush_all P s1 = Some ((), s1\<lparr>hw := h\<rparr>)" using f by blast
  have "\<exists>s'. generate_color_bar_pattern P s = Some ((), s') \<and> bus_writes (trace s') = bus_writes (trace s1)"
    using s1(1) h by (simp add: generate_color_bar_pattern_def load_word_def)
  then show ?thesis unfolding s1(2) fb_pixel_def .
qed

section \<open>The DMA control register\<close>

text \<open>
  The three operations on the control register of the sync generator read it once and write
  back the word they read with exactly one bit determined: bit 0 by \<open>set_gamma_enable\<close>, bit 1 by
  \<open>dma_set_continuous\<close>, bit 2 set by \<open>dma_start_single\<close>.  In particular bit 30, the DONE flag
  that is acknowledged by writing 1, is written with the value just read.
\<close>

theorem dma_ctrl_one_bit:
  "\<exists>s1 s2 s3 v1 v2 v3 c. c = fst (bus_rd (pf_bus P) 0x80020024 (hw s)) \<and>
     set_gamma_enable P en s = Some ((), s1) \<and>
     bus_writes (trace s1) = bus_writes (trace s) @ [(0x80020024, v1)] \<and>
     (\<forall>n. bit v1 n = (if n = 0 then en else bit c n)) \<and>
     dma_set_continuous P en s = Some ((), s2) \<and>
     bus_writes (trace s2) = bus_writes (trace s) @ [(0x80020024, v2)] \<and>
     (\<forall>n. bit v2 n = (if n = 1 then en else bit c n)) \<and>
     dma_start_single P s = Some ((), s3) \<and>
     bus_writes (trace s3) = bus_writes (trace s) @ [(0x80020024, v3)] \<and>
     (\<forall>n. bit v3 n = (if n = 2 then True else bit c n))"
proof -
  define c where "c = fst (bus_rd (pf_bus P) 0x80020024 (hw s))"
  have v: "bit (c OR 2 ^ k) n = (if n = k then True else bit c n)"
    "bit (c AND NOT (2 ^ k)) n = (if n = k then False else bit c n)" if "k < 32" for k n
    using that bit_imp_le_length [of c n]
    by (auto simp: bit_or_iff bit_and_iff bit_not_iff bit_exp_iff)
  define v1 where "v1 = (if en then c OR 2 ^ 0 else c AND NOT (2 ^ 0))"
  define v2 where "v2 = (if en then c OR 2 ^ 1 else c AND NOT (2 ^ 1))"
  have "bit v1 n = (if n = 0 then en else bit c n)" for n
    unfolding v1_def using v [of 0 n] by (auto simp del: power_0)
  moreover have "bit v2 n = (if n = 1 then en else bit c n)" for n
    unfolding v2_def using v [of 1 n] by (auto simp del: power_one_right)
  moreover have "bit (c OR 4) n = (if n = 2 then True else bit c n)" for n
    using v(1) [of 2 n] by simp
  moreover obtain s1 where "set_gamma_enable P en s = Some ((), s1)"
      "bus_writes (trace s1) = bus_writes (trace s) @ [(0x80020024, v1)]"
    by (cases en) (simp_all add: set_gamma_enable_def v1_def c_def Let_def)
  moreover obtain s2 where "dma_set_continuous P en s = Some ((), s2)"
      "bus_writes (trace s2) = bus_writes (trace s) @ [(0x80020024, v2)]"
    by (cases en) (simp_all add: dma_set_continuous_def v2_def c_def)
  moreover obtain s3 where "dma_start_single P s = Some ((), s3)"
      "bus_writes (trace s3) = bus_writes (trace s) @ [(0x80020024, c OR 4)]"
    by (simp add: dma_start_single_def c_def)
  ultimately show ?thesis using c_def by blast
qed

section \<open>The keyboard\<close>

text \<open>
  The JTAG UART as the program reads it: \<open>kbd h\<close> is what the user has still to type, \<open>lag h\<close> the
  number of reads until the next character is there.  Nothing but reading the data register
  takes a character.
\<close>

definition keyboard :: "'h bus \<Rightarrow> ('h \<Rightarrow> u8 list) \<Rightarrow> ('h \<Rightarrow> nat) \<Rightarrow> bool" where
  "keyboard B kbd lag \<longleftrightarrow>
     (\<forall>h. lag h > 0 \<longrightarrow> fst (bus_rd B JTAG_UART_BASE h) AND 0x8000 = 0 \<and>
        kbd (snd (bus_rd B JTAG_UART_BASE h)) = kbd h \<and> lag (snd (bus_rd B JTAG_UART_BASE h)) < lag h) \<and>
     (\<forall>h c cs. lag h = 0 \<longrightarrow> kbd h = c # cs \<longrightarrow> fst (bus_rd B JTAG_UART_BASE h) AND 0x8000 \<noteq> 0 \<and>
        ucast (fst (bus_rd B JTAG_UART_BASE h) AND 0xFF) = c \<and> kbd (snd (bus_rd B JTAG_UART_BASE h)) = cs) \<and>
     (\<forall>h a. a \<noteq> JTAG_UART_BASE \<longrightarrow> kbd (snd (bus_rd B a h)) = kbd h) \<and>
     (\<forall>h a d. kbd (bus_wr B a d h) = kbd h) \<and> (\<forall>h us. kbd (bus_delay B us h) = kbd h)"

lemma get_char_kbd:
  assumes k: "keyboard (pf_bus P) kbd lag"
  shows "kbd (hw s) = c # cs \<Longrightarrow> wp (get_char_polled P s)
     (\<lambda>r s'. r = c \<and> kbd (hw s') = cs \<and> bus_writes (trace s') = bus_writes (trace s))"
proof (induction "lag (hw s)" arbitrary: s rule: less_induct)
  case less
  define v where "v = fst (bus_rd (pf_bus P) JTAG_UART_BASE (hw s))"
  define s1 where "s1 = s\<lparr>hw := snd (bus_rd (pf_bus P) JTAG_UART_BASE (hw s)),
      trace := trace s @ [Rd JTAG_UART_BASE v]\<rparr>"
  have u: "get_char_polled P s =
      (if v AND 0x8000 \<noteq> 0 then Some (ucast (v AND 0xFF), s1) else get_char_polled P s1)"
    by (subst get_char_polled.simps) (simp add: v_def s1_def)
  show ?case
  proof (cases "lag (hw s) = 0")
    case True
    with less.prems k have "v AND 0x8000 \<noteq> 0" "ucast (v AND 0xFF) = c" "kbd (hw s1) = cs"
      unfolding keyboard_def v_def s1_def by simp_all
    then show ?thesis unfolding u by (simp add: s1_def)
  next
    case False
    with less.prems k have v: "v AND 0x8000 = 0" and "kbd (hw s1) = c # cs" "lag (hw s1) < lag (hw s)"
      unfolding keyboard_def v_def s1_def by simp_all
    from less.hyps [OF this(3,2)] show ?thesis unfolding u v by (simp add: s1_def)
  qed
qed

section \<open>The pattern menu\<close>

definition pattern_writes :: "u8 list \<Rightarrow> (u32 \<times> u32) list" where
  "pattern_writes cs = map (\<lambda>c. (0x80020020, ucast c - 48)) (filter (\<lambda>c. 48 \<le> c \<and> c \<le> 55) cs)"

lemma pattern_writes_simps [simp]:
  "pattern_writes [] = []"
  "pattern_writes (c # cs) =
     (if 48 \<le> c \<and> c \<le> 55 then (0x80020020, ucast c - 48) # pattern_writes cs else pattern_writes cs)"
  by (simp_all add: pattern_writes_def)

text \<open>The unsigned test \<open>mode <= 7\<close> of the C code accepts exactly the digits.\<close>

lemma byte_bounds: "48 \<le> (c :: u8) \<longleftrightarrow> 48 \<le> uint c" "c \<le> (55 :: u8) \<longleftrightarrow> uint c \<le> 55"
  by (simp_all add: word_le_def)

lemma digit_range:
  assumes "0 \<le> u" "u < (256 :: int)"
  shows "((if u < 128 then u else u - 256) - 48) mod 4294967296 \<le> 7 \<longleftrightarrow> 48 \<le> u \<and> u \<le> 55"
  using assms mod_small_signed [of 4294967296 "(if u < 128 then u else u - 256) - 48"] by auto

lemma mode_digit:
  "(scast (c :: u8) :: u32) - 48 \<le> 7 \<longleftrightarrow> 48 \<le> c \<and> c \<le> 55"
  "48 \<le> c \<Longrightarrow> c \<le> 55 \<Longrightarrow> (scast (c :: u8) :: u32) - 48 = ucast c - 48"
proof -
  have b: "0 \<le> uint c" "uint c < 256" using uint_bounded [of c] by simp_all
  have "(scast c :: u32) - 48 = word_of_int (sint c - 48)"
    by (simp only: scast_eq of_int_diff of_int_numeral)
  then have m: "uint ((scast c :: u32) - 48) = (sint c - 48) mod 4294967296"
    by (simp only: uint_word_of_int) simp
  have "(sint c - 48) mod 4294967296 \<le> 7 \<longleftrightarrow> 48 \<le> uint c \<and> uint c \<le> 55"
    unfolding sint_byte by (rule digit_range [OF b])
  then show "(scast c :: u32) - 48 \<le> 7 \<longleftrightarrow> 48 \<le> c \<and> c \<le> 55"
    unfolding byte_bounds by (simp only: word_le_def m) simp
  assume "48 \<le> c" "c \<le> 55"
  then have "sint c = uint c" by (simp add: byte_bounds sint_byte)
  then show "(scast c :: u32) - 48 = ucast c - 48" by (simp only: scast_eq ucast_eq)
qed

lemma pattern_menu_kbd:
  fixes s :: "('h, 'x) app_st_scheme"
  assumes k: "keyboard (pf_bus P) kbd lag"
  shows "kbd (hw s) = cs @ 0x62 # rs \<Longrightarrow> 0x62 \<notin> set cs \<Longrightarrow> wp (change_rtl_pattern P s)
     (\<lambda>_ s'. kbd (hw s') = rs \<and> bus_writes (trace s') = bus_writes (trace s) @ pattern_writes cs)"
proof (induction cs arbitrary: s)
  case Nil
  show ?case
    by (subst change_rtl_pattern.simps)
       (use Nil in \<open>auto intro!: wp_mono [OF get_char_kbd [OF k]]\<close>)
next
  case (Cons c cs)
  have w: "kbd (bus_wr (pf_bus P) a d h) = kbd h" for a d h using k by (simp add: keyboard_def)
  define Q where "Q = (\<lambda>(_ :: unit) (s' :: ('h, 'x) app_st_scheme). kbd (hw s') = rs \<and>
      bus_writes (trace s') = bus_writes (trace s) @ pattern_writes (c # cs))"
  have again: "wp (change_rtl_pattern P s') Q"
    if "kbd (hw s') = cs @ 0x62 # rs" "bus_writes (trace s') = bus_writes (trace s) @
      (if 48 \<le> c \<and> c \<le> 55 then [(0x80020020, ucast c - 48)] else [])"
    for s' :: "('h, 'x) app_st_scheme"
    using Cons.IH [OF that(1)] Cons.prems(2) that(2) by (auto simp: Q_def elim!: wp_mono)
  have "wp (change_rtl_pattern P s) Q"
    by (subst change_rtl_pattern.simps)
       (use Cons.prems mode_digit [of c] in \<open>auto intro!: wp_mono [OF get_char_kbd [OF k]] again simp: w Let_def\<close>)
  then show ?case by (simp add: Q_def)
qed

text \<open>
  For any keys before the first \<open>b\<close>, the pattern menu writes exactly the digits 0 to 7 among
  them, in order, to the pattern register, writes nothing else anywhere, and returns having
  consumed the input up to that \<open>b\<close>; keys above 0x7F, negative as \<open>char\<close>, are refused too.
\<close>

theorem pattern_menu_writes_digits:
  assumes "keyboard (pf_bus P) kbd lag" and "kbd (hw s) = cs @ 0x62 # rs" and "0x62 \<notin> set cs"
  shows "\<exists>s'. change_rtl_pattern P s = Some ((), s') \<and> kbd (hw s') = rs \<and>
     bus_writes (trace s') = bus_writes (trace s) @
       map (\<lambda>c. (0x80020020, ucast c - 48)) (filter (\<lambda>c. 48 \<le> c \<and> c \<le> 55) cs)"
  using pattern_menu_kbd [OF assms] by (auto simp: wp_iff pattern_writes_def)

definition demo_kbd_bus :: "u8 list bus" where
  "demo_kbd_bus = \<lparr>
     bus_rd = (\<lambda>a ks. if a = 0x20000 then (case ks of [] \<Rightarrow> (0, []) | c # cs \<Rightarrow> (0x8000 OR ucast c, cs)) else (0, ks)),
     bus_wr = (\<lambda>a d ks. ks), bus_delay = (\<lambda>us ks. ks)\<rparr>"

lemma ucast_byte_mask: "(ucast (c :: u8) :: u32) AND mask 8 = ucast c"
proof -
  have "unat c < 256" using unsigned_less [of c] by simp
  then show ?thesis
    by (simp only: word_unat_eq_iff unsigned_take_bit_eq unsigned_ucast_eq take_bit_eq_mask [symmetric])
       (simp add: take_bit_nat_eq_self)
qed

lemma ucast_byte_back: "ucast ((0x8000 OR ucast (c :: u8) :: u32) AND 0xFF) = c"
proof -
  have "(0xFF :: u32) = mask 8" by (simp add: mask_eq_exp_minus_1)
  moreover have "(0x8000 OR ucast c :: u32) AND 0xFF = ucast c AND 0xFF" by (simp add: bit.conj_disj_distrib2)
  ultimately have "(0x8000 OR ucast c :: u32) AND 0xFF = ucast c" by (simp only: ucast_byte_mask)
  moreover have "unat c < 256" using unsigned_less [of c] by simp
  then have "ucast (ucast c :: u32) = c"
    by (simp only: word_unat_eq_iff unsigned_ucast_eq) (simp add: unsigned_take_bit_eq take_bit_nat_eq_self)
  ultimately show ?thesis by simp
qed

lemma demo_keyboard: "keyboard demo_kbd_bus (\<lambda>ks. ks) (\<lambda>_. 0)"
proof -
  have "(0x8000 OR ucast (c :: u8) :: u32) AND 0x8000 \<noteq> 0" for c
    by (simp add: bit.conj_disj_distrib2)
  then show ?thesis by (auto simp: keyboard_def demo_kbd_bus_def ucast_byte_back)
qed

theorem pattern_menu_writes_digits_witness:
  "\<exists>s'. change_rtl_pattern (demo_platform demo_kbd_bus length) (demo_app [0x33, 0xC0, 0x37, 0x62, 0x71]) = Some ((), s') \<and>
     bus_writes (trace s') = [(0x80020020, 3), (0x80020020, 7)]"
  using pattern_menu_writes_digits [of "demo_platform demo_kbd_bus length" "\<lambda>ks. ks" "\<lambda>_. 0"
      "demo_app [0x33, 0xC0, 0x37, 0x62, 0x71]" "[0x33, 0xC0, 0x37]" "[0x71]"] demo_keyboard
  by auto

section \<open>The gamma tables\<close>

text \<open>What the tables rely on of \<open>pow\<close> on the unit interval, for a positive exponent.\<close>

definition pow_unit :: "(real \<Rightarrow> real \<Rightarrow> real) \<Rightarrow> bool" where
  "pow_unit pow \<longleftrightarrow> (\<forall>y. 0 < y \<longrightarrow> pow 0 y = 0 \<and> pow 1 y = 1 \<and>
     (\<forall>x z. 0 \<le> x \<longrightarrow> x \<le> z \<longrightarrow> z \<le> 1 \<longrightarrow> pow x y \<le> pow z y))"

lemma pow_unitD:
  assumes "pow_unit pow" "0 < y"
  shows "pow 0 y = 0" "pow 1 y = 1" "0 \<le> x \<Longrightarrow> x \<le> z \<Longrightarrow> z \<le> 1 \<Longrightarrow> pow x y \<le> pow z y"
  using assms unfolding pow_unit_def by blast+

lemma uint_lut_value:
  assumes "0 \<le> c" "c \<le> 1"
  shows "uint (lut_value c) = \<lfloor>c * 255 + 1 / 2\<rfloor>"
proof -
  have "0 \<le> \<lfloor>c * 255 + 1 / 2\<rfloor>" "\<lfloor>c * 255 + 1 / 2\<rfloor> < 256" using assms by (simp_all add: floor_less_iff)
  then show ?thesis unfolding lut_value_def uint_word_of_int by simp
qed

lemma gamma_entry_mono:
  assumes p: "pow_unit pow" and y: "0 < y" and ij: "i \<le> j" "j < 256"
  shows "gamma_entry pow y i \<le> gamma_entry pow y j"
proof -
  define x where "x = real i / 255"
  define z where "z = real j / 255"
  have xz: "0 \<le> x" "x \<le> z" "z \<le> 1" using ij by (simp_all add: x_def z_def divide_right_mono)
  have "0 \<le> pow x y" "pow x y \<le> pow z y" "pow z y \<le> 1"
    using pow_unitD(3) [OF p y, of 0 x] pow_unitD(3) [OF p y, of x z] pow_unitD(3) [OF p y, of z 1]
      pow_unitD(1,2) [OF p y] xz by simp_all
  then show ?thesis
    unfolding gamma_entry_def Let_def x_def [symmetric] z_def [symmetric] word_le_def
    by (simp add: uint_lut_value floor_mono)
qed

lemma gamma_entry_ends:
  assumes "pow_unit pow" "0 < y"
  shows "gamma_entry pow y 0 = 0" "gamma_entry pow y 255 = 255"
  using pow_unitD [OF assms] by (simp_all add: gamma_entry_def lut_value_def)

definition lut_writes :: "(nat \<Rightarrow> u8) \<Rightarrow> nat \<Rightarrow> (u32 \<times> u32) list" where
  "lut_writes v n = concat (map (\<lambda>i. [(0x80020028, of_nat i), (0x8002002C, ucast (v i))]) [0..<n])"

lemma lut_writes_simps [simp]:
  "lut_writes v 0 = []"
  "lut_writes v (Suc n) = lut_writes v n @ [(0x80020028, of_nat n), (0x8002002C, ucast (v n))]"
  by (simp_all add: lut_writes_def)

text \<open>A loop over the table writes it, whatever else each pass prints.\<close>

lemma lut_loop:
  fixes s :: "('h, 'x) app_st_scheme"
  assumes "\<And>i (s :: ('h, 'x) app_st_scheme). wp (body i s) (\<lambda>_ s'. bus_writes (trace s') = bus_writes (trace s) @
     [(0x80020028, of_nat i), (0x8002002C, ucast (v i))])"
  shows "wp (for_up 0 256 body s) (\<lambda>_ s'. bus_writes (trace s') = bus_writes (trace s) @ lut_writes v 256)"
proof (rule for_up_wp [where I = "\<lambda>i s'. bus_writes (trace s') = bus_writes (trace s) @ lut_writes v i"])
  fix i and s' :: "('h, 'x) app_st_scheme"
  assume w: "bus_writes (trace s') = bus_writes (trace s) @ lut_writes v i"
  show "wp (body i s') (\<lambda>_ s'. bus_writes (trace s') = bus_writes (trace s) @ lut_writes v (Suc i))"
    by (rule wp_mono [OF assms [of i s']]) (simp add: w)
qed simp_all

lemma load_gamma_table_writes:
  "wp (load_gamma_table P g s) (\<lambda>_ s'. bus_writes (trace s') = bus_writes (trace s) @
     lut_writes (gamma_entry (pf_pow P) (1 / (if g \<le> 1 / 10 then 22 / 10 else g))) 256)"
  unfolding load_gamma_table_def
  by (auto intro!: wp_mono [OF lut_loop] simp: lut_write_def lut_print_def ALT_USLEEP_def Let_def)

lemma load_inverse_writes:
  "wp (load_inverse_gamma_table P s) (\<lambda>_ s'. bus_writes (trace s') = bus_writes (trace s) @
     lut_writes (gamma_entry (pf_pow P) (22 / 10)) 256)"
  unfolding load_inverse_gamma_table_def
  by (auto intro!: wp_mono [OF lut_loop] simp: lut_write_def ALT_USLEEP_def Let_def)

text \<open>
  C38. Loading a gamma table, direct or inverse, returns after writing all 256 entries in order,
  each as its index and then its value, and nothing else; the table runs from 0 to 255 without
  wrap-around and never decreases, whatever gamma was asked for.
\<close>

theorem gamma_table_complete:
  assumes "pow_unit (pf_pow P)"
  shows "\<exists>s1 s2 v w. load_gamma_table P g s = Some ((), s1) \<and>
     bus_writes (trace s1) = bus_writes (trace s) @
       concat (map (\<lambda>i. [(0x80020028, of_nat i), (0x8002002C, ucast (v i))]) [0..<256]) \<and>
     v 0 = 0 \<and> v 255 = 255 \<and> (\<forall>i j. i \<le> j \<and> j < 256 \<longrightarrow> v i \<le> (v j :: u8)) \<and>
     load_inverse_gamma_table P s = Some ((), s2) \<and>
     bus_writes (trace s2) = bus_writes (trace s) @
       concat (map (\<lambda>i. [(0x80020028, of_nat i), (0x8002002C, ucast (w i))]) [0..<256]) \<and>
     w 0 = 0 \<and> w 255 = 255 \<and> (\<forall>i j. i \<le> j \<and> j < 256 \<longrightarrow> w i \<le> (w j :: u8))"
proof -
  define y where "y = 1 / (if g \<le> 1 / 10 then 22 / 10 else g)"
  have y: "0 < y" by (simp add: y_def)
  have y2: "0 < (22 / 10 :: real)" by simp
  note e = gamma_entry_ends [OF assms y] gamma_entry_ends [OF assms y2]
  note m = gamma_entry_mono [OF assms y] gamma_entry_mono [OF assms y2]
  obtain s1 where 1: "load_gamma_table P g s = Some ((), s1)"
      "bus_writes (trace s1) = bus_writes (trace s) @ lut_writes (gamma_entry (pf_pow P) y) 256"
    using load_gamma_table_writes [of P g s] by (auto simp: wp_iff y_def)
  obtain s2 where 2: "load_inverse_gamma_table P s = Some ((), s2)"
      "bus_writes (trace s2) = bus_writes (trace s) @ lut_writes (gamma_entry (pf_pow P) (22 / 10)) 256"
    using load_inverse_writes [of P s] by (auto simp: wp_iff)
  show ?thesis
    using 1 2 [unfolded lut_writes_def] e m unfolding lut_writes_def by blast
qed

theorem gamma_table_complete_witness:
  "\<exists>s1. load_gamma_table (demo_platform demo_kbd_bus length) (22 / 10) (demo_app []) = Some ((), s1) \<and>
     length (bus_writes (trace s1)) = 512"
proof -
  have "pow_unit (pf_pow (demo_platform demo_kbd_bus length :: (u8 list, u8 list app_st) platform))"
    by (simp add: pow_unit_def demo_platform_def)
  from gamma_table_complete [OF this, of "22 / 10" "demo_app []"] show ?thesis
    by (auto simp: length_concat o_def sum_list_triv)
qed

end
