(* ===== verification/App_DMA.thy ===== *)
theory App_DMA
  imports App_HDMI
begin

text \<open>
  \<open>burst_master_test.c\<close>: the two DMA tests of the video application, and \<open>main.c\<close>: the main
  menu and the start-up.  The burst masters are hardware behind the bus; the wait for their
  status bit has no bound, as in C.
\<close>

section \<open>burst_master_test.h\<close>

abbreviation (input) OCM_TEST_WORDS :: nat where "OCM_TEST_WORDS \<equiv> 1024"
abbreviation (input) DDR_TEST_WORDS :: nat where "DDR_TEST_WORDS \<equiv> 262144"
abbreviation (input) REG_CTRL :: u32 where "REG_CTRL \<equiv> 0"
abbreviation (input) REG_STATUS :: u32 where "REG_STATUS \<equiv> 4"
abbreviation (input) REG_SRC_ADDR :: u32 where "REG_SRC_ADDR \<equiv> 8"
abbreviation (input) REG_DST_ADDR :: u32 where "REG_DST_ADDR \<equiv> 12"
abbreviation (input) REG_LEN :: u32 where "REG_LEN \<equiv> 16"
abbreviation (input) REG_RD_BURST :: u32 where "REG_RD_BURST \<equiv> 20"
abbreviation (input) REG_WR_BURST :: u32 where "REG_WR_BURST \<equiv> 24"
abbreviation (input) REG_COEFF :: u32 where "REG_COEFF \<equiv> 28"

section \<open>Shared pieces of the tests\<close>

text \<open>\<open>while (!(IORD(STATUS) & 1));\<close>\<close>

partial_function (option) dma_wait :: "('h, 's) platform \<Rightarrow> u32 \<Rightarrow> (unit, ('h, 'x) app_st_scheme) prog" where
  "dma_wait P csr_base s = do {
     (st, s) \<leftarrow> IORD_32DIRECT (pf_bus P) csr_base REG_STATUS s;
     (if st AND 1 \<noteq> 0 then Some ((), s) else dma_wait P csr_base s)
   }"

text \<open>\<open>(unsigned int)(t_end - t_start)\<close>, and 1 in place of 0: it is used as a divisor.\<close>

definition cycle_delta :: "u64 \<Rightarrow> u64 \<Rightarrow> u32" where
  "cycle_delta t_start t_end = (let d = ucast (t_end - t_start) in if d = 0 then 1 else d)"

definition rate_x10 :: "u64 \<Rightarrow> u32 \<Rightarrow> u32" where
  "rate_x10 nbytes delta = ucast (nbytes * 500000000 div ucast delta div 1048576)"

definition print_rate :: "u32 \<Rightarrow> u32 \<Rightarrow> (unit, ('h, 'x) app_st_scheme) prog" where
  "print_rate delta rate = printf ''Done (%u cycles, ~%u.%u MB/s)''
     [PInt (uint delta), PInt (uint (rate div 10)), PInt (uint (rate mod 10))]"

text \<open>\<open>for (i = a; i < b; i++) if (bad(i)) errors++;\<close>\<close>

function count_errors :: "nat \<Rightarrow> nat \<Rightarrow> (nat \<Rightarrow> (bool, 's) prog) \<Rightarrow> int \<Rightarrow> (int, 's) prog" where
  "count_errors a b bad errors s =
     (if a < b then do {
        (e, s) \<leftarrow> bad a s;
        count_errors (Suc a) b bad (if e then errors + 1 else errors) s
      } else Some (errors, s))"
  by pat_completeness auto
termination by (relation "measure (\<lambda>(a, b, _). b - a)") auto

declare count_errors.simps [simp del]

section \<open>On-chip memory to DDR\<close>

definition ocm_fill :: "('h, 's) platform \<Rightarrow> (unit, ('h, 'x) app_st_scheme) prog" where
  "ocm_fill P = for_up 0 OCM_TEST_WORDS (\<lambda>i s. do {
     (_, s) \<leftarrow> store_word P (pf_ocm P) (of_nat i) (of_nat i + 0x11110000) s;
     store_word P DDR3_WINDOW_BASE (of_nat i) 0 s
   })"

definition ocm_sw_copy :: "('h, 's) platform \<Rightarrow> (unit, ('h, 'x) app_st_scheme) prog" where
  "ocm_sw_copy P = for_up 0 100 (\<lambda>_. for_up 0 OCM_TEST_WORDS (\<lambda>i s. do {
     (v, s) \<leftarrow> load_word P (pf_ocm P) (of_nat i) s;
     store_word P DDR3_WINDOW_BASE (of_nat i) v s
   }))"

definition ocm_hw_copy :: "('h, 's) platform \<Rightarrow> u32 \<Rightarrow> u32 \<Rightarrow> u32 \<Rightarrow> (unit, ('h, 'x) app_st_scheme) prog" where
  "ocm_hw_copy P csr_base src_phys ddr_phys_base = for_up 0 100 (\<lambda>_ s. do {
     (_, s) \<leftarrow> IOWR_32DIRECT (pf_bus P) csr_base REG_SRC_ADDR src_phys s;
     (_, s) \<leftarrow> IOWR_32DIRECT (pf_bus P) csr_base REG_DST_ADDR ddr_phys_base s;
     (_, s) \<leftarrow> IOWR_32DIRECT (pf_bus P) csr_base REG_LEN (of_nat (OCM_TEST_WORDS * 4)) s;
     (_, s) \<leftarrow> IOWR_32DIRECT (pf_bus P) csr_base REG_RD_BURST 32 s;
     (_, s) \<leftarrow> IOWR_32DIRECT (pf_bus P) csr_base REG_WR_BURST 32 s;
     (_, s) \<leftarrow> IOWR_32DIRECT (pf_bus P) csr_base REG_CTRL 1 s;
     (_, s) \<leftarrow> dma_wait P csr_base s;
     IOWR_32DIRECT (pf_bus P) csr_base REG_STATUS 1 s
   })"

definition ocm_check :: "('h, 's) platform \<Rightarrow> (int, ('h, 'x) app_st_scheme) prog" where
  "ocm_check P = count_errors 0 OCM_TEST_WORDS (\<lambda>i s. do {
     (v, s) \<leftarrow> load_word P DDR3_WINDOW_BASE (of_nat i) s;
     Some (v \<noteq> of_nat i + 0x11110000, s)
   }) 0"

text \<open>The parameter \<open>ddr_base\<close> of the C function is not used.\<close>

definition run_ocm_to_ddr_test ::
  "('h, ('h, 'x) app_st_scheme) platform \<Rightarrow> u32 \<Rightarrow> u32 \<Rightarrow> (unit, ('h, 'x) app_st_scheme) prog" where
  "run_ocm_to_ddr_test P csr_base ddr_base s = do {
     (_, s) \<leftarrow> printf ''--- [TEST 1] OCM to DDR DMA (burst_master_0) ---'' [] s;
     let src_phys = pf_ocm P AND 0x7FFFFFFF;
     (_, s) \<leftarrow> ocm_fill P s;
     (_, s) \<leftarrow> alt_dcache_flush_all P s;
     (_, s) \<leftarrow> printf ''Starting SW Copy (4KB x 100)... '' [] s;
     (sw_t_start, s) \<leftarrow> get_total_cycles P s;
     (_, s) \<leftarrow> ocm_sw_copy P s;
     (sw_t_end, s) \<leftarrow> get_total_cycles P s;
     let sw_delta = cycle_delta sw_t_start sw_t_end;
     (_, s) \<leftarrow> print_rate sw_delta (rate_x10 (of_nat OCM_TEST_WORDS * 4 * 100) sw_delta) s;
     (_, s) \<leftarrow> alt_dcache_flush_all P s;
     (_, s) \<leftarrow> printf ''Starting HW DMA (4KB x 100)... '' [] s;
     (hw_t_start, s) \<leftarrow> get_total_cycles P s;
     let ddr_phys_base = 0x30000000;
     (_, s) \<leftarrow> ocm_hw_copy P csr_base src_phys ddr_phys_base s;
     (hw_t_end, s) \<leftarrow> get_total_cycles P s;
     let hw_delta = cycle_delta hw_t_start hw_t_end;
     (_, s) \<leftarrow> print_rate hw_delta (rate_x10 (of_nat OCM_TEST_WORDS * 4 * 100) hw_delta) s;
     (_, s) \<leftarrow> printf ''Speedup: %u x'' [PInt (uint (sw_delta div hw_delta))] s;
     (_, s) \<leftarrow> alt_dcache_flush_all P s;
     (errors, s) \<leftarrow> ocm_check P s;
     (if errors = 0 then printf ''SUCCESS: OCM to DDR Verified!'' [] s
      else printf ''FAILURE: %d errors in OCM test.'' [PInt errors] s)
   }"

section \<open>DDR to DDR\<close>

abbreviation (input) src_offset :: u32 where "src_offset \<equiv> 0x01000000"
abbreviation (input) dst_sw_offset :: u32 where "dst_sw_offset \<equiv> 0x02000000"
abbreviation (input) dst_hw_offset :: u32 where "dst_hw_offset \<equiv> 0x03000000"

definition ddr_fill :: "('h, 's) platform \<Rightarrow> (unit, ('h, 'x) app_st_scheme) prog" where
  "ddr_fill P = for_up 0 DDR_TEST_WORDS (\<lambda>i s. do {
     (_, s) \<leftarrow> store_word P (DDR3_WINDOW_BASE + src_offset) (of_nat i) (of_nat i + 1023) s;
     (_, s) \<leftarrow> store_word P (DDR3_WINDOW_BASE + dst_sw_offset) (of_nat i) 0 s;
     store_word P (DDR3_WINDOW_BASE + dst_hw_offset) (of_nat i) 0 s
   })"

definition scale_word :: "u32 \<Rightarrow> u32 \<Rightarrow> u32" where
  "scale_word test_coeff v = ucast ((ucast v :: u64) * ucast test_coeff div 400)"

definition ddr_sw_copy :: "('h, 's) platform \<Rightarrow> u32 \<Rightarrow> (unit, ('h, 'x) app_st_scheme) prog" where
  "ddr_sw_copy P test_coeff = for_up 0 DDR_TEST_WORDS (\<lambda>i s. do {
     (v, s) \<leftarrow> load_word P (DDR3_WINDOW_BASE + src_offset) (of_nat i) s;
     store_word P (DDR3_WINDOW_BASE + dst_sw_offset) (of_nat i) (scale_word test_coeff v) s
   })"

definition ddr_hw_copy :: "('h, 's) platform \<Rightarrow> u32 \<Rightarrow> u32 \<Rightarrow> (unit, ('h, 'x) app_st_scheme) prog" where
  "ddr_hw_copy P csr_base ddr_phys_base s = do {
     (_, s) \<leftarrow> IOWR_32DIRECT (pf_bus P) csr_base REG_SRC_ADDR (ddr_phys_base + src_offset) s;
     (_, s) \<leftarrow> IOWR_32DIRECT (pf_bus P) csr_base REG_DST_ADDR (ddr_phys_base + dst_hw_offset) s;
     (_, s) \<leftarrow> IOWR_32DIRECT (pf_bus P) csr_base REG_LEN (of_nat (DDR_TEST_WORDS * 4)) s;
     (_, s) \<leftarrow> IOWR_32DIRECT (pf_bus P) csr_base REG_CTRL 1 s;
     (_, s) \<leftarrow> dma_wait P csr_base s;
     IOWR_32DIRECT (pf_bus P) csr_base REG_STATUS 1 s
   }"

definition ddr_check :: "('h, 's) platform \<Rightarrow> (int, ('h, 'x) app_st_scheme) prog" where
  "ddr_check P = count_errors 0 1024 (\<lambda>i s. do {
     (a, s) \<leftarrow> load_word P (DDR3_WINDOW_BASE + dst_hw_offset) (of_nat i) s;
     (b, s) \<leftarrow> load_word P (DDR3_WINDOW_BASE + dst_sw_offset) (of_nat i) s;
     let diff = sint (a - b);
     Some (diff > 1 \<or> diff < -1, s)
   }) 0"

definition run_ddr_to_ddr_test ::
  "('h, ('h, 'x) app_st_scheme) platform \<Rightarrow> u32 \<Rightarrow> u32 \<Rightarrow> (unit, ('h, 'x) app_st_scheme) prog" where
  "run_ddr_to_ddr_test P csr_base ddr_base s = do {
     (_, s) \<leftarrow> print_lines [''--- [TEST 2] DDR to DDR DMA (Burst Master 4) ---'', ''Transfer Size: 1 MB''] s;
     (_, s) \<leftarrow> ddr_fill P s;
     (_, s) \<leftarrow> alt_dcache_flush_all P s;
     let test_coeff = 800;
     (_, s) \<leftarrow> printf ''Starting SW Copy (1MB)... '' [] s;
     (sw_t_start, s) \<leftarrow> get_total_cycles P s;
     (_, s) \<leftarrow> ddr_sw_copy P test_coeff s;
     (sw_t_end, s) \<leftarrow> get_total_cycles P s;
     let sw_delta = cycle_delta sw_t_start sw_t_end;
     (_, s) \<leftarrow> print_rate sw_delta (rate_x10 (of_nat DDR_TEST_WORDS * 4) sw_delta) s;
     (_, s) \<leftarrow> alt_dcache_flush_all P s;
     (_, s) \<leftarrow> IOWR_32DIRECT (pf_bus P) csr_base REG_RD_BURST 256 s;
     (_, s) \<leftarrow> IOWR_32DIRECT (pf_bus P) csr_base REG_WR_BURST 256 s;
     (_, s) \<leftarrow> IOWR_32DIRECT (pf_bus P) csr_base REG_COEFF test_coeff s;
     (_, s) \<leftarrow> printf ''Starting HW DMA (1MB)... '' [] s;
     (hw_t_start, s) \<leftarrow> get_total_cycles P s;
     let ddr_phys_base = 0x30000000;
     (_, s) \<leftarrow> ddr_hw_copy P csr_base ddr_phys_base s;
     (hw_t_end, s) \<leftarrow> get_total_cycles P s;
     let hw_delta = cycle_delta hw_t_start hw_t_end;
     (_, s) \<leftarrow> print_rate hw_delta (rate_x10 (of_nat DDR_TEST_WORDS * 4) hw_delta) s;
     (_, s) \<leftarrow> printf ''Speedup: %u x'' [PInt (uint (sw_delta div hw_delta))] s;
     (_, s) \<leftarrow> printf ''Verifying HW Output...'' [] s;
     (errors, s) \<leftarrow> ddr_check P s;
     (if errors = 0 then printf ''SUCCESS: DDR to DDR Verified! (Coeff=%u)'' [PInt (uint test_coeff)] s
      else printf ''FAILURE: %d errors in DDR test.'' [PInt errors] s)
   }"

section \<open>main.c\<close>

definition print_menu :: "(unit, ('h, 'x) app_st_scheme) prog" where
  "print_menu = print_lines
     [''========== DE10-Nano HDMI Pipeline Menu =========='',
      '' [1] Perform OCM-to-DDR DMA Test (4KB)'',
      '' [2] Perform DDR-to-DDR Burst Master Test (1MB)'',
      '' [3] Initialize HDMI (ADV7513 via I2C)'',
      '' [4] Generate 720p Color Bar Pattern in DDR3'',
      '' [5] Change RTL Test Pattern (Red, Green, Blue, etc.)'',
      '' [6] Gamma Correction Settings (Table, Toggle, Standard)'',
      '' [8] DMA & Video Source Debug Submenu'',
      '' [C] Load Custom Character Bitmap'',
      '' [r] Reset RTL Pattern Generator'',
      '' [q] Quit'',
      ''--------------------------------------------------'',
      ''Select an option: '']"

text \<open>\<open>choice = 0; while (choice < ' ') choice = get_char_polled();\<close> with a signed \<open>char\<close>.\<close>

partial_function (option) read_choice :: "('h, 's) platform \<Rightarrow> (u8, ('h, 'x) app_st_scheme) prog" where
  "read_choice P s = do {
     (c, s) \<leftarrow> get_char_polled P s;
     (if sint c < 32 then read_choice P s else Some (c, s))
   }"

definition set_window :: "('h, 's) platform \<Rightarrow> u32 \<Rightarrow> (unit, ('h, 'x) app_st_scheme) prog" where
  "set_window P base s = IOWR_32DIRECT (pf_bus P) SPAN_CNTL_BASE 0 base s"

definition menu_choice ::
  "('h, ('h, 'x) app_st_scheme) platform \<Rightarrow> u8 \<Rightarrow> (unit, ('h, 'x) app_st_scheme) prog" where
  "menu_choice P choice s =
     (if choice = ch CHR ''1'' then do {
        (_, s) \<leftarrow> set_window P 0x20000000 s;
        (_, s) \<leftarrow> printf ''[Switch] Window mapped to 0x20000000 for Benchmark'' [] s;
        (_, s) \<leftarrow> run_ocm_to_ddr_test P (BURST_MASTER_0_BASE OR CACHE_BYPASS_MASK) 0x20000000 s;
        (_, s) \<leftarrow> set_window P 0x30000000 s;
        printf ''[Restore] Window mapped to 0x30000000 for Video'' [] s
      } else if choice = ch CHR ''2'' then do {
        (_, s) \<leftarrow> set_window P 0x20000000 s;
        (_, s) \<leftarrow> printf ''[Switch] Window mapped to 0x20000000 for Benchmark'' [] s;
        (_, s) \<leftarrow> run_ddr_to_ddr_test P (BURST_MASTER_4_0_BASE OR CACHE_BYPASS_MASK) 0x20000000 s;
        (_, s) \<leftarrow> set_window P 0x30000000 s;
        printf ''[Restore] Window mapped to 0x30000000 for Video'' [] s
      } else if choice = ch CHR ''3'' then do { (_, s) \<leftarrow> hdmi_init P s; Some ((), s) }
      else if choice = ch CHR ''4'' then generate_color_bar_pattern P s
      else if choice = ch CHR ''5'' then change_rtl_pattern P s
      else if choice = ch CHR ''8'' then run_dma_debug_submenu P s
      else if choice = ch CHR ''6'' then run_gamma_submenu P s
      else if choice = ch CHR ''C'' \<or> choice = ch CHR ''c'' then load_char_bitmap P s
      else if choice = ch CHR ''r'' then do {
        (_, s) \<leftarrow> IOWR_32DIRECT (pf_bus P) SYNC_GEN REG_PATTERN_MODE 0 s;
        printf ''RTL Pattern Reset to 0 (Red)'' [] s
      }
      else printf ''Invalid option! Please try again.'' [] s)"

partial_function (option) run_interactive_menu ::
  "('h, ('h, 'x) app_st_scheme) platform \<Rightarrow> (unit, ('h, 'x) app_st_scheme) prog" where
  "run_interactive_menu P s = do {
     (_, s) \<leftarrow> print_menu s;
     (choice, s) \<leftarrow> read_choice P s;
     (_, s) \<leftarrow> printf ''%c'' [PInt (sint choice)] s;
     (if choice = ch CHR ''q'' then printf ''Exiting... Goodbye!'' [] s
      else do {
        (_, s) \<leftarrow> menu_choice P choice s;
        run_interactive_menu P s
      })
   }"

text \<open>
  \<open>main\<close>.  \<open>NIOS2_WRITE_STATUS\<close> writes control register 0; register 1 of the timer is its
  control register, the value sets \<open>CONT\<close>, \<open>START\<close> and \<open>ITO\<close>.  The empty delay loop of 10000
  iterations between the two readings only passes time, in which interrupts are taken.
\<close>

definition app_main :: "('h, ('h, 'x) app_st_scheme) platform \<Rightarrow> (int, ('h, 'x) app_st_scheme) prog" where
  "app_main P s = do {
     (_, s) \<leftarrow> printf ''DE10-Nano Video/DMA Test Environment Initialized'' [] s;
     let s = s\<lparr>cpu_status := 1\<rparr>;
     (_, s) \<leftarrow> IOWR (pf_bus P) TIMER_0_BASE 1 (2 OR 4 OR 1) s;
     (_, s) \<leftarrow> printf ''Checking Timer... '' [] s;
     (start_time, s) \<leftarrow> get_total_cycles P s;
     (_, s) \<leftarrow> for_up 0 10000 (\<lambda>_. pf_irq P) s;
     (end_time, s) \<leftarrow> get_total_cycles P s;
     (_, s) \<leftarrow>
       (if end_time > start_time
        then printf ''Timer OK! (Delta=%u)'' [PInt (uint (ucast (end_time - start_time) :: u32))] s
        else printf ''Timer STUCK! (Val=%u)'' [PInt (uint (ucast start_time :: u32))] s);
     let ddr_phys_base = 0x30000000;
     (_, s) \<leftarrow> printf ''Initializing Span Extender to 0x%08X... '' [PInt (uint ddr_phys_base)] s;
     (_, s) \<leftarrow> IOWR_32DIRECT (pf_bus P) SPAN_CNTL_BASE 0 ddr_phys_base s;
     (_, s) \<leftarrow> IOWR_32DIRECT (pf_bus P) SPAN_CNTL_BASE 4 0 s;
     (_, s) \<leftarrow> printf ''Done.'' [] s;
     (_, s) \<leftarrow> printf ''Checking PLL Lock Status... '' [] s;
     (pll_locked, s) \<leftarrow> IORD_32DIRECT (pf_bus P) PLL_LOCKED_BASE 0 s;
     (_, s) \<leftarrow>
       (if pll_locked AND 1 \<noteq> 0 then printf ''LOCKED (0x%x)'' [PInt (uint pll_locked)] s
        else do {
          (_, s) \<leftarrow> printf ''FAILED (0x%x)'' [PInt (uint pll_locked)] s;
          printf ''WARNING: HDMI Clock might be dead!'' [] s
        });
     (_, s) \<leftarrow> run_interactive_menu P s;
     Some (0, s)
   }"

end
