(* ===== verification/App_DMA_Props.thy ===== *)
theory App_DMA_Props
  imports App_DMA App_Timer_Claims
begin

text \<open>
  The DMA tests on a board with memory.  \<open>dma_board\<close> states what they rely on: words in a region
  \<open>R\<close> read back as written and are touched by nothing else (in particular not by the engine under
  test), the timer runs, and the engine reports completion after finitely many polls.
  \<open>mem_at\<close> says where a run stands: the hardware is in \<open>J\<close> and the words of \<open>R\<close> are those of \<open>f\<close>.
\<close>

definition dma_board :: "('h, ('h, 'x) app_st_scheme) platform \<Rightarrow> ('h \<Rightarrow> bool) \<Rightarrow> u32 set \<Rightarrow> ('h \<Rightarrow> u32 \<Rightarrow> u32)
    \<Rightarrow> u32 set \<Rightarrow> bool" where
  "dma_board P J R ram ex \<longleftrightarrow>
     (\<forall>h a. J h \<longrightarrow> J (snd (bus_rd (pf_bus P) a h)) \<and> (\<forall>b\<in>R. ram (snd (bus_rd (pf_bus P) a h)) b = ram h b)) \<and>
     (\<forall>h a. J h \<longrightarrow> a \<in> R \<longrightarrow> fst (bus_rd (pf_bus P) a h) = ram h a) \<and>
     (\<forall>h a d. J h \<longrightarrow> a \<notin> ex \<longrightarrow> J (bus_wr (pf_bus P) a d h) \<and>
        (\<forall>b\<in>R. ram (bus_wr (pf_bus P) a d h) b = (if a = b then d else ram h b))) \<and>
     (\<forall>h i. J h \<longrightarrow> J (pf_flushd P i h) \<and> (\<forall>b\<in>R. ram (pf_flushd P i h) b = ram h b)) \<and>
     (\<forall>s. J (hw s) \<longrightarrow> wlp (pf_irq P s) (\<lambda>_ s'. J (hw s') \<and> (\<forall>b\<in>R. ram (hw s') b = ram (hw s) b)))"

definition engine_answers :: "'h bus \<Rightarrow> u32 \<Rightarrow> ('h \<Rightarrow> nat) \<Rightarrow> bool" where
  "engine_answers B csr busy \<longleftrightarrow> (\<forall>h. fst (bus_rd B (csr + 4) h) AND 1 \<noteq> 0 \<or> busy (snd (bus_rd B (csr + 4) h)) < busy h)"

definition mem_at :: "('h \<Rightarrow> bool) \<Rightarrow> u32 set \<Rightarrow> ('h \<Rightarrow> u32 \<Rightarrow> u32) \<Rightarrow> (u32 \<Rightarrow> u32) \<Rightarrow> ('h, 'x) app_st_scheme \<Rightarrow> bool" where
  "mem_at J R ram f s \<longleftrightarrow> J (hw s) \<and> (\<forall>a\<in>R. ram (hw s) a = f a)"

lemma mem_at_console [simp]: "mem_at J R ram f (s\<lparr>console := c\<rparr>) = mem_at J R ram f s"
  by (simp add: mem_at_def)

lemma dma_boardD:
  assumes "dma_board P J R ram ex" "J h"
  shows "J (snd (bus_rd (pf_bus P) a h))" "b \<in> R \<Longrightarrow> ram (snd (bus_rd (pf_bus P) a h)) b = ram h b"
    "a \<in> R \<Longrightarrow> fst (bus_rd (pf_bus P) a h) = ram h a"
    "a \<notin> ex \<Longrightarrow> J (bus_wr (pf_bus P) a d h)"
    "a \<notin> ex \<Longrightarrow> b \<in> R \<Longrightarrow> ram (bus_wr (pf_bus P) a d h) b = (if a = b then d else ram h b)"
    "J (pf_flushd P i h)" "b \<in> R \<Longrightarrow> ram (pf_flushd P i h) b = ram h b"
  using assms unfolding dma_board_def by blast+

lemma dma_board_irq:
  "dma_board P J R ram ex \<Longrightarrow> mem_at J R ram f s \<Longrightarrow> wlp (pf_irq P s) (\<lambda>_. mem_at J R ram f)"
  unfolding dma_board_def mem_at_def by (auto elim!: wlp_mono)

section \<open>Accesses\<close>

lemma mem_store:
  assumes "dma_board P J R ram ex" "mem_at J R ram f s" "p + i * 4 \<in> R" "p + i * 4 \<notin> ex"
  shows "wp (store_word P p i v s) (\<lambda>_. mem_at J R ram (f(p + i * 4 := v)))"
  using assms dma_boardD [OF assms(1)] by (auto simp: store_word_def mem_at_def)

lemma mem_load:
  assumes "dma_board P J R ram ex" "mem_at J R ram f s" "p + i * 4 \<in> R"
  shows "wp (load_word P p i s) (\<lambda>r s'. r = f (p + i * 4) \<and> mem_at J R ram f s')"
  using assms dma_boardD [OF assms(1)] by (auto simp: load_word_def mem_at_def)

lemma mem_write:
  assumes "dma_board P J R ram ex" "mem_at J R ram f s" "b + off \<notin> R" "b + off \<notin> ex"
  shows "wp (IOWR_32DIRECT (pf_bus P) b off d s) (\<lambda>_. mem_at J R ram f)"
  using assms dma_boardD [OF assms(1)] by (auto simp: mem_at_def)

lemma mem_flush:
  assumes b: "dma_board P J R ram ex" and m: "mem_at J R ram f s"
  shows "wp (alt_dcache_flush_all P s) (\<lambda>_. mem_at J R ram f)"
  using flush_lines_keeps [of "\<lambda>h. J h \<and> (\<forall>a\<in>R. ram h a = f a)" s P 0] m dma_boardD(6,7) [OF b]
  by (auto simp: mem_at_def alt_dcache_flush_all_def)

section \<open>Timing\<close>

lemma cycles_pass_syncs:
  assumes b: "timer_board P cyc latch"
  shows "wp (cycles_pass P s) (\<lambda>_. timer_synced cyc)"
proof -
  have i: "wp (pf_irq P s) (\<lambda>_. timer_synced cyc)" for s
    by (rule wp_mono [OF timer_boardD(7) [OF b]]) simp
  show ?thesis by (auto simp: cycles_pass_def Let_def intro!: wp_mono [OF i])
qed

lemma total_cycles_returns:
  assumes b: "timer_board P cyc latch"
  shows "wp (get_total_cycles P s) (\<lambda>_ _. True)"
proof -
  obtain t1 snap t2 s1 where p: "cycles_pass P s = Some ((t1, snap, t2), s1)" "timer_synced cyc s1"
    using cycles_pass_syncs [OF b, of s] by (auto simp: wp_iff)
  have "wp (cycles_loop P s) (\<lambda>_ _. True)"
    using cycles_loop_good [OF b p(2)] p(1) by (subst cycles_loop.simps) (auto simp: wp_iff)
  then show ?thesis by (auto simp: get_total_cycles_def Let_def wp_iff)
qed

text \<open>Partial correctness of the loop for any predicate its pass keeps.\<close>

lemma cycles_loop_keeps:
  assumes "\<And>s. I s \<Longrightarrow> wlp (cycles_pass P s) (\<lambda>_. I)"
  shows "I s \<Longrightarrow> wlp (cycles_loop P s) (\<lambda>_. I)"
proof (rule wlp_runI)
  fix r assume I: "I s" and run: "cycles_loop P s = Some r"
  have "fst (P, s) = P \<longrightarrow> I (snd (P, s)) \<longrightarrow> I (snd r)"
  proof (rule cycles_loop.raw_induct [where Pa = "\<lambda>p r. fst p = P \<longrightarrow> I (snd p) \<longrightarrow> I (snd r)", OF _ run], goal_cases)
    case (1 f P' s r)
    show ?case
    proof (intro impI, unfold fst_conv snd_conv)
      assume P: "P' = P" and s: "I s"
      have f: "wlp (f P s) (\<lambda>_. I)" if "I s" for s using that 1(1) [of P s] by (intro wlp_runI) auto
      show "I (snd r)"
        by (rule wlp_runD [OF 1(2) [unfolded P], where Q = "\<lambda>_. I"]) (auto intro!: f wlp_mono [OF assms] s)
    qed
  qed
  with I show "I (snd r)" by simp
qed

lemma mem_cycles:
  assumes b: "dma_board P J R ram ex" and t: "timer_board P cyc latch" and m: "mem_at J R ram f s"
    and r: "TIMER_0_BASE + 16 \<notin> R" "TIMER_0_BASE + 16 \<notin> ex"
  shows "wp (get_total_cycles P s) (\<lambda>_. mem_at J R ram f)"
proof -
  have pass: "wlp (cycles_pass P s) (\<lambda>_. mem_at J R ram f)" if "mem_at J R ram f s" for s
    using that r dma_boardD [OF b]
    by (auto simp: cycles_pass_def Let_def mem_at_def intro!: wlp_mono [OF dma_board_irq [OF b, of f], unfolded mem_at_def])
  have "wlp (get_total_cycles P s) (\<lambda>_. mem_at J R ram f)"
    by (auto simp: get_total_cycles_def Let_def intro!: wlp_mono [OF cycles_loop_keeps [of "mem_at J R ram f", OF pass m]])
  from wp_wlp_conj [OF total_cycles_returns [OF t] this] show ?thesis by simp
qed

section \<open>The engine\<close>

lemma mem_dma_wait:
  assumes b: "dma_board P J R ram ex" and e: "engine_answers (pf_bus P) csr busy"
  shows "mem_at J R ram f s \<Longrightarrow> wp (dma_wait P csr s) (\<lambda>_. mem_at J R ram f)"
proof (induction "busy (hw s)" arbitrary: s rule: less_induct)
  case less
  define s1 where "s1 = s\<lparr>hw := snd (bus_rd (pf_bus P) (csr + 4) (hw s)),
      trace := trace s @ [Rd (csr + 4) (fst (bus_rd (pf_bus P) (csr + 4) (hw s)))]\<rparr>"
  have m: "mem_at J R ram f s1"
    using less.prems dma_boardD [OF b] by (auto simp: mem_at_def s1_def)
  have u: "dma_wait P csr s =
      (if fst (bus_rd (pf_bus P) (csr + 4) (hw s)) AND 1 \<noteq> 0 then Some ((), s1) else dma_wait P csr s1)"
    by (subst dma_wait.simps) (simp add: s1_def)
  show ?case
  proof (cases "fst (bus_rd (pf_bus P) (csr + 4) (hw s)) AND 1 = 0")
    case True
    then have "busy (hw s1) < busy (hw s)" using e by (auto simp: engine_answers_def s1_def)
    from less.hyps [OF this m] True show ?thesis unfolding u by simp
  next
    case False
    with m show ?thesis unfolding u by simp
  qed
qed

end
