(* ===== verification/App_Menu_Props.thy ===== *)
theory App_Menu_Props
  imports App_DMA App_Video_Claims
begin

text \<open>
  What the whole menu keeps.  The locale \<open>app_keeps\<close> has one predicate \<open>I\<close> on states, kept by the
  accesses to every address outside a set \<open>bad\<close> and by the transactions of the I2C driver; its
  lemmas say that every function the menu calls keeps it.
\<close>

declare IORD_eq [simp del] IOWR_eq [simp del] IORD_32DIRECT_eq [simp del] IOWR_32DIRECT_eq [simp del]
  alt_busy_sleep_eq [simp del] printf_eq [simp del] print_lines_eq [simp del]

locale app_keeps =
  fixes P :: "('h, ('h, 'x) app_st_scheme) platform"
    and I :: "('h, 'x) app_st_scheme \<Rightarrow> bool"
    and bad :: "u32 set"
  assumes bad_sub: "bad \<subseteq> {SPAN_CNTL_BASE}"
    and rd: "I s \<Longrightarrow> wlp (IORD_32DIRECT (pf_bus P) b off s) (\<lambda>_. I)"
    and wr: "I s \<Longrightarrow> b + off \<notin> bad \<Longrightarrow> wlp (IOWR_32DIRECT (pf_bus P) b off d s) (\<lambda>_. I)"
    and nap: "I s \<Longrightarrow> wlp (alt_busy_sleep (pf_bus P) us s) (\<lambda>_. I)"
    and irq: "I s \<Longrightarrow> wlp (pf_irq P s) (\<lambda>_. I)"
    and flush: "I s \<Longrightarrow> I (s\<lparr>hw := h\<rparr>)"
    and status: "I s \<Longrightarrow> I (s\<lparr>cpu_status := w\<rparr>)"
    and mem: "I s \<Longrightarrow> I (s\<lparr>bytes := m\<rparr>)"
    and con: "I s \<Longrightarrow> I (s\<lparr>console := c\<rparr>)"
    and vars: "I s \<Longrightarrow> I (s\<lparr>hdmi_i2c_dev := p\<rparr>)" "I s \<Longrightarrow> I (s\<lparr>gamma_en := g\<rparr>)"
      "I s \<Longrightarrow> I (s\<lparr>dma_mode_active := g\<rparr>)" "I s \<Longrightarrow> I (s\<lparr>cont_active := g\<rparr>)"
    and target: "I s \<Longrightarrow> wlp (alt_avalon_i2c_master_target_set t s) (\<lambda>_. I)"
    and tx: "I s \<Longrightarrow> wlp (alt_avalon_i2c_master_tx (pf_bus P) buf n ui s) (\<lambda>_. I)"
    and conf: "I s \<Longrightarrow> wlp (hdmi_configure P s) (\<lambda>_. I)"
begin

lemma print: "I s \<Longrightarrow> wlp (printf f as s) (\<lambda>_. I)"
  by (simp add: printf_eq con)

lemma prints: "I s \<Longrightarrow> wlp (print_lines ls s) (\<lambda>_. I)"
  by (simp add: print_lines_eq con)

lemma iord: "I s \<Longrightarrow> wlp (IORD (pf_bus P) b r s) (\<lambda>_. I)"
  using rd unfolding IORD_def .

lemma iowr: "I s \<Longrightarrow> b + r * 4 \<notin> bad \<Longrightarrow> wlp (IOWR (pf_bus P) b r d s) (\<lambda>_. I)"
  using wr [of s "IO_CALC_ADDRESS_NATIVE b r" 0] unfolding IOWR_def by (simp add: IO_CALC_ADDRESS_NATIVE_def)

lemmas acc = wlp_mono [OF rd] wlp_mono [OF wr] wlp_mono [OF iord] wlp_mono [OF iowr] wlp_mono [OF nap]
  wlp_mono [OF irq] wlp_mono [OF print] wlp_mono [OF prints]

lemma get_char: "I s \<Longrightarrow> wlp (get_char_polled P s) (\<lambda>_. I)"
proof (rule wlp_runI)
  fix r assume I: "I s" and run: "get_char_polled P s = Some r"
  have "fst (P, s) = P \<longrightarrow> I (snd (P, s)) \<longrightarrow> I (snd r)"
  proof (rule get_char_polled.raw_induct [where Pa = "\<lambda>p r. fst p = P \<longrightarrow> I (snd p) \<longrightarrow> I (snd r)", OF _ run], goal_cases)
    case (1 f P' s r)
    show ?case
    proof (intro impI, unfold fst_conv snd_conv)
      assume P: "P' = P" and s: "I s"
      have f: "wlp (f P s) (\<lambda>_. I)" if "I s" for s using that 1(1) [of P s] by (intro wlp_runI) auto
      show "I (snd r)"
        by (rule wlp_runD [OF 1(2) [unfolded P], where Q = "\<lambda>_. I"]) (auto  intro!: f acc s)
    qed
  qed
  with I show "I (snd r)" by simp
qed

lemma read: "I s \<Longrightarrow> wlp (read_choice P s) (\<lambda>_. I)"
proof (rule wlp_runI)
  fix r assume I: "I s" and run: "read_choice P s = Some r"
  have "fst (P, s) = P \<longrightarrow> I (snd (P, s)) \<longrightarrow> I (snd r)"
  proof (rule read_choice.raw_induct [where Pa = "\<lambda>p r. fst p = P \<longrightarrow> I (snd p) \<longrightarrow> I (snd r)", OF _ run], goal_cases)
    case (1 f P' s r)
    show ?case
    proof (intro impI, unfold fst_conv snd_conv)
      assume P: "P' = P" and s: "I s"
      have f: "wlp (f P s) (\<lambda>_. I)" if "I s" for s using that 1(1) [of P s] by (intro wlp_runI) auto
      show "I (snd r)"
        by (rule wlp_runD [OF 1(2) [unfolded P], where Q = "\<lambda>_. I"]) (auto  intro!: f wlp_mono [OF get_char] s)
    qed
  qed
  with I show "I (snd r)" by simp
qed

lemma cycles_pass_keeps: "I s \<Longrightarrow> wlp (cycles_pass P s) (\<lambda>_. I)"
  using bad_sub by (auto simp: cycles_pass_def Let_def intro!: acc)

lemma cycles: "I s \<Longrightarrow> wlp (cycles_loop P s) (\<lambda>_. I)"
proof (rule wlp_runI)
  fix r assume I: "I s" and run: "cycles_loop P s = Some r"
  have "fst (P, s) = P \<longrightarrow> I (snd (P, s)) \<longrightarrow> I (snd r)"
  proof (rule cycles_loop.raw_induct [where Pa = "\<lambda>p r. fst p = P \<longrightarrow> I (snd p) \<longrightarrow> I (snd r)", OF _ run], goal_cases)
    case (1 f P' s r)
    show ?case
    proof (intro impI, unfold fst_conv snd_conv)
      assume P: "P' = P" and s: "I s"
      have f: "wlp (f P s) (\<lambda>_. I)" if "I s" for s using that 1(1) [of P s] by (intro wlp_runI) auto
      show "I (snd r)"
        by (rule wlp_runD [OF 1(2) [unfolded P], where Q = "\<lambda>_. I"]) (auto  intro!: f wlp_mono [OF cycles_pass_keeps] s)
    qed
  qed
  with I show "I (snd r)" by simp
qed

lemma total_cycles: "I s \<Longrightarrow> wlp (get_total_cycles P s) (\<lambda>_. I)"
  by (auto simp: get_total_cycles_def Let_def intro!: wlp_mono [OF cycles])

lemma loop_keeps: "(\<And>i s. I s \<Longrightarrow> wlp (body i s) (\<lambda>_. I)) \<Longrightarrow> I s \<Longrightarrow> wlp (for_up 0 n body s) (\<lambda>_. I)"
  by (rule for_up_wlp [where I = "\<lambda>_. I"]) auto

lemma flush_keeps: "I s \<Longrightarrow> wlp (alt_dcache_flush_all P s) (\<lambda>_. I)"
  using flush_lines_returns [of P 0 s] flush by (auto simp: alt_dcache_flush_all_def)

lemma usleep: "I s \<Longrightarrow> wlp (ALT_USLEEP (pf_bus P) us s) (\<lambda>_. I)"
  by (auto simp: ALT_USLEEP_def intro!: acc)

lemma sync_gen [simp]: "0x80020020 \<notin> bad" "0x80020024 \<notin> bad" "0x80020028 \<notin> bad" "0x8002002C \<notin> bad"
    "0x80020030 \<notin> bad" "0x80020034 \<notin> bad"
  using bad_sub by auto

lemma store: "I s \<Longrightarrow> p + i * 4 \<notin> bad \<Longrightarrow> wlp (store_word P p i v s) (\<lambda>_. I)"
  unfolding store_word_def by (rule wr)

lemma load: "I s \<Longrightarrow> wlp (load_word P p i s) (\<lambda>_. I)"
  unfolding load_word_def by (rule rd)

lemmas steps = acc wlp_mono [OF usleep] wlp_mono [OF loop_keeps] wlp_mono [OF flush_keeps]
  wlp_mono [OF get_char] wlp_mono [OF total_cycles] wlp_mono [OF store] wlp_mono [OF load]
  print prints con vars mem

lemma lut_keeps: "I s \<Longrightarrow> wlp (lut_write P i v s) (\<lambda>_. I)" "I s \<Longrightarrow> wlp (lut_print i v s) (\<lambda>_. I)"
  by (auto simp: lut_write_def lut_print_def intro!: steps)

lemma tables:
  "I s \<Longrightarrow> wlp (load_gamma_table P g s) (\<lambda>_. I)"
  "I s \<Longrightarrow> wlp (load_srgb_gamma_table P s) (\<lambda>_. I)"
  "I s \<Longrightarrow> wlp (load_inverse_gamma_table P s) (\<lambda>_. I)"
  by (auto simp: load_gamma_table_def load_srgb_gamma_table_def load_inverse_gamma_table_def Let_def
      intro!: steps wlp_mono [OF lut_keeps(1)] lut_keeps)

lemma controls:
  "I s \<Longrightarrow> wlp (set_gamma_enable P en s) (\<lambda>_. I)"
  "I s \<Longrightarrow> wlp (dma_set_continuous P en s) (\<lambda>_. I)"
  "I s \<Longrightarrow> wlp (dma_start_single P s) (\<lambda>_. I)"
  "I s \<Longrightarrow> wlp (print_dma_status P s) (\<lambda>_. I)"
  "I s \<Longrightarrow> wlp (load_char_bitmap P s) (\<lambda>_. I)"
  by (auto simp: set_gamma_enable_def dma_set_continuous_def dma_start_single_def print_dma_status_def
      load_char_bitmap_def Let_def intro!: steps wr)

lemma choice: "I s \<Longrightarrow> wlp (dma_debug_choice P c s) (\<lambda>_. I)"
  by (auto simp: dma_debug_choice_def Let_def intro!: steps controls vars)

lemma gamma_menu: "I s \<Longrightarrow> wlp (run_gamma_submenu P s) (\<lambda>_. I)"
proof (rule wlp_runI)
  fix r assume I: "I s" and run: "run_gamma_submenu P s = Some r"
  have "fst (P, s) = P \<longrightarrow> I (snd (P, s)) \<longrightarrow> I (snd r)"
  proof (rule run_gamma_submenu.raw_induct [where Pa = "\<lambda>p r. fst p = P \<longrightarrow> I (snd p) \<longrightarrow> I (snd r)", OF _ run], goal_cases)
    case (1 f P' s r)
    show ?case
    proof (intro impI, unfold fst_conv snd_conv)
      assume P: "P' = P" and s: "I s"
      have f: "wlp (f P s) (\<lambda>_. I)" if "I s" for s using that 1(1) [of P s] by (intro wlp_runI) auto
      show "I (snd r)"
        by (rule wlp_runD [OF 1(2) [unfolded P], where Q = "\<lambda>_. I"]) (auto simp: Let_def intro!: f steps wlp_mono [OF controls(1)] wlp_mono [OF tables(1)] wlp_mono [OF tables(2)] wlp_mono [OF tables(3)] s)
    qed
  qed
  with I show "I (snd r)" by simp
qed

lemma pattern_menu: "I s \<Longrightarrow> wlp (change_rtl_pattern P s) (\<lambda>_. I)"
proof (rule wlp_runI)
  fix r assume I: "I s" and run: "change_rtl_pattern P s = Some r"
  have "fst (P, s) = P \<longrightarrow> I (snd (P, s)) \<longrightarrow> I (snd r)"
  proof (rule change_rtl_pattern.raw_induct [where Pa = "\<lambda>p r. fst p = P \<longrightarrow> I (snd p) \<longrightarrow> I (snd r)", OF _ run], goal_cases)
    case (1 f P' s r)
    show ?case
    proof (intro impI, unfold fst_conv snd_conv)
      assume P: "P' = P" and s: "I s"
      have f: "wlp (f P s) (\<lambda>_. I)" if "I s" for s using that 1(1) [of P s] by (intro wlp_runI) auto
      show "I (snd r)"
        by (rule wlp_runD [OF 1(2) [unfolded P], where Q = "\<lambda>_. I"]) (auto simp: Let_def intro!: f steps s)
    qed
  qed
  with I show "I (snd r)" by simp
qed

lemma debug_menu: "I s \<Longrightarrow> wlp (run_dma_debug_submenu P s) (\<lambda>_. I)"
proof (rule wlp_runI)
  fix r assume I: "I s" and run: "run_dma_debug_submenu P s = Some r"
  have "fst (P, s) = P \<longrightarrow> I (snd (P, s)) \<longrightarrow> I (snd r)"
  proof (rule run_dma_debug_submenu.raw_induct [where Pa = "\<lambda>p r. fst p = P \<longrightarrow> I (snd p) \<longrightarrow> I (snd r)", OF _ run], goal_cases)
    case (1 f P' s r)
    show ?case
    proof (intro impI, unfold fst_conv snd_conv)
      assume P: "P' = P" and s: "I s"
      have f: "wlp (f P s) (\<lambda>_. I)" if "I s" for s using that 1(1) [of P s] by (intro wlp_runI) auto
      show "I (snd r)"
        by (rule wlp_runD [OF 1(2) [unfolded P], where Q = "\<lambda>_. I"]) (auto simp: Let_def intro!: f steps wlp_mono [OF choice] s)
    qed
  qed
  with I show "I (snd r)" by simp
qed

lemma window_word: "k < 0x2000000 \<Longrightarrow> (0x88000000 :: u32) + of_nat k * 4 \<notin> bad"
proof
  assume k: "k < 0x2000000" and b: "(0x88000000 :: u32) + of_nat k * 4 \<in> bad"
  have "(0x88000000 :: u32) + of_nat k * 4 = of_nat (0x88000000 + k * 4)" by simp
  moreover have "(0x88000000 :: u32) + of_nat k * 4 = 0x20008" using b bad_sub by auto
  ultimately have "(of_nat (0x88000000 + k * 4) :: u32) = of_nat 0x20008" by simp
  then have "unat (of_nat (0x88000000 + k * 4) :: u32) = unat (of_nat 0x20008 :: u32)" by (rule arg_cong)
  with k show False by (simp only: unsigned_of_nat) (simp add: take_bit_nat_eq_self)
qed

lemma bars_loop: "I s \<Longrightarrow> wlp (color_bar_loop P s) (\<lambda>_. I)"
proof -
  have row: "wlp (for_up 0 960 (\<lambda>x. store_word P DDR3_WINDOW_BASE (of_nat (y * 960 + x)) (bar_colors ! bar_index x)) s) (\<lambda>_. I)"
    if "I s" "y < 540" for s y
  proof (rule for_up_wlp [where I = "\<lambda>_. I"])
    fix i :: nat and s' assume i: "i < 960" and s': "I s'"
    have "y * 960 + i < 0x2000000" using i that(2) by simp
    from window_word [OF this] show "wlp (store_word P DDR3_WINDOW_BASE (of_nat (y * 960 + i)) (bar_colors ! bar_index i) s') (\<lambda>_. I)"
      by (intro store s') simp
  qed (use that in auto)
  assume "I s"
  then show ?thesis
    unfolding color_bar_loop_def by (rule for_up_wlp [where I = "\<lambda>_. I", OF row, rotated -1]) auto
qed

lemma bars: "I s \<Longrightarrow> wlp (generate_color_bar_pattern P s) (\<lambda>_. I)"
  by (auto simp: generate_color_bar_pattern_def Let_def intro!: steps wlp_mono [OF bars_loop])

lemma pll: "I s \<Longrightarrow> wlp (pll_wait P t s) (\<lambda>_. I)"
proof (induction "poll_budget t" arbitrary: t s rule: less_induct)
  case less
  have again: "wlp (pll_wait P (t - 1) s') (\<lambda>_. I)" if "t - 1 \<noteq> 0" "I s'" for s'
    by (rule less.hyps [OF _ that(2)]) (use that(1) in \<open>simp add: poll_budget_def unat_minus_two_less\<close>)
  show ?case
    by (subst pll_wait.simps) (use less.prems in \<open>auto intro!: steps again\<close>)
qed

lemma i2c_write: "I s \<Longrightarrow> wlp (hdmi_i2c_write P r v s) (\<lambda>_. I)"
  by (auto simp: hdmi_i2c_write_def Let_def intro!: wlp_mono [OF target] wlp_mono [OF tx] mem)

lemma i2c_writes: "I s \<Longrightarrow> wlp (hdmi_i2c_writes P ws s) (\<lambda>_. I)"
  by (induction ws arbitrary: s) (auto intro!: wlp_mono [OF i2c_write])

lemma hdmi_init_unfold:
  "hdmi_init P s = do {
     (_, s) \<leftarrow> printf ''Waiting for PLL Lock (74.25 MHz)...'' [] s;
     (locked, s) \<leftarrow> pll_wait P 1000 s;
     (if \<not> locked then Some (-1, s)
      else do {
        (_, s) \<leftarrow> printf ''PLL Locked! Initializing ADV7513 HDMI Transmitter...'' [] s;
        h \<leftarrow> alt_avalon_i2c_open (pf_env P) (pf_i2c_list P) (pf_i2c_name P) s;
        (if h = 0 then do {
           (_, s) \<leftarrow> printf ''Error: Could not open I2C device %s'' [PStr ''/dev/i2c_hdmi''] (s\<lparr>hdmi_i2c_dev := h\<rparr>);
           Some (-2, s)
         } else hdmi_setup P (s\<lparr>hdmi_i2c_dev := h\<rparr>))
      })
   }"
  by (simp add: hdmi_init_def hdmi_setup_def hdmi_configure_def Let_def case_prod_beta' cong: if_cong)

lemma set_up: "I s \<Longrightarrow> wlp (hdmi_setup P s) (\<lambda>_. I)"
  by (auto simp: hdmi_setup_def intro!: steps wlp_mono [OF conf] wlp_mono [OF i2c_writes])

lemma wlp_bind_option: "(\<And>h. x = Some h \<Longrightarrow> wlp (f h) Q) \<Longrightarrow> wlp (x \<bind> f) Q"
  by (cases x) auto

lemma init: "I s \<Longrightarrow> wlp (hdmi_init P s) (\<lambda>_. I)"
  unfolding hdmi_init_unfold
  by (auto simp del: wlp_bind simp: wlp_bind [of _ "\<lambda>(a, b). F a b" for F]
      intro!: steps wlp_mono [OF pll] wlp_bind_option set_up vars)

end

section \<open>The DMA tests\<close>

text \<open>They write through addresses the caller chooses, so nothing may be excluded.\<close>

locale app_keeps_all = app_keeps +
  assumes none: "bad = {}"
begin

lemma dma: "I s \<Longrightarrow> wlp (dma_wait P csr s) (\<lambda>_. I)"
proof (rule wlp_runI)
  fix r assume I: "I s" and run: "dma_wait P csr s = Some r"
  have "fst (fst ((P, csr), s)) = P \<longrightarrow> I (snd ((P, csr), s)) \<longrightarrow> I (snd r)"
  proof (rule dma_wait.raw_induct [where Pa = "\<lambda>p r. fst (fst p) = P \<longrightarrow> I (snd p) \<longrightarrow> I (snd r)", OF _ run], goal_cases)
    case (1 f P' csr s r)
    show ?case
    proof (intro impI, unfold fst_conv snd_conv)
      assume P: "P' = P" and s: "I s"
      have f: "wlp (f P csr s) (\<lambda>_. I)" if "I s" for s using that 1(1) [of P csr s] by (intro wlp_runI) auto
      show "I (snd r)"
        by (rule wlp_runD [OF 1(2) [unfolded P], where Q = "\<lambda>_. I"]) (auto intro!: f acc s)
    qed
  qed
  with I show "I (snd r)" by simp
qed

lemma write_any: "I s \<Longrightarrow> wlp (IOWR_32DIRECT (pf_bus P) b off d s) (\<lambda>_. I)"
  using wr none by simp

lemma store_any: "I s \<Longrightarrow> wlp (store_word P p i v s) (\<lambda>_. I)"
  using store none by simp

lemma count_keeps:
  "(\<And>i s. I s \<Longrightarrow> wlp (check i s) (\<lambda>_. I)) \<Longrightarrow> I s \<Longrightarrow> wlp (count_errors a b check e s) (\<lambda>_. I)"
proof (induction "b - a" arbitrary: a e s)
  case 0
  then show ?case by (subst count_errors.simps) simp
next
  case (Suc n)
  have again: "wlp (count_errors (Suc a) b check e' s') (\<lambda>_. I)" if "I s'" for e' s'
    using Suc that by simp
  show ?case
    by (subst count_errors.simps) (use Suc.prems Suc.hyps(2) in \<open>auto intro!: wlp_mono [OF Suc.prems(1)] again\<close>)
qed

lemmas any = wlp_mono [OF write_any] wlp_mono [OF store_any] wlp_mono [OF dma] steps

lemma ocm_steps:
  "I s \<Longrightarrow> wlp (ocm_fill P s) (\<lambda>_. I)" "I s \<Longrightarrow> wlp (ocm_sw_copy P s) (\<lambda>_. I)"
  "I s \<Longrightarrow> wlp (ocm_hw_copy P csr src dst s) (\<lambda>_. I)" "I s \<Longrightarrow> wlp (ocm_check P s) (\<lambda>_. I)"
  by (auto simp: ocm_fill_def ocm_sw_copy_def ocm_hw_copy_def ocm_check_def
      intro!: loop_keeps count_keeps any store_any write_any)

lemma ocm: "I s \<Longrightarrow> wlp (run_ocm_to_ddr_test P csr d s) (\<lambda>_. I)"
  by (auto simp: run_ocm_to_ddr_test_def print_rate_def Let_def
      intro!: any wlp_mono [OF ocm_steps(1)] wlp_mono [OF ocm_steps(2)] wlp_mono [OF ocm_steps(3)]
        wlp_mono [OF ocm_steps(4)])

lemma ddr_steps:
  "I s \<Longrightarrow> wlp (ddr_fill P s) (\<lambda>_. I)" "I s \<Longrightarrow> wlp (ddr_sw_copy P c s) (\<lambda>_. I)"
  "I s \<Longrightarrow> wlp (ddr_hw_copy P csr base s) (\<lambda>_. I)" "I s \<Longrightarrow> wlp (ddr_check P s) (\<lambda>_. I)"
  by (auto simp: ddr_fill_def ddr_sw_copy_def ddr_hw_copy_def ddr_check_def Let_def
      intro!: loop_keeps count_keeps any store_any write_any)

lemma ddr: "I s \<Longrightarrow> wlp (run_ddr_to_ddr_test P csr d s) (\<lambda>_. I)"
  by (auto simp: run_ddr_to_ddr_test_def print_rate_def Let_def
      intro!: any wlp_mono [OF ddr_steps(1)] wlp_mono [OF ddr_steps(2)] wlp_mono [OF ddr_steps(3)]
        wlp_mono [OF ddr_steps(4)])

end

section \<open>The timer interrupt at an interrupt point\<close>

text \<open>
  The one interrupt source the application enables is the system timer.  At an interrupt point
  its service routine runs when interrupts are enabled and the line is \<open>pending\<close>.
\<close>

definition timer_irq :: "'h bus \<Rightarrow> ('h \<Rightarrow> bool) \<Rightarrow> ('h, 'x) app_st_scheme callbacks \<Rightarrow> u32
    \<Rightarrow> (unit, ('h, 'x) app_st_scheme) prog" where
  "timer_irq B pending C al s =
     (if cpu_status s AND 1 \<noteq> 0 \<and> pending (hw s) then alt_avalon_timer_sc_irq B C al TIMER_0_BASE s
      else Some ((), s))"

definition with_timer :: "('h, ('h, 'x) app_st_scheme) platform \<Rightarrow> ('h \<Rightarrow> bool)
    \<Rightarrow> ('h, 'x) app_st_scheme callbacks \<Rightarrow> u32 \<Rightarrow> ('h, ('h, 'x) app_st_scheme) platform" where
  "with_timer P pending C al = P\<lparr>pf_irq := timer_irq (pf_bus P) pending C al\<rparr>"

lemma with_timer_sel [simp]:
  "pf_bus (with_timer P pending C al) = pf_bus P"
  "pf_irq (with_timer P pending C al) = timer_irq (pf_bus P) pending C al"
  by (simp_all add: with_timer_def)

definition at_menu :: "u32 list \<Rightarrow> u32 \<Rightarrow> ('h, 'x) app_st_scheme \<Rightarrow> bool" where
  "at_menu w al s \<longleftrightarrow> writes_to SPAN_CNTL_BASE (trace s) = w \<and> i2c_base (dev s) = 0x20040 \<and> ring (links s) al []"

definition board_ok :: "u32 \<Rightarrow> ('h, 'x) app_st_scheme \<Rightarrow> bool" where
  "board_ok al s \<longleftrightarrow> i2c_base (dev s) = 0x20040 \<and> ring (links s) al []"

declare IORD_eq [simp] IOWR_eq [simp] IORD_32DIRECT_eq [simp] IOWR_32DIRECT_eq [simp]
  alt_busy_sleep_eq [simp] printf_eq [simp] print_lines_eq [simp]

lemma i2c_addr: "(0x20040 :: u32) + reg_num r * 4 \<noteq> 0x20008"
  by (cases r) simp_all

interpretation menu_i2c: i2c_keeps B "at_menu w al" for B w al
  by unfold_locales
     (use i2c_addr in \<open>auto simp: at_menu_def I2C_RD_def I2C_WR_def alt_avalon_i2c_cmd_write_def
        alt_avalon_i2c_check_nack_def alt_avalon_i2c_check_arblost_def tx_full_cond_def prog_defs Let_def
        intro!: wlp_mono [OF timed_poll_wlp [where I = "at_menu w al"]]\<close>)

end
