(* ===== verification/App_Menu_Claims.thy ===== *)
theory App_Menu_Claims
  imports App_Menu_Props
begin

text \<open>
  The properties of the main menu and of the two DMA tests.
\<close>

section \<open>The locales on the application\<close>

lemma timer_irq_quiet:
  assumes "ring (links s) al []" "base \<noteq> SPAN_CNTL_BASE"
  shows "wlp (timer_irq B pending C al s) (\<lambda>_ s'. dev s' = dev s \<and> links s' = links s \<and>
     writes_to SPAN_CNTL_BASE (trace s') = writes_to SPAN_CNTL_BASE (trace s))"
proof -
  have n: "ll_next (links s) al = al" using assms by (simp add: ring_def)
  show ?thesis
    by (simp add: timer_irq_def alt_avalon_timer_sc_irq_def alt_tick_def prog_defs Let_def n tick_loop.simps)
qed

lemma configure_keeps_menu:
  assumes "at_menu w al s"
  shows "wlp (hdmi_configure P s) (\<lambda>_. at_menu w al)"
  using assms i2c_addr
  by (auto simp: hdmi_configure_def alt_avalon_i2c_master_config_get_def alt_avalon_i2c_master_config_set_def
      I2C_RMW_def I2C_RD_def I2C_WR_def at_menu_def Let_def split_beta)

interpretation menu: app_keeps "with_timer P pending C al" "at_menu w al" "{SPAN_CNTL_BASE}"
  for P :: "('h, ('h, 'x) app_st_scheme) platform" and pending C al w
proof unfold_locales
  fix s :: "('h, 'x) app_st_scheme"
  assume s: "at_menu w al s"
  then have r: "ring (links s) al []" by (simp add: at_menu_def)
  show "wlp (pf_irq (with_timer P pending C al) s) (\<lambda>_. at_menu w al)"
    using wlp_mono [OF timer_irq_quiet [OF r, of 0 "pf_bus P" pending C]] s by (auto simp: at_menu_def)
  show "wlp (hdmi_configure (with_timer P pending C al) s) (\<lambda>_. at_menu w al)"
    by (rule configure_keeps_menu [OF s])
  show "wlp (alt_avalon_i2c_master_tx (pf_bus (with_timer P pending C al)) buf n ui s) (\<lambda>_. at_menu w al)"
    for buf n ui
    using menu_i2c.master_tx [OF s] by simp
qed (auto simp: at_menu_def alt_avalon_i2c_master_target_set_def)

lemma board_ok_menu: "board_ok al s \<longleftrightarrow> (\<exists>w. at_menu w al s)"
  by (auto simp: board_ok_def at_menu_def)

lemma wlp_board:
  assumes "board_ok al s" "\<And>w. at_menu w al s \<Longrightarrow> wlp m (\<lambda>_. at_menu w al)"
  shows "wlp m (\<lambda>_. board_ok al)"
proof -
  from assms(1) obtain w where "at_menu w al s" by (auto simp: board_ok_menu)
  from assms(2) [OF this] show ?thesis by (rule wlp_mono) (auto simp: board_ok_menu)
qed

interpretation tests: app_keeps_all "with_timer P pending C al" "board_ok al" "{}"
  for P :: "('h, ('h, 'x) app_st_scheme) platform" and pending C al
proof unfold_locales
  fix s :: "('h, 'x) app_st_scheme"
  assume s: "board_ok al s"
  show "wlp (pf_irq (with_timer P pending C al) s) (\<lambda>_. board_ok al)"
    by (rule wlp_board [OF s menu.irq])
  show "wlp (hdmi_configure (with_timer P pending C al) s) (\<lambda>_. board_ok al)"
    by (rule wlp_board [OF s menu.conf])
  show "wlp (alt_avalon_i2c_master_tx (pf_bus (with_timer P pending C al)) buf n ui s) (\<lambda>_. board_ok al)"
    for buf n ui
    by (rule wlp_board [OF s]) (use menu.tx in simp)
qed (auto simp: board_ok_def alt_avalon_i2c_master_target_set_def)

section \<open>The window\<close>

definition video_window :: "u32 \<Rightarrow> ('h, 'x) app_st_scheme \<Rightarrow> bool" where
  "video_window al s \<longleftrightarrow> (\<exists>w. at_menu (w @ [0x30000000]) al s)"

lemma video_keep:
  assumes "video_window al s" "\<And>w. at_menu w al s \<Longrightarrow> wlp m (\<lambda>_. at_menu w al)"
  shows "wlp m (\<lambda>_. video_window al)"
proof -
  from assms(1) obtain w where "at_menu (w @ [0x30000000]) al s" by (auto simp: video_window_def)
  from assms(2) [OF this] show ?thesis by (rule wlp_mono) (auto simp: video_window_def)
qed

lemma set_window_video:
  "board_ok al s \<Longrightarrow> wlp (set_window P 0x30000000 s) (\<lambda>_. video_window al)"
  by (auto simp: set_window_def video_window_def board_ok_def at_menu_def)

lemma set_window_board: "board_ok al s \<Longrightarrow> wlp (set_window P b s) (\<lambda>_. board_ok al)"
  by (simp add: set_window_def board_ok_def)

lemma video_board: "video_window al s \<Longrightarrow> board_ok al s"
  by (auto simp: video_window_def board_ok_menu)

lemma print_video: "video_window al s \<Longrightarrow> wlp (printf f as s) (\<lambda>_. video_window al)"
  by (auto simp: video_window_def at_menu_def)

lemma print_board: "board_ok al s \<Longrightarrow> wlp (printf f as s) (\<lambda>_. board_ok al)"
  by (auto simp: board_ok_def)

lemma menu_choice_video:
  assumes v: "video_window al s"
  shows "wlp (menu_choice (with_timer P pending C al) c s) (\<lambda>_. video_window al)"
proof -
  note k = video_keep [OF v]
  have b: "board_ok al s" by (rule video_board [OF v])
  have reset: "wlp (IOWR_32DIRECT (pf_bus P) SYNC_GEN REG_PATTERN_MODE 0 s) (\<lambda>_. video_window al)"
    using v by (auto simp: video_window_def at_menu_def)
  show ?thesis
    unfolding menu_choice_def
    by (auto simp del: printf_eq IOWR_32DIRECT_eq SYNC_GEN_eq
        intro!: k [OF menu.bars] k [OF menu.pattern_menu] k [OF menu.debug_menu] k [OF menu.gamma_menu]
          k [OF menu.controls(5)] print_video v b
          wlp_mono [OF k [OF menu.init]] wlp_mono [OF reset]
          wlp_mono [OF set_window_board] wlp_mono [OF print_board] wlp_mono [OF tests.ocm]
          wlp_mono [OF tests.ddr] wlp_mono [OF set_window_video])
qed

lemma print_menu_video: "video_window al s \<Longrightarrow> wlp (print_menu s) (\<lambda>_. video_window al)"
  by (auto simp: print_menu_def video_window_def at_menu_def)

lemma read_video:
  fixes s :: "('h, 'x) app_st_scheme" and P :: "('h, ('h, 'x) app_st_scheme) platform"
  shows "video_window al s \<Longrightarrow> wlp (read_choice (with_timer P pending C al) s) (\<lambda>_. video_window al)"
  by (erule video_keep) (rule menu.read)

lemma menu_loop_video:
  "video_window al s \<Longrightarrow> wlp (run_interactive_menu (with_timer P pending C al) s) (\<lambda>_. video_window al)"
proof (rule wlp_runI)
  let ?P = "with_timer P pending C al"
  fix r assume I: "video_window al s" and run: "run_interactive_menu ?P s = Some r"
  have "fst (?P, s) = ?P \<longrightarrow> video_window al (snd (?P, s)) \<longrightarrow> video_window al (snd r)"
  proof (rule run_interactive_menu.raw_induct
      [where Pa = "\<lambda>p r. fst p = ?P \<longrightarrow> video_window al (snd p) \<longrightarrow> video_window al (snd r)", OF _ run], goal_cases)
    case (1 f P' s r)
    show ?case
    proof (intro impI, unfold fst_conv snd_conv)
      assume P: "P' = ?P" and s: "video_window al s"
      have f: "wlp (f ?P s) (\<lambda>_. video_window al)" if "video_window al s" for s
        using that 1(1) [of ?P s] by (intro wlp_runI) auto
      show "video_window al (snd r)"
        by (rule wlp_runD [OF 1(2) [unfolded P], where Q = "\<lambda>_. video_window al"])
           (auto simp del: printf_eq intro!: f s print_video wlp_mono [OF print_menu_video] wlp_mono [OF read_video]
             wlp_mono [OF print_video] wlp_mono [OF menu_choice_video])
    qed
  qed
  with I show "video_window al (snd r)" by simp
qed

lemma print_same [simp]:
  "board_ok al (s\<lparr>console := c\<rparr>) = board_ok al s" "board_ok al (s\<lparr>cpu_status := w\<rparr>) = board_ok al s"
  "board_ok al (s\<lparr>console := c, cpu_status := w\<rparr>) = board_ok al s"
  "video_window al (s\<lparr>console := c\<rparr>) = video_window al s"
  by (simp_all add: board_ok_def video_window_def at_menu_def)

lemma main_start_video:
  "board_ok al s \<Longrightarrow> wlp (app_main (with_timer P pending C al) s) (\<lambda>_. video_window al)"
proof -
  assume b: "board_ok al s"
  let ?B = "pf_bus P"
  have w: "wlp (IOWR_32DIRECT ?B SPAN_CNTL_BASE 0 0x30000000 s) (\<lambda>_. video_window al)" if "board_ok al s" for s
    using that by (auto simp: video_window_def board_ok_def at_menu_def)
  have w4: "wlp (IOWR_32DIRECT ?B SPAN_CNTL_BASE 4 0 s) (\<lambda>_. video_window al)" if "video_window al s" for s
    using that by (auto simp: video_window_def at_menu_def)
  have rd: "wlp (IORD_32DIRECT ?B a off s) (\<lambda>_. video_window al)" if "video_window al s" for a off s
    using that by (auto simp: video_window_def at_menu_def)
  have io: "wlp (IOWR ?B a r d s) (\<lambda>_. board_ok al)" if "board_ok al s" for a r d s
    using that by (simp add: board_ok_def)
  show ?thesis
    unfolding app_main_def
    by (auto simp del: IOWR_eq IOWR_32DIRECT_eq IORD_32DIRECT_eq simp: Let_def
        intro!: b wlp_mono [OF w] wlp_mono [OF w4] wlp_mono [OF rd] wlp_mono [OF io] wlp_mono [OF tests.total_cycles]
          wlp_mono [OF tests.loop_keeps [OF tests.irq [unfolded with_timer_sel]]] wlp_mono [OF menu_loop_video])
qed

text \<open>
  C14. The DDR3 window is where the video pipeline expects it whenever the menu is shown: the
  start-up sets it to 0x30000000, and whatever option is chosen, with whatever keys in its
  submenus, whatever the hardware answers and wherever the timer interrupt strikes, the last
  write to the window's base register is 0x30000000 again when the option returns, and so when
  the program exits.
\<close>

theorem menu_keeps_video_window:
  assumes "i2c_base (dev s) = 0x20040" "ring (links s) al []"
  shows "wlp (app_main (with_timer P pending C al) s)
       (\<lambda>_ s'. \<exists>ws. writes_to SPAN_CNTL_BASE (trace s') = ws @ [0x30000000]) \<and>
     (video_window al s \<longrightarrow> wlp (menu_choice (with_timer P pending C al) c s) (\<lambda>_. video_window al))"
proof -
  have "board_ok al s" using assms by (simp add: board_ok_def)
  note main_start_video [OF this, of P pending C]
  then have "wlp (app_main (with_timer P pending C al) s)
       (\<lambda>_ s'. \<exists>ws. writes_to SPAN_CNTL_BASE (trace s') = ws @ [0x30000000])"
    by (rule wlp_mono) (auto simp: video_window_def at_menu_def)
  then show ?thesis using menu_choice_video by blast
qed

definition demo_menu :: "u8 list app_st" where
  "demo_menu = (demo_app [])\<lparr>trace := [Wr 0x20008 0x30000000]\<rparr>"

theorem menu_keeps_video_window_witness:
  "\<exists>s'. menu_choice (with_timer (demo_platform demo_kbd_bus length) (\<lambda>_. False) (\<lambda>_ _ _. None) 0x10)
       0x72 demo_menu = Some ((), s') \<and> video_window 0x10 s' \<and> bus_writes (trace s') = [(0x20008, 0x30000000), (0x80020020, 0)]"
proof -
  have r: "i2c_base (dev demo_menu) = 0x20040" "ring (links demo_menu) 0x10 []"
    by (simp_all add: demo_menu_def) (simp add: demo_app_def ring_def)
  then have "video_window 0x10 demo_menu"
    by (auto simp: video_window_def at_menu_def demo_menu_def intro!: exI [of _ "[]"])
  with menu_keeps_video_window [OF r, of "demo_platform demo_kbd_bus length" "\<lambda>_. False" "\<lambda>_ _ _. None" "0x72"]
  show ?thesis by (auto simp: menu_choice_def demo_menu_def)
qed

end
