(* ===== verification/App_DMA_Claims.thy ===== *)
theory App_DMA_Claims
  imports App_DMA_Props App_Menu_Claims
begin

text \<open>
  What the verdicts of the two DMA tests are worth: the first cannot fail, the second cannot
  succeed from the menu.
\<close>

section \<open>The first test\<close>

definition ocm_region :: "('h, 's) platform \<Rightarrow> u32 set" where
  "ocm_region P = words_at (pf_ocm P) 1024 \<union> words_at 0x88000000 1024"

lemma ocm_region_I [intro]:
  "i < 1024 \<Longrightarrow> pf_ocm P + of_nat i * 4 \<in> ocm_region P"
  "i < 1024 \<Longrightarrow> 0x88000000 + of_nat i * 4 \<in> ocm_region P"
  by (simp_all add: ocm_region_def words_atI)

lemma ocm_region_not:
  assumes "pf_ocm P \<le> 0x1F000" "a \<in> {0x20000..<0x88000000}"
  shows "a \<notin> ocm_region P"
proof
  assume "a \<in> ocm_region P"
  moreover have "unat (pf_ocm P) \<le> 0x1F000" using assms(1) by (simp add: word_le_nat_alt)
  moreover have "0x20000 \<le> unat a" "unat a < 0x88000000" using assms(2) by (simp_all add: word_le_nat_alt word_less_nat_alt)
  ultimately show False
    using words_at_range [of a "pf_ocm P" 1024] words_at_range [of a "0x88000000" 1024] by (auto simp: ocm_region_def)
qed

abbreviation (input) ocm_val :: "nat \<Rightarrow> u32" where "ocm_val i \<equiv> of_nat i + 0x11110000"

lemma ocm_fill_wp:
  fixes s :: "('h, 'x) app_st_scheme"
  assumes b: "dma_board P J (ocm_region P) ram {}" and m: "mem_at J (ocm_region P) ram f s" and o: "pf_ocm P \<le> 0x1F000"
  shows "wp (ocm_fill P s) (\<lambda>_ s'. \<exists>f. mem_at J (ocm_region P) ram f s' \<and> holds (pf_ocm P) 1024 ocm_val f)"
  unfolding ocm_fill_def
proof (rule for_up_wp [where I = "\<lambda>i s'. \<exists>f. mem_at J (ocm_region P) ram f s' \<and> holds (pf_ocm P) i ocm_val f"])
  have u: "unat (pf_ocm P) \<le> 0x1F000" using o by (simp add: word_le_nat_alt)
  fix i and s' :: "('h, 'x) app_st_scheme"
  assume i: "i < 1024" and "\<exists>f. mem_at J (ocm_region P) ram f s' \<and> holds (pf_ocm P) i ocm_val f"
  then obtain f where m: "mem_at J (ocm_region P) ram f s'" and h: "holds (pf_ocm P) i ocm_val f" by blast
  let ?f = "f(pf_ocm P + of_nat i * 4 := ocm_val i)"
  have h1: "holds (pf_ocm P) (Suc i) ocm_val ?f" using holds_snoc [OF h i] u by simp
  have "holds (pf_ocm P) (Suc i) ocm_val (?f(0x88000000 + of_nat i * 4 := 0))"
    by (rule holds_other [OF h1], rule words_at_apart [symmetric, where n = 1024 and m = 1024]) (use u i in auto)
  then show "wp (do { (_, s) \<leftarrow> store_word P (pf_ocm P) (of_nat i) (ocm_val i) s';
        store_word P DDR3_WINDOW_BASE (of_nat i) 0 s })
      (\<lambda>_ s'. \<exists>f. mem_at J (ocm_region P) ram f s' \<and> holds (pf_ocm P) (Suc i) ocm_val f)"
    using i by (auto intro!: wp_mono [OF mem_store [OF b m]] wp_mono [OF mem_store [OF b]])
qed (use m in auto)

lemma ocm_copy_row:
  fixes s :: "('h, 'x) app_st_scheme"
  assumes b: "dma_board P J (ocm_region P) ram {}" and m: "mem_at J (ocm_region P) ram f s"
    and h: "holds (pf_ocm P) 1024 ocm_val f" and o: "pf_ocm P \<le> 0x1F000"
  shows "wp (for_up 0 1024 (\<lambda>i s. do { (v, s) \<leftarrow> load_word P (pf_ocm P) (of_nat i) s;
        store_word P DDR3_WINDOW_BASE (of_nat i) v s }) s)
     (\<lambda>_ s'. \<exists>f. mem_at J (ocm_region P) ram f s' \<and> holds (pf_ocm P) 1024 ocm_val f \<and> holds 0x88000000 1024 ocm_val f)"
proof (rule for_up_wp [where I = "\<lambda>i s'. \<exists>f. mem_at J (ocm_region P) ram f s' \<and>
    holds (pf_ocm P) 1024 ocm_val f \<and> holds 0x88000000 i ocm_val f"])
  have u: "unat (pf_ocm P) \<le> 0x1F000" using o by (simp add: word_le_nat_alt)
  fix i and s' :: "('h, 'x) app_st_scheme"
  assume i: "i < 1024" and "\<exists>f. mem_at J (ocm_region P) ram f s' \<and>
    holds (pf_ocm P) 1024 ocm_val f \<and> holds 0x88000000 i ocm_val f"
  then obtain f where m: "mem_at J (ocm_region P) ram f s'" and h: "holds (pf_ocm P) 1024 ocm_val f"
    and w: "holds 0x88000000 i ocm_val f" by blast
  let ?f = "f(0x88000000 + of_nat i * 4 := ocm_val i)"
  have v: "f (pf_ocm P + of_nat i * 4) = ocm_val i" using h i by (simp add: holds_def)
  have 1: "holds (pf_ocm P) 1024 ocm_val ?f"
    by (rule holds_other [OF h], rule words_at_apart [symmetric, where n = 1024 and m = 1024]) (use u i in auto)
  have 2: "holds 0x88000000 (Suc i) ocm_val ?f" by (rule holds_snoc [OF w i]) simp
  show "wp (do { (v, s) \<leftarrow> load_word P (pf_ocm P) (of_nat i) s'; store_word P DDR3_WINDOW_BASE (of_nat i) v s })
      (\<lambda>_ s'. \<exists>f. mem_at J (ocm_region P) ram f s' \<and> holds (pf_ocm P) 1024 ocm_val f \<and>
         holds 0x88000000 (Suc i) ocm_val f)"
    using i 1 2 v by (auto intro!: wp_mono [OF mem_load [OF b m]] wp_mono [OF mem_store [OF b]])
qed (use m h in auto)

lemma ocm_sw_copy_wp:
  fixes s :: "('h, 'x) app_st_scheme"
  assumes b: "dma_board P J (ocm_region P) ram {}" and m: "mem_at J (ocm_region P) ram f s"
    and h: "holds (pf_ocm P) 1024 ocm_val f" and o: "pf_ocm P \<le> 0x1F000"
  shows "wp (ocm_sw_copy P s) (\<lambda>_ s'. \<exists>f. mem_at J (ocm_region P) ram f s' \<and> holds 0x88000000 1024 ocm_val f)"
proof -
  let ?I = "\<lambda>(i :: nat) s'. \<exists>f. mem_at J (ocm_region P) ram f s' \<and> holds (pf_ocm P) 1024 ocm_val f \<and>
     (0 < i \<longrightarrow> holds 0x88000000 1024 ocm_val f)"
  have "wp (ocm_sw_copy P s) (\<lambda>_. ?I 100)"
    unfolding ocm_sw_copy_def
  proof (rule for_up_wp [where I = ?I])
    fix i :: nat and s' :: "('h, 'x) app_st_scheme"
    assume "?I i s'"
    then obtain f where "mem_at J (ocm_region P) ram f s'" "holds (pf_ocm P) 1024 ocm_val f" by blast
    from ocm_copy_row [OF b this o] show "wp (for_up 0 1024 (\<lambda>i s. do {
        (v, s) \<leftarrow> load_word P (pf_ocm P) (of_nat i) s; store_word P DDR3_WINDOW_BASE (of_nat i) v s }) s') (\<lambda>_. ?I (Suc i))"
      by (rule wp_mono) auto
  qed (use m h in auto)
  then show ?thesis by (rule wp_mono) auto
qed

lemma mem_hw_copy:
  fixes s :: "('h, 'x) app_st_scheme"
  assumes b: "dma_board P J R ram {}" and e: "engine_answers (pf_bus P) csr busy" and m: "mem_at J R ram f s"
    and r: "\<forall>off \<in> {0, 4, 8, 12, 16, 20, 24}. csr + off \<notin> R"
  shows "wp (ocm_hw_copy P csr src dst s) (\<lambda>_. mem_at J R ram f)"
  unfolding ocm_hw_copy_def
proof (rule for_up_wp [where I = "\<lambda>_. mem_at J R ram f"])
  fix s' :: "('h, 'x) app_st_scheme"
  assume m: "mem_at J R ram f s'"
  note w = mem_write [OF b, where b = csr]
  show "wp (do {
     (_, s) \<leftarrow> IOWR_32DIRECT (pf_bus P) csr REG_SRC_ADDR src s';
     (_, s) \<leftarrow> IOWR_32DIRECT (pf_bus P) csr REG_DST_ADDR dst s;
     (_, s) \<leftarrow> IOWR_32DIRECT (pf_bus P) csr REG_LEN (of_nat (OCM_TEST_WORDS * 4)) s;
     (_, s) \<leftarrow> IOWR_32DIRECT (pf_bus P) csr REG_RD_BURST 32 s;
     (_, s) \<leftarrow> IOWR_32DIRECT (pf_bus P) csr REG_WR_BURST 32 s;
     (_, s) \<leftarrow> IOWR_32DIRECT (pf_bus P) csr REG_CTRL 1 s;
     (_, s) \<leftarrow> dma_wait P csr s;
     IOWR_32DIRECT (pf_bus P) csr REG_STATUS 1 s }) (\<lambda>_. mem_at J R ram f)"
    using r by (auto simp del: IOWR_32DIRECT_eq intro!: w wp_mono [OF w] wp_mono [OF mem_dma_wait [OF b e]] m)
qed (use m in auto)

text \<open>Counting errors over words whose content is known.\<close>

lemma count_errors_wp:
  assumes "\<And>i s. i < n \<Longrightarrow> I s \<Longrightarrow> wp (check i s) (\<lambda>e s'. e = bad i \<and> I s')"
  shows "I s \<Longrightarrow> k \<le> n \<Longrightarrow> wp (count_errors k n check e s)
     (\<lambda>r s'. r = e + int (length (filter bad [k..<n])) \<and> I s')"
proof (induction "n - k" arbitrary: k e s)
  case 0
  then show ?case by (subst count_errors.simps) simp
next
  case (Suc d)
  then have k: "k < n" by simp
  have again: "wp (count_errors (Suc k) n check e' s') (\<lambda>r s'. r = e' + int (length (filter bad [Suc k..<n])) \<and> I s')"
    if "I s'" for e' s'
    using Suc.hyps k that by simp
  show ?case
    by (subst count_errors.simps)
       (use k Suc.prems in \<open>auto simp: upt_conv_Cons intro!: wp_mono [OF assms] wp_mono [OF again]\<close>)
qed

lemma ocm_check_wp:
  assumes b: "dma_board P J (ocm_region P) ram {}" and m: "mem_at J (ocm_region P) ram f s"
    and h: "holds 0x88000000 1024 ocm_val f"
  shows "wp (ocm_check P s) (\<lambda>r _. r = 0)"
proof -
  have "wp (ocm_check P s) (\<lambda>r s'. r = 0 + int (length (filter (\<lambda>_. False) [0..<1024])) \<and> mem_at J (ocm_region P) ram f s')"
    unfolding ocm_check_def
    by (rule count_errors_wp) (use m h in \<open>auto simp: holds_def intro!: wp_mono [OF mem_load [OF b]]\<close>)
  then show ?thesis by (rule wp_mono) simp
qed

text \<open>
  C34. The first test cannot tell a working burst master from a dead one: on a board where the
  window and the on-chip buffer are ordinary memory that the engine never touches, the test
  still ends with SUCCESS, because it compares against what its own software copy left there.
\<close>

theorem ocm_test_blind:
  assumes b: "dma_board P J (ocm_region P) ram {}" and t: "timer_board P cyc latch"
    and e: "engine_answers (pf_bus P) 0x800200A0 busy" and o: "pf_ocm P \<le> 0x1F000" and J: "J (hw s)"
  shows "\<exists>s'. run_ocm_to_ddr_test P (BURST_MASTER_0_BASE OR CACHE_BYPASS_MASK) d s = Some ((), s') \<and>
     last (console s') = (''SUCCESS: OCM to DDR Verified!'', [])"
proof -
  have n: "a \<notin> ocm_region P" if "a \<in> {0x20000..<0x88000000}" for a by (rule ocm_region_not [OF o that])
  have csr: "\<forall>off \<in> {0, 4, 8, 12, 16, 20, 24}. 0x800200A0 + off \<notin> ocm_region P" by (auto intro!: n)
  have tm: "TIMER_0_BASE + 16 \<notin> ocm_region P" by (auto intro!: n)
  note c = mem_cycles [OF b t _ tm]
  obtain f where m: "mem_at J (ocm_region P) ram f s" using J by (auto simp: mem_at_def)
  have "wp (run_ocm_to_ddr_test P 0x800200A0 d s) (\<lambda>_ s'. last (console s') = (''SUCCESS: OCM to DDR Verified!'', []))"
    unfolding run_ocm_to_ddr_test_def print_rate_def
    by (auto simp: Let_def intro!: wp_mono [OF ocm_fill_wp [OF b _ o]] wp_mono [OF mem_flush [OF b]] wp_mono [OF c]
        wp_mono [OF ocm_sw_copy_wp [OF b _ _ o]] wp_mono [OF mem_hw_copy [OF b e _ csr]] wp_mono [OF ocm_check_wp [OF b]] m)
  then show ?thesis by (auto simp: wp_iff)
qed

text \<open>A board whose engine says it is done and never moves a word.\<close>

definition dead_engine_bus :: "(nat \<times> nat \<times> (u32 \<Rightarrow> u32)) bus" where
  "dead_engine_bus = \<lparr>
     bus_rd = (\<lambda>a (c, l, m). (if a = 0x20090 then of_nat (l mod 65536) else if a = 0x20094 then of_nat (l div 65536)
         else if a = 0x800200A4 then 1 else m a, (c + 900, l, m))),
     bus_wr = (\<lambda>a d (c, l, m). (c + 900, if a = 0x20090 then 49999 - (c + 100) mod 50000 else l, m(a := d))),
     bus_delay = (\<lambda>us h. h)\<rparr>"

lemma dead_timer_board: "timer_board (demo_platform dead_engine_bus fst) fst (\<lambda>h. fst (snd h))"
proof -
  have "\<exists>c'. c \<le> c' \<and> c' \<le> c + 900 \<and> 49999 - (c + 100) mod 50000 = 49999 - c' mod 50000" for c :: nat
    by (intro exI [of _ "c + 100"]) simp
  then show ?thesis
    by (auto simp: timer_board_def timer_steps_def timer_synced_def dead_engine_bus_def split: prod.splits)
qed

lemma dead_engine_sel [simp]:
  "bus_rd dead_engine_bus a h = (if a = 0x20090 then of_nat (fst (snd h) mod 65536)
     else if a = 0x20094 then of_nat (fst (snd h) div 65536)
     else if a = 0x800200A4 then 1 else snd (snd h) a, (fst h + 900, snd h))"
  "snd (snd (bus_wr dead_engine_bus a d h)) = (snd (snd h))(a := d)"
  by (simp_all add: dead_engine_bus_def split: prod.splits)

lemma dead_dma_board_on:
  assumes "0x20090 \<notin> R" "0x20094 \<notin> R" "0x800200A4 \<notin> R"
  shows "dma_board (demo_platform dead_engine_bus fst) (\<lambda>_. True) R (\<lambda>h. snd (snd h)) {}"
proof -
  have "\<forall>a. a \<in> R \<longrightarrow> a \<noteq> 0x20090 \<and> a \<noteq> 0x20094 \<and> a \<noteq> 0x800200A4" using assms by blast
  then show ?thesis by (simp add: dma_board_def)
qed

lemma dead_dma_board:
  "dma_board (demo_platform dead_engine_bus fst) (\<lambda>_. True) (ocm_region (demo_platform dead_engine_bus fst)) (\<lambda>h. snd (snd h)) {}"
  by (rule dead_dma_board_on; rule ocm_region_not; simp)

theorem ocm_test_blind_witness:
  "\<exists>s'. run_ocm_to_ddr_test (demo_platform dead_engine_bus fst) (BURST_MASTER_0_BASE OR CACHE_BYPASS_MASK) 0x20000000
       (demo_app (0 :: nat, 0 :: nat, \<lambda>_ :: u32. 7 :: u32)) = Some ((), s') \<and>
     last (console s') = (''SUCCESS: OCM to DDR Verified!'', [])"
  by (rule ocm_test_blind [OF dead_dma_board dead_timer_board, where busy = "\<lambda>_. 0"])
     (simp_all add: engine_answers_def)

end
