(* ===== verification/App_Span_Claims.thy ===== *)
theory App_Span_Claims
  imports App_DMA_Claims
begin

text \<open>
  The second DMA test behind the address span extender.  \<open>span_board\<close> describes the board: the
  processor sees, through the window at \<open>0x88000000\<close>, the physical memory that starts at the
  address last written to the extender's control register; the burst masters, and whatever else
  shares the memory, work on physical addresses from \<open>0x30000000\<close> on, where \<open>ddr_hw_copy\<close> sends
  them, and never below.
\<close>

definition window :: "u32 set" where
  "window = {0x88000000..<0x90000000}"

definition phys_of :: "u32 \<Rightarrow> u32 \<Rightarrow> u32" where
  "phys_of base a = base + (a - 0x88000000)"

definition kept :: "('h \<Rightarrow> u32 \<Rightarrow> u32) \<Rightarrow> ('h \<Rightarrow> u32) \<Rightarrow> 'h \<Rightarrow> 'h \<Rightarrow> bool" where
  "kept phys win h h' \<longleftrightarrow> win h' = win h \<and> (\<forall>p < 0x30000000. phys h' p = phys h p)"

definition span_board :: "('h, ('h, 'x) app_st_scheme) platform \<Rightarrow> ('h \<Rightarrow> u32 \<Rightarrow> u32) \<Rightarrow> ('h \<Rightarrow> u32) \<Rightarrow> bool" where
  "span_board P phys win \<longleftrightarrow>
     (\<forall>h a. kept phys win h (snd (bus_rd (pf_bus P) a h))) \<and>
     (\<forall>h. \<forall>a \<in> window. fst (bus_rd (pf_bus P) a h) = phys h (phys_of (win h) a)) \<and>
     (\<forall>h a d. win (bus_wr (pf_bus P) a d h) = (if a = 0x20008 then d else win h) \<and>
        (\<forall>p < 0x30000000. phys (bus_wr (pf_bus P) a d h) p =
           (if a \<in> window \<and> p = phys_of (win h) a then d else phys h p))) \<and>
     (\<forall>h i. kept phys win h (pf_flushd P i h)) \<and>
     (\<forall>s. wlp (pf_irq P s) (\<lambda>_ s'. kept phys win (hw s) (hw s')))"

lemma span_boardD:
  assumes "span_board P phys win"
  shows "kept phys win h (snd (bus_rd (pf_bus P) a h))"
    "a \<in> window \<Longrightarrow> fst (bus_rd (pf_bus P) a h) = phys h (phys_of (win h) a)"
    "win (bus_wr (pf_bus P) a d h) = (if a = 0x20008 then d else win h)"
    "p < 0x30000000 \<Longrightarrow> phys (bus_wr (pf_bus P) a d h) p = (if a \<in> window \<and> p = phys_of (win h) a then d else phys h p)"
    "kept phys win h (pf_flushd P i h)"
    "wlp (pf_irq P s) (\<lambda>_ s'. kept phys win (hw s) (hw s'))"
  using assms unfolding span_board_def by blast+

definition through :: "('h \<Rightarrow> u32 \<Rightarrow> u32) \<Rightarrow> 'h \<Rightarrow> u32 \<Rightarrow> u32" where
  "through phys h a = phys h (phys_of 0x20000000 a)"

lemma window_phys: "a \<in> window \<Longrightarrow> phys_of 0x20000000 a < 0x30000000"
proof -
  assume a: "a \<in> window"
  then have "unat a < 0x90000000" "0x88000000 \<le> unat a" by (simp_all add: window_def word_le_nat_alt word_less_nat_alt)
  then have "unat (0x20000000 + (a - 0x88000000)) = unat a - 0x68000000"
    by (simp add: unat_word_ariths unat_sub_if')
  with \<open>unat a < 0x90000000\<close> show ?thesis unfolding phys_of_def word_less_nat_alt by simp
qed

lemma phys_of_eq [simp]: "phys_of w a = phys_of w b \<longleftrightarrow> a = b"
  by (simp add: phys_of_def)

lemma kept_through:
  "kept phys win h h' \<Longrightarrow> win h = 0x20000000 \<Longrightarrow>
     win h' = 0x20000000 \<and> (\<forall>b \<in> window. through phys h' b = through phys h b)"
  using window_phys by (simp add: kept_def through_def)

lemma span_dma_board:
  fixes P :: "('h, ('h, 'x) app_st_scheme) platform"
  assumes b: "span_board P phys win"
  shows "dma_board P (\<lambda>h. win h = 0x20000000) window (through phys) {0x20008}"
  unfolding dma_board_def
proof (intro conjI allI impI)
  fix h assume w: "win h = 0x20000000"
  note D = span_boardD [OF b]
  show "win (snd (bus_rd (pf_bus P) a h)) = 0x20000000" "\<forall>b \<in> window. through phys (snd (bus_rd (pf_bus P) a h)) b = through phys h b" for a
    using kept_through [OF D(1) w] by blast+
  show "fst (bus_rd (pf_bus P) a h) = through phys h a" if "a \<in> window" for a
    using D(2) [OF that] w by (simp add: through_def)
  show "win (bus_wr (pf_bus P) a d h) = 0x20000000" if "a \<notin> {0x20008}" for a d
    using D(3) w that by simp
  show "\<forall>b \<in> window. through phys (bus_wr (pf_bus P) a d h) b = (if a = b then d else through phys h b)"
    if "a \<notin> {0x20008}" for a d
    using D(4) [OF window_phys] w by (auto simp: through_def)
  show "win (pf_flushd P i h) = 0x20000000" "\<forall>b \<in> window. through phys (pf_flushd P i h) b = through phys h b" for i
    using kept_through [OF D(5) w] by blast+
next
  fix s :: "('h, 'x) app_st_scheme"
  assume w: "win (hw s) = 0x20000000"
  show "wlp (pf_irq P s) (\<lambda>_ s'. win (hw s') = 0x20000000 \<and>
      (\<forall>b \<in> window. through phys (hw s') b = through phys (hw s) b))"
    by (rule wlp_mono [OF span_boardD(6) [OF b]]) (rule kept_through, assumption, rule w)
qed

section \<open>The three regions of the test\<close>

definition ddr_state :: "nat \<Rightarrow> nat \<Rightarrow> (u32 \<Rightarrow> u32) \<Rightarrow> bool" where
  "ddr_state filled copied f \<longleftrightarrow>
     holds 0x89000000 filled (\<lambda>i. of_nat i + 1023) f \<and>
     holds 0x8A000000 copied (\<lambda>i. scale_word 800 (of_nat i + 1023)) f \<and>
     holds 0x8B000000 filled (\<lambda>_. 0) f"

lemma ddr_word [simp]: "i < 262144 \<Longrightarrow> 0x89000000 + of_nat i * 4 \<in> window"
  "i < 262144 \<Longrightarrow> 0x8A000000 + of_nat i * 4 \<in> window" "i < 262144 \<Longrightarrow> 0x8B000000 + of_nat i * 4 \<in> window"
  by (simp_all add: window_def word_le_nat_alt word_less_nat_alt unat_word_at)

lemma window_not_cntl: "a \<in> window \<Longrightarrow> a \<notin> {0x20008 :: u32}"
  by (auto simp: window_def)

lemma ddr_store:
  assumes "dma_board P J window ram {0x20008}" "i < 262144" "p \<in> {0x89000000, 0x8A000000, 0x8B000000}" "mem_at J window ram f s"
  shows "wp (store_word P p (of_nat i) v s) (\<lambda>_. mem_at J window ram (f(p + of_nat i * 4 := v)))"
proof -
  have "p + of_nat i * 4 \<in> window" using assms(2,3) by auto
  from mem_store [OF assms(1,4) this window_not_cntl [OF this]] show ?thesis .
qed

lemma ddr_load:
  assumes "dma_board P J window ram {0x20008}" "i < 262144" "p \<in> {0x89000000, 0x8A000000, 0x8B000000}" "mem_at J window ram f s"
  shows "wp (load_word P p (of_nat i) s) (\<lambda>r s'. r = f (p + of_nat i * 4) \<and> mem_at J window ram f s')"
  by (rule mem_load [OF assms(1,4)]) (use assms(2,3) in auto)

lemma ddr_apart:
  assumes "i < 262144" "k < 262144"
  shows "0x89000000 + of_nat i * 4 \<noteq> (0x8A000000 + of_nat k * 4 :: u32)"
    "0x89000000 + of_nat i * 4 \<noteq> (0x8B000000 + of_nat k * 4 :: u32)"
    "0x8A000000 + of_nat i * 4 \<noteq> (0x8B000000 + of_nat k * 4 :: u32)"
  by (rule words_at_apart [where n = 262144 and m = 262144]; use assms in simp)+

section \<open>The parts of the test\<close>

lemma ddr_fill_wp:
  fixes s :: "('h, 'x) app_st_scheme"
  assumes b: "dma_board P J window ram {0x20008}" and m: "mem_at J window ram f s"
  shows "wp (ddr_fill P s) (\<lambda>_ s'. \<exists>f. mem_at J window ram f s' \<and> ddr_state 262144 0 f)"
  unfolding ddr_fill_def
proof (rule for_up_wp [where I = "\<lambda>i s'. \<exists>f. mem_at J window ram f s' \<and> ddr_state i 0 f"])
  fix i and s' :: "('h, 'x) app_st_scheme"
  assume i: "i < 262144" and "\<exists>f. mem_at J window ram f s' \<and> ddr_state i 0 f"
  then obtain f where m: "mem_at J window ram f s'" and d: "ddr_state i 0 f" by blast
  let ?f1 = "f(0x89000000 + of_nat i * 4 := of_nat i + 1023)"
  let ?f2 = "?f1(0x8A000000 + of_nat i * 4 := 0)"
  let ?f3 = "?f2(0x8B000000 + of_nat i * 4 := 0)"
  have 1: "holds 0x89000000 (Suc i) (\<lambda>i. of_nat i + 1023) ?f1"
    by (rule holds_snoc [where n = 262144]) (use d i in \<open>auto simp: ddr_state_def\<close>)
  have 2: "holds 0x89000000 (Suc i) (\<lambda>i. of_nat i + 1023) ?f3"
    by (rule holds_other, rule holds_other [OF 1]; rule ddr_apart [symmetric]; use i in linarith)
  have 3: "holds 0x8B000000 i (\<lambda>_. 0) ?f2"
    by (rule holds_other, rule holds_other, use d in \<open>simp add: ddr_state_def\<close>; rule ddr_apart; use i in linarith)
  have "holds 0x8B000000 (Suc i) (\<lambda>_. 0) ?f3"
    using holds_snoc [OF 3, of 262144] i by simp
  with 2 have "ddr_state (Suc i) 0 ?f3" by (simp add: ddr_state_def)
  then show "wp (do { (_, s) \<leftarrow> store_word P (DDR3_WINDOW_BASE + src_offset) (of_nat i) (of_nat i + 1023) s';
        (_, s) \<leftarrow> store_word P (DDR3_WINDOW_BASE + dst_sw_offset) (of_nat i) 0 s;
        store_word P (DDR3_WINDOW_BASE + dst_hw_offset) (of_nat i) 0 s })
      (\<lambda>_ s'. \<exists>f. mem_at J window ram f s' \<and> ddr_state (Suc i) 0 f)"
    by (auto intro!: wp_mono [OF ddr_store [OF b i]] m)
qed (use m in \<open>auto simp: ddr_state_def\<close>)

lemma ddr_sw_copy_wp:
  fixes s :: "('h, 'x) app_st_scheme"
  assumes b: "dma_board P J window ram {0x20008}" and m: "mem_at J window ram f s" and d: "ddr_state 262144 0 f"
  shows "wp (ddr_sw_copy P 800 s) (\<lambda>_ s'. \<exists>f. mem_at J window ram f s' \<and> ddr_state 262144 262144 f)"
  unfolding ddr_sw_copy_def
proof (rule for_up_wp [where I = "\<lambda>i s'. \<exists>f. mem_at J window ram f s' \<and> ddr_state 262144 i f"])
  fix i and s' :: "('h, 'x) app_st_scheme"
  assume i: "i < 262144" and "\<exists>f. mem_at J window ram f s' \<and> ddr_state 262144 i f"
  then obtain f where m: "mem_at J window ram f s'" and d: "ddr_state 262144 i f" by blast
  let ?f = "f(0x8A000000 + of_nat i * 4 := scale_word 800 (of_nat i + 1023))"
  have v: "f (0x89000000 + of_nat i * 4) = of_nat i + 1023" using d i by (simp add: ddr_state_def holds_def)
  have 1: "holds 0x89000000 262144 (\<lambda>i. of_nat i + 1023) ?f" "holds 0x8B000000 262144 (\<lambda>_. 0) ?f"
    by (rule holds_other, use d in \<open>simp add: ddr_state_def\<close>, (rule ddr_apart ddr_apart [symmetric]; use i in linarith))+
  have "holds 0x8A000000 (Suc i) (\<lambda>i. scale_word 800 (of_nat i + 1023)) ?f"
    by (rule holds_snoc [where n = 262144]) (use d i in \<open>auto simp: ddr_state_def\<close>)
  with 1 have "ddr_state 262144 (Suc i) ?f" by (simp add: ddr_state_def)
  then show "wp (do { (v, s) \<leftarrow> load_word P (DDR3_WINDOW_BASE + src_offset) (of_nat i) s';
        store_word P (DDR3_WINDOW_BASE + dst_sw_offset) (of_nat i) (scale_word 800 v) s })
      (\<lambda>_ s'. \<exists>f. mem_at J window ram f s' \<and> ddr_state 262144 (Suc i) f)"
    using v by (auto intro!: wp_mono [OF ddr_load [OF b i]] wp_mono [OF ddr_store [OF b i]] m)
qed (use m d in auto)

lemma scale_word_800: "i < 1024 \<Longrightarrow> scale_word 800 (of_nat i + 1023) = of_nat (2 * i + 2046)"
proof -
  assume i: "i < 1024"
  have "(of_nat i + 1023 :: u32) = of_nat (i + 1023)" by simp
  moreover have "(ucast (of_nat (i + 1023) :: u32) :: u64) = of_nat (i + 1023)"
    using i by (simp only: word_unat_eq_iff unsigned_of_nat unsigned_ucast_eq) (simp add: take_bit_nat_eq_self)
  moreover have "(of_nat (i + 1023) :: u64) * 800 div 400 = of_nat (2 * i + 2046)"
  proof -
    have u: "unat (of_nat n :: u64) = n" if "n < 2 ^ 64" for n
      using that by (simp add: unsigned_of_nat take_bit_nat_eq_self)
    have e: "(of_nat (i + 1023) :: u64) * 800 = of_nat ((i + 1023) * 800)" by (simp only: of_nat_mult of_nat_numeral)
    have "unat (of_nat ((i + 1023) * 800) div 400 :: u64) = 2 * i + 2046"
    proof -
      have "unat (of_nat ((i + 1023) * 800) :: u64) = (i + 1023) * 800" using i by (intro u) simp
      then show ?thesis by (simp only: unat_div_distrib) simp
    qed
    moreover have "unat (of_nat (2 * i + 2046) :: u64) = 2 * i + 2046" using i by (intro u) simp
    ultimately show ?thesis unfolding e by (intro word_unat_eq_iff [THEN iffD2]) simp
  qed
  moreover have "(ucast (of_nat (2 * i + 2046) :: u64) :: u32) = of_nat (2 * i + 2046)"
    using i by (simp only: word_unat_eq_iff unsigned_of_nat unsigned_ucast_eq) (simp add: take_bit_nat_eq_self)
  moreover have "(ucast (800 :: u32) :: u64) = 800" by simp
  ultimately show ?thesis unfolding scale_word_def by (simp only:)
qed

lemma sint_minus_small: "0 < n \<Longrightarrow> n < 2 ^ 31 \<Longrightarrow> sint (0 - of_nat n :: u32) = - int n"
proof -
  assume n: "0 < n" "n < 2 ^ 31"
  have "(0 - of_nat n :: u32) = of_int (- int n)" by simp
  then show ?thesis using n by (simp only: signed_of_int) (simp add: signed_take_bit_int_eq_self)
qed

lemma ddr_check_wp:
  fixes s :: "('h, 'x) app_st_scheme"
  assumes b: "dma_board P J window ram {0x20008}" and m: "mem_at J window ram f s" and d: "ddr_state 262144 262144 f"
  shows "wp (ddr_check P s) (\<lambda>r s'. r = 1024 \<and> mem_at J window ram f s')"
proof -
  have "wp (ddr_check P s) (\<lambda>r s'. r = 0 + int (length (filter (\<lambda>_. True) [0..<1024])) \<and> mem_at J window ram f s')"
    unfolding ddr_check_def
  proof (rule count_errors_wp)
    fix i :: nat and s' :: "('h, 'x) app_st_scheme"
    assume i: "i < 1024" and m: "mem_at J window ram f s'"
    from i have i': "i < 262144" by simp
    have v: "f (0x8B000000 + of_nat i * 4) = 0" "f (0x8A000000 + of_nat i * 4) = of_nat (2 * i + 2046)"
      using d i scale_word_800 [OF i] by (simp_all add: ddr_state_def holds_def)
    have "sint (0 - of_nat (2 * i + 2046) :: u32) < -1" using i by (subst sint_minus_small) simp_all
    then show "wp (do { (a, s) \<leftarrow> load_word P (DDR3_WINDOW_BASE + dst_hw_offset) (of_nat i) s';
          (b, s) \<leftarrow> load_word P (DDR3_WINDOW_BASE + dst_sw_offset) (of_nat i) s;
          let diff = sint (a - b); Some (diff > 1 \<or> diff < -1, s) }) (\<lambda>e s'. e = True \<and> mem_at J window ram f s')"
      using v by (auto simp: Let_def intro!: wp_mono [OF ddr_load [OF b i']] m)
  qed (use m in auto)
  then show ?thesis by (rule wp_mono) simp
qed

section \<open>The property\<close>

lemma ddr_hw_copy_wp:
  assumes b: "dma_board P J window ram {0x20008}" and e: "engine_answers (pf_bus P) csr busy"
    and m: "mem_at J window ram f s" and r: "\<forall>off \<in> {0, 4, 8, 12, 16}. csr + off \<notin> window \<union> {0x20008}"
  shows "wp (ddr_hw_copy P csr base s) (\<lambda>_. mem_at J window ram f)"
proof -
  note w = mem_write [OF b, where b = csr]
  show ?thesis unfolding ddr_hw_copy_def
    using r by (auto simp del: IOWR_32DIRECT_eq intro!: w wp_mono [OF w] wp_mono [OF mem_dma_wait [OF b e]] m)
qed

lemma ddr_test_wp:
  fixes s :: "('h, 'x) app_st_scheme"
  assumes b: "dma_board P J window ram {0x20008}" and t: "timer_board P cyc latch"
    and e: "engine_answers (pf_bus P) 0x800200C0 busy" and m: "mem_at J window ram f s"
  shows "wp (run_ddr_to_ddr_test P 0x800200C0 d s)
     (\<lambda>_ s'. \<exists>pre. console s' = pre @ [(''FAILURE: %d errors in DDR test.'', [PInt 1024])])"
proof -
  have tm: "TIMER_0_BASE + 16 \<notin> window" by (simp add: window_def)
  note c = mem_cycles [OF b t _ tm]
  have r: "\<forall>off \<in> {0, 4, 8, 12, 16}. 0x800200C0 + off \<notin> window \<union> {0x20008}" by (simp add: window_def)
  have w: "mem_at J window ram f s \<Longrightarrow> wp (IOWR_32DIRECT (pf_bus P) 0x800200C0 off v s) (\<lambda>_. mem_at J window ram f)"
    if "off \<in> {20, 24, 28}" for off v f and s :: "('h, 'x) app_st_scheme"
    by (rule mem_write [OF b]) (use that in \<open>auto simp: window_def\<close>)
  show ?thesis
    unfolding run_ddr_to_ddr_test_def print_rate_def
    by (auto simp: Let_def simp del: IOWR_32DIRECT_eq intro!: wp_mono [OF ddr_fill_wp [OF b]] wp_mono [OF mem_flush [OF b]] wp_mono [OF c]
        wp_mono [OF ddr_sw_copy_wp [OF b]] wp_mono [OF w] wp_mono [OF ddr_hw_copy_wp [OF b e _ r]] wp_mono [OF ddr_check_wp [OF b]] m)
qed

text \<open>
  C35. The second DMA test cannot succeed from the menu.  Option 2 moves the window to
  \<open>0x20000000\<close> before the test, while the test sends the engine to \<open>0x30000000\<close>; so on a board whose
  engines stay in the memory they are sent to, however well they copy, all 1024 words that are
  compared are reported as errors.
\<close>

theorem ddr_test_fails_from_menu:
  assumes b: "span_board P phys win" and t: "timer_board P cyc latch"
    and e: "engine_answers (pf_bus P) 0x800200C0 busy"
  shows "\<exists>s' pre. menu_choice P (ch CHR ''2'') s = Some ((), s') \<and> console s' = pre @
     [(''FAILURE: %d errors in DDR test.'', [PInt 1024]), (''[Restore] Window mapped to 0x30000000 for Video'', [])]"
proof -
  note d = span_dma_board [OF b]
  have m: "mem_at (\<lambda>h. win h = 0x20000000) window (through phys) (through phys (hw s1)) s1"
    if "win (hw s1) = 0x20000000" for s1 using that by (simp add: mem_at_def)
  have "wp (menu_choice P (ch CHR ''2'') s) (\<lambda>_ s'. \<exists>pre. console s' = pre @
     [(''FAILURE: %d errors in DDR test.'', [PInt 1024]), (''[Restore] Window mapped to 0x30000000 for Video'', [])])"
    unfolding menu_choice_def set_window_def
    by (auto simp: of_char_def intro!: wp_mono [OF ddr_test_wp [OF d t e m]] span_boardD(3) [OF b, THEN trans])
  then show ?thesis by (auto simp: wp_iff)
qed

text \<open>
  A board with a working engine: a write of its control register copies and scales the megabyte
  at \<open>0x31000000\<close> to \<open>0x33000000\<close>.  Its state is the cycle counter, the latched snapshot, the window
  register and the memory.
\<close>

definition engine_step :: "(u32 \<Rightarrow> u32) \<Rightarrow> u32 \<Rightarrow> u32" where
  "engine_step m = (\<lambda>p. if p \<in> {0x33000000..<0x33100000} then scale_word 800 (m (p - 0x02000000)) else m p)"

definition span_bus :: "(nat \<times> nat \<times> u32 \<times> (u32 \<Rightarrow> u32)) bus" where
  "span_bus = \<lparr>
     bus_rd = (\<lambda>a (c, l, w, m). (if a = 0x20090 then of_nat (l mod 65536) else if a = 0x20094 then of_nat (l div 65536)
         else if a = 0x800200C4 then 1 else if a \<in> window then m (phys_of w a) else 0, (c + 900, l, w, m))),
     bus_wr = (\<lambda>a d (c, l, w, m). (c + 900, if a = 0x20090 then 49999 - (c + 100) mod 50000 else l,
         if a = 0x20008 then d else w,
         if a \<in> window then m(phys_of w a := d) else if a = 0x800200C0 then engine_step m else m)),
     bus_delay = (\<lambda>us h. h)\<rparr>"

lemma span_timer_board: "timer_board (demo_platform span_bus fst) fst (\<lambda>h. fst (snd h))"
proof -
  have "\<exists>c'. c \<le> c' \<and> c' \<le> c + 900 \<and> 49999 - (c + 100) mod 50000 = 49999 - c' mod 50000" for c :: nat
    by (intro exI [of _ "c + 100"]) simp
  then show ?thesis
    by (auto simp: timer_board_def timer_steps_def timer_synced_def span_bus_def split: prod.splits)
qed

lemma engine_step_low: "p < 0x30000000 \<Longrightarrow> engine_step m p = m p"
  by (simp add: engine_step_def word_less_nat_alt word_le_nat_alt)

lemma span_bus_board:
  "span_board (demo_platform span_bus fst) (\<lambda>h. snd (snd (snd h))) (\<lambda>h. fst (snd (snd h)))"
proof -
  have "a \<notin> {0x20090, 0x20094, 0x800200C4, 0x20008, 0x800200C0}" if "a \<in> window" for a
    using that by (auto simp: window_def)
  then have "a \<in> window \<longrightarrow> a \<noteq> 0x20090 \<and> a \<noteq> 0x20094 \<and> a \<noteq> 0x800200C4 \<and> a \<noteq> 0x20008 \<and> a \<noteq> 0x800200C0" for a
    by blast
  then show ?thesis
    by (auto simp: span_board_def kept_def span_bus_def engine_step_low split: prod.splits)
qed

theorem ddr_test_fails_from_menu_witness:
  "\<exists>s' pre. menu_choice (demo_platform span_bus fst) (ch CHR ''2'')
       (demo_app (0 :: nat, 0 :: nat, 0x30000000 :: u32, \<lambda>_ :: u32. 0 :: u32)) = Some ((), s') \<and> console s' = pre @
     [(''FAILURE: %d errors in DDR test.'', [PInt 1024]), (''[Restore] Window mapped to 0x30000000 for Video'', [])]"
  by (rule ddr_test_fails_from_menu [OF span_bus_board span_timer_board, where busy = "\<lambda>_. 0"])
     (auto simp: engine_answers_def span_bus_def split: prod.splits)

end
