(* ===== verification/JTAG_Ring.thy ===== *)
theory JTAG_Ring
  imports Prelude
begin

text \<open>
  The circular buffers of the JTAG UART driver, as pure data: two 32-bit indices into an array
  of \<open>ALTERA_AVALON_JTAG_UART_BUF_LEN\<close> bytes.  The code moves bytes in runs, one \<open>memcpy\<close> as far as
  the array goes without wrapping; here a run is shown equal to moving its bytes one at a time,
  and moving bytes one at a time is shown to be a bounded queue.
\<close>

abbreviation (input) BUF_LEN :: nat where "BUF_LEN \<equiv> 2048"
abbreviation (input) BUF_LEN_w :: u32 where "BUF_LEN_w \<equiv> 2048"

section \<open>The contract of a bounded queue\<close>

locale bounded_queue =
  fixes ok :: "'q \<Rightarrow> bool" and view :: "'q \<Rightarrow> 'a list" and cap :: nat
    and put :: "'a \<Rightarrow> 'q \<Rightarrow> 'q" and get :: "'q \<Rightarrow> 'q"
  assumes put_ok: "ok q \<Longrightarrow> length (view q) < cap \<Longrightarrow> ok (put x q)"
    and put_view: "ok q \<Longrightarrow> length (view q) < cap \<Longrightarrow> view (put x q) = view q @ [x]"
    and get_ok: "ok q \<Longrightarrow> view q \<noteq> [] \<Longrightarrow> ok (get q)"
    and get_view: "ok q \<Longrightarrow> view q \<noteq> [] \<Longrightarrow> view (get q) = tl (view q)"
begin

lemma put_many:
  "ok q \<Longrightarrow> length (view q) + length xs \<le> cap \<Longrightarrow> ok (fold put xs q) \<and> view (fold put xs q) = view q @ xs"
  by (induction xs arbitrary: q) (simp_all add: put_ok put_view)

lemma get_many:
  "ok q \<Longrightarrow> n \<le> length (view q) \<Longrightarrow> ok ((get ^^ n) q) \<and> view ((get ^^ n) q) = drop n (view q)"
proof (induction n)
  case (Suc n)
  then have "view ((get ^^ n) q) \<noteq> []" by auto
  with Suc show ?case by (simp add: get_ok get_view drop_Suc tl_drop)
qed simp

end

section \<open>Rings\<close>

text \<open>In-index, out-index and array.  One cell stays free, so equal indices mean empty.\<close>

type_synonym ring = "u32 \<times> u32 \<times> u8 list"

definition ring_ok :: "ring \<Rightarrow> bool" where
  "ring_ok r = (case r of (i, j, b) \<Rightarrow> i < 2048 \<and> j < 2048 \<and> length b = BUF_LEN)"

definition ring_len :: "ring \<Rightarrow> nat" where
  "ring_len r = (case r of (i, j, b) \<Rightarrow> if unat j \<le> unat i then unat i - unat j else unat i + BUF_LEN - unat j)"

definition ring_view :: "ring \<Rightarrow> u8 list" where
  "ring_view r = (case r of (i, j, b) \<Rightarrow> map (\<lambda>k. b ! ((unat j + k) mod BUF_LEN)) [0..<ring_len r])"

definition ring_put :: "u8 \<Rightarrow> ring \<Rightarrow> ring" where
  "ring_put x r = (case r of (i, j, b) \<Rightarrow> ((i + 1) mod 2048, j, b[unat i := x]))"

definition ring_get :: "ring \<Rightarrow> ring" where
  "ring_get r = (case r of (i, j, b) \<Rightarrow> (i, (j + 1) mod 2048, b))"

lemma length_ring_view [simp]: "length (ring_view r) = ring_len r"
  by (simp add: ring_view_def split: prod.splits)

lemma ring_len_less: "ring_ok r \<Longrightarrow> ring_len r < 2048"
  by (auto simp: ring_ok_def ring_len_def word_less_nat_alt split: prod.splits)

lemma unat_add_mod_2048:
  assumes "(i :: u32) < 2048" "n \<le> 2048"
  shows "unat ((i + n) mod 2048) = (unat i + unat n) mod 2048"
proof -
  have "unat i < 2048" "unat n \<le> 2048" using assms by (simp_all add: word_less_nat_alt word_le_nat_alt)
  then have "unat (i + n) = unat i + unat n" by (simp add: unat_word_ariths)
  then show ?thesis by (simp add: unat_mod_distrib)
qed

lemma unat_next: "(i :: u32) < 2048 \<Longrightarrow> unat ((i + 1) mod 2048) = (if unat i = 2047 then 0 else unat i + 1)"
  by (simp add: unat_add_mod_2048 word_less_nat_alt)

lemma mod_2048_less [simp]: "(x :: u32) mod 2048 < 2048"
  by (rule word_mod_less_divisor) simp

lemma ring_empty_iff: "ring_len (i, j, b) = 0 \<longleftrightarrow> i = j" if "ring_ok (i, j, b)"
  using that by (auto simp: ring_ok_def ring_len_def word_less_nat_alt word_unat_eq_iff)

lemma ring_full_iff: "ring_ok (i, j, b) \<Longrightarrow> (i + 1) mod 2048 = j \<longleftrightarrow> ring_len (i, j, b) = 2047"
  by (auto simp: ring_ok_def ring_len_def word_unat_eq_iff unat_next word_less_nat_alt)

lemma ring_len_put: "ring_ok r \<Longrightarrow> ring_len r < 2047 \<Longrightarrow> ring_len (ring_put x r) = Suc (ring_len r)"
  by (cases r) (auto simp: ring_ok_def ring_len_def ring_put_def unat_next word_less_nat_alt split: if_splits)

lemma ring_len_get: "ring_ok r \<Longrightarrow> 0 < ring_len r \<Longrightarrow> ring_len (ring_get r) = ring_len r - 1"
  by (cases r) (auto simp: ring_ok_def ring_len_def ring_get_def unat_next word_less_nat_alt split: if_splits)

lemma mod_2048: "n < 4096 \<Longrightarrow> n mod 2048 = (if n < 2048 then n else n - (2048 :: nat))"
  by (simp add: mod_if)

lemma ring_cell_apart:
  assumes "ring_ok (i, j, b)" "k < ring_len (i, j, b)"
  shows "(unat j + k) mod 2048 \<noteq> unat i"
proof -
  have "unat i < 2048" "unat j < 2048" using assms by (simp_all add: ring_ok_def word_less_nat_alt)
  moreover from this assms(2) have "unat j + k < 4096" by (simp add: ring_len_def split: if_splits)
  ultimately show ?thesis using assms(2) unfolding mod_2048 [OF \<open>unat j + k < 4096\<close>] ring_len_def prod.case
    by (auto split: if_splits)
qed

lemma ring_cell_in:
  assumes "ring_ok (i, j, b)"
  shows "(unat j + ring_len (i, j, b)) mod 2048 = unat i"
  using assms by (auto simp: ring_ok_def ring_len_def word_less_nat_alt)

interpretation ring: bounded_queue ring_ok ring_view 2047 ring_put ring_get
proof
  fix r :: ring and x
  assume r: "ring_ok r" and l: "length (ring_view r) < 2047"
  obtain i j b where e: "r = (i, j, b)" by (cases r) auto
  show "ring_ok (ring_put x r)" using r by (auto simp: ring_ok_def ring_put_def split: prod.splits)
  have cells: "b[unat i := x] ! ((unat j + k) mod 2048) = b ! ((unat j + k) mod 2048)" if "k < ring_len (i, j, b)" for k
    using ring_cell_apart [of i j b k] r e that by simp
  have new: "b[unat i := x] ! ((unat j + ring_len (i, j, b)) mod 2048) = x"
    using r e ring_cell_in [of i j b] by (simp add: ring_ok_def word_less_nat_alt)
  have "ring_len (ring_put x r) = Suc (ring_len r)" using ring_len_put [OF r] l by simp
  then show "ring_view (ring_put x r) = ring_view r @ [x]"
    using cells new e by (simp add: ring_view_def ring_put_def)
next
  fix r :: ring
  assume r: "ring_ok r" and n: "ring_view r \<noteq> []"
  obtain i j b where e: "r = (i, j, b)" by (cases r) auto
  show "ring_ok (ring_get r)" using r by (auto simp: ring_ok_def ring_get_def split: prod.splits)
  have p: "0 < ring_len r" using n by (simp flip: length_ring_view)
  from ring_len_get [OF r p] have l: "ring_len (ring_get r) = ring_len r - 1" .
  have j: "j < 2048" using r e by (simp add: ring_ok_def)
  show "ring_view (ring_get r) = tl (ring_view r)"
  proof (rule nth_equalityI)
    fix k assume "k < length (ring_view (ring_get r))"
    then have k: "Suc k < ring_len r" using l p by simp
    have "((unat j + 1) mod 2048 + k) mod 2048 = (unat j + Suc k) mod 2048" by (simp add: mod_add_left_eq)
    moreover have "unat ((j + 1) mod 2048) = (unat j + 1) mod 2048" using unat_add_mod_2048 [OF j, of 1] by simp
    ultimately have c: "(unat ((j + 1) mod 2048) + k) mod 2048 = (unat j + Suc k) mod 2048" by simp
    have k': "k < ring_len r - 1" using k by simp
    have "ring_view (ring_get r) ! k = b ! ((unat ((j + 1) mod 2048) + k) mod 2048)"
      using k' l e by (simp add: ring_view_def ring_get_def)
    also have "\<dots> = ring_view r ! Suc k" using c k e by (simp add: ring_view_def)
    finally show "ring_view (ring_get r) ! k = tl (ring_view r) ! k" using k by (simp add: nth_tl)
  qed (simp add: l)
qed

section \<open>Runs\<close>

text \<open>A \<open>memcpy\<close> into or out of the array; beyond its end the behaviour is undefined.\<close>

definition array_blit :: "u8 list \<Rightarrow> nat \<Rightarrow> u8 list \<Rightarrow> u8 list option" where
  "array_blit b i xs = (if i + length xs \<le> length b then Some (take i b @ xs @ drop (i + length xs) b) else None)"

definition array_slice :: "u8 list \<Rightarrow> nat \<Rightarrow> nat \<Rightarrow> u8 list option" where
  "array_slice b i n = (if i + n \<le> length b then Some (take n (drop i b)) else None)"

definition array_set :: "u8 list \<Rightarrow> nat \<Rightarrow> u8 \<Rightarrow> u8 list option" where
  "array_set b i x = (if i < length b then Some (b[i := x]) else None)"

definition array_get :: "u8 list \<Rightarrow> nat \<Rightarrow> u8 option" where
  "array_get b i = (if i < length b then Some (b ! i) else None)"

lemma blit_snoc:
  "i + length xs < length b \<Longrightarrow>
     (take i b @ xs @ drop (i + length xs) b)[i + length xs := x] =
     take i b @ (xs @ [x]) @ drop (i + length (xs @ [x])) b"
  by (simp add: list_update_append min_def Cons_nth_drop_Suc [symmetric])

text \<open>A run into the ring that does not wrap is its bytes put one at a time.\<close>

lemma ring_put_run:
  assumes "ring_ok (i, j, b)" "unat i + length xs \<le> BUF_LEN"
  shows "fold ring_put xs (i, j, b) =
     ((i + of_nat (length xs)) mod 2048, j, take (unat i) b @ xs @ drop (unat i + length xs) b)"
  using assms(2)
proof (induction xs rule: rev_induct)
  case Nil
  have "i mod 2048 = i" using assms(1) by (simp add: ring_ok_def mod_word_less)
  then show ?case by simp
next
  case (snoc x xs)
  have i: "i < 2048" "unat i < 2048" "length b = 2048" using assms(1) by (simp_all add: ring_ok_def word_less_nat_alt)
  have n: "unat (of_nat (length xs) :: u32) = length xs" "of_nat (length xs) \<le> (2048 :: u32)"
    using snoc.prems by (simp_all add: word_le_nat_alt unsigned_of_nat take_bit_nat_eq_self)
  have u: "unat ((i + of_nat (length xs)) mod 2048) = unat i + length xs"
    using unat_add_mod_2048 [OF i(1) n(2)] n(1) snoc.prems by simp
  have "((i + of_nat (length xs)) mod 2048 + 1) mod 2048 = (i + of_nat (length (xs @ [x]))) mod 2048"
  proof -
    have "unat (((i + of_nat (length xs)) mod 2048 + 1) mod 2048) = (unat i + length xs + 1) mod 2048"
      using u unat_add_mod_2048 [of "(i + of_nat (length xs)) mod 2048" 1] by simp
    moreover have "unat ((i + of_nat (length (xs @ [x]))) mod 2048) = (unat i + length (xs @ [x])) mod 2048"
    proof -
      have "unat (of_nat (length (xs @ [x])) :: u32) = length (xs @ [x])" "of_nat (length (xs @ [x])) \<le> (2048 :: u32)"
        using snoc.prems by (simp_all add: word_le_nat_alt unsigned_of_nat take_bit_nat_eq_self del: of_nat_Suc)
      with unat_add_mod_2048 [OF i(1), of "of_nat (length (xs @ [x]))"] show ?thesis by simp
    qed
    ultimately show ?thesis by (simp add: word_unat_eq_iff)
  qed
  moreover have "(take (unat i) b @ xs @ drop (unat i + length xs) b)[unat i + length xs := x] =
      take (unat i) b @ (xs @ [x]) @ drop (unat i + length (xs @ [x])) b"
    by (rule blit_snoc) (use snoc.prems i in simp)
  ultimately show ?case using snoc u by (simp add: ring_put_def)
qed

text \<open>Likewise for a run out of the ring.\<close>

lemma ring_get_run:
  assumes "ring_ok (i, j, b)" "n \<le> BUF_LEN"
  shows "(ring_get ^^ n) (i, j, b) = (i, (j + of_nat n) mod 2048, b)"
  using assms(2)
proof (induction n)
  case 0
  show ?case using assms(1) by (simp add: ring_ok_def mod_word_less)
next
  case (Suc n)
  have j: "j < 2048" using assms(1) by (simp add: ring_ok_def)
  have u: "unat ((j + of_nat m) mod 2048) = (unat j + m) mod 2048" if "m \<le> 2048" for m
  proof -
    have "unat (of_nat m :: u32) = m" "of_nat m \<le> (2048 :: u32)"
      using that by (simp_all add: word_le_nat_alt unsigned_of_nat take_bit_nat_eq_self)
    with unat_add_mod_2048 [OF j, of "of_nat m"] show ?thesis by simp
  qed
  have "unat (((j + of_nat n) mod 2048 + 1) mod 2048) = unat ((j + of_nat (Suc n)) mod 2048)"
    using u [of n] u [of "Suc n"] Suc.prems unat_add_mod_2048 [of "(j + of_nat n) mod 2048" 1]
    by (simp add: mod_Suc_eq del: of_nat_Suc)
  then have "((j + of_nat n) mod 2048 + 1) mod 2048 = (j + of_nat (Suc n)) mod 2048"
    by (simp only: word_unat_eq_iff)
  with Suc show ?case by (simp add: ring_get_def del: of_nat_Suc)
qed

text \<open>What a run that does not wrap reads is the front of the queue.\<close>

lemma ring_slice:
  assumes "ring_ok (i, j, b)" "unat j + n \<le> BUF_LEN" "n \<le> ring_len (i, j, b)"
  shows "take n (drop (unat j) b) = take n (ring_view (i, j, b))"
proof (rule nth_equalityI)
  have l: "length b = 2048" using assms(1) by (simp add: ring_ok_def)
  show "length (take n (drop (unat j) b)) = length (take n (ring_view (i, j, b)))"
    using l assms(2,3) by simp
  fix k assume "k < length (take n (drop (unat j) b))"
  then have k: "k < n" by simp
  with assms(2,3) have "unat j + k < 2048" "k < ring_len (i, j, b)" by simp_all
  then show "take n (drop (unat j) b) ! k = take n (ring_view (i, j, b)) ! k"
    using k l by (simp add: ring_view_def)
qed

end
