(* ===== verification/JTAG_UART.thy ===== *)
theory JTAG_UART
  imports JTAG_Ring HAL_Time
begin

text \<open>
  The JTAG UART driver (\<open>drivers/src/altera_avalon_jtag_uart_{init,read,write,ioctl,fd}.c\<close>,
  \<open>drivers/inc/altera_avalon_jtag_uart*.h\<close>): the polled driver of \<open>ALTERA_AVALON_JTAG_UART_SMALL\<close>
  and the interrupt-driven one, whose handler moves bytes between the device and two circular
  buffers.

  \<open>J\<close> stands for the interrupts taken at a program point; the points are the accesses to the
  members the handlers share with the calls.  A \<open>memcpy\<close> is one step.  The semaphores and event
  flags are absent in this build without an operating system, and so are the logging macros.
  An access outside an array has no defined result.
\<close>

section \<open>State (altera_avalon_jtag_uart.h)\<close>

record altera_avalon_jtag_uart_state =
  sp_base :: u32
  timeout :: u32
  irq_enable :: u32
  host_inactive :: u32
  rx_in :: u32
  rx_out :: u32
  tx_in :: u32
  tx_out :: u32
  rx_buf :: "u8 list"
  tx_buf :: "u8 list"

record 'h uart_st = "'h time_st" +
  sp :: altera_avalon_jtag_uart_state

definition upd_sp :: "(altera_avalon_jtag_uart_state \<Rightarrow> altera_avalon_jtag_uart_state)
    \<Rightarrow> ('h, 'x) uart_st_scheme \<Rightarrow> ('h, 'x) uart_st_scheme" where
  "upd_sp f s = s\<lparr>sp := f (sp s)\<rparr>"

text \<open>\<open>ALTERA_AVALON_JTAG_UART_STATE_INSTANCE\<close>: what is not named is zero.\<close>

definition uart_instance :: "u32 \<Rightarrow> altera_avalon_jtag_uart_state" where
  "uart_instance base = \<lparr>sp_base = base, timeout = 10, irq_enable = 0, host_inactive = 0,
     rx_in = 0, rx_out = 0, tx_in = 0, tx_out = 0,
     rx_buf = replicate BUF_LEN 0, tx_buf = replicate BUF_LEN 0\<rparr>"

abbreviation (input) RVALID_MSK :: u32 where "RVALID_MSK \<equiv> 0x8000"
abbreviation (input) DATA_MSK :: u32 where "DATA_MSK \<equiv> 0xFF"
abbreviation (input) RAVAIL_MSK :: u32 where "RAVAIL_MSK \<equiv> 0xFFFF0000"
abbreviation (input) WSPACE_MSK :: u32 where "WSPACE_MSK \<equiv> 0xFFFF0000"
abbreviation (input) RE_MSK :: u32 where "RE_MSK \<equiv> 1"
abbreviation (input) WE_MSK :: u32 where "WE_MSK \<equiv> 2"
abbreviation (input) RI_MSK :: u32 where "RI_MSK \<equiv> 0x100"
abbreviation (input) WI_MSK :: u32 where "WI_MSK \<equiv> 0x200"
abbreviation (input) AC_MSK :: u32 where "AC_MSK \<equiv> 0x400"
abbreviation (input) O_NONBLOCK :: u32 where "O_NONBLOCK \<equiv> 0x4000"
abbreviation (input) EWOULDBLOCK :: int where "EWOULDBLOCK \<equiv> 11"
abbreviation (input) EIO :: int where "EIO \<equiv> 5"
abbreviation (input) INT_MAX :: u32 where "INT_MAX \<equiv> 0x7FFFFFFF"
abbreviation (input) TIOCSTIMEOUT :: u32 where "TIOCSTIMEOUT \<equiv> 0x6a01"
abbreviation (input) TIOCGCONNECTED :: u32 where "TIOCGCONNECTED \<equiv> 0x6a02"

text \<open>The result of a read or write that moved the pointer from \<open>start\<close> to \<open>ptr\<close>.\<close>

definition moved_result :: "u32 \<Rightarrow> u32 \<Rightarrow> u32 \<Rightarrow> int" where
  "moved_result start ptr flags =
     (if ptr \<noteq> start then sint (ptr - start)
      else if flags AND O_NONBLOCK \<noteq> 0 then - EWOULDBLOCK else - EIO)"

section \<open>The small driver\<close>

partial_function (option) small_read_loop ::
  "'h bus \<Rightarrow> u32 \<Rightarrow> u32 \<Rightarrow> u32 \<Rightarrow> u32 \<Rightarrow> u32 \<Rightarrow> (u32, ('h, 'x) hal_scheme) prog" where
  "small_read_loop B base buffer limit flags ptr s =
     (if ptr < limit then do {
        (data, s) \<leftarrow> IORD B base 0 s;
        (if data AND RVALID_MSK \<noteq> 0
         then small_read_loop B base buffer limit flags (ptr + 1) (s\<lparr>bytes := (bytes s)(ptr := ucast (data AND DATA_MSK))\<rparr>)
         else if ptr \<noteq> buffer then Some (ptr, s)
         else if flags AND O_NONBLOCK \<noteq> 0 then Some (ptr, s)
         else small_read_loop B base buffer limit flags ptr s)
      } else Some (ptr, s))"

definition small_uart_read :: "'h bus \<Rightarrow> u32 \<Rightarrow> u32 \<Rightarrow> u32 \<Rightarrow> u32 \<Rightarrow> (int, ('h, 'x) hal_scheme) prog" where
  "small_uart_read B base buffer space flags s = do {
     (ptr, s) \<leftarrow> small_read_loop B base buffer (buffer + space) flags buffer s;
     Some (moved_result buffer ptr flags, s)
   }"

partial_function (option) small_write_loop ::
  "'h bus \<Rightarrow> u32 \<Rightarrow> u32 \<Rightarrow> u32 \<Rightarrow> (unit, ('h, 'x) hal_scheme) prog" where
  "small_write_loop B base limit ptr s =
     (if ptr < limit then do {
        (control, s) \<leftarrow> IORD B base 1 s;
        (if control AND WSPACE_MSK \<noteq> 0 then do {
           (_, s) \<leftarrow> IOWR B base 0 (scast (bytes s ptr)) s;
           small_write_loop B base limit (ptr + 1) s
         } else small_write_loop B base limit ptr s)
      } else Some ((), s))"

definition small_uart_write :: "'h bus \<Rightarrow> u32 \<Rightarrow> u32 \<Rightarrow> u32 \<Rightarrow> u32 \<Rightarrow> (int, ('h, 'x) hal_scheme) prog" where
  "small_uart_write B base ptr count flags s = do {
     (_, s) \<leftarrow> small_write_loop B base (ptr + count) ptr s;
     Some (sint count, s)
   }"

section \<open>The interrupt handler\<close>

partial_function (option) rx_drain :: "'h bus \<Rightarrow> u32 \<Rightarrow> u32 \<Rightarrow> (u32, ('h, 'x) uart_st_scheme) prog" where
  "rx_drain B base data s =
     (if (rx_in (sp s) + 1) mod BUF_LEN_w = rx_out (sp s) then Some (data, s)
      else do {
        (data, s) \<leftarrow> IORD B base 0 s;
        (if data AND RVALID_MSK = 0 then Some (data, s)
         else do {
           b \<leftarrow> array_set (rx_buf (sp s)) (unat (rx_in (sp s))) (ucast (data AND DATA_MSK));
           rx_drain B base data (upd_sp (\<lambda>r. r\<lparr>rx_buf := b, rx_in := (rx_in r + 1) mod BUF_LEN_w\<rparr>) s)
         })
      })"

definition isr_rx :: "'h bus \<Rightarrow> u32 \<Rightarrow> (unit, ('h, 'x) uart_st_scheme) prog" where
  "isr_rx B base s = do {
     (data, s) \<leftarrow> rx_drain B base (push_bit 16 1) s;
     (if data AND RAVAIL_MSK \<noteq> 0 then do {
        let s = upd_sp (\<lambda>r. r\<lparr>irq_enable := irq_enable r AND NOT RE_MSK\<rparr>) s;
        (_, s) \<leftarrow> IOWR B base 1 (irq_enable (sp s)) s;
        (_, s) \<leftarrow> IORD B base 1 s;
        Some ((), s)
      } else Some ((), s))
   }"

function tx_drain :: "'h bus \<Rightarrow> u32 \<Rightarrow> u32 \<Rightarrow> (u32, ('h, 'x) uart_st_scheme) prog" where
  "tx_drain B base space s =
     (if space > 0 \<and> tx_out (sp s) \<noteq> tx_in (sp s) then do {
        c \<leftarrow> array_get (tx_buf (sp s)) (unat (tx_out (sp s)));
        (_, s) \<leftarrow> IOWR B base 0 (scast c) s;
        tx_drain B base (space - 1) (upd_sp (\<lambda>r. r\<lparr>tx_out := (tx_out r + 1) mod BUF_LEN_w\<rparr>) s)
      } else Some (space, s))"
  by pat_completeness auto
termination
  by (relation "measure (\<lambda>(_, _, space, _). unat space)") (auto intro: unat_minus_one_less)

declare tx_drain.simps [simp del]

definition isr_tx :: "'h bus \<Rightarrow> u32 \<Rightarrow> u32 \<Rightarrow> (unit, ('h, 'x) uart_st_scheme) prog" where
  "isr_tx B base control s = do {
     (space, s) \<leftarrow> tx_drain B base (drop_bit 16 (control AND WSPACE_MSK)) s;
     (if space > 0 then do {
        let s = upd_sp (\<lambda>r. r\<lparr>irq_enable := irq_enable r AND NOT WE_MSK\<rparr>) s;
        (_, s) \<leftarrow> IOWR B (sp_base (sp s)) 1 (irq_enable (sp s)) s;
        (_, s) \<leftarrow> IORD B base 1 s;
        Some ((), s)
      } else Some ((), s))
   }"

partial_function (option) isr_loop :: "'h bus \<Rightarrow> u32 \<Rightarrow> (unit, ('h, 'x) uart_st_scheme) prog" where
  "isr_loop B base s = do {
     (control, s) \<leftarrow> IORD B base 1 s;
     (if control AND (RI_MSK OR WI_MSK) = 0 then Some ((), s)
      else do {
        (_, s) \<leftarrow> (if control AND RI_MSK \<noteq> 0 then isr_rx B base s else Some ((), s));
        (_, s) \<leftarrow> (if control AND WI_MSK \<noteq> 0 then isr_tx B base control s else Some ((), s));
        isr_loop B base s
      })
   }"

definition altera_avalon_jtag_uart_irq :: "'h bus \<Rightarrow> (unit, ('h, 'x) uart_st_scheme) prog" where
  "altera_avalon_jtag_uart_irq B s = isr_loop B (sp_base (sp s)) s"

text \<open>The alarm callback; its result is the delay to its next call.\<close>

definition altera_avalon_jtag_uart_timeout :: "'h bus \<Rightarrow> (u32, ('h, 'x) uart_st_scheme) prog" where
  "altera_avalon_jtag_uart_timeout B s = do {
     (control, s) \<leftarrow> IORD B (sp_base (sp s)) 1 s;
     (_, s) \<leftarrow>
       (if control AND AC_MSK \<noteq> 0 then do {
          (_, s) \<leftarrow> IOWR B (sp_base (sp s)) 1 (irq_enable (sp s) OR AC_MSK) s;
          Some ((), upd_sp (\<lambda>r. r\<lparr>host_inactive := 0\<rparr>) s)
        }
        else if host_inactive (sp s) < INT_MAX - 2
        then Some ((), upd_sp (\<lambda>r. r\<lparr>host_inactive := host_inactive r + 1\<rparr>) s)
        else Some ((), s));
     Some (alt_ticks_per_second s, s)
   }"

text \<open>
  \<open>isr\<close> and \<open>callback\<close> are the addresses of the two functions, \<open>context\<close> that of the state,
  \<open>alarm\<close> that of its member.
\<close>

definition altera_avalon_jtag_uart_init ::
  "'h bus \<Rightarrow> u32 \<Rightarrow> u32 \<Rightarrow> u32 \<Rightarrow> u32 \<Rightarrow> u32 \<Rightarrow> u32 \<Rightarrow> u32 \<Rightarrow> (unit, ('h, 'x) uart_st_scheme) prog" where
  "altera_avalon_jtag_uart_init B al isr callback context alarm irq_controller_id irq s = do {
     let s = upd_sp (\<lambda>r. r\<lparr>irq_enable := RE_MSK\<rparr>) s;
     (_, s) \<leftarrow> IOWR B (sp_base (sp s)) 1 (irq_enable (sp s)) s;
     (_, s) \<leftarrow> alt_ic_isr_register irq_controller_id irq isr context s;
     let s = upd_sp (\<lambda>r. r\<lparr>host_inactive := 0\<rparr>) s;
     (rc, s) \<leftarrow> alt_alarm_start al alarm (alt_ticks_per_second s) callback context s;
     Some ((), if rc < 0 then upd_sp (\<lambda>r. r\<lparr>timeout := INT_MAX\<rparr>) s else s)
   }"

section \<open>Calls\<close>

partial_function (option) altera_avalon_jtag_uart_close ::
  "(unit, ('h, 'x) uart_st_scheme) prog \<Rightarrow> u32 \<Rightarrow> (int, ('h, 'x) uart_st_scheme) prog" where
  "altera_avalon_jtag_uart_close J flags s = do {
     (_, s) \<leftarrow> J s;
     (if tx_out (sp s) \<noteq> tx_in (sp s) \<and> host_inactive (sp s) < timeout (sp s) then
        (if flags AND O_NONBLOCK \<noteq> 0 then Some (- EWOULDBLOCK, s)
         else altera_avalon_jtag_uart_close J flags s)
      else Some (0, s))
   }"

text \<open>How many bytes lie in one piece at the front of the receive buffer.\<close>

definition rx_avail :: "altera_avalon_jtag_uart_state \<Rightarrow> u32" where
  "rx_avail r = (if rx_in r \<ge> rx_out r then rx_in r - rx_out r else BUF_LEN_w - rx_out r)"

text \<open>The inner loop of \<open>read\<close>: the pointer, the space left and the value of \<open>rx_in\<close> it saw last.\<close>

function rx_take :: "(unit, ('h, 'x) uart_st_scheme) prog \<Rightarrow> u32 \<Rightarrow> u32
    \<Rightarrow> (u32 \<times> u32 \<times> u32, ('h, 'x) uart_st_scheme) prog" where
  "rx_take J ptr space s = do {
     (_, s) \<leftarrow> J s;
     let inn = rx_in (sp s);
     let out = rx_out (sp s);
     let n = rx_avail (sp s);
     (if n = 0 then Some ((ptr, space, inn), s)
      else do {
        let n = (if n > space then space else n);
        (_, s) \<leftarrow> J s;
        xs \<leftarrow> array_slice (rx_buf (sp s)) (unat out) (unat n);
        let s = s\<lparr>bytes := write_bytes (bytes s) ptr xs\<rparr>;
        (_, s) \<leftarrow> J s;
        let s = upd_sp (\<lambda>r. r\<lparr>rx_out := (out + n) mod BUF_LEN_w\<rparr>) s;
        (if 0 < sint (space - n) then rx_take J (ptr + n) (space - n) s
         else Some ((ptr + n, space - n, inn), s))
      })
   }"
  by pat_completeness auto
termination
  by (relation "measure (\<lambda>(_, _, space, _). unat space)")
     (auto intro!: unat_sub_less simp: not_less split: if_splits)

declare rx_take.simps [simp del]

partial_function (option) rx_spin :: "(unit, ('h, 'x) uart_st_scheme) prog \<Rightarrow> u32 \<Rightarrow> (unit, ('h, 'x) uart_st_scheme) prog" where
  "rx_spin J inn s = do {
     (_, s) \<leftarrow> J s;
     (if inn = rx_in (sp s) \<and> host_inactive (sp s) < timeout (sp s) then rx_spin J inn s
      else Some ((), s))
   }"

text \<open>The outer loop; nothing has been read as long as it goes round.\<close>

partial_function (option) read_loop ::
  "(unit, ('h, 'x) uart_st_scheme) prog \<Rightarrow> u32 \<Rightarrow> u32 \<Rightarrow> u32 \<Rightarrow> (u32, ('h, 'x) uart_st_scheme) prog" where
  "read_loop J buffer space flags s =
     (if 0 < sint space then do {
        ((ptr, space, inn), s) \<leftarrow> rx_take J buffer space s;
        (if ptr \<noteq> buffer then Some (ptr, s)
         else if flags AND O_NONBLOCK \<noteq> 0 then Some (ptr, s)
         else do {
           (_, s) \<leftarrow> rx_spin J inn s;
           (_, s) \<leftarrow> J s;
           (if inn = rx_in (sp s) then Some (ptr, s) else read_loop J buffer space flags s)
         })
      } else Some (buffer, s))"

text \<open>Turning on one of the two interrupts of the device, with the processor's turned off.\<close>

definition uart_irq_on :: "'h bus \<Rightarrow> u32 \<Rightarrow> (unit, ('h, 'x) uart_st_scheme) prog" where
  "uart_irq_on B m s = do {
     (context, s) \<leftarrow> alt_irq_disable_all s;
     let s = upd_sp (\<lambda>r. r\<lparr>irq_enable := irq_enable r OR m\<rparr>) s;
     (_, s) \<leftarrow> IOWR B (sp_base (sp s)) 1 (irq_enable (sp s)) s;
     alt_irq_enable_all context s
   }"

definition altera_avalon_jtag_uart_read ::
  "'h bus \<Rightarrow> (unit, ('h, 'x) uart_st_scheme) prog \<Rightarrow> u32 \<Rightarrow> u32 \<Rightarrow> u32 \<Rightarrow> (int, ('h, 'x) uart_st_scheme) prog" where
  "altera_avalon_jtag_uart_read B J buffer space flags s = do {
     (ptr, s) \<leftarrow> read_loop J buffer space flags s;
     (_, s) \<leftarrow> J s;
     (_, s) \<leftarrow> (if ptr \<noteq> buffer then uart_irq_on B RE_MSK s else Some ((), s));
     Some (moved_result buffer ptr flags, s)
   }"

text \<open>How many bytes fit in one piece at the end of the transmit buffer.\<close>

definition tx_space :: "altera_avalon_jtag_uart_state \<Rightarrow> u32" where
  "tx_space r =
     (if tx_in r < tx_out r then tx_out r - 1 - tx_in r
      else if tx_out r > 0 then BUF_LEN_w - tx_in r
      else BUF_LEN_w - 1 - tx_in r)"

text \<open>The copy into the transmit buffer: the pointer, the count left and the value of \<open>tx_out\<close> it saw last.\<close>

function tx_fill :: "(unit, ('h, 'x) uart_st_scheme) prog \<Rightarrow> u32 \<Rightarrow> u32 \<Rightarrow> u32
    \<Rightarrow> (u32 \<times> u32 \<times> u32, ('h, 'x) uart_st_scheme) prog" where
  "tx_fill J ptr count out s =
     (if 0 < sint count then do {
        (_, s) \<leftarrow> J s;
        let inn = tx_in (sp s);
        let out = tx_out (sp s);
        let n = tx_space (sp s);
        (if n = 0 then Some ((ptr, count, out), s)
         else do {
           let n = (if n > count then count else n);
           (_, s) \<leftarrow> J s;
           b \<leftarrow> array_blit (tx_buf (sp s)) (unat inn) (read_bytes (bytes s) ptr (unat n));
           let s = upd_sp (\<lambda>r. r\<lparr>tx_buf := b\<rparr>) s;
           (_, s) \<leftarrow> J s;
           let s = upd_sp (\<lambda>r. r\<lparr>tx_in := (inn + n) mod BUF_LEN_w\<rparr>) s;
           tx_fill J (ptr + n) (count - n) out s
         })
      } else Some ((ptr, count, out), s))"
  by pat_completeness auto
termination
  by (relation "measure (\<lambda>(_, _, count, _). unat count)")
     (auto intro!: unat_sub_less simp: not_less unat_gt_0 split: if_splits)

declare tx_fill.simps [simp del]

partial_function (option) tx_spin :: "(unit, ('h, 'x) uart_st_scheme) prog \<Rightarrow> u32 \<Rightarrow> (unit, ('h, 'x) uart_st_scheme) prog" where
  "tx_spin J out s = do {
     (_, s) \<leftarrow> J s;
     (if out = tx_out (sp s) \<and> host_inactive (sp s) < timeout (sp s) then tx_spin J out s
      else Some ((), s))
   }"

partial_function (option) write_loop ::
  "'h bus \<Rightarrow> (unit, ('h, 'x) uart_st_scheme) prog \<Rightarrow> u32 \<Rightarrow> u32 \<Rightarrow> u32 \<Rightarrow> u32 \<Rightarrow> (u32, ('h, 'x) uart_st_scheme) prog" where
  "write_loop B J ptr count flags out s = do {
     ((ptr, count, out), s) \<leftarrow> tx_fill J ptr count out s;
     (_, s) \<leftarrow> J s;
     (_, s) \<leftarrow> uart_irq_on B WE_MSK s;
     (if 0 < sint count then
        (if flags AND O_NONBLOCK \<noteq> 0 then Some (ptr, s)
         else do {
           (_, s) \<leftarrow> tx_spin J out s;
           (_, s) \<leftarrow> J s;
           (if host_inactive (sp s) \<noteq> 0 then Some (ptr, s) else write_loop B J ptr count flags out s)
         })
      else Some (ptr, s))
   }"

definition altera_avalon_jtag_uart_write ::
  "'h bus \<Rightarrow> (unit, ('h, 'x) uart_st_scheme) prog \<Rightarrow> u32 \<Rightarrow> u32 \<Rightarrow> u32 \<Rightarrow> (int, ('h, 'x) uart_st_scheme) prog" where
  "altera_avalon_jtag_uart_write B J start count flags s = do {
     (ptr, s) \<leftarrow> write_loop B J start count flags 0 s;
     Some (moved_result start ptr flags, s)
   }"

text \<open>An \<open>int\<close> in memory, least significant byte first.\<close>

definition load_int :: "(u32 \<Rightarrow> u8) \<Rightarrow> u32 \<Rightarrow> u32" where
  "load_int m a = ucast (m a) OR push_bit 8 (ucast (m (a + 1))) OR push_bit 16 (ucast (m (a + 2)))
     OR push_bit 24 (ucast (m (a + 3)))"

definition store_int :: "u32 \<Rightarrow> u32 \<Rightarrow> (u32 \<Rightarrow> u8) \<Rightarrow> u32 \<Rightarrow> u8" where
  "store_int a v m = write_bytes m a [ucast v, ucast (drop_bit 8 v), ucast (drop_bit 16 v), ucast (drop_bit 24 v)]"

definition altera_avalon_jtag_uart_ioctl :: "u32 \<Rightarrow> u32 \<Rightarrow> (int, ('h, 'x) uart_st_scheme) prog" where
  "altera_avalon_jtag_uart_ioctl req arg s =
     (if req = TIOCSTIMEOUT then
        (if timeout (sp s) \<noteq> INT_MAX then
           (let t = load_int (bytes s) arg
            in Some (0, upd_sp (\<lambda>r. r\<lparr>timeout := (if 2 \<le> sint t \<and> sint t < sint INT_MAX then t else INT_MAX - 1)\<rparr>) s))
         else Some (- ENOTTY, s))
      else if req = TIOCGCONNECTED then
        (if timeout (sp s) \<noteq> INT_MAX then
           Some (0, s\<lparr>bytes := store_int arg (if host_inactive (sp s) < timeout (sp s) then 1 else 0) (bytes s)\<rparr>)
         else Some (- ENOTTY, s))
      else Some (- ENOTTY, s))"

section \<open>Devices (altera_avalon_jtag_uart_fd.c and .h)\<close>

definition altera_avalon_jtag_uart_read_fd ::
  "'h bus \<Rightarrow> (unit, ('h, 'x) uart_st_scheme) prog \<Rightarrow> nat \<Rightarrow> u32 \<Rightarrow> u32 \<Rightarrow> (int, ('h, 'x) uart_st_scheme) prog" where
  "altera_avalon_jtag_uart_read_fd B J fd buffer space s =
     altera_avalon_jtag_uart_read B J buffer space (fd_flags (alt_fd_list s fd)) s"

definition altera_avalon_jtag_uart_write_fd ::
  "'h bus \<Rightarrow> (unit, ('h, 'x) uart_st_scheme) prog \<Rightarrow> nat \<Rightarrow> u32 \<Rightarrow> u32 \<Rightarrow> (int, ('h, 'x) uart_st_scheme) prog" where
  "altera_avalon_jtag_uart_write_fd B J fd buffer space s =
     altera_avalon_jtag_uart_write B J buffer space (fd_flags (alt_fd_list s fd)) s"

definition altera_avalon_jtag_uart_close_fd ::
  "(unit, ('h, 'x) uart_st_scheme) prog \<Rightarrow> nat \<Rightarrow> (int, ('h, 'x) uart_st_scheme) prog" where
  "altera_avalon_jtag_uart_close_fd J fd s = altera_avalon_jtag_uart_close J (fd_flags (alt_fd_list s fd)) s"

definition altera_avalon_jtag_uart_ioctl_fd ::
  "nat \<Rightarrow> u32 \<Rightarrow> u32 \<Rightarrow> (int, ('h, 'x) uart_st_scheme) prog" where
  "altera_avalon_jtag_uart_ioctl_fd fd req arg s = altera_avalon_jtag_uart_ioctl req arg s"

definition uart_dev :: "'h bus \<Rightarrow> (unit, ('h, 'x) uart_st_scheme) prog \<Rightarrow> u32 \<Rightarrow> ('h, 'x) uart_st_scheme alt_dev" where
  "uart_dev B J name = \<lparr>dv_name = name, dv_open = None,
     dv_close = Some (altera_avalon_jtag_uart_close_fd J), dv_read = Some (altera_avalon_jtag_uart_read_fd B J),
     dv_write = Some (altera_avalon_jtag_uart_write_fd B J), dv_lseek = None, dv_fstat = None,
     dv_ioctl = Some altera_avalon_jtag_uart_ioctl_fd\<rparr>"

definition small_uart_dev :: "'h bus \<Rightarrow> u32 \<Rightarrow> u32 \<Rightarrow> ('h, 'x) hal_scheme alt_dev" where
  "small_uart_dev B base name = \<lparr>dv_name = name, dv_open = None, dv_close = None,
     dv_read = Some (\<lambda>fd buffer space s. small_uart_read B base buffer space (fd_flags (alt_fd_list s fd)) s),
     dv_write = Some (\<lambda>fd buffer space s. small_uart_write B base buffer space (fd_flags (alt_fd_list s fd)) s),
     dv_lseek = None, dv_fstat = None, dv_ioctl = None\<rparr>"

end
