(* ===== verification/JTAG_Props.thy ===== *)
theory JTAG_Props
  imports JTAG_UART
begin

text \<open>
  What the JTAG UART driver does to the two byte streams.  \<open>flow s acc del s'\<close> says that between
  two states the driver took the bytes \<open>acc\<close> from its caller and handed \<open>del\<close> to it, and that
  nothing was lost, doubled or reordered: what the device sent went behind what was queued for
  reading, and what the device was given came from the front of what was queued for writing.
  Interrupt handlers are flows without a caller; the calls are shown to be flows whatever
  handlers run at their interrupt points.
\<close>

section \<open>Streams\<close>

abbreviation rx_ring :: "('h, 'x) uart_st_scheme \<Rightarrow> ring" where
  "rx_ring s \<equiv> (rx_in (sp s), rx_out (sp s), rx_buf (sp s))"

abbreviation tx_ring :: "('h, 'x) uart_st_scheme \<Rightarrow> ring" where
  "tx_ring s \<equiv> (tx_in (sp s), tx_out (sp s), tx_buf (sp s))"

definition uart_ok :: "('h, 'x) uart_st_scheme \<Rightarrow> bool" where
  "uart_ok s \<longleftrightarrow> ring_ok (rx_ring s) \<and> ring_ok (tx_ring s)"

text \<open>The bytes the data register delivered, in order.\<close>

fun rx_bytes :: "u32 \<Rightarrow> io_event list \<Rightarrow> u8 list" where
  "rx_bytes base [] = []"
| "rx_bytes base (Rd a v # es) =
     (if a = base \<and> v AND RVALID_MSK \<noteq> 0 then ucast (v AND DATA_MSK) # rx_bytes base es else rx_bytes base es)"
| "rx_bytes base (Wr a v # es) = rx_bytes base es"
| "rx_bytes base (Delay u # es) = rx_bytes base es"

lemma rx_bytes_append [simp]: "rx_bytes base (es @ fs) = rx_bytes base es @ rx_bytes base fs"
  by (induction base es rule: rx_bytes.induct) simp_all

definition flow_by :: "io_event list \<Rightarrow> u8 list \<Rightarrow> ('h, 'x) uart_st_scheme \<Rightarrow> u8 list \<Rightarrow> u8 list \<Rightarrow> ('h, 'x) uart_st_scheme \<Rightarrow> bool" where
  "flow_by es snt s acc del s' \<longleftrightarrow>
     uart_ok s \<and> uart_ok s' \<and> sp_base (sp s') = sp_base (sp s) \<and> trace s' = trace s @ es \<and>
     writes_to (sp_base (sp s)) es = map scast snt \<and>
     ring_view (tx_ring s) @ acc = snt @ ring_view (tx_ring s') \<and>
     ring_view (rx_ring s) @ rx_bytes (sp_base (sp s)) es = del @ ring_view (rx_ring s')"

definition flow :: "('h, 'x) uart_st_scheme \<Rightarrow> u8 list \<Rightarrow> u8 list \<Rightarrow> ('h, 'x) uart_st_scheme \<Rightarrow> bool" where
  "flow s acc del s' \<longleftrightarrow> (\<exists>es snt. flow_by es snt s acc del s')"

lemma flow_refl: "uart_ok s \<Longrightarrow> flow s [] [] s"
  by (auto simp: flow_def flow_by_def intro!: exI [of _ "[]"])

lemma flow_trans:
  assumes "flow s a d s1" "flow s1 a' d' s2"
  shows "flow s (a @ a') (d @ d') s2"
proof -
  obtain es snt es' snt' where 1: "flow_by es snt s a d s1" and 2: "flow_by es' snt' s1 a' d' s2"
    using assms unfolding flow_def by blast
  have "ring_view (tx_ring s) @ a @ a' = (snt @ snt') @ ring_view (tx_ring s2)"
    using 1 2 by (simp add: flow_by_def) (metis append.assoc)
  moreover have "ring_view (rx_ring s) @ rx_bytes (sp_base (sp s)) (es @ es') = (d @ d') @ ring_view (rx_ring s2)"
    using 1 2 by (simp add: flow_by_def) (metis append.assoc)
  ultimately have "flow_by (es @ es') (snt @ snt') s (a @ a') (d @ d') s2"
    using 1 2 by (simp add: flow_by_def)
  then show ?thesis unfolding flow_def by blast
qed

lemma flow_ok: "flow s a d s' \<Longrightarrow> uart_ok s'"
  by (auto simp: flow_def flow_by_def)

lemma flow_base: "flow s a d s' \<Longrightarrow> sp_base (sp s') = sp_base (sp s)"
  by (auto simp: flow_def flow_by_def)

text \<open>A flow that the handlers can make: it keeps what belongs to the calls.\<close>

definition by_isr :: "('h, 'x) uart_st_scheme \<Rightarrow> ('h, 'x) uart_st_scheme \<Rightarrow> bool" where
  "by_isr s s' \<longleftrightarrow> flow s [] [] s' \<and> bytes s' = bytes s \<and> rx_out (sp s') = rx_out (sp s) \<and>
     tx_in (sp s') = tx_in (sp s) \<and> tx_buf (sp s') = tx_buf (sp s)"

lemma by_isr_refl: "uart_ok s \<Longrightarrow> by_isr s s"
  by (simp add: by_isr_def flow_refl)

lemma by_isr_trans: "by_isr s s1 \<Longrightarrow> by_isr s1 s2 \<Longrightarrow> by_isr s s2"
  unfolding by_isr_def using flow_trans [of s "[]" "[]" s1 "[]" "[]" s2] by auto

lemma by_isr_ok: "by_isr s s' \<Longrightarrow> uart_ok s'"
  unfolding by_isr_def using flow_ok by blast

lemma by_isr_base: "by_isr s s' \<Longrightarrow> sp_base (sp s') = sp_base (sp s)"
  unfolding by_isr_def using flow_base by blast

text \<open>An access to a register other than the data register, and changes of other members.\<close>

lemma by_isr_step:
  assumes "uart_ok s" "trace s' = trace s @ es" "writes_to (sp_base (sp s)) es = []" "rx_bytes (sp_base (sp s)) es = []"
    "rx_ring s' = rx_ring s" "tx_ring s' = tx_ring s" "sp_base (sp s') = sp_base (sp s)" "bytes s' = bytes s"
  shows "by_isr s s'"
proof -
  have "flow_by es [] s [] [] s'" using assms by (simp add: flow_by_def uart_ok_def)
  with assms show ?thesis unfolding by_isr_def flow_def by auto
qed

section \<open>The handler\<close>

lemma upd_sp_sel [simp]:
  "sp (upd_sp f s) = f (sp s)" "hw (upd_sp f s) = hw s" "trace (upd_sp f s) = trace s"
  "bytes (upd_sp f s) = bytes s" "cpu_status (upd_sp f s) = cpu_status s"
  "alt_fd_list (upd_sp f s) = alt_fd_list s" "tick_rate (upd_sp f s) = tick_rate s"
  by (simp_all add: upd_sp_def)

lemma ring_okD: "ring_ok (i, j, b) \<Longrightarrow> unat i < length b \<and> unat j < length b \<and> length b = 2048"
  by (simp add: ring_ok_def word_less_nat_alt)

text \<open>One byte from the device.\<close>

lemma rx_byte:
  assumes ok: "uart_ok s" and room: "(rx_in (sp s) + 1) mod 2048 \<noteq> rx_out (sp s)"
    and b: "array_set (rx_buf (sp s)) (unat (rx_in (sp s))) (ucast (v AND DATA_MSK)) = Some b"
    and v: "v AND RVALID_MSK \<noteq> 0" and t: "trace s1 = trace s @ [Rd (sp_base (sp s)) v]"
    and s1: "sp s1 = sp s" "bytes s1 = bytes s"
  shows "by_isr s (upd_sp (\<lambda>r. r\<lparr>rx_buf := b, rx_in := (rx_in r + 1) mod 2048\<rparr>) s1)" (is "by_isr s ?s")
proof -
  have r: "ring_ok (rx_ring s)" using ok by (simp add: uart_ok_def)
  have b': "b = (rx_buf (sp s))[unat (rx_in (sp s)) := ucast (v AND DATA_MSK)]"
    using b by (simp add: array_set_def split: if_splits)
  have p: "rx_ring ?s = ring_put (ucast (v AND DATA_MSK)) (rx_ring s)"
    by (simp add: ring_put_def s1 b')
  have "ring_len (rx_ring s) \<noteq> 2047" using room ring_full_iff [OF r] by simp
  then have l: "length (ring_view (rx_ring s)) < 2047" using ring_len_less [OF r] by simp
  have "ring_ok (rx_ring ?s)" "ring_view (rx_ring ?s) = ring_view (rx_ring s) @ [ucast (v AND DATA_MSK)]"
    unfolding p by (rule ring.put_ok [OF r l], rule ring.put_view [OF r l])
  then have "flow_by [Rd (sp_base (sp s)) v] [] s [] [] ?s"
    using ok v t s1 by (simp add: flow_by_def uart_ok_def)
  then show ?thesis using s1 unfolding by_isr_def flow_def by auto
qed

lemma by_isr_rd_wr:
  assumes "by_isr s0 s"
  shows "a \<noteq> sp_base (sp s0) \<Longrightarrow> by_isr s0 (s\<lparr>hw := h, trace := trace s @ [Rd a v]\<rparr>)"
    "v AND RVALID_MSK = 0 \<Longrightarrow> by_isr s0 (s\<lparr>hw := h, trace := trace s @ [Rd a v]\<rparr>)"
    "a \<noteq> sp_base (sp s0) \<Longrightarrow> by_isr s0 (s\<lparr>hw := h, trace := trace s @ [Wr a v]\<rparr>)"
    "by_isr s0 (upd_sp (irq_enable_update f) s)" "by_isr s0 (upd_sp (host_inactive_update g) s)"
proof -
  have s: "uart_ok s" "sp_base (sp s0) = sp_base (sp s)" using by_isr_ok [OF assms] by_isr_base [OF assms] by simp_all
  note step = by_isr_trans [OF assms by_isr_step [OF s(1), where es = "[Rd a v]"]]
    by_isr_trans [OF assms by_isr_step [OF s(1), where es = "[Wr a v]"]]
    by_isr_trans [OF assms by_isr_step [OF s(1), where es = "[]"]]
  show "a \<noteq> sp_base (sp s0) \<Longrightarrow> by_isr s0 (s\<lparr>hw := h, trace := trace s @ [Rd a v]\<rparr>)"
    "v AND RVALID_MSK = 0 \<Longrightarrow> by_isr s0 (s\<lparr>hw := h, trace := trace s @ [Rd a v]\<rparr>)"
    "a \<noteq> sp_base (sp s0) \<Longrightarrow> by_isr s0 (s\<lparr>hw := h, trace := trace s @ [Wr a v]\<rparr>)"
    by (rule step(1) step(2), simp; use s in simp)+
  show "by_isr s0 (upd_sp (irq_enable_update f) s)" "by_isr s0 (upd_sp (host_inactive_update g) s)"
    by (rule step(3); simp)+
qed

lemma by_isr_quiet:
  "by_isr s0 s \<Longrightarrow> trace s' = trace s @ es \<Longrightarrow> writes_to (sp_base (sp s0)) es = [] \<Longrightarrow> rx_bytes (sp_base (sp s0)) es = [] \<Longrightarrow>
     rx_ring s' = rx_ring s \<Longrightarrow> tx_ring s' = tx_ring s \<Longrightarrow> sp_base (sp s') = sp_base (sp s) \<Longrightarrow> bytes s' = bytes s \<Longrightarrow> by_isr s0 s'"
  by (rule by_isr_trans, assumption, rule by_isr_step [where es = es]) (auto dest: by_isr_ok by_isr_base)

lemma rx_drain_flow:
  fixes s0 :: "('h, 'x) uart_st_scheme"
  shows "by_isr s0 s \<Longrightarrow> base = sp_base (sp s0) \<Longrightarrow> wlp (rx_drain B base data s) (\<lambda>_. by_isr s0)"
proof (rule wlp_runI)
  fix r assume s: "by_isr s0 s" and base: "base = sp_base (sp s0)" and run: "rx_drain B base data s = Some r"
  have "B = B \<longrightarrow> base = base \<longrightarrow> by_isr s0 s \<longrightarrow> by_isr s0 (snd r)"
  proof (rule rx_drain.raw_induct [where P = "\<lambda>B' base' data s r. B' = B \<longrightarrow> base' = base \<longrightarrow> by_isr s0 s \<longrightarrow> by_isr s0 (snd r)", OF _ run], goal_cases)
    case (1 f B' base' data' s r)
    show ?case
    proof (intro impI)
      assume eq: "B' = B" "base' = base" and s: "by_isr s0 s"
      have f: "wlp (f B base d s) (\<lambda>_. by_isr s0)" if "by_isr s0 s" for d s
        using that 1(1) [of B base d s] by (intro wlp_runI) auto
      have step: "wlp (do {
           b \<leftarrow> array_set (rx_buf (sp s)) (unat (rx_in (sp s))) (ucast (v AND DATA_MSK));
           f B base v (upd_sp (\<lambda>r. r\<lparr>rx_buf := b, rx_in := (rx_in r + 1) mod 2048\<rparr>) (s\<lparr>hw := h, trace := trace s @ [Rd base v]\<rparr>)) })
         (\<lambda>_. by_isr s0)" if "v AND RVALID_MSK \<noteq> 0" "(rx_in (sp s) + 1) mod 2048 \<noteq> rx_out (sp s)" for v h
      proof (cases "array_set (rx_buf (sp s)) (unat (rx_in (sp s))) (ucast (v AND DATA_MSK))")
        case (Some b)
        have "by_isr s (upd_sp (\<lambda>r. r\<lparr>rx_buf := b, rx_in := (rx_in r + 1) mod 2048\<rparr>) (s\<lparr>hw := h, trace := trace s @ [Rd base v]\<rparr>))"
          by (rule rx_byte [OF by_isr_ok [OF s] that(2) Some that(1)]) (simp_all add: base by_isr_base [OF s])
        from f [OF by_isr_trans [OF s this]] Some show ?thesis by simp
      qed simp
      show "by_isr s0 (snd r)"
        by (rule wlp_runD [OF 1(2), where Q = "\<lambda>_. by_isr s0"])
           (use eq s step in \<open>auto intro: by_isr_rd_wr\<close>)
    qed
  qed
  with s show "by_isr s0 (snd r)" by simp
qed

text \<open>Bytes to the device.\<close>

lemma tx_byte:
  assumes ok: "uart_ok s" and more: "tx_out (sp s) \<noteq> tx_in (sp s)" and c: "array_get (tx_buf (sp s)) (unat (tx_out (sp s))) = Some c"
    and t: "trace s1 = trace s @ [Wr (sp_base (sp s)) (scast c)]" and s1: "sp s1 = sp s" "bytes s1 = bytes s"
  shows "by_isr s (upd_sp (\<lambda>r. r\<lparr>tx_out := (tx_out r + 1) mod 2048\<rparr>) s1)" (is "by_isr s ?s")
proof -
  have r: "ring_ok (tx_ring s)" using ok by (simp add: uart_ok_def)
  have p: "tx_ring ?s = ring_get (tx_ring s)" by (simp add: ring_get_def s1)
  have "ring_len (tx_ring s) \<noteq> 0" using more ring_empty_iff [OF r] by simp
  then have l: "ring_view (tx_ring s) \<noteq> []" by (auto simp flip: length_ring_view)
  have hd: "ring_view (tx_ring s) = c # tl (ring_view (tx_ring s))"
  proof -
    have "ring_view (tx_ring s) ! 0 = c"
      using c r \<open>ring_len (tx_ring s) \<noteq> 0\<close> ring_okD [OF r]
      by (simp add: ring_view_def array_get_def)
    with l show ?thesis by (cases "ring_view (tx_ring s)") auto
  qed
  have "ring_ok (tx_ring ?s)" "ring_view (tx_ring ?s) = tl (ring_view (tx_ring s))"
    unfolding p by (rule ring.get_ok [OF r l], rule ring.get_view [OF r l])
  then have "flow_by [Wr (sp_base (sp s)) (scast c)] [c] s [] [] ?s"
    using ok t s1 hd by (simp add: flow_by_def uart_ok_def)
  then show ?thesis using s1 unfolding by_isr_def flow_def by auto
qed

lemma tx_drain_flow:
  fixes s0 :: "('h, 'x) uart_st_scheme"
  assumes base: "base = sp_base (sp s0)"
  shows "by_isr s0 s \<Longrightarrow> wp (tx_drain B base space s) (\<lambda>_. by_isr s0)"
proof (induction space arbitrary: s rule: measure_induct_rule [of unat])
  case (less space)
  note s = less.prems
  show ?case
  proof (cases "space > 0 \<and> tx_out (sp s) \<noteq> tx_in (sp s)")
    case True
    have "ring_ok (tx_ring s)" using by_isr_ok [OF s] by (simp add: uart_ok_def)
    from ring_okD [OF this] obtain c where c: "array_get (tx_buf (sp s)) (unat (tx_out (sp s))) = Some c"
      by (simp add: array_get_def)
    have "by_isr s (upd_sp (\<lambda>r. r\<lparr>tx_out := (tx_out r + 1) mod 2048\<rparr>)
        (s\<lparr>hw := h, trace := trace s @ [Wr base (scast c)]\<rparr>))" for h
      by (rule tx_byte [OF by_isr_ok [OF s] _ c]) (use True base by_isr_base [OF s] in simp_all)
    moreover have "unat (space - 1) < unat space" using True by (auto intro: unat_minus_one_less)
    ultimately show ?thesis
      using True c by (subst tx_drain.simps) (auto intro!: less.IH by_isr_trans [OF s])
  next
    case False
    with s show ?thesis by (subst tx_drain.simps) auto
  qed
qed

lemma by_isr_ctl:
  "by_isr s0 s \<Longrightarrow> b = sp_base (sp s0) \<Longrightarrow> c = sp_base (sp s0) \<Longrightarrow>
     by_isr s0 ((upd_sp (\<lambda>r. r\<lparr>irq_enable := g r\<rparr>) s)\<lparr>hw := h, trace := trace s @ [Wr (b + 4) x, Rd (c + 4) y]\<rparr>)"
  by (rule by_isr_quiet [where s = s]) simp+

lemma isr_rx_flow: "by_isr s0 s \<Longrightarrow> wlp (isr_rx B (sp_base (sp s0)) s) (\<lambda>_. by_isr s0)"
  by (auto simp: isr_rx_def Let_def intro!: wlp_mono [OF rx_drain_flow] by_isr_ctl)

lemma isr_tx_flow: "by_isr s0 s \<Longrightarrow> wp (isr_tx B (sp_base (sp s0)) control s) (\<lambda>_. by_isr s0)"
  by (auto simp: isr_tx_def Let_def by_isr_base intro!: wp_mono [OF tx_drain_flow] by_isr_ctl)

lemma isr_loop_flow:
  fixes s0 :: "('h, 'x) uart_st_scheme"
  assumes base: "base = sp_base (sp s0)"
  shows "by_isr s0 s \<Longrightarrow> wlp (isr_loop B base s) (\<lambda>_. by_isr s0)"
proof (rule wlp_runI)
  fix r assume s: "by_isr s0 s" and run: "isr_loop B base s = Some r"
  have "B = B \<longrightarrow> base = base \<longrightarrow> by_isr s0 s \<longrightarrow> by_isr s0 (snd r)"
  proof (rule isr_loop.raw_induct [where P = "\<lambda>B' base' s r. B' = B \<longrightarrow> base' = base \<longrightarrow> by_isr s0 s \<longrightarrow> by_isr s0 (snd r)", OF _ run], goal_cases)
    case (1 f B' base' s r)
    show ?case
    proof (intro impI)
      assume eq: "B' = B" "base' = base" and s: "by_isr s0 s"
      have f: "wlp (f B base s) (\<lambda>_. by_isr s0)" if "by_isr s0 s" for s
        using that 1(1) [of B base s] by (intro wlp_runI) auto
      have rd: "by_isr s0 (s\<lparr>hw := h, trace := trace s @ [Rd (base + 4) v]\<rparr>)" for h v
        by (rule by_isr_rd_wr(1) [OF s]) (simp add: base)
      show "by_isr s0 (snd r)"
        by (rule wlp_runD [OF 1(2) [unfolded eq], where Q = "\<lambda>_. by_isr s0"])
           (use rd f in \<open>auto intro!: wlp_mono [OF isr_rx_flow [of s0, folded base]] wlp_mono [OF wp_wlp [OF isr_tx_flow [of s0, folded base]]]\<close>)
    qed
  qed
  with s show "by_isr s0 (snd r)" by simp
qed

lemma irq_flow: "uart_ok s \<Longrightarrow> wlp (altera_avalon_jtag_uart_irq B s) (\<lambda>_. by_isr s)"
  by (auto simp: altera_avalon_jtag_uart_irq_def intro!: isr_loop_flow by_isr_refl)

lemma timeout_flow: "uart_ok s \<Longrightarrow> wp (altera_avalon_jtag_uart_timeout B s) (\<lambda>_. by_isr s)"
  by (auto simp: altera_avalon_jtag_uart_timeout_def intro!: by_isr_quiet [OF by_isr_refl])

end
