(* ===== verification/JTAG_Calls.thy ===== *)
theory JTAG_Calls
  imports JTAG_Props
begin

text \<open>
  The calls of the JTAG UART driver over any interrupts that keep the contract of the handlers:
  the locale \<open>uart_interrupts\<close> states the contract, its lemmas are about the calls, and the
  driver's own handlers are an instance of it.
\<close>

section \<open>Data moved out of the receive buffer\<close>

lemma ring_front:
  "ring_len (i, j, b) \<le> ring_len (i', j, b) \<Longrightarrow> ring_view (i, j, b) = take (ring_len (i, j, b)) (ring_view (i', j, b))"
  by (auto simp: ring_view_def take_map)

lemma rx_avail_unat:
  assumes "ring_ok (rx_in r, rx_out r, rx_buf r)"
  shows "unat (rx_avail r) = (if unat (rx_out r) \<le> unat (rx_in r) then unat (rx_in r) - unat (rx_out r) else 2048 - unat (rx_out r))"
  using assms by (auto simp: rx_avail_def ring_ok_def word_le_nat_alt word_less_nat_alt unat_sub)

lemma rx_avail_bounds:
  assumes "ring_ok (rx_in r, rx_out r, rx_buf r)"
  shows "unat (rx_out r) + unat (rx_avail r) \<le> 2048" "unat (rx_avail r) \<le> ring_len (rx_in r, rx_out r, rx_buf r)"
    "rx_avail r = 0 \<longleftrightarrow> rx_in r = rx_out r"
proof -
  have "unat (rx_in r) < 2048" "unat (rx_out r) < 2048" using assms by (simp_all add: ring_ok_def word_less_nat_alt)
  then show "unat (rx_out r) + unat (rx_avail r) \<le> 2048" "unat (rx_avail r) \<le> ring_len (rx_in r, rx_out r, rx_buf r)"
    unfolding rx_avail_unat [OF assms] ring_len_def by (auto intro: diff_le_mono)
  have "rx_avail r = 0 \<longleftrightarrow> unat (rx_avail r) = 0" by (simp add: unat_eq_zero)
  then show "rx_avail r = 0 \<longleftrightarrow> rx_in r = rx_out r"
    using \<open>unat (rx_out r) < 2048\<close> unfolding rx_avail_unat [OF assms] by (auto simp: word_unat_eq_iff)
qed

text \<open>A step of \<open>read\<close>: \<open>n\<close> bytes leave from the front of the queue.\<close>

lemma read_step:
  assumes "uart_ok s" and n: "unat n \<le> ring_len (rx_ring s)" "unat (rx_out (sp s)) + unat n \<le> 2048"
    and xs: "xs = take (unat n) (ring_view (rx_ring s))"
  shows "flow s [] xs (upd_sp (\<lambda>r. r\<lparr>rx_out := (rx_out (sp s) + n) mod 2048\<rparr>) s)" (is "flow s _ _ ?s")
proof -
  have r: "ring_ok (rx_ring s)" using assms(1) by (simp add: uart_ok_def)
  have "(ring_get ^^ unat n) (rx_ring s) = (rx_in (sp s), (rx_out (sp s) + of_nat (unat n)) mod 2048, rx_buf (sp s))"
    by (rule ring_get_run [OF r]) (use n in linarith)
  then have e: "rx_ring ?s = (ring_get ^^ unat n) (rx_ring s)" by simp
  have "ring_ok (rx_ring ?s) \<and> ring_view (rx_ring ?s) = drop (unat n) (ring_view (rx_ring s))"
    unfolding e by (rule ring.get_many [OF r]) (use n in simp)
  then have "flow_by [] [] s [] xs ?s"
    using assms(1) by (simp add: flow_by_def uart_ok_def xs)
  then show ?thesis unfolding flow_def by blast
qed

text \<open>A \<open>read\<close> on its way: what it has handed out is in the buffer and has left the queue.\<close>

definition got :: "('h, 'x) uart_st_scheme \<Rightarrow> u32 \<Rightarrow> u8 list \<Rightarrow> ('h, 'x) uart_st_scheme \<Rightarrow> bool" where
  "got s0 buffer d s \<longleftrightarrow> flow s0 [] d s \<and> bytes s = write_bytes (bytes s0) buffer d"

lemma got_isr: "got s0 buffer d s \<Longrightarrow> by_isr s s' \<Longrightarrow> got s0 buffer d s'"
  unfolding got_def by_isr_def using flow_trans [of s0 "[]" d s "[]" "[]" s'] by auto

lemma got_ok: "got s0 buffer d s \<Longrightarrow> uart_ok s"
  unfolding got_def using flow_ok by blast

text \<open>Between the moment the two indices are read and the copy, the queue only grows.\<close>

lemma by_isr_front:
  assumes "by_isr s s'" "n \<le> ring_len (rx_ring s)"
  shows "n \<le> ring_len (rx_ring s')" "take n (ring_view (rx_ring s')) = take n (ring_view (rx_ring s))"
proof -
  have "\<exists>new. ring_view (rx_ring s') = ring_view (rx_ring s) @ new"
    using assms(1) by (auto simp: by_isr_def flow_def flow_by_def dest: sym)
  then obtain new where new: "ring_view (rx_ring s') = ring_view (rx_ring s) @ new" ..
  then have "ring_len (rx_ring s') = ring_len (rx_ring s) + length new"
    by (metis new length_append length_ring_view)
  with assms(2) show "n \<le> ring_len (rx_ring s')" by simp
  from new assms(2) show "take n (ring_view (rx_ring s')) = take n (ring_view (rx_ring s))" by simp
qed

lemma got_step:
  assumes g: "got s0 buffer d s" and n: "unat n \<le> ring_len (rx_ring s)" "unat (rx_out (sp s)) + unat n \<le> 2048"
    and i: "by_isr (s\<lparr>bytes := write_bytes (bytes s) (buffer + of_nat (length d)) xs\<rparr>) s'"
    and xs: "xs = take (unat n) (ring_view (rx_ring s))"
  shows "got s0 buffer (d @ xs) (upd_sp (\<lambda>r. r\<lparr>rx_out := (rx_out (sp s) + n) mod 2048\<rparr>) s')" (is "got _ _ _ ?s")
proof -
  let ?m = "s\<lparr>bytes := write_bytes (bytes s) (buffer + of_nat (length d)) xs\<rparr>"
  have out: "rx_out (sp s') = rx_out (sp s)" using i by (simp add: by_isr_def)
  have n': "unat n \<le> ring_len (rx_ring s')" "xs = take (unat n) (ring_view (rx_ring s'))"
    using by_isr_front [OF i, of "unat n"] n xs by simp_all
  have m: "flow s0 [] d ?m"
    using g unfolding got_def flow_def flow_by_def uart_ok_def by simp
  have "flow s0 ([] @ []) (d @ []) s'"
    by (rule flow_trans [OF m]) (use i in \<open>simp add: by_isr_def\<close>)
  moreover have "flow s' [] xs ?s"
    using read_step [OF by_isr_ok [OF i] n'(1) _ n'(2)] out n(2) by simp
  ultimately have "flow s0 [] (d @ xs) ?s"
    using flow_trans [of s0 "[]" d s' "[]" xs ?s] by simp
  moreover have "bytes ?s = write_bytes (bytes s0) buffer (d @ xs)"
    using g i by (simp add: got_def by_isr_def write_bytes_append)
  ultimately show ?thesis by (simp add: got_def)
qed

definition took :: "('h, 'x) uart_st_scheme \<Rightarrow> u32 \<Rightarrow> u32 \<Rightarrow> u32 \<Rightarrow> ('h, 'x) uart_st_scheme \<Rightarrow> bool" where
  "took s0 buffer space p s \<longleftrightarrow> (\<exists>d. got s0 buffer d s \<and> p = buffer + of_nat (length d) \<and>
     length d \<le> (if 0 < sint space then unat space else 0))"

lemma took_none: "got s0 buffer [] s \<Longrightarrow> took s0 buffer space buffer s"
  by (auto simp: took_def)

lemma of_nat_length_0:
  "(of_nat (length d) :: u32) = 0 \<Longrightarrow> length d + unat k = unat (space :: u32) \<Longrightarrow> d = [] \<and> k = space"
proof -
  assume d: "(of_nat (length d) :: u32) = 0" "length d + unat k = unat space"
  moreover have "unat space < 2 ^ LENGTH(32)" by (rule unsigned_less)
  ultimately have "length d < 2 ^ 32" by simp
  then have "unat (of_nat (length d) :: u32) = length d" by (simp add: unsigned_of_nat take_bit_nat_eq_self)
  with d show ?thesis by (simp add: word_unat_eq_iff)
qed

section \<open>Data moved into the transmit buffer\<close>

lemma ring_view_blit:
  assumes r: "ring_ok (i, j, b)" and n: "unat i + length xs \<le> 2048" "ring_len (i, j, b) + length xs \<le> 2047"
  shows "ring_view (i, j, take (unat i) b @ xs @ drop (unat i + length xs) b) = ring_view (i, j, b)"
    (is "ring_view (i, j, ?b) = _")
proof -
  let ?i = "(i + of_nat (length xs)) mod 2048"
  have f: "fold ring_put xs (i, j, b) = (?i, j, ?b)" by (rule ring_put_run [OF r]) (use n in simp)
  have v: "ring_view (?i, j, ?b) = ring_view (i, j, b) @ xs"
    unfolding f [symmetric] using ring.put_many [OF r, of xs] n(2) by simp
  have l: "ring_len (i, j, ?b) = ring_len (i, j, b)" by (simp add: ring_len_def)
  have "ring_len (?i, j, ?b) = ring_len (i, j, b) + length xs" by (metis v length_append length_ring_view)
  then have "ring_view (i, j, ?b) = take (ring_len (i, j, ?b)) (ring_view (?i, j, ?b))" by (intro ring_front) (simp add: l)
  then show ?thesis by (simp add: v l)
qed

lemma tx_space_bounds:
  assumes "ring_ok (tx_in r, tx_out r, tx_buf r)"
  shows "unat (tx_in r) + unat (tx_space r) \<le> 2048" "ring_len (tx_in r, tx_out r, tx_buf r) + unat (tx_space r) \<le> 2047"
    "tx_space r = 0 \<Longrightarrow> ring_len (tx_in r, tx_out r, tx_buf r) = 2047"
proof -
  have b: "unat (tx_in r) < 2048" "unat (tx_out r) < 2048" using assms by (simp_all add: ring_ok_def word_less_nat_alt)
  have e: "unat (tx_space r) = (if unat (tx_in r) < unat (tx_out r) then unat (tx_out r) - 1 - unat (tx_in r)
      else if unat (tx_out r) > 0 then 2048 - unat (tx_in r) else 2047 - unat (tx_in r))"
    using b by (auto simp: tx_space_def word_less_nat_alt word_le_nat_alt unat_sub_if' unat_minus_one unat_gt_0)
  show "unat (tx_in r) + unat (tx_space r) \<le> 2048" "ring_len (tx_in r, tx_out r, tx_buf r) + unat (tx_space r) \<le> 2047"
    unfolding e ring_len_def using b by (auto split: if_splits)
  assume "tx_space r = 0"
  then have "unat (tx_space r) = 0" by simp
  then show "ring_len (tx_in r, tx_out r, tx_buf r) = 2047"
    unfolding e ring_len_def using b by (auto split: if_splits)
qed

text \<open>A \<open>write\<close> on its way: the bytes taken are those of the caller's buffer.\<close>

definition queued :: "('h, 'x) uart_st_scheme \<Rightarrow> u32 \<Rightarrow> u8 list \<Rightarrow> ('h, 'x) uart_st_scheme \<Rightarrow> bool" where
  "queued s0 start a s \<longleftrightarrow> flow s0 a [] s \<and> bytes s = bytes s0 \<and> a = read_bytes (bytes s0) start (length a)"

lemma queued_isr: "queued s0 start a s \<Longrightarrow> by_isr s s' \<Longrightarrow> queued s0 start a s'"
  unfolding queued_def by_isr_def using flow_trans [of s0 a "[]" s "[]" "[]" s'] by auto

lemma queued_ok: "queued s0 start a s \<Longrightarrow> uart_ok s"
  unfolding queued_def using flow_ok by blast

lemma by_isr_tx_len: "by_isr s s' \<Longrightarrow> ring_len (tx_ring s') \<le> ring_len (tx_ring s)"
proof -
  assume "by_isr s s'"
  then obtain snt where "ring_view (tx_ring s) = snt @ ring_view (tx_ring s')"
    by (auto simp: by_isr_def flow_def flow_by_def)
  from arg_cong [OF this, of length] show ?thesis by simp
qed

lemma queued_step:
  assumes q: "queued s0 start a s" and n: "unat (tx_in (sp s)) + unat n \<le> 2048" "ring_len (tx_ring s) + unat n \<le> 2047"
    and xs: "xs = read_bytes (bytes s) (start + of_nat (length a)) (unat n)"
    and i: "by_isr (upd_sp (\<lambda>r. r\<lparr>tx_buf := take (unat (tx_in (sp s))) (tx_buf (sp s)) @ xs @
        drop (unat (tx_in (sp s)) + unat n) (tx_buf (sp s))\<rparr>) s) s'" (is "by_isr ?m _")
  shows "queued s0 start (a @ xs) (upd_sp (\<lambda>r. r\<lparr>tx_in := (tx_in (sp s) + n) mod 2048\<rparr>) s')" (is "queued _ _ _ ?s")
proof -
  have l: "length xs = unat n" by (simp add: xs)
  have r: "ring_ok (tx_ring s)" using queued_ok [OF q] by (simp add: uart_ok_def)
  let ?b = "take (unat (tx_in (sp s))) (tx_buf (sp s)) @ xs @ drop (unat (tx_in (sp s)) + length xs) (tx_buf (sp s))"
  have v: "ring_view (tx_ring ?m) = ring_view (tx_ring s)"
    using ring_view_blit [OF r, of xs] n by (simp add: l)
  have okm: "ring_ok (tx_ring ?m)" using r n ring_okD [OF r] by (simp add: ring_ok_def l)
  have m: "flow s0 a [] ?m"
    using q v okm unfolding queued_def flow_def flow_by_def uart_ok_def by simp
  have s': "tx_in (sp s') = tx_in (sp s)" "tx_buf (sp s') = ?b" using i by (simp_all add: by_isr_def l)
  have ok': "ring_ok (tx_ring s')" "uart_ok s'" using by_isr_ok [OF i] by (simp_all add: uart_ok_def)
  have r': "ring_ok (tx_in (sp s), tx_out (sp s'), tx_buf (sp s))" using r ok' by (simp add: ring_ok_def)
  have len: "ring_len (tx_in (sp s), tx_out (sp s'), tx_buf (sp s)) + length xs \<le> 2047"
    using by_isr_tx_len [OF i] n(2) s'(1) by (simp add: l ring_len_def)
  have "fold ring_put xs (tx_in (sp s), tx_out (sp s'), tx_buf (sp s)) = tx_ring ?s"
    using ring_put_run [OF r', of xs] n(1) s' by (simp add: l)
  then have w: "ring_ok (tx_ring ?s)" "ring_view (tx_ring ?s) = ring_view (tx_in (sp s), tx_out (sp s'), tx_buf (sp s)) @ xs"
    using ring.put_many [OF r', of xs] len by auto
  have "ring_view (tx_in (sp s), tx_out (sp s'), tx_buf (sp s)) = ring_view (tx_ring s')"
    using ring_view_blit [OF r', of xs] len n(1) s' by (simp add: l)
  with w have "flow_by [] [] s' xs [] ?s" using ok' by (simp add: flow_by_def uart_ok_def)
  then have "flow s' xs [] ?s" unfolding flow_def by blast
  moreover have "flow s0 (a @ []) ([] @ []) s'"
    by (rule flow_trans [OF m]) (use i in \<open>simp add: by_isr_def\<close>)
  ultimately have "flow s0 (a @ xs) [] ?s" using flow_trans [of s0 a "[]" s' xs "[]" ?s] by simp
  moreover have "a @ xs = read_bytes (bytes s0) start (length (a @ xs))"
    using q by (simp add: queued_def xs read_bytes_append)
  ultimately show ?thesis using q i by (simp add: queued_def by_isr_def)
qed

lemma irq_on_flow: "uart_ok s \<Longrightarrow> wp (uart_irq_on B m s) (\<lambda>_. by_isr s)"
proof -
  assume ok: "uart_ok s"
  have "by_isr s (upd_sp (\<lambda>r. r\<lparr>irq_enable := g r\<rparr>) (s\<lparr>cpu_status := c\<rparr>)\<lparr>hw := h,
      trace := trace s @ [Wr (sp_base (sp s) + 4) x], cpu_status := c'\<rparr>)" for g c h x c'
    by (rule by_isr_quiet [OF by_isr_refl [OF ok]]) simp+
  then show ?thesis by (simp add: uart_irq_on_def prog_defs Let_def)
qed

definition wrote :: "('h, 'x) uart_st_scheme \<Rightarrow> u32 \<Rightarrow> nat \<Rightarrow> u32 \<Rightarrow> ('h, 'x) uart_st_scheme \<Rightarrow> bool" where
  "wrote s0 start n p s \<longleftrightarrow> (\<exists>a. queued s0 start a s \<and> p = start + of_nat (length a) \<and> length a \<le> n)"

lemma moved_result_length:
  "length d < 2 ^ 31 \<Longrightarrow> moved_result b (b + of_nat (length d)) flags =
     (if d \<noteq> [] then int (length d) else if flags AND O_NONBLOCK \<noteq> 0 then - EWOULDBLOCK else - EIO)"
proof -
  assume l: "length d < 2 ^ 31"
  then have "unat (of_nat (length d) :: u32) = length d" by (simp add: unsigned_of_nat take_bit_nat_eq_self)
  then have u: "uint (of_nat (length d) :: u32) = int (length d)" by (simp only: uint_int_unat)
  with l have "sint (of_nat (length d) :: u32) = int (length d)" by (subst sint_u32_small) simp_all
  moreover have "(of_nat (length d) :: u32) = 0 \<longleftrightarrow> d = []" using u by auto
  ultimately show ?thesis by (simp add: moved_result_def)
qed

text \<open>What a finished \<open>read\<close> and a finished \<open>write\<close> have done, and what they say of it.\<close>

definition gave :: "('h, 'x) uart_st_scheme \<Rightarrow> u32 \<Rightarrow> u32 \<Rightarrow> u32 \<Rightarrow> int \<Rightarrow> ('h, 'x) uart_st_scheme \<Rightarrow> bool" where
  "gave s0 buffer space flags r s \<longleftrightarrow> (\<exists>d. flow s0 [] d s \<and> bytes s = write_bytes (bytes s0) buffer d \<and>
     int (length d) \<le> max 0 (sint space) \<and>
     r = (if d \<noteq> [] then int (length d) else if flags AND O_NONBLOCK \<noteq> 0 then - EWOULDBLOCK else - EIO))"

definition accepted :: "('h, 'x) uart_st_scheme \<Rightarrow> u32 \<Rightarrow> u32 \<Rightarrow> u32 \<Rightarrow> int \<Rightarrow> ('h, 'x) uart_st_scheme \<Rightarrow> bool" where
  "accepted s0 start count flags r s \<longleftrightarrow> (\<exists>n. flow s0 (read_bytes (bytes s0) start n) [] s \<and> bytes s = bytes s0 \<and>
     int n \<le> sint count \<and>
     r = (if n \<noteq> 0 then int n else if flags AND O_NONBLOCK \<noteq> 0 then - EWOULDBLOCK else - EIO))"

lemma took_gave:
  assumes "got s0 buffer d s" "p = buffer + of_nat (length d)" "length d \<le> (if 0 < sint space then unat space else 0)"
  shows "gave s0 buffer space flags (moved_result buffer p flags) s"
proof -
  have "length d < 2 ^ 31" "int (length d) \<le> max 0 (sint space)"
    using assms(3) sint_nonneg [of space] int_le_uint [of "length d" space] by (auto split: if_splits)
  then show ?thesis
    using assms(1,2) moved_result_length [of d buffer flags] by (auto simp: gave_def got_def intro!: exI [of _ d])
qed

lemma wrote_accepted:
  assumes "0 \<le> sint count" "wrote s0 start (unat count) p s"
  shows "accepted s0 start count flags (moved_result start p flags) s"
proof -
  obtain a where a: "queued s0 start a s" "p = start + of_nat (length a)" "length a \<le> unat count"
    using assms(2) unfolding wrote_def by blast
  then have "length a < 2 ^ 31" "int (length a) \<le> sint count"
    using sint_nonneg [OF assms(1)] int_le_uint [of "length a" count] by auto
  then show ?thesis
    using a(1,2) moved_result_length [of a start flags] unfolding accepted_def queued_def by (intro exI [of _ "length a"]) auto
qed

section \<open>The contract of the handlers\<close>

locale uart_interrupts =
  fixes tot :: bool and J :: "(unit, ('h, 'x) uart_st_scheme) prog"
  assumes isr: "uart_ok s \<Longrightarrow> ends tot (J s) (\<lambda>_. by_isr s)"
begin

lemma J_got: "got s0 buffer d s \<Longrightarrow> ends tot (J s) (\<lambda>_. got s0 buffer d)"
  by (rule ends_mono [OF isr [OF got_ok]]) (auto intro: got_isr)

text \<open>The copy and what follows it, once the indices are read.\<close>

lemma take_step:
  assumes g: "got s0 buffer d s2" and ptr: "ptr = buffer + of_nat (length d)" and out: "out = rx_out (sp s2)"
    and n: "unat n \<le> ring_len (rx_ring s2)" "unat out + unat n \<le> 2048"
    and cont: "\<And>s d'. got s0 buffer d' s \<Longrightarrow> length d' = length d + unat n \<Longrightarrow> ends tot (f (upd_sp id s)) Q"
  shows "ends tot (array_slice (rx_buf (sp s2)) (unat out) (unat n) \<bind> (\<lambda>xs. J (s2\<lparr>bytes := write_bytes (bytes s2) ptr xs\<rparr>) \<bind>
       (\<lambda>(_, s). f (upd_sp (\<lambda>r. r\<lparr>rx_out := (out + n) mod 2048\<rparr>) s)))) Q"
proof -
  have r: "ring_ok (rx_ring s2)" using got_ok [OF g] by (simp add: uart_ok_def)
  define xs where "xs = take (unat n) (ring_view (rx_ring s2))"
  have sl: "array_slice (rx_buf (sp s2)) (unat out) (unat n) = Some xs"
    using ring_slice [OF r _ n(1)] ring_okD [OF r] n(2) out by (simp add: array_slice_def xs_def)
  have l: "length xs = unat n" using n by (simp add: xs_def)
  let ?m = "s2\<lparr>bytes := write_bytes (bytes s2) ptr xs\<rparr>"
  have ok: "uart_ok ?m" using got_ok [OF g] by (simp add: uart_ok_def)
  have "ends tot (J ?m) (\<lambda>_ s. ends tot (f (upd_sp (\<lambda>r. r\<lparr>rx_out := (out + n) mod 2048\<rparr>) s)) Q)"
  proof (rule ends_mono [OF isr [OF ok]])
    fix u s3 assume i3: "by_isr ?m s3"
    let ?s = "upd_sp (\<lambda>r. r\<lparr>rx_out := (out + n) mod 2048\<rparr>) s3"
    have "got s0 buffer (d @ xs) ?s"
      using got_step [OF g n(1) _ i3 [unfolded ptr] xs_def] n(2) out by simp
    from cont [OF this] show "ends tot (f ?s) Q" by (simp add: l upd_sp_def)
  qed
  then show ?thesis by (simp add: sl)
qed

lemma rx_take_flow:
  "got s0 buffer d s \<Longrightarrow> ptr = buffer + of_nat (length d) \<Longrightarrow>
     ends tot (rx_take J ptr space s) (\<lambda>(p, k, inn) s'. \<exists>d'. got s0 buffer d' s' \<and> p = buffer + of_nat (length d') \<and>
       length d' + unat k = length d + unat space)"
  (is "_ \<Longrightarrow> _ \<Longrightarrow> ends tot _ (?Q d space)")
proof (induction space arbitrary: d s ptr rule: measure_induct_rule [of unat])
  case (less space)
  note ptr = less.prems(2)
  have main: "ends tot (array_slice (rx_buf (sp s2)) (unat (rx_out (sp s1))) (unat n) \<bind> (\<lambda>xs. J (s2\<lparr>bytes := write_bytes (bytes s2) ptr xs\<rparr>) \<bind>
       (\<lambda>(_, s). (\<lambda>s. if 0 < sint (space - n) then rx_take J (ptr + n) (space - n) s else Some ((ptr + n, space - n, inn), s))
          (upd_sp (\<lambda>r. r\<lparr>rx_out := (rx_out (sp s1) + n) mod 2048\<rparr>) s)))) (?Q d space)"
    if g1: "got s0 buffer d s1" and i: "by_isr s1 s2" and n: "n \<le> rx_avail (sp s1)" "n \<le> space"
      and z: "rx_avail (sp s1) \<noteq> 0" "n = 0 \<Longrightarrow> space = 0" for s1 s2 n inn
  proof (rule take_step [OF got_isr [OF g1 i] ptr])
    have r: "ring_ok (rx_ring s1)" using got_ok [OF g1] by (simp add: uart_ok_def)
    show "rx_out (sp s1) = rx_out (sp s2)" using i by (simp add: by_isr_def)
    have "unat n \<le> ring_len (rx_ring s1)" "unat (rx_out (sp s1)) + unat n \<le> 2048"
      using rx_avail_bounds [OF r] n(1) by (simp_all add: word_le_nat_alt)
    then show "unat n \<le> ring_len (rx_ring s2)" "unat (rx_out (sp s1)) + unat n \<le> 2048"
      using by_isr_front(1) [OF i] by simp_all
    fix s :: "('h, 'x) uart_st_scheme" and d' :: "u8 list"
    assume g: "got s0 buffer d' s" and l: "length d' = length d + unat n"
    have p: "ptr + n = buffer + of_nat (length d')" by (simp add: ptr l)
    have le: "unat n \<le> unat space" "unat (space - n) = unat space - unat n"
      using n(2) by (simp_all add: word_le_nat_alt unat_sub)
    have "unat (space - n) < unat space" if "0 < sint (space - n)"
      using that z(2) n(2) unat_sub_less [of n space] by (cases "n = 0") auto
    then have "ends tot (rx_take J (ptr + n) (space - n) s) (?Q d space)" if "0 < sint (space - n)"
      using that by (intro ends_mono [OF less.IH [OF _ g p]]) (use le l in \<open>auto split: prod.splits\<close>)
    moreover have "?Q d space (ptr + n, space - n, inn) s"
      using g p le l by auto
    ultimately show "ends tot ((\<lambda>s. if 0 < sint (space - n) then rx_take J (ptr + n) (space - n) s
        else Some ((ptr + n, space - n, inn), s)) (upd_sp id s)) (?Q d space)" by (simp add: upd_sp_def)
  qed
  have rest: "ends tot (if rx_avail (sp s1) = 0 then Some ((ptr, space, rx_in (sp s1)), s1)
      else let n = if rx_avail (sp s1) > space then space else rx_avail (sp s1) in J s1 \<bind> (\<lambda>(_, s2).
       array_slice (rx_buf (sp s2)) (unat (rx_out (sp s1))) (unat n) \<bind> (\<lambda>xs. J (s2\<lparr>bytes := write_bytes (bytes s2) ptr xs\<rparr>) \<bind>
       (\<lambda>(_, s). (\<lambda>s. if 0 < sint (space - n) then rx_take J (ptr + n) (space - n) s else Some ((ptr + n, space - n, rx_in (sp s1)), s))
          (upd_sp (\<lambda>r. r\<lparr>rx_out := (rx_out (sp s1) + n) mod 2048\<rparr>) s))))) (?Q d space)"
    if g1: "got s0 buffer d s1" for s1
  proof (cases "rx_avail (sp s1) = 0")
    case True
    then show ?thesis using g1 ptr by auto
  next
    case False
    define n where "n = (if rx_avail (sp s1) > space then space else rx_avail (sp s1))"
    have "n \<le> rx_avail (sp s1)" "n \<le> space" "n = 0 \<Longrightarrow> space = 0"
      using False by (auto simp: n_def split: if_splits)
    from main [OF g1 _ this(1,2) False this(3)] show ?thesis
      using False by (simp add: n_def [symmetric] Let_def) (rule ends_mono [OF isr [OF got_ok [OF g1]]])
  qed
  have u: "rx_take J ptr space s = J s \<bind> (\<lambda>(_, s1). if rx_avail (sp s1) = 0 then Some ((ptr, space, rx_in (sp s1)), s1)
      else let n = if rx_avail (sp s1) > space then space else rx_avail (sp s1) in J s1 \<bind> (\<lambda>(_, s2).
       array_slice (rx_buf (sp s2)) (unat (rx_out (sp s1))) (unat n) \<bind> (\<lambda>xs. J (s2\<lparr>bytes := write_bytes (bytes s2) ptr xs\<rparr>) \<bind>
       (\<lambda>(_, s). (\<lambda>s. if 0 < sint (space - n) then rx_take J (ptr + n) (space - n) s else Some ((ptr + n, space - n, rx_in (sp s1)), s))
          (upd_sp (\<lambda>r. r\<lparr>rx_out := (rx_out (sp s1) + n) mod 2048\<rparr>) s)))))"
    by (subst rx_take.simps) (simp only: Let_def)
  show ?case
    unfolding u by (simp only: ends_simps prod.case) (rule ends_mono [OF J_got [OF less.prems(1)]], erule rest)
qed

lemma rx_spin_flow: "got s0 buffer d s \<Longrightarrow> wlp (rx_spin J inn s) (\<lambda>_. got s0 buffer d)"
proof (rule wlp_runI)
  fix r assume s: "got s0 buffer d s" and run: "rx_spin J inn s = Some r"
  have "J = J \<longrightarrow> got s0 buffer d s \<longrightarrow> got s0 buffer d (snd r)"
  proof (rule rx_spin.raw_induct [where P = "\<lambda>J' i s r. J' = J \<longrightarrow> got s0 buffer d s \<longrightarrow> got s0 buffer d (snd r)", OF _ run], goal_cases)
    case (1 f J' inn' s r)
    show ?case
    proof (intro impI)
      assume J: "J' = J" and s: "got s0 buffer d s"
      have f: "wlp (f J i s) (\<lambda>_. got s0 buffer d)" if "got s0 buffer d s" for s i
        using that 1(1) [of J i s] by (intro wlp_runI) auto
      show "got s0 buffer d (snd r)"
        by (rule wlp_runD [OF 1(2) [unfolded J], where Q = "\<lambda>_. got s0 buffer d"])
           (auto intro!: f wlp_mono [OF ends_imp_wlp [OF J_got [OF s]]])
    qed
  qed
  with s show "got s0 buffer d (snd r)" by simp
qed

lemma rx_take_took:
  assumes "got s0 buffer [] s" "0 < sint space"
  shows "ends tot (rx_take J buffer space s)
     (\<lambda>(p, k, inn) s'. took s0 buffer space p s' \<and> (p = buffer \<longrightarrow> k = space \<and> got s0 buffer [] s'))"
proof (rule ends_mono [OF rx_take_flow [OF assms(1)]], goal_cases)
  case (2 a s')
  obtain p k inn where a: "a = (p, k, inn)" by (cases a) auto
  with 2 obtain d where d: "got s0 buffer d s'" "p = buffer + of_nat (length d)" "length d + unat k = unat space"
    by auto
  have "d = [] \<and> k = space" if "p = buffer" using of_nat_length_0 [OF _ d(3)] d(2) that by simp
  with d assms(2) show ?case unfolding a by (auto simp: took_def)
qed simp

lemma read_loop_flow: "got s0 buffer [] s \<Longrightarrow> wlp (read_loop J buffer space flags s) (took s0 buffer space)"
proof (rule wlp_runI)
  fix r assume s: "got s0 buffer [] s" and run: "read_loop J buffer space flags s = Some r"
  let ?P = "\<lambda>J' b k f s r. J' = J \<longrightarrow> b = buffer \<longrightarrow> k = space \<longrightarrow> got s0 buffer [] s \<longrightarrow> took s0 buffer space (fst r) (snd r)"
  have "?P J buffer space flags s r"
  proof (rule read_loop.raw_induct [where P = ?P, OF _ run], goal_cases)
    case (1 f J' b k fl s r)
    show ?case
    proof (intro impI)
      assume eq: "J' = J" "b = buffer" "k = space" and s: "got s0 buffer [] s"
      have f: "wlp (f J buffer space fl s) (took s0 buffer space)" if "got s0 buffer [] s" for s
        using that 1(1) [of J buffer space fl s] by (intro wlp_runI) auto
      have again: "wlp (rx_spin J inn s) (\<lambda>_ s. wlp (J s) (\<lambda>_ s. (inn = rx_in (sp s) \<longrightarrow> took s0 buffer space buffer s) \<and>
          (inn \<noteq> rx_in (sp s) \<longrightarrow> wlp (f J buffer space fl s) (took s0 buffer space))))"
        if "got s0 buffer [] s" for s inn
        by (rule wlp_mono [OF rx_spin_flow [OF that]], rule wlp_mono [OF ends_imp_wlp [OF J_got]])
           (auto intro: f took_none)
      show "took s0 buffer space (fst r) (snd r)"
        by (rule wlp_runD [OF 1(2) [unfolded eq]])
           (use again in \<open>auto intro!: wlp_mono [OF ends_imp_wlp [OF rx_take_took [OF s]]] took_none s\<close>)
    qed
  qed
  with s show "took s0 buffer space (fst r) (snd r)" by simp
qed

text \<open>A non-blocking read takes what is there and returns.\<close>

lemma read_loop_nonblocking:
  assumes "got s0 buffer [] s" "flags AND O_NONBLOCK \<noteq> 0"
  shows "ends tot (read_loop J buffer space flags s) (took s0 buffer space)"
  using assms by (subst read_loop.simps) (auto intro!: ends_mono [OF rx_take_took] took_none)

section \<open>Writing\<close>

lemma J_queued: "queued s0 start a s \<Longrightarrow> ends tot (J s) (\<lambda>_. queued s0 start a)"
  by (rule ends_mono [OF isr [OF queued_ok]]) (auto intro: queued_isr)

text \<open>The copy and what follows it, once the indices are read.\<close>

lemma fill_step:
  assumes q: "queued s0 start a s2" and ptr: "ptr = start + of_nat (length a)" and inn: "inn = tx_in (sp s2)"
    and n: "unat inn + unat n \<le> 2048" "ring_len (tx_ring s2) + unat n \<le> 2047"
    and cont: "\<And>s a'. queued s0 start a' s \<Longrightarrow> length a' = length a + unat n \<Longrightarrow> ends tot (f s) Q"
  shows "ends tot (array_blit (tx_buf (sp s2)) (unat inn) (read_bytes (bytes s2) ptr (unat n)) \<bind>
       (\<lambda>b. J (upd_sp (\<lambda>r. r\<lparr>tx_buf := b\<rparr>) s2) \<bind> (\<lambda>(_, s). f (upd_sp (\<lambda>r. r\<lparr>tx_in := (inn + n) mod 2048\<rparr>) s)))) Q"
proof -
  have r: "ring_ok (tx_ring s2)" using queued_ok [OF q] by (simp add: uart_ok_def)
  define xs where "xs = read_bytes (bytes s2) ptr (unat n)"
  define b where "b = take (unat inn) (tx_buf (sp s2)) @ xs @ drop (unat inn + unat n) (tx_buf (sp s2))"
  have bl: "array_blit (tx_buf (sp s2)) (unat inn) xs = Some b"
    using n(1) ring_okD [OF r] by (simp add: array_blit_def xs_def b_def)
  have ok: "uart_ok (upd_sp (\<lambda>r. r\<lparr>tx_buf := b\<rparr>) s2)"
    using queued_ok [OF q] n(1) ring_okD [OF r] by (simp add: uart_ok_def ring_ok_def b_def xs_def)
  have "ends tot (J (upd_sp (\<lambda>r. r\<lparr>tx_buf := b\<rparr>) s2)) (\<lambda>_ s. ends tot (f (upd_sp (\<lambda>r. r\<lparr>tx_in := (inn + n) mod 2048\<rparr>) s)) Q)"
  proof (rule ends_mono [OF isr [OF ok]])
    fix u s3 assume i: "by_isr (upd_sp (\<lambda>r. r\<lparr>tx_buf := b\<rparr>) s2) s3"
    have "queued s0 start (a @ xs) (upd_sp (\<lambda>r. r\<lparr>tx_in := (inn + n) mod 2048\<rparr>) s3)"
      unfolding inn by (rule queued_step [OF q]) (use n i inn ptr in \<open>simp_all add: xs_def b_def\<close>)
    from cont [OF this] show "ends tot (f (upd_sp (\<lambda>r. r\<lparr>tx_in := (inn + n) mod 2048\<rparr>) s3)) Q" by (simp add: xs_def)
  qed
  then show ?thesis by (simp add: bl flip: xs_def)
qed

lemma tx_fill_flow:
  "queued s0 start a s \<Longrightarrow> ptr = start + of_nat (length a) \<Longrightarrow>
     ends tot (tx_fill J ptr count out s) (\<lambda>(p, k, out) s'. \<exists>a'. queued s0 start a' s' \<and>
       p = start + of_nat (length a') \<and> length a' + unat k = length a + unat count)"
  (is "_ \<Longrightarrow> _ \<Longrightarrow> ends tot _ (?Q a count)")
proof (induction count arbitrary: a s ptr out rule: measure_induct_rule [of unat])
  case (less count)
  note ptr = less.prems(2)
  have main: "ends tot (array_blit (tx_buf (sp s2)) (unat (tx_in (sp s1))) (read_bytes (bytes s2) ptr (unat n)) \<bind>
       (\<lambda>b. J (upd_sp (\<lambda>r. r\<lparr>tx_buf := b\<rparr>) s2) \<bind> (\<lambda>(_, s). (\<lambda>s. tx_fill J (ptr + n) (count - n) out s)
          (upd_sp (\<lambda>r. r\<lparr>tx_in := (tx_in (sp s1) + n) mod 2048\<rparr>) s)))) (?Q a count)"
    if q1: "queued s0 start a s1" and i: "by_isr s1 s2" and n: "n \<le> tx_space (sp s1)" "n \<le> count" "n \<noteq> 0" for s1 s2 n out
  proof (rule fill_step [OF queued_isr [OF q1 i] ptr])
    have r: "ring_ok (tx_ring s1)" using queued_ok [OF q1] by (simp add: uart_ok_def)
    show "tx_in (sp s1) = tx_in (sp s2)" using i by (simp add: by_isr_def)
    show "unat (tx_in (sp s1)) + unat n \<le> 2048" "ring_len (tx_ring s2) + unat n \<le> 2047"
      using tx_space_bounds [OF r] n(1) by_isr_tx_len [OF i] by (simp_all add: word_le_nat_alt)
    fix s :: "('h, 'x) uart_st_scheme" and a' :: "u8 list"
    assume q: "queued s0 start a' s" and l: "length a' = length a + unat n"
    have p: "ptr + n = start + of_nat (length a')" by (simp add: ptr l)
    have le: "unat n \<le> unat count" "unat (count - n) = unat count - unat n"
      using n(2) by (simp_all add: word_le_nat_alt unat_sub)
    show "ends tot (tx_fill J (ptr + n) (count - n) out s) (?Q a count)"
      by (rule ends_mono [OF less.IH [OF unat_sub_less [OF n(3,2)] q p]]) (use le l in \<open>auto split: prod.splits\<close>)
  qed
  have rest: "ends tot (if tx_space (sp s1) = 0 then Some ((ptr, count, tx_out (sp s1)), s1)
      else let n = if tx_space (sp s1) > count then count else tx_space (sp s1) in J s1 \<bind> (\<lambda>(_, s2).
       array_blit (tx_buf (sp s2)) (unat (tx_in (sp s1))) (read_bytes (bytes s2) ptr (unat n)) \<bind>
       (\<lambda>b. J (upd_sp (\<lambda>r. r\<lparr>tx_buf := b\<rparr>) s2) \<bind> (\<lambda>(_, s). (\<lambda>s. tx_fill J (ptr + n) (count - n) (tx_out (sp s1)) s)
          (upd_sp (\<lambda>r. r\<lparr>tx_in := (tx_in (sp s1) + n) mod 2048\<rparr>) s))))) (?Q a count)"
    if q1: "queued s0 start a s1" and c: "count \<noteq> 0" for s1
  proof (cases "tx_space (sp s1) = 0")
    case True
    then show ?thesis using q1 ptr by auto
  next
    case False
    define n where "n = (if tx_space (sp s1) > count then count else tx_space (sp s1))"
    have "n \<le> tx_space (sp s1)" "n \<le> count" "n \<noteq> 0"
      using False c by (auto simp: n_def split: if_splits)
    from main [OF q1 _ this] show ?thesis
      using False by (simp add: n_def [symmetric] Let_def) (rule ends_mono [OF isr [OF queued_ok [OF q1]]])
  qed
  have u: "tx_fill J ptr count out s = (if 0 < sint count then J s \<bind> (\<lambda>(_, s1). if tx_space (sp s1) = 0 then Some ((ptr, count, tx_out (sp s1)), s1)
      else let n = if tx_space (sp s1) > count then count else tx_space (sp s1) in J s1 \<bind> (\<lambda>(_, s2).
       array_blit (tx_buf (sp s2)) (unat (tx_in (sp s1))) (read_bytes (bytes s2) ptr (unat n)) \<bind>
       (\<lambda>b. J (upd_sp (\<lambda>r. r\<lparr>tx_buf := b\<rparr>) s2) \<bind> (\<lambda>(_, s). (\<lambda>s. tx_fill J (ptr + n) (count - n) (tx_out (sp s1)) s)
          (upd_sp (\<lambda>r. r\<lparr>tx_in := (tx_in (sp s1) + n) mod 2048\<rparr>) s))))) else Some ((ptr, count, out), s))"
    by (subst tx_fill.simps) (simp only: Let_def)
  show ?case
  proof (cases "0 < sint count")
    case True
    then have "count \<noteq> 0" by auto
    with True show ?thesis
      unfolding u by (simp only: ends_simps prod.case if_True) (rule ends_mono [OF J_queued [OF less.prems(1)]], erule rest)
  next
    case False
    then show ?thesis unfolding u using less.prems by auto
  qed
qed

lemma tx_spin_flow: "queued s0 start a s \<Longrightarrow> wlp (tx_spin J out s) (\<lambda>_. queued s0 start a)"
proof (rule wlp_runI)
  fix r assume s: "queued s0 start a s" and run: "tx_spin J out s = Some r"
  have "J = J \<longrightarrow> queued s0 start a s \<longrightarrow> queued s0 start a (snd r)"
  proof (rule tx_spin.raw_induct [where P = "\<lambda>J' i s r. J' = J \<longrightarrow> queued s0 start a s \<longrightarrow> queued s0 start a (snd r)", OF _ run], goal_cases)
    case (1 f J' out' s r)
    show ?case
    proof (intro impI)
      assume J: "J' = J" and s: "queued s0 start a s"
      have f: "wlp (f J i s) (\<lambda>_. queued s0 start a)" if "queued s0 start a s" for s i
        using that 1(1) [of J i s] by (intro wlp_runI) auto
      show "queued s0 start a (snd r)"
        by (rule wlp_runD [OF 1(2) [unfolded J], where Q = "\<lambda>_. queued s0 start a"])
           (auto intro!: f wlp_mono [OF ends_imp_wlp [OF J_queued [OF s]]])
    qed
  qed
  with s show "queued s0 start a (snd r)" by simp
qed

lemma irq_on_queued: "queued s0 start a s \<Longrightarrow> wp (uart_irq_on B m s) (\<lambda>_. queued s0 start a)"
  by (rule wp_mono [OF irq_on_flow [OF queued_ok]]) (auto intro: queued_isr)

lemma write_loop_flow:
  assumes "queued s0 start a s" "ptr = start + of_nat (length a)" "length a + unat count \<le> m"
  shows "wlp (write_loop B J ptr count flags out s) (wrote s0 start m)"
proof (rule wlp_runI)
  fix r assume run: "write_loop B J ptr count flags out s = Some r"
  let ?I = "\<lambda>ptr count s. \<exists>a. queued s0 start a s \<and> ptr = start + of_nat (length a) \<and> length a + unat count \<le> m"
  let ?P = "\<lambda>B' J' ptr count fl out s r. B' = B \<longrightarrow> J' = J \<longrightarrow> ?I ptr count s \<longrightarrow> wrote s0 start m (fst r) (snd r)"
  have "?P B J ptr count flags out s r"
  proof (rule write_loop.raw_induct [where P = ?P, OF _ run], goal_cases)
    case (1 f B' J' ptr count fl out s r)
    show ?case
    proof (intro impI)
      assume eq: "B' = B" "J' = J" and "?I ptr count s"
      then obtain a where s: "queued s0 start a s" "ptr = start + of_nat (length a)" "length a + unat count \<le> m" by blast
      have f: "wlp (f B J ptr count fl out s) (wrote s0 start m)" if "?I ptr count s" for ptr count out s
        using that 1(1) [of B J ptr count fl out s] by (intro wlp_runI) blast
      have done1: "wrote s0 start m (start + of_nat (length a)) s" if "queued s0 start a s" "length a + k \<le> m" for a k s
        using that unfolding wrote_def by (intro exI [of _ a]) simp
      have next1: "wlp (f B J (start + of_nat (length a)) k fl out s) (wrote s0 start m)"
        if "queued s0 start a s" "length a + unat k \<le> m" for a k out s
        using that by (intro f exI [of _ a]) simp
      have fill: "wlp (tx_fill J ptr count out s) (\<lambda>(p, k, out) s'. \<exists>a'. queued s0 start a' s' \<and>
         p = start + of_nat (length a') \<and> length a' + unat k \<le> m)"
        by (rule wlp_mono [OF ends_imp_wlp [OF tx_fill_flow [OF s(1,2)]]]) (use s(3) in \<open>auto split: prod.splits\<close>)
      show "wrote s0 start m (fst r) (snd r)"
        by (rule wlp_runD [OF 1(2) [unfolded eq]])
           (auto intro!: wlp_mono [OF fill] wlp_mono [OF ends_imp_wlp [OF J_queued]] wlp_mono [OF wp_wlp [OF irq_on_queued]]
              wlp_mono [OF tx_spin_flow] intro: done1 next1)
    qed
  qed
  with assms show "wrote s0 start m (fst r) (snd r)" by blast
qed

lemma write_loop_nonblocking:
  assumes "uart_ok s" "flags AND O_NONBLOCK \<noteq> 0"
  shows "ends tot (write_loop B J start count flags out s) (wrote s start (unat count))"
proof -
  have q: "queued s start [] s" using assms(1) by (simp add: queued_def flow_refl)
  have done1: "wrote s start (unat count) (start + of_nat (length a)) s'" if "queued s start a s'" "length a + k = unat count" for a k s'
    using that unfolding wrote_def by (intro exI [of _ a]) simp
  show ?thesis
    using assms(2) by (subst write_loop.simps)
      (auto intro!: ends_mono [OF tx_fill_flow [OF q]] ends_mono [OF J_queued] ends_mono [OF wp_ends [OF irq_on_queued]] intro: done1)
qed

section \<open>The calls\<close>

lemma close_flow: "by_isr s0 s \<Longrightarrow> wlp (altera_avalon_jtag_uart_close J flags s) (\<lambda>_. by_isr s0)"
proof (rule wlp_runI)
  fix r assume s: "by_isr s0 s" and run: "altera_avalon_jtag_uart_close J flags s = Some r"
  have "J = J \<longrightarrow> by_isr s0 s \<longrightarrow> by_isr s0 (snd r)"
  proof (rule altera_avalon_jtag_uart_close.raw_induct [where P = "\<lambda>J' i s r. J' = J \<longrightarrow> by_isr s0 s \<longrightarrow> by_isr s0 (snd r)", OF _ run], goal_cases)
    case (1 f J' flags' s r)
    show ?case
    proof (intro impI)
      assume J: "J' = J" and s: "by_isr s0 s"
      have f: "wlp (f J i s) (\<lambda>_. by_isr s0)" if "by_isr s0 s" for s i
        using that 1(1) [of J i s] by (intro wlp_runI) auto
      have J_by: "wlp (J s) (\<lambda>_. by_isr s0)"
        by (rule wlp_mono [OF ends_imp_wlp [OF isr [OF by_isr_ok [OF s]]]]) (rule by_isr_trans [OF s])
      show "by_isr s0 (snd r)"
        by (rule wlp_runD [OF 1(2) [unfolded J], where Q = "\<lambda>_. by_isr s0"]) (auto intro!: f wlp_mono [OF J_by])
    qed
  qed
  with s show "by_isr s0 (snd r)" by simp
qed

lemma write_flow: "uart_ok s \<Longrightarrow> wlp (altera_avalon_jtag_uart_write B J start count flags s) (\<lambda>_ s'. \<exists>a. flow s a [] s')"
proof -
  assume "uart_ok s"
  then have q: "queued s start [] s" by (simp add: queued_def flow_refl)
  show ?thesis
    unfolding altera_avalon_jtag_uart_write_def
    by (simp, rule wlp_mono [OF write_loop_flow [OF q, where m = "unat count"]]) (auto simp: wrote_def queued_def)
qed

lemma read_result:
  assumes "uart_ok s"
  shows "wlp (altera_avalon_jtag_uart_read B J buffer space flags s) (gave s buffer space flags)"
    and "flags AND O_NONBLOCK \<noteq> 0 \<Longrightarrow> ends tot (altera_avalon_jtag_uart_read B J buffer space flags s) (gave s buffer space flags)"
proof -
  have g: "got s buffer [] s" using assms by (simp add: got_def flow_refl)
  have on: "wp (if p \<noteq> buffer then uart_irq_on B RE_MSK s2 else Some ((), s2)) (\<lambda>_. gave s buffer space flags (moved_result buffer p flags))"
    if "took s buffer space p s1" "by_isr s1 s2" for p s1 s2
  proof -
    from that obtain d where d: "got s buffer d s2" "p = buffer + of_nat (length d)" "length d \<le> (if 0 < sint space then unat space else 0)"
      unfolding took_def using got_isr by blast
    have res: "gave s buffer space flags (moved_result buffer p flags) s3" if "by_isr s2 s3" for s3
      using took_gave got_isr [OF d(1) that] d(2,3) by blast
    show ?thesis
      using wp_mono [OF irq_on_flow [OF got_ok [OF d(1)], of B RE_MSK]] res [OF by_isr_refl [OF got_ok [OF d(1)]]] res
      by (cases "p = buffer") simp_all
  qed
  have after: "ends tot (J s1) (\<lambda>_ s2. wp (if p \<noteq> buffer then uart_irq_on B RE_MSK s2 else Some ((), s2))
     (\<lambda>_. gave s buffer space flags (moved_result buffer p flags)))" if "took s buffer space p s1" for p s1
    by (rule ends_mono [OF isr]) (use that on in \<open>auto simp: took_def dest: got_ok\<close>)
  show "wlp (altera_avalon_jtag_uart_read B J buffer space flags s) (gave s buffer space flags)"
    unfolding altera_avalon_jtag_uart_read_def
    by (simp only: wlp_bind prod.case, rule wlp_mono [OF read_loop_flow [OF g]], rule wlp_mono [OF ends_imp_wlp [OF after]], assumption)
       (simp only: wlp_bind prod.case wlp_Some, erule wp_wlp)
  assume f: "flags AND O_NONBLOCK \<noteq> 0"
  show "ends tot (altera_avalon_jtag_uart_read B J buffer space flags s) (gave s buffer space flags)"
    unfolding altera_avalon_jtag_uart_read_def
    by (simp only: ends_simps prod.case, rule ends_mono [OF read_loop_nonblocking [OF g f]], rule ends_mono [OF after], assumption)
       (erule wp_ends)
qed

lemma write_result:
  assumes "uart_ok s" "0 \<le> sint count"
  shows "wlp (altera_avalon_jtag_uart_write B J start count flags s) (accepted s start count flags)"
    and "flags AND O_NONBLOCK \<noteq> 0 \<Longrightarrow> ends tot (altera_avalon_jtag_uart_write B J start count flags s) (accepted s start count flags)"
proof -
  have q: "queued s start [] s" using assms by (simp add: queued_def flow_refl)
  have res: "accepted s start count flags (moved_result start p flags) s1" if "wrote s start (unat count) p s1" for p s1
    using that wrote_accepted [OF assms(2)] by blast
  show "wlp (altera_avalon_jtag_uart_write B J start count flags s) (accepted s start count flags)"
    unfolding altera_avalon_jtag_uart_write_def
    by (simp, rule wlp_mono [OF write_loop_flow [OF q, where m = "unat count"]]) (simp_all add: res)
  assume f: "flags AND O_NONBLOCK \<noteq> 0"
  show "ends tot (altera_avalon_jtag_uart_write B J start count flags s) (accepted s start count flags)"
    unfolding altera_avalon_jtag_uart_write_def
    by (simp, rule ends_mono [OF write_loop_nonblocking [OF assms(1) f]]) (simp add: res)
qed

end

end
