(* ===== verification/JTAG_Claims.thy ===== *)
theory JTAG_Claims
  imports JTAG_Calls
begin

text \<open>
  The properties of the JTAG UART driver: order and completeness of both streams under its own
  interrupt handlers, the run-wise copies against byte-wise reference code, well-formedness of
  the buffers in every reachable state, and the polled driver.
\<close>

section \<open>The driver's handlers keep the contract\<close>

text \<open>An interrupt point: the hardware decides whether the device and the alarm interrupt.\<close>

definition uart_point :: "'h bus \<Rightarrow> ('h \<Rightarrow> bool) \<Rightarrow> ('h \<Rightarrow> bool) \<Rightarrow> (unit, ('h, 'x) uart_st_scheme) prog" where
  "uart_point B irqp tick s = do {
     (_, s) \<leftarrow> (if irqp (hw s) then altera_avalon_jtag_uart_irq B s else Some ((), s));
     (if tick (hw s) then do { (_, s) \<leftarrow> altera_avalon_jtag_uart_timeout B s; Some ((), s) } else Some ((), s))
   }"

lemma uart_point_flow: "uart_ok s \<Longrightarrow> wlp (uart_point B irqp tick s) (\<lambda>_. by_isr s)"
proof -
  assume ok: "uart_ok s"
  have t: "(tick (hw s1) \<longrightarrow> wlp (altera_avalon_jtag_uart_timeout B s1) (\<lambda>_. by_isr s)) \<and> (\<not> tick (hw s1) \<longrightarrow> by_isr s s1)"
    if "by_isr s s1" for s1
  proof -
    have "wlp (altera_avalon_jtag_uart_timeout B s1) (\<lambda>_. by_isr s)"
      by (rule wlp_mono [OF wp_wlp [OF timeout_flow [OF by_isr_ok [OF that]]]]) (rule by_isr_trans [OF that])
    with that show ?thesis by blast
  qed
  show ?thesis
    using wlp_mono [OF irq_flow [OF ok], OF t] t [OF by_isr_refl [OF ok]]
    by (cases "irqp (hw s)") (simp_all add: uart_point_def)
qed

interpretation handlers: uart_interrupts False "uart_point B irqp tick"
  for B :: "'h bus" and irqp tick :: "'h \<Rightarrow> bool"
  by unfold_locales (simp add: ends_wlp uart_point_flow)

interpretation quiet: uart_interrupts True "\<lambda>s :: ('h, 'x) uart_st_scheme. Some ((), s)"
  by unfold_locales (simp add: by_isr_refl)

section \<open>Copies against byte-wise reference code\<close>

fun ref_enqueue :: "u8 list \<Rightarrow> ring \<Rightarrow> ring" where
  "ref_enqueue [] r = r"
| "ref_enqueue (x # xs) r = (if ring_len r = 2047 then r else ref_enqueue xs (ring_put x r))"

fun ref_dequeue :: "nat \<Rightarrow> ring \<Rightarrow> u8 list \<times> ring" where
  "ref_dequeue 0 r = ([], r)"
| "ref_dequeue (Suc n) r = (if ring_len r = 0 then ([], r)
     else (let (xs, r') = ref_dequeue n (ring_get r) in (hd (ring_view r) # xs, r')))"

lemma ref_enqueue_fold:
  "ring_ok r \<Longrightarrow> ref_enqueue xs r = fold ring_put (take (2047 - ring_len r) xs) r"
proof (induction xs arbitrary: r)
  case (Cons x xs)
  have l: "ring_len r < 2048" using Cons.prems by (rule ring_len_less)
  show ?case
  proof (cases "ring_len r = 2047")
    case False
    with l have e: "2047 - ring_len r = Suc (2046 - ring_len r)" "ring_len r < 2047" by simp_all
    then have "ref_enqueue xs (ring_put x r) = fold ring_put (take (2046 - ring_len r) xs) (ring_put x r)"
      using Cons.IH [OF ring.put_ok [OF Cons.prems]] by (simp add: ring_len_put [OF Cons.prems])
    with False show ?thesis by (simp add: e(1))
  qed simp
qed simp

lemma ref_dequeue_take:
  "ring_ok r \<Longrightarrow> ref_dequeue n r = (take n (ring_view r), (ring_get ^^ min n (ring_len r)) r)"
proof (induction n arbitrary: r)
  case (Suc n)
  show ?case
  proof (cases "ring_len r = 0")
    case True
    then have "ring_view r = []" by (metis length_0_conv length_ring_view)
    then show ?thesis using True by simp
  next
    case False
    then have ne: "ring_view r \<noteq> []" by (metis length_0_conv length_ring_view)
    obtain m where m: "ring_len r = Suc m" using False by (cases "ring_len r") auto
    have "ref_dequeue n (ring_get r) = (take n (tl (ring_view r)), (ring_get ^^ min n m) (ring_get r))"
      using Suc.IH [OF ring.get_ok [OF Suc.prems ne]] ring.get_view [OF Suc.prems ne] ring_len_get [OF Suc.prems] m by simp
    then show ?thesis using ne m
      by (cases "ring_view r") (auto simp: funpow_swap1 min_def)
  qed
qed simp

definition rx_state :: "u32 \<Rightarrow> u8 list \<Rightarrow> ring \<Rightarrow> ('h, 'x) uart_st_scheme \<Rightarrow> ('h, 'x) uart_st_scheme" where
  "rx_state ptr xs r s = upd_sp (\<lambda>x. x\<lparr>rx_out := fst (snd r)\<rparr>) (s\<lparr>bytes := write_bytes (bytes s) ptr xs\<rparr>)"

definition tx_state :: "ring \<Rightarrow> ('h, 'x) uart_st_scheme \<Rightarrow> ('h, 'x) uart_st_scheme" where
  "tx_state r s = upd_sp (\<lambda>x. x\<lparr>tx_buf := snd (snd r), tx_in := fst r\<rparr>) s"

lemma rx_take_quiet:
  fixes s :: "('h, 'x) uart_st_scheme"
  shows "uart_ok s \<Longrightarrow> 0 < sint space \<Longrightarrow> k = min (unat space) (ring_len (rx_ring s)) \<Longrightarrow>
    \<exists>inn. rx_take (\<lambda>s. Some ((), s)) ptr space s = Some ((ptr + of_nat k, space - of_nat k, inn),
       rx_state ptr (take k (ring_view (rx_ring s))) ((ring_get ^^ k) (rx_ring s)) s)"
proof (induction space arbitrary: s ptr k rule: measure_induct_rule [of unat])
  case (less space)
  have r: "ring_ok (rx_ring s)" using less.prems(1) by (simp add: uart_ok_def)
  note av = rx_avail_bounds [OF r]
  show ?case
  proof (cases "rx_avail (sp s) = 0")
    case True
    then have "ring_len (rx_ring s) = 0" using av(3) ring_empty_iff [OF r] by simp
    then show ?thesis using True less.prems(3) by (subst rx_take.simps) (simp add: rx_state_def upd_sp_def)
  next
    case False
    define n where "n = (if rx_avail (sp s) > space then space else rx_avail (sp s))"
    have n: "n \<le> rx_avail (sp s)" "n \<le> space" "n \<noteq> 0" using False less.prems(2) by (auto simp: n_def split: if_splits)
    have nl: "unat n \<le> ring_len (rx_ring s)" "unat (rx_out (sp s)) + unat n \<le> 2048" "unat n \<le> unat space"
      using av n by (simp_all add: word_le_nat_alt)
    define xs where "xs = take (unat n) (ring_view (rx_ring s))"
    have sl: "array_slice (rx_buf (sp s)) (unat (rx_out (sp s))) (unat n) = Some xs"
      using ring_slice [OF r nl(2,1)] ring_okD [OF r] nl(2) by (simp add: array_slice_def xs_def)
    have l: "length xs = unat n" using nl by (simp add: xs_def)
    let ?r = "(ring_get ^^ unat n) (rx_ring s)"
    have rr: "?r = (rx_in (sp s), (rx_out (sp s) + n) mod 2048, rx_buf (sp s))"
      using ring_get_run [OF r, of "unat n"] nl(2) by simp
    define s1 where "s1 = rx_state ptr xs ?r s"
    have r1: "rx_ring s1 = ?r" by (simp add: s1_def rx_state_def rr)
    have g: "ring_ok ?r" "ring_view ?r = drop (unat n) (ring_view (rx_ring s))"
      using ring.get_many [OF r, of "unat n"] nl(1) by simp_all
    have ok1: "uart_ok s1" using less.prems(1) g(1) r1 by (simp add: uart_ok_def) (simp add: s1_def rx_state_def)
    have u: "rx_take (\<lambda>s. Some ((), s)) ptr space s = (if 0 < sint (space - n)
        then rx_take (\<lambda>s. Some ((), s)) (ptr + n) (space - n) s1 else Some ((ptr + n, space - n, rx_in (sp s)), s1))"
      by (subst rx_take.simps) (simp add: Let_def False n_def [symmetric] sl s1_def rx_state_def rr upd_sp_def)
    have len1: "ring_len (rx_ring s1) = ring_len (rx_ring s) - unat n"
      by (metis g(2) length_drop length_ring_view r1)
    have sp: "unat (space - n) = unat space - unat n" using n(2) by (simp add: unat_sub)
    show ?thesis
    proof (cases "0 < sint (space - n)")
      case True
      define k' where "k' = min (unat (space - n)) (ring_len (rx_ring s1))"
      from less.IH [OF unat_sub_less [OF n(3,2)] ok1 True k'_def] obtain inn where
        e: "rx_take (\<lambda>s. Some ((), s)) (ptr + n) (space - n) s1 = Some ((ptr + n + of_nat k', space - n - of_nat k', inn),
           rx_state (ptr + n) (take k' (ring_view (rx_ring s1))) ((ring_get ^^ k') (rx_ring s1)) s1)" by blast
      have k: "k = unat n + k'" using less.prems(3) nl sp len1 by (simp add: k'_def)
      have "take k (ring_view (rx_ring s)) = xs @ take k' (ring_view (rx_ring s1))"
        by (simp only: r1 g(2) k xs_def take_add)
      moreover have "(ring_get ^^ k) (rx_ring s) = (ring_get ^^ k') (rx_ring s1)"
        by (simp only: r1 k add.commute [of "unat n"] funpow_add o_apply)
      moreover have "rx_state ptr (xs @ ys) r' s = rx_state (ptr + n) ys r' s1" for ys r'
        by (simp add: s1_def rx_state_def write_bytes_append l upd_sp_def)
      ultimately show ?thesis
        using True e by (simp add: u k add.assoc diff_diff_eq)
    next
      case F: False
      then have "n = space" using sint_sub_pos [OF less.prems(2) n(2)] by blast
      then have "k = unat n" using nl less.prems(3) by simp
      then show ?thesis using F by (simp add: u s1_def xs_def)
    qed
  qed
qed

lemma tx_fill_quiet:
  fixes s :: "('h, 'x) uart_st_scheme"
  shows "uart_ok s \<Longrightarrow> 0 \<le> sint count \<Longrightarrow> k = min (unat count) (2047 - ring_len (tx_ring s)) \<Longrightarrow>
    \<exists>out'. tx_fill (\<lambda>s. Some ((), s)) ptr count out s = Some ((ptr + of_nat k, count - of_nat k, out'),
       tx_state (fold ring_put (read_bytes (bytes s) ptr k) (tx_ring s)) s)"
proof (induction count arbitrary: s ptr out k rule: measure_induct_rule [of unat])
  case (less count)
  have r: "ring_ok (tx_ring s)" using less.prems(1) by (simp add: uart_ok_def)
  note sp = tx_space_bounds [OF r]
  have same: "tx_state (tx_ring s) s = s" by (simp add: tx_state_def upd_sp_def)
  show ?case
  proof (cases "0 < sint count \<and> tx_space (sp s) \<noteq> 0")
    case False
    have "count = 0" if "sint count = 0"
      using sint_nonneg(1) [OF less.prems(2)] that by (simp add: word_uint_eq_iff)
    with False have k: "k = 0" using less.prems(2,3) sp(3) by (auto simp: order_less_le)
    show ?thesis using False by (subst tx_fill.simps) (auto simp: k same)
  next
    case True
    define n where "n = (if tx_space (sp s) > count then count else tx_space (sp s))"
    have n: "n \<le> tx_space (sp s)" "n \<le> count" "n \<noteq> 0" using True by (auto simp: n_def split: if_splits)
    have nl: "ring_len (tx_ring s) + unat n \<le> 2047" "unat (tx_in (sp s)) + unat n \<le> 2048" "unat n \<le> unat count"
      using sp(1,2) n by (simp_all add: word_le_nat_alt)
    define xs where "xs = read_bytes (bytes s) ptr (unat n)"
    have l: "length xs = unat n" by (simp add: xs_def)
    let ?b = "take (unat (tx_in (sp s))) (tx_buf (sp s)) @ xs @ drop (unat (tx_in (sp s)) + unat n) (tx_buf (sp s))"
    have bl: "array_blit (tx_buf (sp s)) (unat (tx_in (sp s))) xs = Some ?b"
      using ring_okD [OF r] nl(2) by (simp add: array_blit_def l)
    let ?r = "fold ring_put xs (tx_ring s)"
    have rr: "?r = ((tx_in (sp s) + n) mod 2048, tx_out (sp s), ?b)"
      using ring_put_run [OF r, of xs] nl(2) by (simp add: l)
    define s1 where "s1 = tx_state ?r s"
    have r1: "tx_ring s1 = ?r" by (simp add: s1_def tx_state_def rr)
    have g: "ring_ok ?r" "ring_view ?r = ring_view (tx_ring s) @ xs"
      using ring.put_many [OF r, of xs] nl(1) l by simp_all
    have ok1: "uart_ok s1" using less.prems(1) g(1) r1 by (simp add: uart_ok_def) (simp add: s1_def tx_state_def)
    have len1: "ring_len (tx_ring s1) = ring_len (tx_ring s) + unat n"
      by (metis g(2) l length_append length_ring_view r1)
    have u: "tx_fill (\<lambda>s. Some ((), s)) ptr count out s = tx_fill (\<lambda>s. Some ((), s)) (ptr + n) (count - n) (tx_out (sp s)) s1"
      using True by (subst tx_fill.simps) (simp add: Let_def n_def [symmetric] xs_def [symmetric] bl s1_def tx_state_def rr upd_sp_def)
    have c: "0 \<le> sint (count - n)" using sint_sub_pos [OF _ n(2)] True by (cases "n = count") (auto simp: order_less_le)
    define k' where "k' = min (unat (count - n)) (2047 - ring_len (tx_ring s1))"
    from less.IH [OF unat_sub_less [OF n(3,2)] ok1 c k'_def] obtain out' where
      e: "tx_fill (\<lambda>s. Some ((), s)) (ptr + n) (count - n) (tx_out (sp s)) s1 = Some ((ptr + n + of_nat k', count - n - of_nat k', out'),
         tx_state (fold ring_put (read_bytes (bytes s1) (ptr + n) k') (tx_ring s1)) s1)" by blast
    have k: "k = unat n + k'"
      using less.prems(3) nl len1 n(2) by (simp add: k'_def unat_sub)
    have m: "bytes s1 = bytes s" by (simp add: s1_def tx_state_def)
    have "fold ring_put (read_bytes (bytes s) ptr k) (tx_ring s) = fold ring_put (read_bytes (bytes s1) (ptr + n) k') (tx_ring s1)"
      by (simp only: k read_bytes_append fold_append comp_apply r1 m) (simp add: xs_def)
    moreover have "tx_state r' s1 = tx_state r' s" for r'
      by (simp add: s1_def tx_state_def upd_sp_def)
    ultimately show ?thesis using e by (simp add: u k add.assoc diff_diff_eq)
  qed
qed

text \<open>
  C17. The two copy loops move runs of bytes between wrap-arounds with \<open>memcpy\<close>; without
  interrupts they leave exactly the state of code that moves one byte at a time until the
  buffer is full, empty or the count is reached, for every position of the indices.
\<close>

theorem uart_copies_bytewise:
  fixes s :: "('h, 'x) uart_st_scheme"
  assumes "uart_ok s" "0 < sint n"
  shows "(\<exists>p k out. tx_fill (\<lambda>s. Some ((), s)) ptr n 0 s =
       Some ((p, k, out), tx_state (ref_enqueue (read_bytes (bytes s) ptr (unat n)) (tx_ring s)) s)) \<and>
     (\<exists>p k inn. rx_take (\<lambda>s. Some ((), s)) ptr n s =
       Some ((p, k, inn), rx_state ptr (fst (ref_dequeue (unat n) (rx_ring s))) (snd (ref_dequeue (unat n) (rx_ring s))) s))"
proof -
  have t: "ring_ok (tx_ring s)" and r: "ring_ok (rx_ring s)" using assms(1) by (simp_all add: uart_ok_def)
  have e: "take (2047 - ring_len (tx_ring s)) (read_bytes (bytes s) ptr (unat n)) =
      read_bytes (bytes s) ptr (min (unat n) (2047 - ring_len (tx_ring s)))"
    by (simp only: take_read_bytes min.commute)
  have "take (unat n) (ring_view (rx_ring s)) = take (min (unat n) (ring_len (rx_ring s))) (ring_view (rx_ring s))"
    by (cases "unat n \<le> ring_len (rx_ring s)") simp_all
  then have "\<exists>p k inn. rx_take (\<lambda>s. Some ((), s)) ptr n s =
       Some ((p, k, inn), rx_state ptr (fst (ref_dequeue (unat n) (rx_ring s))) (snd (ref_dequeue (unat n) (rx_ring s))) s)"
    using rx_take_quiet [OF assms refl, of ptr] unfolding ref_dequeue_take [OF r] by auto
  then show ?thesis
    using tx_fill_quiet [OF assms(1) less_imp_le [OF assms(2)] refl, of ptr 0] unfolding ref_enqueue_fold [OF t] e by blast
qed

text \<open>A concrete device: nothing to read, room for 64 characters, never interrupting.\<close>

definition idle_bus :: "unit bus" where
  "idle_bus = \<lparr>bus_rd = (\<lambda>a h. (if a = 0x20004 then 0x00400000 else 0, h)), bus_wr = (\<lambda>a d h. h), bus_delay = (\<lambda>us h. h)\<rparr>"

definition demo_uart :: "u8 list \<Rightarrow> 'h \<Rightarrow> 'h uart_st" where
  "demo_uart m h = \<lparr>hw = h, trace = [], cpu_status = 1, cpu_ienable = 0, alt_irq_active = 0, alt_priority_mask = -1,
     alt_irq = (\<lambda>_. \<lparr>ih_handler = 0, ih_context = 0\<rparr>), alt_instruction_exception_handler = 0,
     alt_fd_list = alt_fd_list_init 0x40, alt_max_fd = -1, errno = 0, links = \<lparr>ll_next = (\<lambda>x. x), ll_prev = (\<lambda>x. x)\<rparr>,
     bytes = write_bytes (\<lambda>_. 0) 0x100 m, st_mode = (\<lambda>_. 0), tick_rate = 1000, nticks = 0,
     alarms = (\<lambda>_. \<lparr>al_time = 0, al_callback = 0, al_rollover = 0, al_context = 0\<rparr>),
     alt_resettime = \<lparr>tv_sec = 0, tv_usec = 0\<rparr>, alt_timezone = (0, 0), heap_end = 0x1000,
     sp = uart_instance 0x20000\<rparr>"

lemma demo_uart_sel [simp]:
  "hw (demo_uart m h) = h" "trace (demo_uart m h) = []" "sp (demo_uart m h) = uart_instance 0x20000"
  "bytes (demo_uart m h) = write_bytes (\<lambda>_. 0) 0x100 m"
  by (simp_all add: demo_uart_def)

lemma uart_instance_ok: "sp s = uart_instance base \<Longrightarrow> uart_ok s"
  by (simp add: uart_ok_def ring_ok_def uart_instance_def)

lemma uart_instance_empty: "ring_view (0, 0, b) = []"
  by (simp add: ring_view_def ring_len_def)

theorem uart_copies_bytewise_witness:
  "\<exists>p k out. tx_fill (\<lambda>s. Some ((), s)) 0x100 2 0 (demo_uart [0x48, 0x69] ()) =
       Some ((p, k, out), tx_state (ref_enqueue [0x48, 0x69] (0, 0, replicate 2048 0)) (demo_uart [0x48, 0x69] ()))"
proof -
  let ?s = "demo_uart [0x48, 0x69] ()"
  have b: "read_bytes (bytes ?s) 0x100 (unat (2 :: u32)) = [0x48, 0x69]"
  proof -
    have "unat (2 :: u32) = length [0x48 :: u8, 0x69]" by simp
    then show ?thesis by (simp only: demo_uart_sel read_write_bytes) simp
  qed
  have t: "tx_ring ?s = (0, 0, replicate 2048 0)" by (simp add: uart_instance_def)
  have ok: "uart_ok ?s" by (rule uart_instance_ok) simp
  have "0 < sint (2 :: u32)" by simp
  from uart_copies_bytewise [OF ok this, of "0x100"] show ?thesis unfolding b t by blast
qed

section \<open>Order and completeness\<close>

text \<open>
  C22. Whatever the device does and wherever its interrupts and the alarm strike, a \<open>read\<close> that
  returns has stored in the caller's buffer the bytes that came next in the stream: what was
  queued at the call, followed by every byte the data register delivered during it, is exactly
  what was handed out followed by what is still queued; nothing is handed to the device out of
  order meanwhile.  The result is the number of bytes, or the documented error when there are none.
\<close>

theorem uart_read_in_order:
  assumes "uart_ok s" "altera_avalon_jtag_uart_read B (uart_point B irqp tick) buffer space flags s = Some (r, s')"
  shows "\<exists>d es snt. trace s' = trace s @ es \<and> bytes s' = write_bytes (bytes s) buffer d \<and> int (length d) \<le> max 0 (sint space) \<and>
     ring_view (rx_ring s) @ rx_bytes (sp_base (sp s)) es = d @ ring_view (rx_ring s') \<and>
     writes_to (sp_base (sp s)) es = map scast snt \<and> ring_view (tx_ring s) = snt @ ring_view (tx_ring s') \<and>
     r = (if d \<noteq> [] then int (length d) else if flags AND O_NONBLOCK \<noteq> 0 then - EWOULDBLOCK else - EIO)"
  using wlpD [OF assms(2) handlers.read_result(1) [OF assms(1)]]
  unfolding gave_def flow_def flow_by_def by auto

theorem uart_read_in_order_witness:
  "\<exists>r s'. altera_avalon_jtag_uart_read idle_bus (uart_point idle_bus (\<lambda>_. False) (\<lambda>_. False)) 0x100 4 0x4000 (demo_uart [] ()) = Some (r, s') \<and>
     (\<exists>d. r = (if d \<noteq> [] then int (length d) else - 11))"
proof -
  let ?s = "demo_uart [] ()"
  have run: "altera_avalon_jtag_uart_read idle_bus (uart_point idle_bus (\<lambda>_. False) (\<lambda>_. False)) 0x100 4 0x4000 ?s = Some (-11, ?s)"
    by (simp add: altera_avalon_jtag_uart_read_def read_loop.simps rx_take.simps uart_point_def rx_avail_def uart_instance_def
        moved_result_def Let_def)
  from uart_read_in_order [OF uart_instance_ok [where s = ?s] run] run show ?thesis by fastforce
qed

text \<open>
  C23. Likewise for \<open>write\<close>: the bytes accepted are the first of the caller's buffer, as many as
  the result says, and what was queued followed by them is exactly what went to the data
  register, in order, followed by what is still queued; no received byte is lost meanwhile.
\<close>

theorem uart_write_in_order:
  assumes "uart_ok s" "0 \<le> sint count"
    "altera_avalon_jtag_uart_write B (uart_point B irqp tick) start count flags s = Some (r, s')"
  shows "\<exists>n es snt. trace s' = trace s @ es \<and> bytes s' = bytes s \<and> int n \<le> sint count \<and>
     writes_to (sp_base (sp s)) es = map scast snt \<and>
     ring_view (tx_ring s) @ read_bytes (bytes s) start n = snt @ ring_view (tx_ring s') \<and>
     ring_view (rx_ring s) @ rx_bytes (sp_base (sp s)) es = ring_view (rx_ring s') \<and>
     r = (if n \<noteq> 0 then int n else if flags AND O_NONBLOCK \<noteq> 0 then - EWOULDBLOCK else - EIO)"
  using wlpD [OF assms(3) handlers.write_result(1) [OF assms(1,2)]]
  unfolding accepted_def flow_def flow_by_def append_Nil append_Nil2
  by (elim exE conjE) (intro exI conjI; assumption)

text \<open>
  C24. The non-blocking calls return whenever the interrupts taken during them return, and with
  the guarantees of the blocking ones; in particular no index ever leaves its array.
\<close>

theorem uart_nonblocking_returns:
  assumes "uart_ok s" "0 \<le> sint count" "flags AND O_NONBLOCK \<noteq> 0"
    and "\<And>s. uart_ok s \<Longrightarrow> \<exists>s'. J s = Some ((), s') \<and> by_isr s s'"
  shows "(\<exists>r s'. altera_avalon_jtag_uart_read B J buffer space flags s = Some (r, s') \<and> gave s buffer space flags r s') \<and>
     (\<exists>r s'. altera_avalon_jtag_uart_write B J buffer count flags s = Some (r, s') \<and> accepted s buffer count flags r s')"
proof -
  have "uart_interrupts True J" by unfold_locales (use assms(4) in \<open>simp add: ends_wp wp_iff\<close>)
  from uart_interrupts.read_result(2) [OF this assms(1,3), of B buffer space]
    uart_interrupts.write_result(2) [OF this assms(1,2,3), of B buffer]
  show ?thesis by (simp add: ends_wp wp_iff)
qed

lemma idle_skip: "uart_point idle_bus (\<lambda>_. False) (\<lambda>_. False) = (\<lambda>s :: unit uart_st. Some ((), s))"
  by (simp add: fun_eq_iff uart_point_def)

theorem uart_nonblocking_returns_witness:
  "\<exists>r s'. altera_avalon_jtag_uart_read idle_bus (uart_point idle_bus (\<lambda>_. False) (\<lambda>_. False)) 0x100 4 0x4000 (demo_uart [] ()) = Some (r, s') \<and>
     gave (demo_uart [] ()) 0x100 4 0x4000 r s'"
proof -
  let ?s = "demo_uart [] ()"
  have "uart_ok ?s" by (rule uart_instance_ok) simp
  from uart_nonblocking_returns [OF this, of 4 "0x4000" "\<lambda>s. Some ((), s)" idle_bus "0x100" 4]
  show ?thesis unfolding idle_skip by (simp add: by_isr_refl)
qed

theorem uart_write_in_order_witness:
  "\<exists>r s' n. altera_avalon_jtag_uart_write idle_bus (uart_point idle_bus (\<lambda>_. False) (\<lambda>_. False)) 0x100 2 0x4000 (demo_uart [0x48, 0x69] ()) = Some (r, s') \<and>
     int n \<le> 2 \<and> r = (if n \<noteq> 0 then int n else - 11)"
proof -
  let ?s = "demo_uart [0x48, 0x69] ()"
  have ok: "uart_ok ?s" by (rule uart_instance_ok) simp
  obtain r s' where w: "altera_avalon_jtag_uart_write idle_bus (uart_point idle_bus (\<lambda>_. False) (\<lambda>_. False)) 0x100 2 0x4000 ?s = Some (r, s')"
    using quiet.write_result(2) [OF ok, of 2 "0x4000" idle_bus "0x100"] unfolding idle_skip by (auto simp: ends_wp wp_iff)
  from uart_write_in_order [OF ok _ w] have "\<exists>n. int n \<le> 2 \<and> r = (if n \<noteq> 0 then int n else - 11)" by auto
  with w show ?thesis by blast
qed

section \<open>Reachable states\<close>

text \<open>
  A run of a program from a state: calls of the driver with the driver's interrupts inside,
  interrupts between calls, and anything else, which leaves the driver's state and the device
  alone.  The labels are what the program has passed to \<open>write\<close> and got from \<open>read\<close>, as far as
  the results say (a negative result counts no byte).
\<close>

inductive uart_run :: "'h bus \<Rightarrow> ('h \<Rightarrow> bool) \<Rightarrow> ('h \<Rightarrow> bool) \<Rightarrow> ('h, 'x) uart_st_scheme \<Rightarrow> u8 list \<Rightarrow> u8 list
    \<Rightarrow> ('h, 'x) uart_st_scheme \<Rightarrow> bool"
  for B irqp tick s0 where
  start: "uart_run B irqp tick s0 [] [] s0"
| interrupt: "uart_run B irqp tick s0 acc del s \<Longrightarrow> uart_point B irqp tick s = Some ((), s') \<Longrightarrow>
    uart_run B irqp tick s0 acc del s'"
| init: "uart_run B irqp tick s0 acc del s \<Longrightarrow>
    altera_avalon_jtag_uart_init B al isr callback context alarm ic irq s = Some ((), s') \<Longrightarrow>
    uart_run B irqp tick s0 acc del s'"
| rd: "uart_run B irqp tick s0 acc del s \<Longrightarrow>
    altera_avalon_jtag_uart_read B (uart_point B irqp tick) buffer space flags s = Some (r, s') \<Longrightarrow>
    uart_run B irqp tick s0 acc (del @ read_bytes (bytes s') buffer (nat r)) s'"
| wr: "uart_run B irqp tick s0 acc del s \<Longrightarrow> 0 \<le> sint count \<Longrightarrow>
    altera_avalon_jtag_uart_write B (uart_point B irqp tick) buffer count flags s = Some (r, s') \<Longrightarrow>
    uart_run B irqp tick s0 (acc @ read_bytes (bytes s) buffer (nat r)) del s'"
| close: "uart_run B irqp tick s0 acc del s \<Longrightarrow>
    altera_avalon_jtag_uart_close (uart_point B irqp tick) flags s = Some (r, s') \<Longrightarrow>
    uart_run B irqp tick s0 acc del s'"
| ioctl: "uart_run B irqp tick s0 acc del s \<Longrightarrow> altera_avalon_jtag_uart_ioctl req arg s = Some (r, s') \<Longrightarrow>
    uart_run B irqp tick s0 acc del s'"
| other: "uart_run B irqp tick s0 acc del s \<Longrightarrow> sp s' = sp s \<Longrightarrow> trace s' = trace s \<Longrightarrow>
    uart_run B irqp tick s0 acc del s'"

lemma by_isr_flow: "by_isr s s' \<Longrightarrow> flow s [] [] s'"
  by (simp add: by_isr_def)

lemma flow_quiet:
  "uart_ok s \<Longrightarrow> rx_ring s' = rx_ring s \<Longrightarrow> tx_ring s' = tx_ring s \<Longrightarrow> sp_base (sp s') = sp_base (sp s) \<Longrightarrow>
     trace s' = trace s @ es \<Longrightarrow> writes_to (sp_base (sp s)) es = [] \<Longrightarrow> rx_bytes (sp_base (sp s)) es = [] \<Longrightarrow> flow s [] [] s'"
  by (auto simp: flow_def flow_by_def uart_ok_def intro!: exI [of _ es])

lemma isr_register_frame:
  "wlp (alt_ic_isr_register ic irq isr context s) (\<lambda>_ s'. trace s' = trace s \<and> sp s' = sp (s :: ('h, 'x) uart_st_scheme))"
  by (auto simp: alt_ic_isr_register_def alt_iic_isr_register_def alt_ic_irq_enable_def alt_ic_irq_disable_def
      alt_irq_enable_def alt_irq_disable_def irq_bit_def prog_defs Let_def)

lemma alarm_start_frame:
  "wlp (alt_alarm_start al alarm n callback context s) (\<lambda>_ s'. trace s' = trace s \<and> sp s' = sp (s :: ('h, 'x) uart_st_scheme))"
  by (auto simp: alt_alarm_start_def upd_alarm_def prog_defs Let_def)

lemma init_flow:
  "uart_ok s \<Longrightarrow> wlp (altera_avalon_jtag_uart_init B al isr callback context alarm ic irq s) (\<lambda>_ s'. flow s [] [] s')"
  unfolding altera_avalon_jtag_uart_init_def
  by (auto simp: Let_def intro!: wlp_mono [OF isr_register_frame] wlp_mono [OF alarm_start_frame]
      flow_quiet [where es = "[Wr (sp_base (sp s) + 4) 1]"])

lemma gave_read_back: "gave s buffer space flags r s' \<Longrightarrow> flow s [] (read_bytes (bytes s') buffer (nat r)) s'"
proof -
  assume "gave s buffer space flags r s'"
  then obtain d where d: "flow s [] d s'" "bytes s' = write_bytes (bytes s) buffer d" "int (length d) \<le> max 0 (sint space)"
      "nat r = length d"
    by (auto simp: gave_def split: if_splits)
  have "sint space < 2 ^ 31" using sint_lt [of space] by simp
  with d(3) have "length d \<le> 2 ^ 31" by simp
  with d show ?thesis by (simp add: read_write_bytes)
qed

lemma accepted_flow: "accepted s start count flags r s' \<Longrightarrow> flow s (read_bytes (bytes s) start (nat r)) [] s'"
  by (auto simp: accepted_def split: if_splits)

lemma flow_then: "flow s0 a d s \<Longrightarrow> flow s [] [] s' \<Longrightarrow> flow s0 a d s'"
  using flow_trans [of s0 a d s "[]" "[]" s'] by simp

lemma uart_run_flow:
  assumes "uart_run B irqp tick s acc del s'" "uart_ok s"
  shows "flow s acc del s'"
  using assms(1)
proof induction
  case start
  show ?case by (rule flow_refl [OF assms(2)])
next
  case (interrupt acc del s s')
  show ?case
    by (rule flow_then [OF interrupt.IH by_isr_flow [OF wlpD [OF interrupt.hyps(2) uart_point_flow [OF flow_ok [OF interrupt.IH]]]]])
next
  case (init acc del s al isr callback ctx alarm ic irq s')
  show ?case by (rule flow_then [OF init.IH wlpD [OF init.hyps(2) init_flow [OF flow_ok [OF init.IH]]]])
next
  case (rd acc del s buffer space flags r s')
  from flow_trans [OF rd.IH gave_read_back [OF wlpD [OF rd.hyps(2) handlers.read_result(1) [OF flow_ok [OF rd.IH]]]]]
  show ?case by simp
next
  case (wr acc del s count buffer flags r s')
  from flow_trans [OF wr.IH accepted_flow [OF wlpD [OF wr.hyps(3) handlers.write_result(1) [OF flow_ok [OF wr.IH] wr.hyps(2)]]]]
  show ?case by simp
next
  case (close acc del s flags r s')
  show ?case
    by (rule flow_then [OF close.IH by_isr_flow [OF wlpD [OF close.hyps(2) handlers.close_flow [OF by_isr_refl [OF flow_ok [OF close.IH]]]]]])
next
  case (ioctl acc del s req arg r s')
  then have "rx_ring s' = rx_ring s \<and> tx_ring s' = tx_ring s \<and> sp_base (sp s') = sp_base (sp s) \<and> trace s' = trace s"
    by (auto simp: altera_avalon_jtag_uart_ioctl_def Let_def split: if_splits)
  then show ?case by (intro flow_then [OF ioctl.IH] flow_quiet [OF flow_ok [OF ioctl.IH], of s' "[]"]) simp_all
next
  case (other acc del s s')
  then show ?case by (intro flow_then [OF other.IH] flow_quiet [OF flow_ok [OF other.IH], of s' "[]"]) simp_all
qed

text \<open>
  C40. The driver's state keeps its type: from any state in which the four indices lie below 2048
  and both arrays have 2048 bytes, any calls in any order under any interrupts lead only to
  such states.
\<close>

theorem uart_state_well_typed:
  assumes "uart_run B irqp tick s acc del s'"
    and "rx_in (sp s) < 2048" "rx_out (sp s) < 2048" "tx_in (sp s) < 2048" "tx_out (sp s) < 2048"
      "length (rx_buf (sp s)) = 2048" "length (tx_buf (sp s)) = 2048"
  shows "rx_in (sp s') < 2048 \<and> rx_out (sp s') < 2048 \<and> tx_in (sp s') < 2048 \<and> tx_out (sp s') < 2048 \<and>
     length (rx_buf (sp s')) = 2048 \<and> length (tx_buf (sp s')) = 2048"
proof -
  have "uart_ok s" using assms(2-) by (simp add: uart_ok_def ring_ok_def)
  from flow_ok [OF uart_run_flow [OF assms(1) this]] show ?thesis by (simp add: uart_ok_def ring_ok_def)
qed

theorem uart_state_well_typed_witness:
  "\<exists>acc s'. uart_run idle_bus (\<lambda>_. False) (\<lambda>_. True) (demo_uart [0x48] ()) acc [] s' \<and> host_inactive (sp s') = 1 \<and> rx_in (sp s') < 2048"
proof -
  let ?s = "demo_uart [0x48] ()"
  obtain s' where p: "uart_point idle_bus (\<lambda>_. False) (\<lambda>_. True) ?s = Some ((), s')" "host_inactive (sp s') = 1"
    by (simp add: uart_point_def altera_avalon_jtag_uart_timeout_def uart_instance_def idle_bus_def)
  have run: "uart_run idle_bus (\<lambda>_. False) (\<lambda>_. True) ?s [] [] s'"
    by (rule uart_run.interrupt [OF uart_run.start p(1)])
  from uart_state_well_typed [OF run] run p(2) show ?thesis by (auto simp: uart_instance_def)
qed

text \<open>
  C1. From the device instance, after any calls in any order under any interrupts, the streams
  are conserved: the bytes ever passed to \<open>write\<close> and accepted are, in order, those given to the
  device and then those queued; the bytes the device ever delivered are, in order, those that
  \<open>read\<close> stored for the program and then those queued.
\<close>

theorem uart_streams_conserved:
  assumes "uart_run B irqp tick s acc del s'" and "sp s = uart_instance base"
  shows "\<exists>es snt. trace s' = trace s @ es \<and>
     writes_to base es = map scast snt \<and> acc = snt @ ring_view (tx_ring s') \<and>
     rx_bytes base es = del @ ring_view (rx_ring s')"
proof -
  have "flow s acc del s'" by (rule uart_run_flow [OF assms(1) uart_instance_ok [OF assms(2)]])
  moreover have "ring_view (tx_ring s) = []" "ring_view (rx_ring s) = []" "sp_base (sp s) = base"
    by (simp_all add: assms(2) uart_instance_def uart_instance_empty)
  ultimately show ?thesis unfolding flow_def flow_by_def by force
qed

theorem uart_streams_conserved_witness:
  "\<exists>n s' snt. uart_run idle_bus (\<lambda>_. False) (\<lambda>_. False) (demo_uart [0x48, 0x69] ())
       (read_bytes (write_bytes (\<lambda>_. 0) 0x100 [0x48, 0x69]) 0x100 n) [] s' \<and>
     read_bytes (write_bytes (\<lambda>_. 0) 0x100 [0x48, 0x69]) 0x100 n = snt @ ring_view (tx_ring s')"
proof -
  let ?s = "demo_uart [0x48, 0x69] ()"
  have ok: "uart_ok ?s" by (rule uart_instance_ok) simp
  obtain r s' where w: "altera_avalon_jtag_uart_write idle_bus (uart_point idle_bus (\<lambda>_. False) (\<lambda>_. False)) 0x100 2 0x4000 ?s = Some (r, s')"
    using quiet.write_result(2) [OF ok, of 2 "0x4000" idle_bus "0x100"] unfolding idle_skip by (auto simp: ends_wp wp_iff)
  have run: "uart_run idle_bus (\<lambda>_. False) (\<lambda>_. False) ?s ([] @ read_bytes (bytes ?s) 0x100 (nat r)) [] s'"
    by (rule uart_run.wr [OF uart_run.start _ w]) simp
  from uart_streams_conserved [OF run] run show ?thesis unfolding append_Nil demo_uart_sel by blast
qed

end
