(* ===== verification/JTAG_Small_Claims.thy ===== *)
theory JTAG_Small_Claims
  imports JTAG_Claims
begin

text \<open>
  The polled JTAG UART driver, which is the one this build selects (\<open>-DALT_USE_SMALL_DRIVERS\<close>):
  what it writes and reads, when it returns, and that it refuses reads of no bytes.
\<close>

section \<open>Writing\<close>

text \<open>Every write to the data register directly follows a control read that reported space.\<close>

fun paced :: "u32 \<Rightarrow> bool \<Rightarrow> io_event list \<Rightarrow> bool" where
  "paced base ready [] = True"
| "paced base ready (Rd a v # es) = paced base (a = base + 4 \<and> v AND WSPACE_MSK \<noteq> 0) es"
| "paced base ready (Wr a d # es) = ((a = base \<longrightarrow> ready) \<and> paced base False es)"
| "paced base ready (Delay u # es) = paced base ready es"

text \<open>The host drains the device: space appears after finitely many polls.\<close>

definition drains :: "'h bus \<Rightarrow> u32 \<Rightarrow> ('h \<Rightarrow> nat) \<Rightarrow> bool" where
  "drains B base busy \<longleftrightarrow> (\<forall>h. fst (bus_rd B (base + 4) h) AND WSPACE_MSK \<noteq> 0 \<or> busy (snd (bus_rd B (base + 4) h)) < busy h)"

definition sent_by :: "u32 \<Rightarrow> u8 list \<Rightarrow> ('h, 'x) hal_scheme \<Rightarrow> ('h, 'x) hal_scheme \<Rightarrow> bool" where
  "sent_by base xs s s' \<longleftrightarrow> (\<exists>es. trace s' = trace s @ es \<and> writes_to base es = map scast xs \<and> paced base False es \<and> bytes s' = bytes s)"

lemma sent_by_refl: "sent_by base [] s s"
  by (auto simp: sent_by_def)

lemma sent_by_poll:
  assumes "sent_by base xs (s\<lparr>hw := h, trace := trace s @ [Rd (base + 4) v]\<rparr>) s'" "v AND WSPACE_MSK = 0"
  shows "sent_by base xs s s'"
  using assms unfolding sent_by_def
  by (elim exE conjE, intro exI [of _ "Rd (base + 4) v # _"]) auto

lemma sent_by_char:
  assumes "sent_by base xs (s\<lparr>hw := h, trace := trace s @ [Rd (base + 4) v, Wr base (scast x)]\<rparr>) s'" "v AND WSPACE_MSK \<noteq> 0"
  shows "sent_by base (x # xs) s s'"
  using assms unfolding sent_by_def
  by (elim exE conjE, intro exI [of _ "Rd (base + 4) v # Wr base (scast x) # _"]) auto

lemma small_write_loop_sends:
  fixes s :: "('h, 'x) hal_scheme"
  assumes d: "drains B base busy"
  shows "unat p + n = unat limit \<Longrightarrow> \<exists>s'. small_write_loop B base limit p s = Some ((), s') \<and> sent_by base (read_bytes (bytes s) p n) s s'"
proof (induction n arbitrary: p s)
  case 0
  then have "\<not> p < limit" by (simp add: word_less_nat_alt)
  then show ?case by (subst small_write_loop.simps) (simp add: sent_by_refl)
next
  case (Suc n)
  then have lt: "p < limit" by (simp add: word_less_nat_alt)
  show ?case
  proof (induction "busy (hw s)" arbitrary: s rule: less_induct)
    case less
    define v where "v = fst (bus_rd B (base + 4) (hw s))"
    define s1 where "s1 = s\<lparr>hw := snd (bus_rd B (base + 4) (hw s)), trace := trace s @ [Rd (base + 4) v]\<rparr>"
    have u: "small_write_loop B base limit p s = (if v AND WSPACE_MSK \<noteq> 0 then do {
        (_, s) \<leftarrow> IOWR B base 0 (scast (bytes s1 p)) s1; small_write_loop B base limit (p + 1) s } else small_write_loop B base limit p s1)"
      using lt by (subst small_write_loop.simps) (simp add: s1_def v_def)
    show ?case
    proof (cases "v AND WSPACE_MSK = 0")
      case True
      then have "busy (hw s1) < busy (hw s)" using d by (auto simp: drains_def s1_def v_def)
      from less [OF this] obtain s' where s': "small_write_loop B base limit p s1 = Some ((), s')"
        "sent_by base (read_bytes (bytes s1) p (Suc n)) s1 s'" by blast
      have "sent_by base (read_bytes (bytes s) p (Suc n)) s s'"
        by (rule sent_by_poll [OF _ True]) (use s'(2) in \<open>simp add: s1_def\<close>)
      then show ?thesis using True s'(1) by (simp add: u)
    next
      case False
      define s2 where "s2 = s\<lparr>hw := bus_wr B base (scast (bytes s p)) (snd (bus_rd B (base + 4) (hw s))),
         trace := trace s @ [Rd (base + 4) v, Wr base (scast (bytes s p))]\<rparr>"
      have "unat (p + 1) + n = unat limit" using Suc.prems lt by (simp add: unat_plus_one_less)
      from Suc.IH [OF this, of s2] obtain s' where s': "small_write_loop B base limit (p + 1) s2 = Some ((), s')"
        "sent_by base (read_bytes (bytes s2) (p + 1) n) s2 s'" by blast
      have "sent_by base (read_bytes (bytes s) p (Suc n)) s s'"
        using sent_by_char [OF s'(2) [unfolded s2_def] False] by simp
      then show ?thesis using False s'(1) by (simp add: u s1_def s2_def)
    qed
  qed
qed

text \<open>
  On a line that the host drains, the polled \<open>write\<close> returns its count having sent exactly
  the bytes of the buffer, in order (each as a sign-extended word), and each of them directly
  after a poll that saw space, so none is dropped by a full device.
\<close>

theorem small_write_sends_buffer:
  assumes "drains B base busy" and "unat ptr + unat count < 2 ^ 32"
  shows "\<exists>s' es. small_uart_write B base ptr count flags s = Some (sint count, s') \<and> trace s' = trace s @ es \<and>
     writes_to base es = map scast (read_bytes (bytes s) ptr (unat count)) \<and> paced base False es \<and> bytes s' = bytes s"
proof -
  have "unat ptr + unat count = unat (ptr + count)" using assms(2) by (simp add: unat_word_ariths)
  from small_write_loop_sends [OF assms(1) this, of s] show ?thesis
    unfolding small_uart_write_def sent_by_def by auto
qed

text \<open>A host that makes room at every third poll.\<close>

definition slow_host :: "nat bus" where
  "slow_host = \<lparr>bus_rd = (\<lambda>a h. (if h = 0 then 0x00010000 else 0, h - 1)), bus_wr = (\<lambda>a d h. 2), bus_delay = (\<lambda>us h. h)\<rparr>"

theorem small_write_sends_buffer_witness:
  "\<exists>s' es. small_uart_write slow_host 0x20000 0x100 2 0 (demo_uart [0x48, 0xC3] 2) = Some (2, s') \<and>
     trace s' = es \<and> writes_to 0x20000 es = [0x48, - 61]"
proof -
  have d: "drains slow_host 0x20000 (\<lambda>h. h)" by (auto simp: drains_def slow_host_def)
  have "read_bytes (write_bytes (\<lambda>_. 0) 0x100 [0x48, 0xC3]) 0x100 (unat (2 :: u32)) = [0x48, 0xC3]"
  proof -
    have "unat (2 :: u32) = length [0x48 :: u8, 0xC3]" by simp
    then show ?thesis by (simp only: read_write_bytes) simp
  qed
  moreover have "(scast (0x48 :: u8) :: u32) = 0x48" "(scast (0xC3 :: u8) :: u32) = - 61" by simp_all
  ultimately show ?thesis
    using small_write_sends_buffer [OF d, of "0x100" 2 0 "demo_uart [0x48, 0xC3] 2"] by auto
qed

section \<open>Reading\<close>

text \<open>The host sends: a character appears after finitely many polls.\<close>

definition talks :: "'h bus \<Rightarrow> u32 \<Rightarrow> ('h \<Rightarrow> nat) \<Rightarrow> bool" where
  "talks B base busy \<longleftrightarrow> (\<forall>h. fst (bus_rd B base h) AND RVALID_MSK \<noteq> 0 \<or> busy (snd (bus_rd B base h)) < busy h)"

definition read_by :: "u32 \<Rightarrow> u32 \<Rightarrow> u8 list \<Rightarrow> ('h, 'x) hal_scheme \<Rightarrow> ('h, 'x) hal_scheme \<Rightarrow> bool" where
  "read_by base p d s s' \<longleftrightarrow> (\<exists>es. trace s' = trace s @ es \<and> rx_bytes base es = d \<and> bus_writes es = []) \<and>
     bytes s' = write_bytes (bytes s) p d"

lemma read_by_refl: "read_by base p [] s s"
  by (auto simp: read_by_def)

lemma read_by_poll:
  assumes "read_by base p d (s\<lparr>hw := h, trace := trace s @ [Rd base v]\<rparr>) s'" "v AND RVALID_MSK = 0"
  shows "read_by base p d s s'"
proof -
  obtain es where "trace s' = trace s @ [Rd base v] @ es" "rx_bytes base es = d" "bus_writes es = []"
    using assms(1) by (auto simp: read_by_def)
  with assms show ?thesis unfolding read_by_def by (intro conjI exI [of _ "[Rd base v] @ es"]) auto
qed

lemma read_by_char:
  assumes "read_by base (p + 1) d (s\<lparr>hw := h, trace := trace s @ [Rd base v], bytes := (bytes s)(p := ucast (v AND DATA_MSK))\<rparr>) s'"
    and "v AND RVALID_MSK \<noteq> 0"
  shows "read_by base p (ucast (v AND DATA_MSK) # d) s s'"
proof -
  obtain es where "trace s' = trace s @ [Rd base v] @ es" "rx_bytes base es = d" "bus_writes es = []"
    using assms(1) by (auto simp: read_by_def)
  with assms show ?thesis unfolding read_by_def by (intro conjI exI [of _ "[Rd base v] @ es"]) auto
qed

text \<open>One pass of the loop.\<close>

lemma small_read_loop_step:
  assumes "p < limit" and "v = fst (bus_rd B base (hw s))" and "h = snd (bus_rd B base (hw s))"
  shows "small_read_loop B base buffer limit flags p s =
     (if v AND RVALID_MSK \<noteq> 0 then small_read_loop B base buffer limit flags (p + 1)
          (s\<lparr>hw := h, trace := trace s @ [Rd base v], bytes := (bytes s)(p := ucast (v AND DATA_MSK))\<rparr>)
      else if p \<noteq> buffer \<or> flags AND O_NONBLOCK \<noteq> 0 then Some (p, s\<lparr>hw := h, trace := trace s @ [Rd base v]\<rparr>)
      else small_read_loop B base buffer limit flags p (s\<lparr>hw := h, trace := trace s @ [Rd base v]\<rparr>))"
  using assms by (subst small_read_loop.simps) simp

lemma read_by_end: "v AND RVALID_MSK = 0 \<Longrightarrow> read_by base p [] s (s\<lparr>hw := h, trace := trace s @ [Rd base v]\<rparr>)"
  by (rule read_by_poll [OF read_by_refl])

text \<open>After the first character, or when told not to wait, the loop takes what is there.\<close>

lemma small_read_loop_takes:
  fixes s :: "('h, 'x) hal_scheme"
  shows "unat p + n = unat limit \<Longrightarrow> unat buffer < unat p \<or> flags AND O_NONBLOCK \<noteq> 0 \<Longrightarrow>
    \<exists>s' d. small_read_loop B base buffer limit flags p s = Some (p + of_nat (length d), s') \<and> read_by base p d s s' \<and> length d \<le> n"
proof (induction n arbitrary: p s)
  case 0
  then have "\<not> p < limit" by (simp add: word_less_nat_alt)
  then show ?case by (subst small_read_loop.simps) (auto intro!: exI [of _ s] exI [of _ "[]"] read_by_refl)
next
  case (Suc n)
  then have lt: "p < limit" by (simp add: word_less_nat_alt)
  define v where "v = fst (bus_rd B base (hw s))"
  define h where "h = snd (bus_rd B base (hw s))"
  note step = small_read_loop_step [OF lt v_def h_def]
  show ?case
  proof (cases "v AND RVALID_MSK = 0")
    case True
    have "p \<noteq> buffer \<or> flags AND O_NONBLOCK \<noteq> 0" using Suc.prems(2) by auto
    with True read_by_end [OF True, of base p s h] show ?thesis
      by (intro exI [of _ "s\<lparr>hw := h, trace := trace s @ [Rd base v]\<rparr>"] exI [of _ "[]"]) (simp add: step)
  next
    case False
    have e: "unat (p + 1) + n = unat limit" "unat buffer < unat (p + 1) \<or> flags AND O_NONBLOCK \<noteq> 0"
      using Suc.prems lt by (auto simp: unat_plus_one_less)
    from Suc.IH [OF e, of "s\<lparr>hw := h, trace := trace s @ [Rd base v], bytes := (bytes s)(p := ucast (v AND DATA_MSK))\<rparr>"]
    obtain s' d where s': "small_read_loop B base buffer limit flags (p + 1)
         (s\<lparr>hw := h, trace := trace s @ [Rd base v], bytes := (bytes s)(p := ucast (v AND DATA_MSK))\<rparr>) = Some (p + 1 + of_nat (length d), s')"
      "read_by base (p + 1) d (s\<lparr>hw := h, trace := trace s @ [Rd base v], bytes := (bytes s)(p := ucast (v AND DATA_MSK))\<rparr>) s'"
      "length d \<le> n" by blast
    from s'(1,3) read_by_char [OF s'(2) False] False show ?thesis
      by (intro exI [of _ s'] exI [of _ "ucast (v AND DATA_MSK) # d"]) (simp add: step add.assoc)
  qed
qed

text \<open>A blocking read first waits.\<close>

lemma small_read_loop_waits:
  fixes s :: "('h, 'x) hal_scheme"
  assumes t: "talks B base busy" and n: "unat buffer + Suc n = unat limit"
  shows "\<exists>s' d. small_read_loop B base buffer limit flags buffer s = Some (buffer + of_nat (length d), s') \<and>
     read_by base buffer d s s' \<and> length d \<le> Suc n \<and> (flags AND O_NONBLOCK = 0 \<longrightarrow> d \<noteq> [])"
proof (cases "flags AND O_NONBLOCK = 0")
  case False
  then show ?thesis using small_read_loop_takes [OF n, of buffer flags B base s] by auto
next
  case nb: True
  have lt: "buffer < limit" using n by (simp add: word_less_nat_alt)
  show ?thesis
  proof (induction "busy (hw s)" arbitrary: s rule: less_induct)
    case less
    define v where "v = fst (bus_rd B base (hw s))"
    define h where "h = snd (bus_rd B base (hw s))"
    note step = small_read_loop_step [OF lt v_def h_def]
    show ?case
    proof (cases "v AND RVALID_MSK = 0")
      case True
      then have "busy h < busy (hw s)" using t by (auto simp: talks_def v_def h_def)
      from less [of "s\<lparr>hw := h, trace := trace s @ [Rd base v]\<rparr>"] this obtain s' d where
        "small_read_loop B base buffer limit flags buffer (s\<lparr>hw := h, trace := trace s @ [Rd base v]\<rparr>) = Some (buffer + of_nat (length d), s')"
        "read_by base buffer d (s\<lparr>hw := h, trace := trace s @ [Rd base v]\<rparr>) s'" "length d \<le> Suc n" "d \<noteq> []" using nb by auto
      then show ?thesis using True nb read_by_poll [OF _ True]
        by (intro exI [of _ s'] exI [of _ d]) (simp add: step)
    next
      case False
      have e: "unat (buffer + 1) + n = unat limit" "unat buffer < unat (buffer + 1)"
        using n lt by (auto simp: unat_plus_one_less)
      from small_read_loop_takes [OF e(1), of buffer flags B base
          "s\<lparr>hw := h, trace := trace s @ [Rd base v], bytes := (bytes s)(buffer := ucast (v AND DATA_MSK))\<rparr>"] e(2)
      obtain s' d where s': "small_read_loop B base buffer limit flags (buffer + 1)
           (s\<lparr>hw := h, trace := trace s @ [Rd base v], bytes := (bytes s)(buffer := ucast (v AND DATA_MSK))\<rparr>) = Some (buffer + 1 + of_nat (length d), s')"
        "read_by base (buffer + 1) d (s\<lparr>hw := h, trace := trace s @ [Rd base v], bytes := (bytes s)(buffer := ucast (v AND DATA_MSK))\<rparr>) s'"
        "length d \<le> n" by blast
      from s'(1,3) read_by_char [OF s'(2) False] False show ?thesis
        by (intro exI [of _ s'] exI [of _ "ucast (v AND DATA_MSK) # d"]) (simp add: step add.assoc)
    qed
  qed
qed

text \<open>
  The polled \<open>read\<close> of a positive number of bytes, from a host that sends sooner or later,
  returns with exactly the characters it took from the device stored in order, at most as many
  as fit; a blocking one returns at least one, a non-blocking one that finds none says
  \<open>-EWOULDBLOCK\<close>.
\<close>

theorem small_read_delivers:
  assumes "talks B base busy" and "0 < sint space" and "unat buffer + unat space < 2 ^ 32"
  shows "\<exists>s' es d. small_uart_read B base buffer space flags s = Some (if d = [] then - EWOULDBLOCK else int (length d), s') \<and>
     trace s' = trace s @ es \<and> rx_bytes base es = d \<and> bus_writes es = [] \<and> bytes s' = write_bytes (bytes s) buffer d \<and>
     int (length d) \<le> sint space \<and> (flags AND O_NONBLOCK = 0 \<longrightarrow> d \<noteq> [])"
proof -
  have sp: "sint space = uint space" "unat space < 2 ^ 31" using sint_nonneg [of space] assms(2) by simp_all
  have "unat space \<noteq> 0" using assms(2) by (auto simp: unat_eq_zero)
  then have n: "unat buffer + Suc (unat space - 1) = unat (buffer + space)"
    using assms(3) by (simp add: unat_word_ariths)
  from small_read_loop_waits [OF assms(1) n, of flags s] obtain s' d where
    s': "small_read_loop B base buffer (buffer + space) flags buffer s = Some (buffer + of_nat (length d), s')"
    and r: "read_by base buffer d s s'" and l: "length d \<le> unat space" and b: "flags AND O_NONBLOCK = 0 \<longrightarrow> d \<noteq> []"
    using \<open>unat space \<noteq> 0\<close> by auto
  have m: "moved_result buffer (buffer + of_nat (length d)) flags = (if d = [] then - EWOULDBLOCK else int (length d))"
    using moved_result_length [of d buffer flags] l sp(2) b by auto
  show ?thesis
    using s' r m b int_le_uint [OF l] sp(1) unfolding small_uart_read_def read_by_def by auto
qed

text \<open>A host that types one character, \<open>A\<close>, every third poll.\<close>

definition slow_typist :: "nat bus" where
  "slow_typist = \<lparr>bus_rd = (\<lambda>a h. if h = 0 then (0x8041, 2) else (0, h - 1)), bus_wr = (\<lambda>a d h. h), bus_delay = (\<lambda>us h. h)\<rparr>"

theorem small_read_delivers_witness:
  "\<exists>s' r. small_uart_read slow_typist 0x20000 0x100 8 0 (demo_uart [] 2) = Some (r, s') \<and> 0 < r \<and> r \<le> 8"
proof -
  have t: "talks slow_typist 0x20000 (\<lambda>h. h)" by (auto simp: talks_def slow_typist_def)
  show ?thesis
    using small_read_delivers [OF t, of 8 "0x100" 0 "demo_uart [] 2"] by auto
qed

section \<open>Calls for no bytes\<close>

text \<open>A blocking \<open>read\<close> of no bytes is an input/output error in both drivers, and so is a blocking
  \<open>write\<close> of no bytes in the interrupt-driven one.\<close>

lemma zero_byte_calls:
  fixes s :: "('h, 'x) uart_st_scheme" and s1 :: "('h, 'y) hal_scheme"
  shows "small_uart_read B base buffer 0 0 s1 = Some (- EIO, s1)"
    and "altera_avalon_jtag_uart_read B (\<lambda>s. Some ((), s)) buffer 0 0 s = Some (- EIO, s)"
    and "\<exists>s'. altera_avalon_jtag_uart_write B (\<lambda>s. Some ((), s)) buffer 0 0 s = Some (- EIO, s')"
proof -
  show "small_uart_read B base buffer 0 0 s1 = Some (- EIO, s1)"
    by (simp add: small_uart_read_def small_read_loop.simps moved_result_def)
  show "altera_avalon_jtag_uart_read B (\<lambda>s. Some ((), s)) buffer 0 0 s = Some (- EIO, s)"
    by (simp add: altera_avalon_jtag_uart_read_def read_loop.simps moved_result_def)
  show "\<exists>s'. altera_avalon_jtag_uart_write B (\<lambda>s. Some ((), s)) buffer 0 0 s = Some (- EIO, s')"
    by (simp add: altera_avalon_jtag_uart_write_def write_loop.simps tx_fill.simps uart_irq_on_def prog_defs moved_result_def Let_def)
qed

end
