(* ===== verification/App_MemTest.thy ===== *)
theory App_MemTest
  imports App_Common "HOL-Library.Signed_Division"
begin

text \<open>
  The memory test application (\<open>nios_software/nios_ddr3_test\<close>): \<open>TMEM_Verify\<close> of
  \<open>mem_verify.c\<close>, which fills a region with a repeating pattern of 257 words, flushes the data
  cache and reads the region back, and \<open>main.c\<close>, which runs it over the whole window of the
  address span extender.

  The memory is behind the bus, as in the video application.  \<open>memcpy\<close> stores word by word; the
  bus of the model has no byte lanes, so the bytes of a last partial word are merged into the
  word that is there.  A \<open>memcpy\<close> that would leave the array \<open>szData\<close> has no value (\<open>None\<close>).
\<close>

section \<open>The pattern\<close>

fun sz_fill :: "nat \<Rightarrow> u32 \<Rightarrow> u32 list" where
  "sz_fill 0 v = []"
| "sz_fill (Suc n) v = v # sz_fill n (v * 13)"

definition szData :: "u32 \<Rightarrow> u32 list" where
  "szData InitValue =
     (let nItemNum = 257
      in (sz_fill nItemNum InitValue)
           [nItemNum - 1 := 0xAAAAAAAA, nItemNum - 2 := 0x55555555,
            nItemNum - 3 := 0x00000000, nItemNum - 4 := 0xFFFFFFFF])"

definition szProgress :: "u32 \<Rightarrow> u32 list" where
  "szProgress ByteLen = map (\<lambda>i. ByteLen div 10 * (of_nat i + 1)) [0..<10]"

section \<open>Pieces of \<open>TMEM_Verify\<close>\<close>

definition memcpy_out ::
  "('h, 's) platform \<Rightarrow> u32 \<Rightarrow> u32 list \<Rightarrow> u32 \<Rightarrow> (unit, ('h, 'x) app_st_scheme) prog" where
  "memcpy_out P pDes src len s =
     (let k = unat len div 4; r = unat len mod 4 in
      if unat len > 4 * length src then None
      else do {
        (_, s) \<leftarrow> for_up 0 k (\<lambda>i. store_word P pDes (of_nat i) (src ! i)) s;
        (if r = 0 then Some ((), s)
         else do {
           (v, s) \<leftarrow> load_word P pDes (of_nat k) s;
           store_word P pDes (of_nat k)
             ((v AND NOT (mask (8 * r))) OR (src ! k AND mask (8 * r))) s
         })
      })"

definition show_progress :: "u32 \<Rightarrow> bool \<Rightarrow> u32 \<Rightarrow> nat \<Rightarrow> (nat, ('h, 'x) app_st_scheme) prog" where
  "show_progress ByteLen bShowMessage nPos nProgressIndex s =
     (if bShowMessage \<and> nProgressIndex \<le> 9 \<and> nPos \<ge> szProgress ByteLen ! nProgressIndex then do {
        let nProgressIndex = nProgressIndex + 1;
        (_, s) \<leftarrow> printf ''%02d%% '' [PInt (int nProgressIndex * 10)] s;
        Some (nProgressIndex, s)
      } else Some (nProgressIndex, s))"

text \<open>
  What both loops do at their head: with fewer bytes left than an access, shorten the access.
  \<open>nRemainedLen\<close>, \<open>nAccessLen\<close> and \<open>nItemNum\<close> are \<open>int\<close>, kept here as words and read signed.
\<close>

definition clip_access :: "u32 \<Rightarrow> u32 \<Rightarrow> u32 \<Rightarrow> u32 \<Rightarrow> u32 \<times> u32" where
  "clip_access ByteLen nPos nAccessLen nItemNum =
     (let nRemainedLen = ByteLen - nPos
      in if sint nAccessLen > sint nRemainedLen
         then (nRemainedLen, of_int (sint nRemainedLen sdiv 4))
         else (nAccessLen, nItemNum))"

partial_function (option) mt_write_loop ::
  "('h, 's) platform \<Rightarrow> u32 list \<Rightarrow> u32 \<Rightarrow> bool \<Rightarrow> u32 \<Rightarrow> u32 \<Rightarrow> u32 \<Rightarrow> u32 \<Rightarrow> nat
    \<Rightarrow> (unit, ('h, 'x) app_st_scheme) prog" where
  "mt_write_loop P data ByteLen bShowMessage pDes nAccessLen nItemNum nPos nProgressIndex s =
     (if nPos < ByteLen then do {
        let (nAccessLen, nItemNum) = clip_access ByteLen nPos nAccessLen nItemNum;
        (_, s) \<leftarrow> memcpy_out P pDes data nAccessLen s;
        let pDes = pDes + nItemNum * 4;
        let nPos = nPos + nAccessLen;
        (nProgressIndex, s) \<leftarrow> show_progress ByteLen bShowMessage nPos nProgressIndex s;
        mt_write_loop P data ByteLen bShowMessage pDes nAccessLen nItemNum nPos nProgressIndex s
      } else Some ((), s))"

text \<open>\<open>for (i = 0; i < nItemNum && bPass; i++)\<close>; the result is \<open>bPass\<close>, with \<open>pSrc\<close>.\<close>

function verify_items ::
  "('h, 's) platform \<Rightarrow> u32 list \<Rightarrow> bool \<Rightarrow> u32 \<Rightarrow> u32 \<Rightarrow> u32 \<Rightarrow> nat
    \<Rightarrow> (bool \<times> u32, ('h, 'x) app_st_scheme) prog" where
  "verify_items P data bShowMessage nPos nItemNum pSrc i s =
     (if int i < sint nItemNum then do {
        (v, s) \<leftarrow> load_word P pSrc 0 s;
        let pSrc = pSrc + 4;
        (if v \<noteq> data ! i then do {
           (_, s) \<leftarrow> (if bShowMessage then do {
               (v, s) \<leftarrow> load_word P (pSrc - 4) 0 s;
               printf ''verify ng,address==%08Xh, read=%08Xh, expected=%08Xh, WordIndex=%Xh''
                 [PInt (uint (pSrc - 4)), PInt (sint v), PInt (sint (data ! i)), PInt (sint nPos sdiv 4 + int i)] s
             } else Some ((), s));
           Some ((False, pSrc), s)
         } else verify_items P data bShowMessage nPos nItemNum pSrc (i + 1) s)
      } else Some ((True, pSrc), s))"
  by pat_completeness auto
termination by (relation "measure (\<lambda>(_, _, _, _, n, _, i, _). nat (sint n) - i)") auto

declare verify_items.simps [simp del]

partial_function (option) verify_loop ::
  "('h, 's) platform \<Rightarrow> u32 list \<Rightarrow> u32 \<Rightarrow> bool \<Rightarrow> bool \<Rightarrow> u32 \<Rightarrow> u32 \<Rightarrow> u32 \<Rightarrow> u32 \<Rightarrow> nat
    \<Rightarrow> (bool, ('h, 'x) app_st_scheme) prog" where
  "verify_loop P data ByteLen bShowMessage bPass pSrc nAccessLen nItemNum nPos nProgressIndex s =
     (if bPass \<and> nPos < ByteLen then do {
        let (nAccessLen, nItemNum) = clip_access ByteLen nPos nAccessLen nItemNum;
        ((bPass, pSrc), s) \<leftarrow> verify_items P data bShowMessage nPos nItemNum pSrc 0 s;
        let nPos = nPos + nAccessLen;
        (nProgressIndex, s) \<leftarrow> show_progress ByteLen bShowMessage nPos nProgressIndex s;
        verify_loop P data ByteLen bShowMessage bPass pSrc nAccessLen nItemNum nPos nProgressIndex s
      } else Some (bPass, s))"

definition say :: "bool \<Rightarrow> string \<Rightarrow> (unit, ('h, 'x) app_st_scheme) prog" where
  "say bShowMessage msg s = (if bShowMessage then printf msg [] s else Some ((), s))"

section \<open>The test and the program\<close>

definition TMEM_Verify ::
  "('h, 's) platform \<Rightarrow> u32 \<Rightarrow> u32 \<Rightarrow> u32 \<Rightarrow> bool \<Rightarrow> (bool, ('h, 'x) app_st_scheme) prog" where
  "TMEM_Verify P BaseAddr ByteLen InitValue bShowMessage s = do {
     let data = szData InitValue;
     let nAccessLen = 257 * 4;
     (_, s) \<leftarrow> say bShowMessage ''write...'' s;
     (_, s) \<leftarrow> mt_write_loop P data ByteLen bShowMessage BaseAddr nAccessLen (nAccessLen div 4) 0 0 s;
     (_, s) \<leftarrow> alt_dcache_flush_all P s;
     (_, s) \<leftarrow> say bShowMessage ''read/verify...'' s;
     (bPass, s) \<leftarrow> verify_loop P data ByteLen bShowMessage True BaseAddr nAccessLen (nAccessLen div 4) 0 0 s;
     (_, s) \<leftarrow> say bShowMessage '''' s;
     Some (bPass, s)
   }"

definition ddr3_main :: "('h, 's) platform \<Rightarrow> (int, ('h, 'x) app_st_scheme) prog" where
  "ddr3_main P s = do {
     (_, s) \<leftarrow> printf ''Hello from Nios II!'' [] s;
     (_, s) \<leftarrow> printf ''HPS DDR3 Memory test code'' [] s;
     (bPass, s) \<leftarrow> TMEM_Verify P WINDOWED_SLAVE_BASE WINDOWED_SLAVE_SPAN 0x01 True s;
     (_, s) \<leftarrow> (if bPass then printf ''HPS DDR3 test success'' [] s
                else printf ''HPS DDR3 test failed'' [] s);
     Some (0, s)
   }"

end
