(* ===== verification/App_MemTest_Props.thy ===== *)
theory App_MemTest_Props
  imports App_MemTest
begin

text \<open>
  \<open>TMEM_Verify\<close> on a memory that may be faulty.  \<open>cell_board\<close> describes it by where an address
  is stored (\<open>loc\<close>: two addresses with the same cell alias) and what comes back from a cell
  (\<open>bad\<close>: the identity for sound data lines); a write changes its cell and nothing else.
\<close>

definition cell_board :: "('h, 's) platform \<Rightarrow> ('h \<Rightarrow> bool) \<Rightarrow> u32 set \<Rightarrow> (u32 \<Rightarrow> 'c) \<Rightarrow> (u32 \<Rightarrow> u32 \<Rightarrow> u32)
    \<Rightarrow> ('h \<Rightarrow> 'c \<Rightarrow> u32) \<Rightarrow> bool" where
  "cell_board P J R loc bad cell \<longleftrightarrow>
     (\<forall>h a. J h \<longrightarrow> a \<in> R \<longrightarrow> J (snd (bus_rd (pf_bus P) a h)) \<and> cell (snd (bus_rd (pf_bus P) a h)) = cell h \<and>
        fst (bus_rd (pf_bus P) a h) = bad a (cell h (loc a))) \<and>
     (\<forall>h a d. J h \<longrightarrow> a \<in> R \<longrightarrow> J (bus_wr (pf_bus P) a d h) \<and> cell (bus_wr (pf_bus P) a d h) = (cell h)(loc a := d)) \<and>
     (\<forall>h i. J h \<longrightarrow> J (pf_flushd P i h) \<and> cell (pf_flushd P i h) = cell h)"

definition cells_at :: "('h \<Rightarrow> bool) \<Rightarrow> ('h \<Rightarrow> 'c \<Rightarrow> u32) \<Rightarrow> ('c \<Rightarrow> u32) \<Rightarrow> ('h, 'x) app_st_scheme \<Rightarrow> bool" where
  "cells_at J cell c s \<longleftrightarrow> J (hw s) \<and> cell (hw s) = c"

lemma cells_at_console [simp]: "cells_at J cell c (s\<lparr>console := x\<rparr>) = cells_at J cell c s"
  by (simp add: cells_at_def)

lemma cell_store:
  assumes "cell_board P J R loc bad cell" "cells_at J cell c s" "p + i * 4 \<in> R"
  shows "wp (store_word P p i v s) (\<lambda>_. cells_at J cell (c(loc (p + i * 4) := v)))"
  using assms by (simp add: cell_board_def cells_at_def store_word_def)

lemma cell_load:
  assumes "cell_board P J R loc bad cell" "cells_at J cell c s" "p + i * 4 \<in> R"
  shows "wp (load_word P p i s) (\<lambda>r s'. r = bad (p + i * 4) (c (loc (p + i * 4))) \<and> cells_at J cell c s')"
  using assms by (simp add: cell_board_def cells_at_def load_word_def)

lemma cell_flush:
  assumes b: "cell_board P J R loc bad cell" and m: "cells_at J cell c s"
  shows "wp (alt_dcache_flush_all P s) (\<lambda>_. cells_at J cell c)"
  using flush_lines_keeps [of "\<lambda>h. J h \<and> cell h = c" s P 0] m b
  by (auto simp: cells_at_def alt_dcache_flush_all_def cell_board_def)

lemma cell_say: "cells_at J cell c s \<Longrightarrow> wp (say show msg s) (\<lambda>_. cells_at J cell c)"
  by (simp add: say_def)

lemma cell_progress: "cells_at J cell c s \<Longrightarrow> wp (show_progress n show pos idx s) (\<lambda>_. cells_at J cell c)"
  by (simp add: show_progress_def)

section \<open>What the writes leave\<close>

definition word_at :: "u32 \<Rightarrow> nat \<Rightarrow> u32" where
  "word_at b k = b + of_nat k * 4"

lemma word_at_0 [simp]: "word_at b 0 = b"
  by (simp add: word_at_def)

lemma word_at_add: "word_at b p + of_nat i * 4 = word_at b (p + i)"
  by (simp add: word_at_def algebra_simps)

lemma word_at_Suc: "word_at b p + 4 = word_at b (Suc p)"
  by (simp add: word_at_def algebra_simps)

lemma word_at_pred: "word_at b (Suc p) - 4 = word_at b p"
  by (simp add: word_at_def algebra_simps)

fun written :: "(u32 \<Rightarrow> 'c) \<Rightarrow> u32 \<Rightarrow> (nat \<Rightarrow> u32) \<Rightarrow> nat \<Rightarrow> ('c \<Rightarrow> u32) \<Rightarrow> 'c \<Rightarrow> u32" where
  "written loc b v 0 c = c"
| "written loc b v (Suc k) c = (written loc b v k c)(loc (word_at b k) := v k)"

definition last_alias :: "(u32 \<Rightarrow> 'c) \<Rightarrow> u32 \<Rightarrow> nat \<Rightarrow> nat \<Rightarrow> nat" where
  "last_alias loc b n k = Max {j. j < n \<and> loc (word_at b j) = loc (word_at b k)}"

lemma last_alias_Suc:
  assumes "k \<le> n"
  shows "last_alias loc b (Suc n) k = (if loc (word_at b n) = loc (word_at b k) then n else last_alias loc b n k)"
proof (cases "loc (word_at b n) = loc (word_at b k)")
  case True
  have "last_alias loc b (Suc n) k = n"
    unfolding last_alias_def by (rule Max_eqI) (use True in auto)
  with True show ?thesis by simp
next
  case False
  then have "{j. j < Suc n \<and> loc (word_at b j) = loc (word_at b k)} = {j. j < n \<and> loc (word_at b j) = loc (word_at b k)}"
    by (auto simp: less_Suc_eq)
  with False show ?thesis by (simp add: last_alias_def)
qed

lemma written_last: "k < n \<Longrightarrow> written loc b v n c (loc (word_at b k)) = v (last_alias loc b n k)"
proof (induction n)
  case (Suc n)
  show ?case
  proof (cases "loc (word_at b n) = loc (word_at b k)")
    case True
    with Suc.prems show ?thesis by (simp add: last_alias_Suc)
  next
    case False
    with Suc.prems have "k < n" by (metis less_SucE)
    with False Suc show ?thesis by (simp add: last_alias_Suc)
  qed
qed simp

lemma last_alias_inj:
  assumes "inj_on loc (words_at b n)" "unat b + 4 * n \<le> 2 ^ 32" "k < n"
  shows "last_alias loc b n k = k"
proof -
  have "j = k" if j: "j < n" "loc (word_at b j) = loc (word_at b k)" for j
  proof -
    have "word_at b j = word_at b k"
      using inj_onD [OF assms(1) j(2)] j(1) assms(3) by (auto simp: word_at_def intro: words_atI)
    then show ?thesis
      using words_at_inj [OF assms(2) j(1) assms(3)] by (simp add: word_at_def)
  qed
  then have "{j. j < n \<and> loc (word_at b j) = loc (word_at b k)} = {k}" using assms(3) by auto
  then show ?thesis by (simp add: last_alias_def)
qed

lemma last_alias_ge: "k < n \<Longrightarrow> j < n \<Longrightarrow> loc (word_at b j) = loc (word_at b k) \<Longrightarrow> j \<le> last_alias loc b n k"
  unfolding last_alias_def by (rule Max_ge) auto

lemma last_alias_mem:
  assumes "k < n"
  shows "last_alias loc b n k < n \<and> loc (word_at b (last_alias loc b n k)) = loc (word_at b k)"
proof -
  have "last_alias loc b n k \<in> {j. j < n \<and> loc (word_at b j) = loc (word_at b k)}"
    unfolding last_alias_def by (rule Max_in) (use assms in auto)
  then show ?thesis by simp
qed

section \<open>The pattern and the length of an access\<close>

lemma length_sz_fill [simp]: "length (sz_fill n v) = n"
  by (induction n arbitrary: v) simp_all

lemma length_szData [simp]: "length (szData v) = 257"
  by (simp add: szData_def Let_def)

definition pattern :: "u32 \<Rightarrow> nat \<Rightarrow> u32" where
  "pattern v k = szData v ! (k mod 257)"

lemma pattern_chunk: "i < 257 \<Longrightarrow> pattern v (257 * q + i) = szData v ! i"
  by (simp add: pattern_def)

lemma clip_access_eq:
  assumes "p < n" "4 * n < 2 ^ 31"
  shows "clip_access (of_nat (4 * n)) (of_nat (4 * p)) 1028 257 =
     (of_nat (4 * min 257 (n - p)), of_nat (min 257 (n - p)))"
proof -
  have e: "of_nat (4 * n) - of_nat (4 * p) = (of_nat (4 * (n - p)) :: u32)"
    using assms(1) by (simp add: of_nat_diff right_diff_distrib)
  have s: "sint (of_nat (4 * (n - p)) :: u32) = int (4 * (n - p))"
    using assms by (intro sint_of_nat_31) linarith
  have d: "(of_int (int (4 * (n - p)) sdiv 4) :: u32) = of_nat (n - p)"
    using assms(1) by (simp add: signed_divide_int_def)
  show ?thesis unfolding clip_access_def Let_def e s d by (auto simp: min_def)
qed

section \<open>Writing\<close>

lemma memcpy_wp:
  assumes b: "cell_board P J R loc bad cell" and m: "m \<le> 257"
    and at: "cells_at J cell (written loc b v (257 * q) c) s"
    and R: "\<And>i. i < 257 * q + m \<Longrightarrow> word_at b i \<in> R" and v: "\<And>i. i < 257 \<Longrightarrow> v (257 * q + i) = d ! i"
    and l: "length d = 257"
  shows "wp (memcpy_out P (word_at b (257 * q)) d (of_nat (4 * m)) s)
     (\<lambda>_. cells_at J cell (written loc b v (257 * q + m) c))"
proof -
  have u: "unat (of_nat (4 * m) :: u32) = 4 * m" using m by (intro unat_of_nat_32) simp
  have "wp (for_up 0 m (\<lambda>i. store_word P (word_at b (257 * q)) (of_nat i) (d ! i)) s)
      (\<lambda>_. cells_at J cell (written loc b v (257 * q + m) c))"
  proof (rule for_up_wp [where I = "\<lambda>i. cells_at J cell (written loc b v (257 * q + i) c)"])
    fix i s' assume i: "i < m" and at: "cells_at J cell (written loc b v (257 * q + i) c) s'"
    have r: "word_at b (257 * q) + of_nat i * 4 \<in> R" unfolding word_at_add by (rule R) (use i in simp)
    show "wp (store_word P (word_at b (257 * q)) (of_nat i) (d ! i) s')
        (\<lambda>_. cells_at J cell (written loc b v (257 * q + Suc i) c))"
      by (rule wp_mono [OF cell_store [OF b at r]]) (use i m v [of i] in \<open>simp add: word_at_add\<close>)
  qed (use at in simp_all)
  then show ?thesis using u m l by (auto simp: memcpy_out_def Let_def elim: wp_mono)
qed

lemma write_loop_done: "mt_write_loop P d len show p acc items len idx s = Some ((), s)"
  by (subst mt_write_loop.simps) simp

lemma words_before_end:
  assumes "p < n" "4 * n < 2 ^ 31"
  shows "(of_nat (4 * p) :: u32) < of_nat (4 * n)"
proof -
  have u: "unat (of_nat (4 * k) :: u32) = 4 * k" if "k \<le> n" for k
    by (rule unat_of_nat_32) (use that assms(2) in simp)
  have "unat (of_nat (4 * p) :: u32) = 4 * p" "unat (of_nat (4 * n) :: u32) = 4 * n"
    using assms(1) by (auto intro!: u simp del: of_nat_mult)
  with assms(1) show ?thesis by (simp only: word_less_nat_alt)
qed

lemma write_loop_wp:
  fixes s :: "('h, 'x) app_st_scheme" and P :: "('h, 's) platform"
  assumes b: "cell_board P J R loc bad cell" and n: "4 * n < 2 ^ 31"
    and R: "\<And>i. i < n \<Longrightarrow> word_at b i \<in> R"
  shows "257 * q < n \<Longrightarrow> cells_at J cell (written loc b (pattern v) (257 * q) c) s \<Longrightarrow>
     wp (mt_write_loop P (szData v) (of_nat (4 * n)) show (word_at b (257 * q)) 1028 257 (of_nat (4 * (257 * q))) idx s)
       (\<lambda>_. cells_at J cell (written loc b (pattern v) n c))"
proof (induction "n - 257 * q" arbitrary: q s idx rule: less_induct)
  case less
  let ?m = "min 257 (n - 257 * q)"
  let ?c = "\<lambda>k. written loc b (pattern v) k c"
  have lt: "(of_nat (4 * (257 * q)) :: u32) < of_nat (4 * n)"
    by (rule words_before_end [OF less.prems(1) n])
  have nx: "of_nat (4 * (257 * q)) + of_nat (4 * ?m) = (of_nat (4 * (257 * q + ?m)) :: u32)"
    "word_at b (257 * q) + of_nat ?m * 4 = word_at b (257 * q + ?m)"
    by (simp, rule word_at_add)
  have cp: "wp (memcpy_out P (word_at b (257 * q)) (szData v) (of_nat (4 * ?m)) s) (\<lambda>_. cells_at J cell (?c (257 * q + ?m)))"
    by (rule memcpy_wp [OF b _ less.prems(2)]) (use less.prems(1) in \<open>auto intro!: R simp: pattern_chunk\<close>)
  have rec: "wp (mt_write_loop P (szData v) (of_nat (4 * n)) show (word_at b (257 * q + ?m)) (of_nat (4 * ?m))
        (of_nat ?m) (of_nat (4 * (257 * q + ?m))) idx' s') (\<lambda>_. cells_at J cell (?c n))"
    if at: "cells_at J cell (?c (257 * q + ?m)) s'" for idx' and s' :: "('h, 'x) app_st_scheme"
  proof (cases "257 * Suc q < n")
    case True
    then have "?m = 257" by simp
    then show ?thesis using less.hyps [of "Suc q" s' idx'] True at less.prems(1) by (simp add: algebra_simps)
  next
    case False
    then have "257 * q + ?m = n" using less.prems(1) by simp
    then show ?thesis using at by (simp add: write_loop_done del: of_nat_mult)
  qed
  have k: "wp (do { (i, s'') \<leftarrow> show_progress (of_nat (4 * n)) show (of_nat (4 * (257 * q + ?m))) idx s';
        mt_write_loop P (szData v) (of_nat (4 * n)) show (word_at b (257 * q + ?m)) (of_nat (4 * ?m))
          (of_nat ?m) (of_nat (4 * (257 * q + ?m))) i s'' }) (\<lambda>_. cells_at J cell (?c n))"
    if "cells_at J cell (?c (257 * q + ?m)) s'" for s' :: "('h, 'x) app_st_scheme"
    unfolding wp_bind prod.case by (rule wp_mono [OF cell_progress [OF that]]) (rule rec)
  show ?case
    by (subst mt_write_loop.simps, simp only: if_P [OF lt] clip_access_eq [OF less.prems(1) n] Let_def prod.case nx wp_bind)
       (rule wp_mono [OF cp], rule k [unfolded wp_bind prod.case])
qed

section \<open>Reading back\<close>

definition sound :: "(u32 \<Rightarrow> 'c) \<Rightarrow> (u32 \<Rightarrow> u32 \<Rightarrow> u32) \<Rightarrow> u32 \<Rightarrow> u32 \<Rightarrow> ('c \<Rightarrow> u32) \<Rightarrow> nat \<Rightarrow> bool" where
  "sound loc bad b v c k \<longleftrightarrow> bad (word_at b k) (c (loc (word_at b k))) = pattern v k"

lemma verify_items_wp:
  fixes s :: "('h, 'x) app_st_scheme" and P :: "('h, 's) platform"
  assumes b: "cell_board P J R loc bad cell" and m: "m \<le> 257" and R: "\<And>i. i < 257 * q + m \<Longrightarrow> word_at b i \<in> R"
  shows "i \<le> m \<Longrightarrow> cells_at J cell c s \<Longrightarrow>
     wp (verify_items P (szData v) show pos (of_nat m) (word_at b (257 * q + i)) i s)
       (\<lambda>r s'. fst r = (\<forall>k \<in> {i..<m}. sound loc bad b v c (257 * q + k)) \<and> cells_at J cell c s' \<and>
          (fst r \<longrightarrow> snd r = word_at b (257 * q + m)))"
proof (induction "m - i" arbitrary: i s rule: less_induct)
  case less
  have sm: "sint (of_nat m :: u32) = int m" using m by (intro sint_of_nat_31) simp
  show ?case
  proof (cases "i < m")
    case False
    with less.prems show ?thesis by (subst verify_items.simps) (simp add: sm)
  next
    case True
    have r: "word_at b (257 * q + i) + 0 * 4 \<in> R" using R [of "257 * q + i"] True by simp
    note ld = cell_load [OF b _ r, unfolded mult_zero_left add_0_right]
    have d: "pattern v (257 * q + i) = szData v ! i" using True m by (intro pattern_chunk) simp
    have split: "{i..<m} = insert i {Suc i..<m}" using True by auto
    have rec: "wp (verify_items P (szData v) show pos (of_nat m) (word_at b (Suc (257 * q + i))) (Suc i) s')
        (\<lambda>r s'. fst r = (\<forall>k \<in> {i..<m}. sound loc bad b v c (257 * q + k)) \<and> cells_at J cell c s' \<and>
          (fst r \<longrightarrow> snd r = word_at b (257 * q + m)))"
      if "cells_at J cell c s'" "sound loc bad b v c (257 * q + i)" for s' :: "('h, 'x) app_st_scheme"
      using less.hyps [of "Suc i" s'] True that split by simp
    have fail: "\<not> (\<forall>k \<in> {i..<m}. sound loc bad b v c (257 * q + k))" if "\<not> sound loc bad b v c (257 * q + i)"
      using that split by simp
    have g: "bad (word_at b (257 * q + i)) (c (loc (word_at b (257 * q + i)))) = szData v ! i
        \<longleftrightarrow> sound loc bad b v c (257 * q + i)"
      by (simp add: sound_def d)
    show ?thesis
    proof (cases "sound loc bad b v c (257 * q + i)")
      case ok: True
      with True less.prems(2) rec [OF _ ok] show ?thesis
        by (subst verify_items.simps) (auto simp: sm word_at_Suc Let_def g intro!: wp_mono [OF ld])
    next
      case False
      with True less.prems(2) fail show ?thesis
        by (subst verify_items.simps)
           (auto simp: sm word_at_Suc word_at_pred Let_def g intro!: wp_mono [OF ld])
    qed
  qed
qed

lemma ball_shift: "(\<forall>k \<in> {a..<a + m}. Q k) \<longleftrightarrow> (\<forall>k \<in> {0..<m}. Q (a + k))" for a m :: nat
proof
  assume *: "\<forall>k \<in> {0..<m}. Q (a + k)"
  show "\<forall>k \<in> {a..<a + m}. Q k"
  proof
    fix k assume "k \<in> {a..<a + m}"
    then show "Q k" using * by (auto dest!: bspec [where x = "k - a"])
  qed
qed auto

lemma verify_loop_done:
  "verify_loop P d len show bPass p acc items len idx s = Some (bPass, s)"
  "verify_loop P d len show False p acc items pos idx s = Some (False, s)"
  by (subst verify_loop.simps; simp)+

lemma verify_loop_wp:
  fixes s :: "('h, 'x) app_st_scheme" and P :: "('h, 's) platform"
  assumes b: "cell_board P J R loc bad cell" and n: "4 * n < 2 ^ 31"
    and R: "\<And>i. i < n \<Longrightarrow> word_at b i \<in> R"
  shows "257 * q < n \<Longrightarrow> cells_at J cell c s \<Longrightarrow>
     wp (verify_loop P (szData v) (of_nat (4 * n)) show True (word_at b (257 * q)) 1028 257 (of_nat (4 * (257 * q))) idx s)
       (\<lambda>r s'. r = (\<forall>k \<in> {257 * q..<n}. sound loc bad b v c k) \<and> cells_at J cell c s')"
proof (induction "n - 257 * q" arbitrary: q s idx rule: less_induct)
  case less
  define m where "m = min 257 (n - 257 * q)"
  have lt: "(of_nat (4 * (257 * q)) :: u32) < of_nat (4 * n)"
    by (rule words_before_end [OF less.prems(1) n])
  have nx: "of_nat (4 * (257 * q)) + of_nat (4 * m) = (of_nat (4 * (257 * q + m)) :: u32)" by simp
  let ?Q = "\<lambda>r s'. r = (\<forall>k \<in> {257 * q..<n}. sound loc bad b v c k) \<and> cells_at J cell c s'"
  have cover: "(\<forall>k \<in> {257 * q..<n}. sound loc bad b v c k) \<longleftrightarrow>
      (\<forall>k \<in> {0..<m}. sound loc bad b v c (257 * q + k)) \<and> (\<forall>k \<in> {257 * q + m..<n}. sound loc bad b v c k)"
  proof -
    have "257 * q + m \<le> n" using less.prems(1) by (simp add: m_def)
    then have "{257 * q..<n} = {257 * q..<257 * q + m} \<union> {257 * q + m..<n}" by auto
    then show ?thesis by (simp only: ball_Un ball_shift)
  qed
  have it: "wp (verify_items P (szData v) show (of_nat (4 * (257 * q))) (of_nat m) (word_at b (257 * q)) 0 s)
      (\<lambda>r s'. fst r = (\<forall>k \<in> {0..<m}. sound loc bad b v c (257 * q + k)) \<and> cells_at J cell c s' \<and>
         (fst r \<longrightarrow> snd r = word_at b (257 * q + m)))"
    using verify_items_wp [OF b, of m q b 0 c s v "show" "of_nat (4 * (257 * q))"] R less.prems by (simp add: m_def)
  have rec: "wp (verify_loop P (szData v) (of_nat (4 * n)) show ok p (of_nat (4 * m)) (of_nat m)
        (of_nat (4 * (257 * q + m))) idx' s') ?Q"
    if at: "cells_at J cell c s'" and ok: "ok = (\<forall>k \<in> {0..<m}. sound loc bad b v c (257 * q + k))"
      and p: "ok \<longrightarrow> p = word_at b (257 * q + m)" for ok p idx' and s' :: "('h, 'x) app_st_scheme"
  proof (cases ok)
    case False
    have "\<not> (\<forall>k \<in> {257 * q..<n}. sound loc bad b v c k)" using False ok unfolding cover by blast
    moreover have "ok = False" using False by blast
    ultimately show ?thesis using at by (simp only: verify_loop_done wp_Some)
  next
    case True
    show ?thesis
    proof (cases "257 * Suc q < n")
      case less': True
      then have m: "m = 257" by (simp add: m_def)
      then have e: "257 * Suc q = 257 * q + m" by simp
      have "(\<forall>k \<in> {257 * q..<n}. sound loc bad b v c k) = (\<forall>k \<in> {257 * q + m..<n}. sound loc bad b v c k)"
        using cover ok True by blast
      moreover have "ok = True" "p = word_at b (257 * q + m)" "of_nat (4 * m) = (1028 :: u32)" "of_nat m = (257 :: u32)"
        using True p m by simp_all
      moreover have "n - (257 * q + m) < n - 257 * q" using less.prems(1) m by simp
      ultimately show ?thesis
        using less.hyps [of "Suc q" s' idx', unfolded e] less' [unfolded e] at by (simp only:)
    next
      case False
      then have "257 * q + m = n" using less.prems(1) by (simp add: m_def)
      then show ?thesis using at ok True by (simp add: verify_loop_done cover del: of_nat_mult)
    qed
  qed
  have k: "wp (do { (i, s'') \<leftarrow> show_progress (of_nat (4 * n)) show (of_nat (4 * (257 * q + m))) idx s';
        verify_loop P (szData v) (of_nat (4 * n)) show ok p (of_nat (4 * m)) (of_nat m) (of_nat (4 * (257 * q + m))) i s'' }) ?Q"
    if "cells_at J cell c s'" "ok = (\<forall>k \<in> {0..<m}. sound loc bad b v c (257 * q + k))"
      "ok \<longrightarrow> p = word_at b (257 * q + m)" for ok p and s' :: "('h, 'x) app_st_scheme"
    unfolding wp_bind prod.case by (rule wp_mono [OF cell_progress [OF that(1)]]) (rule rec [OF _ that(2,3)])
  show ?case
  proof (subst verify_loop.simps, simp only: lt simp_thms if_True
      clip_access_eq [OF less.prems(1) n, folded m_def] Let_def prod.case nx wp_bind, rule wp_mono [OF it], goal_cases)
    case (1 r s')
    obtain ok p where r: "r = (ok, p)" by (cases r)
    with 1 have "cells_at J cell c s'" "ok = (\<forall>k \<in> {0..<m}. sound loc bad b v c (257 * q + k))"
        "ok \<longrightarrow> p = word_at b (257 * q + m)" by auto
    from k [OF this] show ?case unfolding r prod.case .
  qed
qed

section \<open>The whole test\<close>

lemma TMEM_Verify_wp:
  fixes s :: "('h, 'x) app_st_scheme" and P :: "('h, 's) platform"
  assumes b: "cell_board P J (words_at b n) loc bad cell" and n: "4 * n < 2 ^ 31" and J: "J (hw s)"
  shows "wp (TMEM_Verify P b (of_nat (4 * n)) v show s)
     (\<lambda>r _. r = (\<forall>k < n. bad (word_at b k) (pattern v (last_alias loc b n k)) = pattern v k))"
proof -
  let ?c = "written loc b (pattern v) n (cell (hw s))"
  let ?acc = "257 * 4 :: u32"
  have R: "word_at b i \<in> words_at b n" if "i < n" for i
    using that by (simp add: word_at_def words_atI)
  have at: "cells_at J cell (cell (hw s)) s" using J by (simp add: cells_at_def)
  have wr: "wp (mt_write_loop P (szData v) (of_nat (4 * n)) show b ?acc (?acc div 4) 0 0 s1) (\<lambda>_. cells_at J cell ?c)"
    if "cells_at J cell (cell (hw s)) s1" for s1 :: "('h, 'x) app_st_scheme"
  proof (cases "n = 0")
    case True
    then show ?thesis using that by (subst mt_write_loop.simps) simp
  next
    case False
    then show ?thesis using write_loop_wp [OF b n R, of 0 v "cell (hw s)" s1 "show" 0] that by simp
  qed
  have rd: "wp (verify_loop P (szData v) (of_nat (4 * n)) show True b ?acc (?acc div 4) 0 0 s1)
      (\<lambda>r s'. r = (\<forall>k \<in> {0..<n}. sound loc bad b v ?c k) \<and> cells_at J cell ?c s')"
    if "cells_at J cell ?c s1" for s1 :: "('h, 'x) app_st_scheme"
  proof (cases "n = 0")
    case True
    then show ?thesis using that by (subst verify_loop.simps) simp
  next
    case False
    then show ?thesis using verify_loop_wp [OF b n R, of 0 ?c s1 v "show" 0] that by simp
  qed
  have v: "(\<forall>k \<in> {0..<n}. sound loc bad b v ?c k) =
      (\<forall>k < n. bad (word_at b k) (pattern v (last_alias loc b n k)) = pattern v k)"
    by (auto simp: sound_def written_last)
  show ?thesis
    unfolding TMEM_Verify_def Let_def wp_bind prod.case
    by (rule wp_mono [OF cell_say [OF at]], rule wp_mono [OF wr], assumption,
        rule wp_mono [OF cell_flush [OF b]], assumption, rule wp_mono [OF cell_say], assumption,
        rule wp_mono [OF rd], assumption, rule wp_mono [OF cell_say], erule conjunct2) (simp add: v)
qed

end
