(* ===== verification/App_MemTest_Claims.thy ===== *)
theory App_MemTest_Claims
  imports App_MemTest_Props App_Timer_Claims
begin

text \<open>
  What \<open>TMEM_Verify\<close> decides, on sound and on faulty memories, and what the program
  \<open>nios_ddr3_test\<close> therefore prints: \<open>fault\<close> lists the single stuck lines of the memory bus.
\<close>

text \<open>
  C3. On a memory whose words are stored where \<open>loc\<close> says and come back as \<open>bad\<close> says,
  \<open>TMEM_Verify\<close> returns, and it returns true exactly when every word of the region reads back as
  its pattern after the last write to the cell it shares.
\<close>

theorem mem_test_verdict:
  assumes "cell_board P J (words_at b n) loc bad cell" "4 * n < 2 ^ 31" "J (hw s)"
  shows "\<exists>s'. TMEM_Verify P b (of_nat (4 * n)) v msgs s =
     Some (\<forall>k < n. bad (b + of_nat k * 4)
       (szData v ! (Max {j. j < n \<and> loc (b + of_nat j * 4) = loc (b + of_nat k * 4)} mod 257)) = szData v ! (k mod 257), s')"
  using TMEM_Verify_wp [OF assms, of v msgs]
  by (auto simp: wp_iff word_at_def last_alias_def pattern_def)

section \<open>Single faults of the bus\<close>

datatype fault = Sound | Dead_address nat | Stuck_low nat | Stuck_high nat

fun fault_loc :: "fault \<Rightarrow> u32 \<Rightarrow> u32" where
  "fault_loc (Dead_address m) a = unset_bit m a"
| "fault_loc _ a = a"

fun fault_bad :: "fault \<Rightarrow> u32 \<Rightarrow> u32" where
  "fault_bad (Stuck_low j) d = unset_bit j d"
| "fault_bad (Stuck_high j) d = Bit_Operations.set_bit j d"
| "fault_bad _ d = d"

text \<open>A line of the window (bytes \<open>2 ^ 2\<close> to \<open>2 ^ 26\<close>) or of the data bus.\<close>

fun fault_line :: "fault \<Rightarrow> bool" where
  "fault_line Sound = True"
| "fault_line (Dead_address m) = (m \<in> {2..<27})"
| "fault_line (Stuck_low j) = (j < 32)"
| "fault_line (Stuck_high j) = (j < 32)"

lemma sz_fill_nth: "i < n \<Longrightarrow> sz_fill n v ! i = v * 13 ^ i"
  by (induction n arbitrary: v i) (auto simp: nth_Cons algebra_simps split: nat.splits)

lemma pattern_eq:
  "pattern v k = (let i = k mod 257 in if i = 256 then 0xAAAAAAAA else if i = 255 then 0x55555555
     else if i = 254 then 0 else if i = 253 then 0xFFFFFFFF else v * 13 ^ i)"
  by (simp add: pattern_def szData_def Let_def nth_list_update sz_fill_nth)

lemma pattern_0: "pattern 1 0 = 1"
  by (simp add: pattern_eq)

lemma pattern_pow2: "j < 25 \<Longrightarrow> pattern 1 (2 ^ j) \<noteq> 1"
proof -
  assume "j < 25"
  then have "j \<in> set [0..<25]" unfolding set_upt by simp
  moreover have "\<forall>j \<in> set [0..<25]. pattern 1 (2 ^ j) \<noteq> 1"
    by (simp add: upt_rec pattern_eq Let_def)
  ultimately show ?thesis by blast
qed

lemma window_bits:
  assumes "m \<in> {2..<27}"
  shows "unset_bit m (0x8000000 :: u32) = 0x8000000" "unset_bit m (0x8000000 + 2 ^ m :: u32) = 0x8000000"
proof -
  have "m \<in> set [2..<27]" using assms unfolding set_upt .
  moreover have "\<forall>m \<in> set [2..<27]. unset_bit m (0x8000000 :: u32) = 0x8000000 \<and> unset_bit m (0x8000000 + 2 ^ m :: u32) = 0x8000000"
    by (simp add: upt_rec unset_bit_eq_and_not)
  ultimately show "unset_bit m (0x8000000 :: u32) = 0x8000000" "unset_bit m (0x8000000 + 2 ^ m :: u32) = 0x8000000"
    by blast+
qed

lemma dead_small: "m \<in> {2..<27} \<Longrightarrow> (2 :: nat) ^ (m - 2) < 33554432"
proof -
  assume "m \<in> {2..<27}"
  then have "m - 2 < 25" by simp linarith
  from power_strict_increasing [OF this, of "2 :: nat"] show ?thesis by simp
qed

lemma line_split: "m \<in> {2..<27} \<Longrightarrow> (2 :: u32) ^ m = 2 ^ (m - 2) * 4"
proof -
  assume "m \<in> {2..<27}"
  then have "m = m - 2 + 2" by auto
  then have "2 ^ m = (2 :: u32) ^ (m - 2 + 2)" by (rule arg_cong)
  also have "\<dots> = 2 ^ (m - 2) * 4" by (simp only: power_add) simp
  finally show ?thesis .
qed

lemma dead_alias:
  assumes m: "m \<in> {2..<27}" and k: "k < 33554432"
    and e: "unset_bit m (word_at 0x8000000 k) = unset_bit m 0x8000000"
  shows "k = 0 \<or> k = 2 ^ (m - 2)"
proof -
  note r = dead_small [OF m]
  have p: "(2 :: u32) ^ m = of_nat (2 ^ (m - 2)) * 4"
    by (simp add: line_split [OF m])
  have "word_at 0x8000000 k = 0x8000000 + of_bool (bit (word_at 0x8000000 k) m) * 2 ^ m"
    using e window_bits(1) [OF m] by (simp add: unset_bit_eq algebra_simps)
  then have "word_at 0x8000000 k = word_at 0x8000000 0 \<or> word_at 0x8000000 k = word_at 0x8000000 (2 ^ (m - 2))"
    by (cases "bit (word_at 0x8000000 k) m") (simp_all add: p word_at_def)
  then show ?thesis
    using words_at_inj [of "0x8000000" 33554432 k 0] words_at_inj [of "0x8000000" 33554432 k "2 ^ (m - 2)"] k r
    by (auto simp: word_at_def)
qed

lemma dead_last_alias:
  assumes m: "m \<in> {2..<27}"
  shows "last_alias (fault_loc (Dead_address m)) 0x8000000 33554432 0 = 2 ^ (m - 2)"
proof -
  let ?la = "last_alias (fault_loc (Dead_address m)) 0x8000000 33554432 0"
  note r = dead_small [OF m]
  have p: "word_at 0x8000000 (2 ^ (m - 2)) = 0x8000000 + 2 ^ m"
    by (simp add: word_at_def line_split [OF m])
  have "2 ^ (m - 2) \<le> ?la"
    by (rule last_alias_ge) (simp_all add: r p window_bits [OF m])
  moreover have "?la = 0 \<or> ?la = 2 ^ (m - 2)"
    by (rule dead_alias [OF m]) (use last_alias_mem [of 0 33554432 "fault_loc (Dead_address m)" "0x8000000"] in auto)
  ultimately show ?thesis by auto
qed

lemma fault_verdict:
  assumes f: "fault_line f"
  shows "(\<forall>k < 33554432. fault_bad f (pattern 1 (last_alias (fault_loc f) 0x8000000 33554432 k)) = pattern 1 k)
    \<longleftrightarrow> f = Sound"
proof -
  have la: "last_alias (fault_loc f) 0x8000000 33554432 k = k" if "k < 33554432" "\<forall>m. f \<noteq> Dead_address m" for k
    by (rule last_alias_inj) (use that in \<open>cases f; auto simp: inj_on_def\<close>)+
  show ?thesis
  proof (cases f)
    case Sound
    with la show ?thesis by simp
  next
    case (Dead_address m)
    then have m: "m \<in> {2..<27}" using f by simp
    then have "pattern 1 (2 ^ (m - 2)) \<noteq> pattern 1 0" unfolding pattern_0 by (intro pattern_pow2) auto
    with Dead_address show ?thesis
      by (auto simp: dead_last_alias [OF m, unfolded] intro!: exI [where x = 0])
  next
    case (Stuck_low j)
    have "(0xFFFFFFFF :: u32) = - 1" by simp
    then have "\<not> bit (unset_bit j (0xFFFFFFFF :: u32)) j" "bit (0xFFFFFFFF :: u32) j"
      using f Stuck_low by (simp_all only: bit_simps) simp_all
    then have "unset_bit j (0xFFFFFFFF :: u32) \<noteq> 0xFFFFFFFF" by metis
    then have "fault_bad f (pattern 1 (last_alias (fault_loc f) 0x8000000 33554432 253)) \<noteq> pattern 1 253"
      using la [of 253] Stuck_low by (simp add: pattern_eq)
    then show ?thesis using Stuck_low by (auto intro!: exI [where x = 253])
  next
    case (Stuck_high j)
    then have "bit (Bit_Operations.set_bit j (0 :: u32)) j" using f by (simp add: bit_simps)
    then have "Bit_Operations.set_bit j (0 :: u32) \<noteq> 0" by (metis bit_0_eq bot_apply bot_bool_def)
    then have "fault_bad f (pattern 1 (last_alias (fault_loc f) 0x8000000 33554432 254)) \<noteq> pattern 1 254"
      using la [of 254] Stuck_high by (simp add: pattern_eq)
    then show ?thesis using Stuck_high by (auto intro!: exI [where x = 254])
  qed
qed

text \<open>
  C2. The program finds every single stuck line of the memory bus: over the window of the address
  span extender it ends with the report of success on a sound board, and with the report of
  failure on a board with one dead address line or one data line stuck at 0 or at 1.
\<close>

theorem ddr3_main_finds_faults:
  fixes P :: "('h, 's) platform" and s :: "('h, 'x) app_st_scheme"
  assumes "cell_board P J (words_at 0x8000000 33554432) (fault_loc f) (\<lambda>_. fault_bad f) cell" "J (hw s)" "fault_line f"
  shows "\<exists>s'. ddr3_main P s = Some (0, s') \<and>
     last (console s') = (if f = Sound then ''HPS DDR3 test success'' else ''HPS DDR3 test failed'', [])"
proof -
  have "wp (TMEM_Verify P 0x8000000 (of_nat (4 * 33554432)) 1 True s') (\<lambda>r _. r = (f = Sound))"
    if "J (hw s')" for s' :: "('h, 'x) app_st_scheme"
    using TMEM_Verify_wp [OF assms(1) _ that, of 1 True] fault_verdict [OF assms(3)] by simp
  then have t: "wp (TMEM_Verify P 0x8000000 134217728 1 True s') (\<lambda>r _. r = (f = Sound))"
    if "J (hw s')" for s' :: "('h, 'x) app_st_scheme"
    using that by simp
  have "wp (ddr3_main P s) (\<lambda>r s'. r = 0 \<and>
      last (console s') = (if f = Sound then ''HPS DDR3 test success'' else ''HPS DDR3 test failed'', []))"
    using assms(2) by (auto simp: ddr3_main_def intro!: wp_mono [OF t])
  then show ?thesis by (auto simp: wp_iff)
qed

text \<open>
  \<open>nRemainedLen\<close> is an \<open>int\<close>: for a region of 2 GiB or more it is negative, the first
  access takes its length, and \<open>memcpy\<close> leaves \<open>szData\<close> (and would leave the region).
\<close>

lemma mem_test_overflow:
  fixes s :: "('h, 'x) app_st_scheme" and P :: "('h, 's) platform"
  assumes "sint ByteLen < 0"
  shows "TMEM_Verify P BaseAddr ByteLen v msgs s = None"
proof -
  have u: "1028 < unat ByteLen"
  proof (rule ccontr)
    assume "\<not> 1028 < unat ByteLen"
    then have "int (unat ByteLen) \<le> int 1028" unfolding not_less of_nat_le_iff .
    then have "uint ByteLen < 2 ^ 31" by simp
    with assms show False by (simp add: sint_u32_small)
  qed
  then have "0 < ByteLen" by (auto simp: word_less_nat_alt)
  then have "mt_write_loop P (szData v) ByteLen m BaseAddr (257 * 4) (257 * 4 div 4) 0 0 s' = None" for m and s' :: "('h, 'x) app_st_scheme"
    using assms u by (subst mt_write_loop.simps) (simp add: clip_access_def memcpy_out_def Let_def)
  then show ?thesis by (simp add: TMEM_Verify_def Let_def say_def)
qed

section \<open>Witnesses\<close>

text \<open>Boards whose hardware is the contents of the memory cells, with a fault.\<close>

definition fault_bus :: "fault \<Rightarrow> (u32 \<Rightarrow> u32) bus" where
  "fault_bus f = \<lparr>bus_rd = (\<lambda>a h. (fault_bad f (h (fault_loc f a)), h)),
     bus_wr = (\<lambda>a d h. h(fault_loc f a := d)), bus_delay = (\<lambda>us h. h)\<rparr>"

lemma fault_board: "cell_board (demo_platform (fault_bus f) (\<lambda>_. 0)) (\<lambda>_. True) R (fault_loc f) (\<lambda>_. fault_bad f) (\<lambda>h. h)"
  by (simp add: cell_board_def demo_platform_def fault_bus_def)

theorem mem_test_verdict_witness:
  "\<exists>s'. TMEM_Verify (demo_platform (fault_bus (Stuck_low 0)) (\<lambda>_. 0)) 0x1000 4 1 False
     (demo_app (\<lambda>_ :: u32. 7 :: u32)) = Some (False, s')"
proof -
  have "{j. j = 0 \<and> of_nat j * 4 = (0 :: u32)} = {0}" by auto
  moreover have all: "(\<forall>k. 0 < (k :: nat)) = False" by auto
  ultimately show ?thesis
    using mem_test_verdict [OF fault_board [of "Stuck_low 0"], where n = 1 and b = "0x1000" and v = 1 and msgs = False
        and s = "demo_app (\<lambda>_. 7)"]
    by (simp add: szData_def Let_def nth_list_update sz_fill_nth unset_bit_0 all)
qed

theorem ddr3_main_finds_faults_witness:
  "\<exists>s'. ddr3_main (demo_platform (fault_bus (Dead_address 9)) (\<lambda>_. 0)) (demo_app (\<lambda>_ :: u32. 7 :: u32)) = Some (0, s') \<and>
     last (console s') = (''HPS DDR3 test failed'', [])"
  using ddr3_main_finds_faults [OF fault_board, where f = "Dead_address 9" and s = "demo_app (\<lambda>_. 7)"] by simp

end
