(* ===== verification/HAL_Boot.thy ===== *)
theory HAL_Boot
  imports I2C_Init HAL_Time JTAG_UART
begin

text \<open>
  Start-up and exit (\<open>HAL/src/alt_main.c\<close>, \<open>alt_sys_init.c\<close> of the board support package,
  \<open>alt_do_ctors.c\<close>, \<open>alt_do_dtors.c\<close>, \<open>alt_exit.c\<close>): what runs between the assembly start-up code
  and \<open>main\<close>, with the drivers of the other theories.  The public settings select the small
  JTAG UART driver (\<open>ALT_USE_SMALL_DRIVERS\<close>) and no operating system; the boot log is off.

  \<open>boot_env\<close> collects what the linker and the compiler fix: addresses of handlers, device
  structures and list heads, the uninitialised local of \<open>alt_avalon_i2c_init\<close>, the constructor
  tables.  \<open>bt_irq\<close> stands for the interrupts taken at a program point; the points lie between
  the calls.  \<open>main\<close> is a parameter: both programs of the repository are linked with this code.
\<close>

record 's boot_env =
  bt_env :: "'s hal_env"
  bt_timer_isr :: u32
  bt_i2c_isr :: u32
  bt_i2c_dev :: u32
  bt_i2c_list :: u32
  bt_uart_dev :: u32
  bt_console :: u32
  bt_cfg :: i2c_master_config
  bt_irq :: "(unit, 's) prog"
  bt_ctors :: "(unit, 's) prog list"
  bt_dtors :: "(unit, 's) prog list"

section \<open>Static data\<close>

text \<open>\<open>ALTERA_AVALON_I2C_INSTANCE(I2C_HDMI, i2c_hdmi)\<close> with the numbers of \<open>system.h\<close>.\<close>

definition i2c_hdmi_instance :: "u32 \<Rightarrow> i2c_dev" where
  "i2c_hdmi_instance name = \<lparr>dev_name = name, i2c_base = 0x20040, irq_controller_ID = 0, irq_ID = 2,
     callback = CB_null, callback_context = 0, control = 0, master_target_address = 0,
     cmd_fifo_size = 4, rx_fifo_size = 4, ip_freq_in_hz = 50000000, address_mode = ADDR_MODE_7_BIT\<rparr>"

section \<open>alt_sys_init.c\<close>

definition alt_irq_init :: "(unit, ('h, 'x) irq_st_scheme) prog" where
  "alt_irq_init s = do {
     (_, s) \<leftarrow> altera_nios2_gen2_irq_init s;
     alt_irq_cpu_enable_interrupts s
   }"

definition alt_sys_init :: "'h bus \<Rightarrow> ('h, 'x) i2c_st_scheme boot_env \<Rightarrow> (unit, ('h, 'x) i2c_st_scheme) prog" where
  "alt_sys_init B T s = do {
     (_, s) \<leftarrow> alt_avalon_timer_sc_init B (bt_timer_isr T) 0x20080 0 1
        (ALTERA_AVALON_TIMER_FREQ 50000000 1 UNITS_ms) s;
     (_, s) \<leftarrow> bt_irq T s;
     (_, s) \<leftarrow> alt_avalon_i2c_init (bt_env T) B (bt_i2c_dev T) (bt_i2c_list T) (bt_i2c_isr T) (bt_cfg T) s;
     (_, s) \<leftarrow> bt_irq T s;
     (_, s) \<leftarrow> alt_dev_reg (bt_env T) (bt_uart_dev T) s;
     Some ((), s)
   }"

section \<open>Constructors, exit\<close>

fun call_all :: "(unit, 's) prog list \<Rightarrow> (unit, 's) prog" where
  "call_all [] s = Some ((), s)"
| "call_all (f # fs) s = do { (_, s) \<leftarrow> f s; call_all fs s }"

text \<open>Both tables are walked from their last entry to their first.\<close>

definition do_ctors :: "'s boot_env \<Rightarrow> (unit, 's) prog" where
  "do_ctors T = call_all (rev (bt_ctors T))"

definition do_dtors :: "'s boot_env \<Rightarrow> (unit, 's) prog" where
  "do_dtors T = call_all (rev (bt_dtors T))"

text \<open>\<open>while (1);\<close>\<close>

partial_function (option) spin_forever :: "(unit, 's) prog" where
  "spin_forever s = spin_forever s"

definition ALT_EXIT :: "int \<Rightarrow> (unit, 's) prog" where
  "ALT_EXIT exit_code s = spin_forever s"

section \<open>alt_main.c\<close>

text \<open>Everything before \<open>main\<close>.\<close>

definition alt_boot :: "'h bus \<Rightarrow> ('h, 'x) i2c_st_scheme boot_env \<Rightarrow> (unit, ('h, 'x) i2c_st_scheme) prog" where
  "alt_boot B T s = do {
     (_, s) \<leftarrow> alt_irq_init s;
     (_, s) \<leftarrow> bt_irq T s;
     (_, s) \<leftarrow> alt_sys_init B T s;
     (_, s) \<leftarrow> bt_irq T s;
     (_, s) \<leftarrow> alt_io_redirect (bt_env T) (bt_console T) (bt_console T) (bt_console T) s;
     (_, s) \<leftarrow> bt_irq T s;
     do_ctors T s
   }"

text \<open>\<open>main\<close> and what follows it, up to the call of \<open>exit\<close>.\<close>

definition alt_run_main :: "'h bus \<Rightarrow> ('h, 'x) i2c_st_scheme boot_env \<Rightarrow> (int, ('h, 'x) i2c_st_scheme) prog
    \<Rightarrow> (int, ('h, 'x) i2c_st_scheme) prog" where
  "alt_run_main B T main s = do {
     (_, s) \<leftarrow> alt_boot B T s;
     (result, s) \<leftarrow> main s;
     (_, s) \<leftarrow> ALT_CLOSE (bt_env T) 1 s;
     Some (result, s)
   }"

definition alt_main :: "'h bus \<Rightarrow> ('h, 'x) i2c_st_scheme boot_env \<Rightarrow> (int, ('h, 'x) i2c_st_scheme) prog
    \<Rightarrow> (unit, ('h, 'x) i2c_st_scheme) prog" where
  "alt_main B T main s = do {
     (result, s) \<leftarrow> alt_run_main B T main s;
     (_, s) \<leftarrow> do_dtors T s;
     ALT_EXIT result s
   }"

section \<open>Redirecting the standard streams\<close>

text \<open>
  One redirection with exactly the standard descriptors in use: descriptor 3 is allocated,
  copied over the standard one and released.
\<close>

lemma alt_file_locked_none:
  assumes "alt_max_fd s = 3" "\<forall>i < 3. fd_flags (alt_fd_list s i) AND ALT_FD_EXCL = 0"
  shows "alt_file_locked 3 s = Some (0, upd_fd 3 (fd_flags_update (\<lambda>f. f OR ALT_FD_DEV)) s)"
proof -
  have "[0..<Suc (nat 3)] = [0, 1, 2, 3]" by (simp add: upt_rec)
  with assms show ?thesis by (simp add: alt_file_locked_def Let_def)
qed

definition uart_slot :: "u32 \<Rightarrow> u32 \<Rightarrow> u32 \<Rightarrow> alt_fd" where
  "uart_slot d p flags = \<lparr>fd_dev = d, fd_priv = p, fd_flags = open_flags flags False\<rparr>"

lemma open_fd_console:
  fixes s :: "('h, 'x) hal_scheme"
  assumes f: "find_name E name s = Some (d, False)" "d \<noteq> 0" and o: "dv_open (devs E d) = None" and j: "j < 3"
    and used: "\<forall>i < 3. fd_dev (alt_fd_list s i) \<noteq> 0 \<and> fd_flags (alt_fd_list s i) AND ALT_FD_EXCL = 0"
    and free: "alt_fd_list s 3 = \<lparr>fd_dev = 0, fd_priv = p, fd_flags = 0\<rparr>" and m: "alt_max_fd s = - 1 \<or> alt_max_fd s = 3"
  shows "alt_open_fd E j name flags mode s =
     Some ((), s\<lparr>alt_fd_list := (alt_fd_list s)(j := uart_slot d p flags), alt_max_fd := 3\<rparr>)"
proof -
  let ?t = "upd_fd 3 (fd_dev_update (\<lambda>_. d)) s\<lparr>alt_max_fd := 3\<rparr>"
  let ?u = "upd_fd 3 (fd_flags_update (\<lambda>_. flags AND NOT ALT_FD_FLAGS_MASK)) ?t"
  have g: "alt_get_fd d s = Some (3, ?t)"
    using get_fd_loop_free [of 0 3 s d] used free m
    by (auto simp: alt_get_fd_def Let_def upd_fd_def)
  have l: "alt_file_locked 3 ?u = Some (0, upd_fd 3 (fd_flags_update (\<lambda>f. f OR ALT_FD_DEV)) ?u)"
    using used by (intro alt_file_locked_none) (simp_all add: upd_fd_def)
  have "ALT_OPEN E name flags mode s = Some (3, upd_fd 3 (fd_flags_update (\<lambda>f. f OR ALT_FD_DEV)) ?u)"
    using f o by (simp add: ALT_OPEN_def g open_fd_def Let_def l [simplified])
  then show ?thesis
    using j free by (auto simp: fd_index_def alt_open_fd_def alt_release_fd_def upd_fd_def uart_slot_def open_flags_def fun_eq_iff)
qed

end
