(* ===== verification/HAL_Boot_Claims.thy ===== *)
theory HAL_Boot_Claims
  imports HAL_Boot JTAG_Small_Claims
begin

text \<open>
  Start-up end to end: the state in which \<open>main\<close> is entered, on any hardware, composed from the
  interrupt layer, the system clock, the I2C driver, the device lists and the file layer.
\<close>

text \<open>What the start-up code establishes and an interrupt during it must leave alone.\<close>

definition boot_view :: "('h, 'x) i2c_st_scheme \<Rightarrow>
    llist_heap \<times> (u32 \<Rightarrow> u8) \<times> (nat \<Rightarrow> alt_fd) \<times> int \<times> u32 \<times> (nat \<Rightarrow> isr_entry) \<times> u32 \<times> u32 \<times> u32 \<times> i2c_dev" where
  "boot_view s = (links s, bytes s, alt_fd_list s, alt_max_fd s, tick_rate s, alt_irq s, alt_irq_active s,
     cpu_ienable s, cpu_status s, dev s)"

definition boot_quiet :: "u32 \<Rightarrow> (unit, ('h, 'x) i2c_st_scheme) prog \<Rightarrow> bool" where
  "boot_quiet al J \<longleftrightarrow> (\<forall>s. ring (links s) al [] \<longrightarrow> wp (J s) (\<lambda>_ s'. boot_view s' = boot_view s))"

text \<open>The handler of the system clock, as long as no alarm is registered.\<close>

lemma boot_timer_irq_quiet: "boot_quiet al (alt_avalon_timer_sc_irq B C al base)"
proof -
  have "wp (alt_avalon_timer_sc_irq B C al base s) (\<lambda>_ s'. boot_view s' = boot_view s)"
    if "ring (links s) al []" for s :: "('a, 'b) i2c_st_scheme"
    using ring_next [OF that]
    by (simp add: alt_avalon_timer_sc_irq_def alt_tick_def prog_defs Let_def tick_loop.simps boot_view_def)
  then show ?thesis by (simp add: boot_quiet_def)
qed

section \<open>The steps\<close>

lemma irq_init_step:
  "boot_view s = (l, b, f, m, r, q, a, e, c, d) \<Longrightarrow>
     wp (alt_irq_init s) (\<lambda>_ s'. boot_view s' = (l, b, f, m, r, q, a, 0, 1, d))"
  by (simp add: alt_irq_init_def altera_nios2_gen2_irq_init_def prog_defs boot_view_def)

lemma quiet_step:
  "boot_quiet al J \<Longrightarrow> ring l al [] \<Longrightarrow> boot_view s = (l, v) \<Longrightarrow> wp (J s) (\<lambda>_ s'. boot_view s' = (l, v))"
  unfolding boot_quiet_def by (erule allE [where x = s]) (simp add: boot_view_def)

lemma timer_init_step:
  "boot_view s = (l, b, f, m, 0, q, a, e, c, d) \<Longrightarrow> isr \<noteq> 0 \<Longrightarrow>
     wp (alt_avalon_timer_sc_init B isr 0x20080 0 1 (ALTERA_AVALON_TIMER_FREQ 50000000 1 UNITS_ms) s)
       (\<lambda>_ s'. boot_view s' = (l, b, f, m, 1000, q(1 := \<lparr>ih_handler = isr, ih_context = 0x20080\<rparr>),
          a OR 2, a OR 2, c, d))"
  by (simp add: alt_avalon_timer_sc_init_def alt_sysclk_init_def ALTERA_AVALON_TIMER_FREQ_def isr_register_eq
      boot_view_def Let_def)

lemma i2c_init_step:
  assumes v: "boot_view s = (l, b, f, m, r, q, a, e, c, i2c_hdmi_instance nm)"
    and n: "isr \<noteq> 0" "p \<noteq> 0" "dv_name (devs E p) \<noteq> 0"
  shows "wp (alt_avalon_i2c_init E B p lst isr u s)
     (\<lambda>_ s'. boot_view s' = (alt_llist_insert lst p l, b, f, m, r,
        q(2 := \<lparr>ih_handler = isr, ih_context = p\<rparr>), a OR 4, a OR 4, c, i2c_hdmi_instance nm))"
proof -
  have f: "ip_freq_in_hz (dev s) = 50000000" using v by (simp add: boot_view_def i2c_hdmi_instance_def)
  obtain h t pre where i: "alt_avalon_i2c_init E B p lst isr u s = do {
       (_, s) \<leftarrow> alt_dev_llist_insert E p lst
         (s\<lparr>dev := (dev s)\<lparr>address_mode := ADDR_MODE_7_BIT\<rparr>, hw := h, trace := t\<rparr>);
       (_, s) \<leftarrow> alt_ic_isr_register (irq_controller_ID (dev s)) (irq_ID (dev s)) isr p s;
       Some ((), s) }"
    by (rule i2c_init_core [OF f])
  show ?thesis
    using v n
    by (auto simp: i alt_dev_llist_insert_def isr_register_eq i2c_hdmi_instance_def boot_view_def Let_def)
qed

lemma dev_reg_step:
  "boot_view s = (l, v) \<Longrightarrow> d \<noteq> 0 \<Longrightarrow> dv_name (devs E d) \<noteq> 0 \<Longrightarrow>
     wp (alt_dev_reg E d s) (\<lambda>_ s'. boot_view s' = (alt_llist_insert (alt_dev_list E) d l, v))"
  by (auto simp: alt_dev_reg_def alt_dev_llist_insert_def boot_view_def)

text \<open>The console takes the three standard descriptors.\<close>

lemma io_redirect_step:
  assumes f: "find_name E name s = Some (d, False)" "d \<noteq> 0" and o: "dv_open (devs E d) = None"
    and v: "boot_view s = (l, b, alt_fd_list_init null, - 1, w)" and n: "null \<noteq> 0"
  shows "wp (alt_io_redirect E name name name s) (\<lambda>_ s'. boot_view s' = (l, b,
     (alt_fd_list_init null)(0 := uart_slot d 0 O_RDONLY, 1 := uart_slot d 0 O_WRONLY, 2 := uart_slot d 0 O_WRONLY), 3, w))"
proof -
  have fn: "find_name E name (s\<lparr>alt_fd_list := l, alt_max_fd := m\<rparr>) = Some (d, False)" for l m
    using f(1) by (subst find_name_rest [of _ s]) (simp_all add: rest_def)
  have p: "alt_fd_list s = alt_fd_list_init null" "alt_max_fd s = - 1" using v by (simp_all add: boot_view_def)
  have e: "fd_flags (uart_slot d 0 fl) AND ALT_FD_EXCL = 0" "fd_dev (uart_slot d 0 fl) = d"
    if "fl = O_RDONLY \<or> fl = O_WRONLY" for fl
    using that by (auto simp: uart_slot_def open_flags_def)
  let ?l = "alt_fd_list_init null"
  have 1: "alt_open_fd E 1 name O_WRONLY mode s =
      Some ((), s\<lparr>alt_fd_list := ?l(1 := uart_slot d 0 O_WRONLY), alt_max_fd := 3\<rparr>)" for mode
    using open_fd_console [OF f o, of 1] p n by (simp add: alt_fd_list_init_def)
  have 2: "alt_open_fd E 0 name O_RDONLY mode (s\<lparr>alt_fd_list := ?l(1 := uart_slot d 0 O_WRONLY), alt_max_fd := 3\<rparr>) =
      Some ((), s\<lparr>alt_fd_list := ?l(0 := uart_slot d 0 O_RDONLY, 1 := uart_slot d 0 O_WRONLY), alt_max_fd := 3\<rparr>)" for mode
    using open_fd_console [OF fn f(2) o, of 0] p n f(2) e by (simp add: alt_fd_list_init_def fun_upd_twist)
  have 3: "alt_open_fd E 2 name O_WRONLY mode
       (s\<lparr>alt_fd_list := ?l(0 := uart_slot d 0 O_RDONLY, 1 := uart_slot d 0 O_WRONLY), alt_max_fd := 3\<rparr>) =
      Some ((), s\<lparr>alt_fd_list := ?l(0 := uart_slot d 0 O_RDONLY, 1 := uart_slot d 0 O_WRONLY, 2 := uart_slot d 0 O_WRONLY),
        alt_max_fd := 3\<rparr>)" for mode
    using open_fd_console [OF fn f(2) o, of 2] p n f(2) e by (simp add: alt_fd_list_init_def)
  show ?thesis
    using v by (auto simp: alt_io_redirect_def 1 [simplified] 2 [simplified] 3 [simplified] boot_view_def)
qed

section \<open>The property\<close>

lemma find_name_dev:
  assumes r: "ring (links s) (alt_dev_list E) ds" and n: "cstr (bytes s) name bs" "length bs < 2 ^ 31"
    and ns: "\<And>d. d \<in> set ds \<Longrightarrow> cstr (bytes s) (dv_name (devs E d)) (nm d)" and f: "first_match (\<lambda>d. nm d = bs) ds = d" "d \<noteq> 0"
  shows "find_name E name s = Some (d, False)"
  using alt_find_dev_ring [OF r n ns] f by (simp add: find_name_def)

text \<open>
  The image that the linker and the reset leave: the static initial values, empty lists at
  distinct addresses (\<open>al\<close> is the alarm list), handlers and names in place, no constructors.
\<close>

definition boot_image :: "u32 \<Rightarrow> ('h, 'x) i2c_st_scheme boot_env \<Rightarrow> u32 \<Rightarrow> u32 \<Rightarrow> u8 list \<Rightarrow> u8 list
    \<Rightarrow> ('h, 'x) i2c_st_scheme \<Rightarrow> bool" where
  "boot_image al T null iname con i2c s \<longleftrightarrow>
     (\<exists>nm. dev s = i2c_hdmi_instance nm) \<and> tick_rate s = 0 \<and> alt_irq_active s = 0 \<and>
     alt_fd_list s = alt_fd_list_init null \<and> null \<noteq> 0 \<and> alt_max_fd s = - 1 \<and>
     ring (links s) (alt_dev_list (bt_env T)) [] \<and> ring (links s) (bt_i2c_list T) [] \<and> ring (links s) al [] \<and>
     distinct [alt_dev_list (bt_env T), bt_i2c_list T, bt_i2c_dev T, bt_uart_dev T, al, 0] \<and>
     bt_timer_isr T \<noteq> 0 \<and> bt_i2c_isr T \<noteq> 0 \<and> bt_ctors T = [] \<and>
     dv_name (devs (bt_env T) (bt_i2c_dev T)) \<noteq> 0 \<and> dv_name (devs (bt_env T) (bt_uart_dev T)) \<noteq> 0 \<and>
     dv_open (devs (bt_env T) (bt_uart_dev T)) = None \<and>
     cstr (bytes s) (bt_console T) con \<and> cstr (bytes s) (dv_name (devs (bt_env T) (bt_uart_dev T))) con \<and>
     length con < 2 ^ 31 \<and>
     cstr (bytes s) iname i2c \<and> cstr (bytes s) (dv_name (devs (bt_env T) (bt_i2c_dev T))) i2c \<and> length i2c < 2 ^ 31"

lemma boot_imageD:
  assumes "boot_image al T null iname con i2c s"
  shows "\<exists>nm. dev s = i2c_hdmi_instance nm" "tick_rate s = 0" "alt_irq_active s = 0"
    "alt_fd_list s = alt_fd_list_init null" "null \<noteq> 0" "alt_max_fd s = - 1"
    "ring (links s) (alt_dev_list (bt_env T)) []" "ring (links s) (bt_i2c_list T) []" "ring (links s) al []"
    "distinct [alt_dev_list (bt_env T), bt_i2c_list T, bt_i2c_dev T, bt_uart_dev T, al, 0]"
    "bt_timer_isr T \<noteq> 0" "bt_i2c_isr T \<noteq> 0" "bt_ctors T = []"
    "dv_name (devs (bt_env T) (bt_i2c_dev T)) \<noteq> 0" "dv_name (devs (bt_env T) (bt_uart_dev T)) \<noteq> 0"
    "dv_open (devs (bt_env T) (bt_uart_dev T)) = None"
    "cstr (bytes s) (bt_console T) con" "cstr (bytes s) (dv_name (devs (bt_env T) (bt_uart_dev T))) con"
    "length con < 2 ^ 31"
    "cstr (bytes s) iname i2c" "cstr (bytes s) (dv_name (devs (bt_env T) (bt_i2c_dev T))) i2c" "length i2c < 2 ^ 31"
  using assms by (simp_all add: boot_image_def)

definition booted :: "('h, 'x) i2c_st_scheme boot_env \<Rightarrow> u32 \<Rightarrow> ('h, 'x) i2c_st_scheme \<Rightarrow> ('h, 'x) i2c_st_scheme \<Rightarrow> bool" where
  "booted T null s s' \<longleftrightarrow> bytes s' = bytes s \<and> tick_rate s' = 1000 \<and> cpu_ienable s' = 6 \<and> cpu_status s' = 1 \<and>
     alt_irq s' = (alt_irq s)(1 := \<lparr>ih_handler = bt_timer_isr T, ih_context = 0x20080\<rparr>,
       2 := \<lparr>ih_handler = bt_i2c_isr T, ih_context = bt_i2c_dev T\<rparr>) \<and>
     alt_fd_list s' = (alt_fd_list_init null)(0 := uart_slot (bt_uart_dev T) 0 O_RDONLY,
       1 := uart_slot (bt_uart_dev T) 0 O_WRONLY, 2 := uart_slot (bt_uart_dev T) 0 O_WRONLY) \<and>
     ring (links s') (bt_i2c_list T) [bt_i2c_dev T]"

lemma boot_result:
  assumes q: "boot_quiet al (bt_irq T)" and im: "boot_image al T null iname con i2c s"
  shows "wp (alt_boot B T s) (\<lambda>_. booted T null s)"
proof -
  obtain nm where i: "dev s = i2c_hdmi_instance nm" using boot_imageD(1) [OF im] by blast
  note i = i boot_imageD(2-6) [OF im] and l = boot_imageD(7,8,10) [OF im] and a = boot_imageD(11,12) [OF im]
    and c = boot_imageD(13) [OF im] and d = boot_imageD(14-16) [OF im] and n = boot_imageD(17-22) [OF im]
    and q = q boot_imageD(9) [OF im]
  let ?E = "bt_env T" and ?dl = "alt_dev_list (bt_env T)" and ?il = "bt_i2c_list T" and ?i = "bt_i2c_dev T" and ?u = "bt_uart_dev T"
  let ?h1 = "alt_llist_insert ?il ?i (links s)"
  let ?h2 = "alt_llist_insert ?dl ?u ?h1"
  have r1: "ring ?h1 ?il [?i]" by (rule ring_insert [OF l(2)]) (use l(3) in auto)
  have r2: "ring ?h1 ?dl []" by (rule ring_insert_other [OF l(2,1)]) (use l(3) in auto)
  have r3: "ring ?h2 ?dl [?u]" by (rule ring_insert [OF r2]) (use l(3) in auto)
  have r4: "ring ?h2 ?il [?i]" by (rule ring_insert_other [OF r2 r1]) (use l(3) in auto)
  have q1: "ring ?h1 al []" by (rule ring_insert_other [OF l(2) q(2)]) (use l(3) in auto)
  have q2: "ring ?h2 al []" by (rule ring_insert_other [OF r2 q1]) (use l(3) in auto)
  let ?irq = "(alt_irq s)(1 := \<lparr>ih_handler = bt_timer_isr T, ih_context = 0x20080\<rparr>,
      2 := \<lparr>ih_handler = bt_i2c_isr T, ih_context = ?i\<rparr>)"
  let ?V = "\<lambda>f m. (?h2, bytes s, f, m :: int, 1000 :: u32, ?irq, 6 :: u32, 6 :: u32, 1 :: u32, i2c_hdmi_instance nm)"
  let ?fds = "(alt_fd_list_init null)(0 := uart_slot ?u 0 O_RDONLY, 1 := uart_slot ?u 0 O_WRONLY, 2 := uart_slot ?u 0 O_WRONLY)"
  have sys: "wp (alt_sys_init B T s1) (\<lambda>_ s'. boot_view s' = ?V (alt_fd_list_init null) (- 1))"
    if "boot_view s1 = (links s, bytes s, alt_fd_list_init null, - 1, 0, alt_irq s, 0, 0, 1, i2c_hdmi_instance nm)"
    for s1 :: "('a, 'b) i2c_st_scheme"
    unfolding alt_sys_init_def wp_bind prod.case
    by (rule wp_mono [OF timer_init_step [OF that a(1)]], rule wp_mono [OF quiet_step [OF q]], assumption,
        rule wp_mono [OF i2c_init_step], assumption, (use a d l(3) in simp_all)[3],
        rule wp_mono [OF quiet_step [OF q(1) q1]], assumption, rule wp_mono [OF dev_reg_step], assumption)
       (use d l(3) in simp_all)
  have red: "wp (alt_io_redirect ?E (bt_console T) (bt_console T) (bt_console T) s1) (\<lambda>_ s'. boot_view s' = ?V ?fds 3)"
    if v: "boot_view s1 = ?V (alt_fd_list_init null) (- 1)" for s1 :: "('a, 'b) i2c_st_scheme"
  proof -
    have "links s1 = ?h2" "bytes s1 = bytes s" using v by (simp_all add: boot_view_def)
    then have "find_name ?E (bt_console T) s1 = Some (?u, False)"
      using r3 n l(3) by (intro find_name_dev [of s1 ?E "[?u]" _ con "\<lambda>_. con"]) auto
    from io_redirect_step [OF this _ d(3) v i(5)] l(3) show ?thesis by simp
  qed
  have v0: "boot_view s = (links s, bytes s, alt_fd_list_init null, - 1, 0, alt_irq s, 0, cpu_ienable s, cpu_status s,
      i2c_hdmi_instance nm)"
    by (simp add: boot_view_def i)
  have "wp (alt_boot B T s) (\<lambda>_ s'. boot_view s' = ?V ?fds 3)"
    unfolding alt_boot_def wp_bind prod.case
    by (rule wp_mono [OF irq_init_step [OF v0]], rule wp_mono [OF quiet_step [OF q]], assumption,
        rule wp_mono [OF sys], assumption, rule wp_mono [OF quiet_step [OF q(1) q2]], assumption, rule wp_mono [OF red], assumption,
        rule wp_mono [OF quiet_step [OF q(1) q2]], assumption) (simp add: do_ctors_def c)
  then obtain s' where s': "alt_boot B T s = Some ((), s')" "boot_view s' = ?V ?fds 3" by (auto simp: wp_iff)
  have "booted T null s s'" using s'(2) r4 by (simp add: booted_def boot_view_def)
  with s'(1) show ?thesis by (simp add: wp_iff)
qed

text \<open>
  C8. The start-up reaches \<open>main\<close> with the system it promises, whatever the hardware answers
  and however often the timer interrupts it: ticks at 1000 Hz, handlers installed on the lines of
  the timer and of the I2C core, exactly these two lines enabled, interrupts on, standard input,
  output and error on the console device, and the I2C device found by its name.
\<close>

theorem boot_reaches_main:
  assumes "boot_quiet al (bt_irq T)" "boot_image al T null iname con i2c s"
  shows "\<exists>s'. alt_boot B T s = Some ((), s') \<and> tick_rate s' = 1000 \<and>
     alt_irq s' 1 = \<lparr>ih_handler = bt_timer_isr T, ih_context = 0x20080\<rparr> \<and>
     alt_irq s' 2 = \<lparr>ih_handler = bt_i2c_isr T, ih_context = bt_i2c_dev T\<rparr> \<and>
     cpu_ienable s' = 6 \<and> cpu_status s' = 1 \<and>
     (\<forall>k < 3. fd_dev (alt_fd_list s' k) = bt_uart_dev T) \<and>
     alt_avalon_i2c_open (bt_env T) (bt_i2c_list T) iname s' = Some (bt_i2c_dev T)"
proof -
  obtain s' where s': "alt_boot B T s = Some ((), s')" "booted T null s s'"
    using boot_result [OF assms] by (auto simp: wp_iff)
  note n = boot_imageD(20-22) [OF assms(2)]
  have "alt_avalon_i2c_open (bt_env T) (bt_i2c_list T) iname s' = Some (bt_i2c_dev T)"
    using s'(2) alt_find_dev_ring [of "links s'" _ "[bt_i2c_dev T]" "bytes s" iname i2c "\<lambda>d. dv_name (devs (bt_env T) d)" "\<lambda>_. i2c"] n
    by (simp add: alt_avalon_i2c_open_def booted_def)
  with s' show ?thesis
    by (auto simp: booted_def uart_slot_def less_Suc_eq numeral_3_eq_3 numeral_2_eq_2)
qed

text \<open>
  C9. The console works from end to end: after the start-up, \<open>write\<close> on standard output goes
  through the descriptor and the device table to the JTAG UART driver and returns its count having
  sent exactly the bytes of the buffer to the device, in order, when the host drains the line;
  \<open>write\<close> on standard input and \<open>read\<close> on standard output fail with EACCES and touch nothing else.
\<close>

theorem console_after_boot:
  assumes q: "boot_quiet al (bt_irq T)" and im: "boot_image al T null iname con i2c s"
    and u: "devs (bt_env T) (bt_uart_dev T) = small_uart_dev B 0x20000 nm" and h: "drains B 0x20000 busy"
    and n: "unat ptr + unat len < 2 ^ 32" "0 \<le> sint len"
  shows "\<exists>s1 s2 es. alt_boot B T s = Some ((), s1) \<and> ALT_WRITE (bt_env T) 1 ptr len s1 = Some (sint len, s2) \<and>
     trace s2 = trace s1 @ es \<and> writes_to 0x20000 es = map scast (read_bytes (bytes s) ptr (unat len)) \<and>
     ALT_WRITE (bt_env T) 0 ptr len s1 = Some (- 1, set_errno EACCES s1) \<and>
     ALT_READ (bt_env T) 1 ptr len s1 = Some (- 1, set_errno EACCES s1)"
proof -
  obtain s1 where s1: "alt_boot B T s = Some ((), s1)" "booted T null s s1"
    using boot_result [OF q im] by (auto simp: wp_iff)
  have d: "bt_uart_dev T \<noteq> 0" using boot_imageD(10) [OF im] by simp
  have "unat ptr + unat len = unat (ptr + len)" using n(1) by (simp add: unat_word_ariths)
  from small_write_loop_sends [OF h this, of s1] obtain s2 where
    s2: "small_write_loop B 0x20000 (ptr + len) ptr s1 = Some ((), s2)"
      "sent_by 0x20000 (read_bytes (bytes s1) ptr (unat len)) s1 s2" by blast
  have s: "alt_fd_list s1 1 = uart_slot (bt_uart_dev T) 0 O_WRONLY" "alt_fd_list s1 0 = uart_slot (bt_uart_dev T) 0 O_RDONLY"
    "bytes s1 = bytes s"
    using s1(2) by (simp_all add: booted_def)
  have w: "ALT_WRITE (bt_env T) 1 ptr len s1 = Some (sint len, s2)"
    using d n(2) by (simp add: ALT_WRITE_def fd_index_def s [simplified] uart_slot_def open_flags_def dev_at_def u
        small_uart_dev_def small_uart_write_def s2(1) errno_result_def)
  have e: "ALT_WRITE (bt_env T) 0 ptr len s1 = Some (- 1, set_errno EACCES s1)"
    "ALT_READ (bt_env T) 1 ptr len s1 = Some (- 1, set_errno EACCES s1)"
    by (simp_all add: ALT_WRITE_def ALT_READ_def fd_index_def s [simplified] uart_slot_def open_flags_def)
  from s2(2) obtain es where "trace s2 = trace s1 @ es" "writes_to 0x20000 es = map scast (read_bytes (bytes s) ptr (unat len))"
    by (auto simp: sent_by_def s)
  with s1(1) w e show ?thesis by blast
qed

text \<open>The start-up code never comes back, as its comments say.\<close>

lemma spin_forever_None: "spin_forever s = None"
proof (cases "spin_forever s")
  case (Some r)
  have False by (rule spin_forever.raw_induct [where P = "\<lambda>_ _. False", OF _ Some])
  then show ?thesis ..
qed

lemma alt_main_never_returns: "alt_main B T main s = None"
  by (auto simp: alt_main_def ALT_EXIT_def spin_forever_None bind_eq_None_conv split: prod.splits)

section \<open>Witness\<close>

text \<open>A board whose console has room at every poll, interrupted by the real handler of the system clock at every point.\<close>

definition demo_line :: "u32 bus" where
  "demo_line = \<lparr>bus_rd = (\<lambda>a h. (if a = 0x20004 then 0x400000 else 0, h)), bus_wr = (\<lambda>a d h. h), bus_delay = (\<lambda>us h. h)\<rparr>"

definition demo_boot_env :: "(u32, unit) i2c_st_scheme hal_env" where
  "demo_boot_env = \<lparr>alt_dev_list = 0x10, alt_fs_list = 0x20,
     devs = (\<lambda>d. if d = 0x98 then small_uart_dev demo_line 0x20000 0x310 else alt_dev_null 0x300)\<rparr>"

definition demo_boot :: "(u32, unit) i2c_st_scheme boot_env" where
  "demo_boot = \<lparr>bt_env = demo_boot_env, bt_timer_isr = 0x500, bt_i2c_isr = 0x600, bt_i2c_dev = 0x80,
     bt_i2c_list = 0x90, bt_uart_dev = 0x98, bt_console = 0x310, bt_cfg = zero_cfg,
     bt_irq = alt_avalon_timer_sc_irq demo_line (\<lambda>_ _ _. None) 0x30 0x20080,
     bt_ctors = [], bt_dtors = []\<rparr>"

definition demo_reset :: "u32 i2c_st" where
  "demo_reset = adv_state\<lparr>bytes := (\<lambda>_. 0)(0x300 := 0x69, 0x310 := 0x6A), tick_rate := 0, dev := i2c_hdmi_instance 0x300\<rparr>"

lemma demo_reset_sel [simp]:
  "dev demo_reset = i2c_hdmi_instance 0x300" "tick_rate demo_reset = 0" "alt_irq_active demo_reset = 0"
  "alt_fd_list demo_reset = alt_fd_list_init 0x40" "alt_max_fd demo_reset = - 1" "ring (links demo_reset) l []"
  "bytes demo_reset = (\<lambda>_. 0)(0x300 := 0x69, 0x310 := 0x6A)"
  by (simp_all add: demo_reset_def adv_state_def ring_def)

lemma demo_boot_sel [simp]:
  "bt_env demo_boot = demo_boot_env" "bt_timer_isr demo_boot = 0x500" "bt_i2c_isr demo_boot = 0x600"
  "bt_i2c_dev demo_boot = 0x80" "bt_i2c_list demo_boot = 0x90" "bt_uart_dev demo_boot = 0x98"
  "bt_console demo_boot = 0x310" "bt_ctors demo_boot = []" "alt_dev_list demo_boot_env = 0x10"
  "dv_name (devs demo_boot_env 0x80) = 0x300" "dv_name (devs demo_boot_env 0x98) = 0x310"
  "dv_open (devs demo_boot_env 0x98) = None"
  by (simp_all add: demo_boot_def demo_boot_env_def small_uart_dev_def alt_dev_null_def)

lemma demo_quiet: "boot_quiet 0x30 (bt_irq demo_boot)"
  by (simp add: demo_boot_def boot_timer_irq_quiet)

lemma demo_image: "boot_image 0x30 demo_boot 0x40 0x300 [0x6A] [0x69] demo_reset"
  by (auto simp: boot_image_def)

theorem boot_reaches_main_witness:
  "\<exists>s'. alt_boot demo_line demo_boot demo_reset = Some ((), s') \<and> tick_rate s' = 1000 \<and>
     fd_dev (alt_fd_list s' 1) = 0x98 \<and>
     alt_avalon_i2c_open demo_boot_env 0x90 0x300 s' = Some 0x80"
proof -
  show ?thesis
    using boot_reaches_main [OF demo_quiet demo_image, of demo_line] by auto
qed

theorem console_after_boot_witness:
  "\<exists>s1 s2 es. alt_boot demo_line demo_boot demo_reset = Some ((), s1) \<and>
     ALT_WRITE demo_boot_env 1 0x300 1 s1 = Some (1, s2) \<and> trace s2 = trace s1 @ es \<and> writes_to 0x20000 es = [0x69]"
proof -
  have u: "devs (bt_env demo_boot) (bt_uart_dev demo_boot) = small_uart_dev demo_line 0x20000 0x310"
    by (simp add: demo_boot_env_def)
  have d: "drains demo_line 0x20000 (\<lambda>_. 0)" by (simp add: drains_def demo_line_def)
  have r: "read_bytes (bytes demo_reset) 0x300 (unat (1 :: u32)) = [0x69]" "scast (0x69 :: u8) = (0x69 :: u32)" by simp_all
  show ?thesis
    using console_after_boot [OF demo_quiet demo_image u d, of "0x300" 1, unfolded r] r(2) by auto
qed

end
