(* ===== verification/HAL_Cache.thy ===== *)
theory HAL_Cache
  imports Bus_IO
begin

text \<open>
  The caches (\<open>HAL/src/alt_dcache_flush.c\<close>, \<open>alt_dcache_flush_no_writeback.c\<close>,
  \<open>alt_icache_flush.c\<close>, \<open>alt_icache_flush_all.c\<close>, \<open>alt_remap_cached.c\<close>) and uncached memory
  (\<open>alt_uncached_malloc.c\<close>, \<open>alt_uncached_free.c\<close>); \<open>alt_dcache_flush_all\<close> is in the theory
  App_Common.  The cache instructions are hardware: parameters that change the hardware state.
  \<open>memalign\<close> and \<open>free\<close> are newlib: parameters too.  The line is 32 bytes in both caches, the
  instruction cache has 4096 bytes.
\<close>

record 'h cache_ops =
  op_flushda :: "u32 \<Rightarrow> 'h \<Rightarrow> 'h"
  op_initda :: "u32 \<Rightarrow> 'h \<Rightarrow> 'h"
  op_flushi :: "u32 \<Rightarrow> 'h \<Rightarrow> 'h"
  op_flushp :: "'h \<Rightarrow> 'h"

section \<open>Flushing a range\<close>

text \<open>
  \<open>for (i = start; i < end; i += LINE_SIZE) op(i);\<close> with the final \<open>i\<close> as result.  The pointer
  may wrap around and never reach the end.
\<close>

partial_function (option) line_loop :: "(u32 \<Rightarrow> 'h \<Rightarrow> 'h) \<Rightarrow> u32 \<Rightarrow> u32 \<Rightarrow> (u32, ('h, 'x) mach_scheme) prog" where
  "line_loop f stop i s =
     (if i < stop then line_loop f stop (i + 32) (s\<lparr>hw := f i (hw s)\<rparr>) else Some (i, s))"

definition flush_range :: "(u32 \<Rightarrow> 'h \<Rightarrow> 'h) \<Rightarrow> u32 \<Rightarrow> u32 \<Rightarrow> (unit, ('h, 'x) mach_scheme) prog" where
  "flush_range f start len s = do {
     let stop = start + len;
     (i, s) \<leftarrow> line_loop f stop start s;
     Some ((), if start AND (32 - 1) \<noteq> 0 then s\<lparr>hw := f i (hw s)\<rparr> else s)
   }"

definition alt_dcache_flush :: "'h cache_ops \<Rightarrow> u32 \<Rightarrow> u32 \<Rightarrow> (unit, ('h, 'x) mach_scheme) prog" where
  "alt_dcache_flush C start len s = flush_range (op_flushda C) start len s"

definition alt_dcache_flush_no_writeback :: "'h cache_ops \<Rightarrow> u32 \<Rightarrow> u32 \<Rightarrow> (unit, ('h, 'x) mach_scheme) prog" where
  "alt_dcache_flush_no_writeback C start len s = flush_range (op_initda C) start len s"

definition alt_icache_flush :: "'h cache_ops \<Rightarrow> u32 \<Rightarrow> u32 \<Rightarrow> (unit, ('h, 'x) mach_scheme) prog" where
  "alt_icache_flush C start len s = do {
     let len = (if len > 4096 then 4096 else len);
     (_, s) \<leftarrow> flush_range (op_flushi C) start len s;
     Some ((), s\<lparr>hw := op_flushp C (hw s)\<rparr>)
   }"

definition alt_icache_flush_all :: "'h cache_ops \<Rightarrow> (unit, ('h, 'x) mach_scheme) prog" where
  "alt_icache_flush_all C s = alt_icache_flush C 0 4096 s"

section \<open>Bypassing the cache\<close>

definition alt_remap_cached :: "u32 \<Rightarrow> u32 \<Rightarrow> u32" where
  "alt_remap_cached ptr len = ptr AND NOT 0x80000000"

definition alt_uncached_malloc ::
  "'h cache_ops \<Rightarrow> (u32 \<Rightarrow> u32 \<Rightarrow> (u32, ('h, 'x) mach_scheme) prog) \<Rightarrow> u32 \<Rightarrow> (u32, ('h, 'x) mach_scheme) prog" where
  "alt_uncached_malloc C memalign nbytes s = do {
     let num_lines = (nbytes + 32 - 1) div 32;
     let aligned_size = num_lines * 32;
     (ptr, s) \<leftarrow> memalign 32 aligned_size s;
     (if ptr = 0 then Some (0, s)
      else do {
        (_, s) \<leftarrow> alt_dcache_flush C ptr aligned_size s;
        Some (ptr OR 0x80000000, s)
      })
   }"

definition alt_uncached_free ::
  "(u32 \<Rightarrow> (unit, ('h, 'x) mach_scheme) prog) \<Rightarrow> u32 \<Rightarrow> (unit, ('h, 'x) mach_scheme) prog" where
  "alt_uncached_free free ptr s = free (ptr AND NOT 0x80000000) s"

section \<open>Which lines are flushed\<close>

lemma line_loop_done: "\<not> i < stop \<Longrightarrow> line_loop f stop i s = Some (i, s)"
  by (subst line_loop.simps) simp

lemma line_loop_eq:
  fixes s :: "('h, 'x) mach_scheme"
  shows "unat i + 32 * n < 2 ^ 32 \<Longrightarrow> (\<And>k. k < n \<Longrightarrow> unat i + 32 * k < unat stop) \<Longrightarrow> unat stop \<le> unat i + 32 * n \<Longrightarrow>
     line_loop f stop i s =
       Some (i + of_nat (32 * n), s\<lparr>hw := fold f (map (\<lambda>k. i + of_nat (32 * k)) [0..<n]) (hw s)\<rparr>)"
proof (induction n arbitrary: i s)
  case 0
  then show ?case by (simp add: line_loop_done word_less_nat_alt)
next
  case (Suc n)
  have lt: "i < stop" using Suc.prems(2) [of 0] by (simp add: word_less_nat_alt)
  have u: "unat (i + 32) = unat i + 32" using Suc.prems(1) by (simp add: unat_word_ariths)
  have ih: "line_loop f stop (i + 32) s' = Some (i + 32 + of_nat (32 * n),
      s'\<lparr>hw := fold f (map (\<lambda>k. i + 32 + of_nat (32 * k)) [0..<n]) (hw s')\<rparr>)" for s' :: "('h, 'x) mach_scheme"
    by (rule Suc.IH) (use Suc.prems Suc.prems(2) [of "Suc _"] u in \<open>auto simp: add.assoc\<close>)
  have m: "map (\<lambda>k. i + of_nat (32 * k)) [0..<Suc n] = i # map (\<lambda>k. i + 32 + of_nat (32 * k)) [0..<n]"
    unfolding upt_conv_Cons [OF zero_less_Suc] map_Suc_upt [symmetric] by (simp add: algebra_simps)
  show ?case
    unfolding m using lt by (subst line_loop.simps) (simp add: ih algebra_simps del: upt_Suc)
qed

text \<open>The addresses a flush of \<open>len\<close> bytes from \<open>start\<close> names.\<close>

definition flush_points :: "u32 \<Rightarrow> u32 \<Rightarrow> u32 list" where
  "flush_points start len = map (\<lambda>k. start + of_nat (32 * k))
     [0 ..< (unat len + 31) div 32 + (if unat start mod 32 = 0 then 0 else 1)]"

lemma and_31: "(w :: u32) AND 31 = 0 \<longleftrightarrow> unat w mod 32 = 0"
proof -
  have "w AND 31 = take_bit 5 w" by (simp add: take_bit_eq_mask mask_eq_exp_minus_1)
  then have "w AND 31 = 0 \<longleftrightarrow> unat (take_bit 5 w) = 0" by (simp add: unat_eq_zero)
  then show ?thesis by (simp add: unat_mod_distrib take_bit_eq_mod)
qed

lemma flush_range_eq:
  assumes "unat start + unat len + 32 \<le> 2 ^ 32"
  shows "flush_range f start len s = Some ((), s\<lparr>hw := fold f (flush_points start len) (hw s)\<rparr>)"
proof -
  let ?n = "(unat len + 31) div 32"
  have n: "unat len \<le> 32 * ?n" "32 * ?n < unat len + 32" by linarith+
  have e: "unat (start + len) = unat start + unat len" using assms by (simp add: unat_word_ariths)
  have "line_loop f (start + len) start s =
       Some (start + of_nat (32 * ?n), s\<lparr>hw := fold f (map (\<lambda>k. start + of_nat (32 * k)) [0..<?n]) (hw s)\<rparr>)"
  proof (rule line_loop_eq)
    show "unat start + 32 * k < unat (start + len)" if "k < ?n" for k
      unfolding e using that by linarith
  qed (use n e assms in linarith)+
  then show ?thesis by (simp add: flush_range_def Let_def and_31 flush_points_def)
qed

end
