(* ===== verification/HAL_Cache_Claims.thy ===== *)
theory HAL_Cache_Claims
  imports HAL_Cache
begin

text \<open>
  What a flush of a range reaches: every line of the range, and for unaligned ranges one line more.
\<close>

lemma mem_flush_points:
  "p \<in> set (flush_points start len) \<longleftrightarrow>
     (\<exists>k < (unat len + 31) div 32 + (if unat start mod 32 = 0 then 0 else 1). p = start + of_nat (32 * k))"
  by (auto simp: flush_points_def)

lemma flush_point_unat:
  fixes start :: u32
  assumes "unat start + unat len + 32 \<le> 2 ^ 32" "k < (unat len + 31) div 32 + (if unat start mod 32 = 0 then 0 else 1)"
  shows "unat (start + of_nat (32 * k)) = unat start + 32 * k \<and> unat start + 32 * k < unat start + unat len + 32"
proof -
  have "32 * k < unat len + 32" using assms(2) by (auto split: if_splits)
  moreover have "unat (of_nat (32 * k) :: u32) = 32 * k"
    using assms(1) calculation by (simp only: unsigned_of_nat) (simp add: take_bit_nat_eq_self)
  ultimately show ?thesis using assms(1) by (subst unat_add_lem [THEN iffD1]) (simp_all del: of_nat_mult)
qed

lemma line_index:
  fixes b n x :: nat
  assumes "b \<le> x" "x < b + n"
  shows "x div 32 - b div 32 < (n + 31) div 32 + (if b mod 32 = 0 then 0 else 1)"
    "(b + 32 * (x div 32 - b div 32)) div 32 = x div 32"
proof -
  have d: "b div 32 \<le> x div 32" using assms(1) by (rule div_le_mono)
  then show "(b + 32 * (x div 32 - b div 32)) div 32 = x div 32" by simp
  show "x div 32 - b div 32 < (n + 31) div 32 + (if b mod 32 = 0 then 0 else 1)"
  proof (cases "b mod 32 = 0")
    case True
    then obtain c where "b = 32 * c" by (auto simp: mod_eq_0_iff_dvd dvd_def)
    with assms True show ?thesis by simp
  next
    case False
    have "x div 32 \<le> (b + n - 1) div 32" using assms by (intro div_le_mono) simp
    moreover have "(b + n - 1) div 32 \<le> b div 32 + (n + 31) div 32"
    proof -
      have b: "32 * (b div 32) + b mod 32 = b" by (rule mult_div_mod_eq)
      moreover have "b mod 32 < 32" by simp
      ultimately have "b + n - 1 \<le> (n + 31) + b div 32 * 32" by linarith
      then have "(b + n - 1) div 32 \<le> ((n + 31) + b div 32 * 32) div 32" by (rule div_le_mono)
      then show ?thesis by simp
    qed
    ultimately have "x div 32 - b div 32 < (n + 31) div 32 + 1" by linarith
    with False show ?thesis by simp
  qed
qed

lemma same_line:
  fixes b n x :: nat
  assumes "b \<le> x" "x < b + n" "b mod 32 + n \<le> 32"
  shows "x div 32 = b div 32"
proof -
  have b: "32 * (b div 32) + b mod 32 = b" by (rule mult_div_mod_eq)
  show ?thesis
  proof (rule div_nat_eqI)
    show "32 * (b div 32) \<le> x" using b assms(1) by linarith
    show "x < 32 * Suc (b div 32)" unfolding mult_Suc_right using b assms by linarith
  qed
qed

text \<open>
  C33. Flushing a range of the data cache writes back every line that a byte of the range lies in,
  whatever the alignment of its ends, and names no address more than a line past its end.
\<close>

theorem dcache_flush_covers:
  assumes "unat start + unat len + 32 \<le> 2 ^ 32"
  shows "\<exists>ps. alt_dcache_flush C start len s = Some ((), s\<lparr>hw := fold (op_flushda C) ps (hw s)\<rparr>) \<and>
     (\<forall>a :: u32. unat start \<le> unat a \<and> unat a < unat start + unat len \<longrightarrow> (\<exists>p \<in> set ps. unat p div 32 = unat a div 32)) \<and>
     (\<forall>p \<in> set ps. unat start \<le> unat p \<and> unat p < unat start + unat len + 32)"
proof (intro exI conjI allI impI ballI)
  show "alt_dcache_flush C start len s = Some ((), s\<lparr>hw := fold (op_flushda C) (flush_points start len) (hw s)\<rparr>)"
    unfolding alt_dcache_flush_def by (rule flush_range_eq [OF assms])
next
  fix a :: u32
  assume a: "unat start \<le> unat a \<and> unat a < unat start + unat len"
  let ?k = "unat a div 32 - unat start div 32"
  note k = line_index [OF conjunct1 [OF a] conjunct2 [OF a]]
  have "start + of_nat (32 * ?k) \<in> set (flush_points start len)" using k(1) by (auto simp: mem_flush_points)
  moreover have "unat (start + of_nat (32 * ?k)) div 32 = unat a div 32"
    using flush_point_unat [OF assms k(1)] k(2) by simp
  ultimately show "\<exists>p \<in> set (flush_points start len). unat p div 32 = unat a div 32" by blast
next
  fix p assume "p \<in> set (flush_points start len)"
  then show "unat start \<le> unat p" "unat p < unat start + unat len + 32"
    using flush_point_unat [OF assms] by (auto simp: mem_flush_points simp del: of_nat_mult)
qed

theorem dcache_flush_covers_witness:
  "\<exists>ps. alt_dcache_flush \<lparr>op_flushda = (#), op_initda = (#), op_flushi = (#), op_flushp = id\<rparr> 0x1F 2
       \<lparr>hw = [], trace = [], cpu_status = 1, cpu_ienable = 0\<rparr> = Some ((), \<lparr>hw = fold (#) ps [], trace = [], cpu_status = 1, cpu_ienable = 0\<rparr>) \<and>
     (\<exists>p \<in> set ps. unat p div 32 = 1)"
proof -
  have "unat (0x1F :: u32) \<le> unat (0x20 :: u32) \<and> unat (0x20 :: u32) < unat (0x1F :: u32) + unat (2 :: u32)" by simp
  then show ?thesis
    using dcache_flush_covers [of "0x1F" 2 "\<lparr>op_flushda = (#), op_initda = (#), op_flushi = (#), op_flushp = id\<rparr>"
        "\<lparr>hw = [], trace = [], cpu_status = 1, cpu_ienable = 0\<rparr>"] by fastforce
qed

text \<open>
  Discarding an unaligned range inside one line of the data cache discards a second line, which
  holds no byte of the range, without writing it back: data of others is lost.
\<close>

theorem no_writeback_drops_neighbour:
  assumes "unat start + 64 \<le> 2 ^ 32" "unat start mod 32 \<noteq> 0" "0 < unat len" "unat start mod 32 + unat len \<le> 32"
  shows "alt_dcache_flush_no_writeback C start len s =
       Some ((), s\<lparr>hw := op_initda C (start + 32) (op_initda C start (hw s))\<rparr>) \<and>
     (\<forall>a :: u32. unat start \<le> unat a \<and> unat a < unat start + unat len \<longrightarrow> unat a div 32 \<noteq> unat (start + 32) div 32)"
proof
  have "(unat len + 31) div 32 = 1" using assms(3,4) by (intro div_nat_eqI) simp_all
  then have "flush_points start len = [start, start + 32]" using assms(2) by (simp add: flush_points_def upt_rec)
  then show "alt_dcache_flush_no_writeback C start len s =
       Some ((), s\<lparr>hw := op_initda C (start + 32) (op_initda C start (hw s))\<rparr>)"
    using assms by (simp add: alt_dcache_flush_no_writeback_def flush_range_eq)
  have u: "unat (start + 32) = unat start + 32" using assms(1) by (simp add: unat_word_ariths)
  show "\<forall>a :: u32. unat start \<le> unat a \<and> unat a < unat start + unat len \<longrightarrow> unat a div 32 \<noteq> unat (start + 32) div 32"
  proof (intro allI impI)
    fix a :: u32 assume "unat start \<le> unat a \<and> unat a < unat start + unat len"
    then show "unat a div 32 \<noteq> unat (start + 32) div 32" unfolding u using same_line [of "unat start" "unat a" "unat len"] assms(4) by simp
  qed
qed

theorem no_writeback_drops_neighbour_witness:
  "alt_dcache_flush_no_writeback \<lparr>op_flushda = (#), op_initda = (#), op_flushi = (#), op_flushp = id\<rparr> 4 4
     \<lparr>hw = [], trace = [], cpu_status = 1, cpu_ienable = 0\<rparr> = Some ((), \<lparr>hw = [36, 4], trace = [], cpu_status = 1, cpu_ienable = 0\<rparr>)"
  using no_writeback_drops_neighbour [of 4 4 "\<lparr>op_flushda = (#), op_initda = (#), op_flushi = (#), op_flushp = id\<rparr>"
      "\<lparr>hw = [], trace = [], cpu_status = 1, cpu_ienable = 0\<rparr>"] by simp

section \<open>Uncached memory\<close>

text \<open>What \<open>alt_uncached_free\<close> gives back is what \<open>memalign\<close> returned, for memory below bit 31.\<close>

lemma uncached_pointer: "(p :: u32) AND 0x80000000 = 0 \<Longrightarrow> (p OR 0x80000000) AND NOT 0x80000000 = p"
  by (simp add: bit_eq_iff bit_simps) (metis bit_and_iff)

text \<open>Rounding up wraps: a request near 4 GiB asks for no memory at all.\<close>

lemma uncached_malloc_wraps:
  assumes "0xFFFFFFE0 < nbytes"
  shows "(nbytes + 32 - 1) div 32 * 32 = (0 :: u32)"
proof -
  have "0xFFFFFFE0 < unat nbytes" "unat nbytes < 2 ^ 32"
    using assms unsigned_less [of nbytes, where 'a = nat] by (simp_all add: word_less_nat_alt)
  then have "unat (nbytes + 31) < 32" by (simp add: unat_word_ariths mod_if, linarith)
  then have z: "(nbytes + 31) div 32 = 0" by (simp add: word_unat_eq_iff unat_div_distrib)
  have "nbytes + 32 - 1 = nbytes + 31" by simp
  then show ?thesis by (simp only: z) simp
qed

end
