(* ===== verification/HAL_Stdio.thy ===== *)
theory HAL_Stdio
  imports HAL_FD
begin

text \<open>
  The small formatted output of the HAL: \<open>HAL/src/alt_printf.c\<close>, \<open>alt_putchar.c\<close>,
  \<open>alt_putstr.c\<close>, \<open>alt_getchar.c\<close>.  Neither direct drivers nor semihosting are configured, so a
  character goes to newlib's \<open>putchar\<close>, a string to \<open>fputs\<close>, input comes from \<open>getchar\<close>: these
  three are parameters.

  The variable arguments are 32-bit words, as the Nios II passes \<open>int\<close>, \<open>unsigned long\<close> and
  pointers; taking one that was not passed has no defined result, and so has a shift by a
  negative distance.  A \<open>char\<close> is signed and is promoted to \<open>int\<close> for \<open>alt_putchar\<close>.
\<close>

type_synonym 's putchar_fn = "u32 \<Rightarrow> (int, 's) prog"

definition alt_putchar :: "'s putchar_fn \<Rightarrow> u32 \<Rightarrow> (int, 's) prog" where
  "alt_putchar putc c s = putc c s"

definition alt_putstr :: "(u32 \<Rightarrow> (int, 's) prog) \<Rightarrow> u32 \<Rightarrow> (int, 's) prog" where
  "alt_putstr fputs str s = fputs str s"

definition alt_getchar :: "(int, 's) prog \<Rightarrow> (int, 's) prog" where
  "alt_getchar getc s = getc s"

section \<open>alt_printf\<close>

text \<open>\<open>while (!(v & (0xF << digit_shift))) digit_shift -= 4;\<close>\<close>

function first_digit :: "u32 \<Rightarrow> int \<Rightarrow> int option" where
  "first_digit v digit_shift =
     (if digit_shift < 0 then None
      else if v AND push_bit (nat digit_shift) 0xF \<noteq> 0 then Some digit_shift
      else first_digit v (digit_shift - 4))"
  by pat_completeness auto
termination by (relation "measure (\<lambda>(_, d). nat (d + 4))") auto

declare first_digit.simps [simp del]

definition digit_char :: "u32 \<Rightarrow> u8" where
  "digit_char digit = (if digit \<le> 9 then 0x30 + ucast digit else 0x61 + ucast digit - 10)"

text \<open>\<open>for (; digit_shift >= 0; digit_shift -= 4)\<close>\<close>

function print_digits :: "'s putchar_fn \<Rightarrow> u32 \<Rightarrow> int \<Rightarrow> (unit, 's) prog" where
  "print_digits putc v digit_shift s =
     (if digit_shift \<ge> 0 then do {
        let digit = drop_bit (nat digit_shift) (v AND push_bit (nat digit_shift) 0xF);
        (_, s) \<leftarrow> alt_putchar putc (scast (digit_char digit)) s;
        print_digits putc v (digit_shift - 4) s
      } else Some ((), s))"
  by pat_completeness auto
termination by (relation "measure (\<lambda>(_, _, d, _). nat (d + 4))") auto

declare print_digits.simps [simp del]

definition print_hex :: "'s putchar_fn \<Rightarrow> u32 \<Rightarrow> (unit, 's) prog" where
  "print_hex putc v s =
     (if v = 0 then do { (_, s) \<leftarrow> alt_putchar putc 0x30 s; Some ((), s) }
      else do { d \<leftarrow> first_digit v 28; print_digits putc v d s })"

text \<open>\<open>while (*s) alt_putchar(*s++);\<close>\<close>

partial_function (option) print_string :: "('h, 'x) hal_scheme putchar_fn \<Rightarrow> u32 \<Rightarrow> (unit, ('h, 'x) hal_scheme) prog" where
  "print_string putc p s =
     (if bytes s p \<noteq> 0 then do {
        (_, s) \<leftarrow> alt_putchar putc (scast (bytes s p)) s;
        print_string putc (p + 1) s
      } else Some ((), s))"

text \<open>The text of the format at \<open>w\<close>, with the arguments not yet taken.\<close>

partial_function (option) printf_loop ::
  "('h, 'x) hal_scheme putchar_fn \<Rightarrow> u32 \<Rightarrow> u32 list \<Rightarrow> (unit, ('h, 'x) hal_scheme) prog" where
  "printf_loop putc w args s =
     (let c = bytes s w; w = w + 1 in
      if c = 0 then Some ((), s)
      else if c \<noteq> 0x25 then do {
        (_, s) \<leftarrow> alt_putchar putc (scast c) s;
        printf_loop putc w args s
      } else
        (let c = bytes s w; w = w + 1 in
         if c = 0 then Some ((), s)
         else if c = 0x25 then do {
           (_, s) \<leftarrow> alt_putchar putc (scast c) s;
           printf_loop putc w args s
         } else if c = 0x63 then
           (case args of [] \<Rightarrow> None | v # args \<Rightarrow> do {
              (_, s) \<leftarrow> alt_putchar putc v s;
              printf_loop putc w args s
            })
         else if c = 0x78 then
           (case args of [] \<Rightarrow> None | v # args \<Rightarrow> do {
              (_, s) \<leftarrow> print_hex putc v s;
              printf_loop putc w args s
            })
         else if c = 0x73 then
           (case args of [] \<Rightarrow> None | p # args \<Rightarrow> do {
              (_, s) \<leftarrow> print_string putc p s;
              printf_loop putc w args s
            })
         else printf_loop putc w args s))"

definition alt_printf :: "('h, 'x) hal_scheme putchar_fn \<Rightarrow> u32 \<Rightarrow> u32 list \<Rightarrow> (unit, ('h, 'x) hal_scheme) prog" where
  "alt_printf putc fmt args s = printf_loop putc fmt args s"

end
