(* ===== verification/Radix.thy ===== *)
theory Radix
  imports Prelude
begin

text \<open>
  Numerals: the digits of a number in a base, by the usual recursion on the quotient, the same
  digits by position, and their characters.  The two formatted outputs of the HAL are measured
  against it (theories HAL_Stdio_Claims and HAL_Log_Props).
\<close>

fun radix :: "nat \<Rightarrow> nat \<Rightarrow> nat list" where
  "radix b n = (if b < 2 \<or> n < b then [n] else radix b (n div b) @ [n mod b])"

declare radix.simps [simp del]

definition radix_value :: "nat \<Rightarrow> nat list \<Rightarrow> nat" where
  "radix_value b ds = foldl (\<lambda>n d. b * n + d) 0 ds"

lemma radix_step: "2 \<le> b \<Longrightarrow> b \<le> n \<Longrightarrow> radix b n = radix b (n div b) @ [n mod b]"
  by (simp add: radix.simps [of b n])

lemma radix_small: "n < b \<Longrightarrow> radix b n = [n]"
  by (simp add: radix.simps)

lemma radix_value_radix: "2 \<le> b \<Longrightarrow> radix_value b (radix b n) = n"
proof (induction b n rule: radix.induct)
  case (1 b n)
  then show ?case by (subst radix.simps) (auto simp: radix_value_def)
qed

lemma radix_nonempty: "radix b n \<noteq> []"
  by (subst radix.simps) simp

lemma radix_digit: "2 \<le> b \<Longrightarrow> d \<in> set (radix b n) \<Longrightarrow> d < b"
proof (induction b n rule: radix.induct)
  case (1 b n)
  from 1 show ?case by (cases "n < b") (auto simp: radix_small radix_step)
qed

text \<open>The digits by position, the most significant first.\<close>

lemma radix_positions:
  assumes b: "2 \<le> b"
  shows "n < b ^ Suc k \<Longrightarrow> k = 0 \<or> b ^ k \<le> n \<Longrightarrow> radix b n = map (\<lambda>i. n div b ^ i mod b) (rev [0..<Suc k])"
proof (induction k arbitrary: n)
  case 0
  then show ?case by (simp add: radix_small)
next
  case (Suc k)
  have big: "b ^ Suc k \<le> n" using Suc.prems(2) by simp
  have "n div b < b ^ Suc k"
    using Suc.prems(1) b by (simp add: div_less_iff_less_mult mult.commute)
  moreover have "b ^ k \<le> n div b"
    using div_le_mono [OF big, of b] b by simp
  ultimately have ih: "radix b (n div b) = map (\<lambda>i. n div b div b ^ i mod b) (rev [0..<Suc k])"
    by (intro Suc.IH) auto
  have "b \<le> n"
    using le_trans [OF _ big, of b] b by (simp add: one_le_power)
  then have "radix b n = radix b (n div b) @ [n mod b]" using b by (rule radix_step [rotated])
  also have "\<dots> = map (\<lambda>i. n div b ^ Suc i mod b) (rev [0..<Suc k]) @ [n mod b]"
    unfolding ih by (simp add: div_mult2_eq)
  also have "\<dots> = map (\<lambda>i. n div b ^ i mod b) (rev (0 # map Suc [0..<Suc k]))"
    by (simp add: rev_map)
  also have "0 # map Suc [0..<Suc k] = [0..<Suc (Suc k)]"
    by (simp add: map_Suc_upt upt_conv_Cons del: upt_Suc)
  finally show ?case .
qed

text \<open>As many digits as the number needs, and no zero in front.\<close>

lemma radix_shape:
  assumes b: "2 \<le> b"
  shows "n < b ^ Suc k \<Longrightarrow> length (radix b n) \<le> Suc k \<and> (radix b n ! 0 = 0 \<longrightarrow> n = 0 \<and> length (radix b n) = 1)"
proof (induction k arbitrary: n)
  case 0
  then show ?case by (simp add: radix_small)
next
  case (Suc k)
  show ?case
  proof (cases "n < b")
    case True
    then show ?thesis by (simp add: radix_small)
  next
    case False
    have e: "radix b n = radix b (n div b) @ [n mod b]"
      by (rule radix_step) (use False b in simp_all)
    have "n div b < b ^ Suc k"
      using Suc.prems b by (simp add: div_less_iff_less_mult mult.commute)
    note ih = Suc.IH [OF this]
    have "n div b \<noteq> 0" using False b by (simp add: div_eq_0_iff)
    moreover have "radix b n ! 0 = radix b (n div b) ! 0"
      unfolding e using radix_nonempty [of b "n div b"] by (simp add: nth_append)
    ultimately show ?thesis using ih unfolding e by simp
  qed
qed

text \<open>The position of the first digit.\<close>

lemma radix_top:
  assumes "2 \<le> b" "(n :: nat) < b ^ Suc m"
  obtains k where "k \<le> m" "n < b ^ Suc k" "k = 0 \<or> b ^ k \<le> n"
proof -
  have "\<exists>k \<le> m. n < b ^ Suc k \<and> (k = 0 \<or> b ^ k \<le> n)"
    using assms(2)
  proof (induction m)
    case (Suc m)
    show ?case
    proof (cases "n < b ^ Suc m")
      case True
      from Suc.IH [OF this] show ?thesis by (auto intro: le_SucI)
    next
      case False
      then show ?thesis using Suc.prems by (intro exI [of _ "Suc m"]) (auto simp: not_less)
    qed
  qed auto
  then show thesis using that by blast
qed

section \<open>Characters\<close>

definition digit_text :: "bool \<Rightarrow> nat \<Rightarrow> u8" where
  "digit_text upper n = (if n < 10 then of_nat (48 + n) else of_nat ((if upper then 55 else 87) + n))"

definition digit_value :: "u8 \<Rightarrow> nat" where
  "digit_value c = (if unat c < 58 then unat c - 48 else if unat c < 97 then unat c - 55 else unat c - 87)"

lemma unat_digit_text:
  "n < 16 \<Longrightarrow> unat (digit_text upper n) = (if n < 10 then 48 + n else if upper then 55 + n else 87 + n)"
  by (auto simp: digit_text_def unat_of_nat simp flip: of_nat_add)

lemma digit_value_text [simp]: "n < 16 \<Longrightarrow> digit_value (digit_text upper n) = n"
  by (simp add: digit_value_def unat_digit_text)

lemma digit_text_zero: "n < 16 \<Longrightarrow> digit_text upper n = 0x30 \<longleftrightarrow> n = 0"
  using digit_value_text [of n upper] digit_value_text [of 0 upper]
  by (metis digit_text_def add_0_right of_nat_numeral zero_less_numeral)

lemma digit_text_nonzero: "n < 16 \<Longrightarrow> digit_text upper n \<noteq> 0"
  using unat_digit_text [of n upper] by (auto split: if_splits)

lemma digit_text_decimal: "n < 10 \<Longrightarrow> digit_text upper n = 0x30 + of_nat n"
  by (simp add: digit_text_def)

text \<open>Reading the characters back.\<close>

definition text_value :: "nat \<Rightarrow> u8 list \<Rightarrow> nat" where
  "text_value b cs = radix_value b (map digit_value cs)"

lemma text_value_radix:
  assumes "2 \<le> b" "b \<le> 16"
  shows "text_value b (map (digit_text upper) (radix b n)) = n"
proof -
  have "map digit_value (map (digit_text upper) (radix b n)) = radix b n"
    unfolding map_map by (rule map_idI) (use radix_digit [OF assms(1)] assms(2) in force)
  then show ?thesis by (simp add: text_value_def radix_value_radix assms(1))
qed

end
