(* ===== verification/HAL_Stdio_Claims.thy ===== *)
theory HAL_Stdio_Claims
  imports HAL_Stdio Radix
begin

text \<open>
  What \<open>alt_printf\<close> prints.  A format is read as a sequence of pieces, each with its bytes in
  the format, the arguments it takes and the characters it hands to \<open>putchar\<close>; the reference
  for \<open>%x\<close> is the usual recursion on the quotient by 16.  The loops of the code (a search for the
  leading digit, a mask and a shift for each digit) are shown to print exactly that.
\<close>

section \<open>Reference: base 16\<close>

definition hex_text :: "nat \<Rightarrow> u8 list" where
  "hex_text n = map (digit_text False) (radix 16 n)"

definition hex_value :: "u8 list \<Rightarrow> nat" where
  "hex_value cs = text_value 16 cs"

lemma hex_value_text: "hex_value (hex_text n) = n"
  by (simp add: hex_value_def hex_text_def text_value_radix)

lemma hex_text_positions:
  "n < 16 ^ Suc k \<Longrightarrow> k = 0 \<or> 16 ^ k \<le> n \<Longrightarrow>
   hex_text n = map (\<lambda>i. digit_text False (n div 16 ^ i mod 16)) (rev [0..<Suc k])"
  by (simp add: hex_text_def radix_positions del: upt_Suc)

lemma hex_text_shape:
  assumes "n < 16 ^ Suc k"
  shows "hex_text n \<noteq> [] \<and> length (hex_text n) \<le> Suc k \<and>
     (hex_text n ! 0 = 0x30 \<longrightarrow> n = 0 \<and> length (hex_text n) = 1)"
  using radix_shape [of 16 n k] assms radix_nonempty [of 16 n] radix_digit [of 16 "radix 16 n ! 0" n]
  by (auto simp: hex_text_def digit_text_zero)

section \<open>The digits of a word\<close>

lemma masked_digit:
  "v AND push_bit n 15 = push_bit n (drop_bit n v AND 15)" for v :: u32
  by (rule bit_word_eqI) (auto simp: bit_simps)

lemma shifted_digit: "drop_bit n (v AND push_bit n 15) = drop_bit n v AND 15" if "n \<le> 28" for v :: u32
proof (rule bit_word_eqI)
  fix i :: nat
  assume "i < LENGTH(32)"
  have "bit (15 :: u32) i \<longleftrightarrow> i < 4"
    using bit_mask_iff [where 'a = u32, of 4 i] \<open>i < LENGTH(32)\<close> by (simp add: mask_eq_exp_minus_1)
  then show "bit (drop_bit n (v AND push_bit n 15)) i = bit (drop_bit n v AND 15) i"
    using that \<open>i < LENGTH(32)\<close> by (auto simp: bit_simps)
qed

lemma unat_digit: "unat (drop_bit (4 * k) v AND 15) = unat v div 16 ^ k mod 16" for v :: u32
proof -
  have m: "(15 :: u32) = mask 4" by (simp add: mask_eq_exp_minus_1)
  have "unat (drop_bit (4 * k) v AND 15) = unat (take_bit 4 (drop_bit (4 * k) v))"
    unfolding m by (simp only: take_bit_eq_mask)
  also have "\<dots> = take_bit 4 (unat (drop_bit (4 * k) v))"
    by (rule unsigned_take_bit_eq)
  also have "\<dots> = take_bit 4 (drop_bit (4 * k) (unat v))"
    by (simp only: unat_drop_bit_eq)
  also have "\<dots> = unat v div 2 ^ (4 * k) mod 2 ^ 4"
    by (simp only: take_bit_eq_mod drop_bit_eq_div)
  finally show ?thesis by (simp add: power_mult)
qed

lemma digit_char_ref:
  assumes "unat d < 16"
  shows "digit_char d = digit_text False (unat d)"
proof -
  have "ucast d = (of_nat (unat d) :: u8)" by (simp add: of_nat_unat)
  then show ?thesis
    by (auto simp: digit_char_def digit_text_def word_le_nat_alt)
qed

section \<open>The two loops of \<open>%x\<close>\<close>

abbreviation (input) hex_char :: "nat \<Rightarrow> u32" where
  "hex_char n \<equiv> scast (digit_text False n)"

lemma first_digit_top:
  "unat v < 16 ^ Suc k \<Longrightarrow> v \<noteq> 0 \<Longrightarrow> k \<le> 7 \<Longrightarrow>
   \<exists>j \<le> k. first_digit v (4 * int k) = Some (4 * int j) \<and> unat v < 16 ^ Suc j \<and> (j = 0 \<or> 16 ^ j \<le> unat v)"
proof (induction k)
  case 0
  have "v AND push_bit 0 15 \<noteq> 0"
    using unat_digit [of 0 v] 0 by (auto simp: unat_eq_zero)
  then show ?case using 0 by (subst first_digit.simps) auto
next
  case (Suc k)
  show ?case
  proof (cases "unat v < 16 ^ Suc k")
    case True
    have "unat (drop_bit (4 * Suc k) v AND 15) = 0"
      unfolding unat_digit using True by simp
    then have "v AND push_bit (4 * Suc k) 15 = 0"
      by (simp add: masked_digit unat_eq_zero del: mult_Suc_right)
    then have "first_digit v (4 * int (Suc k)) = first_digit v (4 * int k)"
      by (subst first_digit.simps) (simp add: nat_mult_distrib nat_add_distrib)
    with Suc True show ?thesis by (metis Suc_leD le_SucI)
  next
    case False
    have "0 < unat v div 16 ^ Suc k" using False by (simp add: div_greater_zero_iff)
    moreover have "unat v div 16 ^ Suc k < 16"
      using Suc.prems(1) by (simp add: div_less_iff_less_mult mult.commute)
    ultimately have "unat (drop_bit (4 * Suc k) v AND 15) \<noteq> 0"
      unfolding unat_digit by simp
    moreover have "drop_bit (4 * Suc k) (v AND push_bit (4 * Suc k) 15) = drop_bit (4 * Suc k) v AND 15"
      by (rule shifted_digit) (use Suc.prems(3) in simp)
    ultimately have "v AND push_bit (4 * Suc k) 15 \<noteq> 0" by (metis drop_bit_of_0 unat_0)
    then have "first_digit v (4 * int (Suc k)) = Some (4 * int (Suc k))"
      by (subst first_digit.simps) (simp add: nat_mult_distrib nat_add_distrib)
    with Suc.prems False show ?thesis by (metis le_refl not_less)
  qed
qed

text \<open>A \<open>putchar\<close> that accepts every character: \<open>out\<close> is what it has accepted, and the memory
  of the program stays as it is.\<close>

definition accepts :: "('h, 'x) hal_scheme putchar_fn \<Rightarrow> (('h, 'x) hal_scheme \<Rightarrow> u32 list) \<Rightarrow> bool" where
  "accepts putc out \<longleftrightarrow>
     (\<forall>c s. wp (putc c s) (\<lambda>_ s'. out s' = out s @ [c] \<and> bytes s' = bytes s))"

abbreviation printed :: "(('h, 'x) hal_scheme \<Rightarrow> u32 list) \<Rightarrow> ('h, 'x) hal_scheme \<Rightarrow> u32 list
    \<Rightarrow> 'r \<Rightarrow> ('h, 'x) hal_scheme \<Rightarrow> bool" where
  "printed out s cs \<equiv> \<lambda>_ s'. out s' = out s @ cs \<and> bytes s' = bytes s"

lemma putchar_printed: "accepts putc out \<Longrightarrow> wp (alt_putchar putc c s) (printed out s [c])"
  by (simp add: accepts_def alt_putchar_def)

lemma print_digits_printed:
  assumes P: "accepts putc out"
  shows "k \<le> 8 \<Longrightarrow> wp (print_digits putc v (4 * int k - 4) s)
     (printed out s (map (\<lambda>i. hex_char (unat v div 16 ^ i mod 16)) (rev [0..<k])))"
proof (induction k arbitrary: s)
  case 0
  then show ?case by (subst print_digits.simps) simp
next
  case (Suc k)
  have d: "drop_bit (4 * k) (v AND push_bit (4 * k) 15) = drop_bit (4 * k) v AND 15"
    by (rule shifted_digit) (use Suc.prems in simp)
  have c: "digit_char (drop_bit (4 * k) v AND 15) = digit_text False (unat v div 16 ^ k mod 16)"
    by (subst digit_char_ref) (simp_all add: unat_digit)
  have n: "nat (4 * int (Suc k) - 4) = 4 * k" "4 * int (Suc k) - 4 - 4 = 4 * int k - 4"
    "0 \<le> 4 * int (Suc k) - 4" by simp_all
  show ?case
    unfolding print_digits.simps [of _ _ "4 * int (Suc k) - 4"] if_P [OF n(3)] n(1,2) d Let_def c wp_bind prod.case
    by (rule wp_mono [OF putchar_printed [OF P]], rule wp_mono [OF Suc.IH]) (use Suc.prems in auto)
qed

lemma print_hex_printed:
  assumes P: "accepts putc out"
  shows "wp (print_hex putc v s) (printed out s (map scast (hex_text (unat v))))"
proof (cases "v = 0")
  case True
  then show ?thesis
    using putchar_printed [OF P, of "0x30" s]
    by (auto simp: print_hex_def hex_text_def radix.simps digit_text_def elim: wp_mono)
next
  case False
  obtain j where j: "j \<le> 7" "first_digit v 28 = Some (4 * int j)" "unat v < 16 ^ Suc j"
      "j = 0 \<or> 16 ^ j \<le> unat v"
    using first_digit_top [of v 7] unsigned_less [of v, where 'a = nat] False by auto
  have "4 * int (Suc j) - 4 = 4 * int j" by simp
  with print_digits_printed [OF P, of "Suc j" v s] j hex_text_positions [OF j(3,4)] False
  show ?thesis by (simp add: print_hex_def o_def rev_map [symmetric] del: upt_Suc)
qed

lemma print_string_printed:
  assumes P: "accepts putc out"
  shows "cstr (bytes s) p cs \<Longrightarrow> wp (print_string putc p s) (printed out s (map scast cs))"
proof (induction cs arbitrary: p s)
  case Nil
  then show ?case by (subst print_string.simps) simp
next
  case (Cons c cs)
  then have c: "bytes s p = c" "c \<noteq> 0" by simp_all
  show ?case
    unfolding print_string.simps [of putc p] if_P [OF c(2)] c(1) wp_bind prod.case
    by (rule wp_mono [OF putchar_printed [OF P]], rule wp_mono [OF Cons.IH]) (use Cons.prems in auto)
qed

section \<open>Pieces of a format\<close>

datatype piece = Plain u8 | Percent | Other u8 | Chr u32 | Hex u32 | Str u32 "u8 list"

primrec piece_fmt :: "piece \<Rightarrow> u8 list" where
  "piece_fmt (Plain c) = [c]"
| "piece_fmt Percent = [0x25, 0x25]"
| "piece_fmt (Other c) = [0x25, c]"
| "piece_fmt (Chr v) = [0x25, 0x63]"
| "piece_fmt (Hex v) = [0x25, 0x78]"
| "piece_fmt (Str p cs) = [0x25, 0x73]"

primrec piece_args :: "piece \<Rightarrow> u32 list" where
  "piece_args (Plain c) = []"
| "piece_args Percent = []"
| "piece_args (Other c) = []"
| "piece_args (Chr v) = [v]"
| "piece_args (Hex v) = [v]"
| "piece_args (Str p cs) = [p]"

primrec piece_out :: "piece \<Rightarrow> u32 list" where
  "piece_out (Plain c) = [scast c]"
| "piece_out Percent = [0x25]"
| "piece_out (Other c) = []"
| "piece_out (Chr v) = [v]"
| "piece_out (Hex v) = map scast (hex_text (unat v))"
| "piece_out (Str p cs) = map scast cs"

text \<open>A plain byte is no \<open>%\<close>; an unknown conversion is none of \<open>%\<close>, \<open>c\<close>, \<open>x\<close>, \<open>s\<close>; a string is where
  its argument points.\<close>

primrec piece_in :: "(u32 \<Rightarrow> u8) \<Rightarrow> piece \<Rightarrow> bool" where
  "piece_in m (Plain c) = (c \<noteq> 0x25)"
| "piece_in m Percent = True"
| "piece_in m (Other c) = (c \<notin> {0x25, 0x63, 0x78, 0x73})"
| "piece_in m (Chr v) = True"
| "piece_in m (Hex v) = True"
| "piece_in m (Str p cs) = cstr m p cs"

text \<open>One piece of the format, with the rest of it still to come.\<close>

lemma printf_piece:
  assumes P: "accepts putc out"
    and f: "cstr (bytes s) w (piece_fmt q @ fs)" and q: "piece_in (bytes s) q"
    and rst: "\<And>s'. out s' = out s @ piece_out q \<Longrightarrow> bytes s' = bytes s \<Longrightarrow>
      wp (printf_loop putc (w + of_nat (length (piece_fmt q))) args s') Q"
  shows "wp (printf_loop putc w (piece_args q @ args) s) Q"
proof -
  have two: "w + 2 = w + 1 + 1" by simp
  note step = printf_loop.simps [of putc w]
  show ?thesis
  proof (cases q)
    case (Plain c)
    then show ?thesis
      using f q rst by (subst step) (auto intro!: wp_mono [OF putchar_printed [OF P]])
  next
    case Percent
    then show ?thesis
      using f rst
      by (subst step) (auto simp: add.assoc intro!: wp_mono [OF putchar_printed [OF P, where c = 37]])
  next
    case (Other c)
    then show ?thesis using f q rst by (subst step) (auto simp: add.assoc)
  next
    case (Chr v)
    then show ?thesis
      using f rst by (subst step) (auto simp: add.assoc intro!: wp_mono [OF putchar_printed [OF P]])
  next
    case (Hex v)
    then show ?thesis
      using f rst by (subst step) (auto simp: add.assoc intro!: wp_mono [OF print_hex_printed [OF P]])
  next
    case (Str p cs)
    then show ?thesis
      using f q rst by (subst step) (auto simp: add.assoc intro!: wp_mono [OF print_string_printed [OF P]])
  qed
qed

lemma printf_pieces:
  assumes P: "accepts putc out"
  shows "cstr (bytes s) w (concat (map piece_fmt qs) @ trail) \<Longrightarrow> trail = [] \<or> trail = [0x25] \<Longrightarrow>
     (\<forall>q \<in> set qs. piece_in (bytes s) q) \<Longrightarrow>
     wp (printf_loop putc w (concat (map piece_args qs) @ spare) s) (printed out s (concat (map piece_out qs)))"
proof (induction qs arbitrary: w s)
  case Nil
  then show ?case by (subst printf_loop.simps) (auto simp: Let_def)
next
  case (Cons q qs)
  show ?case
    unfolding list.map concat.simps append_assoc
  proof (rule printf_piece [OF P])
    show "cstr (bytes s) w (piece_fmt q @ concat (map piece_fmt qs) @ trail)" using Cons.prems(1) by simp
    show "piece_in (bytes s) q" using Cons.prems(3) by simp
    fix s' :: "('a, 'b) hal_scheme"
    assume s': "out s' = out s @ piece_out q" "bytes s' = bytes s"
    have "cstr (bytes s') (w + of_nat (length (piece_fmt q))) (concat (map piece_fmt qs) @ trail)"
      using Cons.prems(1) s' by (cases q) (auto simp: add.assoc)
    from Cons.IH [OF this Cons.prems(2)] Cons.prems(3) s'
    show "wp (printf_loop putc (w + of_nat (length (piece_fmt q))) (concat (map piece_args qs) @ spare) s')
        (printed out s (piece_out q @ concat (map piece_out qs)))" by simp
  qed
qed

section \<open>Properties\<close>

text \<open>C32. \<open>alt_printf\<close> prints its format.  For a format made of plain bytes, \<open>%%\<close>, \<open>%c\<close>, \<open>%x\<close>, \<open>%s\<close> and
  unknown conversions, possibly with a lone \<open>%\<close> at its end, the call returns having passed to
  \<open>putchar\<close>, in order: the plain bytes; one \<open>%\<close> for \<open>%%\<close>; the argument itself for \<open>%c\<close>; for \<open>%x\<close> the
  base 16 numeral of the argument, in lower case, with no leading zero, for all 32-bit values; for \<open>%s\<close>
  the bytes up to the zero byte; nothing for an unknown conversion or the lone \<open>%\<close>.  Each
  conversion takes exactly its arguments, and arguments left over are not looked at.\<close>

theorem alt_printf_renders:
  assumes "accepts putc out"
    and "cstr (bytes s) fmt (concat (map piece_fmt qs) @ trail)" "trail = [] \<or> trail = [0x25]"
    and "\<forall>q \<in> set qs. piece_in (bytes s) q"
  shows "\<exists>s'. alt_printf putc fmt (concat (map piece_args qs) @ spare) s = Some ((), s') \<and>
    out s' = out s @ concat (map piece_out qs) \<and> bytes s' = bytes s"
  using printf_pieces [OF assms, of spare] by (auto simp: alt_printf_def wp_iff)

definition demo_print :: "u8 list \<Rightarrow> u32 list hal" where
  "demo_print fmt = \<lparr>hw = [], trace = [], cpu_status = 0, cpu_ienable = 0,
     alt_irq_active = 0, alt_priority_mask = -1, alt_irq = (\<lambda>_. \<lparr>ih_handler = 0, ih_context = 0\<rparr>),
     alt_instruction_exception_handler = 0, alt_fd_list = alt_fd_list_init 0x40, alt_max_fd = 2, errno = 0,
     links = \<lparr>ll_next = (\<lambda>a. a), ll_prev = (\<lambda>a. a)\<rparr>,
     bytes = (\<lambda>a. if unat a < length fmt then fmt ! unat a else 0), st_mode = (\<lambda>_. 0)\<rparr>"

definition demo_putc :: "u32 list hal putchar_fn" where
  "demo_putc c s = Some (sint c, s\<lparr>hw := hw s @ [c]\<rparr>)"

lemma demo_accepts: "accepts demo_putc hw"
  by (simp add: accepts_def demo_putc_def)

theorem alt_printf_renders_witness:
  "\<exists>s'. alt_printf demo_putc 0 [0xBEEF, 1] (demo_print [0x3D, 0x25, 0x78, 0x25, 0x7A, 0x25]) = Some ((), s') \<and>
     hw s' = [0x3D, 0x62, 0x65, 0x65, 0x66]"
proof -
  have "cstr (bytes (demo_print [0x3D, 0x25, 0x78, 0x25, 0x7A, 0x25])) 0
      (concat (map piece_fmt [Plain 0x3D, Hex 0xBEEF, Other 0x7A]) @ [0x25])"
    by (simp add: demo_print_def)
  from alt_printf_renders [OF demo_accepts this, of "[1]"] show ?thesis
    by (auto simp: demo_print_def hex_text_def radix.simps digit_text_def)
qed

text \<open>What \<open>%x\<close> prints can be read back.  For every 32-bit value the characters that \<open>alt_printf\<close>
  prints for \<open>%x\<close> read in base 16 give the value, there are at most eight of them, and the first is
  \<open>0\<close> only when it is the only one.\<close>

theorem printf_hex_round_trip:
  assumes "accepts putc out" "cstr (bytes s) fmt [0x25, 0x78]"
  shows "\<exists>cs s'. alt_printf putc fmt [v] s = Some ((), s') \<and> out s' = out s @ map scast cs \<and>
    hex_value cs = unat v \<and> cs \<noteq> [] \<and> length cs \<le> 8 \<and> (cs ! 0 = 0x30 \<longrightarrow> length cs = 1)"
proof -
  have "wp (printf_loop putc fmt [v] s) (printed out s (map scast (hex_text (unat v))))"
    using printf_pieces [OF assms(1), where qs = "[Hex v]" and trail = "[]" and spare = "[]"] assms(2) by simp
  then show ?thesis
    using hex_text_shape [of "unat v" 7] unsigned_less [of v, where 'a = nat]
    by (force simp: alt_printf_def wp_iff hex_value_text intro!: exI [of _ "hex_text (unat v)"])
qed

theorem printf_hex_round_trip_witness:
  "\<exists>cs s'. alt_printf demo_putc 0 [0xC0DE] (demo_print [0x25, 0x78]) = Some ((), s') \<and>
     hw s' = map scast cs \<and> hex_value cs = 0xC0DE"
proof -
  have "cstr (bytes (demo_print [0x25, 0x78])) 0 [0x25, 0x78]" by (simp add: demo_print_def)
  from printf_hex_round_trip [OF demo_accepts this, of "0xC0DE"] show ?thesis
    by (fastforce simp: demo_print_def)
qed

end
