(* ===== verification/HAL_Log.thy ===== *)
theory HAL_Log
  imports JTAG_UART
begin

text \<open>
  The logging of the HAL (\<open>HAL/src/alt_log_printf.c\<close>, \<open>HAL/inc/sys/alt_log_printf.h\<close>), compiled
  when \<open>ALT_LOG_ENABLE\<close> is defined, here with the JTAG UART as the port: a small \<open>printf\<close> that
  polls the device, and the messages of the drivers.  The board support package of the
  repository leaves it off, so the other theories do not call it.

  The C flags and counters are fields of \<open>log_st\<close>; the string literals and the echo buffer are
  at addresses that the linker chose, in \<open>log_env\<close>.  An \<open>int\<close> is a 32-bit word read as a signed
  number; \<open>int\<close>s that only hold 0 or 1 are truth values.  Variable arguments are as in the
  theory HAL_Stdio.
\<close>

record 'h log_st = "'h uart_st" +
  alt_log_boot_on_flag :: u32
  alt_log_write_on_flag :: u8
  alt_log_sys_clk_on_flag :: u8
  alt_log_jtag_uart_alarm_on_flag :: u8
  alt_log_jtag_uart_isr_on_flag :: u8
  alt_log_jtag_uart_startup_info_on_flag :: u8
  alt_log_sys_clk_count :: u32
  alt_system_clock_in_sec :: u32

record log_env =
  ALT_LOG_PORT_BASE :: u32
  alt_log_write_buf :: u32
  str_control_small :: u32
  str_control :: u32
  str_alarm :: u32
  str_startup :: u32
  str_irq :: u32
  str_echo :: u32
  str_clock :: u32
  alt_log_jtag_uart_alarm_1 :: u32
  report_log_fn :: u32

section \<open>Characters\<close>

partial_function (option) log_wait :: "'h bus \<Rightarrow> u32 \<Rightarrow> (unit, ('h, 'x) hal_scheme) prog" where
  "log_wait B base s = do {
     (v, s) \<leftarrow> IORD B base 1 s;
     (if v AND WSPACE_MSK = 0 then log_wait B base s else Some ((), s))
   }"

definition alt_log_txchar :: "'h bus \<Rightarrow> u32 \<Rightarrow> u32 \<Rightarrow> (unit, ('h, 'x) hal_scheme) prog" where
  "alt_log_txchar B c base s = do {
     (_, s) \<leftarrow> log_wait B base s;
     IOWR B base 0 c s
   }"

text \<open>\<open>while (r-- > 0)\<close>\<close>

function alt_log_repchar :: "'h bus \<Rightarrow> u8 \<Rightarrow> u32 \<Rightarrow> u32 \<Rightarrow> (unit, ('h, 'x) hal_scheme) prog" where
  "alt_log_repchar B c r base s =
     (if 0 < sint r then do {
        (_, s) \<leftarrow> alt_log_txchar B (scast c) base s;
        alt_log_repchar B c (r - 1) base s
      } else Some ((), s))"
  by pat_completeness auto
termination
proof (relation "measure (\<lambda>(_, _, r, _, _). nat (sint r))", goal_cases)
  case (2 B c r base s a b x)
  then have "sint (r - 1) = sint r - 1"
    using sint_ge [of r] sint_lt [of r] by (simp add: sint_word_ariths signed_take_bit_int_eq_self)
  with 2 show ?case by simp
qed simp

declare alt_log_repchar.simps [simp del]

section \<open>Integers\<close>

text \<open>
  The largest power of the base that is not above the value, and the number of digits.  The
  division by a base of 0 has no defined result.
\<close>

partial_function (option) count_digits :: "u32 \<Rightarrow> u32 \<Rightarrow> u32 \<Rightarrow> u32 \<Rightarrow> (u32 \<times> u32) option" where
  "count_digits fmtBase vShrink p digitCount =
     (if fmtBase = 0 then None
      else let vShrink = vShrink div fmtBase in
        if vShrink > 0 then count_digits fmtBase vShrink (p * fmtBase) (digitCount + 1)
        else Some (p, digitCount))"

definition digit_of :: "bool \<Rightarrow> u32 \<Rightarrow> u8" where
  "digit_of fmtCase q =
     (let d = ucast q + 0x30
      in if d > 0x39 then d + ((if fmtCase then 0x41 else 0x61) - 0x30 - 10) else d)"

partial_function (option) print_parts :: "'h bus \<Rightarrow> u32 \<Rightarrow> u32 \<Rightarrow> bool \<Rightarrow> u32 \<Rightarrow> u32 \<Rightarrow> (unit, ('h, 'x) hal_scheme) prog" where
  "print_parts B base fmtBase fmtCase v p s =
     (if p \<noteq> 0 then do {
        (_, s) \<leftarrow> alt_log_txchar B (ucast (digit_of fmtCase (v div p))) base s;
        print_parts B base fmtBase fmtCase (v mod p) (p div fmtBase) s
      } else Some ((), s))"

record pf_vars =
  fmtLeadingZero :: bool
  fmtLong :: bool
  fmtBeforeDecimal :: u32
  fmtAfterDecimal :: u32
  fmtBase :: u32
  fmtSigned :: bool
  fmtCase :: bool

text \<open>Leading characters and sign, before digits of which \<open>before\<close> says how many are missing.\<close>

definition print_lead :: "'h bus \<Rightarrow> u32 \<Rightarrow> bool \<Rightarrow> bool \<Rightarrow> u32 \<Rightarrow> (unit, ('h, 'x) hal_scheme) prog" where
  "print_lead B base zero neg before s =
     (if zero then
        (if neg then do {
           (_, s) \<leftarrow> alt_log_txchar B 0x2D base s;
           alt_log_repchar B 0x30 (before - 1) base s
         } else alt_log_repchar B 0x30 before base s)
      else do {
        (_, s) \<leftarrow> alt_log_repchar B 0x20 (if neg then before - 1 else before) base s;
        (if neg then alt_log_txchar B 0x2D base s else Some ((), s))
      })"

text \<open>The code at the label \<open>doIntegerPrint\<close>; \<open>long\<close> and \<open>int\<close> have the same width.\<close>

definition print_integer :: "'h bus \<Rightarrow> u32 \<Rightarrow> pf_vars \<Rightarrow> u32 \<Rightarrow> (unit, ('h, 'x) hal_scheme) prog" where
  "print_integer B base f v s = do {
     let neg = (fmtSigned f \<and> v AND 0x80000000 \<noteq> 0);
     let v = (if neg then NOT v + 1 else v);
     (p, digitCount) \<leftarrow> count_digits (fmtBase f) v 1 1;
     (_, s) \<leftarrow> print_lead B base (fmtLeadingZero f) neg (fmtBeforeDecimal f - digitCount) s;
     print_parts B base (fmtBase f) (fmtCase f) v p s
   }"

partial_function (option) log_string :: "'h bus \<Rightarrow> u32 \<Rightarrow> u32 \<Rightarrow> (unit, ('h, 'x) hal_scheme) prog" where
  "log_string B base p s =
     (if bytes s p \<noteq> 0 then do {
        (_, s) \<leftarrow> alt_log_txchar B (scast (bytes s p)) base s;
        log_string B base (p + 1) s
      } else Some ((), s))"

section \<open>alt_log_private_printf\<close>

datatype pf_state = Pf_chars | Pf_firstFmtChar | Pf_otherFmtChar

definition pf_init :: pf_vars where
  "pf_init = \<lparr>fmtLeadingZero = False, fmtLong = False, fmtBeforeDecimal = 0, fmtAfterDecimal = 0,
     fmtBase = 0, fmtSigned = False, fmtCase = False\<rparr>"

text \<open>What \<open>%\<close> resets.\<close>

definition pf_percent :: pf_vars where
  "pf_percent = \<lparr>fmtLeadingZero = False, fmtLong = False, fmtBeforeDecimal = -1, fmtAfterDecimal = -1,
     fmtBase = 10, fmtSigned = True, fmtCase = False\<rparr>"

text \<open>A digit of the width or of the precision.\<close>

definition pf_digit :: "u8 \<Rightarrow> pf_vars \<Rightarrow> pf_vars" where
  "pf_digit c f =
     (let d = scast (c - 0x30) in
      if sint (fmtAfterDecimal f) < 0 then
        f\<lparr>fmtBeforeDecimal := (if sint (fmtBeforeDecimal f) < 0 then 0 else fmtBeforeDecimal f * 10) + d\<rparr>
      else f\<lparr>fmtAfterDecimal := fmtAfterDecimal f * 10 + d\<rparr>)"

text \<open>The letters \<open>d i u o x X\<close>: the variables with which the integer is printed.\<close>

definition pf_integer :: "u8 \<Rightarrow> pf_vars \<Rightarrow> pf_vars option" where
  "pf_integer c f =
     (if c = 0x64 \<or> c = 0x69 then Some f
      else if c = 0x75 then Some (f\<lparr>fmtSigned := False\<rparr>)
      else if c = 0x6F then Some (f\<lparr>fmtSigned := False, fmtBase := 8\<rparr>)
      else if c = 0x78 then Some (f\<lparr>fmtSigned := False, fmtBase := 16\<rparr>)
      else if c = 0x58 then Some (f\<lparr>fmtSigned := False, fmtBase := 16, fmtCase := True\<rparr>)
      else None)"

text \<open>The switch on the letter; the arguments that are left.\<close>

definition pf_letter :: "'h bus \<Rightarrow> u32 \<Rightarrow> u8 \<Rightarrow> pf_vars \<Rightarrow> u32 list \<Rightarrow> (pf_vars \<times> u32 list, ('h, 'x) hal_scheme) prog" where
  "pf_letter B base c f args s =
     (case pf_integer c f of
        Some f \<Rightarrow> (case args of [] \<Rightarrow> None | v # args \<Rightarrow> do {
          (_, s) \<leftarrow> print_integer B base f v s;
          Some ((f, args), s)
        })
      | None \<Rightarrow>
        if c = 0x63 then
          (case args of [] \<Rightarrow> None | v # args \<Rightarrow> do {
             (_, s) \<leftarrow> alt_log_repchar B 0x20 (fmtBeforeDecimal f - 1) base s;
             (_, s) \<leftarrow> alt_log_txchar B v base s;
             Some ((f, args), s)
           })
        else if c = 0x73 then
          (case args of [] \<Rightarrow> None | p # args \<Rightarrow> do {
             n \<leftarrow> strlen (bytes s) p;
             (_, s) \<leftarrow> alt_log_repchar B 0x20 (fmtBeforeDecimal f - n) base s;
             (_, s) \<leftarrow> log_string B base p s;
             Some ((f, args), s)
           })
        else Some ((f, args), s))"

text \<open>The code at the label \<open>otherFmtChar\<close>.\<close>

definition pf_other :: "'h bus \<Rightarrow> u32 \<Rightarrow> u8 \<Rightarrow> pf_vars \<Rightarrow> u32 list
    \<Rightarrow> (pf_state \<times> pf_vars \<times> u32 list, ('h, 'x) hal_scheme) prog" where
  "pf_other B base c f args s =
     (if c = 0x2E then Some ((Pf_otherFmtChar, f\<lparr>fmtAfterDecimal := 0\<rparr>, args), s)
      else if 0x30 \<le> c \<and> c \<le> 0x39 then Some ((Pf_otherFmtChar, pf_digit c f, args), s)
      else if c = 0x6C then Some ((Pf_otherFmtChar, f\<lparr>fmtLong := True\<rparr>, args), s)
      else do {
        ((f, args), s) \<leftarrow> pf_letter B base c f args s;
        Some ((Pf_chars, f, args), s)
      })"

definition pf_char :: "'h bus \<Rightarrow> u32 \<Rightarrow> u8 \<Rightarrow> pf_state \<Rightarrow> pf_vars \<Rightarrow> u32 list
    \<Rightarrow> (pf_state \<times> pf_vars \<times> u32 list, ('h, 'x) hal_scheme) prog" where
  "pf_char B base c state f args s =
     (case state of
        Pf_chars \<Rightarrow>
          if c = 0x25 then Some ((Pf_firstFmtChar, pf_percent, args), s)
          else do {
            (_, s) \<leftarrow> alt_log_txchar B (scast c) base s;
            Some ((Pf_chars, f, args), s)
          }
      | Pf_firstFmtChar \<Rightarrow>
          if c = 0x30 then Some ((Pf_otherFmtChar, f\<lparr>fmtLeadingZero := True\<rparr>, args), s)
          else if c = 0x25 then do {
            (_, s) \<leftarrow> alt_log_txchar B (scast c) base s;
            Some ((Pf_chars, f, args), s)
          } else pf_other B base c f args s
      | Pf_otherFmtChar \<Rightarrow> pf_other B base c f args s)"

text \<open>\<open>while (0 != (c = *w++))\<close>\<close>

partial_function (option) pf_loop :: "'h bus \<Rightarrow> u32 \<Rightarrow> u32 \<Rightarrow> pf_state \<Rightarrow> pf_vars \<Rightarrow> u32 list \<Rightarrow> (unit, ('h, 'x) hal_scheme) prog" where
  "pf_loop B base w state f args s =
     (if bytes s w = 0 then Some ((), s)
      else do {
        ((state, f, args), s) \<leftarrow> pf_char B base (bytes s w) state f args s;
        pf_loop B base (w + 1) state f args s
      })"

definition alt_log_private_printf :: "'h bus \<Rightarrow> u32 \<Rightarrow> u32 \<Rightarrow> u32 list \<Rightarrow> (unit, ('h, 'x) hal_scheme) prog" where
  "alt_log_private_printf B fmt base args s = pf_loop B base fmt Pf_chars pf_init args s"

definition alt_log_printf_proc :: "'h bus \<Rightarrow> log_env \<Rightarrow> u32 \<Rightarrow> u32 list \<Rightarrow> (int, ('h, 'x) hal_scheme) prog" where
  "alt_log_printf_proc B L fmt args s = do {
     (_, s) \<leftarrow> alt_log_private_printf B fmt (ALT_LOG_PORT_BASE L) args s;
     Some (0, s)
   }"

definition ALT_LOG_PRINT_BOOT :: "'h bus \<Rightarrow> log_env \<Rightarrow> u32 \<Rightarrow> u32 list \<Rightarrow> (unit, ('h, 'x) log_st_scheme) prog" where
  "ALT_LOG_PRINT_BOOT B L fmt args s =
     (if alt_log_boot_on_flag s = 1 then do {
        (_, s) \<leftarrow> alt_log_printf_proc B L fmt args s;
        Some ((), s)
      } else Some ((), s))"

section \<open>Messages of the JTAG UART driver\<close>

text \<open>\<open>small\<close> is \<open>ALTERA_AVALON_JTAG_UART_SMALL\<close>.\<close>

definition alt_log_jtag_uart_print_control_reg ::
  "'h bus \<Rightarrow> log_env \<Rightarrow> bool \<Rightarrow> u32 \<Rightarrow> u32 \<Rightarrow> (unit, ('h, 'x) log_st_scheme) prog" where
  "alt_log_jtag_uart_print_control_reg B L small base header s = do {
     (control, s) \<leftarrow> IORD B base 1 s;
     let space = drop_bit 16 (control AND WSPACE_MSK);
     let we = drop_bit 1 (control AND WE_MSK);
     let re = drop_bit 0 (control AND RE_MSK);
     let ri = drop_bit 8 (control AND RI_MSK);
     let wi = drop_bit 9 (control AND WI_MSK);
     let ac = drop_bit 10 (control AND AC_MSK);
     (_, s) \<leftarrow> (if small then alt_log_printf_proc B L (str_control_small L) [header, space, ac, wi, ri, we, re] s
       else alt_log_printf_proc B L (str_control L) [header, tx_out (sp s) - tx_in (sp s), space, ac, wi, ri, we, re] s);
     Some ((), s)
   }"

definition ALT_LOG_JTAG_UART_TICKS :: "('h, 'x) log_st_scheme \<Rightarrow> u32" where
  "ALT_LOG_JTAG_UART_TICKS s = alt_ticks_per_second s div 10"

definition altera_avalon_jtag_uart_report_log :: "'h bus \<Rightarrow> log_env \<Rightarrow> bool \<Rightarrow> (u32, ('h, 'x) log_st_scheme) prog" where
  "altera_avalon_jtag_uart_report_log B L small s =
     (if alt_log_jtag_uart_alarm_on_flag s \<noteq> 0 then do {
        (_, s) \<leftarrow> alt_log_jtag_uart_print_control_reg B L small (sp_base (sp s)) (str_alarm L) s;
        Some (ALT_LOG_JTAG_UART_TICKS s, s)
      } else Some (0, s))"

definition alt_log_jtag_uart_startup_info :: "'h bus \<Rightarrow> log_env \<Rightarrow> bool \<Rightarrow> u32 \<Rightarrow> (unit, ('h, 'x) log_st_scheme) prog" where
  "alt_log_jtag_uart_startup_info B L small base s =
     alt_log_jtag_uart_print_control_reg B L small base (str_startup L) s"

definition alt_log_jtag_uart_isr_proc :: "'h bus \<Rightarrow> log_env \<Rightarrow> bool \<Rightarrow> u32 \<Rightarrow> (unit, ('h, 'x) log_st_scheme) prog" where
  "alt_log_jtag_uart_isr_proc B L small base s =
     (if alt_log_jtag_uart_isr_on_flag s \<noteq> 0
      then alt_log_jtag_uart_print_control_reg B L small base (str_irq L) s
      else Some ((), s))"

text \<open>The macro of the driver's initialisation; \<open>al\<close> is the list of alarms, \<open>dv\<close> the address of
  the driver's state.\<close>

definition ALT_LOG_JTAG_UART_ALARM_REGISTER ::
  "'h bus \<Rightarrow> log_env \<Rightarrow> u32 \<Rightarrow> bool \<Rightarrow> u32 \<Rightarrow> u32 \<Rightarrow> (unit, ('h, 'x) log_st_scheme) prog" where
  "ALT_LOG_JTAG_UART_ALARM_REGISTER B L al small dv base s = do {
     (_, s) \<leftarrow> (if alt_log_jtag_uart_alarm_on_flag s = 1
       then alt_alarm_start al (alt_log_jtag_uart_alarm_1 L) (ALT_LOG_JTAG_UART_TICKS s) (report_log_fn L) dv s
       else Some (0, s));
     (if alt_log_jtag_uart_startup_info_on_flag s = 1
      then alt_log_jtag_uart_startup_info B L small base s else Some ((), s))
   }"

section \<open>Echo of write, heartbeat\<close>

abbreviation (input) ALT_LOG_WRITE_ECHO_LEN :: u32 where "ALT_LOG_WRITE_ECHO_LEN \<equiv> 15"

text \<open>\<open>strncpy\<close> of \<open>string.h\<close>, byte by byte: after the zero byte the rest is filled with zeros.\<close>

fun strncpy :: "(u32 \<Rightarrow> u8) \<Rightarrow> u32 \<Rightarrow> u32 \<Rightarrow> nat \<Rightarrow> u32 \<Rightarrow> u8" where
  "strncpy m dst src 0 = m"
| "strncpy m dst src (Suc n) =
     strncpy (m(dst := m src)) (dst + 1) (if m src = 0 then src else src + 1) n"

fun escape_ctrl_d :: "(u32 \<Rightarrow> u8) \<Rightarrow> u32 \<Rightarrow> nat \<Rightarrow> u32 \<Rightarrow> u8" where
  "escape_ctrl_d m p 0 = m"
| "escape_ctrl_d m p (Suc n) = escape_ctrl_d (if m p = 4 then m(p := 0x44) else m) (p + 1) n"

definition alt_log_write :: "'h bus \<Rightarrow> log_env \<Rightarrow> u32 \<Rightarrow> u32 \<Rightarrow> (unit, ('h, 'x) log_st_scheme) prog" where
  "alt_log_write B L ptr len s =
     (if alt_log_write_on_flag s \<noteq> 0 then
        (let length = (if ALT_LOG_WRITE_ECHO_LEN > len then len else ALT_LOG_WRITE_ECHO_LEN);
             buf = alt_log_write_buf L in
         if sint length < 2 then Some ((), s)
         else do {
           let m = strncpy (bytes s) buf ptr (unat length);
           let m = m(buf + length - 1 := 0x0A);
           let m = m(buf + length := 0x0D);
           let m = m(buf + length + 1 := 0);
           let m = escape_ctrl_d m buf (unat length);
           (_, s) \<leftarrow> alt_log_printf_proc B L (str_echo L) [buf] (s\<lparr>bytes := m\<rparr>);
           Some ((), s)
         })
      else Some ((), s))"

definition ALT_LOG_SYS_CLK_INTERVAL :: "('h, 'x) log_st_scheme \<Rightarrow> u32" where
  "ALT_LOG_SYS_CLK_INTERVAL s = alt_ticks_per_second s * 1"

definition alt_log_system_clock :: "'h bus \<Rightarrow> log_env \<Rightarrow> (unit, ('h, 'x) log_st_scheme) prog" where
  "alt_log_system_clock B L s =
     (if alt_log_sys_clk_on_flag s \<noteq> 0 then
        (let s = s\<lparr>alt_log_sys_clk_count := alt_log_sys_clk_count s + 1\<rparr> in
         if alt_log_sys_clk_count s > ALT_LOG_SYS_CLK_INTERVAL s then do {
           let s = s\<lparr>alt_log_sys_clk_count := 0\<rparr>;
           let n = alt_system_clock_in_sec s;
           let s = s\<lparr>alt_system_clock_in_sec := n + 1\<rparr>;
           (_, s) \<leftarrow> alt_log_printf_proc B L (str_clock L) [n] s;
           Some ((), s)
         } else Some ((), s))
      else Some ((), s))"

end
