(* ===== verification/HAL_Log_Props.thy ===== *)
theory HAL_Log_Props
  imports HAL_Log Radix JTAG_Small_Claims
begin

text \<open>
  What the loops of the logging \<open>printf\<close> send: a run that sends \<open>xs\<close> changes nothing but the
  device and the trace, writes exactly \<open>xs\<close> to the data register, and each directly after a poll
  that saw space.  The digits of an integer are measured against the theory Radix.
\<close>

section \<open>Sending\<close>

definition sends :: "u32 \<Rightarrow> u32 list \<Rightarrow> ('h, 'x) mach_scheme \<Rightarrow> ('h, 'x) mach_scheme \<Rightarrow> bool" where
  "sends base xs s s' \<longleftrightarrow> (\<exists>h es. s' = s\<lparr>hw := h, trace := trace s @ es\<rparr> \<and> writes_to base es = xs \<and> paced base False es)"

lemma paced_ready: "paced base False es \<Longrightarrow> paced base r es"
  by (induction base r es rule: paced.induct) auto

lemma paced_append: "paced base r es \<Longrightarrow> paced base False fs \<Longrightarrow> paced base r (es @ fs)"
  by (induction base r es rule: paced.induct) (auto intro: paced_ready)

lemma sends_refl [simp]: "sends base [] s s"
  unfolding sends_def by (rule exI [of _ "hw s"], rule exI [of _ "[]"]) simp

lemma sends_trans: "sends base xs s s' \<Longrightarrow> sends base ys s' s'' \<Longrightarrow> sends base (xs @ ys) s s''"
  unfolding sends_def by (fastforce intro: paced_append simp: writes_to_append)

lemma sends_bytes [simp]: "sends base xs s s' \<Longrightarrow> bytes s' = bytes s"
  by (auto simp: sends_def)

text \<open>Sequencing on this predicate.\<close>

lemma wp_sends_bind:
  assumes "wp m (\<lambda>a s'. sends base xs s s' \<and> P a)" "\<And>a s'. sends base xs s s' \<Longrightarrow> P a \<Longrightarrow> wp (f (a, s')) (\<lambda>_. sends base ys s')"
  shows "wp (Option.bind m f) (\<lambda>_. sends base (xs @ ys) s)"
  unfolding wp_bind
  by (rule wp_mono [OF assms(1)], rule wp_mono [OF assms(2)]) (auto intro: sends_trans)

lemma log_wait_ready:
  fixes s :: "('h, 'x) hal_scheme"
  assumes d: "drains B base busy"
  shows "\<exists>h es. log_wait B base s = Some ((), s\<lparr>hw := h, trace := trace s @ es\<rparr>) \<and> writes_to base es = [] \<and>
     (\<forall>ds. paced base True ds \<longrightarrow> paced base False (es @ ds))"
proof (induction "busy (hw s)" arbitrary: s rule: less_induct)
  case less
  define v where "v = fst (bus_rd B (base + 4) (hw s))"
  define h where "h = snd (bus_rd B (base + 4) (hw s))"
  define s1 where "s1 = s\<lparr>hw := h, trace := trace s @ [Rd (base + 4) v]\<rparr>"
  have u: "log_wait B base s = (if v AND WSPACE_MSK = 0 then log_wait B base s1 else Some ((), s1))"
    by (subst log_wait.simps) (simp add: s1_def v_def h_def)
  show ?case
  proof (cases "v AND WSPACE_MSK = 0")
    case True
    then have "busy (hw s1) < busy (hw s)" using d by (auto simp: drains_def s1_def v_def h_def)
    from less [OF this] obtain h' es where "log_wait B base s1 = Some ((), s1\<lparr>hw := h', trace := trace s1 @ es\<rparr>)"
      "writes_to base es = []" "\<forall>ds. paced base True ds \<longrightarrow> paced base False (es @ ds)" by blast
    then show ?thesis
      using True by (intro exI [of _ h'] exI [of _ "Rd (base + 4) v # es"]) (simp add: u s1_def)
  next
    case False
    then show ?thesis by (intro exI [of _ h] exI [of _ "[Rd (base + 4) v]"]) (simp add: u s1_def)
  qed
qed

lemma txchar_sends:
  fixes s :: "('h, 'x) hal_scheme"
  assumes "drains B base busy"
  shows "wp (alt_log_txchar B c base s) (\<lambda>_. sends base [c] s)"
proof -
  obtain h es where w: "log_wait B base s = Some ((), s\<lparr>hw := h, trace := trace s @ es\<rparr>)" "writes_to base es = []"
    "\<forall>ds. paced base True ds \<longrightarrow> paced base False (es @ ds)"
    using log_wait_ready [OF assms] by blast
  then show ?thesis
    unfolding sends_def by (auto simp: alt_log_txchar_def writes_to_append intro!: exI [of _ "es @ [Wr base c]"])
qed

lemma repchar_sends:
  fixes s :: "('h, 'x) hal_scheme"
  assumes D: "drains B base busy"
  shows "wp (alt_log_repchar B c r base s) (\<lambda>_. sends base (replicate (nat (sint r)) (scast c)) s)"
proof (induction "nat (sint r)" arbitrary: r s)
  case 0
  then show ?case by (subst alt_log_repchar.simps) simp
next
  case (Suc n)
  then have r: "0 < sint r" by simp
  have p: "sint (r - 1) = sint r - 1"
    using r sint_ge [of r] sint_lt [of r] by (simp add: sint_word_ariths signed_take_bit_int_eq_self)
  have e: "replicate (nat (sint r)) (scast c :: u32) = [scast c] @ replicate (nat (sint (r - 1))) (scast c)"
    using r by (simp add: p Suc_nat_eq_nat_zadd1 [symmetric] flip: replicate_Suc)
  have "n = nat (sint (r - 1))" using Suc.hyps(2) by (simp add: p)
  note ih = Suc.hyps(1) [OF this]
  show ?case
    unfolding e alt_log_repchar.simps [of B c r] if_P [OF r]
    by (rule wp_sends_bind [where P = "\<lambda>_. True"]) (simp_all add: txchar_sends [OF D] ih)
qed

lemma log_string_sends:
  fixes s :: "('h, 'x) hal_scheme"
  assumes D: "drains B base busy"
  shows "cstr (bytes s) p cs \<Longrightarrow> wp (log_string B base p s) (\<lambda>_. sends base (map scast cs) s)"
proof (induction cs arbitrary: p s)
  case Nil
  then show ?case by (subst log_string.simps) simp
next
  case (Cons c cs)
  then have c: "bytes s p = c" "c \<noteq> 0" by simp_all
  have e: "map scast (c # cs) = [scast c] @ map scast cs" by simp
  show ?case
    unfolding e log_string.simps [of B base p] c(1) if_P [OF c(2)]
    by (rule wp_sends_bind [where P = "\<lambda>_. True"])
      (use Cons in \<open>simp_all add: txchar_sends [OF D]\<close>)
qed

section \<open>Digits\<close>

lemma digit_of_text:
  assumes "unat q < 16"
  shows "digit_of upper q = digit_text upper (unat q)"
proof -
  have "unat (ucast q + 0x30 :: u8) = unat (of_nat (unat q + 48) :: u8)" by (simp add: of_nat_unat)
  also have "\<dots> = unat q + 48" using assms by (simp only: unat_of_nat) simp
  finally show ?thesis
    using assms by (auto simp: digit_of_def digit_text_def word_less_nat_alt Let_def of_nat_unat)
qed

text \<open>The search for the leading digit, from any position below it.\<close>

lemma count_digits_from:
  assumes b: "2 \<le> unat b" "unat b \<le> 16" and k: "n < unat b ^ Suc k" "k = 0 \<or> unat b ^ k \<le> n" and n: "n < 2 ^ 32"
  shows "i \<le> k \<Longrightarrow> unat q = n div unat b ^ (k - i) \<Longrightarrow> unat p = unat b ^ (k - i) \<Longrightarrow>
     \<exists>p'. count_digits b q p c = Some (p', c + of_nat i) \<and> unat p' = unat b ^ k"
proof (induction i arbitrary: q p c)
  case 0
  have "q div b = 0"
    using 0 k(1) b(1) by (simp add: unat_div_distrib flip: unat_eq_zero div_mult2_eq)
      (simp add: mult.commute)
  moreover have "b \<noteq> 0" using b(1) by auto
  ultimately show ?case using 0 by (subst count_digits.simps) simp
next
  case (Suc i)
  have b0: "b \<noteq> 0" using b(1) by auto
  have j: "k - i = Suc (k - Suc i)" using Suc.prems(1) by simp
  have pk: "unat b ^ k \<le> n" using k(2) Suc.prems(1) by simp
  have ple: "unat b ^ (k - i) \<le> unat b ^ k" using b(1) by (intro power_increasing) auto
  have q: "unat (q div b) = n div unat b ^ (k - i)"
    using Suc.prems(2) by (simp add: unat_div_distrib j flip: div_mult2_eq) (simp add: mult.commute)
  have pos: "0 < q div b"
    using le_trans [OF ple pk] b(1) by (simp add: word_less_nat_alt q div_greater_zero_iff)
  have "unat p * unat b < 2 ^ 32"
    using ple pk n Suc.prems(3) by (simp add: j mult.commute)
  then have p: "unat (p * b) = unat b ^ (k - i)"
    using Suc.prems(3) by (simp add: unat_word_ariths j mult.commute)
  from Suc.IH [OF _ q p, of "c + 1"] Suc.prems(1) pos b0 show ?case
    by (subst count_digits.simps) (auto simp: algebra_simps)
qed

text \<open>The printing of the digits, from the one that \<open>p\<close> is the place value of.\<close>

lemma print_parts_sends:
  fixes s :: "('h, 'x) hal_scheme"
  assumes D: "drains B base busy" and b: "2 \<le> unat b" "unat b \<le> 16"
  shows "unat v < unat b ^ k \<Longrightarrow> unat p = (if k = 0 then 0 else unat b ^ (k - 1)) \<Longrightarrow>
     wp (print_parts B base b upper v p s)
       (\<lambda>_. sends base (map (\<lambda>i. ucast (digit_text upper (unat v div unat b ^ i mod unat b))) (rev [0..<k])) s)"
proof (induction k arbitrary: v p s)
  case 0
  then have "p = 0" by (simp add: unat_eq_zero)
  then show ?case by (subst print_parts.simps) simp
next
  case (Suc k)
  let ?n = "unat v" and ?b = "unat b"
  have pk: "unat p = ?b ^ k" using Suc.prems(2) by simp
  then have p0: "p \<noteq> 0" using b(1) by auto
  have dg: "?n div ?b ^ k < ?b"
    using Suc.prems(1) b(1) by (simp add: div_less_iff_less_mult mult.commute)
  then have d: "digit_of upper (v div p) = digit_text upper (?n div ?b ^ k mod ?b)"
    using b(2) by (subst digit_of_text) (simp_all add: unat_div_distrib pk)
  have e: "map (\<lambda>i. ucast (digit_text upper (?n div ?b ^ i mod ?b)) :: u32) (rev [0..<Suc k]) =
      [ucast (digit_text upper (?n div ?b ^ k mod ?b))] @
      map (\<lambda>i. ucast (digit_text upper (unat (v mod p) div ?b ^ i mod ?b))) (rev [0..<k])"
  proof -
    have "?n mod ?b ^ k div ?b ^ i mod ?b = ?n div ?b ^ i mod ?b" if "i < k" for i
    proof -
      have "?b ^ k = ?b ^ i * (?b * ?b ^ (k - Suc i))"
        using that by (simp flip: power_Suc power_add)
      then have "?n mod ?b ^ k div ?b ^ i = ?n div ?b ^ i mod (?b * ?b ^ (k - Suc i))"
        using b(1) by (simp only:) (subst mod_mult2_eq, simp)
      then show ?thesis by (simp add: mod_mod_cancel)
    qed
    then show ?thesis by (simp add: unat_mod_distrib pk)
  qed
  have mo: "unat (v mod p) < ?b ^ k" using b(1) by (simp add: unat_mod_distrib pk)
  have dv: "unat (p div b) = (if k = 0 then 0 else ?b ^ (k - 1))"
    using b(1) by (cases k) (simp_all add: unat_div_distrib pk)
  show ?case
    unfolding e print_parts.simps [of B base b upper v p] if_P [OF p0] d
    by (rule wp_sends_bind [where P = "\<lambda>_. True"])
      (simp_all add: txchar_sends [OF D] Suc.IH [OF mo dv] del: upt_Suc)
qed

section \<open>Integers\<close>

text \<open>Reference: sign and digits, padded on the left to the width; zeros go after the sign.\<close>

definition int_text :: "bool \<Rightarrow> int \<Rightarrow> bool \<Rightarrow> u8 list \<Rightarrow> u8 list" where
  "int_text zero width neg ds =
     (let pad = nat (width - int (length ds) - (if neg then 1 else 0)); sgn = (if neg then [0x2D] else [])
      in if zero then sgn @ replicate pad 0x30 @ ds else replicate pad 0x20 @ sgn @ ds)"

lemma sign_bit: "(v :: u32) AND 0x80000000 \<noteq> 0 \<longleftrightarrow> sint v < 0"
proof -
  have "(0x80000000 :: u32) = 2 ^ 31" by simp
  then have "v AND 0x80000000 \<noteq> 0 \<longleftrightarrow> bit v 31" by (simp only: and_exp_eq_0_iff_not_bit not_not)
  then show ?thesis by (simp add: sint_uint signed_take_bit_negative_iff bit_uint_iff)
qed

lemma unat_negated: "sint (v :: u32) < 0 \<Longrightarrow> unat (NOT v + 1) = nat \<bar>sint v\<bar>"
proof -
  assume neg: "sint v < 0"
  have "unat (- v) = nat (uint (- v))" by simp
  also have "uint (- v) = uint (word_of_int (- sint v) :: u32)" by simp
  also have "\<dots> = - sint v"
    using neg sint_ge [of v] by (simp only: uint_word_of_int) simp
  finally show ?thesis using neg by (simp add: minus_eq_not_plus_1)
qed

lemma sint_minus_count:
  assumes "- 1 \<le> sint w" "c < 2 ^ 31"
  shows "sint (w - of_nat c :: u32) = sint w - int c"
proof -
  have "sint (w - of_nat c) = signed_take_bit 31 (sint w - int c)"
    using assms(2) by (simp add: sint_word_ariths sint_of_nat_31 signed_take_bit_int_eq_self)
  also have "\<dots> = sint w - int c"
    by (rule signed_take_bit_int_eq_self) (use assms sint_lt [of w] in simp_all)
  finally show ?thesis .
qed

lemma int_text_append: "int_text zero width neg ds = int_text zero (width - int (length ds)) neg [] @ ds"
  by (simp add: int_text_def Let_def)

lemma print_lead_sends:
  fixes s :: "('h, 'x) hal_scheme"
  assumes D: "drains B base busy" and w: "neg \<Longrightarrow> sint (w - 1) = sint w - 1"
  shows "wp (print_lead B base zero neg w s) (\<lambda>_. sends base (map ucast (int_text zero (sint w) neg [])) s)"
proof -
  note rep = repchar_sends [OF D] and chr = txchar_sends [OF D] and seq = wp_sends_bind [where P = "\<lambda>_. True"]
  define pad where "pad = nat (sint w - (if neg then 1 else 0))"
  have pad: "nat (sint (if neg then w - 1 else w)) = pad" using w by (simp add: pad_def)
  have blanks: "wp (do { (_, s) \<leftarrow> alt_log_repchar B 0x20 (if neg then w - 1 else w) base s;
      (if neg then alt_log_txchar B 0x2D base s else Some ((), s)) })
      (\<lambda>_. sends base (replicate pad 0x20 @ (if neg then [0x2D] else [])) s)"
    using rep [of "0x20" "if neg then w - 1 else w", unfolded pad] by (intro seq) (auto simp: chr split: if_splits)
  have zeros: "wp (do { (_, s) \<leftarrow> alt_log_txchar B 0x2D base s; alt_log_repchar B 0x30 (w - 1) base s })
      (\<lambda>_. sends base ([0x2D] @ replicate pad 0x30) s)" if neg
    using rep [of "0x30" "w - 1"] pad that by (intro seq) (simp_all add: chr)
  have plain: "wp (alt_log_repchar B 0x30 w base s) (\<lambda>_. sends base (replicate pad 0x30) s)" if "\<not> neg"
    using rep [of "0x30" w s] pad that by simp
  have lead: "map ucast (int_text zero (sint w) neg []) =
      (if zero then (if neg then [0x2D] else []) @ replicate pad 0x30
       else replicate pad 0x20 @ (if neg then [0x2D] else []) :: u32 list)"
    by (simp add: int_text_def pad_def Let_def)
  show ?thesis
    unfolding print_lead_def lead using blanks zeros plain by (cases zero; cases neg) (simp_all del: wp_bind)
qed

definition int_digits :: "pf_vars \<Rightarrow> u32 \<Rightarrow> u8 list" where
  "int_digits f v = map (digit_text (fmtCase f))
     (radix (unat (fmtBase f)) (if fmtSigned f then nat \<bar>sint v\<bar> else unat v))"

text \<open>The magnitude that the code prints, and the place value of its first digit.\<close>

lemma int_magnitude:
  assumes b: "2 \<le> unat b" "unat b \<le> 16"
    and v': "v' = (if sg \<and> sint v < 0 then NOT v + 1 else v)"
  shows "unat v' = (if sg then nat \<bar>sint v\<bar> else unat v)"
    and "\<exists>k p. k \<le> 31 \<and> unat v' < unat b ^ Suc k \<and> (k = 0 \<or> unat b ^ k \<le> unat v') \<and>
      count_digits b v' 1 1 = Some (p, of_nat (Suc k)) \<and> unat p = unat b ^ k"
proof -
  show "unat v' = (if sg then nat \<bar>sint v\<bar> else unat v)"
    by (auto simp: v' unat_negated not_less sint_nonneg)
  have lt: "unat v' < 2 ^ 32" using unsigned_less [of v', where 'a = nat] by simp
  have "(2 :: nat) ^ 32 \<le> unat b ^ 32" using b(1) by (rule power_mono) simp
  then have "unat v' < unat b ^ Suc 31" using lt by simp
  from radix_top [OF b(1) this] obtain k where
    k: "k \<le> 31" "unat v' < unat b ^ Suc k" "k = 0 \<or> unat b ^ k \<le> unat v'" .
  with count_digits_from [OF b k(2,3) lt, of k v' 1 1]
  show "\<exists>k p. k \<le> 31 \<and> unat v' < unat b ^ Suc k \<and> (k = 0 \<or> unat b ^ k \<le> unat v') \<and>
      count_digits b v' 1 1 = Some (p, of_nat (Suc k)) \<and> unat p = unat b ^ k" by auto
qed

lemma print_integer_sends:
  fixes s :: "('h, 'x) hal_scheme"
  assumes D: "drains B base busy" and b: "2 \<le> unat (fmtBase f)" "unat (fmtBase f) \<le> 16"
    and w: "- 1 \<le> sint (fmtBeforeDecimal f)"
  shows "wp (print_integer B base f v s)
     (\<lambda>_. sends base (map ucast (int_text (fmtLeadingZero f) (sint (fmtBeforeDecimal f))
        (fmtSigned f \<and> sint v < 0) (int_digits f v))) s)"
proof -
  let ?neg = "fmtSigned f \<and> sint v < 0" and ?b = "unat (fmtBase f)" and ?w = "fmtBeforeDecimal f"
  define v' where "v' = (if ?neg then NOT v + 1 else v)"
  note mag = int_magnitude [OF b v'_def]
  from mag(2) obtain k p where k: "k \<le> 31" "unat v' < ?b ^ Suc k" "k = 0 \<or> ?b ^ k \<le> unat v'"
      and p: "count_digits (fmtBase f) v' 1 1 = Some (p, of_nat (Suc k))" "unat p = ?b ^ k" by blast
  have ds: "int_digits f v = map (\<lambda>i. digit_text (fmtCase f) (unat v' div ?b ^ i mod ?b)) (rev [0..<Suc k])"
    unfolding int_digits_def mag(1) [symmetric] radix_positions [OF b(1) k(2,3)] by (simp add: o_def del: upt_Suc)
  have c: "sint (?w - of_nat (Suc k)) = sint ?w - int (length (int_digits f v))"
    "sint (?w - of_nat (Suc k) - 1) = sint (?w - of_nat (Suc k)) - 1"
    using sint_minus_count [OF w, of "Suc k"] sint_minus_count [OF w, of "Suc (Suc k)"] k(1)
    by (simp_all add: ds algebra_simps del: upt_Suc)
  have digits: "wp (print_parts B base (fmtBase f) (fmtCase f) v' p t) (\<lambda>_. sends base (map ucast (int_digits f v)) t)"
    for t :: "('h, 'x) hal_scheme"
    using print_parts_sends [OF D b, of v' "Suc k" p "fmtCase f" t] k(2) p(2)
    by (simp add: ds o_def rev_map [symmetric] del: upt_Suc)
  show ?thesis
    unfolding print_integer_def int_text_append [of _ _ _ "int_digits f v"] map_append c(1) [symmetric]
    by (simp only: sign_bit v'_def [symmetric] p(1) Let_def bind.simps prod.case,
        rule wp_sends_bind [where P = "\<lambda>_. True"])
      (simp_all add: print_lead_sends [OF D] c(2) digits del: of_nat_Suc)
qed

section \<open>Conversions of a format\<close>

text \<open>Width, precision and flags of a conversion, and their bytes in the format.\<close>

record conv =
  cv_zero :: bool
  cv_width :: "nat option"
  cv_prec :: "nat option"
  cv_long :: bool

definition decimal :: "nat \<Rightarrow> u8 list" where
  "decimal n = map (digit_text False) (radix 10 n)"

definition conv_text :: "conv \<Rightarrow> u8 list" where
  "conv_text cv = (if cv_zero cv then [0x30] else []) @
     (case cv_width cv of None \<Rightarrow> [] | Some w \<Rightarrow> decimal w) @
     (case cv_prec cv of None \<Rightarrow> [] | Some w \<Rightarrow> 0x2E # decimal w) @ (if cv_long cv then [0x6C] else [])"

definition conv_ok :: "conv \<Rightarrow> bool" where
  "conv_ok cv \<longleftrightarrow> (case cv_width cv of None \<Rightarrow> True | Some w \<Rightarrow> 0 < w \<and> w < 2 ^ 31) \<and>
     (case cv_prec cv of None \<Rightarrow> True | Some w \<Rightarrow> w < 2 ^ 31)"

definition conv_vars :: "conv \<Rightarrow> pf_vars" where
  "conv_vars cv = pf_percent\<lparr>fmtLeadingZero := cv_zero cv, fmtLong := cv_long cv,
     fmtBeforeDecimal := (case cv_width cv of None \<Rightarrow> -1 | Some w \<Rightarrow> of_nat w),
     fmtAfterDecimal := (case cv_prec cv of None \<Rightarrow> -1 | Some w \<Rightarrow> of_nat w)\<rparr>"

text \<open>A run of digits.\<close>

lemma pf_loop_step:
  assumes "bytes s w = c" "c \<noteq> 0" "pf_char B base c st f args s = Some ((st', f', args'), s)"
  shows "pf_loop B base w st f args s = pf_loop B base (w + 1) st' f' args' s"
  using assms by (subst pf_loop.simps) simp

lemma digit_byte:
  assumes "d < 10"
  shows "digit_text u d \<noteq> 0" "digit_text u d \<noteq> 0x2E" "0x30 \<le> digit_text u d" "digit_text u d \<le> 0x39"
    "scast (digit_text u d - 0x30) = (of_nat d :: u32)"
proof -
  have u: "unat (digit_text u d) = 48 + d" using assms by (simp add: unat_digit_text)
  then show "digit_text u d \<noteq> 0" "digit_text u d \<noteq> 0x2E" "0x30 \<le> digit_text u d" "digit_text u d \<le> 0x39"
    using assms by (auto simp: word_le_nat_alt)
  have "digit_text u d - 0x30 = of_nat d" using assms by (simp add: digit_text_def)
  moreover have "d \<in> set [0..<10]" using assms by simp
  ultimately show "scast (digit_text u d - 0x30) = (of_nat d :: u32)"
    by (simp only:) (simp add: upt_rec, elim disjE, simp_all)
qed

lemma pf_loop_digits:
  "cstr (bytes s) w (map (digit_text u) ds @ fs) \<Longrightarrow> \<forall>d \<in> set ds. d < 10 \<Longrightarrow>
   pf_loop B base w Pf_otherFmtChar f args s =
     pf_loop B base (w + of_nat (length ds)) Pf_otherFmtChar (fold (\<lambda>d. pf_digit (digit_text u d)) ds f) args s"
proof (induction ds arbitrary: w f)
  case (Cons d ds)
  then have d: "d < 10" by simp
  have "pf_loop B base w Pf_otherFmtChar f args s =
      pf_loop B base (w + 1) Pf_otherFmtChar (pf_digit (digit_text u d) f) args s"
    by (rule pf_loop_step [where c = "digit_text u d"])
      (use Cons.prems(1) digit_byte [OF d, of u] in \<open>auto simp: pf_char_def pf_other_def\<close>)
  also have "\<dots> = pf_loop B base (w + of_nat (length (d # ds))) Pf_otherFmtChar
      (fold (\<lambda>d. pf_digit (digit_text u d)) (d # ds) f) args s"
    using Cons by (simp add: add.assoc)
  finally show ?case .
qed simp

text \<open>The numbers that a run of digits leaves in the variables.\<close>

lemma small_digits:
  assumes "foldl (\<lambda>n d. 10 * n + d) (10 * m + d) ds < (2 :: nat) ^ 31"
  shows "10 * m + d < 2 ^ 31" "m < 2 ^ 31"
proof -
  have mono: "n \<le> foldl (\<lambda>n d. 10 * n + d) n ds" for n :: nat
  proof (induction ds arbitrary: n)
    case (Cons d ds)
    have "n \<le> 10 * n + d" by simp
    also have "\<dots> \<le> foldl (\<lambda>n d. 10 * n + d) n (d # ds)" using Cons by simp
    finally show ?case .
  qed simp
  from mono [of "10 * m + d"] assms show "10 * m + d < 2 ^ 31" "m < 2 ^ 31" by simp_all
qed

lemma sint_of_nat_eq: "n < 2 ^ 31 \<Longrightarrow> (sint (of_nat n :: u32) < 0) = False"
  by (simp add: sint_of_nat_31)

lemma width_digits:
  "\<forall>d \<in> set ds. d < 10 \<Longrightarrow> foldl (\<lambda>n d. 10 * n + d) m ds < 2 ^ 31 \<Longrightarrow> sint (fmtAfterDecimal f) < 0 \<Longrightarrow>
   fmtBeforeDecimal f = of_nat m \<or> m = 0 \<and> fmtBeforeDecimal f = -1 \<and> ds \<noteq> [] \<Longrightarrow>
   fold (\<lambda>d. pf_digit (digit_text u d)) ds f = f\<lparr>fmtBeforeDecimal := of_nat (foldl (\<lambda>n d. 10 * n + d) m ds)\<rparr>"
proof (induction ds arbitrary: m f)
  case (Cons d ds)
  then have d: "d < 10" and lt: "foldl (\<lambda>n d. 10 * n + d) (10 * m + d) ds < 2 ^ 31" by simp_all
  note sm = small_digits [OF lt]
  have "pf_digit (digit_text u d) f = f\<lparr>fmtBeforeDecimal := of_nat (10 * m + d)\<rparr>"
    using Cons.prems(3,4) sm by (auto simp: pf_digit_def Let_def digit_byte [OF d] sint_of_nat_eq)
  then show ?case
    using Cons.IH [of "10 * m + d" "f\<lparr>fmtBeforeDecimal := of_nat (10 * m + d)\<rparr>"] Cons.prems lt by simp
qed auto

lemma prec_digits:
  "\<forall>d \<in> set ds. d < 10 \<Longrightarrow> foldl (\<lambda>n d. 10 * n + d) m ds < 2 ^ 31 \<Longrightarrow> fmtAfterDecimal f = of_nat m \<Longrightarrow>
   fold (\<lambda>d. pf_digit (digit_text u d)) ds f = f\<lparr>fmtAfterDecimal := of_nat (foldl (\<lambda>n d. 10 * n + d) m ds)\<rparr>"
proof (induction ds arbitrary: m f)
  case (Cons d ds)
  then have d: "d < 10" and lt: "foldl (\<lambda>n d. 10 * n + d) (10 * m + d) ds < 2 ^ 31" by simp_all
  note sm = small_digits [OF lt]
  have "pf_digit (digit_text u d) f = f\<lparr>fmtAfterDecimal := of_nat (10 * m + d)\<rparr>"
    using Cons.prems(3) sm by (auto simp: pf_digit_def Let_def digit_byte [OF d] sint_of_nat_eq)
  then show ?case
    using Cons.IH [of "10 * m + d" "f\<lparr>fmtAfterDecimal := of_nat (10 * m + d)\<rparr>"] Cons.prems lt by simp
qed simp

lemma decimal_value: "foldl (\<lambda>n d. 10 * n + d) 0 (radix 10 n) = n"
  using radix_value_radix [of 10 n] by (simp add: radix_value_def)

lemma decimal_digits: "\<forall>d \<in> set (radix 10 n). d < 10"
  using radix_digit [of 10 _ n] by simp

lemma cstr_append: "cstr m p (xs @ ys) \<Longrightarrow> cstr m (p + of_nat (length xs)) ys"
  by (induction xs arbitrary: p) (simp_all add: add.assoc [symmetric])

text \<open>Reading the parts of a conversion, one after the other.\<close>

lemma run_width:
  assumes "cstr (bytes s) w (decimal n @ fs)" "n < 2 ^ 31" "sint (fmtAfterDecimal f) < 0" "fmtBeforeDecimal f = -1"
  shows "pf_loop B base w Pf_otherFmtChar f args s =
    pf_loop B base (w + of_nat (length (decimal n))) Pf_otherFmtChar (f\<lparr>fmtBeforeDecimal := of_nat n\<rparr>) args s"
  using pf_loop_digits [OF assms(1) [unfolded decimal_def] decimal_digits, of B base f args]
    width_digits [of "radix 10 n" 0 f False] assms(2-) decimal_digits
  by (simp add: decimal_value radix_nonempty decimal_def)

lemma run_prec:
  assumes "cstr (bytes s) w (0x2E # decimal n @ fs)" "n < 2 ^ 31"
  shows "pf_loop B base w Pf_otherFmtChar f args s =
    pf_loop B base (w + of_nat (length (0x2E # decimal n))) Pf_otherFmtChar (f\<lparr>fmtAfterDecimal := of_nat n\<rparr>) args s"
proof -
  have "pf_loop B base w Pf_otherFmtChar f args s = pf_loop B base (w + 1) Pf_otherFmtChar (f\<lparr>fmtAfterDecimal := 0\<rparr>) args s"
    by (rule pf_loop_step [where c = "0x2E"]) (use assms(1) in \<open>simp_all add: pf_char_def pf_other_def\<close>)
  moreover have "cstr (bytes s) (w + 1) (map (digit_text False) (radix 10 n) @ fs)"
    using assms(1) by (simp add: decimal_def)
  note pf_loop_digits [OF this decimal_digits, of B base "f\<lparr>fmtAfterDecimal := 0\<rparr>" args]
  ultimately show ?thesis
    using prec_digits [of "radix 10 n" 0 "f\<lparr>fmtAfterDecimal := 0\<rparr>" False] assms(2) decimal_digits
    by (simp add: decimal_value decimal_def add.assoc)
qed

lemma run_long:
  assumes "cstr (bytes s) w (0x6C # fs)"
  shows "pf_loop B base w Pf_otherFmtChar f args s = pf_loop B base (w + 1) Pf_otherFmtChar (f\<lparr>fmtLong := True\<rparr>) args s"
  by (rule pf_loop_step [where c = "0x6C"]) (use assms in \<open>simp_all add: pf_char_def pf_other_def\<close>)

lemma run_zero:
  assumes "cstr (bytes s) w (0x30 # fs)"
  shows "pf_loop B base w Pf_firstFmtChar f args s =
    pf_loop B base (w + 1) Pf_otherFmtChar (f\<lparr>fmtLeadingZero := True\<rparr>) args s"
  by (rule pf_loop_step [where c = "0x30"]) (use assms in \<open>simp_all add: pf_char_def\<close>)

lemma run_first:
  assumes "bytes s w \<notin> {0x30, 0x25}"
  shows "pf_loop B base w Pf_firstFmtChar f args s = pf_loop B base w Pf_otherFmtChar f args s"
  using assms by (simp add: pf_loop.simps [of B base w] pf_char_def)

text \<open>A whole conversion, up to its letter.\<close>

abbreviation letter :: "u8 \<Rightarrow> bool" where
  "letter c \<equiv> c \<notin> {0, 0x25, 0x2E, 0x6C} \<and> \<not> (0x30 \<le> c \<and> c \<le> 0x39)"

abbreviation width_text :: "conv \<Rightarrow> u8 list" where
  "width_text cv \<equiv> (case cv_width cv of None \<Rightarrow> [] | Some n \<Rightarrow> decimal n)"

abbreviation prec_text :: "conv \<Rightarrow> u8 list" where
  "prec_text cv \<equiv> (case cv_prec cv of None \<Rightarrow> [] | Some n \<Rightarrow> 0x2E # decimal n)"

abbreviation long_text :: "conv \<Rightarrow> u8 list" where
  "long_text cv \<equiv> (if cv_long cv then [0x6C] else [])"

lemma decimal_first: "0 < n \<Longrightarrow> decimal n \<noteq> [] \<and> decimal n ! 0 \<notin> {0x30, 0x25}"
proof -
  assume n: "0 < n"
  have d: "radix 10 n ! 0 < 10" using radix_digit [of 10 "radix 10 n ! 0" n] radix_nonempty [of 10 n] by simp
  have "(2 :: nat) ^ n \<le> 10 ^ n" by (rule power_mono) simp_all
  moreover have "n < 2 ^ n" by (rule less_exp)
  ultimately have "n < 10 ^ Suc n" unfolding power_Suc by linarith
  then have "radix 10 n ! 0 \<noteq> 0" using radix_shape [of 10 n n] n by auto
  then show ?thesis
    using d radix_nonempty [of 10 n] digit_byte(3) [OF d, of False]
    by (auto simp: decimal_def digit_text_zero)
qed

lemma run_lead:
  assumes ok: "conv_ok cv" and c: "letter c"
    and str: "cstr (bytes s) w (conv_text cv @ c # fs)" and w1: "w1 = w + (if cv_zero cv then 1 else 0)"
  shows "cstr (bytes s) w1 (width_text cv @ prec_text cv @ long_text cv @ c # fs)"
    and "pf_loop B base w Pf_firstFmtChar pf_percent args s =
      pf_loop B base w1 Pf_otherFmtChar (pf_percent\<lparr>fmtLeadingZero := cv_zero cv\<rparr>) args s"
proof -
  show s1: "cstr (bytes s) w1 (width_text cv @ prec_text cv @ long_text cv @ c # fs)"
    using str by (auto simp: conv_text_def w1 split: if_splits)
  show "pf_loop B base w Pf_firstFmtChar pf_percent args s =
      pf_loop B base w1 Pf_otherFmtChar (pf_percent\<lparr>fmtLeadingZero := cv_zero cv\<rparr>) args s"
  proof (cases "cv_zero cv")
    case True
    then show ?thesis
      using str run_zero [of s w "width_text cv @ prec_text cv @ long_text cv @ c # fs" B base pf_percent args]
      by (simp add: conv_text_def w1)
  next
    case False
    have "bytes s w1 \<notin> {0x30, 0x25}"
    proof (cases "cv_width cv")
      case None
      have "c \<noteq> 0x30" "c \<noteq> 0x25" using c by auto
      with None s1 show ?thesis by (cases "cv_prec cv"; cases "cv_long cv") simp_all
    next
      case (Some n)
      then have "0 < n" using ok by (simp add: conv_ok_def)
      from decimal_first [OF this] obtain x xs where x: "decimal n = x # xs" "x \<notin> {0x30, 0x25}"
        by (cases "decimal n") auto
      with s1 Some have "bytes s w1 = x" by simp
      with x(2) show ?thesis by simp
    qed
    moreover have "w1 = w" "pf_percent\<lparr>fmtLeadingZero := cv_zero cv\<rparr> = pf_percent"
      using False by (simp_all add: w1 pf_percent_def)
    ultimately show ?thesis using run_first [of s w B base pf_percent args] by simp
  qed
qed

lemma conv_run:
  assumes ok: "conv_ok cv" and c: "letter c" and str: "cstr (bytes s) w (conv_text cv @ c # fs)"
  shows "pf_loop B base w Pf_firstFmtChar pf_percent args s =
    pf_loop B base (w + of_nat (length (conv_text cv))) Pf_otherFmtChar (conv_vars cv) args s"
proof -
  define f1 where "f1 = pf_percent\<lparr>fmtLeadingZero := cv_zero cv\<rparr>"
  define f2 where "f2 = f1\<lparr>fmtBeforeDecimal := (case cv_width cv of None \<Rightarrow> -1 | Some n \<Rightarrow> of_nat n)\<rparr>"
  define f3 where "f3 = f2\<lparr>fmtAfterDecimal := (case cv_prec cv of None \<Rightarrow> -1 | Some n \<Rightarrow> of_nat n)\<rparr>"
  define w1 where "w1 = w + (if cv_zero cv then 1 else 0)"
  define w2 where "w2 = w1 + of_nat (length (width_text cv))"
  define w3 where "w3 = w2 + of_nat (length (prec_text cv))"
  note s1 = run_lead(1) [OF ok c str w1_def] and r1 = run_lead(2) [OF ok c str w1_def, of B base args, folded f1_def]
  from cstr_append [OF s1] have s2: "cstr (bytes s) w2 (prec_text cv @ long_text cv @ c # fs)" by (simp add: w2_def)
  from cstr_append [OF s2] have s3: "cstr (bytes s) w3 (long_text cv @ c # fs)" by (simp add: w3_def)
  have r2: "pf_loop B base w1 Pf_otherFmtChar f1 args s = pf_loop B base w2 Pf_otherFmtChar f2 args s"
    using s1 ok by (cases "cv_width cv")
      (auto simp: conv_ok_def w2_def f2_def f1_def pf_percent_def run_width)
  have r3: "pf_loop B base w2 Pf_otherFmtChar f2 args s = pf_loop B base w3 Pf_otherFmtChar f3 args s"
    using s2 ok run_prec [of s w2 _ _ B base f2 args] by (cases "cv_prec cv")
      (auto simp: conv_ok_def w3_def f3_def f2_def f1_def pf_percent_def)
  have "f3\<lparr>fmtLong := False\<rparr> = f3" by (simp add: f3_def f2_def f1_def pf_percent_def)
  then have r4: "pf_loop B base w3 Pf_otherFmtChar f3 args s =
      pf_loop B base (w3 + of_nat (length (long_text cv))) Pf_otherFmtChar (f3\<lparr>fmtLong := cv_long cv\<rparr>) args s"
    using s3 run_long [of s w3 "c # fs" B base f3 args] by (cases "cv_long cv") simp_all
  have "f3\<lparr>fmtLong := cv_long cv\<rparr> = conv_vars cv"
    by (simp add: f3_def f2_def f1_def conv_vars_def)
  moreover have "w3 + of_nat (length (long_text cv)) = w + of_nat (length (conv_text cv))"
    by (simp add: w3_def w2_def w1_def conv_text_def)
  ultimately show ?thesis using r1 r2 r3 r4 by simp
qed

end
