(* ===== verification/HAL_Log_Claims.thy ===== *)
theory HAL_Log_Claims
  imports HAL_Log_Props
begin

text \<open>
  The logging of the HAL: what its \<open>printf\<close> sends for any format, when the heartbeat of the
  system clock is sent, and how much of a \<open>write\<close> is echoed.
\<close>

section \<open>Pieces of a format\<close>

datatype log_piece = LPlain u8 | LPercent | LInt conv u8 u32 | LChr conv u32 | LStr conv u32 "u8 list" | LSkip conv u8

primrec log_fmt :: "log_piece \<Rightarrow> u8 list" where
  "log_fmt (LPlain c) = [c]"
| "log_fmt LPercent = [0x25, 0x25]"
| "log_fmt (LInt cv c v) = 0x25 # conv_text cv @ [c]"
| "log_fmt (LChr cv v) = 0x25 # conv_text cv @ [0x63]"
| "log_fmt (LStr cv p cs) = 0x25 # conv_text cv @ [0x73]"
| "log_fmt (LSkip cv c) = 0x25 # conv_text cv @ [c]"

primrec log_args :: "log_piece \<Rightarrow> u32 list" where
  "log_args (LPlain c) = []"
| "log_args LPercent = []"
| "log_args (LInt cv c v) = [v]"
| "log_args (LChr cv v) = [v]"
| "log_args (LStr cv p cs) = [p]"
| "log_args (LSkip cv c) = []"

definition conv_width :: "conv \<Rightarrow> int" where
  "conv_width cv = (case cv_width cv of None \<Rightarrow> -1 | Some n \<Rightarrow> int n)"

definition letter_base :: "u8 \<Rightarrow> nat" where
  "letter_base c = (if c = 0x6F then 8 else if c = 0x78 \<or> c = 0x58 then 16 else 10)"

definition letter_signed :: "u8 \<Rightarrow> bool" where
  "letter_signed c \<longleftrightarrow> c = 0x64 \<or> c = 0x69"

text \<open>The number, in the base of the letter, with its sign when the letter is signed.\<close>

definition number_text :: "conv \<Rightarrow> u8 \<Rightarrow> u32 \<Rightarrow> u8 list" where
  "number_text cv c v = int_text (cv_zero cv) (conv_width cv) (letter_signed c \<and> sint v < 0)
     (map (digit_text (c = 0x58)) (radix (letter_base c) (if letter_signed c then nat \<bar>sint v\<bar> else unat v)))"

primrec log_out :: "log_piece \<Rightarrow> u32 list" where
  "log_out (LPlain c) = [scast c]"
| "log_out LPercent = [0x25]"
| "log_out (LInt cv c v) = map ucast (number_text cv c v)"
| "log_out (LChr cv v) = replicate (nat (conv_width cv - 1)) 0x20 @ [v]"
| "log_out (LStr cv p cs) = replicate (nat (conv_width cv - int (length cs))) 0x20 @ map scast cs"
| "log_out (LSkip cv c) = []"

definition int_letters :: "u8 set" where
  "int_letters = {0x64, 0x69, 0x75, 0x6F, 0x78, 0x58}"

primrec log_in :: "(u32 \<Rightarrow> u8) \<Rightarrow> log_piece \<Rightarrow> bool" where
  "log_in m (LPlain c) = (c \<noteq> 0x25)"
| "log_in m LPercent = True"
| "log_in m (LInt cv c v) = (conv_ok cv \<and> c \<in> int_letters)"
| "log_in m (LChr cv v) = conv_ok cv"
| "log_in m (LStr cv p cs) = (conv_ok cv \<and> cstr m p cs \<and> length cs < 2 ^ 31)"
| "log_in m (LSkip cv c) = (conv_ok cv \<and> letter c \<and> c \<notin> int_letters \<and> c \<noteq> 0x63 \<and> c \<noteq> 0x73)"

section \<open>One piece\<close>

lemma letters [simp]: "c \<in> int_letters \<Longrightarrow> letter c" "letter 0x63" "letter 0x73"
  by (auto simp: int_letters_def)

lemma width_sint: "conv_ok cv \<Longrightarrow> sint (fmtBeforeDecimal (conv_vars cv)) = conv_width cv"
  by (auto simp: conv_vars_def conv_width_def conv_ok_def sint_of_nat_31 split: option.splits)

lemma width_ge: "- 1 \<le> conv_width cv"
  by (simp add: conv_width_def split: option.splits)

text \<open>The percent sign and the bytes up to the letter are read without sending anything.\<close>

lemma run_conv:
  assumes "conv_ok cv" "letter c" "cstr (bytes s) w (0x25 # conv_text cv @ c # fs)"
  shows "pf_loop B base w Pf_chars f args s = do {
      ((f, args), s) \<leftarrow> pf_letter B base c (conv_vars cv) args s;
      pf_loop B base (w + of_nat (length (0x25 # conv_text cv @ [c]))) Pf_chars f args s
    }"
proof -
  let ?u = "w + 1 + of_nat (length (conv_text cv))"
  have str: "cstr (bytes s) (w + 1) (conv_text cv @ c # fs)" using assms(3) by simp
  have c: "bytes s ?u = c" "c \<noteq> 0" using cstr_append [OF str] by simp_all
  have "pf_loop B base w Pf_chars f args s = pf_loop B base (w + 1) Pf_firstFmtChar pf_percent args s"
    by (rule pf_loop_step [where c = "0x25"]) (use assms(3) in \<open>simp_all add: pf_char_def\<close>)
  also have "\<dots> = pf_loop B base ?u Pf_otherFmtChar (conv_vars cv) args s"
    by (rule conv_run [OF assms(1,2) str])
  also have "\<dots> = do { ((f, args), s) \<leftarrow> pf_letter B base c (conv_vars cv) args s;
      pf_loop B base (?u + 1) Pf_chars f args s }"
    unfolding pf_loop.simps [of B base ?u] c(1)
    using assms(2) c(2) by (auto simp: pf_char_def pf_other_def split: bind_splits)
  finally show ?thesis by (simp add: algebra_simps)
qed

text \<open>What each letter sends.\<close>

lemma conv_vars_sel [simp]:
  "fmtBase (conv_vars cv) = 10" "fmtSigned (conv_vars cv)" "\<not> fmtCase (conv_vars cv)"
  "fmtLeadingZero (conv_vars cv) = cv_zero cv"
  by (simp_all add: conv_vars_def pf_percent_def)

lemma letter_int:
  fixes s :: "('h, 'x) hal_scheme"
  assumes D: "drains B base busy" and ok: "conv_ok cv" and c: "c \<in> int_letters"
  shows "wp (pf_letter B base c (conv_vars cv) (v # args) s)
    (\<lambda>r s'. snd r = args \<and> sends base (map ucast (number_text cv c v)) s s')"
proof -
  obtain f where f: "pf_integer c (conv_vars cv) = Some f" and b: "unat (fmtBase f) = letter_base c"
    and e: "fmtSigned f = letter_signed c" "fmtCase f = (c = 0x58)" "fmtLeadingZero f = cv_zero cv"
      "fmtBeforeDecimal f = fmtBeforeDecimal (conv_vars cv)"
    using c by (auto simp: int_letters_def pf_integer_def letter_base_def letter_signed_def)
  have "2 \<le> unat (fmtBase f)" "unat (fmtBase f) \<le> 16" by (simp_all add: b letter_base_def)
  moreover have "- 1 \<le> sint (fmtBeforeDecimal f)" by (simp add: e width_sint [OF ok] width_ge)
  ultimately have "wp (print_integer B base f v s) (\<lambda>_. sends base (map ucast (number_text cv c v)) s)"
    using print_integer_sends [OF D, of f v s]
    by (simp add: number_text_def int_digits_def b e width_sint [OF ok])
  then show ?thesis by (simp add: pf_letter_def f)
qed

lemma letter_other:
  fixes s :: "('h, 'x) hal_scheme"
  assumes D: "drains B base busy" and ok: "conv_ok cv"
  shows "wp (pf_letter B base 0x63 (conv_vars cv) (v # args) s)
      (\<lambda>r s'. snd r = args \<and> sends base (log_out (LChr cv v)) s s')"
    and "cstr (bytes s) p cs \<Longrightarrow> length cs < 2 ^ 31 \<Longrightarrow> wp (pf_letter B base 0x73 (conv_vars cv) (p # args) s)
      (\<lambda>r s'. snd r = args \<and> sends base (log_out (LStr cv p cs)) s s')"
    and "letter c \<Longrightarrow> c \<notin> int_letters \<Longrightarrow> c \<noteq> 0x63 \<Longrightarrow> c \<noteq> 0x73 \<Longrightarrow>
      wp (pf_letter B base c (conv_vars cv) args s) (\<lambda>r s'. snd r = args \<and> sends base [] s s')"
proof -
  let ?w = "fmtBeforeDecimal (conv_vars cv)"
  have w: "sint (?w - of_nat n) = conv_width cv - int n" if "n < 2 ^ 31" for n
    using sint_minus_count [of ?w n] that by (simp add: width_sint [OF ok] width_ge)
  note rep = repchar_sends [OF D] and seq = wp_sends_bind [where P = "\<lambda>_. True"]
  have none: "pf_integer c (conv_vars cv) = None" if "c \<notin> int_letters" for c
    using that by (simp add: pf_integer_def int_letters_def)
  have "wp (do { (_, s) \<leftarrow> alt_log_repchar B 0x20 (?w - 1) base s; alt_log_txchar B v base s })
      (\<lambda>_. sends base (replicate (nat (conv_width cv - 1)) 0x20 @ [v]) s)"
    using rep [of "0x20" "?w - 1"] w [of 1] by (intro seq) (simp_all add: txchar_sends [OF D])
  then show "wp (pf_letter B base 0x63 (conv_vars cv) (v # args) s)
      (\<lambda>r s'. snd r = args \<and> sends base (log_out (LChr cv v)) s s')"
    by (simp add: pf_letter_def none int_letters_def)
  show "wp (pf_letter B base 0x73 (conv_vars cv) (p # args) s)
      (\<lambda>r s'. snd r = args \<and> sends base (log_out (LStr cv p cs)) s s')"
    if cs: "cstr (bytes s) p cs" "length cs < 2 ^ 31"
  proof -
    have "wp (do { (_, s) \<leftarrow> alt_log_repchar B 0x20 (?w - of_nat (length cs)) base s; log_string B base p s })
        (\<lambda>_. sends base (replicate (nat (conv_width cv - int (length cs))) 0x20 @ map scast cs) s)"
      using rep [of "0x20" "?w - of_nat (length cs)"] w [OF cs(2)] cs(1)
      by (intro seq) (simp_all add: log_string_sends [OF D])
    then show ?thesis by (simp add: pf_letter_def none int_letters_def strlen_cstr [OF cs(1)])
  qed
  show "wp (pf_letter B base c (conv_vars cv) args s) (\<lambda>r s'. snd r = args \<and> sends base [] s s')"
    if "letter c" "c \<notin> int_letters" "c \<noteq> 0x63" "c \<noteq> 0x73"
    using that by (simp add: pf_letter_def none)
qed

lemma log_piece_sends:
  fixes s :: "('h, 'x) hal_scheme"
  assumes D: "drains B base busy"
    and str: "cstr (bytes s) w (log_fmt q @ fs)" and q: "log_in (bytes s) q"
    and rst: "\<And>s' f. sends base (log_out q) s s' \<Longrightarrow>
      wp (pf_loop B base (w + of_nat (length (log_fmt q))) Pf_chars f args s') Q"
  shows "wp (pf_loop B base w Pf_chars f (log_args q @ args) s) Q"
proof -
  have conv: "wp (pf_loop B base w Pf_chars f (log_args q @ args) s) Q"
    if "log_fmt q = 0x25 # conv_text cv @ [c]" "conv_ok cv" "letter c"
      and l: "wp (pf_letter B base c (conv_vars cv) (log_args q @ args) s) (\<lambda>r s'. snd r = args \<and> sends base (log_out q) s s')"
    for cv c
  proof -
    have "cstr (bytes s) w (0x25 # conv_text cv @ c # fs)" using str that(1) by simp
    note run = run_conv [OF that(2,3) this]
    show ?thesis
      unfolding run wp_bind
      by (rule wp_mono [OF l]) (use rst that(1) in \<open>auto split: prod.splits\<close>)
  qed
  show ?thesis
  proof (cases q)
    case (LPlain c)
    then show ?thesis
      using str q rst by (subst pf_loop.simps) (auto simp: pf_char_def intro!: wp_mono [OF txchar_sends [OF D]])
  next
    case LPercent
    have e: "pf_loop B base w Pf_chars f args s = pf_loop B base (w + 1) Pf_firstFmtChar pf_percent args s"
      by (rule pf_loop_step [where c = "0x25"]) (use str LPercent in \<open>simp_all add: pf_char_def\<close>)
    show ?thesis
      using str rst LPercent
      by (simp add: e pf_loop.simps [of B base "w + 1"] pf_char_def)
        (auto simp: algebra_simps intro!: wp_mono [OF txchar_sends [OF D, where c = "0x25"]])
  next
    case (LInt cv c v)
    show ?thesis by (rule conv [of cv c]) (use q LInt letter_int [OF D] letters(1) [of c] in auto)
  next
    case (LChr cv v)
    show ?thesis by (rule conv [of cv "0x63"]) (use q LChr letter_other(1) [OF D] in simp_all)
  next
    case (LStr cv p cs)
    show ?thesis by (rule conv [of cv "0x73"]) (use q LStr letter_other(2) [OF D] in auto)
  next
    case (LSkip cv c)
    show ?thesis by (rule conv [of cv c]) (use q LSkip letter_other(3) [OF D] in auto)
  qed
qed

lemma log_pieces_send:
  fixes s :: "('h, 'x) hal_scheme"
  assumes D: "drains B base busy"
  shows "cstr (bytes s) w (concat (map log_fmt qs) @ trail) \<Longrightarrow> trail = [] \<or> trail = [0x25] \<Longrightarrow>
     (\<forall>q \<in> set qs. log_in (bytes s) q) \<Longrightarrow>
     wp (pf_loop B base w Pf_chars f (concat (map log_args qs) @ spare) s) (\<lambda>_. sends base (concat (map log_out qs)) s)"
proof (induction qs arbitrary: w s f)
  case Nil
  then show ?case by (auto simp: pf_loop.simps [of B base w] pf_loop.simps [of B base "w + 1"] pf_char_def)
next
  case (Cons q qs)
  show ?case
    unfolding list.map concat.simps append_assoc
  proof (rule log_piece_sends [OF D])
    show "cstr (bytes s) w (log_fmt q @ concat (map log_fmt qs) @ trail)" using Cons.prems(1) by simp
    show "log_in (bytes s) q" using Cons.prems(3) by simp
    fix s' :: "('h, 'x) hal_scheme" and f'
    assume s': "sends base (log_out q) s s'"
    have "cstr (bytes s') (w + of_nat (length (log_fmt q))) (concat (map log_fmt qs) @ trail)"
      using cstr_append [of "bytes s" w "log_fmt q"] Cons.prems(1) s' by simp
    from Cons.IH [OF this Cons.prems(2), of f'] Cons.prems(3) s'
    show "wp (pf_loop B base (w + of_nat (length (log_fmt q))) Pf_chars f' (concat (map log_args qs) @ spare) s')
        (\<lambda>_. sends base (log_out q @ concat (map log_out qs)) s)"
      by (auto intro: sends_trans elim!: wp_mono)
  qed
qed

section \<open>Properties\<close>

text \<open>C30. The logging \<open>printf\<close> sends what its format asks for.  On a line that the host drains, for a
  format made of plain bytes, \<open>%%\<close>, conversions with any zero flag, width, precision and \<open>l\<close>, unknown
  letters, and possibly a lone \<open>%\<close> at the end, the call returns having written to the data register, in
  order: for \<open>d i u o x X\<close> the numeral of the argument in the base of the letter, computed by division,
  with its sign when the letter is signed (also for the least integer), padded to the width with blanks
  before the sign or with zeros after it; for \<open>c\<close> and \<open>s\<close> the padded character and string; nothing for an
  unknown letter; and each character directly after a poll that saw space.  Nothing else changes.\<close>

theorem log_printf_renders:
  fixes s :: "('h, 'x) hal_scheme"
  assumes "drains B base busy"
    and "cstr (bytes s) fmt (concat (map log_fmt qs) @ trail)" "trail = [] \<or> trail = [0x25]"
    and "\<forall>q \<in> set qs. log_in (bytes s) q"
  shows "\<exists>h es. alt_log_private_printf B fmt base (concat (map log_args qs) @ spare) s =
      Some ((), s\<lparr>hw := h, trace := trace s @ es\<rparr>) \<and>
    writes_to base es = concat (map log_out qs) \<and> paced base False es"
  using log_pieces_send [OF assms, of pf_init spare]
  by (auto simp: alt_log_private_printf_def wp_iff sends_def)

lemma slow_host_drains: "drains slow_host 0x20000 (\<lambda>h. h)"
  by (auto simp: drains_def slow_host_def)

theorem log_printf_renders_witness:
  "\<exists>h es. alt_log_private_printf slow_host 0x100 0x20000 [-42, 0xBEEF]
      (demo_uart [0x25, 0x30, 0x35, 0x64, 0x7C, 0x25, 0x58] 2) =
        Some ((), demo_uart [0x25, 0x30, 0x35, 0x64, 0x7C, 0x25, 0x58] 2\<lparr>hw := h, trace := es\<rparr>) \<and>
      writes_to 0x20000 es = [0x2D, 0x30, 0x30, 0x34, 0x32, 0x7C, 0x42, 0x45, 0x45, 0x46]"
proof -
  let ?s = "demo_uart [0x25, 0x30, 0x35, 0x64, 0x7C, 0x25, 0x58] 2"
  let ?cv = "\<lparr>cv_zero = True, cv_width = Some 5, cv_prec = None, cv_long = False\<rparr>"
  let ?c0 = "\<lparr>cv_zero = False, cv_width = None, cv_prec = None, cv_long = False\<rparr>"
  let ?qs = "[LInt ?cv 0x64 (-42), LPlain 0x7C, LInt ?c0 0x58 0xBEEF]"
  have str: "cstr (bytes ?s) 0x100 (concat (map log_fmt ?qs) @ [])"
    by (simp add: conv_text_def decimal_def radix.simps digit_text_def)
  have out: "concat (map log_out ?qs) = [0x2D, 0x30, 0x30, 0x34, 0x32, 0x7C, 0x42, 0x45, 0x45, 0x46]"
  proof -
    have r: "radix 10 42 = [4, 2]" "radix 16 0xBEEF = [11, 14, 14, 15]" by (simp_all add: radix.simps)
    have two: "replicate 2 x = [x, x]" for x :: u8 by (simp add: numeral_2_eq_2)
    have "number_text ?cv 0x64 (-42) = [0x2D, 0x30, 0x30, 0x34, 0x32]"
      by (simp add: number_text_def int_text_def letter_base_def letter_signed_def conv_width_def r two digit_text_def)
    moreover have "number_text ?c0 0x58 0xBEEF = [0x42, 0x45, 0x45, 0x46]"
      by (simp add: number_text_def int_text_def letter_base_def letter_signed_def conv_width_def r digit_text_def)
    ultimately show ?thesis by simp
  qed
  have inn: "\<forall>q \<in> set ?qs. log_in (bytes ?s) q" by (simp add: conv_ok_def int_letters_def)
  from log_printf_renders [OF slow_host_drains str _ inn, of "[]"] show ?thesis
    unfolding out by auto
qed

section \<open>Heartbeat\<close>

text \<open>The bytes of a string literal.\<close>

definition ascii :: "string \<Rightarrow> u8 list" where
  "ascii cs = map of_char cs"

definition clock_text :: "u32 \<Rightarrow> u32 list" where
  "clock_text n = map scast (ascii ''System Clock On '') @ map (ucast \<circ> digit_text False) (radix 10 (unat n)) @ [0x0D, 0x0A]"

definition clock_fmt :: "u8 list" where
  "clock_fmt = ascii ''System Clock On %u'' @ [0x0D, 0x0A]"

abbreviation plain_conv :: conv where
  "plain_conv \<equiv> \<lparr>cv_zero = False, cv_width = None, cv_prec = None, cv_long = False\<rparr>"

lemma plain_pieces:
  "concat (map log_fmt (map LPlain cs)) = cs" "concat (map log_args (map LPlain cs)) = []"
  "concat (map log_out (map LPlain cs)) = map scast cs"
  "(\<forall>q \<in> set (map LPlain cs). log_in m q) = (0x25 \<notin> set cs)"
  by (induction cs) auto

lemma clock_sends:
  fixes s :: "('h, 'x) hal_scheme"
  assumes D: "drains B (ALT_LOG_PORT_BASE L) busy" and str: "cstr (bytes s) (str_clock L) clock_fmt"
  shows "\<exists>h es. alt_log_printf_proc B L (str_clock L) [n] s = Some (0, s\<lparr>hw := h, trace := trace s @ es\<rparr>) \<and>
    writes_to (ALT_LOG_PORT_BASE L) es = clock_text n"
proof -
  let ?p = "map LPlain (ascii ''System Clock On '')" and ?e = "[LInt plain_conv 0x75 n, LPlain 0x0D, LPlain 0x0A]"
  have f: "cstr (bytes s) (str_clock L) (concat (map log_fmt (?p @ ?e)) @ [])"
    using str unfolding map_append concat_append plain_pieces(1)
    by (simp add: clock_fmt_def ascii_def conv_text_def)
  have "0x25 \<notin> set (ascii ''System Clock On '')" by (simp add: ascii_def)
  then have i: "\<forall>q \<in> set (?p @ ?e). log_in (bytes s) q"
    unfolding set_append ball_Un plain_pieces(4) by (simp add: conv_ok_def int_letters_def)
  have o: "concat (map log_out (?p @ ?e)) = clock_text n"
    unfolding map_append concat_append plain_pieces(3)
    by (simp add: clock_text_def number_text_def int_text_def conv_width_def letter_signed_def letter_base_def)
  have a: "concat (map log_args (?p @ ?e)) @ [] = [n]"
    unfolding map_append concat_append plain_pieces(2) by simp
  have "wp (pf_loop B (ALT_LOG_PORT_BASE L) (str_clock L) Pf_chars pf_init [n] s)
      (\<lambda>_. sends (ALT_LOG_PORT_BASE L) (clock_text n) s)"
    using log_pieces_send [OF D f disjI1 [OF refl] i, of pf_init "[]"] unfolding o a .
  then show ?thesis
    by (simp add: alt_log_printf_proc_def alt_log_private_printf_def wp_iff sends_def) (elim exE conjE, auto)
qed

primrec calls :: "nat \<Rightarrow> (unit, 's) prog \<Rightarrow> (unit, 's) prog" where
  "calls 0 f s = Some ((), s)"
| "calls (Suc n) f s = do { (_, s) \<leftarrow> calls n f s; f s }"

lemma quiet_ticks:
  fixes s :: "('h, 'x) log_st_scheme"
  assumes "alt_log_sys_clk_on_flag s \<noteq> 0" "alt_log_sys_clk_count s = 0"
  shows "n \<le> unat (tick_rate s) \<Longrightarrow>
    calls n (alt_log_system_clock B L) s = Some ((), s\<lparr>alt_log_sys_clk_count := of_nat n\<rparr>)"
proof (induction n)
  case 0
  then show ?case using assms(2) by simp
next
  case (Suc n)
  have "Suc n < 2 ^ 32" using Suc.prems unsigned_less [of "tick_rate s", where 'a = nat] by simp
  then have "unat (of_nat n + 1 :: u32) = Suc n"
    by (simp add: unat_word_ariths unat_of_nat)
  with Suc assms(1) show ?case
    by (simp add: alt_log_system_clock_def ALT_LOG_SYS_CLK_INTERVAL_def alt_ticks_per_second_def word_less_nat_alt Let_def add.commute)
qed

text \<open>The heartbeat of the system clock.  With the flag on and the count at zero, of the calls that the
  timer interrupt makes the first \<open>alt_ticks_per_second ()\<close> only count, and the one after them sends the
  line \<open>System Clock On n\<close> with the number of lines so far, counts it, and starts over: the line comes every
  \<open>alt_ticks_per_second () + 1\<close> ticks.\<close>

theorem log_heartbeat_period:
  fixes s :: "('h, 'x) log_st_scheme"
  assumes "drains B (ALT_LOG_PORT_BASE L) busy" "cstr (bytes s) (str_clock L) clock_fmt"
    and "alt_log_sys_clk_on_flag s \<noteq> 0" "alt_log_sys_clk_count s = 0" "tick_rate s \<noteq> -1"
  shows "(\<forall>n \<le> unat (tick_rate s). calls n (alt_log_system_clock B L) s = Some ((), s\<lparr>alt_log_sys_clk_count := of_nat n\<rparr>)) \<and>
    (\<exists>h es. calls (unat (tick_rate s) + 1) (alt_log_system_clock B L) s =
        Some ((), s\<lparr>alt_log_sys_clk_count := 0, alt_system_clock_in_sec := alt_system_clock_in_sec s + 1,
          hw := h, trace := trace s @ es\<rparr>) \<and>
      writes_to (ALT_LOG_PORT_BASE L) es = clock_text (alt_system_clock_in_sec s))"
proof -
  note q = quiet_ticks [OF assms(3,4)]
  let ?t = "s\<lparr>alt_log_sys_clk_count := 0, alt_system_clock_in_sec := alt_system_clock_in_sec s + 1\<rparr>"
  obtain h es where c: "alt_log_printf_proc B L (str_clock L) [alt_system_clock_in_sec s] ?t = Some (0, ?t\<lparr>hw := h, trace := trace ?t @ es\<rparr>)"
      "writes_to (ALT_LOG_PORT_BASE L) es = clock_text (alt_system_clock_in_sec s)"
    using clock_sends [OF assms(1), of ?t "alt_system_clock_in_sec s"] assms(2) by auto
  have "s\<lparr>alt_log_sys_clk_count := 0\<rparr> = s" using assms(4) by simp
  moreover have "tick_rate s < tick_rate s + 1"
    using unat_plus_one_less [of "tick_rate s" "-1"] assms(5)
    by (simp add: word_order.not_eq_extremum word_less_nat_alt [of _ "tick_rate s + 1"])
  ultimately have "calls (unat (tick_rate s) + 1) (alt_log_system_clock B L) s = Some ((), ?t\<lparr>hw := h, trace := trace s @ es\<rparr>)"
    using q [of "unat (tick_rate s)"] c(1) assms(3)
    by (simp add: alt_log_system_clock_def ALT_LOG_SYS_CLK_INTERVAL_def alt_ticks_per_second_def Let_def)
  then have "\<exists>h es. calls (unat (tick_rate s) + 1) (alt_log_system_clock B L) s = Some ((), ?t\<lparr>hw := h, trace := trace s @ es\<rparr>) \<and>
      writes_to (ALT_LOG_PORT_BASE L) es = clock_text (alt_system_clock_in_sec s)"
    using c(2) by (intro exI conjI)
  then show ?thesis using q by blast
qed

text \<open>A system whose clock ticks twice a second, with the logging strings in memory.\<close>

definition demo_log :: "nat log_st" where
  "demo_log = uart_st.extend (uart_st.truncate (demo_uart clock_fmt 2\<lparr>tick_rate := 2\<rparr>))
     (log_st.fields 1 1 1 0 0 0 0 7)"

definition demo_log_env :: log_env where
  "demo_log_env = \<lparr>ALT_LOG_PORT_BASE = 0x20000, alt_log_write_buf = 0x400, str_control_small = 0x500, str_control = 0x500,
     str_alarm = 0x500, str_startup = 0x500, str_irq = 0x500, str_echo = 0x500, str_clock = 0x100,
     alt_log_jtag_uart_alarm_1 = 0x600, report_log_fn = 0x700\<rparr>"

lemma demo_log_sel [simp]:
  "bytes demo_log = write_bytes (\<lambda>_. 0) 0x100 clock_fmt" "tick_rate demo_log = 2" "trace demo_log = []"
  "alt_log_sys_clk_on_flag demo_log = 1" "alt_log_sys_clk_count demo_log = 0" "alt_system_clock_in_sec demo_log = 7"
  by (simp_all add: demo_log_def uart_st.defs log_st.defs demo_uart_def)

theorem log_heartbeat_period_witness:
  "\<exists>s' es. calls 2 (alt_log_system_clock slow_host demo_log_env) demo_log = Some ((), demo_log\<lparr>alt_log_sys_clk_count := 2\<rparr>) \<and>
     calls 3 (alt_log_system_clock slow_host demo_log_env) demo_log = Some ((), s') \<and> alt_system_clock_in_sec s' = 8 \<and>
     trace s' = es \<and> writes_to 0x20000 es = clock_text 7"
proof -
  have d: "drains slow_host (ALT_LOG_PORT_BASE demo_log_env) (\<lambda>h. h)"
    using slow_host_drains by (simp add: demo_log_env_def)
  have c: "cstr (bytes demo_log) (str_clock demo_log_env) clock_fmt"
    by (simp add: demo_log_env_def clock_fmt_def ascii_def)
  have n: "alt_log_sys_clk_on_flag demo_log \<noteq> 0" "tick_rate demo_log \<noteq> -1" by simp_all
  from log_heartbeat_period [OF d c n(1) _ n(2)]
  have all: "\<forall>n \<le> 2. calls n (alt_log_system_clock slow_host demo_log_env) demo_log = Some ((), demo_log\<lparr>alt_log_sys_clk_count := of_nat n\<rparr>)"
    and beat: "\<exists>h es. calls 3 (alt_log_system_clock slow_host demo_log_env) demo_log =
        Some ((), demo_log\<lparr>alt_log_sys_clk_count := 0, alt_system_clock_in_sec := 8, hw := h, trace := es\<rparr>) \<and>
      writes_to 0x20000 es = clock_text 7"
    by (simp_all add: demo_log_env_def)
  from all have "calls 2 (alt_log_system_clock slow_host demo_log_env) demo_log = Some ((), demo_log\<lparr>alt_log_sys_clk_count := 2\<rparr>)"
    by (metis le_refl of_nat_numeral)
  with beat show ?thesis by auto
qed

section \<open>Echo of write\<close>

definition escaped :: "u8 \<Rightarrow> u8" where
  "escaped c = (if c = 4 then 0x44 else c)"

lemma offsets_apart: "i < 2 ^ 32 \<Longrightarrow> j < 2 ^ 32 \<Longrightarrow> (p :: u32) + of_nat i = p + of_nat j \<longleftrightarrow> i = j"
  using unat_of_nat_32 by (metis add_left_cancel)

lemma later_apart: "Suc n < 2 ^ 32 \<Longrightarrow> \<forall>j < n. (p :: u32) \<noteq> p + 1 + of_nat j"
  using offsets_apart [of 0 "Suc _" p] by (auto simp: add.assoc)

lemma strncpy_outside: "(\<forall>j < n. a \<noteq> dst + of_nat j) \<Longrightarrow> strncpy m dst src n a = m a"
  by (induction n arbitrary: m dst src) (simp_all add: All_less_Suc2 add.assoc)

lemma strncpy_inside:
  "(\<forall>i < n. m (src + of_nat i) \<noteq> 0 \<and> (\<forall>j < n. src + of_nat i \<noteq> dst + of_nat j)) \<Longrightarrow> n < 2 ^ 32 \<Longrightarrow> i < n \<Longrightarrow>
   strncpy m dst src n (dst + of_nat i) = m (src + of_nat i)"
proof (induction n arbitrary: m dst src i)
  case (Suc n)
  have z: "m src \<noteq> 0" and src: "\<forall>j < n. src \<noteq> dst + 1 + of_nat j" "src \<noteq> dst"
    and ne: "\<forall>i < n. src + 1 + of_nat i \<noteq> dst"
    and later: "\<forall>i < n. m (src + 1 + of_nat i) \<noteq> 0 \<and> (\<forall>j < n. src + 1 + of_nat i \<noteq> dst + 1 + of_nat j)"
    using Suc.prems(1) by (auto simp: All_less_Suc2 add.assoc)
  show ?case
  proof (cases i)
    case 0
    then show ?thesis using z later_apart [OF Suc.prems(2), of dst] by (simp add: strncpy_outside)
  next
    case (Suc k)
    define m2 where "m2 = m(dst := m src)"
    have "\<forall>i < n. m2 (src + 1 + of_nat i) \<noteq> 0 \<and> (\<forall>j < n. src + 1 + of_nat i \<noteq> dst + 1 + of_nat j)"
      using later ne by (simp add: m2_def)
    then have "strncpy m2 (dst + 1) (src + 1) n (dst + 1 + of_nat k) = m2 (src + 1 + of_nat k)"
      using Suc.prems(2,3) Suc by (intro Suc.IH) simp_all
    then show ?thesis
      using z ne Suc Suc.prems(3) by (simp add: add.assoc m2_def [symmetric]) (simp add: m2_def add.assoc)
  qed
qed simp

lemma escape_outside: "(\<forall>j < n. a \<noteq> p + of_nat j) \<Longrightarrow> escape_ctrl_d m p n a = m a"
  by (induction n arbitrary: m p) (simp_all add: All_less_Suc2 add.assoc)

lemma escape_inside: "n < 2 ^ 32 \<Longrightarrow> i < n \<Longrightarrow> escape_ctrl_d m p n (p + of_nat i) = escaped (m (p + of_nat i))"
proof (induction n arbitrary: m p i)
  case (Suc n)
  note apart = later_apart [OF Suc.prems(1), of p]
  show ?case
  proof (cases i)
    case 0
    then show ?thesis using apart by (simp add: escape_outside escaped_def)
  next
    case (Suc k)
    have "p + 1 + of_nat k \<noteq> p" using apart Suc Suc.prems(2) by (metis Suc_less_eq)
    with Suc.IH [of k "if m p = 4 then m(p := 0x44) else m" "p + 1"] Suc.prems Suc show ?thesis
      by (simp add: add.assoc)
  qed
qed simp

lemma cstrI:
  "(\<forall>i < length cs. m (p + of_nat i) = cs ! i) \<Longrightarrow> 0 \<notin> set cs \<Longrightarrow> m (p + of_nat (length cs)) = 0 \<Longrightarrow> cstr m p cs"
  by (induction cs arbitrary: p) (simp_all add: All_less_Suc2 add.assoc)

definition echo_fmt :: "u8 list" where
  "echo_fmt = ascii ''Write Echo: %s''"

text \<open>The echo: all but the last of the first 15 bytes, with a line end.\<close>

definition echo_of :: "u8 list \<Rightarrow> u8 list" where
  "echo_of xs = map escaped (butlast xs) @ [0x0A, 0x0D]"

text \<open>The buffer after its preparation.\<close>

lemma echo_buffer:
  fixes m :: "u32 \<Rightarrow> u8" and xs :: "u8 list"
  defines "n \<equiv> length xs"
  assumes xs: "\<forall>i < n. m (src + of_nat i) = xs ! i" "0 \<notin> set xs" "2 \<le> n" "n \<le> 15"
    and apart: "\<forall>i < n. \<forall>j < 17. src + of_nat i \<noteq> buf + of_nat j"
    and m': "m' = escape_ctrl_d ((strncpy m buf src n)(buf + of_nat n - 1 := 0x0A, buf + of_nat n := 0x0D, buf + of_nat n + 1 := 0)) buf n"
  shows "cstr m' buf (echo_of xs)" "(\<forall>j < 17. a \<noteq> buf + of_nat j) \<Longrightarrow> m' a = m a"
proof -
  define m1 where "m1 = strncpy m buf src n"
  define at where "at = (\<lambda>k. buf + of_nat k :: u32)"
  have ne: "at i = at j \<longleftrightarrow> i = j" if "i < 17" "j < 17" for i j
    unfolding at_def using that by (intro offsets_apart) simp_all
  have "buf + of_nat n - 1 = at (n - 1)" "buf + of_nat n = at n" "buf + of_nat n + 1 = at (n + 1)"
    using xs(3) by (simp_all add: at_def of_nat_diff add.assoc)
  then have m': "m' = escape_ctrl_d (m1(at (n - 1) := 0x0A, at n := 0x0D, at (n + 1) := 0)) buf n"
    by (simp only: m' m1_def)
  have cp: "m1 (at i) = xs ! i" if "i < n" for i
  proof -
    have "\<forall>i < n. m (src + of_nat i) \<noteq> 0 \<and> (\<forall>j < n. src + of_nat i \<noteq> buf + of_nat j)"
      using xs apart by (auto simp: n_def in_set_conv_nth)
    from strncpy_inside [OF this _ that] xs that show ?thesis by (simp add: m1_def at_def)
  qed
  have inside: "m' (at i) = escaped ((m1(at (n - 1) := 0x0A, at n := 0x0D, at (n + 1) := 0)) (at i))" if "i < n" for i
    unfolding m' at_def using that xs(4) by (intro escape_inside) simp_all
  have outside: "m' a = (m1(at (n - 1) := 0x0A, at n := 0x0D, at (n + 1) := 0)) a" if "\<forall>j < n. a \<noteq> at j" for a
    unfolding m' using that by (intro escape_outside) (simp add: at_def)
  have len: "length (echo_of xs) = n + 1" using xs(3) by (simp add: echo_of_def n_def)
  show "cstr m' buf (echo_of xs)"
  proof (rule cstrI)
    show "0 \<notin> set (echo_of xs)"
      using xs(2) by (auto simp: echo_of_def escaped_def dest: in_set_butlastD)
    have "m' (at i) = echo_of xs ! i" if i: "i < length (echo_of xs)" for i
    proof -
      consider "i < n - 1" | "i = n - 1" | "i = n" using len i by linarith
      then show ?thesis
      proof cases
        case 1
        then have "m' (at i) = escaped (xs ! i)"
          using xs(3,4) by (auto simp: inside ne cp)
        then show ?thesis using 1 by (simp add: echo_of_def nth_append n_def nth_butlast)
      next
        case 2
        have "m' (at i) = escaped 0x0A" unfolding 2 using xs(3,4) by (auto simp: inside ne)
        then show ?thesis using 2 xs(3) by (simp add: echo_of_def nth_append n_def escaped_def)
      next
        case 3
        have "m' (at i) = 0x0D" unfolding 3 using xs(3,4) by (simp add: outside ne)
        then show ?thesis using 3 xs(3) by (auto simp: echo_of_def nth_append n_def)
      qed
    qed
    then show "\<forall>i < length (echo_of xs). m' (buf + of_nat i) = echo_of xs ! i" by (simp add: at_def)
    have "m' (at (n + 1)) = 0" using xs(3,4) by (simp add: outside ne)
    then show "m' (buf + of_nat (length (echo_of xs))) = 0" unfolding len by (simp add: at_def)
  qed
  show "m' a = m a" if "\<forall>j < 17. a \<noteq> buf + of_nat j"
  proof -
    have "\<forall>j < 17. a \<noteq> at j" using that by (simp add: at_def)
    then have "m' a = m1 a" using xs(3,4) by (simp add: outside)
    also have "\<dots> = m a" unfolding m1_def using that xs(4) by (intro strncpy_outside) simp
    finally show ?thesis .
  qed
qed

lemma echo_sends:
  fixes s :: "('h, 'x) hal_scheme"
  assumes D: "drains B (ALT_LOG_PORT_BASE L) busy" and str: "cstr (bytes s) (str_echo L) echo_fmt"
    and cs: "cstr (bytes s) p cs" "length cs < 2 ^ 31"
  shows "\<exists>h es. alt_log_printf_proc B L (str_echo L) [p] s = Some (0, s\<lparr>hw := h, trace := trace s @ es\<rparr>) \<and>
    writes_to (ALT_LOG_PORT_BASE L) es = map scast (ascii ''Write Echo: '' @ cs)"
proof -
  let ?p = "map LPlain (ascii ''Write Echo: '')" and ?e = "[LStr plain_conv p cs]"
  have f: "cstr (bytes s) (str_echo L) (concat (map log_fmt (?p @ ?e)) @ [])"
    using str unfolding map_append concat_append plain_pieces(1)
    by (simp add: echo_fmt_def ascii_def conv_text_def)
  have "0x25 \<notin> set (ascii ''Write Echo: '')" by (simp add: ascii_def)
  then have i: "\<forall>q \<in> set (?p @ ?e). log_in (bytes s) q"
    unfolding set_append ball_Un plain_pieces(4) using cs by (simp add: conv_ok_def)
  have o: "concat (map log_out (?p @ ?e)) = map scast (ascii ''Write Echo: '' @ cs)"
    unfolding map_append concat_append plain_pieces(3) by (simp add: conv_width_def)
  have a: "concat (map log_args (?p @ ?e)) @ [] = [p]"
    unfolding map_append concat_append plain_pieces(2) by simp
  have "wp (pf_loop B (ALT_LOG_PORT_BASE L) (str_echo L) Pf_chars pf_init [p] s)
      (\<lambda>_. sends (ALT_LOG_PORT_BASE L) (map scast (ascii ''Write Echo: '' @ cs)) s)"
    using log_pieces_send [OF D f disjI1 [OF refl] i, of pf_init "[]"] unfolding o a .
  then show ?thesis
    by (simp add: alt_log_printf_proc_def alt_log_private_printf_def wp_iff sends_def) (elim exE conjE, auto)
qed

text \<open>What of a \<open>write\<close> is echoed.  With the flag on, a text of at least two bytes without a zero among
  the first 15, and the echo buffer apart from the text and from the format: the log line is \<open>Write Echo: \<close>
  followed by all but the last of the first 15 bytes, with a line end, and with every control-D replaced by
  \<open>D\<close>; the byte in the place of the line end is not echoed.  Memory outside the 17 bytes of the buffer is unchanged.\<close>

theorem log_write_echo:
  fixes s :: "('h, 'x) log_st_scheme"
  assumes "drains B (ALT_LOG_PORT_BASE L) busy" "cstr (bytes s) (str_echo L) echo_fmt" "alt_log_write_on_flag s \<noteq> 0"
    and "xs = read_bytes (bytes s) ptr (min (unat len) 15)" "2 \<le> length xs" "0 \<notin> set xs"
    and "\<forall>i < 15. \<forall>j < 17. ptr + of_nat i \<noteq> alt_log_write_buf L + of_nat j"
    and "\<forall>i < 15. \<forall>j < 17. str_echo L + of_nat i \<noteq> alt_log_write_buf L + of_nat j"
  shows "\<exists>s' es. alt_log_write B L ptr len s = Some ((), s') \<and> trace s' = trace s @ es \<and>
    writes_to (ALT_LOG_PORT_BASE L) es = map scast (ascii ''Write Echo: '' @ echo_of xs) \<and>
    (\<forall>a. (\<forall>j < 17. a \<noteq> alt_log_write_buf L + of_nat j) \<longrightarrow> bytes s' a = bytes s a)"
proof -
  let ?buf = "alt_log_write_buf L"
  define n where "n = (if 15 > len then len else 15)"
  have n: "unat n = length xs" "length xs \<le> 15"
    using assms(4) by (auto simp: n_def word_less_nat_alt)
  have w: "of_nat (length xs) = n" using n(1) by (metis of_nat_unat ucast_id)
  have sn: "\<not> sint n < 2" unfolding w [symmetric] using n(2) assms(5) sint_of_nat_31 [of "length xs"] by simp
  define m where "m = escape_ctrl_d ((strncpy (bytes s) ?buf ptr (length xs))
      (?buf + of_nat (length xs) - 1 := 0x0A, ?buf + of_nat (length xs) := 0x0D, ?buf + of_nat (length xs) + 1 := 0)) ?buf (length xs)"
  have nth: "\<forall>i < length xs. bytes s (ptr + of_nat i) = xs ! i"
    using assms(4) by (simp add: nth_read_bytes)
  note buf = echo_buffer [OF nth assms(6,5) n(2) _ m_def]
  have apart: "\<forall>i < length xs. \<forall>j < 17. ptr + of_nat i \<noteq> ?buf + of_nat j" using assms(7) n(2) by simp
  have str: "cstr m (str_echo L) echo_fmt"
  proof (rule cstrI)
    have l: "length echo_fmt = 14" by (simp add: echo_fmt_def ascii_def)
    have same: "m (str_echo L + of_nat i) = bytes s (str_echo L + of_nat i)" if "i < 15" for i
      by (rule buf(2) [OF apart]) (use assms(8) that in blast)
    show "\<forall>i < length echo_fmt. m (str_echo L + of_nat i) = echo_fmt ! i"
      using cstr_nth [OF assms(2)] same l by simp
    show "0 \<notin> set echo_fmt" by (rule cstr_nonzero [OF assms(2)])
    show "m (str_echo L + of_nat (length echo_fmt)) = 0"
      using cstr_end [OF assms(2)] same [of 14] l by simp
  qed
  have "length (echo_of xs) < 2 ^ 31" using n(2) by (simp add: echo_of_def)
  from echo_sends [OF assms(1), of "s\<lparr>bytes := m\<rparr>" "?buf" "echo_of xs"] str buf(1) [OF apart] this
  obtain h es where e: "alt_log_printf_proc B L (str_echo L) [?buf] (s\<lparr>bytes := m\<rparr>) =
      Some (0, s\<lparr>bytes := m, hw := h, trace := trace s @ es\<rparr>)"
    "writes_to (ALT_LOG_PORT_BASE L) es = map scast (ascii ''Write Echo: '' @ echo_of xs)" by auto
  have "alt_log_write B L ptr len s = Some ((), s\<lparr>bytes := m, hw := h, trace := trace s @ es\<rparr>)"
    using assms(3) sn e(1) unfolding m_def w n(1) [symmetric] n_def alt_log_write_def by (simp add: Let_def)
  then show ?thesis using e(2) buf(2) [OF apart] by auto
qed

text \<open>A \<open>write\<close> of 16 letters; 14 of them are echoed.\<close>

abbreviation letters16 :: "u8 list" where
  "letters16 \<equiv> ascii ''ABCDEFGHIJKLMNOP''"

definition demo_echo :: "nat log_st" where
  "demo_echo = demo_log\<lparr>bytes := write_bytes (write_bytes (\<lambda>_. 0) 0x100 echo_fmt) 0x200 letters16\<rparr>"

lemma demo_echo_flag: "alt_log_write_on_flag demo_echo = 1" "trace demo_echo = []"
  by (simp_all add: demo_echo_def demo_log_def uart_st.defs log_st.defs demo_uart_def)

theorem log_write_echo_witness:
  "\<exists>s' es. alt_log_write slow_host (demo_log_env\<lparr>str_echo := 0x100\<rparr>) 0x200 16 demo_echo = Some ((), s') \<and>
     trace s' = es \<and> writes_to 0x20000 es = map scast (ascii ''Write Echo: ABCDEFGHIJKLMN'' @ [0x0A, 0x0D])"
proof -
  let ?L = "demo_log_env\<lparr>str_echo := 0x100\<rparr>" and ?xs = "ascii ''ABCDEFGHIJKLMNO''"
  have d: "drains slow_host (ALT_LOG_PORT_BASE ?L) (\<lambda>h. h)"
    using slow_host_drains by (simp add: demo_log_env_def)
  have c: "cstr (bytes demo_echo) (str_echo ?L) echo_fmt"
    by (simp add: demo_echo_def echo_fmt_def ascii_def)
  have len: "length letters16 = 16" by (simp add: ascii_def)
  have "read_bytes (bytes demo_echo) 0x200 (length letters16) = letters16"
  proof -
    have "bytes demo_echo = write_bytes (write_bytes (\<lambda>_. 0) 0x100 echo_fmt) 0x200 letters16"
      by (simp add: demo_echo_def)
    moreover have "length letters16 \<le> 2 ^ 31" by (simp add: ascii_def)
    ultimately show ?thesis by (simp only: read_write_bytes)
  qed
  then have "take 15 (read_bytes (bytes demo_echo) 0x200 16) = take 15 letters16" unfolding len by (rule arg_cong)
  then have x: "?xs = read_bytes (bytes demo_echo) 0x200 (min (unat (16 :: u32)) 15)"
    by (simp add: take_read_bytes ascii_def)
  have b: "2 \<le> length ?xs" "0 \<notin> set ?xs" by (simp_all add: ascii_def)
  have far: "\<forall>i < 15. \<forall>j < 17. a + of_nat i \<noteq> alt_log_write_buf ?L + of_nat j" if "a = 0x200 \<or> a = 0x100" for a
  proof (intro allI impI)
    fix i j :: nat
    assume ij: "i < 15" "j < 17"
    have "unat (a + of_nat i) = unat a + i" "unat (alt_log_write_buf ?L + of_nat j) = 0x400 + j"
      using that ij by (auto simp: demo_log_env_def unat_word_ariths unat_of_nat_32)
    then show "a + of_nat i \<noteq> alt_log_write_buf ?L + of_nat j" using that ij by auto
  qed
  have w: "alt_log_write_on_flag demo_echo \<noteq> 0" by (simp add: demo_echo_flag)
  have "str_echo ?L = 0x100" by simp
  with far have "\<forall>i < 15. \<forall>j < 17. str_echo ?L + of_nat i \<noteq> alt_log_write_buf ?L + of_nat j" by simp
  from log_write_echo [OF d c w x b far this]
  have "\<exists>s' es. alt_log_write slow_host ?L 0x200 16 demo_echo = Some ((), s') \<and> trace s' = trace demo_echo @ es \<and>
      writes_to (ALT_LOG_PORT_BASE ?L) es = map scast (ascii ''Write Echo: '' @ echo_of ?xs)" by blast
  moreover have "ascii ''Write Echo: '' @ echo_of ?xs = ascii ''Write Echo: ABCDEFGHIJKLMN'' @ [0x0A, 0x0D]"
    by (simp add: echo_of_def escaped_def ascii_def)
  moreover have "ALT_LOG_PORT_BASE ?L = 0x20000" by (simp add: demo_log_env_def)
  ultimately show ?thesis by (simp only: demo_echo_flag append_Nil)
qed

end
