(* ===== verification/App_FrameLoader.thy ===== *)
theory App_FrameLoader
  imports Prelude
begin

text \<open>
  The Linux side: \<open>linux_software/frame_loader/frame_loader.c\<close>, which maps physical memory through
  \<open>/dev/mem\<close> and reads a raw image into the frame buffer.  The operating system is a parameter, a
  record of the calls the program makes over any type of system states; every call returns.
  \<open>printf\<close> and \<open>perror\<close> hand a line to the terminal.  Pointers have 32 bits, as on the ARM
  cores of the board; \<open>argv[0]\<close> is the name of the program; the line ends of the formats are left out.
\<close>

section \<open>The calls\<close>

datatype out_arg = A_str string | A_num u32

datatype out_line = Printf string "out_arg list" | Perror string

record 's posix =
  px_open :: "string \<Rightarrow> u32 \<Rightarrow> 's \<Rightarrow> int \<times> 's"
  px_mmap :: "u32 \<Rightarrow> u32 \<Rightarrow> u32 \<Rightarrow> int \<Rightarrow> u32 \<Rightarrow> 's \<Rightarrow> u32 \<times> 's"
  px_munmap :: "u32 \<Rightarrow> u32 \<Rightarrow> 's \<Rightarrow> int \<times> 's"
  px_close :: "int \<Rightarrow> 's \<Rightarrow> int \<times> 's"
  px_fopen :: "string \<Rightarrow> string \<Rightarrow> 's \<Rightarrow> u32 \<times> 's"
  px_fread :: "u32 \<Rightarrow> u32 \<Rightarrow> u32 \<Rightarrow> u32 \<Rightarrow> 's \<Rightarrow> u32 \<times> 's"
  px_fclose :: "u32 \<Rightarrow> 's \<Rightarrow> int \<times> 's"
  px_out :: "out_line \<Rightarrow> 's \<Rightarrow> 's"

section \<open>frame_loader.c\<close>

definition HW_REGS_BASE :: u32 where "HW_REGS_BASE = 0x00000000"
definition HW_REGS_SPAN :: u32 where "HW_REGS_SPAN = 0x40000000"
definition FRAME_BUFFER_BASE :: u32 where "FRAME_BUFFER_BASE = 0x30000000"
definition FRAME_WIDTH :: u32 where "FRAME_WIDTH = 1280"
definition FRAME_HEIGHT :: u32 where "FRAME_HEIGHT = 720"
definition FRAME_SIZE :: u32 where "FRAME_SIZE = FRAME_WIDTH * FRAME_HEIGHT * 4"

abbreviation (input) O_RDWR :: u32 where "O_RDWR \<equiv> 2"
abbreviation (input) O_SYNC :: u32 where "O_SYNC \<equiv> 0x101000"
abbreviation (input) PROT_READ :: u32 where "PROT_READ \<equiv> 1"
abbreviation (input) PROT_WRITE :: u32 where "PROT_WRITE \<equiv> 2"
abbreviation (input) MAP_SHARED :: u32 where "MAP_SHARED \<equiv> 1"
abbreviation (input) MAP_FAILED :: u32 where "MAP_FAILED \<equiv> -1"

text \<open>What follows the opening of the image.\<close>

definition load_frame :: "'s posix \<Rightarrow> string \<Rightarrow> int \<Rightarrow> u32 \<Rightarrow> u32 \<Rightarrow> 's \<Rightarrow> int \<times> 's" where
  "load_frame P path fd virtual_base img s =
     (let frame_ptr = virtual_base + FRAME_BUFFER_BASE;
          s = px_out P (Printf ''Loading %s to Physical Address 0x%08X...'' [A_str path, A_num FRAME_BUFFER_BASE]) s;
          (read_bytes, s) = px_fread P frame_ptr 1 FRAME_SIZE img s;
          s = px_out P (Printf ''Successfully loaded %zu bytes.'' [A_num read_bytes]) s;
          (_, s) = px_fclose P img s;
          (r, s) = px_munmap P virtual_base HW_REGS_SPAN s
      in if r \<noteq> 0 then
           (let s = px_out P (Perror ''Error: munmap() failed'') s;
                (_, s) = px_close P fd s
            in (1, s))
         else
           (let (_, s) = px_close P fd s in (0, s)))"

text \<open>What follows the opening of \<open>/dev/mem\<close>.\<close>

definition map_frame :: "'s posix \<Rightarrow> string \<Rightarrow> int \<Rightarrow> 's \<Rightarrow> int \<times> 's" where
  "map_frame P path fd s =
     (let (virtual_base, s) = px_mmap P HW_REGS_SPAN (PROT_READ OR PROT_WRITE) MAP_SHARED fd HW_REGS_BASE s
      in if virtual_base = MAP_FAILED then
           (let s = px_out P (Perror ''Error: mmap() failed'') s;
                (_, s) = px_close P fd s
            in (1, s))
         else
           (let (img, s) = px_fopen P path ''rb'' s
            in if img = 0 then
                 (let s = px_out P (Perror ''Error: could not open image file'') s;
                      (_, s) = px_munmap P virtual_base HW_REGS_SPAN s;
                      (_, s) = px_close P fd s
                  in (1, s))
               else load_frame P path fd virtual_base img s))"

definition frame_loader_main :: "'s posix \<Rightarrow> string \<Rightarrow> string list \<Rightarrow> 's \<Rightarrow> int \<times> 's" where
  "frame_loader_main P prog args s =
     (case args of
        [] \<Rightarrow>
          (let s = px_out P (Printf ''Usage: %s <raw_image_file>'' [A_str prog]) s;
               s = px_out P (Printf ''Example: %s test.raw'' [A_str prog]) s
           in (1, s))
      | path # _ \<Rightarrow>
          (let (fd, s) = px_open P ''/dev/mem'' (O_RDWR OR O_SYNC) s
           in if fd = -1 then (1, px_out P (Perror ''Error: could not open \"/dev/mem\"'') s)
              else map_frame P path fd s))"

end
