(* ===== verification/App_FrameLoader_Claims.thy ===== *)
theory App_FrameLoader_Claims
  imports App_FrameLoader
begin




section \<open>Outcomes\<close>








text \<open>A system with one descriptor, one mapping, which it may refuse to give back, and one stream.\<close>

record demo_os =
  d_fd :: bool
  d_map :: "(u32 \<times> u32) option"
  d_img :: bool
  d_mem :: "u32 \<Rightarrow> u8"
  d_sticky :: bool
  d_refused :: "u32 list"


definition demo_posix :: "u8 list \<Rightarrow> demo_os posix" where
  "demo_posix img = \<lparr>
     px_open = (\<lambda>name flags s. if d_fd s then (-1, s) else (3, s\<lparr>d_fd := True\<rparr>)),
     px_mmap = (\<lambda>len prot flags fd off s. if d_map s \<noteq> None \<or> len > 0x40000000 then (-1, s)
        else (0x40000000, s\<lparr>d_map := Some (len, off)\<rparr>)),
     px_munmap = (\<lambda>b len s. if d_sticky s then (-1, s\<lparr>d_refused := d_refused s @ [b]\<rparr>)
        else (0, if b = 0x40000000 then s\<lparr>d_map := None\<rparr> else s)),
     px_close = (\<lambda>fd s. (0, if fd = 3 then s\<lparr>d_fd := False\<rparr> else s)),
     px_fopen = (\<lambda>path mode s. if d_img s then (0, s) else (7, s\<lparr>d_img := True\<rparr>)),
     px_fread = (\<lambda>p size n f s.
        let k = min (unat n) (length img); off = (case d_map s of None \<Rightarrow> 0 | Some (len, off) \<Rightarrow> off) in
        (of_nat k, s\<lparr>d_mem := write_bytes (d_mem s) (off + (p - 0x40000000)) (take k img)\<rparr>)),
     px_fclose = (\<lambda>f s. (0, if f = 7 then s\<lparr>d_img := False\<rparr> else s)),
     px_out = (\<lambda>l s. s)\<rparr>"



definition demo_start :: "bool \<Rightarrow> demo_os" where
  "demo_start sticky = \<lparr>d_fd = False, d_map = None, d_img = False, d_mem = (\<lambda>_. 0), d_sticky = sticky, d_refused = []\<rparr>"




text \<open>An image that is too short, here one of no bytes, is loaded with the result 0.\<close>

lemma short_image_succeeds:
  "fst (frame_loader_main (demo_posix []) ''frame_loader'' [''empty.raw'']
     (demo_start False)) = 0"
  by (simp add: demo_start_def frame_loader_main_def map_frame_def load_frame_def demo_posix_def HW_REGS_SPAN_def Let_def)

end
