(* ===== verification/HAL_Load.thy ===== *)
theory HAL_Load
  imports HAL_Cache App_Common
begin

text \<open>
  Loading a program that starts in flash (\<open>HAL/src/alt_load.c\<close>, \<open>HAL/inc/sys/alt_load.h\<close>): three
  sections are copied word by word from where they are stored to where they are linked, then the
  caches are flushed.  The addresses are the symbols of the linker; a word is its four bytes.
\<close>

partial_function (option) section_loop :: "u32 \<Rightarrow> u32 \<Rightarrow> u32 \<Rightarrow> (unit, ('h, 'x) hal_scheme) prog" where
  "section_loop src dst stop s =
     (if dst \<noteq> stop then
        section_loop (src + 4) (dst + 4) stop
          (s\<lparr>bytes := write_bytes (bytes s) dst (read_bytes (bytes s) src 4)\<rparr>)
      else Some ((), s))"

definition alt_load_section :: "u32 \<Rightarrow> u32 \<Rightarrow> u32 \<Rightarrow> (unit, ('h, 'x) hal_scheme) prog" where
  "alt_load_section src dst stop s = (if dst \<noteq> src then section_loop src dst stop s else Some ((), s))"

record linker_map =
  flash_rwdata_start :: u32
  ram_rwdata_start :: u32
  ram_rwdata_end :: u32
  flash_exceptions_start :: u32
  ram_exceptions_start :: u32
  ram_exceptions_end :: u32
  flash_rodata_start :: u32
  ram_rodata_start :: u32
  ram_rodata_end :: u32

definition alt_load :: "('h, 's) platform \<Rightarrow> 'h cache_ops \<Rightarrow> linker_map \<Rightarrow> (unit, ('h, 'x) hal_scheme) prog" where
  "alt_load P C lm s = do {
     (_, s) \<leftarrow> alt_load_section (flash_rwdata_start lm) (ram_rwdata_start lm) (ram_rwdata_end lm) s;
     (_, s) \<leftarrow> alt_load_section (flash_exceptions_start lm) (ram_exceptions_start lm) (ram_exceptions_end lm) s;
     (_, s) \<leftarrow> alt_load_section (flash_rodata_start lm) (ram_rodata_start lm) (ram_rodata_end lm) s;
     (_, s) \<leftarrow> alt_dcache_flush_all P s;
     alt_icache_flush_all C s
   }"

section \<open>Copying a section\<close>

text \<open>Two ranges of \<open>n\<close> bytes have none in common.\<close>

definition disjoint :: "u32 \<Rightarrow> nat \<Rightarrow> u32 \<Rightarrow> nat \<Rightarrow> bool" where
  "disjoint a n b m \<longleftrightarrow> (\<forall>i < n. \<forall>j < m. a + of_nat i \<noteq> b + of_nat j)"

lemma disjoint_shift:
  assumes "disjoint a (n + k) b (m + l)"
  shows "disjoint a n b m" "disjoint (a + of_nat n) k b m" "disjoint a n (b + of_nat m) l"
    "disjoint (a + of_nat n) k (b + of_nat m) l"
  using assms unfolding disjoint_def
  by (auto simp: add.assoc simp flip: of_nat_add dest: spec [of _ "n + _"] spec [of _ "m + _"])

lemma read_other:
  assumes "disjoint a n b (length xs)"
  shows "read_bytes (write_bytes m b xs) a n = read_bytes m a n"
proof (rule nth_equalityI)
  fix i assume "i < length (read_bytes (write_bytes m b xs) a n)"
  then have i: "i < n" by simp
  then have "write_bytes m b xs (a + of_nat i) = m (a + of_nat i)"
    using assms by (intro write_bytes_other) (auto simp: disjoint_def)
  then show "read_bytes (write_bytes m b xs) a n ! i = read_bytes m a n ! i"
    using i by (simp add: nth_read_bytes)
qed simp

lemma section_loop_copies:
  fixes s :: "('h, 'x) hal_scheme"
  shows "4 * n < 2 ^ 32 \<Longrightarrow> disjoint a (4 * n) b (4 * n) \<Longrightarrow> e = b + of_nat (4 * n) \<Longrightarrow>
    section_loop a b e s = Some ((), s\<lparr>bytes := write_bytes (bytes s) b (read_bytes (bytes s) a (4 * n))\<rparr>)"
proof (induction n arbitrary: a b s)
  case 0
  then show ?case by (subst section_loop.simps) simp
next
  case (Suc n)
  let ?m = "write_bytes (bytes s) b (read_bytes (bytes s) a 4)"
  have split: "4 * Suc n = 4 + 4 * n" by simp
  note d = disjoint_shift [OF Suc.prems(2) [unfolded split]]
  have ne: "b \<noteq> e"
    using unat_of_nat_32 [of "4 * Suc n"] Suc.prems(1,3) by auto
  have "disjoint (a + 4) (4 * n) b 4" using d(2) by simp
  then have r: "read_bytes ?m (a + 4) (4 * n) = read_bytes (bytes s) (a + 4) (4 * n)"
    by (intro read_other) simp
  have "section_loop (a + 4) (b + 4) e (s\<lparr>bytes := ?m\<rparr>) =
      Some ((), s\<lparr>bytes := write_bytes ?m (b + 4) (read_bytes ?m (a + 4) (4 * n))\<rparr>)"
    using Suc.prems(1,3) d(4) by (subst Suc.IH) (simp_all add: algebra_simps)
  then show ?case
    unfolding section_loop.simps [of a b e] if_P [OF ne] split read_bytes_append write_bytes_append
    by (simp add: r)
qed

end
