(* ===== verification/HAL_Load_Claims.thy ===== *)
theory HAL_Load_Claims
  imports HAL_Load
begin

text \<open>
  \<open>alt_load\<close> puts every section in its place, for any placement in which no section is stored on
  another.  A section is its load address, its run address and its length in bytes.
\<close>

type_synonym placed = "u32 \<times> u32 \<times> nat"

definition apart :: "placed \<Rightarrow> placed \<Rightarrow> bool" where
  "apart = (\<lambda>(f, r, n) (f', r', n'). disjoint r n r' n' \<and> disjoint f n r' n' \<and> disjoint f' n' r n)"

text \<open>A section is stored apart from where it runs, or runs where it is stored.\<close>

definition well_stored :: "placed \<Rightarrow> bool" where
  "well_stored = (\<lambda>(f, r, n). n \<le> 2 ^ 31 \<and> 4 dvd n \<and> (r = f \<or> disjoint f n r n))"

fun well_placed :: "placed list \<Rightarrow> bool" where
  "well_placed [] = True"
| "well_placed (p # ps) = (well_stored p \<and> (\<forall>q \<in> set ps. apart p q) \<and> well_placed ps)"

definition load_one :: "placed \<Rightarrow> (u32 \<Rightarrow> u8) \<Rightarrow> u32 \<Rightarrow> u8" where
  "load_one = (\<lambda>(f, r, n) m. if r = f then m else write_bytes m r (read_bytes m f n))"

definition in_place :: "(u32 \<Rightarrow> u8) \<Rightarrow> (u32 \<Rightarrow> u8) \<Rightarrow> placed \<Rightarrow> bool" where
  "in_place m m' = (\<lambda>(f, r, n). read_bytes m' r n = read_bytes m f n)"

lemma disjoint_sym: "disjoint a n b k \<longleftrightarrow> disjoint b k a n"
  unfolding disjoint_def by metis

lemma load_others:
  "(\<forall>(f, r, k) \<in> set ps. disjoint a n r k) \<Longrightarrow> read_bytes (fold load_one ps m) a n = read_bytes m a n"
proof (induction ps arbitrary: m)
  case (Cons p ps)
  obtain f r k where p: "p = (f, r, k)" by (cases p)
  have "read_bytes (load_one p m) a n = read_bytes m a n"
    using Cons.prems by (simp add: p load_one_def read_other)
  then show ?case using Cons by simp
qed simp

lemma load_all_in_place: "well_placed ps \<Longrightarrow> \<forall>p \<in> set ps. in_place m (fold load_one ps m) p"
proof (induction ps arbitrary: m)
  case (Cons p ps)
  obtain f r n where p: "p = (f, r, n)" by (cases p)
  have one: "read_bytes (load_one p m) r n = read_bytes m f n"
    using Cons.prems read_write_bytes [of "read_bytes m f n" m r] by (auto simp: p load_one_def well_stored_def)
  have "\<forall>(f', r', n') \<in> set ps. disjoint r n r' n'"
    using Cons.prems by (auto simp: p apart_def)
  from load_others [OF this, of "load_one p m"] have "in_place m (fold load_one (p # ps) m) p"
    by (simp add: in_place_def p one [unfolded p])
  moreover have "in_place m (fold load_one (p # ps) m) q" if q: "q \<in> set ps" for q
  proof -
    obtain f' r' n' where q': "q = (f', r', n')" by (cases q)
    have "apart p q" using Cons.prems q by simp
    then have "read_bytes (load_one p m) f' n' = read_bytes m f' n'"
      by (simp add: p q' apart_def load_one_def read_other)
    moreover have "in_place (load_one p m) (fold load_one ps (load_one p m)) q"
      using Cons q by simp
    ultimately show ?thesis by (simp add: in_place_def q')
  qed
  ultimately show ?case by simp
qed simp

text \<open>One call of the code loads one section.\<close>

lemma load_section_one:
  fixes s :: "('h, 'x) hal_scheme"
  assumes "well_stored (f, r, n)" "e = r + of_nat n"
  shows "alt_load_section f r e s = Some ((), s\<lparr>bytes := load_one (f, r, n) (bytes s)\<rparr>)"
proof -
  obtain k where k: "n = 4 * k" using assms(1) by (auto simp: well_stored_def)
  show ?thesis
    using assms section_loop_copies [of k f r e s] unfolding k
    by (auto simp: alt_load_section_def load_one_def well_stored_def)
qed

definition sections :: "linker_map \<Rightarrow> nat \<Rightarrow> nat \<Rightarrow> nat \<Rightarrow> placed list" where
  "sections lm d e r = [(flash_rwdata_start lm, ram_rwdata_start lm, d),
     (flash_exceptions_start lm, ram_exceptions_start lm, e), (flash_rodata_start lm, ram_rodata_start lm, r)]"

text \<open>
  C31. Loading a program that starts in flash.  When the three sections have a length that is a
  multiple of four bytes, each is stored apart from where it runs (or exactly there), and no section runs
  where another is stored or runs, \<open>alt_load\<close> returns with the bytes of every section, as they were in flash,
  at its run address; memory apart from the run addresses is unchanged, and nothing else but the state
  of the hardware, which the cache flushes change.\<close>

theorem alt_load_places_sections:
  fixes s :: "('h, 'x) hal_scheme"
  assumes "well_placed (sections lm d e r)"
    and "ram_rwdata_end lm = ram_rwdata_start lm + of_nat d"
    and "ram_exceptions_end lm = ram_exceptions_start lm + of_nat e"
    and "ram_rodata_end lm = ram_rodata_start lm + of_nat r"
  shows "\<exists>m h. alt_load P C lm s = Some ((), s\<lparr>bytes := m, hw := h\<rparr>) \<and>
    (\<forall>p \<in> set (sections lm d e r). in_place (bytes s) m p) \<and>
    (\<forall>a n. (\<forall>(_, ram, len) \<in> set (sections lm d e r). disjoint a n ram len) \<longrightarrow> read_bytes m a n = read_bytes (bytes s) a n)"
proof -
  define m where "m = fold load_one (sections lm d e r) (bytes s)"
  have w: "well_stored (flash_rwdata_start lm, ram_rwdata_start lm, d)"
    "well_stored (flash_exceptions_start lm, ram_exceptions_start lm, e)"
    "well_stored (flash_rodata_start lm, ram_rodata_start lm, r)"
    using assms(1) by (simp_all add: sections_def)
  obtain h where fl: "alt_dcache_flush_all P (s\<lparr>bytes := m\<rparr>) = Some ((), s\<lparr>bytes := m, hw := h\<rparr>)"
    using flush_lines_returns [of P 0 "s\<lparr>bytes := m\<rparr>"] by (auto simp: alt_dcache_flush_all_def)
  have "\<exists>h'. alt_icache_flush_all C (s\<lparr>bytes := m, hw := h\<rparr>) = Some ((), s\<lparr>bytes := m, hw := h'\<rparr>)"
    by (intro exI [of _ "op_flushp C (fold (op_flushi C) (flush_points 0 4096) h)"])
      (simp add: alt_icache_flush_all_def alt_icache_flush_def flush_range_eq)
  then obtain h' where il: "alt_icache_flush_all C (s\<lparr>bytes := m, hw := h\<rparr>) = Some ((), s\<lparr>bytes := m, hw := h'\<rparr>)" ..
  have "alt_load P C lm s = Some ((), s\<lparr>bytes := m, hw := h'\<rparr>)"
    using fl il by (simp add: alt_load_def load_section_one [OF w(1) assms(2)] load_section_one [OF w(2) assms(3)]
        load_section_one [OF w(3) assms(4)] m_def sections_def)
  then show ?thesis
    using load_all_in_place [OF assms(1), of "bytes s"] load_others [of "sections lm d e r" _ _ "bytes s"]
    unfolding m_def by blast
qed

definition demo_map :: linker_map where
  "demo_map = \<lparr>flash_rwdata_start = 0x100, ram_rwdata_start = 0x1000, ram_rwdata_end = 0x1008,
     flash_exceptions_start = 0x108, ram_exceptions_start = 0x20, ram_exceptions_end = 0x24,
     flash_rodata_start = 0x200, ram_rodata_start = 0x200, ram_rodata_end = 0x300\<rparr>"

lemma disjoint_range:
  assumes "unat a + n \<le> unat b \<or> unat b + m \<le> unat a" "unat a + n \<le> 2 ^ 32" "unat b + m \<le> 2 ^ 32"
  shows "disjoint a n b m"
proof -
  have u: "unat (c + of_nat i) = unat c + i" if "i < k" "unat c + k \<le> 2 ^ 32" for c :: u32 and i k
    using that by (subst unat_add_lem [THEN iffD1]) (simp_all add: unat_of_nat_32)
  have "a + of_nat i \<noteq> b + of_nat j" if ij: "i < n" "j < m" for i j
  proof
    assume "a + of_nat i = b + of_nat j"
    then have "unat a + i = unat b + j" using u [OF ij(1) assms(2)] u [OF ij(2) assms(3)] by simp
    with ij assms(1) show False by linarith
  qed
  then show ?thesis by (simp add: disjoint_def)
qed

theorem alt_load_places_sections_witness:
  "\<forall>(P :: (unit, unit hal) platform) C (s :: unit hal). \<exists>m h. alt_load P C demo_map s = Some ((), s\<lparr>bytes := m, hw := h\<rparr>) \<and>
     read_bytes m 0x1000 8 = read_bytes (bytes s) 0x100 8 \<and> read_bytes m 0x20 4 = read_bytes (bytes s) 0x108 4 \<and>
     read_bytes m 0x100 8 = read_bytes (bytes s) 0x100 8"
proof (intro allI)
  fix P :: "(unit, unit hal) platform" and C and s :: "unit hal"
  have w: "well_placed (sections demo_map 8 4 0x100)"
    by (auto simp: sections_def demo_map_def well_stored_def apart_def intro!: disjoint_range)
  have d: "\<forall>(_, ram, len) \<in> set (sections demo_map 8 4 0x100). disjoint 0x100 8 ram len"
    by (auto simp: sections_def demo_map_def intro!: disjoint_range)
  have e: "ram_rwdata_end demo_map = ram_rwdata_start demo_map + of_nat 8"
    "ram_exceptions_end demo_map = ram_exceptions_start demo_map + of_nat 4"
    "ram_rodata_end demo_map = ram_rodata_start demo_map + of_nat 0x100"
    by (simp_all add: demo_map_def)
  obtain m h where run: "alt_load P C demo_map s = Some ((), s\<lparr>bytes := m, hw := h\<rparr>)"
    and p: "\<forall>p \<in> set (sections demo_map 8 4 0x100). in_place (bytes s) m p"
    and o: "\<forall>a n. (\<forall>(_, ram, len) \<in> set (sections demo_map 8 4 0x100). disjoint a n ram len) \<longrightarrow>
       read_bytes m a n = read_bytes (bytes s) a n"
    using alt_load_places_sections [OF w e, of P C s] by blast
  have "read_bytes m 0x100 8 = read_bytes (bytes s) 0x100 8" using o d by blast
  with run p show "\<exists>m h. alt_load P C demo_map s = Some ((), s\<lparr>bytes := m, hw := h\<rparr>) \<and>
     read_bytes m 0x1000 8 = read_bytes (bytes s) 0x100 8 \<and> read_bytes m 0x20 4 = read_bytes (bytes s) 0x108 4 \<and>
     read_bytes m 0x100 8 = read_bytes (bytes s) 0x100 8"
    by (auto simp: sections_def demo_map_def in_place_def)
qed

end
