(* ===== verification/HAL_Timestamp.thy ===== *)
theory HAL_Timestamp
  imports HAL_Time
begin

text \<open>
  The timestamp driver (\<open>drivers/src/altera_avalon_timer_ts.c\<close>, \<open>altera_avalon_timer_vars.c\<close>) and
  the initialisation macro that chooses between it and the system clock
  (\<open>drivers/inc/altera_avalon_timer.h\<close>).  The configuration of this repository names no timestamp
  clock; the driver is compiled as soon as one is named, with a counter of 32 or 64 bits, which
  also fixes the type \<open>alt_timestamp_type\<close>: hence two definitions of \<open>alt_timestamp\<close>.
\<close>

record 'h ts_st = "'h time_st" +
  altera_avalon_timer_ts_base :: u32
  altera_avalon_timer_ts_freq :: u32

section \<open>Initialisation\<close>

text \<open>What \<open>system.h\<close> says of one timer; an unconnected interrupt is -1.\<close>

record timer_config =
  tc_BASE :: u32
  tc_FREQ :: u32
  tc_PERIOD :: u32
  tc_PERIOD_UNITS :: timer_units
  tc_IRQ :: u32
  tc_IRQ_INTERRUPT_CONTROLLER_ID :: u32
  tc_SNAPSHOT :: bool

abbreviation (input) ALT_IRQ_NOT_CONNECTED :: u32 where "ALT_IRQ_NOT_CONNECTED \<equiv> -1"

text \<open>The two uses of \<open>ALT_LINK_ERROR\<close>: a program that contains one is not linked.\<close>

datatype link_error = Irq_not_connected | Snapshot_not_available

definition ALTERA_AVALON_TIMER_INIT :: "'h bus \<Rightarrow> u32 \<Rightarrow> u32 \<Rightarrow> u32 \<Rightarrow> timer_config
    \<Rightarrow> (link_error option, ('h, 'x) ts_st_scheme) prog" where
  "ALTERA_AVALON_TIMER_INIT B isr sys_clk_base timestamp_clk_base t s =
     (if tc_BASE t = sys_clk_base then
        if tc_IRQ t = ALT_IRQ_NOT_CONNECTED then Some (Some Irq_not_connected, s)
        else do {
          (_, s) \<leftarrow> alt_avalon_timer_sc_init B isr (tc_BASE t) (tc_IRQ_INTERRUPT_CONTROLLER_ID t) (tc_IRQ t)
            (ALTERA_AVALON_TIMER_FREQ (tc_FREQ t) (tc_PERIOD t) (tc_PERIOD_UNITS t)) s;
          Some (None, s)
        }
      else if tc_BASE t = timestamp_clk_base then
        if tc_SNAPSHOT t then
          Some (None, s\<lparr>altera_avalon_timer_ts_base := tc_BASE t, altera_avalon_timer_ts_freq := tc_FREQ t\<rparr>)
        else Some (Some Snapshot_not_available, s)
      else Some (None, s))"

section \<open>The driver\<close>

text \<open>CONTROL is register 1 with STOP 8 and START 4; the period starts at register 2 in both sizes.\<close>

definition alt_timestamp_start :: "'h bus \<Rightarrow> nat \<Rightarrow> (int, ('h, 'x) ts_st_scheme) prog" where
  "alt_timestamp_start B counter_size s =
     (let base = altera_avalon_timer_ts_base s in
      if altera_avalon_timer_ts_freq s = 0 then Some (-1, s)
      else if counter_size = 64 then do {
        (_, s) \<leftarrow> IOWR B base 1 8 s;
        (_, s) \<leftarrow> IOWR B base 2 0xFFFF s;
        (_, s) \<leftarrow> IOWR B base 3 0xFFFF s;
        (_, s) \<leftarrow> IOWR B base 4 0xFFFF s;
        (_, s) \<leftarrow> IOWR B base 5 0xFFFF s;
        (_, s) \<leftarrow> IOWR B base 1 4 s;
        Some (0, s)
      } else do {
        (_, s) \<leftarrow> IOWR B base 1 8 s;
        (_, s) \<leftarrow> IOWR B base 2 0xFFFF s;
        (_, s) \<leftarrow> IOWR B base 3 0xFFFF s;
        (_, s) \<leftarrow> IOWR B base 1 4 s;
        Some (0, s)
      })"

text \<open>SNAP_0 to SNAP_3 are the registers 6 to 9, SNAPL and SNAPH the registers 4 and 5.\<close>

definition alt_timestamp_64 :: "'h bus \<Rightarrow> (u64, ('h, 'x) ts_st_scheme) prog" where
  "alt_timestamp_64 B s =
     (let base = altera_avalon_timer_ts_base s in
      if altera_avalon_timer_ts_freq s = 0 then Some (0xFFFFFFFFFFFFFFFF, s)
      else do {
        (_, s) \<leftarrow> IOWR B base 6 0 s;
        (v, s) \<leftarrow> IORD B base 6 s; let snap_0 = (ucast (v AND 0xFFFF) :: u64);
        (v, s) \<leftarrow> IORD B base 7 s; let snap_1 = (ucast (v AND 0xFFFF) :: u64);
        (v, s) \<leftarrow> IORD B base 8 s; let snap_2 = (ucast (v AND 0xFFFF) :: u64);
        (v, s) \<leftarrow> IORD B base 9 s; let snap_3 = (ucast (v AND 0xFFFF) :: u64);
        Some (0xFFFFFFFFFFFFFFFF - (push_bit 48 snap_3 OR push_bit 32 snap_2 OR push_bit 16 snap_1 OR snap_0), s)
      })"

definition alt_timestamp_32 :: "'h bus \<Rightarrow> (u32, ('h, 'x) ts_st_scheme) prog" where
  "alt_timestamp_32 B s =
     (let base = altera_avalon_timer_ts_base s in
      if altera_avalon_timer_ts_freq s = 0 then Some (0xFFFFFFFF, s)
      else do {
        (_, s) \<leftarrow> IOWR B base 4 0 s;
        (v, s) \<leftarrow> IORD B base 4 s; let lower = v AND 0xFFFF;
        (v, s) \<leftarrow> IORD B base 5 s; let upper = v AND 0xFFFF;
        Some (0xFFFFFFFF - (push_bit 16 upper OR lower), s)
      })"

definition alt_timestamp_freq :: "('h, 'x) ts_st_scheme \<Rightarrow> u32" where
  "alt_timestamp_freq s = altera_avalon_timer_ts_freq s"

end
