(* ===== verification/HAL_Timestamp_Claims.thy ===== *)
theory HAL_Timestamp_Claims
  imports HAL_Timestamp
begin

text \<open>
  A timestamp is the number of clock cycles since \<open>alt_timestamp_start\<close>, for both counter sizes,
  until the counter has run its full period; after that it is 0.
\<close>

section \<open>The timer in one-shot mode\<close>

text \<open>
  What the programmer sees: the halfwords of the period, whether the counter was started since it
  was last stopped, the cycles since then, and the last snapshot.
\<close>

record ts_regs =
  tr_period :: "nat \<Rightarrow> nat"
  tr_started :: bool
  tr_cyc :: nat
  tr_latch :: nat

definition period_value :: "nat \<Rightarrow> ts_regs \<Rightarrow> nat" where
  "period_value n r = (\<Sum>k<n. tr_period r k * 2 ^ (16 * k))"

definition halfword :: "nat \<Rightarrow> nat \<Rightarrow> nat" where
  "halfword k n = take_bit 16 (drop_bit (16 * k) n)"

text \<open>\<open>r'\<close> is \<open>r\<close> some cycles later.\<close>

definition later :: "ts_regs \<Rightarrow> ts_regs \<Rightarrow> bool" where
  "later r r' \<longleftrightarrow> (\<exists>c \<ge> tr_cyc r. r' = r\<lparr>tr_cyc := c\<rparr>)"

text \<open>
  The documented behaviour of a timer with \<open>n\<close> halfwords at \<open>base\<close>.  STOP stops the counter; a
  write to a halfword of the period of a stopped timer sets it; START starts the count; a write to
  the first snapshot register copies the counter, which runs from the period down to zero and then
  stays at the period; the snapshot registers hold its halfwords in their low 16 bits.
\<close>

definition ts_timer :: "'h bus \<Rightarrow> u32 \<Rightarrow> nat \<Rightarrow> ('h \<Rightarrow> ts_regs) \<Rightarrow> bool" where
  "ts_timer B base n V \<longleftrightarrow>
     (\<forall>h. \<not> tr_started (V (bus_wr B (base + 4) 8 h))) \<and>
     (\<forall>h. \<not> tr_started (V h) \<longrightarrow> (\<forall>k < n. \<forall>d. V (bus_wr B (base + of_nat (4 * (2 + k))) d h) =
        (V h)\<lparr>tr_period := (tr_period (V h))(k := unat d mod 65536)\<rparr>)) \<and>
     (\<forall>h. \<exists>c. V (bus_wr B (base + 4) 4 h) = (V h)\<lparr>tr_started := True, tr_cyc := c\<rparr>) \<and>
     (\<forall>h. tr_started (V h) \<longrightarrow> (\<exists>c c'. tr_cyc (V h) \<le> c \<and> c \<le> c' \<and>
        V (bus_wr B (base + of_nat (4 * (2 + n))) 0 h) = (V h)\<lparr>tr_cyc := c',
          tr_latch := (let p = period_value n (V h) in if c \<le> p then p - c else p)\<rparr>)) \<and>
     (\<forall>h. \<forall>k < n. unat (fst (bus_rd B (base + of_nat (4 * (2 + n + k))) h)) mod 65536 = halfword k (tr_latch (V h))) \<and>
     (\<forall>h. \<forall>k < n. later (V h) (V (snd (bus_rd B (base + of_nat (4 * (2 + n + k))) h))))"

section \<open>Words from halfwords\<close>

lemma halfword_word:
  assumes "unat (v :: u32) mod 65536 = n"
  shows "v AND 0xFFFF = of_nat n"
proof -
  have "v AND 0xFFFF = take_bit 16 v" by (simp add: take_bit_eq_mask mask_eq_exp_minus_1)
  also have "\<dots> = of_nat (unat (take_bit 16 v))" by simp
  also have "unat (take_bit 16 v) = n" using assms by (simp add: unsigned_take_bit_eq take_bit_eq_mod unat_mod_distrib)
  finally show ?thesis .
qed

lemma join_32: "push_bit 16 (of_nat (halfword 1 n)) OR of_nat (halfword 0 n) = (of_nat n :: u32)"
  by (rule bit_eqI) (auto simp: halfword_def bit_simps)

lemma join_64: "push_bit 48 (ucast (of_nat (halfword 3 n) :: u32)) OR push_bit 32 (ucast (of_nat (halfword 2 n) :: u32)) OR
    push_bit 16 (ucast (of_nat (halfword 1 n) :: u32)) OR ucast (of_nat (halfword 0 n) :: u32) = (of_nat n :: u64)"
proof (rule bit_eqI)
  fix i assume "possible_bit TYPE(u64) i"
  then have "i < 64" by simp
  then consider "i < 16" | "16 \<le> i" "i < 32" | "32 \<le> i" "i < 48" | "48 \<le> i" "i < 64" by fastforce
  then show "bit (push_bit 48 (ucast (of_nat (halfword 3 n) :: u32)) OR push_bit 32 (ucast (of_nat (halfword 2 n) :: u32)) OR
      push_bit 16 (ucast (of_nat (halfword 1 n) :: u32)) OR ucast (of_nat (halfword 0 n) :: u32) :: u64) i = bit (of_nat n :: u64) i"
    by cases (auto simp: halfword_def bit_simps)
qed

text \<open>The counter runs down: its distance from the full scale is the time.\<close>

lemma full_scale_minus:
  assumes "c < 2 ^ LENGTH('w)"
  shows "(- 1 :: 'w :: len word) - of_nat (2 ^ LENGTH('w) - 1 - c) = of_nat c"
proof -
  have "of_nat (2 ^ LENGTH('w) - 1 - c) + of_nat c = (of_nat (2 ^ LENGTH('w) - 1) :: 'w word)"
    using assms by (simp flip: of_nat_add)
  also have "\<dots> = - 1" by (simp add: of_nat_diff)
  finally show ?thesis by (metis add_diff_cancel_left')
qed

section \<open>Starting and reading\<close>

lemma period_value_2: "period_value 2 r = tr_period r 0 + tr_period r 1 * 2 ^ 16"
  by (simp add: period_value_def numeral_2_eq_2)

lemma period_value_4:
  "period_value 4 r = tr_period r 0 + tr_period r 1 * 2 ^ 16 + tr_period r 2 * 2 ^ 32 + tr_period r 3 * 2 ^ 48"
proof -
  have "{..<4 :: nat} = {0, 1, 2, 3}" by auto
  then show ?thesis by (simp add: period_value_def)
qed

lemma ts_timerD:
  assumes "ts_timer B base n V"
  shows "\<not> tr_started (V (bus_wr B (base + 4) 8 h))"
    and "\<not> tr_started (V h) \<Longrightarrow> k < n \<Longrightarrow>
      V (bus_wr B (base + of_nat (4 * (2 + k))) d h) = (V h)\<lparr>tr_period := (tr_period (V h))(k := unat d mod 65536)\<rparr>"
    and "\<exists>c. V (bus_wr B (base + 4) 4 h) = (V h)\<lparr>tr_started := True, tr_cyc := c\<rparr>"
    and "tr_started (V h) \<Longrightarrow> \<exists>c c'. tr_cyc (V h) \<le> c \<and> c \<le> c' \<and>
        V (bus_wr B (base + of_nat (4 * (2 + n))) 0 h) = (V h)\<lparr>tr_cyc := c',
          tr_latch := (let p = period_value n (V h) in if c \<le> p then p - c else p)\<rparr>"
    and "k < n \<Longrightarrow> unat (fst (bus_rd B (base + of_nat (4 * (2 + n + k))) h)) mod 65536 = halfword k (tr_latch (V h))"
    and "k < n \<Longrightarrow> later (V h) (V (snd (bus_rd B (base + of_nat (4 * (2 + n + k))) h)))"
  using assms unfolding ts_timer_def by blast+

text \<open>A running timer at full scale, seen by the driver.\<close>

definition ts_running :: "('h \<Rightarrow> ts_regs) \<Rightarrow> nat \<Rightarrow> u32 \<Rightarrow> ('h, 'x) ts_st_scheme \<Rightarrow> bool" where
  "ts_running V n base s \<longleftrightarrow> altera_avalon_timer_ts_base s = base \<and> altera_avalon_timer_ts_freq s \<noteq> 0 \<and>
     tr_started (V (hw s)) \<and> period_value n (V (hw s)) = 2 ^ (16 * n) - 1"

text \<open>A reading lies between the cycle counts before and after it, and is 0 after the full period.\<close>

definition reads_elapsed :: "('h \<Rightarrow> ts_regs) \<Rightarrow> nat \<Rightarrow> u32 \<Rightarrow> ('w :: len word, ('h, 'x) ts_st_scheme) prog \<Rightarrow> bool" where
  "reads_elapsed V n base ts \<longleftrightarrow> (\<forall>s. ts_running V n base s \<longrightarrow>
     wp (ts s) (\<lambda>t s'. ts_running V n base s' \<and> tr_cyc (V (hw s)) \<le> tr_cyc (V (hw s')) \<and>
       (tr_cyc (V (hw s')) < 2 ^ (16 * n) \<longrightarrow> tr_cyc (V (hw s)) \<le> unat t \<and> unat t \<le> tr_cyc (V (hw s'))) \<and>
       (2 ^ (16 * n) \<le> tr_cyc (V (hw s)) \<longrightarrow> t = 0)))"

lemma start_32:
  fixes s :: "('h, 'x) ts_st_scheme"
  assumes t: "ts_timer B base 2 V" and s: "altera_avalon_timer_ts_base s = base" "altera_avalon_timer_ts_freq s \<noteq> 0"
  shows "wp (alt_timestamp_start B 32 s) (\<lambda>r s'. r = 0 \<and> ts_running V 2 base s')"
proof -
  define h1 where "h1 = bus_wr B (base + 4) 8 (hw s)"
  define h2 where "h2 = bus_wr B (base + 8) 0xFFFF h1"
  define h3 where "h3 = bus_wr B (base + 12) 0xFFFF h2"
  have 1: "\<not> tr_started (V h1)" unfolding h1_def by (rule ts_timerD(1) [OF t])
  have 2: "V h2 = (V h1)\<lparr>tr_period := (tr_period (V h1))(0 := 65535)\<rparr>"
    using ts_timerD(2) [OF t 1, of 0 "0xFFFF"] by (simp add: h2_def)
  have 3: "V h3 = (V h2)\<lparr>tr_period := (tr_period (V h2))(1 := 65535)\<rparr>"
    using ts_timerD(2) [OF t, of h2 1 "0xFFFF"] 1 by (simp add: h3_def 2)
  obtain c where 4: "V (bus_wr B (base + 4) 4 h3) = (V h3)\<lparr>tr_started := True, tr_cyc := c\<rparr>"
    using ts_timerD(3) [OF t] by blast
  show ?thesis
    using s by (simp add: alt_timestamp_start_def h1_def [symmetric] h2_def [symmetric] h3_def [symmetric]
        ts_running_def 4 3 2 period_value_2)
qed

lemma start_64:
  fixes s :: "('h, 'x) ts_st_scheme"
  assumes t: "ts_timer B base 4 V" and s: "altera_avalon_timer_ts_base s = base" "altera_avalon_timer_ts_freq s \<noteq> 0"
  shows "wp (alt_timestamp_start B 64 s) (\<lambda>r s'. r = 0 \<and> ts_running V 4 base s')"
proof -
  define h1 where "h1 = bus_wr B (base + 4) 8 (hw s)"
  define h2 where "h2 = bus_wr B (base + 8) 0xFFFF h1"
  define h3 where "h3 = bus_wr B (base + 12) 0xFFFF h2"
  define h4 where "h4 = bus_wr B (base + 16) 0xFFFF h3"
  define h5 where "h5 = bus_wr B (base + 20) 0xFFFF h4"
  have 1: "\<not> tr_started (V h1)" unfolding h1_def by (rule ts_timerD(1) [OF t])
  note P = ts_timerD(2) [OF t, where d = "0xFFFF"]
  have 2: "V h2 = (V h1)\<lparr>tr_period := (tr_period (V h1))(0 := 65535)\<rparr>"
    using P [OF 1, of 0] by (simp add: h2_def)
  have 3: "V h3 = (V h2)\<lparr>tr_period := (tr_period (V h2))(1 := 65535)\<rparr>"
    using P [of h2 1] 1 by (simp add: h3_def 2)
  have 4: "V h4 = (V h3)\<lparr>tr_period := (tr_period (V h3))(2 := 65535)\<rparr>"
    using P [of h3 2] 1 by (simp add: h4_def 3 2)
  have 5: "V h5 = (V h4)\<lparr>tr_period := (tr_period (V h4))(3 := 65535)\<rparr>"
    using P [of h4 3] 1 by (simp add: h5_def 4 3 2)
  obtain c where 6: "V (bus_wr B (base + 4) 4 h5) = (V h5)\<lparr>tr_started := True, tr_cyc := c\<rparr>"
    using ts_timerD(3) [OF t] by blast
  show ?thesis
    using s by (simp add: alt_timestamp_start_def h1_def [symmetric] h2_def [symmetric] h3_def [symmetric]
        h4_def [symmetric] h5_def [symmetric] ts_running_def 6 5 4 3 2 period_value_4)
qed

text \<open>What a snapshot gives.\<close>

lemma snapshot:
  assumes t: "ts_timer B base n V" and s: "tr_started (V h)" "period_value n (V h) = 2 ^ (16 * n) - 1"
  obtains c c' where "tr_cyc (V h) \<le> c" "c \<le> c'"
    "V (bus_wr B (base + of_nat (4 * (2 + n))) 0 h) =
       (V h)\<lparr>tr_cyc := c', tr_latch := 2 ^ (16 * n) - 1 - (if c < 2 ^ (16 * n) then c else 0)\<rparr>"
proof -
  obtain c c' where c: "tr_cyc (V h) \<le> c" "c \<le> c'"
    and v: "V (bus_wr B (base + of_nat (4 * (2 + n))) 0 h) = (V h)\<lparr>tr_cyc := c',
       tr_latch := (let p = period_value n (V h) in if c \<le> p then p - c else p)\<rparr>"
    using ts_timerD(4) [OF t s(1)] by blast
  have "0 < (2 :: nat) ^ (16 * n)" by simp
  then have "c \<le> 2 ^ (16 * n) - 1 \<longleftrightarrow> c < 2 ^ (16 * n)" by linarith
  then have "(let p = period_value n (V h) in if c \<le> p then p - c else p) =
      2 ^ (16 * n) - 1 - (if c < 2 ^ (16 * n) then c else 0)"
    unfolding s(2) Let_def by (simp only: if_split diff_zero) simp
  with c v that show thesis by simp
qed

text \<open>A halfword of the snapshot is read.\<close>

lemma read_halfword:
  assumes t: "ts_timer B base n V" and k: "k < n" and a: "a = base + of_nat (4 * (2 + n + k))"
  shows "fst (bus_rd B a h) AND 0xFFFF = of_nat (halfword k (tr_latch (V h)))"
    "\<exists>c \<ge> tr_cyc (V h). V (snd (bus_rd B a h)) = (V h)\<lparr>tr_cyc := c\<rparr>"
  using ts_timerD(5) [OF t k, of h, THEN halfword_word] ts_timerD(6) [OF t k, of h]
  unfolding a by (simp_all only: later_def)

text \<open>The reading is made from the snapshot.\<close>

lemma time_of_snapshot:
  fixes t :: "'w :: len word"
  assumes t: "t = - 1 - of_nat (2 ^ LENGTH('w) - 1 - (if c < 2 ^ LENGTH('w) then c else 0))" and c: "a \<le> c" "c \<le> b"
  shows "(b < 2 ^ LENGTH('w) \<longrightarrow> a \<le> unat t \<and> unat t \<le> b) \<and> (2 ^ LENGTH('w) \<le> a \<longrightarrow> t = 0)"
proof -
  have "t = of_nat (if c < 2 ^ LENGTH('w) then c else 0)"
    unfolding t by (rule full_scale_minus) simp
  moreover have "unat (of_nat c :: 'w word) = c" if "c < 2 ^ LENGTH('w)"
    using that by (simp add: unsigned_of_nat take_bit_nat_eq_self)
  ultimately show ?thesis using c by auto
qed

lemma read_32:
  assumes t: "ts_timer B base 2 V"
  shows "reads_elapsed V 2 base (alt_timestamp_32 B :: (u32, ('h, 'x) ts_st_scheme) prog)"
  unfolding reads_elapsed_def
proof (intro allI impI)
  fix s :: "('h, 'x) ts_st_scheme"
  assume r: "ts_running V 2 base s"
  then have b: "altera_avalon_timer_ts_base s = base" "altera_avalon_timer_ts_freq s \<noteq> 0"
    and g: "tr_started (V (hw s))" "period_value 2 (V (hw s)) = 2 ^ (16 * 2) - 1" by (simp_all add: ts_running_def)
  define h1 where "h1 = bus_wr B (base + 16) 0 (hw s)"
  define h2 where "h2 = snd (bus_rd B (base + 16) h1)"
  define h3 where "h3 = snd (bus_rd B (base + 20) h2)"
  obtain c c1 where c: "tr_cyc (V (hw s)) \<le> c" "c \<le> c1"
    and 1: "V h1 = (V (hw s))\<lparr>tr_cyc := c1, tr_latch := 2 ^ (16 * 2) - 1 - (if c < 2 ^ (16 * 2) then c else 0)\<rparr>"
    by (rule snapshot [OF t g]) (simp add: h1_def)
  define l where "l = tr_latch (V h1)"
  obtain c2 where 2: "c1 \<le> c2" "V h2 = (V h1)\<lparr>tr_cyc := c2\<rparr>"
    using read_halfword(2) [OF t, of 0 "base + 16" h1] by (auto simp: h2_def 1)
  obtain c3 where 3: "c2 \<le> c3" "V h3 = (V h2)\<lparr>tr_cyc := c3\<rparr>"
    using read_halfword(2) [OF t, of 1 "base + 20" h2] by (auto simp: h3_def 2)
  have v: "fst (bus_rd B (base + 16) h1) AND 0xFFFF = of_nat (halfword 0 l)"
      "fst (bus_rd B (base + 20) h2) AND 0xFFFF = of_nat (halfword 1 l)"
    using read_halfword(1) [OF t, of 0 "base + 16" h1]
      read_halfword(1) [OF t, of 1 "base + 20" h2]
    by (simp_all add: l_def 2 3)
  note time = time_of_snapshot [OF refl, where 'w = 32 and c = c and a = "tr_cyc (V (hw s))" and b = c3]
  have l: "(0xFFFFFFFF :: u32) - of_nat l = - 1 - of_nat (2 ^ LENGTH(32) - 1 - (if c < 2 ^ LENGTH(32) then c else 0))"
    by (simp add: l_def 1)
  define tr where "tr = trace s @ [Wr (base + 16) 0, Rd (base + 16) (fst (bus_rd B (base + 16) h1)), Rd (base + 20) (fst (bus_rd B (base + 20) h2))]"
  have run: "alt_timestamp_32 B s = Some (0xFFFFFFFF - of_nat l, s\<lparr>hw := h3, trace := tr\<rparr>)"
    by (simp add: alt_timestamp_32_def Let_def b v tr_def h1_def [symmetric] h2_def [symmetric] h3_def [symmetric]
        join_32 [unfolded One_nat_def] del: push_bit_and)
  have "ts_running V 2 base (s\<lparr>hw := h3, trace := tr\<rparr>)" "tr_cyc (V h3) = c3"
    using r by (simp_all add: ts_running_def period_value_def 1 2 3)
  then show "wp (alt_timestamp_32 B s) (\<lambda>t s'. ts_running V 2 base s' \<and> tr_cyc (V (hw s)) \<le> tr_cyc (V (hw s')) \<and>
       (tr_cyc (V (hw s')) < 2 ^ (16 * 2) \<longrightarrow> tr_cyc (V (hw s)) \<le> unat t \<and> unat t \<le> tr_cyc (V (hw s'))) \<and>
       (2 ^ (16 * 2) \<le> tr_cyc (V (hw s)) \<longrightarrow> t = 0))"
    using c 2(1) 3(1) time unfolding run wp_Some l by simp
qed

lemma read_64:
  assumes t: "ts_timer B base 4 V"
  shows "reads_elapsed V 4 base (alt_timestamp_64 B :: (u64, ('h, 'x) ts_st_scheme) prog)"
  unfolding reads_elapsed_def
proof (intro allI impI)
  fix s :: "('h, 'x) ts_st_scheme"
  assume r: "ts_running V 4 base s"
  then have b: "altera_avalon_timer_ts_base s = base" "altera_avalon_timer_ts_freq s \<noteq> 0"
    and g: "tr_started (V (hw s))" "period_value 4 (V (hw s)) = 2 ^ (16 * 4) - 1" by (simp_all add: ts_running_def)
  define h1 where "h1 = bus_wr B (base + 24) 0 (hw s)"
  define h2 where "h2 = snd (bus_rd B (base + 24) h1)"
  define h3 where "h3 = snd (bus_rd B (base + 28) h2)"
  define h4 where "h4 = snd (bus_rd B (base + 32) h3)"
  define h5 where "h5 = snd (bus_rd B (base + 36) h4)"
  obtain c c1 where c: "tr_cyc (V (hw s)) \<le> c" "c \<le> c1"
    and 1: "V h1 = (V (hw s))\<lparr>tr_cyc := c1, tr_latch := 2 ^ (16 * 4) - 1 - (if c < 2 ^ (16 * 4) then c else 0)\<rparr>"
    by (rule snapshot [OF t g]) (simp add: h1_def)
  define l where "l = tr_latch (V h1)"
  obtain c2 where 2: "c1 \<le> c2" "V h2 = (V h1)\<lparr>tr_cyc := c2\<rparr>"
    using read_halfword(2) [OF t, of 0 "base + 24" h1] by (auto simp: h2_def 1)
  obtain c3 where 3: "c2 \<le> c3" "V h3 = (V h2)\<lparr>tr_cyc := c3\<rparr>"
    using read_halfword(2) [OF t, of 1 "base + 28" h2] by (auto simp: h3_def 2)
  obtain c4 where 4: "c3 \<le> c4" "V h4 = (V h3)\<lparr>tr_cyc := c4\<rparr>"
    using read_halfword(2) [OF t, of 2 "base + 32" h3] by (auto simp: h4_def 3)
  obtain c5 where 5: "c4 \<le> c5" "V h5 = (V h4)\<lparr>tr_cyc := c5\<rparr>"
    using read_halfword(2) [OF t, of 3 "base + 36" h4] by (auto simp: h5_def 4)
  have v: "fst (bus_rd B (base + 24) h1) AND 0xFFFF = of_nat (halfword 0 l)"
      "fst (bus_rd B (base + 28) h2) AND 0xFFFF = of_nat (halfword 1 l)"
      "fst (bus_rd B (base + 32) h3) AND 0xFFFF = of_nat (halfword 2 l)"
      "fst (bus_rd B (base + 36) h4) AND 0xFFFF = of_nat (halfword 3 l)"
    using read_halfword(1) [OF t, of 0 "base + 24" h1]
      read_halfword(1) [OF t, of 1 "base + 28" h2]
      read_halfword(1) [OF t, of 2 "base + 32" h3]
      read_halfword(1) [OF t, of 3 "base + 36" h4]
    by (simp_all add: l_def 2 3 4 5)
  note time = time_of_snapshot [OF refl, where 'w = 64 and c = c and a = "tr_cyc (V (hw s))" and b = c5]
  have l: "(0xFFFFFFFFFFFFFFFF :: u64) - of_nat l = - 1 - of_nat (2 ^ LENGTH(64) - 1 - (if c < 2 ^ LENGTH(64) then c else 0))"
    by (simp add: l_def 1)
  define tr where "tr = trace s @ [Wr (base + 24) 0, Rd (base + 24) (fst (bus_rd B (base + 24) h1)), Rd (base + 28) (fst (bus_rd B (base + 28) h2)), Rd (base + 32) (fst (bus_rd B (base + 32) h3)), Rd (base + 36) (fst (bus_rd B (base + 36) h4))]"
  have run: "alt_timestamp_64 B s = Some (0xFFFFFFFFFFFFFFFF - of_nat l, s\<lparr>hw := h5, trace := tr\<rparr>)"
    by (simp add: alt_timestamp_64_def Let_def b v tr_def h1_def [symmetric] h2_def [symmetric] h3_def [symmetric] h4_def [symmetric] h5_def [symmetric]
        join_64 [unfolded One_nat_def] del: push_bit_and)
  have "ts_running V 4 base (s\<lparr>hw := h5, trace := tr\<rparr>)" "tr_cyc (V h5) = c5"
    using r by (simp_all add: ts_running_def period_value_def 1 2 3 4 5)
  then show "wp (alt_timestamp_64 B s) (\<lambda>t s'. ts_running V 4 base s' \<and> tr_cyc (V (hw s)) \<le> tr_cyc (V (hw s')) \<and>
       (tr_cyc (V (hw s')) < 2 ^ (16 * 4) \<longrightarrow> tr_cyc (V (hw s)) \<le> unat t \<and> unat t \<le> tr_cyc (V (hw s'))) \<and>
       (2 ^ (16 * 4) \<le> tr_cyc (V (hw s)) \<longrightarrow> t = 0))"
    using c 2(1) 3(1) 4(1) 5(1) time unfolding run wp_Some l by simp
qed

section \<open>From initialisation to measurement\<close>

text \<open>
  C29. After the initialisation of a timer that is the timestamp clock, \<open>alt_timestamp_start\<close>
  returns 0 and starts the counter at full scale, and from then on every \<open>alt_timestamp\<close> gives the
  number of clock cycles since the start at some moment of the call, as long as these fit the
  counter (32 or 64 bits); after a full period it gives 0.
\<close>

theorem timestamp_measures:
  fixes s0 s :: "('h, 'x) ts_st_scheme"
  assumes init: "ALTERA_AVALON_TIMER_INIT B isr sys_clk (tc_BASE t) t s0 = Some (None, s)"
    and clk: "tc_BASE t \<noteq> sys_clk" "tc_FREQ t \<noteq> 0"
    and dev: "ts_timer B (tc_BASE t) n V"
    and n: "n = 2 \<or> n = 4"
  shows "wp (alt_timestamp_start B (16 * n) s) (\<lambda>r s'. r = 0 \<and> ts_running V n (tc_BASE t) s') \<and>
    (n = 2 \<longrightarrow> reads_elapsed V n (tc_BASE t) (alt_timestamp_32 B :: (u32, ('h, 'x) ts_st_scheme) prog)) \<and>
    (n = 4 \<longrightarrow> reads_elapsed V n (tc_BASE t) (alt_timestamp_64 B :: (u64, ('h, 'x) ts_st_scheme) prog))"
proof (intro conjI impI)
  have s: "altera_avalon_timer_ts_base s = tc_BASE t" "altera_avalon_timer_ts_freq s \<noteq> 0"
    using init clk by (auto simp: ALTERA_AVALON_TIMER_INIT_def split: if_splits)
  show "wp (alt_timestamp_start B (16 * n) s) (\<lambda>r s'. r = 0 \<and> ts_running V n (tc_BASE t) s')"
    using n start_32 [OF _ s] start_64 [OF _ s] dev by auto
qed (use dev in \<open>simp_all add: read_32 read_64\<close>)

text \<open>A 32-bit timer at 0x20080 that counts one cycle per access.\<close>

definition demo_timer :: "ts_regs bus" where
  "demo_timer = \<lparr>
     bus_rd = (\<lambda>a r. (if a = 0x20090 then of_nat (halfword 0 (tr_latch r))
         else if a = 0x20094 then of_nat (halfword 1 (tr_latch r)) else 0, r\<lparr>tr_cyc := tr_cyc r + 1\<rparr>)),
     bus_wr = (\<lambda>a d r.
         if a = 0x20084 then (if d = 8 then r\<lparr>tr_started := False\<rparr> else if d = 4 then r\<lparr>tr_started := True, tr_cyc := 0\<rparr> else r)
         else if a = 0x20088 then r\<lparr>tr_period := (tr_period r)(0 := unat d mod 65536)\<rparr>
         else if a = 0x2008C then r\<lparr>tr_period := (tr_period r)(1 := unat d mod 65536)\<rparr>
         else if a = 0x20090 then
           (let p = period_value 2 r; c = tr_cyc r + 1 in r\<lparr>tr_cyc := c, tr_latch := (if c \<le> p then p - c else p)\<rparr>)
         else r),
     bus_delay = (\<lambda>_ r. r)\<rparr>"

lemma halfword_lt: "halfword k n < 65536"
  unfolding halfword_def by (rule less_le_trans [OF take_bit_nat_less_exp]) simp

lemma demo_timer_laws: "ts_timer demo_timer 0x20080 2 (\<lambda>r. r)"
proof -
  have u: "unat (of_nat (halfword k n) :: u32) mod 65536 = halfword k n" for k n
    using halfword_lt [of k n] by (simp add: unat_of_nat_32)
  have two: "k = 0 \<or> k = 1" if "k < 2" for k :: nat using that by auto
  have snap: "\<exists>c c'. tr_cyc r \<le> c \<and> c \<le> c' \<and> bus_wr demo_timer 0x20090 0 r = r\<lparr>tr_cyc := c',
      tr_latch := (let p = period_value 2 r in if c \<le> p then p - c else p)\<rparr>" for r
    by (intro exI [of _ "tr_cyc r + 1"]) (simp add: demo_timer_def Let_def)
  have rd: "later r (r\<lparr>tr_cyc := Suc (tr_cyc r)\<rparr>)" for r :: ts_regs
    unfolding later_def by (intro exI [of _ "Suc (tr_cyc r)"]) simp
  show ?thesis
    unfolding ts_timer_def
  proof (intro conjI allI impI)
    fix k d h assume "k < (2 :: nat)"
    then show "bus_wr demo_timer (0x20080 + of_nat (4 * (2 + k))) d h = h\<lparr>tr_period := (tr_period h)(k := unat d mod 65536)\<rparr>"
      by (auto simp: demo_timer_def dest!: two)
  next
    fix k h assume "k < (2 :: nat)"
    then show "unat (fst (bus_rd demo_timer (0x20080 + of_nat (4 * (2 + 2 + k))) h)) mod 65536 = halfword k (tr_latch h)"
      by (auto simp: demo_timer_def u dest!: two)
  qed (use snap in \<open>auto simp: rd demo_timer_def\<close>)
qed

definition demo_clock :: timer_config where
  "demo_clock = \<lparr>tc_BASE = 0x20080, tc_FREQ = 50000000, tc_PERIOD = 1, tc_PERIOD_UNITS = UNITS_ms, tc_IRQ = 1,
     tc_IRQ_INTERRUPT_CONTROLLER_ID = 0, tc_SNAPSHOT = True\<rparr>"

definition demo_ts :: "ts_regs ts_st" where
  "demo_ts = \<lparr>hw = \<lparr>tr_period = (\<lambda>_. 0), tr_started = True, tr_cyc = 7, tr_latch = 0\<rparr>, trace = [], cpu_status = 1, cpu_ienable = 0,
     alt_irq_active = 0, alt_priority_mask = -1, alt_irq = (\<lambda>_. \<lparr>ih_handler = 0, ih_context = 0\<rparr>),
     alt_instruction_exception_handler = 0, alt_fd_list = alt_fd_list_init 0x40, alt_max_fd = -1,
     errno = 0, links = \<lparr>ll_next = (\<lambda>x. x), ll_prev = (\<lambda>x. x)\<rparr>, bytes = (\<lambda>_. 0), st_mode = (\<lambda>_. 0),
     tick_rate = 0, nticks = 0,
     alarms = (\<lambda>_. \<lparr>al_time = 0, al_callback = 0, al_rollover = 0, al_context = 0\<rparr>),
     alt_resettime = \<lparr>tv_sec = 0, tv_usec = 0\<rparr>, alt_timezone = (0, 0), heap_end = 0x1001,
     altera_avalon_timer_ts_base = 0x20080, altera_avalon_timer_ts_freq = 50000000\<rparr>"

theorem timestamp_measures_witness:
  "\<exists>s1 t s2. alt_timestamp_start demo_timer 32 demo_ts = Some (0, s1) \<and> alt_timestamp_32 demo_timer s1 = Some (t, s2) \<and>
     (tr_cyc (hw s2) < 2 ^ 32 \<longrightarrow> tr_cyc (hw s1) \<le> unat t \<and> unat t \<le> tr_cyc (hw s2))"
proof -
  have i: "ALTERA_AVALON_TIMER_INIT demo_timer 0 0x20100 (tc_BASE demo_clock) demo_clock demo_ts = Some (None, demo_ts)"
    by (simp add: ALTERA_AVALON_TIMER_INIT_def demo_clock_def demo_ts_def)
  note T = timestamp_measures [OF i, of 2 "\<lambda>r. r"]
  have d: "tc_BASE demo_clock \<noteq> 0x20100" "tc_FREQ demo_clock \<noteq> 0" "ts_timer demo_timer (tc_BASE demo_clock) 2 (\<lambda>r. r)"
    by (simp_all add: demo_clock_def demo_timer_laws)
  obtain s1 where 1: "alt_timestamp_start demo_timer 32 demo_ts = Some (0, s1)" "ts_running (\<lambda>r. r) 2 (tc_BASE demo_clock) s1"
    using T [OF d] by (auto simp: wp_def split: option.splits)
  moreover have "reads_elapsed (\<lambda>r. r) 2 (tc_BASE demo_clock) (alt_timestamp_32 demo_timer :: (u32, ts_regs ts_st) prog)"
    using T [OF d] by simp
  ultimately show ?thesis by (fastforce simp: reads_elapsed_def wp_def split: option.splits)
qed

end
