(* ===== verification/HAL_Gmon.thy ===== *)
theory HAL_Gmon
  imports HAL_Time
begin

text \<open>
  Profiling (\<open>HAL/src/alt_gmon.c\<close>, \<open>HAL/src/alt_mcount.S\<close>), which a build with \<open>-pg\<close> links in: the
  compiler puts a call of \<open>mcount\<close> at the start of every function, and an alarm samples the program
  counter at every tick.  The records of the call graph are in memory that is never freed; a
  pointer to one is its address, and the records of one type are a map from addresses.  The
  histogram is in the bytes of memory.  Addresses that the linker fixes are a parameter.
\<close>

section \<open>State\<close>

record mcount_fn_arc =
  arc_next :: u32
  arc_from_pc :: u32
  arc_count :: u32

record mcount_fn_entry =
  fn_next :: u32
  fn_self_pc :: u32
  fn_arc_head :: u32

record 'h gmon_st = "'h time_st" +
  fn_arcs :: "u32 \<Rightarrow> mcount_fn_arc"
  fn_entries :: "u32 \<Rightarrow> mcount_fn_entry"
  pcsample_need_init :: int
  mcount_fn_head :: "u32 \<Rightarrow> u32"
  s_pcsamples :: u32
  alt_gmon_data :: "u32 list"
  mcount_slab_ptr :: u32
  mcount_slab_size :: u32

text \<open>
  The bounds of the code, the limit of the heap, the list of alarms, the sampler's alarm and the
  address of \<open>nios2_pcsample\<close>.
\<close>

record gmon_link =
  gl_stext :: u32
  gl_etext :: u32
  gl_heap_limit :: u32
  gl_alarm_list :: u32
  gl_alarm :: u32
  gl_pcsample :: u32

abbreviation (input) PCSAMPLE_BYTES_PER_BUCKET :: u32 where "PCSAMPLE_BYTES_PER_BUCKET \<equiv> 32"
abbreviation (input) HASH_BUCKETS :: u32 where "HASH_BUCKETS \<equiv> 64"
abbreviation (input) GMON_DATA_PROFILE_DATA :: nat where "GMON_DATA_PROFILE_DATA \<equiv> 2"
abbreviation (input) GMON_DATA_PROFILE_RATE :: nat where "GMON_DATA_PROFILE_RATE \<equiv> 6"
abbreviation (input) MCOUNT_SLAB_INCREMENT :: u32 where "MCOUNT_SLAB_INCREMENT \<equiv> 1020"

text \<open>The initial values; \<open>heads\<close> is the address of the array of list heads.\<close>

definition alt_gmon_data_init :: "gmon_link \<Rightarrow> u32 \<Rightarrow> u32 list" where
  "alt_gmon_data_init L heads = [0x6e6f6d67, 9, 0, gl_stext L, gl_etext L, PCSAMPLE_BYTES_PER_BUCKET, 0,
     heads, heads + HASH_BUCKETS * 4]"

section \<open>The call graph\<close>

definition mcount_allocate :: "gmon_link \<Rightarrow> u32 \<Rightarrow> (u32, ('h, 'x) gmon_st_scheme) prog" where
  "mcount_allocate L n s = do {
     (_, s) \<leftarrow> (if n > mcount_slab_size s then do {
         (p, s) \<leftarrow> ALT_SBRK (gl_heap_limit L) MCOUNT_SLAB_INCREMENT s;
         Some ((), s\<lparr>mcount_slab_ptr := p, mcount_slab_size := MCOUNT_SLAB_INCREMENT\<rparr>)
       } else Some ((), s));
     let data = mcount_slab_ptr s;
     Some (data, s\<lparr>mcount_slab_ptr := mcount_slab_ptr s + n, mcount_slab_size := mcount_slab_size s - n\<rparr>)
   }"

definition nios2_pcsample_init :: "gmon_link \<Rightarrow> (int, ('h, 'x) gmon_st_scheme) prog" where
  "nios2_pcsample_init L s =
     (let prof_rate = alt_ticks_per_second s in
      if prof_rate = 0 then Some (1, s)
      else do {
        let pcsamples_size = (gl_etext L - gl_stext L) div PCSAMPLE_BYTES_PER_BUCKET;
        (p, s) \<leftarrow> ALT_SBRK (gl_heap_limit L) (pcsamples_size * 2) s;
        let s = s\<lparr>s_pcsamples := p\<rparr>;
        (if s_pcsamples s \<noteq> 0 then do {
           let s = s\<lparr>bytes := write_bytes (bytes s) (s_pcsamples s) (replicate (unat (pcsamples_size * 2)) 0)\<rparr>;
           let s = s\<lparr>alt_gmon_data := (alt_gmon_data s)[GMON_DATA_PROFILE_DATA := s_pcsamples s]\<rparr>;
           let s = s\<lparr>alt_gmon_data := (alt_gmon_data s)[GMON_DATA_PROFILE_RATE := prof_rate]\<rparr>;
           (_, s) \<leftarrow> alt_alarm_start (gl_alarm_list L) (gl_alarm L) 1 (gl_pcsample L) 0 s;
           Some (0, s)
         } else Some (0, s))
      })"

text \<open>\<open>fn_head\<close> is the index of the list; a null \<open>fn_entry\<close> is 0.\<close>

definition mcount_record :: "gmon_link \<Rightarrow> u32 \<Rightarrow> u32 \<Rightarrow> u32 \<Rightarrow> u32 \<Rightarrow> (unit, ('h, 'x) gmon_st_scheme) prog" where
  "mcount_record L self_pc from_pc fn_entry fn_head s = do {
     (_, s) \<leftarrow> (if pcsample_need_init s \<noteq> 0 then do {
         (r, s) \<leftarrow> nios2_pcsample_init L (s\<lparr>pcsample_need_init := 0\<rparr>);
         Some ((), s\<lparr>pcsample_need_init := r\<rparr>)
       } else Some ((), s));
     (context, s) \<leftarrow> alt_irq_disable_all s;
     (fn_entry, s) \<leftarrow> (if fn_entry = 0 then do {
         (p, s) \<leftarrow> mcount_allocate L 12 s;
         Some (p, s\<lparr>fn_entries := (fn_entries s)(p :=
              \<lparr>fn_next = mcount_fn_head s fn_head, fn_self_pc = self_pc, fn_arc_head = 0\<rparr>),
            mcount_fn_head := (mcount_fn_head s)(fn_head := p)\<rparr>)
       } else Some (fn_entry, s));
     (arc_entry, s) \<leftarrow> mcount_allocate L 12 s;
     let s = s\<lparr>fn_arcs := (fn_arcs s)(arc_entry :=
            \<lparr>arc_next = fn_arc_head (fn_entries s fn_entry), arc_from_pc = from_pc, arc_count = 1\<rparr>)\<rparr>;
     let s = s\<lparr>fn_entries := (fn_entries s)(fn_entry := (fn_entries s fn_entry)\<lparr>fn_arc_head := arc_entry\<rparr>)\<rparr>;
     alt_irq_enable_all context s
   }"

text \<open>The two searches of \<open>mcount\<close>; the second starts at an arc that exists.\<close>

partial_function (option) find_fn :: "(u32 \<Rightarrow> mcount_fn_entry) \<Rightarrow> u32 \<Rightarrow> u32 \<Rightarrow> u32 option" where
  "find_fn m r10 ra =
     (if r10 = 0 then Some 0
      else if fn_self_pc (m r10) = ra then Some r10
      else find_fn m (fn_next (m r10)) ra)"

partial_function (option) find_arc :: "(u32 \<Rightarrow> mcount_fn_arc) \<Rightarrow> u32 \<Rightarrow> u32 \<Rightarrow> u32 option" where
  "find_arc m r3 r8 =
     (if arc_from_pc (m r3) = r8 then Some r3
      else if arc_next (m r3) = 0 then Some 0
      else find_arc m (arc_next (m r3)) r8)"

definition hash_bucket :: "u32 \<Rightarrow> u32" where
  "hash_bucket pc = drop_bit 5 pc AND (HASH_BUCKETS - 1)"

definition mcount :: "gmon_link \<Rightarrow> u32 \<Rightarrow> u32 \<Rightarrow> (unit, ('h, 'x) gmon_st_scheme) prog" where
  "mcount L ra r8 s = do {
     let fn_head = hash_bucket ra;
     r10 \<leftarrow> find_fn (fn_entries s) (mcount_fn_head s fn_head) ra;
     (if r10 = 0 then mcount_record L ra r8 0 fn_head s
      else do {
        r3 \<leftarrow> find_arc (fn_arcs s) (fn_arc_head (fn_entries s r10)) r8;
        (if r3 = 0 then mcount_record L ra r8 r10 fn_head s
         else Some ((), s\<lparr>fn_arcs := (fn_arcs s)(r3 := (fn_arcs s r3)\<lparr>arc_count := arc_count (fn_arcs s r3) + 1\<rparr>)\<rparr>))
      })
   }"

section \<open>The sampler\<close>

text \<open>A halfword of memory, low byte first.\<close>

definition load_u16 :: "(u32 \<Rightarrow> u8) \<Rightarrow> u32 \<Rightarrow> u16" where
  "load_u16 m a = push_bit 8 (ucast (m (a + 1))) OR ucast (m a)"

definition store_u16 :: "(u32 \<Rightarrow> u8) \<Rightarrow> u32 \<Rightarrow> u16 \<Rightarrow> u32 \<Rightarrow> u8" where
  "store_u16 m a v = m(a := ucast v, a + 1 := ucast (drop_bit 8 v))"

text \<open>\<open>pc\<close> is the exception return address at the tick.\<close>

definition nios2_pcsample :: "gmon_link \<Rightarrow> u32 \<Rightarrow> (u32, ('h, 'x) gmon_st_scheme) prog" where
  "nios2_pcsample L pc s =
     (if pc \<ge> gl_stext L \<and> pc < gl_etext L \<and> s_pcsamples s \<noteq> 0 then
        (let bucket = (pc - gl_stext L) div PCSAMPLE_BYTES_PER_BUCKET;
             a = s_pcsamples s + bucket * 2
         in Some (1, s\<lparr>bytes := store_u16 (bytes s) a (load_u16 (bytes s) a + 1)\<rparr>))
      else Some (1, s))"

end
