(* ===== verification/HAL_Gmon_Claims.thy ===== *)
theory HAL_Gmon_Claims
  imports HAL_Gmon HAL_Time_Claims
begin

text \<open>
  The call graph counts calls: after any sequence of calls of \<open>mcount\<close> the record of a caller and a
  callee holds how often that pair came.  The sampler adds to the bucket of the program counter,
  and the last bucket of a text section whose length is no multiple of 32 lies outside its buffer.
\<close>

section \<open>Lists in the heap\<close>

primrec chain :: "(u32 \<Rightarrow> u32) \<Rightarrow> u32 \<Rightarrow> u32 list \<Rightarrow> bool" where
  "chain nx p [] = (p = 0)"
| "chain nx p (a # as) = (p \<noteq> 0 \<and> p = a \<and> chain nx (nx a) as)"

lemma chain_cong: "(\<And>a. a \<in> set as \<Longrightarrow> nx a = nx' a) \<Longrightarrow> chain nx p as = chain nx' p as"
  by (induction as arbitrary: p) simp_all

lemma chain_null: "chain nx p as \<Longrightarrow> 0 \<notin> set as"
  by (induction as arbitrary: p) auto

lemma find_fn_chain:
  "chain (\<lambda>e. fn_next (m e)) p es \<Longrightarrow>
   find_fn m p ra = Some (case find (\<lambda>e. fn_self_pc (m e) = ra) es of None \<Rightarrow> 0 | Some e \<Rightarrow> e)"
proof (induction es arbitrary: p)
  case Nil
  then show ?case by (subst find_fn.simps) simp
next
  case (Cons e es)
  then show ?case by (subst find_fn.simps) auto
qed

lemma find_arc_chain:
  "chain (\<lambda>a. arc_next (m a)) p as \<Longrightarrow> as \<noteq> [] \<Longrightarrow>
   find_arc m p r8 = Some (case find (\<lambda>a. arc_from_pc (m a) = r8) as of None \<Rightarrow> 0 | Some a \<Rightarrow> a)"
proof (induction as arbitrary: p)
  case (Cons a as)
  show ?case
  proof (cases as)
    case Nil
    then show ?thesis using Cons.prems by (subst find_arc.simps) simp
  next
    case (Cons b bs)
    then have "arc_next (m a) \<noteq> 0" "chain (\<lambda>a. arc_next (m a)) (arc_next (m a)) as" "p = a" "as \<noteq> []"
      using Cons.prems by auto
    then show ?thesis using Cons.IH [of "arc_next (m a)"] by (subst find_arc.simps) simp
  qed
qed simp

section \<open>The graph\<close>

text \<open>
  \<open>ES b\<close> are the entries of bucket \<open>b\<close>, \<open>AS e\<close> the arcs of the entry \<open>e\<close>.  Entries of a bucket have
  different functions of that bucket, arcs of an entry different callers, and no arc is shared.
\<close>

definition blocks :: "(u32 \<Rightarrow> u32 list) \<Rightarrow> (u32 \<Rightarrow> u32 list) \<Rightarrow> u32 set" where
  "blocks ES AS = (\<Union>b. set (ES b)) \<union> (\<Union>b. \<Union>e \<in> set (ES b). set (AS e))"

definition graph :: "('h, 'x) gmon_st_scheme \<Rightarrow> (u32 \<Rightarrow> u32 list) \<Rightarrow> (u32 \<Rightarrow> u32 list) \<Rightarrow> bool" where
  "graph s ES AS \<longleftrightarrow>
     (\<forall>b. chain (\<lambda>e. fn_next (fn_entries s e)) (mcount_fn_head s b) (ES b)) \<and>
     (\<forall>b. \<forall>e \<in> set (ES b). hash_bucket (fn_self_pc (fn_entries s e)) = b) \<and>
     (\<forall>b. \<forall>e \<in> set (ES b). chain (\<lambda>a. arc_next (fn_arcs s a)) (fn_arc_head (fn_entries s e)) (AS e)) \<and>
     (\<forall>b. inj_on (\<lambda>e. fn_self_pc (fn_entries s e)) (set (ES b))) \<and>
     (\<forall>b. \<forall>e \<in> set (ES b). inj_on (\<lambda>a. arc_from_pc (fn_arcs s a)) (set (AS e))) \<and>
     (\<forall>b b'. \<forall>e \<in> set (ES b). \<forall>e' \<in> set (ES b'). e \<noteq> e' \<longrightarrow> set (AS e) \<inter> set (AS e') = {}) \<and>
     (\<forall>x \<in> blocks ES AS. unat x + 12 \<le> unat (mcount_slab_ptr s))"

text \<open>What is left of the slab is below the end of the heap.\<close>

definition slab :: "('h, 'x) gmon_st_scheme \<Rightarrow> bool" where
  "slab s \<longleftrightarrow> heap_end s \<noteq> 0 \<and> unat (mcount_slab_ptr s) + unat (mcount_slab_size s) \<le> unat (heap_end s) \<and>
     (mcount_slab_size s \<noteq> 0 \<longrightarrow> mcount_slab_ptr s \<noteq> 0)"

definition tally :: "('h, 'x) gmon_st_scheme \<Rightarrow> (u32 \<Rightarrow> u32 list) \<Rightarrow> (u32 \<Rightarrow> u32 list) \<Rightarrow> u32 \<Rightarrow> u32 \<Rightarrow> u32" where
  "tally s ES AS ra r8 =
     (case find (\<lambda>e. fn_self_pc (fn_entries s e) = ra) (ES (hash_bucket ra)) of None \<Rightarrow> 0
      | Some e \<Rightarrow> (case find (\<lambda>a. arc_from_pc (fn_arcs s a) = r8) (AS e) of None \<Rightarrow> 0
         | Some a \<Rightarrow> arc_count (fn_arcs s a)))"

text \<open>Only these fields matter.\<close>

definition same_graph :: "('h, 'x) gmon_st_scheme \<Rightarrow> ('h, 'x) gmon_st_scheme \<Rightarrow> bool" where
  "same_graph s s' \<longleftrightarrow> fn_entries s' = fn_entries s \<and> fn_arcs s' = fn_arcs s \<and> mcount_fn_head s' = mcount_fn_head s"

lemma graph_same: "same_graph s s' \<Longrightarrow> unat (mcount_slab_ptr s) \<le> unat (mcount_slab_ptr s') \<Longrightarrow> graph s ES AS \<Longrightarrow> graph s' ES AS"
  unfolding graph_def same_graph_def by (auto dest!: bspec)

lemma tally_same: "same_graph s s' \<Longrightarrow> tally s' ES AS = tally s ES AS"
  unfolding tally_def same_graph_def by (intro ext) (simp cong: option.case_cong)

section \<open>Allocation\<close>

lemma sbrk_room:
  assumes "unat limit < 2 ^ 30" "unat (heap_end s) + unat n + 3 \<le> unat limit"
  obtains p h where "ALT_SBRK limit n s = Some (p, s\<lparr>heap_end := h\<rparr>)"
    "unat (heap_end s) \<le> unat p" "unat h = unat p + unat n" "unat p \<le> unat (heap_end s) + 3"
proof -
  let ?p = "(heap_end s + 3) AND NOT 3"
  have h3: "unat (heap_end s + 3) = unat (heap_end s) + 3"
    using assms by (simp add: unat_word_ariths(1))
  then have u: "unat ?p = unat (heap_end s) + 3 - (unat (heap_end s) + 3) mod 4"
    by (simp only: unat_align)
  then have b: "unat ?p \<le> unat (heap_end s) + 3" "unat (heap_end s) \<le> unat ?p"
    by (presburger+)
  have "unat (?p + n) = unat ?p + unat n" using b(1) assms by (simp add: unat_word_ariths(1))
  moreover from this have "\<not> limit < ?p + n" using b(1) assms by (simp add: not_less word_le_nat_alt)
  moreover from this have "ALT_SBRK limit n s = Some (?p, s\<lparr>heap_end := ?p + n\<rparr>)"
    by (simp add: ALT_SBRK_def prog_defs Let_def)
  ultimately show thesis using that b by blast
qed

text \<open>One record of 12 bytes: a fresh address, and at most one more slab of the heap.\<close>

lemma allocate_fresh:
  fixes s :: "('h, 'x) gmon_st_scheme"
  assumes L: "unat (gl_heap_limit L) < 2 ^ 30" "unat (heap_end s) + 1023 \<le> unat (gl_heap_limit L)" and s: "slab s"
  obtains p s' where "mcount_allocate L 12 s = Some (p, s')" "same_graph s s'" "slab s'" "p \<noteq> 0"
    "unat (mcount_slab_ptr s) \<le> unat p" "unat p + 12 \<le> unat (mcount_slab_ptr s')"
    "unat (heap_end s') \<le> unat (heap_end s) + 1023" "cpu_status s' = cpu_status s"
    "pcsample_need_init s' = pcsample_need_init s" "tick_rate s' = tick_rate s"
proof (cases "12 > mcount_slab_size s")
  case True
  have room: "unat (heap_end s) + unat (1020 :: u32) + 3 \<le> unat (gl_heap_limit L)" using L(2) by simp
  obtain p h where sb: "ALT_SBRK (gl_heap_limit L) 1020 s = Some (p, s\<lparr>heap_end := h\<rparr>)"
    and h1: "unat (heap_end s) \<le> unat p" "unat h = unat p + unat (1020 :: u32)" "unat p \<le> unat (heap_end s) + 3"
    by (rule sbrk_room [OF L(1) room])
  note h = h1(1) h1(2) [simplified] h1(3)
  let ?s = "s\<lparr>heap_end := h, mcount_slab_ptr := p + 12, mcount_slab_size := 1008\<rparr>"
  have run: "mcount_allocate L 12 s = Some (p, ?s)"
    using True by (simp add: mcount_allocate_def sb)
  have p: "unat (p + 12) = unat p + 12" using h L by (simp add: unat_word_ariths(1))
  then have p0: "p + 12 \<noteq> 0" by auto
  have "heap_end s \<noteq> 0" "unat (heap_end s) > 0" using s by (auto simp: slab_def unat_gt_0)
  then have nz: "p \<noteq> 0" "h \<noteq> 0" using h by auto
  have sl: "slab ?s" using p h p0 nz by (simp add: slab_def)
  show thesis
    by (rule that [OF run]) (use sl nz h p s in \<open>simp_all add: same_graph_def slab_def\<close>)
next
  case False
  let ?s = "s\<lparr>mcount_slab_ptr := mcount_slab_ptr s + 12, mcount_slab_size := mcount_slab_size s - 12\<rparr>"
  have run: "mcount_allocate L 12 s = Some (mcount_slab_ptr s, ?s)"
    using False by (simp add: mcount_allocate_def)
  have z: "unat (mcount_slab_size s) \<ge> 12" using False by (simp add: not_less word_le_nat_alt)
  then have m: "unat (mcount_slab_size s - 12) = unat (mcount_slab_size s) - 12"
    by (simp add: unat_sub word_le_nat_alt)
  have p: "unat (mcount_slab_ptr s + 12) = unat (mcount_slab_ptr s) + 12"
    using z s L by (simp add: unat_word_ariths(1) slab_def)
  then have p0: "mcount_slab_ptr s + 12 \<noteq> 0" by auto
  have sl: "slab ?s" using p m p0 z s by (simp add: slab_def)
  show thesis
    by (rule that [OF run]) (use sl p s z in \<open>auto simp: same_graph_def slab_def\<close>)
qed

section \<open>Changes of the graph\<close>

lemma graphD:
  assumes "graph s ES AS"
  shows "chain (\<lambda>e. fn_next (fn_entries s e)) (mcount_fn_head s b) (ES b)"
    and "e \<in> set (ES b) \<Longrightarrow> hash_bucket (fn_self_pc (fn_entries s e)) = b"
    and "e \<in> set (ES b) \<Longrightarrow> chain (\<lambda>a. arc_next (fn_arcs s a)) (fn_arc_head (fn_entries s e)) (AS e)"
    and "inj_on (\<lambda>e. fn_self_pc (fn_entries s e)) (set (ES b))"
    and "e \<in> set (ES b) \<Longrightarrow> inj_on (\<lambda>a. arc_from_pc (fn_arcs s a)) (set (AS e))"
    and "e \<in> set (ES b) \<Longrightarrow> e' \<in> set (ES b') \<Longrightarrow> e \<noteq> e' \<Longrightarrow> set (AS e) \<inter> set (AS e') = {}"
    and "x \<in> blocks ES AS \<Longrightarrow> unat x + 12 \<le> unat (mcount_slab_ptr s)"
  using assms unfolding graph_def by blast+

text \<open>The arc of a pair, and its count.\<close>

definition arc_of :: "('h, 'x) gmon_st_scheme \<Rightarrow> (u32 \<Rightarrow> u32 list) \<Rightarrow> (u32 \<Rightarrow> u32 list) \<Rightarrow> u32 \<Rightarrow> u32 \<Rightarrow> u32 \<Rightarrow> bool" where
  "arc_of s ES AS ra r8 a \<longleftrightarrow> (\<exists>e \<in> set (ES (hash_bucket ra)). fn_self_pc (fn_entries s e) = ra \<and>
     a \<in> set (AS e) \<and> arc_from_pc (fn_arcs s a) = r8)"

lemma find_inj: "inj_on f (set xs) \<Longrightarrow> x \<in> set xs \<Longrightarrow> find (\<lambda>y. f y = f x) xs = Some x"
  by (induction xs) (auto simp: inj_on_def)

lemma find_none: "find P xs = None \<longleftrightarrow> (\<forall>x \<in> set xs. \<not> P x)"
  by (auto simp: find_None_iff)

lemma tally_arc:
  assumes g: "graph s ES AS" and a: "arc_of s ES AS ra r8 a"
  shows "tally s ES AS ra r8 = arc_count (fn_arcs s a)"
proof -
  obtain e where e: "e \<in> set (ES (hash_bucket ra))" "fn_self_pc (fn_entries s e) = ra" "a \<in> set (AS e)" "arc_from_pc (fn_arcs s a) = r8"
    using a by (auto simp: arc_of_def)
  have "find (\<lambda>e. fn_self_pc (fn_entries s e) = ra) (ES (hash_bucket ra)) = Some e"
    using find_inj [OF graphD(4) [OF g] e(1)] e(2) by simp
  moreover have "find (\<lambda>a. arc_from_pc (fn_arcs s a) = r8) (AS e) = Some a"
    using find_inj [OF graphD(5) [OF g e(1)] e(3)] e(4) by simp
  ultimately show ?thesis by (simp add: tally_def)
qed

lemma find_someD: "find P xs = Some x \<Longrightarrow> x \<in> set xs \<and> P x"
  by (induction xs) (auto split: if_splits)

lemma tally_none: "\<not> (\<exists>a. arc_of s ES AS ra r8 a) \<Longrightarrow> tally s ES AS ra r8 = 0"
  unfolding tally_def arc_of_def by (auto dest!: find_someD split: option.split)

lemma arc_pair: "graph s ES AS \<Longrightarrow> arc_of s ES AS ra r8 a \<Longrightarrow> arc_of s ES AS ra' r8' a \<Longrightarrow> ra' = ra \<and> r8' = r8"
  unfolding arc_of_def by (metis disjoint_iff graphD(6))

lemma arc_unique: "graph s ES AS \<Longrightarrow> arc_of s ES AS ra r8 a \<Longrightarrow> arc_of s ES AS ra r8 a' \<Longrightarrow> a' = a"
  by (auto simp: arc_of_def dest: inj_onD [OF graphD(4)] inj_onD [OF graphD(5)])

text \<open>Two graphs with the same pairs, but for one pair, and the same counts elsewhere.\<close>

lemma tally_step:
  assumes g: "graph s ES AS" "graph s' ES' AS'" and n: "arc_of s' ES' AS' ra r8 a"
    and cnt: "arc_count (fn_arcs s' a) = tally s ES AS ra r8 + 1"
    and rest: "\<And>ra' r8' x. (ra', r8') \<noteq> (ra, r8) \<Longrightarrow> arc_of s' ES' AS' ra' r8' x \<longleftrightarrow> arc_of s ES AS ra' r8' x"
    and counts: "\<And>ra' r8' x. (ra', r8') \<noteq> (ra, r8) \<Longrightarrow> arc_of s ES AS ra' r8' x \<Longrightarrow> arc_count (fn_arcs s' x) = arc_count (fn_arcs s x)"
  shows "tally s' ES' AS' ra' r8' = tally s ES AS ra' r8' + (if ra' = ra \<and> r8' = r8 then 1 else 0)"
proof (cases "(ra', r8') = (ra, r8)")
  case True
  then show ?thesis using tally_arc [OF g(2) n] cnt by simp
next
  case o: False
  show ?thesis
  proof (cases "\<exists>x. arc_of s ES AS ra' r8' x")
    case True
    then obtain x where x: "arc_of s ES AS ra' r8' x" ..
    then show ?thesis
      using tally_arc [OF g(1) x] tally_arc [OF g(2), of ra' r8' x] rest [OF o] counts [OF o x] o by auto
  next
    case False
    then show ?thesis using tally_none [of s ES AS ra' r8'] tally_none [of s' ES' AS' ra' r8'] rest [OF o] o by auto
  qed
qed

lemma tally_same_pairs:
  assumes g: "graph s ES AS" "graph s' ES' AS'" and arcs: "fn_arcs s' = fn_arcs s"
    and pairs: "\<And>ra r8 x. arc_of s' ES' AS' ra r8 x \<longleftrightarrow> arc_of s ES AS ra r8 x"
  shows "tally s' ES' AS' ra r8 = tally s ES AS ra r8"
proof (cases "\<exists>x. arc_of s ES AS ra r8 x")
  case True
  then show ?thesis using tally_arc [OF g(1)] tally_arc [OF g(2)] pairs arcs by fastforce
next
  case False
  then show ?thesis using tally_none [of s ES AS ra r8] tally_none [of s' ES' AS' ra r8] pairs by simp
qed

text \<open>Another call of a known pair.\<close>

lemma bump_arc:
  fixes s :: "('h, 'x) gmon_st_scheme"
  assumes g: "graph s ES AS" and a: "arc_of s ES AS ra r8 a"
  defines "s' \<equiv> s\<lparr>fn_arcs := (fn_arcs s)(a := (fn_arcs s a)\<lparr>arc_count := arc_count (fn_arcs s a) + 1\<rparr>)\<rparr>"
  shows "graph s' ES AS" "tally s' ES AS ra' r8' = tally s ES AS ra' r8' + (if ra' = ra \<and> r8' = r8 then 1 else 0)"
proof -
  have f: "arc_next (fn_arcs s' x) = arc_next (fn_arcs s x)" "arc_from_pc (fn_arcs s' x) = arc_from_pc (fn_arcs s x)" for x
    by (simp_all add: s'_def)
  have e: "fn_entries s' = fn_entries s" "mcount_fn_head s' = mcount_fn_head s" "mcount_slab_ptr s' = mcount_slab_ptr s"
    by (simp_all add: s'_def)
  show g': "graph s' ES AS"
    using g unfolding graph_def f e .
  have same: "arc_of s' ES AS ra' r8' x = arc_of s ES AS ra' r8' x" for ra' r8' x
    unfolding arc_of_def f e ..
  have ct: "arc_count (fn_arcs s' x) = (if x = a then arc_count (fn_arcs s a) + 1 else arc_count (fn_arcs s x))" for x
    by (simp add: s'_def)
  show "tally s' ES AS ra' r8' = tally s ES AS ra' r8' + (if ra' = ra \<and> r8' = r8 then 1 else 0)"
  proof (rule tally_step [OF g g'])
    show "arc_of s' ES AS ra r8 a" unfolding same by (rule a)
    show "arc_count (fn_arcs s' a) = tally s ES AS ra r8 + 1" by (simp add: ct tally_arc [OF g a])
    show "arc_count (fn_arcs s' x) = arc_count (fn_arcs s x)"
      if "(ra', r8') \<noteq> (ra, r8)" "arc_of s ES AS ra' r8' x" for ra' r8' x
      using that arc_pair [OF g a, of ra' r8'] by (auto simp: ct)
  qed (rule same)
qed

text \<open>An entry without arcs.\<close>

lemma add_entry:
  fixes s :: "('h, 'x) gmon_st_scheme"
  assumes g: "graph s ES AS" and p: "p \<noteq> 0" "\<And>x. x \<in> blocks ES AS \<Longrightarrow> unat x + 12 \<le> unat p" "unat p + 12 \<le> unat (mcount_slab_ptr s)"
    and new: "ra \<notin> (\<lambda>e. fn_self_pc (fn_entries s e)) ` set (ES (hash_bucket ra))"
  defines "b \<equiv> hash_bucket ra"
  defines "s' \<equiv> s\<lparr>fn_entries := (fn_entries s)(p := \<lparr>fn_next = mcount_fn_head s b, fn_self_pc = ra, fn_arc_head = 0\<rparr>),
      mcount_fn_head := (mcount_fn_head s)(b := p)\<rparr>"
  shows "graph s' (ES(b := p # ES b)) (AS(p := []))"
    "arc_of s' (ES(b := p # ES b)) (AS(p := [])) ra' r8' x \<longleftrightarrow> arc_of s ES AS ra' r8' x"
    "blocks (ES(b := p # ES b)) (AS(p := [])) = insert p (blocks ES AS)"
proof -
  let ?ES = "ES(b := p # ES b)" and ?AS = "AS(p := [])"
  have out: "p \<notin> blocks ES AS" using p(2) by force
  then have pE: "p \<notin> set (ES b')" for b' by (auto simp: blocks_def)
  have ent: "fn_entries s' e = fn_entries s e" if "e \<in> set (ES b')" for e b'
    using that pE by (auto simp: s'_def)
  have as: "?AS e = AS e" if "e \<in> set (ES b')" for e b' using that pE by auto
  have newp: "fn_entries s' p = \<lparr>fn_next = mcount_fn_head s b, fn_self_pc = ra, fn_arc_head = 0\<rparr>" by (simp add: s'_def)
  have arcs: "fn_arcs s' = fn_arcs s" and sl: "mcount_slab_ptr s' = mcount_slab_ptr s" by (simp_all add: s'_def)
  have mem: "e \<in> set (?ES b') \<longleftrightarrow> e \<in> set (ES b') \<or> b' = b \<and> e = p" for e b' by auto
  show bl: "blocks ?ES ?AS = insert p (blocks ES AS)"
    using pE by (fastforce simp: blocks_def mem split: if_splits)
  have ch: "chain (\<lambda>e. fn_next (fn_entries s' e)) q (ES b') = chain (\<lambda>e. fn_next (fn_entries s e)) q (ES b')" for q b'
    by (rule chain_cong) (simp add: ent)
  show "graph s' ?ES ?AS"
    unfolding graph_def
  proof (intro conjI allI ballI)
    show "chain (\<lambda>e. fn_next (fn_entries s' e)) (mcount_fn_head s' b') (?ES b')" for b'
      using graphD(1) [OF g] p(1) by (simp add: ch newp) (simp add: s'_def)
    show "inj_on (\<lambda>e. fn_self_pc (fn_entries s' e)) (set (?ES b'))" for b'
      using graphD(4) [OF g, of b'] new by (auto simp: inj_on_def mem newp ent b_def image_iff)
    show "unat x + 12 \<le> unat (mcount_slab_ptr s')" if "x \<in> blocks ?ES ?AS" for x
      using that graphD(7) [OF g] p(3) unfolding bl sl by blast
  next
    fix b' e assume e: "e \<in> set (?ES b')"
    show "hash_bucket (fn_self_pc (fn_entries s' e)) = b'"
      using e [unfolded mem] graphD(2) [OF g] by (auto simp: newp b_def ent)
    show "chain (\<lambda>a. arc_next (fn_arcs s' a)) (fn_arc_head (fn_entries s' e)) (?AS e)"
      using e [unfolded mem] graphD(3) [OF g] by (auto simp: newp ent as arcs)
    show "inj_on (\<lambda>a. arc_from_pc (fn_arcs s' a)) (set (?AS e))"
      using e [unfolded mem] graphD(5) [OF g] by (auto simp: as arcs)
    fix b'' e' assume e': "e' \<in> set (?ES b'')"
    show "e \<noteq> e' \<longrightarrow> set (?AS e) \<inter> set (?AS e') = {}"
      using e [unfolded mem] e' [unfolded mem] graphD(6) [OF g, of e b' e' b''] by auto
  qed
  show "arc_of s' ?ES ?AS ra' r8' x \<longleftrightarrow> arc_of s ES AS ra' r8' x"
  proof
    assume "arc_of s' ?ES ?AS ra' r8' x"
    then obtain e where e: "e \<in> set (?ES (hash_bucket ra'))" "fn_self_pc (fn_entries s' e) = ra'" "x \<in> set (?AS e)"
      "arc_from_pc (fn_arcs s x) = r8'" unfolding arc_of_def arcs by blast
    then have "e \<in> set (ES (hash_bucket ra'))" using mem by fastforce
    then show "arc_of s ES AS ra' r8' x" unfolding arc_of_def using e ent as by metis
  next
    assume "arc_of s ES AS ra' r8' x"
    then obtain e where e: "e \<in> set (ES (hash_bucket ra'))" "fn_self_pc (fn_entries s e) = ra'" "x \<in> set (AS e)"
      "arc_from_pc (fn_arcs s x) = r8'" unfolding arc_of_def by blast
    then show "arc_of s' ?ES ?AS ra' r8' x" unfolding arc_of_def arcs using mem ent as by metis
  qed
qed

text \<open>A new arc of an entry.\<close>

lemma add_arc:
  fixes s :: "('h, 'x) gmon_st_scheme"
  assumes g: "graph s ES AS" and p: "p \<noteq> 0" "\<And>x. x \<in> blocks ES AS \<Longrightarrow> unat x + 12 \<le> unat p" "unat p + 12 \<le> unat (mcount_slab_ptr s)"
    and e: "e \<in> set (ES (hash_bucket ra))" "fn_self_pc (fn_entries s e) = ra"
    and new: "\<nexists>a. arc_of s ES AS ra r8 a"
  defines "s' \<equiv> s\<lparr>fn_arcs := (fn_arcs s)(p := \<lparr>arc_next = fn_arc_head (fn_entries s e), arc_from_pc = r8, arc_count = 1\<rparr>),
      fn_entries := (fn_entries s)(e := (fn_entries s e)\<lparr>fn_arc_head := p\<rparr>)\<rparr>"
  shows "graph s' ES (AS(e := p # AS e))"
    "tally s' ES (AS(e := p # AS e)) ra' r8' = tally s ES AS ra' r8' + (if ra' = ra \<and> r8' = r8 then 1 else 0)"
proof -
  let ?AS = "AS(e := p # AS e)"
  have out: "p \<notin> blocks ES AS" using p(2) by force
  have pA: "p \<notin> set (AS e')" if "e' \<in> set (ES b')" for e' b' using that out by (auto simp: blocks_def)
  have arc: "fn_arcs s' a = fn_arcs s a" if "a \<in> set (AS e')" "e' \<in> set (ES b')" for a e' b'
    using that pA by (auto simp: s'_def)
  have newp: "fn_arcs s' p = \<lparr>arc_next = fn_arc_head (fn_entries s e), arc_from_pc = r8, arc_count = 1\<rparr>" by (simp add: s'_def)
  have f: "fn_next (fn_entries s' x) = fn_next (fn_entries s x)" "fn_self_pc (fn_entries s' x) = fn_self_pc (fn_entries s x)"
    "fn_arc_head (fn_entries s' x) = (if x = e then p else fn_arc_head (fn_entries s x))" for x
    by (simp_all add: s'_def)
  have h: "mcount_fn_head s' = mcount_fn_head s" "mcount_slab_ptr s' = mcount_slab_ptr s" by (simp_all add: s'_def)
  have mem: "a \<in> set (?AS e') \<longleftrightarrow> a \<in> set (AS e') \<or> e' = e \<and> a = p" for a e' by auto
  have bl: "blocks ES ?AS = insert p (blocks ES AS)"
    using e(1) by (fastforce simp: blocks_def mem split: if_splits)
  have ch: "chain (\<lambda>a. arc_next (fn_arcs s' a)) q (AS e') = chain (\<lambda>a. arc_next (fn_arcs s a)) q (AS e')"
    if "e' \<in> set (ES b')" for q e' b'
    by (rule chain_cong) (simp add: arc [OF _ that])
  have notr8: "arc_from_pc (fn_arcs s a) \<noteq> r8" if "a \<in> set (AS e)" for a
    using new that e by (auto simp: arc_of_def)
  show g': "graph s' ES ?AS"
    unfolding graph_def f h
  proof (intro conjI allI ballI)
    show "unat x + 12 \<le> unat (mcount_slab_ptr s)" if "x \<in> blocks ES ?AS" for x
      using that graphD(7) [OF g] p(3) unfolding bl by blast
  next
    fix b' e' assume e': "e' \<in> set (ES b')"
    show "chain (\<lambda>a. arc_next (fn_arcs s' a)) (if e' = e then p else fn_arc_head (fn_entries s e')) (?AS e')"
      using graphD(3) [OF g e'] p(1) by (auto simp: ch [OF e'] ch [OF e(1)] newp)
    show "inj_on (\<lambda>a. arc_from_pc (fn_arcs s' a)) (set (?AS e'))"
      using graphD(5) [OF g e'] notr8 by (auto simp: inj_on_def mem newp arc [OF _ e'])
    fix b'' e'' assume e'': "e'' \<in> set (ES b'')"
    show "e' \<noteq> e'' \<longrightarrow> set (?AS e') \<inter> set (?AS e'') = {}"
      using graphD(6) [OF g e' e''] pA [OF e'] pA [OF e''] by (auto simp: mem)
  qed (use graphD(1,2,4) [OF g] in simp_all)
  show "tally s' ES ?AS ra' r8' = tally s ES AS ra' r8' + (if ra' = ra \<and> r8' = r8 then 1 else 0)"
  proof (rule tally_step [OF g g'])
    show "arc_of s' ES ?AS ra r8 p" using e by (auto simp: arc_of_def f newp)
    show "arc_count (fn_arcs s' p) = tally s ES AS ra r8 + 1" using tally_none [OF new] by (simp add: newp)
  next
    fix ra' r8' x assume d: "(ra', r8') \<noteq> (ra, r8)"
    show "arc_of s' ES ?AS ra' r8' x \<longleftrightarrow> arc_of s ES AS ra' r8' x"
      unfolding arc_of_def f mem using d e pA by (auto simp: newp arc)
    assume "arc_of s ES AS ra' r8' x"
    then show "arc_count (fn_arcs s' x) = arc_count (fn_arcs s x)" by (auto simp: arc_of_def arc)
  qed
qed

section \<open>Calls\<close>

text \<open>The bytes of the histogram, and what \<open>n\<close> calls can take from the heap.\<close>

definition hist_bytes :: "gmon_link \<Rightarrow> nat" where
  "hist_bytes L = unat ((gl_etext L - gl_stext L) div 32 * 2)"

definition room :: "gmon_link \<Rightarrow> nat \<Rightarrow> ('h, 'x) gmon_st_scheme \<Rightarrow> bool" where
  "room L n s \<longleftrightarrow> unat (gl_heap_limit L) < 2 ^ 30 \<and>
     unat (heap_end s) + (if pcsample_need_init s = 0 then 0 else hist_bytes L + 3) + 2046 * n \<le> unat (gl_heap_limit L)"

definition grown :: "('h, 'x) gmon_st_scheme \<Rightarrow> ('h, 'x) gmon_st_scheme \<Rightarrow> bool" where
  "grown s s' \<longleftrightarrow> same_graph s s' \<and> slab s' \<and> unat (mcount_slab_ptr s) \<le> unat (mcount_slab_ptr s')"

lemma gmon_alarm_frame:
  fixes s :: "('h, 'x) gmon_st_scheme"
  shows "wp (alt_alarm_start al alarm n cb cx s) (\<lambda>_ s'. same_graph s s' \<and> mcount_slab_ptr s' = mcount_slab_ptr s \<and>
     mcount_slab_size s' = mcount_slab_size s \<and> heap_end s' = heap_end s \<and> pcsample_need_init s' = pcsample_need_init s)"
  by (simp add: alt_alarm_start_def upd_alarm_def prog_defs Let_def same_graph_def)

lemma pcsample_init_grown:
  fixes s :: "('h, 'x) gmon_st_scheme"
  assumes r: "unat (gl_heap_limit L) < 2 ^ 30" "unat (heap_end s) + hist_bytes L + 3 \<le> unat (gl_heap_limit L)" and s: "slab s"
  shows "wp (nios2_pcsample_init L s) (\<lambda>r s'. grown s s' \<and> (r = 0 \<or> r = 1 \<and> s' = s) \<and>
     unat (heap_end s') \<le> unat (heap_end s) + hist_bytes L + 3)"
proof (cases "tick_rate s = 0")
  case True
  then show ?thesis using s by (simp add: nios2_pcsample_init_def alt_ticks_per_second_def grown_def same_graph_def)
next
  case False
  let ?n = "(gl_etext L - gl_stext L) div 32 * 2"
  obtain p h where sb: "ALT_SBRK (gl_heap_limit L) ?n s = Some (p, s\<lparr>heap_end := h\<rparr>)"
    and h: "unat (heap_end s) \<le> unat p" "unat h = unat p + unat ?n" "unat p \<le> unat (heap_end s) + 3"
    by (rule sbrk_room [OF r(1) r(2) [unfolded hist_bytes_def]])
  have nz: "p \<noteq> 0" "h \<noteq> 0" using s h by (auto simp: slab_def simp flip: unat_gt_0)
  show ?thesis
    using False nz(1)
    apply (simp add: nios2_pcsample_init_def alt_ticks_per_second_def Let_def sb)
    apply (rule wp_mono [OF gmon_alarm_frame])
    using s h nz apply (auto simp: grown_def same_graph_def slab_def hist_bytes_def)
    done
qed

text \<open>Every entry has an arc once its call is recorded.\<close>

definition good :: "('h, 'x) gmon_st_scheme \<Rightarrow> (u32 \<Rightarrow> u32 list) \<Rightarrow> (u32 \<Rightarrow> u32 list) \<Rightarrow> bool" where
  "good s ES AS \<longleftrightarrow> graph s ES AS \<and> slab s \<and> (\<forall>b. \<forall>e \<in> set (ES b). AS e \<noteq> [])"

definition counted :: "('h, 'x) gmon_st_scheme \<Rightarrow> (u32 \<Rightarrow> u32 list) \<Rightarrow> (u32 \<Rightarrow> u32 list) \<Rightarrow> u32 \<Rightarrow> u32 \<Rightarrow> ('h, 'x) gmon_st_scheme \<Rightarrow> bool" where
  "counted s ES AS ra r8 s' \<longleftrightarrow> (\<exists>ES' AS'. good s' ES' AS' \<and>
     (\<forall>ra' r8'. tally s' ES' AS' ra' r8' = tally s ES AS ra' r8' + (if ra' = ra \<and> r8' = r8 then 1 else 0)))"

text \<open>The end of \<open>__mcount_record\<close>.\<close>

definition record_arc :: "gmon_link \<Rightarrow> u32 \<Rightarrow> u32 \<Rightarrow> u32 \<Rightarrow> (unit, ('h, 'x) gmon_st_scheme) prog" where
  "record_arc L from_pc cx e s = do {
     (a, s) \<leftarrow> mcount_allocate L 12 s;
     let s = s\<lparr>fn_arcs := (fn_arcs s)(a := \<lparr>arc_next = fn_arc_head (fn_entries s e), arc_from_pc = from_pc, arc_count = 1\<rparr>)\<rparr>;
     let s = s\<lparr>fn_entries := (fn_entries s)(e := (fn_entries s e)\<lparr>fn_arc_head := a\<rparr>)\<rparr>;
     alt_irq_enable_all cx s
   }"

lemma record_arc_counts:
  fixes s :: "('h, 'x) gmon_st_scheme"
  assumes g: "graph s ES AS" "slab s" "\<And>b e'. e' \<in> set (ES b) \<Longrightarrow> e' \<noteq> e \<Longrightarrow> AS e' \<noteq> []"
    and L: "unat (gl_heap_limit L) < 2 ^ 30" "unat (heap_end s) + 1023 \<le> unat (gl_heap_limit L)"
    and e: "e \<in> set (ES (hash_bucket ra))" "fn_self_pc (fn_entries s e) = ra" and new: "\<nexists>a. arc_of s ES AS ra r8 a"
  shows "wp (record_arc L r8 cx e s) (\<lambda>_ s'. counted s ES AS ra r8 s' \<and>
     unat (heap_end s') \<le> unat (heap_end s) + 1023 \<and> pcsample_need_init s' = pcsample_need_init s)"
proof -
  obtain p s1 where al: "mcount_allocate L 12 s = Some (p, s1)" and sg: "same_graph s s1" and sl: "slab s1" and p: "p \<noteq> 0"
      "unat (mcount_slab_ptr s) \<le> unat p" "unat p + 12 \<le> unat (mcount_slab_ptr s1)"
    and h: "unat (heap_end s1) \<le> unat (heap_end s) + 1023" "cpu_status s1 = cpu_status s"
      "pcsample_need_init s1 = pcsample_need_init s" "tick_rate s1 = tick_rate s"
    by (rule allocate_fresh [OF L g(2)])
  have g1: "graph s1 ES AS" using graph_same [OF sg _ g(1)] p by simp
  have e1: "fn_self_pc (fn_entries s1 e) = ra" "\<nexists>a. arc_of s1 ES AS ra r8 a"
    using e(2) new sg by (simp_all add: same_graph_def arc_of_def)
  have old: "unat x + 12 \<le> unat p" if "x \<in> blocks ES AS" for x using graphD(7) [OF g(1) that] p(2) by simp
  define s2 where "s2 = s1\<lparr>fn_arcs := (fn_arcs s1)(p := \<lparr>arc_next = fn_arc_head (fn_entries s1 e), arc_from_pc = r8, arc_count = 1\<rparr>),
      fn_entries := (fn_entries s1)(e := (fn_entries s1 e)\<lparr>fn_arc_head := p\<rparr>)\<rparr>"
  note A = add_arc [OF g1 p(1) old p(3) e(1) e1, folded s2_def]
  define s3 where "s3 = s2\<lparr>cpu_status := cx\<rparr>"
  have run: "record_arc L r8 cx e s = Some ((), s3)"
    by (simp add: record_arc_def al prog_defs s3_def s2_def)
  have sg3: "same_graph s2 s3" by (simp add: same_graph_def s3_def)
  have "good s3 ES (AS(e := p # AS e))"
    using graph_same [OF sg3 _ A(1)] g(3) sl by (auto simp: good_def s3_def s2_def slab_def)
  moreover have "tally s3 ES (AS(e := p # AS e)) ra' r8' = tally s ES AS ra' r8' + (if ra' = ra \<and> r8' = r8 then 1 else 0)" for ra' r8'
    using A(2) by (simp add: tally_same [OF sg3] tally_same [OF sg])
  ultimately have "counted s ES AS ra r8 s3" unfolding counted_def by blast
  then show ?thesis unfolding run using h by (simp add: s3_def s2_def)
qed

lemma mcount_record_eq:
  "mcount_record L self_pc from_pc fn_entry fn_head s = do {
     (_, s) \<leftarrow> (if pcsample_need_init s \<noteq> 0 then do {
         (r, s) \<leftarrow> nios2_pcsample_init L (s\<lparr>pcsample_need_init := 0\<rparr>);
         Some ((), s\<lparr>pcsample_need_init := r\<rparr>)
       } else Some ((), s));
     (cx, s) \<leftarrow> alt_irq_disable_all s;
     (e, s) \<leftarrow> (if fn_entry = 0 then do {
         (p, s) \<leftarrow> mcount_allocate L 12 s;
         Some (p, s\<lparr>fn_entries := (fn_entries s)(p :=
              \<lparr>fn_next = mcount_fn_head s fn_head, fn_self_pc = self_pc, fn_arc_head = 0\<rparr>),
            mcount_fn_head := (mcount_fn_head s)(fn_head := p)\<rparr>)
       } else Some (fn_entry, s));
     record_arc L from_pc cx e s
   }"
  by (simp add: mcount_record_def record_arc_def)

text \<open>The sampler is started, or stays to be started.\<close>

lemma init_phase:
  fixes s :: "('h, 'x) gmon_st_scheme"
  assumes r: "room L n s" and s: "slab s"
  shows "wp (if pcsample_need_init s \<noteq> 0 then do {
         (r, s) \<leftarrow> nios2_pcsample_init L (s\<lparr>pcsample_need_init := 0\<rparr>);
         Some ((), s\<lparr>pcsample_need_init := r\<rparr>)
       } else Some ((), s)) (\<lambda>_ s'. grown s s' \<and> room L n s')"
proof (cases "pcsample_need_init s = 0")
  case True
  then show ?thesis using r s by (simp add: grown_def same_graph_def)
next
  case False
  let ?s = "s\<lparr>pcsample_need_init := 0\<rparr>"
  have "wp (nios2_pcsample_init L ?s) (\<lambda>r s'. grown ?s s' \<and> (r = 0 \<or> r = 1 \<and> s' = ?s) \<and>
     unat (heap_end s') \<le> unat (heap_end ?s) + hist_bytes L + 3)"
    by (rule pcsample_init_grown) (use r s False in \<open>simp_all add: room_def slab_def\<close>)
  then show ?thesis
    using False r unfolding if_P [OF False] wp_bind prod.case
    by (elim wp_mono) (auto simp: grown_def same_graph_def slab_def room_def)
qed

text \<open>A call of a pair that is not known.\<close>

lemma record_counts:
  fixes s :: "('h, 'x) gmon_st_scheme"
  assumes g: "good s ES AS" and r: "room L (Suc n) s" and new: "\<nexists>a. arc_of s ES AS ra r8 a"
    and e: "e = 0 \<and> ra \<notin> (\<lambda>e. fn_self_pc (fn_entries s e)) ` set (ES (hash_bucket ra)) \<or>
       e \<noteq> 0 \<and> e \<in> set (ES (hash_bucket ra)) \<and> fn_self_pc (fn_entries s e) = ra"
  shows "wp (mcount_record L ra r8 e (hash_bucket ra) s) (\<lambda>_ s'. counted s ES AS ra r8 s' \<and> room L n s')"
proof -
  obtain s1 where 1: "(if pcsample_need_init s \<noteq> 0 then do {
         (r, s) \<leftarrow> nios2_pcsample_init L (s\<lparr>pcsample_need_init := 0\<rparr>);
         Some ((), s\<lparr>pcsample_need_init := r\<rparr>)
       } else Some ((), s)) = Some ((), s1)" and gr: "grown s s1" and r1: "room L (Suc n) s1"
    using init_phase [OF r] g by (auto simp: good_def wp_iff)
  define s2 where "s2 = s1\<lparr>cpu_status := cpu_status s1 AND NOT 1\<rparr>"
  have 2: "alt_irq_disable_all s1 = Some (cpu_status s1, s2)" by (simp add: alt_irq_disable_all_def s2_def Let_def)
  have sg: "same_graph s s2" and sl: "slab s2" and up: "unat (mcount_slab_ptr s) \<le> unat (mcount_slab_ptr s2)" and r2: "room L (Suc n) s2"
    using gr r1 by (simp_all add: grown_def same_graph_def slab_def s2_def room_def)
  have g2: "graph s2 ES AS" using graph_same [OF sg up] g by (simp add: good_def)
  have same: "fn_self_pc (fn_entries s2 x) = fn_self_pc (fn_entries s x)" "arc_of s2 ES AS = arc_of s ES AS" for x
    using sg by (simp_all add: same_graph_def arc_of_def fun_eq_iff)
  note T = tally_same [OF sg]
  note run = mcount_record_eq [of L ra r8 e "hash_bucket ra" s, unfolded 1, simplified]
  have lim: "unat (gl_heap_limit L) < 2 ^ 30" and room2: "unat (heap_end s2) + 2046 \<le> unat (gl_heap_limit L)"
    using r2 by (simp_all add: room_def)
  from e show ?thesis
  proof
    assume e: "e \<noteq> 0 \<and> e \<in> set (ES (hash_bucket ra)) \<and> fn_self_pc (fn_entries s e) = ra"
    have "wp (record_arc L r8 (cpu_status s1) e s2) (\<lambda>_ s'. counted s2 ES AS ra r8 s' \<and>
        unat (heap_end s') \<le> unat (heap_end s2) + 1023 \<and> pcsample_need_init s' = pcsample_need_init s2)"
      by (rule record_arc_counts [OF g2 sl]) (use e g new lim room2 in \<open>auto simp: same good_def\<close>)
    then show ?thesis
      using e r2 unfolding run by (simp add: 2) (elim wp_mono, auto simp: counted_def T room_def)
  next
    assume e: "e = 0 \<and> ra \<notin> (\<lambda>e. fn_self_pc (fn_entries s e)) ` set (ES (hash_bucket ra))"
    obtain p s3 where al: "mcount_allocate L 12 s2 = Some (p, s3)" and sg3: "same_graph s2 s3" and sl3: "slab s3" and p: "p \<noteq> 0"
        "unat (mcount_slab_ptr s2) \<le> unat p" "unat p + 12 \<le> unat (mcount_slab_ptr s3)"
      and h: "unat (heap_end s3) \<le> unat (heap_end s2) + 1023" "cpu_status s3 = cpu_status s2"
        "pcsample_need_init s3 = pcsample_need_init s2" "tick_rate s3 = tick_rate s2"
      by (rule allocate_fresh [OF lim _ sl]) (use room2 in simp)
    let ?b = "hash_bucket ra"
    let ?ES = "ES(?b := p # ES ?b)" and ?AS = "AS(p := [])"
    define s4 where "s4 = s3\<lparr>fn_entries := (fn_entries s3)(p := \<lparr>fn_next = mcount_fn_head s3 ?b, fn_self_pc = ra, fn_arc_head = 0\<rparr>),
      mcount_fn_head := (mcount_fn_head s3)(?b := p)\<rparr>"
    have g3: "graph s3 ES AS" using graph_same [OF sg3 _ g2] p by simp
    have same3: "fn_self_pc (fn_entries s3 x) = fn_self_pc (fn_entries s x)" "arc_of s3 ES AS = arc_of s ES AS" for x
      using sg3 same by (simp_all add: same_graph_def arc_of_def fun_eq_iff)
    have old: "unat x + 12 \<le> unat p" if "x \<in> blocks ES AS" for x using graphD(7) [OF g2 that] p(2) by simp
    note A = add_entry [OF g3 p(1) old p(3), of ra, folded s4_def, unfolded same3, OF _ conjunct2 [OF e]]
    have arcs4: "fn_arcs s4 = fn_arcs s3" by (simp add: s4_def)
    have h4: "heap_end s4 = heap_end s3" "pcsample_need_init s4 = pcsample_need_init s3" by (simp_all add: s4_def)
    have T4: "tally s4 ?ES ?AS = tally s ES AS"
      using tally_same_pairs [OF g3 A(1) arcs4] A(2) same3(2) by (simp add: fun_eq_iff tally_same [OF sg3] T)
    have "wp (record_arc L r8 (cpu_status s1) p s4) (\<lambda>_ s'. counted s4 ?ES ?AS ra r8 s' \<and>
        unat (heap_end s') \<le> unat (heap_end s4) + 1023 \<and> pcsample_need_init s' = pcsample_need_init s4)"
    proof (rule record_arc_counts [OF A(1) _ _ lim])
      show "slab s4" using sl3 by (simp add: s4_def slab_def)
      show "?AS e' \<noteq> []" if "e' \<in> set (?ES b)" "e' \<noteq> p" for b e'
        using that g by (auto simp: good_def split: if_splits)
      show "unat (heap_end s4) + 1023 \<le> unat (gl_heap_limit L)" using h room2 by (simp add: s4_def)
      show "\<nexists>a. arc_of s4 ?ES ?AS ra r8 a" using A(2) new by simp
    qed (simp_all add: s4_def)
    then show ?thesis
      using e r2 h unfolding run by (simp add: 2 al s4_def [symmetric]) (elim wp_mono, auto simp: counted_def T4 room_def h4)
  qed
qed

text \<open>One call of \<open>mcount\<close>.\<close>

lemma mcount_counts:
  fixes s :: "('h, 'x) gmon_st_scheme"
  assumes g: "good s ES AS" and r: "room L (Suc n) s"
  shows "wp (mcount L ra r8 s) (\<lambda>_ s'. counted s ES AS ra r8 s' \<and> room L n s')"
proof -
  let ?b = "hash_bucket ra"
  have gr: "graph s ES AS" using g by (simp add: good_def)
  note fn = find_fn_chain [OF graphD(1) [OF gr], of ?b ra]
  show ?thesis
  proof (cases "find (\<lambda>e. fn_self_pc (fn_entries s e) = ra) (ES ?b)")
    case None
    then have "\<forall>e \<in> set (ES ?b). fn_self_pc (fn_entries s e) \<noteq> ra" by (simp add: find_none)
    then have "wp (mcount_record L ra r8 0 ?b s) (\<lambda>_ s'. counted s ES AS ra r8 s' \<and> room L n s')"
      by (intro record_counts [OF g r]) (auto simp: arc_of_def)
    then show ?thesis using None fn by (simp add: mcount_def)
  next
    case (Some e)
    then have e: "e \<in> set (ES ?b)" "fn_self_pc (fn_entries s e) = ra" using find_someD [OF Some] by simp_all
    have e0: "e \<noteq> 0" using e(1) chain_null [OF graphD(1) [OF gr, of ?b]] by metis
    have "AS e \<noteq> []" using g e(1) by (auto simp: good_def)
    note arc = find_arc_chain [OF graphD(3) [OF gr e(1)] this, of r8]
    show ?thesis
    proof (cases "find (\<lambda>a. arc_from_pc (fn_arcs s a) = r8) (AS e)")
      case None
      then have "\<forall>a \<in> set (AS e). arc_from_pc (fn_arcs s a) \<noteq> r8" by (simp add: find_none)
      then have "\<nexists>a. arc_of s ES AS ra r8 a"
        using e inj_onD [OF graphD(4) [OF gr]] by (fastforce simp: arc_of_def)
      then have "wp (mcount_record L ra r8 e ?b s) (\<lambda>_ s'. counted s ES AS ra r8 s' \<and> room L n s')"
        using e e0 by (intro record_counts [OF g r]) simp_all
      then show ?thesis using None Some fn arc e0 by (simp add: mcount_def)
    next
      case a: (Some a)
      then have a1: "a \<in> set (AS e)" "arc_from_pc (fn_arcs s a) = r8" using find_someD [OF a] by simp_all
      have a0: "a \<noteq> 0" using a1(1) chain_null [OF graphD(3) [OF gr e(1)]] by metis
      have "arc_of s ES AS ra r8 a" using e a1 by (auto simp: arc_of_def)
      note B = bump_arc [OF gr this]
      let ?s = "s\<lparr>fn_arcs := (fn_arcs s)(a := (fn_arcs s a)\<lparr>arc_count := arc_count (fn_arcs s a) + 1\<rparr>)\<rparr>"
      have "mcount L ra r8 s = Some ((), ?s)" using a Some fn arc e0 a0 by (simp add: mcount_def)
      moreover have "good ?s ES AS" using B(1) g by (simp add: good_def slab_def)
      moreover from this have "counted s ES AS ra r8 ?s" unfolding counted_def using B(2) by blast
      ultimately show ?thesis using r by (simp add: room_def)
    qed
  qed
qed

section \<open>A run\<close>

fun mcount_all :: "gmon_link \<Rightarrow> (u32 \<times> u32) list \<Rightarrow> (unit, ('h, 'x) gmon_st_scheme) prog" where
  "mcount_all L [] s = Some ((), s)"
| "mcount_all L ((ra, r8) # cs) s = do { (_, s) \<leftarrow> mcount L ra r8 s; mcount_all L cs s }"

text \<open>The count that the records hold for a pair, read like \<open>mcount\<close> reads them; 0 without a record.\<close>

definition recorded :: "('h, 'x) gmon_st_scheme \<Rightarrow> u32 \<Rightarrow> u32 \<Rightarrow> u32 option" where
  "recorded s ra r8 = do {
     e \<leftarrow> find_fn (fn_entries s) (mcount_fn_head s (hash_bucket ra)) ra;
     if e = 0 then Some 0
     else do {
       a \<leftarrow> find_arc (fn_arcs s) (fn_arc_head (fn_entries s e)) r8;
       Some (if a = 0 then 0 else arc_count (fn_arcs s a))
     }
   }"

lemma recorded_tally:
  assumes "good s ES AS"
  shows "recorded s ra r8 = Some (tally s ES AS ra r8)"
proof -
  have g: "graph s ES AS" and ne: "\<And>b e. e \<in> set (ES b) \<Longrightarrow> AS e \<noteq> []" using assms by (auto simp: good_def)
  note fn = find_fn_chain [OF graphD(1) [OF g], of "hash_bucket ra" ra]
  show ?thesis
  proof (cases "find (\<lambda>e. fn_self_pc (fn_entries s e) = ra) (ES (hash_bucket ra))")
    case None
    then show ?thesis by (simp add: recorded_def tally_def fn)
  next
    case (Some e)
    then have e: "e \<in> set (ES (hash_bucket ra))" using find_someD [OF Some] by simp
    then have e0: "e \<noteq> 0" using chain_null [OF graphD(1) [OF g, of "hash_bucket ra"]] by metis
    note arc = find_arc_chain [OF graphD(3) [OF g e] ne [OF e], of r8]
    have "0 \<notin> set (AS e)" using chain_null [OF graphD(3) [OF g e]] .
    then show ?thesis
      using Some e0 by (auto simp: recorded_def tally_def fn arc dest: find_someD split: option.split)
  qed
qed

lemma mcount_all_counts:
  fixes s :: "('h, 'x) gmon_st_scheme"
  shows "good s ES AS \<Longrightarrow> room L (length cs) s \<Longrightarrow>
     wp (mcount_all L cs s) (\<lambda>_ s'. \<exists>ES' AS'. good s' ES' AS' \<and>
       (\<forall>ra r8. tally s' ES' AS' ra r8 = tally s ES AS ra r8 + of_nat (count_list cs (ra, r8))))"
proof (induction cs arbitrary: s ES AS)
  case (Cons c cs)
  obtain ra r8 where c: "c = (ra, r8)" by (cases c)
  have "wp (mcount L ra r8 s) (\<lambda>_ s'. counted s ES AS ra r8 s' \<and> room L (length cs) s')"
    by (rule mcount_counts [OF Cons.prems(1)]) (use Cons.prems(2) in simp)
  then obtain s1 where 1: "mcount L ra r8 s = Some ((), s1)" "counted s ES AS ra r8 s1" "room L (length cs) s1"
    by (auto simp: wp_iff)
  then obtain ES1 AS1 where g1: "good s1 ES1 AS1"
    and t1: "\<And>ra' r8'. tally s1 ES1 AS1 ra' r8' = tally s ES AS ra' r8' + (if ra' = ra \<and> r8' = r8 then 1 else 0)"
    by (auto simp: counted_def)
  obtain s2 ES2 AS2 where 2: "mcount_all L cs s1 = Some ((), s2)" "good s2 ES2 AS2"
    and t2: "\<And>ra' r8'. tally s2 ES2 AS2 ra' r8' = tally s1 ES1 AS1 ra' r8' + of_nat (count_list cs (ra', r8'))"
    using Cons.IH [OF g1 1(3)] by (auto simp: wp_iff)
  have "tally s2 ES2 AS2 ra' r8' = tally s ES AS ra' r8' + of_nat (count_list (c # cs) (ra', r8'))" for ra' r8'
    by (auto simp: t2 t1 c)
  moreover have "mcount_all L (c # cs) s = Some ((), s2)" by (simp add: c 1 2)
  ultimately show ?case unfolding wp_iff using 2(2) by blast
qed auto

text \<open>
  C28. Profiling counts every call.  From a state without records and with enough heap, any sequence
  of calls of \<open>mcount\<close> returns, and afterwards the record of a callee and a caller holds how often
  the pair came, modulo 2 to the 32; a pair that never came counts 0.
\<close>

theorem profile_counts_calls:
  fixes s :: "('h, 'x) gmon_st_scheme"
  assumes "\<And>b. mcount_fn_head s b = 0" "mcount_slab_size s = 0" "mcount_slab_ptr s = 0" "heap_end s \<noteq> 0"
    and "unat (gl_heap_limit L) < 2 ^ 30"
    and "unat (heap_end s) + hist_bytes L + 3 + 2046 * length cs \<le> unat (gl_heap_limit L)"
  shows "wp (mcount_all L cs s) (\<lambda>_ s'. \<forall>ra r8. recorded s' ra r8 = Some (of_nat (count_list cs (ra, r8))))"
proof -
  have "good s (\<lambda>_. []) (\<lambda>_. [])" using assms by (simp add: good_def graph_def slab_def blocks_def)
  moreover have "room L (length cs) s" using assms by (simp add: room_def)
  ultimately have "wp (mcount_all L cs s) (\<lambda>_ s'. \<exists>ES' AS'. good s' ES' AS' \<and>
       (\<forall>ra r8. tally s' ES' AS' ra r8 = tally s (\<lambda>_. []) (\<lambda>_. []) ra r8 + of_nat (count_list cs (ra, r8))))"
    by (rule mcount_all_counts)
  then show ?thesis
    by (elim wp_mono) (auto simp: recorded_tally tally_def)
qed

text \<open>Two callers of one function, which is called three times; the tick rate is still 0.\<close>

definition demo_gmon :: "unit gmon_st" where
  "demo_gmon = \<lparr>hw = (), trace = [], cpu_status = 1, cpu_ienable = 0,
     alt_irq_active = 0, alt_priority_mask = -1, alt_irq = (\<lambda>_. \<lparr>ih_handler = 0, ih_context = 0\<rparr>),
     alt_instruction_exception_handler = 0, alt_fd_list = alt_fd_list_init 0x40, alt_max_fd = -1,
     errno = 0, links = \<lparr>ll_next = (\<lambda>x. x), ll_prev = (\<lambda>x. x)\<rparr>, bytes = (\<lambda>_. 0), st_mode = (\<lambda>_. 0),
     tick_rate = 0, nticks = 0,
     alarms = (\<lambda>_. \<lparr>al_time = 0, al_callback = 0, al_rollover = 0, al_context = 0\<rparr>),
     alt_resettime = \<lparr>tv_sec = 0, tv_usec = 0\<rparr>, alt_timezone = (0, 0), heap_end = 0x1001,
     fn_arcs = (\<lambda>_. \<lparr>arc_next = 0, arc_from_pc = 0, arc_count = 0\<rparr>),
     fn_entries = (\<lambda>_. \<lparr>fn_next = 0, fn_self_pc = 0, fn_arc_head = 0\<rparr>),
     pcsample_need_init = 1, mcount_fn_head = (\<lambda>_. 0), s_pcsamples = 0, alt_gmon_data = [],
     mcount_slab_ptr = 0, mcount_slab_size = 0\<rparr>"

definition demo_link :: gmon_link where
  "demo_link = \<lparr>gl_stext = 0x100, gl_etext = 0x150, gl_heap_limit = 0x8000, gl_alarm_list = 0x20, gl_alarm = 0x30, gl_pcsample = 0x120\<rparr>"

theorem profile_counts_calls_witness:
  "wp (mcount_all demo_link [(0x110, 0x124), (0x110, 0x130), (0x110, 0x124)] demo_gmon) (\<lambda>_ s'.
     recorded s' 0x110 0x124 = Some 2 \<and> recorded s' 0x110 0x130 = Some 1 \<and> recorded s' 0x130 0x110 = Some 0)"
proof -
  have "wp (mcount_all demo_link [(0x110, 0x124), (0x110, 0x130), (0x110, 0x124)] demo_gmon) (\<lambda>_ s'. \<forall>ra r8.
      recorded s' ra r8 = Some (of_nat (count_list [(0x110, 0x124), (0x110, 0x130), (0x110, 0x124)] (ra, r8))))"
    by (rule profile_counts_calls) (simp_all add: demo_gmon_def demo_link_def hist_bytes_def)
  then show ?thesis by (rule wp_mono) simp
qed

text \<open>Without heap the address of a new record is -1, the error value of \<open>sbrk\<close>.\<close>

lemma allocate_ignores_failure:
  assumes "gl_heap_limit L < ((heap_end s + 3) AND NOT 3) + 1020" "mcount_slab_size s < n"
  shows "\<exists>s'. mcount_allocate L n s = Some (-1, s')"
  using assms by (simp add: mcount_allocate_def ALT_SBRK_def prog_defs Let_def)

section \<open>The sampler\<close>

lemma load_store_u16: "load_u16 (store_u16 m a v) a = v"
proof -
  have "a + 1 \<noteq> a" by simp
  then show ?thesis unfolding load_u16_def store_u16_def
    by (intro bit_eqI) (auto simp: bit_simps)
qed

lemma store_u16_other: "x \<noteq> a \<Longrightarrow> x \<noteq> a + 1 \<Longrightarrow> store_u16 m a v x = m x"
  by (simp add: store_u16_def)

text \<open>
  A sample adds one to the halfword of the bucket that the program counter lies in and changes
  nothing else; the halfword is inside the histogram exactly when the counter is below the last
  multiple of 32 bytes of the text.  In the rest of a text section whose length is no multiple of
  32, it is the first halfword after the buffer that is changed.
\<close>

theorem pcsample_bucket:
  fixes s :: "('h, 'x) gmon_st_scheme"
  assumes pc: "gl_stext L \<le> pc" "pc < gl_etext L" and p: "s_pcsamples s \<noteq> 0"
  defines "d \<equiv> unat pc - unat (gl_stext L)" and "n \<equiv> (unat (gl_etext L) - unat (gl_stext L)) div 32"
  shows "\<exists>m. nios2_pcsample L pc s = Some (1, s\<lparr>bytes := m\<rparr>) \<and>
     (let a = s_pcsamples s + of_nat (2 * (d div 32)) in
        load_u16 m a = load_u16 (bytes s) a + 1 \<and> (\<forall>x. x \<noteq> a \<and> x \<noteq> a + 1 \<longrightarrow> m x = bytes s x)) \<and>
     hist_bytes L = 2 * n \<and>
     (if d < 32 * n then 2 * (d div 32) + 2 \<le> hist_bytes L else 2 * (d div 32) = hist_bytes L)"
proof -
  have u: "unat (pc - gl_stext L) = d" using pc(1) by (simp add: unat_sub d_def)
  have "gl_stext L \<le> gl_etext L" using pc by (simp add: order.strict_implies_order order.trans)
  then have e: "unat (gl_etext L - gl_stext L) = unat (gl_etext L) - unat (gl_stext L)" by (simp add: unat_sub)
  have lt: "d < unat (gl_etext L) - unat (gl_stext L)" using pc unfolding d_def word_le_nat_alt word_less_nat_alt by linarith
  have n: "unat ((gl_etext L - gl_stext L) div 32) = n" by (simp add: unat_div_distrib e n_def)
  have "n < 2 ^ 27" unfolding n_def using unsigned_less [of "gl_etext L", where 'a = nat] by simp
  then have h: "hist_bytes L = 2 * n"
    unfolding hist_bytes_def unat_word_ariths(2) n by simp
  have b: "(pc - gl_stext L) div 32 * 2 = of_nat (2 * (d div 32))"
  proof -
    have "(pc - gl_stext L) div 32 = of_nat (d div 32)"
      by (simp add: word_arith_nat_div u)
    then show ?thesis by simp
  qed
  define a where "a = s_pcsamples s + of_nat (2 * (d div 32))"
  have "nios2_pcsample L pc s = Some (1, s\<lparr>bytes := store_u16 (bytes s) a (load_u16 (bytes s) a + 1)\<rparr>)"
    using pc p by (simp only: nios2_pcsample_def Let_def b a_def [symmetric]) simp
  moreover have "if d < 32 * n then 2 * (d div 32) + 2 \<le> hist_bytes L else 2 * (d div 32) = hist_bytes L"
  proof -
    have "d div 32 \<le> n" using lt unfolding n_def by (intro div_le_mono) simp
    moreover have "d < 32 * n \<longleftrightarrow> d div 32 < n" by (simp add: div_less_iff_less_mult mult.commute)
    ultimately show ?thesis by (simp add: h)
  qed
  ultimately show ?thesis
    unfolding Let_def a_def [symmetric] using h by (intro exI conjI) (auto simp: load_store_u16 store_u16_other)
qed

text \<open>A text of 80 bytes has two buckets; a sample in its last 16 bytes changes the byte after them.\<close>

theorem pcsample_bucket_witness:
  "hist_bytes demo_link = 4 \<and>
   (\<exists>m. nios2_pcsample demo_link 0x148 (demo_gmon\<lparr>s_pcsamples := 0x1004\<rparr>) = Some (1, demo_gmon\<lparr>s_pcsamples := 0x1004, bytes := m\<rparr>) \<and>
     load_u16 m (0x1004 + 4) = 1)"
  using pcsample_bucket [of demo_link "0x148" "demo_gmon\<lparr>s_pcsamples := 0x1004\<rparr>"]
  by (auto simp: demo_link_def demo_gmon_def load_u16_def)

end
