(* ===== verification/HAL_Process.thy ===== *)
theory HAL_Process
  imports HAL_Boot HAL_Cache
begin

text \<open>
  The system calls around processes and names (\<open>HAL/src/alt_kill.c\<close>, \<open>alt_stat.c\<close>,
  \<open>alt_getpid.c\<close>, \<open>alt_wait.c\<close> and the calls a single process does not support), the buffered
  character output for semihosting (\<open>alt_putcharbuf.c\<close>), the ECC handler
  (\<open>alt_ecc_fatal_exception.c\<close>), and the classes of devices that this system has no instance of: DMA
  channels (\<open>HAL/inc/sys/alt_dma.h\<close>, \<open>alt_dma_dev.h\<close>, \<open>alt_dma_rxchan_open.c\<close>,
  \<open>alt_dma_txchan_open.c\<close>) and flash (\<open>alt_flash.h\<close>, \<open>alt_flash_dev.h\<close>, \<open>alt_flash_dev.c\<close>).
\<close>

section \<open>Signals\<close>

text \<open>Numbers of the C library's \<open>signal.h\<close> and \<open>errno.h\<close>.\<close>

abbreviation (input) SIGQUIT :: int where "SIGQUIT \<equiv> 3"
abbreviation (input) SIGILL :: int where "SIGILL \<equiv> 4"
abbreviation (input) SIGTRAP :: int where "SIGTRAP \<equiv> 5"
abbreviation (input) SIGABRT :: int where "SIGABRT \<equiv> 6"
abbreviation (input) SIGFPE :: int where "SIGFPE \<equiv> 8"
abbreviation (input) SIGKILL :: int where "SIGKILL \<equiv> 9"
abbreviation (input) SIGBUS :: int where "SIGBUS \<equiv> 10"
abbreviation (input) SIGSEGV :: int where "SIGSEGV \<equiv> 11"
abbreviation (input) SIGSYS :: int where "SIGSYS \<equiv> 12"
abbreviation (input) SIGPIPE :: int where "SIGPIPE \<equiv> 13"
abbreviation (input) SIGALRM :: int where "SIGALRM \<equiv> 14"
abbreviation (input) SIGTERM :: int where "SIGTERM \<equiv> 15"
abbreviation (input) SIGURG :: int where "SIGURG \<equiv> 16"
abbreviation (input) SIGCHLD :: int where "SIGCHLD \<equiv> 20"
abbreviation (input) SIGPOLL :: int where "SIGPOLL \<equiv> 23"
abbreviation (input) SIGXCPU :: int where "SIGXCPU \<equiv> 24"
abbreviation (input) SIGXFSZ :: int where "SIGXFSZ \<equiv> 25"
abbreviation (input) SIGVTALRM :: int where "SIGVTALRM \<equiv> 26"
abbreviation (input) SIGPROF :: int where "SIGPROF \<equiv> 27"
abbreviation (input) SIGUSR1 :: int where "SIGUSR1 \<equiv> 30"
abbreviation (input) SIGUSR2 :: int where "SIGUSR2 \<equiv> 31"
abbreviation (input) ESRCH :: int where "ESRCH \<equiv> 3"
abbreviation (input) ECHILD :: int where "ECHILD \<equiv> 10"

definition ALT_KILL :: "int \<Rightarrow> int \<Rightarrow> (int, ('h, 'x) hal_scheme) prog" where
  "ALT_KILL pid sig s = do {
     (status, s) \<leftarrow>
       (if pid \<le> 0 then
          (if sig = 0 then Some (0, s)
           else if sig \<in> {SIGABRT, SIGALRM, SIGFPE, SIGILL, SIGKILL, SIGPIPE, SIGQUIT, SIGSEGV, SIGTERM, SIGUSR1,
               SIGUSR2, SIGBUS, SIGPOLL, SIGPROF, SIGSYS, SIGTRAP, SIGVTALRM, SIGXCPU, SIGXFSZ} then do {
             (_, s) \<leftarrow> ALT_EXIT 0 s;
             Some (0, s)
           }
           else if sig \<in> {SIGCHLD, SIGURG} then Some (0, s)
           else Some (EINVAL, s))
        else Some (ESRCH, s));
     (if status \<noteq> 0 then Some (-1, set_errno status s) else Some (0, s))
   }"

section \<open>Calls on names and processes\<close>

definition ALT_STAT :: "('h, 'x) hal_scheme hal_env \<Rightarrow> u32 \<Rightarrow> u32 \<Rightarrow> u32 \<Rightarrow> (int, ('h, 'x) hal_scheme) prog" where
  "ALT_STAT E fname st mode s = do {
     (fd, s) \<leftarrow> ALT_OPEN E fname 0 mode s;
     (rc, s) \<leftarrow> ALT_FSTAT E fd st s;
     (_, s) \<leftarrow> ALT_CLOSE E fd s;
     Some (rc, s)
   }"

definition ALT_GETPID :: int where "ALT_GETPID = 0"

definition ALT_WAIT :: "u32 \<Rightarrow> (int, ('h, 'x) hal_scheme) prog" where
  "ALT_WAIT status s =
     (let s = s\<lparr>bytes := write_bytes (bytes s) status [0, 0, 0, 0]\<rparr> in Some (-1, set_errno ECHILD s))"

definition ALT_EXECVE :: "u32 \<Rightarrow> u32 \<Rightarrow> u32 \<Rightarrow> (int, ('h, 'x) hal_scheme) prog" where
  "ALT_EXECVE nm argv env s = Some (-1, set_errno ENOSYS s)"

definition ALT_FORK :: "(int, ('h, 'x) hal_scheme) prog" where
  "ALT_FORK s = Some (-1, set_errno ENOSYS s)"

definition ALT_LINK :: "u32 \<Rightarrow> u32 \<Rightarrow> (int, ('h, 'x) hal_scheme) prog" where
  "ALT_LINK existing new s = Some (-1, set_errno ENOSYS s)"

definition ALT_RENAME :: "u32 \<Rightarrow> u32 \<Rightarrow> (int, ('h, 'x) hal_scheme) prog" where
  "ALT_RENAME existing new s = Some (-1, set_errno ENOSYS s)"

definition ALT_UNLINK :: "u32 \<Rightarrow> (int, ('h, 'x) hal_scheme) prog" where
  "ALT_UNLINK nm s = Some (-1, set_errno ENOSYS s)"

section \<open>Buffered characters\<close>

text \<open>\<open>buf\<close> is the address of the buffer of \<open>ALT_PUTBUF_SIZE\<close> bytes; \<open>write\<close> is the system call.\<close>

record 'h putbuf_st = "'h hal" +
  fill_index :: u32

abbreviation (input) ALT_PUTBUF_SIZE :: u32 where "ALT_PUTBUF_SIZE \<equiv> 64"

definition alt_putbufflush :: "('h, 'x) putbuf_st_scheme hal_env \<Rightarrow> u32 \<Rightarrow> (int, ('h, 'x) putbuf_st_scheme) prog" where
  "alt_putbufflush E buf s = do {
     (results, s) \<leftarrow> ALT_WRITE E 1 buf (fill_index s) s;
     Some (results, s\<lparr>fill_index := 0\<rparr>)
   }"

definition alt_putcharbuf :: "('h, 'x) putbuf_st_scheme hal_env \<Rightarrow> u32 \<Rightarrow> int \<Rightarrow> (int, ('h, 'x) putbuf_st_scheme) prog" where
  "alt_putcharbuf E buf c s = do {
     let s = s\<lparr>bytes := (bytes s)(buf + fill_index s := word_of_int c)\<rparr>;
     let s = s\<lparr>fill_index := fill_index s + 1\<rparr>;
     (_, s) \<leftarrow> (if fill_index s \<ge> ALT_PUTBUF_SIZE then alt_putbufflush E buf s else Some (0, s));
     Some (c, s)
   }"

section \<open>The ECC handler\<close>

text \<open>\<open>var\<close> is the address of \<open>alt_exception_ecc_fatal_handler\<close>.\<close>

definition alt_ecc_fatal_exception_register :: "'h cache_ops \<Rightarrow> u32 \<Rightarrow> u32 \<Rightarrow> (unit, ('h, 'x) hal_scheme) prog" where
  "alt_ecc_fatal_exception_register C var handler s =
     (let s = s\<lparr>bytes := write_bytes (bytes s) var (map (\<lambda>i. ucast (drop_bit (8 * i) handler)) [0, 1, 2, 3])\<rparr>
      in alt_dcache_flush C var 4 s)"

section \<open>DMA channels\<close>

text \<open>
  The functions of a device are over any type of states; 0 is the null pointer.  \<open>send\<close>, \<open>prepare\<close>
  and the others get the channel first.
\<close>

record 's dma_txchan_dev =
  tx_space :: "u32 \<Rightarrow> (int, 's) prog"
  tx_dma_send :: "u32 \<Rightarrow> u32 \<Rightarrow> u32 \<Rightarrow> u32 \<Rightarrow> u32 \<Rightarrow> (int, 's) prog"
  tx_ioctl :: "u32 \<Rightarrow> int \<Rightarrow> u32 \<Rightarrow> (int, 's) prog"

record 's dma_rxchan_dev =
  rx_depth :: u32
  rx_prepare :: "u32 \<Rightarrow> u32 \<Rightarrow> u32 \<Rightarrow> u32 \<Rightarrow> u32 \<Rightarrow> (int, 's) prog"
  rx_ioctl :: "u32 \<Rightarrow> int \<Rightarrow> u32 \<Rightarrow> (int, 's) prog"

text \<open>\<open>lst\<close> is the list of registered channels; every device structure begins with its node and name.\<close>

definition alt_dma_txchan_open :: "'s hal_env \<Rightarrow> u32 \<Rightarrow> u32 \<Rightarrow> (u32, ('h, 'x) hal_scheme) prog" where
  "alt_dma_txchan_open E lst name s = do {
     dev \<leftarrow> alt_find_dev (bytes s) (\<lambda>d. dv_name (devs E d)) name lst (links s);
     Some (dev, if dev = 0 then set_errno ENODEV s else s)
   }"

definition alt_dma_rxchan_open :: "'s hal_env \<Rightarrow> u32 \<Rightarrow> u32 \<Rightarrow> (u32, ('h, 'x) hal_scheme) prog" where
  "alt_dma_rxchan_open E lst name s = do {
     dev \<leftarrow> alt_find_dev (bytes s) (\<lambda>d. dv_name (devs E d)) name lst (links s);
     Some (dev, if dev = 0 then set_errno ENODEV s else s)
   }"

definition alt_dma_txchan_close :: "u32 \<Rightarrow> (int, 's) prog" where
  "alt_dma_txchan_close dma s = Some (0, s)"

definition alt_dma_txchan_send :: "(u32 \<Rightarrow> 's dma_txchan_dev) \<Rightarrow> u32 \<Rightarrow> u32 \<Rightarrow> u32 \<Rightarrow> u32 \<Rightarrow> u32 \<Rightarrow> (int, 's) prog" where
  "alt_dma_txchan_send D dma src len done_fn handle s =
     (if dma \<noteq> 0 then tx_dma_send (D dma) dma src len done_fn handle s else Some (- ENODEV, s))"

definition alt_dma_txchan_space :: "(u32 \<Rightarrow> 's dma_txchan_dev) \<Rightarrow> u32 \<Rightarrow> (int, 's) prog" where
  "alt_dma_txchan_space D dma s = (if dma \<noteq> 0 then tx_space (D dma) dma s else Some (- ENODEV, s))"

definition alt_dma_txchan_ioctl :: "(u32 \<Rightarrow> 's dma_txchan_dev) \<Rightarrow> u32 \<Rightarrow> int \<Rightarrow> u32 \<Rightarrow> (int, 's) prog" where
  "alt_dma_txchan_ioctl D dma req arg s = (if dma \<noteq> 0 then tx_ioctl (D dma) dma req arg s else Some (- ENODEV, s))"

definition alt_dma_rxchan_close :: "u32 \<Rightarrow> (int, 's) prog" where
  "alt_dma_rxchan_close dma s = Some (0, s)"

definition alt_dma_rxchan_prepare :: "(u32 \<Rightarrow> 's dma_rxchan_dev) \<Rightarrow> u32 \<Rightarrow> u32 \<Rightarrow> u32 \<Rightarrow> u32 \<Rightarrow> u32 \<Rightarrow> (int, 's) prog" where
  "alt_dma_rxchan_prepare D dma data len done_fn handle s =
     (if dma \<noteq> 0 then rx_prepare (D dma) dma data len done_fn handle s else Some (- ENODEV, s))"

definition alt_dma_rxchan_ioctl :: "(u32 \<Rightarrow> 's dma_rxchan_dev) \<Rightarrow> u32 \<Rightarrow> int \<Rightarrow> u32 \<Rightarrow> (int, 's) prog" where
  "alt_dma_rxchan_ioctl D dma req arg s = (if dma \<noteq> 0 then rx_ioctl (D dma) dma req arg s else Some (- ENODEV, s))"

definition alt_dma_rxchan_depth :: "(u32 \<Rightarrow> 's dma_rxchan_dev) \<Rightarrow> u32 \<Rightarrow> u32" where
  "alt_dma_rxchan_depth D dma = rx_depth (D dma)"

definition alt_dma_txchan_reg :: "'s hal_env \<Rightarrow> u32 \<Rightarrow> u32 \<Rightarrow> (int, ('h, 'x) hal_scheme) prog" where
  "alt_dma_txchan_reg E lst chan s = alt_dev_llist_insert E chan lst s"

definition alt_dma_rxchan_reg :: "'s hal_env \<Rightarrow> u32 \<Rightarrow> u32 \<Rightarrow> (int, ('h, 'x) hal_scheme) prog" where
  "alt_dma_rxchan_reg E lst chan s = alt_dev_llist_insert E chan lst s"

section \<open>Flash\<close>

text \<open>\<open>open\<close> and \<open>close\<close> may be null; the other functions are called without a check.\<close>

record 's flash_dev =
  fl_open :: "(u32 \<Rightarrow> u32 \<Rightarrow> (u32, 's) prog) option"
  fl_close :: "(u32 \<Rightarrow> (int, 's) prog) option"
  fl_write :: "u32 \<Rightarrow> int \<Rightarrow> u32 \<Rightarrow> int \<Rightarrow> (int, 's) prog"
  fl_read :: "u32 \<Rightarrow> int \<Rightarrow> u32 \<Rightarrow> int \<Rightarrow> (int, 's) prog"
  fl_get_info :: "u32 \<Rightarrow> u32 \<Rightarrow> u32 \<Rightarrow> (int, 's) prog"
  fl_erase_block :: "u32 \<Rightarrow> int \<Rightarrow> (int, 's) prog"
  fl_write_block :: "u32 \<Rightarrow> int \<Rightarrow> int \<Rightarrow> u32 \<Rightarrow> int \<Rightarrow> (int, 's) prog"
  fl_lock :: "u32 \<Rightarrow> u32 \<Rightarrow> (int, 's) prog"

definition alt_flash_device_register :: "'s hal_env \<Rightarrow> u32 \<Rightarrow> u32 \<Rightarrow> (int, ('h, 'x) hal_scheme) prog" where
  "alt_flash_device_register E lst fd s = alt_dev_llist_insert E fd lst s"

definition alt_flash_open_dev :: "('h, 'x) hal_scheme hal_env \<Rightarrow> (u32 \<Rightarrow> ('h, 'x) hal_scheme flash_dev) \<Rightarrow> u32 \<Rightarrow> u32
    \<Rightarrow> (u32, ('h, 'x) hal_scheme) prog" where
  "alt_flash_open_dev E F lst name s = do {
     dev \<leftarrow> alt_find_dev (bytes s) (\<lambda>d. dv_name (devs E d)) name lst (links s);
     (if dev \<noteq> 0 then
        (case fl_open (F dev) of Some f \<Rightarrow> f dev name s | None \<Rightarrow> Some (dev, s))
      else Some (dev, s))
   }"

definition alt_flash_close_dev :: "(u32 \<Rightarrow> 's flash_dev) \<Rightarrow> u32 \<Rightarrow> (unit, 's) prog" where
  "alt_flash_close_dev F fd s =
     (if fd \<noteq> 0 then
        (case fl_close (F fd) of Some f \<Rightarrow> do { (_, s) \<leftarrow> f fd s; Some ((), s) } | None \<Rightarrow> Some ((), s))
      else Some ((), s))"

definition alt_lock_flash :: "(u32 \<Rightarrow> 's flash_dev) \<Rightarrow> u32 \<Rightarrow> u32 \<Rightarrow> (int, 's) prog" where
  "alt_lock_flash F fd sectors_to_lock s = fl_lock (F fd) fd sectors_to_lock s"

definition alt_write_flash :: "(u32 \<Rightarrow> 's flash_dev) \<Rightarrow> u32 \<Rightarrow> int \<Rightarrow> u32 \<Rightarrow> int \<Rightarrow> (int, 's) prog" where
  "alt_write_flash F fd off src_addr len s = fl_write (F fd) fd off src_addr len s"

definition alt_read_flash :: "(u32 \<Rightarrow> 's flash_dev) \<Rightarrow> u32 \<Rightarrow> int \<Rightarrow> u32 \<Rightarrow> int \<Rightarrow> (int, 's) prog" where
  "alt_read_flash F fd off dest_addr len s = fl_read (F fd) fd off dest_addr len s"

definition alt_get_flash_info :: "(u32 \<Rightarrow> 's flash_dev) \<Rightarrow> u32 \<Rightarrow> u32 \<Rightarrow> u32 \<Rightarrow> (int, 's) prog" where
  "alt_get_flash_info F fd info number_of_regions s = fl_get_info (F fd) fd info number_of_regions s"

definition alt_erase_flash_block :: "(u32 \<Rightarrow> 's flash_dev) \<Rightarrow> u32 \<Rightarrow> int \<Rightarrow> int \<Rightarrow> (int, 's) prog" where
  "alt_erase_flash_block F fd off len s = fl_erase_block (F fd) fd off s"

definition alt_write_flash_block :: "(u32 \<Rightarrow> 's flash_dev) \<Rightarrow> u32 \<Rightarrow> int \<Rightarrow> int \<Rightarrow> u32 \<Rightarrow> int \<Rightarrow> (int, 's) prog" where
  "alt_write_flash_block F fd block_offset data_offset data len s =
     fl_write_block (F fd) fd block_offset data_offset data len s"

end
