(* ===== verification/HAL_Process_Claims.thy ===== *)
theory HAL_Process_Claims
  imports HAL_Process HAL_FD_Claims
begin

text \<open>
  \<open>stat\<close> is an \<open>open\<close>, an \<open>fstat\<close> and a \<open>close\<close>: it leaves the descriptors as they were, and hides why
  an open failed.  What \<open>kill\<close> does for every process and signal, and what the buffered output loses.
\<close>

section \<open>Signals\<close>

lemma spin_forever_none: "spin_forever s = None"
proof -
  have "spin_forever s = Some y \<Longrightarrow> False" for y
    by (rule spin_forever.raw_induct [where P = "\<lambda>_ _. False"]) auto
  then show ?thesis by (cases "spin_forever s") auto
qed

text \<open>A deadly signal to the own process ends the program, which does not return.\<close>

lemma kill_outcome:
  "pid > 0 \<Longrightarrow> ALT_KILL pid sig s = Some (-1, set_errno ESRCH s)"
  "pid \<le> 0 \<Longrightarrow> sig \<in> {0, SIGCHLD, SIGURG} \<Longrightarrow> ALT_KILL pid sig s = Some (0, s)"
  "pid \<le> 0 \<Longrightarrow> sig = SIGKILL \<or> sig = SIGTERM \<or> sig = SIGABRT \<Longrightarrow> ALT_KILL pid sig s = None"
  "pid \<le> 0 \<Longrightarrow> sig < 0 \<or> 31 < sig \<Longrightarrow> ALT_KILL pid sig s = Some (-1, set_errno EINVAL s)"
  by (auto simp: ALT_KILL_def ALT_EXIT_def spin_forever_none)

section \<open>stat\<close>

text \<open>
  \<open>stat\<close> leaves every descriptor as it was, whatever the driver answers; and when the file
  cannot be opened it returns -1 with \<open>errno\<close> EBADFD, not the reason that \<open>open\<close> gave.
\<close>

theorem stat_keeps_descriptors:
  assumes dr: "\<And>d. driver_ok (devs E d)" and inv: "fd_inv s" and run: "ALT_STAT E fname st mode s = Some (rc, s')"
  shows "slot s' = slot s \<and>
    (\<exists>fd s1. ALT_OPEN E fname 0 mode s = Some (fd, s1) \<and> (fd < 0 \<longrightarrow> rc = -1 \<and> errno s' = EBADFD \<and> 0 < errno s1))"
proof -
  note dt = device_table.intro [of E, OF dr]
  obtain fd s1 s2 r where o: "ALT_OPEN E fname 0 mode s = Some (fd, s1)"
    and f: "ALT_FSTAT E fd st s1 = Some (rc, s2)" and c: "ALT_CLOSE E fd s2 = Some (r, s')"
    using run by (auto simp: ALT_STAT_def split: Option.bind_splits)
  have inv1: "fd_inv s1"
    by (rule pool_step_inv [OF device_table.fd_step_pool [OF dt step_open [OF o] inv] inv])
  have s2: "slot s2 = slot s1" "alt_max_fd s2 = alt_max_fd s1"
    using wlpD [OF f] device_table.vectored_calls(4) [OF dt, of fd st] unfolding keeps_pool_def by blast+
  then have inv2: "fd_inv s2" using fd_inv_cong inv1 by blast
  note cl = wlpD [OF c device_table.close_wlp [OF dt inv2]]
  from wlpD [OF o device_table.open_wlp [OF dt inv]]
  consider (failed) "fd = - 1" "slot s1 = slot s" "0 < errno s1"
    | (opened) k d fs where "fd = int k" "free_fd s k" "slot s1 = (slot s)(k := (d, open_flags 0 fs))" by blast
  then show ?thesis
  proof cases
    case failed
    moreover from this have "rc = -1" "s2 = set_errno EBADFD s1" using f by (simp_all add: ALT_FSTAT_def)
    moreover from calculation have "s' = set_errno EBADFD s2" using c by (simp add: ALT_CLOSE_def)
    ultimately show ?thesis using o by simp
  next
    case k: (opened k d fs)
    have b: "3 \<le> k" "k < 32" "slot s k = (0, 0)" using free_fd_inv [OF inv k(2)] by auto
    then have "slot s' = (slot s1)(k := (0, 0))" using cl k s2 by auto
    then show ?thesis using o k b by (auto simp: fun_upd_idem)
  qed
qed

lemma demo_stat: "\<exists>s'. ALT_STAT demo_env 0x100 0x200 0 demo_hal = Some (0, s')"
proof -
  obtain s1 where s1: "ALT_OPEN demo_env 0x100 0 0 demo_hal = Some (3, s1)" "slot s1 = (slot demo_hal)(3 := (0x40, ALT_FD_DEV))"
    by (rule demo_open)
  have "fd_dev (alt_fd_list s1 3) = 0x40" using s1(2) by (simp add: fst_slot [symmetric])
  then show ?thesis
    using s1(1) by (simp add: ALT_STAT_def ALT_FSTAT_def ALT_CLOSE_def fd_index_def dev_at_def demo_plain alt_release_fd_def)
      (simp add: demo_env_def null_env_def alt_dev_null_def)
qed

lemma demo_stat_unknown: "\<exists>s'. ALT_STAT demo_env 0x101 0x200 0 demo_hal = Some (-1, s')"
proof -
  have "find_name demo_env 0x101 demo_hal = Some (0, True)"
    using alt_find_dev_ring [OF demo_rings(1), of "bytes demo_hal" "0x101" "[]" "\<lambda>_. 0x100" "\<lambda>_. [0x61]"]
      alt_find_file_ring [OF demo_rings(2), of "bytes demo_hal" "0x101" "[]" "\<lambda>_. 0x100" "\<lambda>_. [0x61]"]
    by (simp add: find_name_def demo_env_def null_env_def alt_dev_null_def demo_hal_def)
  then show ?thesis
    by (simp add: ALT_STAT_def ALT_OPEN_def ALT_FSTAT_def ALT_CLOSE_def alt_release_fd_def)
qed

theorem stat_keeps_descriptors_witness:
  "(\<exists>s'. ALT_STAT demo_env 0x100 0x200 0 demo_hal = Some (0, s') \<and> slot s' = slot demo_hal) \<and>
   (\<exists>s'. ALT_STAT demo_env 0x101 0x200 0 demo_hal = Some (-1, s') \<and> slot s' = slot demo_hal)"
proof -
  obtain s1 s2 where "ALT_STAT demo_env 0x100 0x200 0 demo_hal = Some (0, s1)" "ALT_STAT demo_env 0x101 0x200 0 demo_hal = Some (-1, s2)"
    using demo_stat demo_stat_unknown by blast
  then show ?thesis
    using stat_keeps_descriptors [OF demo_drivers demo_inv] by blast
qed

section \<open>Buffered characters\<close>

text \<open>A flush empties the buffer, also when \<open>write\<close> has taken a part of it or failed.\<close>

lemma putbufflush_empties: "alt_putbufflush E buf s = Some (r, s') \<Longrightarrow> fill_index s' = 0"
  by (auto simp: alt_putbufflush_def split: Option.bind_splits)

lemma putcharbuf_stores:
  "fill_index s < 63 \<Longrightarrow> alt_putcharbuf E buf c s =
     Some (c, s\<lparr>bytes := (bytes s)(buf + fill_index s := word_of_int c), fill_index := fill_index s + 1\<rparr>)"
proof -
  assume "fill_index s < 63"
  then have "\<not> 64 \<le> fill_index s + 1" by unat_arith
  then show ?thesis by (simp add: alt_putcharbuf_def Let_def)
qed

section \<open>Flash\<close>

text \<open>What is opened by name is the device found, or what its own \<open>open\<close> returns.\<close>

lemma flash_open_unknown:
  "alt_find_dev (bytes s) (\<lambda>d. dv_name (devs E d)) name lst (links s) = Some 0 \<Longrightarrow>
   alt_flash_open_dev E F lst name s = Some (0, s) \<and> alt_flash_close_dev F 0 s = Some ((), s) \<and>
   alt_dma_txchan_open E lst name s = Some (0, set_errno ENODEV s)"
  by (simp add: alt_flash_open_dev_def alt_flash_close_dev_def alt_dma_txchan_open_def)

end
