(* ===== verification/Seq_Base.thy ===== *)
theory Seq_Base
  imports Bus_IO "HOL-Library.State_Monad"
begin

text \<open>
  Ground layer of the DDR3 calibration sequencer of the HPS
  (\<open>hps_isw_handoff/soc_system_hps_0\<close>): the register access of \<open>sdram_io.h\<close>, the addresses
  and constants of \<open>sequencer.h\<close>, \<open>sequencer_defines.h\<close> and \<open>system.h\<close> for this
  configuration (DDR3, hard PHY, one rank, one set of shadow registers, four DQS groups of
  eight bits), the two global structures, and the part of \<open>sequencer.c\<close> that keeps the
  register file and the first error.

  No function of the sequencer waits for the hardware, so each is a total program of the
  library's state monad: \<open>run_state f s\<close> is its result and the state after it.  All loops
  are loops over a list or recursive functions with a proved measure.
\<close>

section \<open>State\<close>

text \<open>\<open>gbl_t\<close> and \<open>param_t\<close> of \<open>sequencer.h\<close>; \<open>t_btfld\<close> is \<open>alt_u32\<close>.\<close>

record gbl_t =
  phy_debug_mode_flags :: u32
  curr_read_lat :: u32
  curr_write_lat :: u32
  error_substage :: u32
  error_stage :: u32
  error_group :: u32
  fom_in :: u32
  fom_out :: u32
  rw_wl_nop_cycles :: u32

record param_t =
  dm_correct_mask :: u32
  read_correct_mask :: u32
  read_correct_mask_vg :: u32
  write_correct_mask :: u32
  write_correct_mask_vg :: u32
  skip_ranks :: "u32 list"
  skip_groups :: u32
  skip_shadow_regs :: "u32 list"

text \<open>
  The machine: the hardware behind the APB port, the register accesses so far (by Avalon
  address, the one the code names; the code never looks at them), and the global variables.
\<close>

record 'h seq =
  sq_hw :: 'h
  sq_trace :: "io_event list"
  gbl :: gbl_t
  param :: param_t
  dyn_calib_steps :: u16
  skip_delay_mask :: u16

type_synonym ('h, 'a) sq = "('h seq, 'a) state"

text \<open>
  The hardware: \<open>read_register\<close> and \<open>write_register\<close> of the boot loader as a bus over APB
  addresses, and the addresses that its \<open>sdram.h\<close> gives to the blocks of the controller.
\<close>

record 'h sdram =
  sd_bus :: "'h bus"
  apb_base_scc_mgr :: u32
  apb_base_phy_mgr :: u32
  apb_base_rw_mgr :: u32
  apb_base_data_mgr :: u32
  apb_base_reg_file :: u32
  apb_base_mmr :: u32

abbreviation ret :: "'a \<Rightarrow> ('s, 'a) state" where "ret \<equiv> State_Monad.return"

abbreviation (input) reads :: "('s \<Rightarrow> 'a) \<Rightarrow> ('s, 'a) state" where
  "reads f \<equiv> State (\<lambda>s. (f s, s))"

abbreviation (input) changes :: "('s \<Rightarrow> 's) \<Rightarrow> ('s, unit) state" where
  "changes f \<equiv> State (\<lambda>s. ((), f s))"

section \<open>Addresses (system.h, sequencer.h)\<close>

abbreviation (input) "BASE_PHY_MGR \<equiv> 0x88000 :: u32"
abbreviation (input) "BASE_RW_MGR \<equiv> 0x90000 :: u32"
abbreviation (input) "BASE_DATA_MGR \<equiv> 0x98000 :: u32"
abbreviation (input) "BASE_SCC_MGR \<equiv> 0x58000 :: u32"
abbreviation (input) "BASE_REG_FILE \<equiv> 0x70000 :: u32"
abbreviation (input) "BASE_MMR \<equiv> 0xC0000 :: u32"

abbreviation (input) "RW_MGR_RUN_SINGLE_GROUP \<equiv> BASE_RW_MGR"
abbreviation (input) "RW_MGR_RUN_ALL_GROUPS \<equiv> BASE_RW_MGR + 0x400"
abbreviation (input) "RW_MGR_LOAD_CNTR_0 \<equiv> BASE_RW_MGR + 0x800"
abbreviation (input) "RW_MGR_LOAD_CNTR_1 \<equiv> BASE_RW_MGR + 0x804"
abbreviation (input) "RW_MGR_LOAD_CNTR_2 \<equiv> BASE_RW_MGR + 0x808"
abbreviation (input) "RW_MGR_LOAD_CNTR_3 \<equiv> BASE_RW_MGR + 0x80C"
abbreviation (input) "RW_MGR_LOAD_JUMP_ADD_0 \<equiv> BASE_RW_MGR + 0xC00"
abbreviation (input) "RW_MGR_LOAD_JUMP_ADD_1 \<equiv> BASE_RW_MGR + 0xC04"
abbreviation (input) "RW_MGR_LOAD_JUMP_ADD_2 \<equiv> BASE_RW_MGR + 0xC08"
abbreviation (input) "RW_MGR_LOAD_JUMP_ADD_3 \<equiv> BASE_RW_MGR + 0xC0C"
abbreviation (input) "RW_MGR_RESET_READ_DATAPATH \<equiv> BASE_RW_MGR + 0x1000"
abbreviation (input) "RW_MGR_SET_CS_AND_ODT_MASK \<equiv> BASE_RW_MGR + 0x1400"
abbreviation (input) "RW_MGR_INST_ROM_WRITE \<equiv> BASE_RW_MGR + 0x1800"
abbreviation (input) "RW_MGR_AC_ROM_WRITE \<equiv> BASE_RW_MGR + 0x1C00"

abbreviation (input) "REG_FILE_SIGNATURE \<equiv> BASE_REG_FILE"
abbreviation (input) "REG_FILE_DEBUG_DATA_ADDR \<equiv> BASE_REG_FILE + 0x04"
abbreviation (input) "REG_FILE_CUR_STAGE \<equiv> BASE_REG_FILE + 0x08"
abbreviation (input) "REG_FILE_FOM \<equiv> BASE_REG_FILE + 0x0C"
abbreviation (input) "REG_FILE_FAILING_STAGE \<equiv> BASE_REG_FILE + 0x10"
abbreviation (input) "REG_FILE_DEBUG1 \<equiv> BASE_REG_FILE + 0x14"
abbreviation (input) "REG_FILE_DEBUG2 \<equiv> BASE_REG_FILE + 0x18"
abbreviation (input) "REG_FILE_DTAPS_PER_PTAP \<equiv> BASE_REG_FILE + 0x1C"
abbreviation (input) "REG_FILE_TRK_SAMPLE_COUNT \<equiv> BASE_REG_FILE + 0x20"
abbreviation (input) "REG_FILE_TRK_LONGIDLE \<equiv> BASE_REG_FILE + 0x24"
abbreviation (input) "REG_FILE_DELAYS \<equiv> BASE_REG_FILE + 0x28"
abbreviation (input) "REG_FILE_TRK_RW_MGR_ADDR \<equiv> BASE_REG_FILE + 0x2C"
abbreviation (input) "REG_FILE_TRK_READ_DQS_WIDTH \<equiv> BASE_REG_FILE + 0x30"
abbreviation (input) "REG_FILE_TRK_RFSH \<equiv> BASE_REG_FILE + 0x34"
abbreviation (input) "CTRL_CONFIG_REG \<equiv> BASE_MMR"

abbreviation (input) "PHY_MGR_CMD_INC_VFIFO_HARD_PHY \<equiv> BASE_PHY_MGR + 0x04"
abbreviation (input) "PHY_MGR_CMD_FIFO_RESET \<equiv> BASE_PHY_MGR + 0x08"
abbreviation (input) "PHY_MGR_PHY_RLAT \<equiv> BASE_PHY_MGR + 0x4000"
abbreviation (input) "PHY_MGR_RESET_MEM_STBL \<equiv> BASE_PHY_MGR + 0x4004"
abbreviation (input) "PHY_MGR_MUX_SEL \<equiv> BASE_PHY_MGR + 0x4008"
abbreviation (input) "PHY_MGR_CAL_STATUS \<equiv> BASE_PHY_MGR + 0x400C"
abbreviation (input) "PHY_MGR_CAL_DEBUG_INFO \<equiv> BASE_PHY_MGR + 0x4010"
abbreviation (input) "PHY_MGR_AFI_WLAT \<equiv> BASE_PHY_MGR + 0x4018"

abbreviation (input) "DATA_MGR_MEM_T_WL \<equiv> BASE_DATA_MGR + 0x04"
abbreviation (input) "DATA_MGR_MEM_T_ADD \<equiv> BASE_DATA_MGR + 0x08"
abbreviation (input) "DATA_MGR_MEM_T_RL \<equiv> BASE_DATA_MGR + 0x0C"

abbreviation (input) "SCC_MGR_GROUP_COUNTER \<equiv> BASE_SCC_MGR"
abbreviation (input) "SCC_MGR_DQS_IN_DELAY \<equiv> BASE_SCC_MGR + 0x100"
abbreviation (input) "SCC_MGR_DQS_EN_PHASE \<equiv> BASE_SCC_MGR + 0x200"
abbreviation (input) "SCC_MGR_DQS_EN_DELAY \<equiv> BASE_SCC_MGR + 0x300"
abbreviation (input) "SCC_MGR_DQDQS_OUT_PHASE \<equiv> BASE_SCC_MGR + 0x400"
abbreviation (input) "SCC_MGR_OCT_OUT1_DELAY \<equiv> BASE_SCC_MGR + 0x500"
abbreviation (input) "SCC_MGR_IO_OUT1_DELAY \<equiv> BASE_SCC_MGR + 0x700"
abbreviation (input) "SCC_MGR_IO_IN_DELAY \<equiv> BASE_SCC_MGR + 0x900"
abbreviation (input) "SCC_MGR_HHP_GLOBALS \<equiv> BASE_SCC_MGR + 0xA00"
abbreviation (input) "SCC_MGR_HHP_RFILE \<equiv> BASE_SCC_MGR + 0xB00"
abbreviation (input) "SCC_MGR_AFI_CAL_INIT \<equiv> BASE_SCC_MGR + 0xD00"
abbreviation (input) "SCC_MGR_DQS_ENA \<equiv> BASE_SCC_MGR + 0xE00"
abbreviation (input) "SCC_MGR_DQS_IO_ENA \<equiv> BASE_SCC_MGR + 0xE04"
abbreviation (input) "SCC_MGR_DQ_ENA \<equiv> BASE_SCC_MGR + 0xE08"
abbreviation (input) "SCC_MGR_DM_ENA \<equiv> BASE_SCC_MGR + 0xE0C"
abbreviation (input) "SCC_MGR_UPD \<equiv> BASE_SCC_MGR + 0xE20"

section \<open>Constants of the configuration (sequencer_defines.h, sequencer.h)\<close>

abbreviation (input) "RW_MGR_MEM_NUMBER_OF_RANKS \<equiv> 1 :: u32"
abbreviation (input) "RW_MGR_MEM_NUMBER_OF_CS_PER_DIMM \<equiv> 1 :: u32"
abbreviation (input) "RW_MGR_MEM_CHIP_SELECT_WIDTH \<equiv> 1 :: u32"
abbreviation (input) "RW_MGR_MEM_ODT_WIDTH \<equiv> 1 :: u32"
abbreviation (input) "RW_MGR_MEM_ADDRESS_MIRRORING \<equiv> 0 :: u32"
abbreviation (input) "RDIMM \<equiv> False"
abbreviation (input) "LRDIMM \<equiv> False"
abbreviation (input) "NUM_RANKS_PER_SHADOW_REG \<equiv> 1 :: u32"
abbreviation (input) "RW_MGR_MEM_IF_READ_DQS_WIDTH \<equiv> 4 :: u32"
abbreviation (input) "RW_MGR_MEM_IF_WRITE_DQS_WIDTH \<equiv> 4 :: u32"
abbreviation (input) "RW_MGR_MEM_DQ_PER_READ_DQS \<equiv> 8 :: u32"
abbreviation (input) "RW_MGR_MEM_DQ_PER_WRITE_DQS \<equiv> 8 :: u32"
abbreviation (input) "RW_MGR_NUM_DM_PER_WRITE_GROUP \<equiv> 1 :: u32"
abbreviation (input) "RW_MGR_NUM_DQS_PER_WRITE_GROUP \<equiv> 1 :: u32"
abbreviation (input) "RW_MGR_MEM_VIRTUAL_GROUPS_PER_READ_DQS \<equiv> 1 :: u32"
abbreviation (input) "RW_MGR_MEM_VIRTUAL_GROUPS_PER_WRITE_DQS \<equiv> 1 :: u32"
abbreviation (input) "IO_DQS_EN_PHASE_MAX \<equiv> 7 :: u32"
abbreviation (input) "IO_DQDQS_OUT_PHASE_MAX \<equiv> 0 :: u32"
abbreviation (input) "IO_DQS_EN_DELAY_MAX \<equiv> 31 :: u32"
abbreviation (input) "IO_DQS_EN_DELAY_OFFSET \<equiv> 0 :: u32"
abbreviation (input) "IO_DELAY_PER_OPA_TAP \<equiv> 312 :: u32"
abbreviation (input) "IO_DELAY_PER_DCHAIN_TAP \<equiv> 25 :: u32"
abbreviation (input) "IO_DELAY_PER_DQS_EN_DCHAIN_TAP \<equiv> 25 :: u32"
abbreviation (input) "IO_IO_OUT2_DELAY_MAX \<equiv> 0 :: u32"
abbreviation (input) "IO_DQS_IN_RESERVE \<equiv> 4 :: u32"
abbreviation (input) "IO_DQS_OUT_RESERVE \<equiv> 4 :: u32"
abbreviation (input) "IO_DQ_OUT_RESERVE \<equiv> 0 :: u32"
abbreviation (input) "IO_DM_OUT_RESERVE \<equiv> 0 :: u32"
abbreviation (input) "VFIFO_SIZE \<equiv> 16 :: u32"

abbreviation (input) "CALIB_SKIP_DELAY_LOOPS \<equiv> 0x01 :: u32"
abbreviation (input) "CALIB_SKIP_DELAY_SWEEPS \<equiv> 0x04 :: u32"
abbreviation (input) "CALIB_SKIP_VFIFO \<equiv> 0x08 :: u32"
abbreviation (input) "CALIB_SKIP_LFIFO \<equiv> 0x10 :: u32"
abbreviation (input) "CALIB_SKIP_WRITES \<equiv> 0x40 :: u32"
abbreviation (input) "CALIB_SKIP_FULL_TEST \<equiv> 0x80 :: u32"
abbreviation (input) "CALIB_SKIP_ALL \<equiv> 0xF8 :: u32"
abbreviation (input) "STATIC_CALIB_STEPS \<equiv> CALIB_SKIP_FULL_TEST"

abbreviation (input) "CAL_STAGE_NIL \<equiv> 0 :: u32"
abbreviation (input) "CAL_STAGE_VFIFO \<equiv> 1 :: u32"
abbreviation (input) "CAL_STAGE_WLEVEL \<equiv> 2 :: u32"
abbreviation (input) "CAL_STAGE_LFIFO \<equiv> 3 :: u32"
abbreviation (input) "CAL_STAGE_WRITES \<equiv> 4 :: u32"
abbreviation (input) "CAL_STAGE_VFIFO_AFTER_WRITES \<equiv> 9 :: u32"
abbreviation (input) "CAL_SUBSTAGE_NIL \<equiv> 0 :: u32"
abbreviation (input) "CAL_SUBSTAGE_GUARANTEED_READ \<equiv> 1 :: u32"
abbreviation (input) "CAL_SUBSTAGE_DQS_EN_PHASE \<equiv> 2 :: u32"
abbreviation (input) "CAL_SUBSTAGE_VFIFO_CENTER \<equiv> 3 :: u32"
abbreviation (input) "CAL_SUBSTAGE_WRITES_CENTER \<equiv> 1 :: u32"
abbreviation (input) "CAL_SUBSTAGE_READ_LATENCY \<equiv> 1 :: u32"

abbreviation (input) "PHY_DEBUG_IN_DEBUG_MODE \<equiv> 0x01 :: u32"
abbreviation (input) "PHY_DEBUG_ENABLE_CAL_RPT \<equiv> 0x02 :: u32"
abbreviation (input) "PHY_DEBUG_SWEEP_ALL_GROUPS \<equiv> 0x08 :: u32"
abbreviation (input) "PHY_DEBUG_DISABLE_GUARANTEED_READ \<equiv> 0x10 :: u32"
abbreviation (input) "PHY_MGR_CAL_RESET \<equiv> 0 :: u32"
abbreviation (input) "PHY_MGR_CAL_SUCCESS \<equiv> 1 :: u32"
abbreviation (input) "PHY_MGR_CAL_FAIL \<equiv> 2 :: u32"

abbreviation (input) "RW_MGR_ODT_MODE_OFF \<equiv> 0 :: u32"
abbreviation (input) "RW_MGR_ODT_MODE_READ_WRITE \<equiv> 1 :: u32"
abbreviation (input) "RW_MGR_RANK_ALL \<equiv> 0 :: u32"
abbreviation (input) "PASS_ALL_BITS \<equiv> 1 :: u32"
abbreviation (input) "PASS_ONE_BIT \<equiv> 0 :: u32"
abbreviation (input) "NUM_READ_TESTS \<equiv> 7 :: u32"
abbreviation (input) "NUM_READ_PB_TESTS \<equiv> 7 :: u32"

section \<open>sdram_io.h\<close>

text \<open>The Avalon address of a register, moved to the APB window of its block.\<close>

definition AVL_TO_APB :: "'h sdram \<Rightarrow> u32 \<Rightarrow> u32" where
  "AVL_TO_APB B a =
     (if a AND 0xF8000 = BASE_PHY_MGR
      then apb_base_phy_mgr B OR (drop_bit 8 a AND 0x40) OR (a AND 0x3F)
      else if a AND 0xF8000 = BASE_RW_MGR then apb_base_rw_mgr B OR (a AND 0x1FFF)
      else if a AND 0xF8000 = BASE_DATA_MGR then apb_base_data_mgr B OR (a AND 0x7FF)
      else if a AND 0xF8000 = BASE_SCC_MGR then apb_base_scc_mgr B OR (a AND 0xFFF)
      else if a AND 0xF8000 = BASE_REG_FILE then apb_base_reg_file B OR (a AND 0x7FF)
      else if a AND 0xF8000 = BASE_MMR then apb_base_mmr B OR (a AND 0xFFF)
      else - 1)"

text \<open>\<open>IOWR_32DIRECT\<close> and \<open>IORD_32DIRECT\<close> of \<open>sdram_io.h\<close>.\<close>

definition sdr_wr :: "'h sdram \<Rightarrow> u32 \<Rightarrow> u32 \<Rightarrow> u32 \<Rightarrow> ('h, unit) sq" where
  "sdr_wr B base off d = changes (\<lambda>s.
     s\<lparr>sq_hw := bus_wr (sd_bus B) (AVL_TO_APB B (base + off)) d (sq_hw s),
       sq_trace := sq_trace s @ [Wr (base + off) d]\<rparr>)"

definition sdr_rd :: "'h sdram \<Rightarrow> u32 \<Rightarrow> u32 \<Rightarrow> ('h, u32) sq" where
  "sdr_rd B base off = State (\<lambda>s.
     let (v, h) = bus_rd (sd_bus B) (AVL_TO_APB B (base + off)) (sq_hw s)
     in (v, s\<lparr>sq_hw := h, sq_trace := sq_trace s @ [Rd (base + off) v]\<rparr>))"

section \<open>Loops\<close>

text \<open>\<open>for (i = a; i < b; i++)\<close> counts through \<open>a, ..., b - 1\<close>.\<close>

definition upto32 :: "nat \<Rightarrow> nat \<Rightarrow> u32 list" where
  "upto32 a b = map of_nat [a..<b]"

fun for_each :: "('a \<Rightarrow> ('s, unit) state) \<Rightarrow> 'a list \<Rightarrow> ('s, unit) state" where
  "for_each f [] = ret ()"
| "for_each f (x # xs) = do { f x; for_each f xs }"

text \<open>A loop that carries variables.\<close>

fun for_fold :: "('a \<Rightarrow> 'b \<Rightarrow> ('s, 'b) state) \<Rightarrow> 'a list \<Rightarrow> 'b \<Rightarrow> ('s, 'b) state" where
  "for_fold f [] b = ret b"
| "for_fold f (x # xs) b = do { b \<leftarrow> f x b; for_fold f xs b }"

section \<open>The first error and the register file (sequencer.c)\<close>

text \<open>\<open>TCLRPT_SET\<close> is empty in this build.\<close>

definition set_failing_group_stage :: "u32 \<Rightarrow> u32 \<Rightarrow> u32 \<Rightarrow> ('h, unit) sq" where
  "set_failing_group_stage grp stage substage = changes (\<lambda>s.
     if error_stage (gbl s) = CAL_STAGE_NIL
     then s\<lparr>gbl := (gbl s)\<lparr>error_substage := substage, error_stage := stage, error_group := grp\<rparr>\<rparr>
     else s)"

definition reg_file_set_group :: "'h sdram \<Rightarrow> u32 \<Rightarrow> ('h, unit) sq" where
  "reg_file_set_group B set_group = do {
     cur_stage_group \<leftarrow> sdr_rd B REG_FILE_CUR_STAGE 0;
     sdr_wr B REG_FILE_CUR_STAGE 0 (cur_stage_group AND 0x0000FFFF OR push_bit 16 set_group)
   }"

definition reg_file_set_stage :: "'h sdram \<Rightarrow> u32 \<Rightarrow> ('h, unit) sq" where
  "reg_file_set_stage B set_stage = do {
     cur_stage_group \<leftarrow> sdr_rd B REG_FILE_CUR_STAGE 0;
     sdr_wr B REG_FILE_CUR_STAGE 0 (cur_stage_group AND 0xFFFF0000 OR (set_stage AND 0xFF))
   }"

definition reg_file_set_sub_stage :: "'h sdram \<Rightarrow> u32 \<Rightarrow> ('h, unit) sq" where
  "reg_file_set_sub_stage B set_sub_stage = do {
     cur_stage_group \<leftarrow> sdr_rd B REG_FILE_CUR_STAGE 0;
     sdr_wr B REG_FILE_CUR_STAGE 0
       (cur_stage_group AND 0xFFFF00FF OR (push_bit 8 set_sub_stage AND 0xFF00))
   }"

definition initialize_reg_file :: "'h sdram \<Rightarrow> ('h, unit) sq" where
  "initialize_reg_file B = do {
     sdr_wr B REG_FILE_SIGNATURE 0 0x555504C9;
     sdr_wr B REG_FILE_DEBUG_DATA_ADDR 0 0;
     sdr_wr B REG_FILE_CUR_STAGE 0 0;
     sdr_wr B REG_FILE_FOM 0 0;
     sdr_wr B REG_FILE_FAILING_STAGE 0 0;
     sdr_wr B REG_FILE_DEBUG1 0 0;
     sdr_wr B REG_FILE_DEBUG2 0 0
   }"

end
