(* ===== verification/Seq_SCC.thy ===== *)
theory Seq_SCC
  imports Seq_Base
begin

text \<open>
  The scan chain manager (\<open>sequencer.h\<close>, \<open>sequencer.c\<close>): delays and phases of the data,
  strobe and mask pins, written to its register file and loaded into the pins when the
  pin's enable register and then \<open>SCC_MGR_UPD\<close> are written.

  This is the HPS build (\<open>HHP_HPS\<close>): writes to the second output delay are empty macros and
  its reads are 0.  With one set of shadow registers \<open>select_shadow_regs_for_update\<close> and
  \<open>select_curr_shadow_reg_using_rank\<close> are empty.  One rank per shadow register set: the
  loops over ranks run once, for rank 0.
\<close>

section \<open>Access macros (sequencer.h)\<close>

definition WRITE_SCC_DQS_IN_DELAY :: "'h sdram \<Rightarrow> u32 \<Rightarrow> u32 \<Rightarrow> ('h, unit) sq" where
  [prog_defs]: "WRITE_SCC_DQS_IN_DELAY B grp delay = sdr_wr B SCC_MGR_DQS_IN_DELAY (push_bit 2 grp) delay"

definition WRITE_SCC_DQS_EN_DELAY :: "'h sdram \<Rightarrow> u32 \<Rightarrow> u32 \<Rightarrow> ('h, unit) sq" where
  [prog_defs]: "WRITE_SCC_DQS_EN_DELAY B grp delay =
     sdr_wr B SCC_MGR_DQS_EN_DELAY (push_bit 2 grp) (delay + IO_DQS_EN_DELAY_OFFSET)"

definition WRITE_SCC_DQS_EN_PHASE :: "'h sdram \<Rightarrow> u32 \<Rightarrow> u32 \<Rightarrow> ('h, unit) sq" where
  [prog_defs]: "WRITE_SCC_DQS_EN_PHASE B grp phase = sdr_wr B SCC_MGR_DQS_EN_PHASE (push_bit 2 grp) phase"

definition WRITE_SCC_DQDQS_OUT_PHASE :: "'h sdram \<Rightarrow> u32 \<Rightarrow> u32 \<Rightarrow> ('h, unit) sq" where
  [prog_defs]: "WRITE_SCC_DQDQS_OUT_PHASE B grp phase =
     sdr_wr B SCC_MGR_DQDQS_OUT_PHASE (push_bit 2 grp) phase"

definition WRITE_SCC_OCT_OUT1_DELAY :: "'h sdram \<Rightarrow> u32 \<Rightarrow> u32 \<Rightarrow> ('h, unit) sq" where
  [prog_defs]: "WRITE_SCC_OCT_OUT1_DELAY B grp delay =
     sdr_wr B SCC_MGR_OCT_OUT1_DELAY (push_bit 2 grp) delay"

definition WRITE_SCC_OCT_OUT2_DELAY :: "u32 \<Rightarrow> u32 \<Rightarrow> ('h, unit) sq" where
  [prog_defs]: "WRITE_SCC_OCT_OUT2_DELAY grp delay = ret ()"

definition WRITE_SCC_DQ_OUT1_DELAY :: "'h sdram \<Rightarrow> u32 \<Rightarrow> u32 \<Rightarrow> ('h, unit) sq" where
  [prog_defs]: "WRITE_SCC_DQ_OUT1_DELAY B pin delay = sdr_wr B SCC_MGR_IO_OUT1_DELAY (push_bit 2 pin) delay"

definition WRITE_SCC_DQ_OUT2_DELAY :: "u32 \<Rightarrow> u32 \<Rightarrow> ('h, unit) sq" where
  [prog_defs]: "WRITE_SCC_DQ_OUT2_DELAY pin delay = ret ()"

definition WRITE_SCC_DQ_IN_DELAY :: "'h sdram \<Rightarrow> u32 \<Rightarrow> u32 \<Rightarrow> ('h, unit) sq" where
  [prog_defs]: "WRITE_SCC_DQ_IN_DELAY B pin delay = sdr_wr B SCC_MGR_IO_IN_DELAY (push_bit 2 pin) delay"

definition WRITE_SCC_HHP_EXTRAS :: "'h sdram \<Rightarrow> u32 \<Rightarrow> ('h, unit) sq" where
  [prog_defs]: "WRITE_SCC_HHP_EXTRAS B v = sdr_wr B SCC_MGR_HHP_GLOBALS 0 v"

definition WRITE_SCC_HHP_DQSE_MAP :: "'h sdram \<Rightarrow> u32 \<Rightarrow> ('h, unit) sq" where
  [prog_defs]: "WRITE_SCC_HHP_DQSE_MAP B v = sdr_wr B SCC_MGR_HHP_GLOBALS 1 v"

definition WRITE_SCC_DQS_IO_OUT1_DELAY :: "'h sdram \<Rightarrow> u32 \<Rightarrow> ('h, unit) sq" where
  [prog_defs]: "WRITE_SCC_DQS_IO_OUT1_DELAY B delay =
     sdr_wr B SCC_MGR_IO_OUT1_DELAY (push_bit 2 RW_MGR_MEM_DQ_PER_WRITE_DQS) delay"

definition WRITE_SCC_DQS_IO_OUT2_DELAY :: "u32 \<Rightarrow> ('h, unit) sq" where
  [prog_defs]: "WRITE_SCC_DQS_IO_OUT2_DELAY delay = ret ()"

definition WRITE_SCC_DQS_IO_IN_DELAY :: "'h sdram \<Rightarrow> u32 \<Rightarrow> ('h, unit) sq" where
  [prog_defs]: "WRITE_SCC_DQS_IO_IN_DELAY B delay =
     sdr_wr B SCC_MGR_IO_IN_DELAY (push_bit 2 RW_MGR_MEM_DQ_PER_WRITE_DQS) delay"

definition WRITE_SCC_DM_IO_OUT1_DELAY :: "'h sdram \<Rightarrow> u32 \<Rightarrow> u32 \<Rightarrow> ('h, unit) sq" where
  [prog_defs]: "WRITE_SCC_DM_IO_OUT1_DELAY B pin delay =
     sdr_wr B SCC_MGR_IO_OUT1_DELAY (push_bit 2 (RW_MGR_MEM_DQ_PER_WRITE_DQS + 1 + pin)) delay"

definition WRITE_SCC_DM_IO_OUT2_DELAY :: "u32 \<Rightarrow> u32 \<Rightarrow> ('h, unit) sq" where
  [prog_defs]: "WRITE_SCC_DM_IO_OUT2_DELAY pin delay = ret ()"

definition WRITE_SCC_DM_IO_IN_DELAY :: "'h sdram \<Rightarrow> u32 \<Rightarrow> u32 \<Rightarrow> ('h, unit) sq" where
  [prog_defs]: "WRITE_SCC_DM_IO_IN_DELAY B pin delay =
     sdr_wr B SCC_MGR_IO_IN_DELAY (push_bit 2 (RW_MGR_MEM_DQ_PER_WRITE_DQS + 1 + pin)) delay"

definition READ_SCC_DQS_IN_DELAY :: "'h sdram \<Rightarrow> u32 \<Rightarrow> ('h, u32) sq" where
  [prog_defs]: "READ_SCC_DQS_IN_DELAY B grp = sdr_rd B SCC_MGR_DQS_IN_DELAY (push_bit 2 grp)"

definition READ_SCC_DQ_OUT1_DELAY :: "'h sdram \<Rightarrow> u32 \<Rightarrow> ('h, u32) sq" where
  [prog_defs]: "READ_SCC_DQ_OUT1_DELAY B pin = sdr_rd B SCC_MGR_IO_OUT1_DELAY (push_bit 2 pin)"

definition READ_SCC_DQ_IN_DELAY :: "'h sdram \<Rightarrow> u32 \<Rightarrow> ('h, u32) sq" where
  [prog_defs]: "READ_SCC_DQ_IN_DELAY B pin = sdr_rd B SCC_MGR_IO_IN_DELAY (push_bit 2 pin)"

definition READ_SCC_DQS_IO_OUT1_DELAY :: "'h sdram \<Rightarrow> ('h, u32) sq" where
  [prog_defs]: "READ_SCC_DQS_IO_OUT1_DELAY B =
     sdr_rd B SCC_MGR_IO_OUT1_DELAY (push_bit 2 RW_MGR_MEM_DQ_PER_WRITE_DQS)"

text \<open>\<open>READ_SCC_DQ_OUT2_DELAY\<close>, \<open>READ_SCC_DM_IO_OUT2_DELAY\<close>, \<open>READ_SCC_DQS_IO_OUT2_DELAY\<close> and
  \<open>READ_SCC_OCT_OUT2_DELAY\<close> are the constant 0.\<close>

abbreviation (input) READ_SCC_OUT2_DELAY :: u32 where "READ_SCC_OUT2_DELAY \<equiv> 0"

section \<open>One register at a time\<close>

definition scc_upd :: "'h sdram \<Rightarrow> ('h, unit) sq" where
  [prog_defs]: "scc_upd B = sdr_wr B SCC_MGR_UPD 0 0"

definition scc_mgr_initialize :: "'h sdram \<Rightarrow> ('h, unit) sq" where
  "scc_mgr_initialize B =
     for_each (\<lambda>i. sdr_wr B SCC_MGR_HHP_RFILE (push_bit 2 i) 0) (upto32 0 16)"

definition scc_mgr_set_dqs_bus_in_delay :: "'h sdram \<Rightarrow> u32 \<Rightarrow> u32 \<Rightarrow> ('h, unit) sq" where
  [prog_defs]: "scc_mgr_set_dqs_bus_in_delay B read_group delay = WRITE_SCC_DQS_IN_DELAY B read_group delay"

definition scc_mgr_set_dqs_io_in_delay :: "'h sdram \<Rightarrow> u32 \<Rightarrow> u32 \<Rightarrow> ('h, unit) sq" where
  [prog_defs]: "scc_mgr_set_dqs_io_in_delay B write_group delay = WRITE_SCC_DQS_IO_IN_DELAY B delay"

definition scc_mgr_set_dqs_en_phase :: "'h sdram \<Rightarrow> u32 \<Rightarrow> u32 \<Rightarrow> ('h, unit) sq" where
  [prog_defs]: "scc_mgr_set_dqs_en_phase B read_group phase = WRITE_SCC_DQS_EN_PHASE B read_group phase"

definition scc_mgr_set_dqs_en_phase_all_ranks :: "'h sdram \<Rightarrow> u32 \<Rightarrow> u32 \<Rightarrow> ('h, unit) sq" where
  "scc_mgr_set_dqs_en_phase_all_ranks B read_group phase = for_each (\<lambda>r. do {
     scc_mgr_set_dqs_en_phase B read_group phase;
     if r = 0 then do { sdr_wr B SCC_MGR_DQS_ENA 0 read_group; scc_upd B } else ret ()
   }) (upto32 0 1)"

definition scc_mgr_set_dqdqs_output_phase :: "'h sdram \<Rightarrow> u32 \<Rightarrow> u32 \<Rightarrow> ('h, unit) sq" where
  [prog_defs]: "scc_mgr_set_dqdqs_output_phase B write_group phase =
     WRITE_SCC_DQDQS_OUT_PHASE B write_group phase"

definition scc_mgr_set_dqdqs_output_phase_all_ranks :: "'h sdram \<Rightarrow> u32 \<Rightarrow> u32 \<Rightarrow> ('h, unit) sq" where
  "scc_mgr_set_dqdqs_output_phase_all_ranks B write_group phase = for_each (\<lambda>r. do {
     scc_mgr_set_dqdqs_output_phase B write_group phase;
     if r = 0 then do { sdr_wr B SCC_MGR_DQS_ENA 0 write_group; scc_upd B } else ret ()
   }) (upto32 0 1)"

definition scc_mgr_set_dqs_en_delay :: "'h sdram \<Rightarrow> u32 \<Rightarrow> u32 \<Rightarrow> ('h, unit) sq" where
  [prog_defs]: "scc_mgr_set_dqs_en_delay B read_group delay = WRITE_SCC_DQS_EN_DELAY B read_group delay"

definition scc_mgr_set_dqs_en_delay_all_ranks :: "'h sdram \<Rightarrow> u32 \<Rightarrow> u32 \<Rightarrow> ('h, unit) sq" where
  "scc_mgr_set_dqs_en_delay_all_ranks B read_group delay = for_each (\<lambda>r. do {
     scc_mgr_set_dqs_en_delay B read_group delay;
     sdr_wr B SCC_MGR_DQS_ENA 0 read_group;
     scc_upd B
   }) (upto32 0 1)"

text \<open>The read groups of a write group: \<open>w * 4 / 4\<close> up to, not including, \<open>(w + 1) * 4 / 4\<close>.\<close>

definition read_groups_of :: "u32 \<Rightarrow> u32 list" where
  "read_groups_of write_group =
     upto32 (unat (write_group * RW_MGR_MEM_IF_READ_DQS_WIDTH div RW_MGR_MEM_IF_WRITE_DQS_WIDTH))
            (unat ((write_group + 1) * RW_MGR_MEM_IF_READ_DQS_WIDTH div RW_MGR_MEM_IF_WRITE_DQS_WIDTH))"

definition scc_mgr_set_oct_out1_delay :: "'h sdram \<Rightarrow> u32 \<Rightarrow> u32 \<Rightarrow> ('h, unit) sq" where
  "scc_mgr_set_oct_out1_delay B write_group delay =
     for_each (\<lambda>read_group. WRITE_SCC_OCT_OUT1_DELAY B read_group delay) (read_groups_of write_group)"

definition scc_mgr_set_oct_out2_delay :: "u32 \<Rightarrow> u32 \<Rightarrow> ('h, unit) sq" where
  "scc_mgr_set_oct_out2_delay write_group delay =
     for_each (\<lambda>read_group. WRITE_SCC_OCT_OUT2_DELAY read_group delay) (read_groups_of write_group)"

definition scc_mgr_set_dq_out1_delay :: "'h sdram \<Rightarrow> u32 \<Rightarrow> u32 \<Rightarrow> u32 \<Rightarrow> ('h, unit) sq" where
  [prog_defs]: "scc_mgr_set_dq_out1_delay B write_group dq_in_group delay =
     WRITE_SCC_DQ_OUT1_DELAY B dq_in_group delay"

definition scc_mgr_set_dq_out2_delay :: "u32 \<Rightarrow> u32 \<Rightarrow> u32 \<Rightarrow> ('h, unit) sq" where
  [prog_defs]: "scc_mgr_set_dq_out2_delay write_group dq_in_group delay =
     WRITE_SCC_DQ_OUT2_DELAY dq_in_group delay"

definition scc_mgr_set_dq_in_delay :: "'h sdram \<Rightarrow> u32 \<Rightarrow> u32 \<Rightarrow> u32 \<Rightarrow> ('h, unit) sq" where
  [prog_defs]: "scc_mgr_set_dq_in_delay B write_group dq_in_group delay =
     WRITE_SCC_DQ_IN_DELAY B dq_in_group delay"

definition scc_mgr_set_hhp_extras :: "'h sdram \<Rightarrow> ('h, unit) sq" where
  "scc_mgr_set_hhp_extras B =
     WRITE_SCC_HHP_EXTRAS B (push_bit 8 0 OR push_bit 7 0 OR push_bit 5 1 OR push_bit 2 1 OR
       push_bit 1 1 OR push_bit 0 1)"

definition scc_mgr_set_hhp_dqse_map :: "'h sdram \<Rightarrow> ('h, unit) sq" where
  "scc_mgr_set_hhp_dqse_map B = WRITE_SCC_HHP_DQSE_MAP B 0"

definition scc_mgr_set_dqs_out1_delay :: "'h sdram \<Rightarrow> u32 \<Rightarrow> u32 \<Rightarrow> ('h, unit) sq" where
  [prog_defs]: "scc_mgr_set_dqs_out1_delay B write_group delay = WRITE_SCC_DQS_IO_OUT1_DELAY B delay"

definition scc_mgr_set_dqs_out2_delay :: "u32 \<Rightarrow> u32 \<Rightarrow> ('h, unit) sq" where
  [prog_defs]: "scc_mgr_set_dqs_out2_delay write_group delay = WRITE_SCC_DQS_IO_OUT2_DELAY delay"

definition scc_mgr_set_dm_out1_delay :: "'h sdram \<Rightarrow> u32 \<Rightarrow> u32 \<Rightarrow> u32 \<Rightarrow> ('h, unit) sq" where
  [prog_defs]: "scc_mgr_set_dm_out1_delay B write_group dm delay = WRITE_SCC_DM_IO_OUT1_DELAY B dm delay"

definition scc_mgr_set_dm_out2_delay :: "u32 \<Rightarrow> u32 \<Rightarrow> u32 \<Rightarrow> ('h, unit) sq" where
  [prog_defs]: "scc_mgr_set_dm_out2_delay write_group dm delay = WRITE_SCC_DM_IO_OUT2_DELAY dm delay"

definition scc_mgr_set_dm_in_delay :: "'h sdram \<Rightarrow> u32 \<Rightarrow> u32 \<Rightarrow> u32 \<Rightarrow> ('h, unit) sq" where
  [prog_defs]: "scc_mgr_set_dm_in_delay B write_group dm delay = WRITE_SCC_DM_IO_IN_DELAY B dm delay"

section \<open>Loading the scan chains\<close>

definition scc_mgr_load_dqs :: "'h sdram \<Rightarrow> u32 \<Rightarrow> ('h, unit) sq" where
  [prog_defs]: "scc_mgr_load_dqs B dqs = sdr_wr B SCC_MGR_DQS_ENA 0 dqs"

definition scc_mgr_load_dqs_io :: "'h sdram \<Rightarrow> ('h, unit) sq" where
  [prog_defs]: "scc_mgr_load_dqs_io B = sdr_wr B SCC_MGR_DQS_IO_ENA 0 0"

definition scc_mgr_load_dq :: "'h sdram \<Rightarrow> u32 \<Rightarrow> ('h, unit) sq" where
  [prog_defs]: "scc_mgr_load_dq B dq_in_group = sdr_wr B SCC_MGR_DQ_ENA 0 dq_in_group"

definition scc_mgr_load_dm :: "'h sdram \<Rightarrow> u32 \<Rightarrow> ('h, unit) sq" where
  [prog_defs]: "scc_mgr_load_dm B dm = sdr_wr B SCC_MGR_DM_ENA 0 dm"

definition scc_mgr_load_dqs_for_write_group :: "'h sdram \<Rightarrow> u32 \<Rightarrow> ('h, unit) sq" where
  "scc_mgr_load_dqs_for_write_group B write_group =
     for_each (\<lambda>read_group. sdr_wr B SCC_MGR_DQS_ENA 0 read_group) (read_groups_of write_group)"

section \<open>Whole groups\<close>

definition scc_mgr_zero_all :: "'h sdram \<Rightarrow> ('h, unit) sq" where
  "scc_mgr_zero_all B = for_each (\<lambda>r. do {
     for_each (\<lambda>i. do {
       scc_mgr_set_dqs_bus_in_delay B i IO_DQS_IN_RESERVE;
       scc_mgr_set_dqs_en_phase B i 0;
       scc_mgr_set_dqs_en_delay B i 0
     }) (upto32 0 4);
     for_each (\<lambda>i. do {
       scc_mgr_set_dqdqs_output_phase B i 0;
       scc_mgr_set_oct_out1_delay B i IO_DQS_OUT_RESERVE
     }) (upto32 0 4);
     sdr_wr B SCC_MGR_DQS_ENA 0 0xFF;
     scc_upd B
   }) (upto32 0 1)"

definition scc_set_bypass_mode :: "'h sdram \<Rightarrow> u32 \<Rightarrow> u32 \<Rightarrow> ('h, unit) sq" where
  "scc_set_bypass_mode B write_group mode = do {
     (if write_group = 0 then scc_mgr_set_hhp_extras B else ret ());
     sdr_wr B SCC_MGR_DQ_ENA 0 0xFF;
     sdr_wr B SCC_MGR_DM_ENA 0 0xFF;
     sdr_wr B SCC_MGR_DQS_IO_ENA 0 0;
     sdr_wr B SCC_MGR_DQS_ENA 0 write_group;
     scc_upd B
   }"

definition scc_mgr_zero_group :: "'h sdram \<Rightarrow> u32 \<Rightarrow> u32 \<Rightarrow> bool \<Rightarrow> ('h, unit) sq" where
  "scc_mgr_zero_group B write_group test_begin out_only = for_each (\<lambda>r. do {
     for_each (\<lambda>i. do {
       scc_mgr_set_dq_out1_delay B write_group i 0;
       scc_mgr_set_dq_out2_delay write_group i IO_DQ_OUT_RESERVE;
       (if \<not> out_only then scc_mgr_set_dq_in_delay B write_group i 0 else ret ())
     }) (upto32 0 8);
     sdr_wr B SCC_MGR_DQ_ENA 0 0xFF;
     for_each (\<lambda>i. do {
       (if \<not> out_only then scc_mgr_set_dm_in_delay B write_group i 0 else ret ());
       scc_mgr_set_dm_out1_delay B write_group i 0;
       scc_mgr_set_dm_out2_delay write_group i IO_DM_OUT_RESERVE
     }) (upto32 0 1);
     sdr_wr B SCC_MGR_DM_ENA 0 0xFF;
     (if \<not> out_only then scc_mgr_set_dqs_io_in_delay B write_group 0 else ret ());
     scc_mgr_set_dqs_out1_delay B write_group IO_DQS_OUT_RESERVE;
     scc_mgr_set_oct_out1_delay B write_group IO_DQS_OUT_RESERVE;
     scc_mgr_load_dqs_for_write_group B write_group;
     sdr_wr B SCC_MGR_DQS_IO_ENA 0 0;
     scc_upd B
   }) (upto32 0 1)"

definition scc_mgr_apply_group_dq_in_delay :: "'h sdram \<Rightarrow> u32 \<Rightarrow> u32 \<Rightarrow> u32 \<Rightarrow> ('h, unit) sq" where
  "scc_mgr_apply_group_dq_in_delay B write_group group_bgn delay = for_each (\<lambda>i. do {
     scc_mgr_set_dq_in_delay B write_group (group_bgn + i) delay;
     scc_mgr_load_dq B (group_bgn + i)
   }) (upto32 0 8)"

text \<open>The counter \<open>p\<close> of the next loops runs beside \<open>i\<close> and is not used.\<close>

definition scc_mgr_apply_group_dq_out1_delay :: "'h sdram \<Rightarrow> u32 \<Rightarrow> u32 \<Rightarrow> u32 \<Rightarrow> ('h, unit) sq" where
  "scc_mgr_apply_group_dq_out1_delay B write_group group_bgn delay1 = for_each (\<lambda>i. do {
     scc_mgr_set_dq_out1_delay B write_group i delay1;
     scc_mgr_load_dq B i
   }) (upto32 0 8)"

definition scc_mgr_apply_group_dq_out2_delay :: "'h sdram \<Rightarrow> u32 \<Rightarrow> u32 \<Rightarrow> u32 \<Rightarrow> ('h, unit) sq" where
  "scc_mgr_apply_group_dq_out2_delay B write_group group_bgn delay2 = for_each (\<lambda>i. do {
     scc_mgr_set_dq_out2_delay write_group i delay2;
     scc_mgr_load_dq B i
   }) (upto32 0 8)"

definition scc_mgr_apply_group_dm_out1_delay :: "'h sdram \<Rightarrow> u32 \<Rightarrow> u32 \<Rightarrow> ('h, unit) sq" where
  "scc_mgr_apply_group_dm_out1_delay B write_group delay1 = for_each (\<lambda>i. do {
     scc_mgr_set_dm_out1_delay B write_group i delay1;
     scc_mgr_load_dm B i
   }) (upto32 0 1)"

definition scc_mgr_apply_group_dqs_io_and_oct_out1 :: "'h sdram \<Rightarrow> u32 \<Rightarrow> u32 \<Rightarrow> ('h, unit) sq" where
  "scc_mgr_apply_group_dqs_io_and_oct_out1 B write_group delay = do {
     scc_mgr_set_dqs_out1_delay B write_group delay;
     scc_mgr_load_dqs_io B;
     scc_mgr_set_oct_out1_delay B write_group delay;
     scc_mgr_load_dqs_for_write_group B write_group
   }"

definition scc_mgr_apply_group_dqs_io_and_oct_out2 :: "'h sdram \<Rightarrow> u32 \<Rightarrow> u32 \<Rightarrow> ('h, unit) sq" where
  "scc_mgr_apply_group_dqs_io_and_oct_out2 B write_group delay = do {
     scc_mgr_set_dqs_out2_delay write_group delay;
     scc_mgr_load_dqs_io B;
     scc_mgr_set_oct_out2_delay write_group delay;
     scc_mgr_load_dqs_for_write_group B write_group
   }"

text \<open>
  The gradual setters: one tap down, or up, per update (\<open>QDRII\<close> is 0: no wait for the DLL).
\<close>

function gradual_down :: "(u32 \<Rightarrow> ('h, unit) sq) \<Rightarrow> 'h sdram \<Rightarrow> u32 \<Rightarrow> u32 \<Rightarrow> ('h, u32) sq" where
  "gradual_down setter B delay d =
     (if d > delay then do {
        setter (d - 1);
        scc_upd B;
        gradual_down setter B delay (d - 1)
      } else ret d)"
  by pat_completeness auto
termination
  by (relation "measure (\<lambda>(_, _, _, d). unat d)")
     (auto intro!: unat_minus_one_less simp: word_less_nat_alt)

function gradual_up :: "(u32 \<Rightarrow> ('h, unit) sq) \<Rightarrow> 'h sdram \<Rightarrow> u32 \<Rightarrow> u32 \<Rightarrow> ('h, u32) sq" where
  "gradual_up setter B delay d =
     (if d < delay then do {
        setter (d + 1);
        scc_upd B;
        gradual_up setter B delay (d + 1)
      } else ret d)"
  by pat_completeness auto
termination
  by (relation "measure (\<lambda>(_, _, delay, d). unat delay - unat d)") (auto intro: unat_up_measure)

declare gradual_down.simps [simp del] gradual_up.simps [simp del]

definition scc_mgr_set_group_dqs_io_and_oct_out1_gradual :: "'h sdram \<Rightarrow> u32 \<Rightarrow> u32 \<Rightarrow> ('h, unit) sq" where
  "scc_mgr_set_group_dqs_io_and_oct_out1_gradual B write_group delay = do {
     d \<leftarrow> READ_SCC_DQS_IO_OUT1_DELAY B;
     d \<leftarrow> gradual_down (scc_mgr_apply_group_dqs_io_and_oct_out1 B write_group) B delay d;
     d \<leftarrow> gradual_up (scc_mgr_apply_group_dqs_io_and_oct_out1 B write_group) B delay d;
     ret ()
   }"

definition scc_mgr_set_group_dqs_io_and_oct_out2_gradual :: "'h sdram \<Rightarrow> u32 \<Rightarrow> u32 \<Rightarrow> ('h, unit) sq" where
  "scc_mgr_set_group_dqs_io_and_oct_out2_gradual B write_group delay = do {
     d \<leftarrow> ret READ_SCC_OUT2_DELAY;
     d \<leftarrow> gradual_down (scc_mgr_apply_group_dqs_io_and_oct_out2 B write_group) B delay d;
     d \<leftarrow> gradual_up (scc_mgr_apply_group_dqs_io_and_oct_out2 B write_group) B delay d;
     ret ()
   }"

definition scc_mgr_apply_group_all_out_delay :: "'h sdram \<Rightarrow> u32 \<Rightarrow> u32 \<Rightarrow> u32 \<Rightarrow> ('h, unit) sq" where
  "scc_mgr_apply_group_all_out_delay B write_group group_bgn delay = do {
     scc_mgr_apply_group_dq_out1_delay B write_group group_bgn delay;
     scc_mgr_apply_group_dm_out1_delay B write_group delay;
     scc_mgr_apply_group_dqs_io_and_oct_out1 B write_group delay
   }"

definition scc_mgr_apply_group_all_out_delay_all_ranks :: "'h sdram \<Rightarrow> u32 \<Rightarrow> u32 \<Rightarrow> u32 \<Rightarrow> ('h, unit) sq" where
  "scc_mgr_apply_group_all_out_delay_all_ranks B write_group group_bgn delay = for_each (\<lambda>r. do {
     scc_mgr_apply_group_all_out_delay B write_group group_bgn delay;
     scc_upd B
   }) (upto32 0 1)"

definition scc_mgr_apply_group_all_out_delay_add :: "'h sdram \<Rightarrow> u32 \<Rightarrow> u32 \<Rightarrow> u32 \<Rightarrow> ('h, unit) sq" where
  "scc_mgr_apply_group_all_out_delay_add B write_group group_bgn delay = do {
     let capped = (\<lambda>d :: u32. if d > IO_IO_OUT2_DELAY_MAX then IO_IO_OUT2_DELAY_MAX else d);
     for_each (\<lambda>i. do {
       let new_delay = READ_SCC_OUT2_DELAY + delay;
       scc_mgr_set_dq_out2_delay write_group i (capped new_delay);
       scc_mgr_load_dq B i
     }) (upto32 0 8);
     for_each (\<lambda>i. do {
       let new_delay = READ_SCC_OUT2_DELAY + delay;
       scc_mgr_set_dm_out2_delay write_group i (capped new_delay);
       scc_mgr_load_dm B i
     }) (upto32 0 1);
     let new_delay = READ_SCC_OUT2_DELAY + delay;
     (if new_delay > IO_IO_OUT2_DELAY_MAX
      then scc_mgr_set_dqs_out1_delay B write_group (new_delay - IO_IO_OUT2_DELAY_MAX) else ret ());
     scc_mgr_set_dqs_out2_delay write_group (capped new_delay);
     scc_mgr_load_dqs_io B;
     let new_delay = READ_SCC_OUT2_DELAY + delay;
     (if new_delay > IO_IO_OUT2_DELAY_MAX
      then scc_mgr_set_oct_out1_delay B write_group (new_delay - IO_IO_OUT2_DELAY_MAX) else ret ());
     scc_mgr_set_oct_out2_delay write_group (capped new_delay);
     scc_mgr_load_dqs_for_write_group B write_group
   }"

definition scc_mgr_apply_group_all_out_delay_add_all_ranks :: "'h sdram \<Rightarrow> u32 \<Rightarrow> u32 \<Rightarrow> u32 \<Rightarrow> ('h, unit) sq" where
  "scc_mgr_apply_group_all_out_delay_add_all_ranks B write_group group_bgn delay = for_each (\<lambda>r. do {
     scc_mgr_apply_group_all_out_delay_add B write_group group_bgn delay;
     scc_upd B
   }) (upto32 0 1)"

end
