(* ===== verification/Seq_RW.thy ===== *)
theory Seq_RW
  imports Seq_SCC
begin

text \<open>
  The read/write manager (\<open>sequencer.c\<close>): it runs micro-programs of its instruction ROM on
  the memory.  Delays, initialisation of the memory, hand-over, and the read and write
  tests that the calibration is built on: each test runs a pattern and reads from the
  manager, at its base address, which bits of the group came back wrong.
\<close>

section \<open>Micro-programs (sequencer_auto.h)\<close>

abbreviation (input) "INST_RETURN \<equiv> 0x01 :: u32"
abbreviation (input) "INST_IDLE_LOOP1 \<equiv> 0x7B :: u32"
abbreviation (input) "INST_IDLE_LOOP2 \<equiv> 0x7A :: u32"
abbreviation (input) "INST_INIT_RESET_0_CKE_0 \<equiv> 0x6F :: u32"
abbreviation (input) "INST_INIT_RESET_1_CKE_0 \<equiv> 0x74 :: u32"
abbreviation (input) "INST_MRS2_MIRR \<equiv> 0x0A :: u32"
abbreviation (input) "INST_MRS3_MIRR \<equiv> 0x0B :: u32"
abbreviation (input) "INST_MRS1_MIRR \<equiv> 0x09 :: u32"
abbreviation (input) "INST_MRS0_DLL_RESET_MIRR \<equiv> 0x08 :: u32"
abbreviation (input) "INST_MRS2 \<equiv> 0x04 :: u32"
abbreviation (input) "INST_MRS3 \<equiv> 0x05 :: u32"
abbreviation (input) "INST_MRS1 \<equiv> 0x03 :: u32"
abbreviation (input) "INST_MRS0_DLL_RESET \<equiv> 0x02 :: u32"
abbreviation (input) "INST_ZQCL \<equiv> 0x06 :: u32"
abbreviation (input) "INST_PRECHARGE_ALL \<equiv> 0x12 :: u32"
abbreviation (input) "INST_MRS0_USER \<equiv> 0x07 :: u32"
abbreviation (input) "INST_MRS0_USER_MIRR \<equiv> 0x0C :: u32"
abbreviation (input) "INST_GUARANTEED_READ \<equiv> 0x4C :: u32"
abbreviation (input) "INST_GUARANTEED_READ_CONT \<equiv> 0x54 :: u32"
abbreviation (input) "INST_CLEAR_DQS_ENABLE \<equiv> 0x49 :: u32"
abbreviation (input) "INST_GUARANTEED_WRITE \<equiv> 0x18 :: u32"
abbreviation (input) "INST_GUARANTEED_WRITE_WAIT0 \<equiv> 0x1B :: u32"
abbreviation (input) "INST_GUARANTEED_WRITE_WAIT1 \<equiv> 0x1F :: u32"
abbreviation (input) "INST_GUARANTEED_WRITE_WAIT2 \<equiv> 0x19 :: u32"
abbreviation (input) "INST_GUARANTEED_WRITE_WAIT3 \<equiv> 0x1D :: u32"
abbreviation (input) "INST_READ_B2B \<equiv> 0x59 :: u32"
abbreviation (input) "INST_READ_B2B_WAIT1 \<equiv> 0x61 :: u32"
abbreviation (input) "INST_READ_B2B_WAIT2 \<equiv> 0x6B :: u32"
abbreviation (input) "INST_LFSR_WR_RD_DM_BANK_0_WL_1 \<equiv> 0x35 :: u32"
abbreviation (input) "INST_LFSR_WR_RD_DM_BANK_0_DATA \<equiv> 0x39 :: u32"
abbreviation (input) "INST_LFSR_WR_RD_DM_BANK_0_NOP \<equiv> 0x37 :: u32"
abbreviation (input) "INST_LFSR_WR_RD_BANK_0_WL_1 \<equiv> 0x21 :: u32"
abbreviation (input) "INST_LFSR_WR_RD_BANK_0_DATA \<equiv> 0x25 :: u32"
abbreviation (input) "INST_LFSR_WR_RD_BANK_0_NOP \<equiv> 0x23 :: u32"
abbreviation (input) "INST_LFSR_WR_RD_DM_BANK_0 \<equiv> 0x36 :: u32"
abbreviation (input) "INST_LFSR_WR_RD_DM_BANK_0_DQS \<equiv> 0x38 :: u32"
abbreviation (input) "INST_LFSR_WR_RD_BANK_0 \<equiv> 0x22 :: u32"
abbreviation (input) "INST_LFSR_WR_RD_BANK_0_DQS \<equiv> 0x24 :: u32"
abbreviation (input) "INST_LFSR_WR_RD_DM_BANK_0_WAIT \<equiv> 0x46 :: u32"
abbreviation (input) "INST_LFSR_WR_RD_BANK_0_WAIT \<equiv> 0x32 :: u32"
abbreviation (input) "INST_ACTIVATE_0_AND_1 \<equiv> 0x0D :: u32"
abbreviation (input) "INST_ACTIVATE_0_AND_1_WAIT1 \<equiv> 0x0E :: u32"
abbreviation (input) "INST_ACTIVATE_0_AND_1_WAIT2 \<equiv> 0x10 :: u32"
abbreviation (input) "INST_IDLE \<equiv> 0x00 :: u32"
abbreviation (input) "INST_ACTIVATE_1 \<equiv> 0x0F :: u32"
abbreviation (input) "INST_SGLE_READ \<equiv> 0x7D :: u32"
abbreviation (input) "INST_REFRESH_ALL \<equiv> 0x14 :: u32"

section \<open>Ranks and on-die termination\<close>

text \<open>The mask of chip selects (low active) and the two terminations for a rank.\<close>

definition odt_masks :: "u32 \<Rightarrow> u32 \<Rightarrow> u32 \<times> u32" where
  "odt_masks rank odt_mode =
     (if odt_mode = RW_MGR_ODT_MODE_READ_WRITE then
        if LRDIMM then
          if RW_MGR_MEM_CHIP_SELECT_WIDTH div RW_MGR_MEM_NUMBER_OF_CS_PER_DIMM = 1 then
            if RW_MGR_MEM_ODT_WIDTH = 1 then (0, 1) else if RW_MGR_MEM_ODT_WIDTH = 2 then (0, 3) else (0, 0)
          else if RW_MGR_MEM_CHIP_SELECT_WIDTH div RW_MGR_MEM_NUMBER_OF_CS_PER_DIMM = 2 then
            if RW_MGR_MEM_ODT_WIDTH = 2 then (if rank < 2 then 2 else 1, 3)
            else if RW_MGR_MEM_ODT_WIDTH = 4 then (if rank < 2 then 0xC else 3, 0xF) else (0, 0)
          else (0, 0)
        else if RW_MGR_MEM_NUMBER_OF_RANKS = 1 then (0, 1)
        else if RW_MGR_MEM_NUMBER_OF_RANKS = 2 then
          if RW_MGR_MEM_NUMBER_OF_CS_PER_DIMM = 1 \<or>
             (RDIMM \<and> RW_MGR_MEM_NUMBER_OF_CS_PER_DIMM = 2 \<and> RW_MGR_MEM_CHIP_SELECT_WIDTH = 4)
          then (3 AND NOT (push_bit (unat rank) 1), 3)
          else (0, 3 AND push_bit (unat rank) 1)
        else if rank = 0 then (4, 5)
        else if rank = 1 then (8, 0xA)
        else if rank = 2 then (1, 5)
        else if rank = 3 then (2, 0xA)
        else (0, 0)
      else (0, 0))"

definition set_rank_and_odt_mask :: "'h sdram \<Rightarrow> u32 \<Rightarrow> u32 \<Rightarrow> ('h, unit) sq" where
  "set_rank_and_odt_mask B rank odt_mode = do {
     let (odt_mask_0, odt_mask_1) = odt_masks rank odt_mode;
     let shift = (if RDIMM \<and> RW_MGR_MEM_NUMBER_OF_CS_PER_DIMM = 2 \<and>
       RW_MGR_MEM_CHIP_SELECT_WIDTH = 4 \<and> RW_MGR_MEM_NUMBER_OF_RANKS = 2 then 2 * rank else rank);
     let cs_and_odt_mask = (0xFF AND NOT (push_bit (unat shift) 1)) OR
       push_bit 8 (0xFF AND odt_mask_0) OR push_bit 16 (0xFF AND odt_mask_1);
     sdr_wr B RW_MGR_SET_CS_AND_ODT_MASK 0 cs_and_odt_mask
   }"

section \<open>Delays\<close>

text \<open>\<open>SKIP_DELAY_LOOP_VALUE_OR_ZERO\<close>: the mask is zero when the delay loops are skipped.\<close>

definition skip_delay_value :: "u32 \<Rightarrow> ('h, u32) sq" where
  [prog_defs]: "skip_delay_value v = reads (\<lambda>s. v AND ucast (skip_delay_mask s))"

definition set_jump_as_return :: "'h sdram \<Rightarrow> ('h, unit) sq" where
  "set_jump_as_return B = do {
     sdr_wr B RW_MGR_LOAD_CNTR_0 0 0xFF;
     sdr_wr B RW_MGR_LOAD_JUMP_ADD_0 0 INST_RETURN
   }"

text \<open>The counters: two of 8 bits and one of 16; \<open>AFI_RATE_RATIO\<close> is 1.\<close>

definition delay_counters :: "u32 \<Rightarrow> u8 \<times> u8 \<times> u16" where
  "delay_counters afi_clocks =
     (if afi_clocks = 0 then (0, 0, 0)
      else if afi_clocks \<le> 0x100 then (ucast (afi_clocks - 1), 0, 0)
      else if afi_clocks \<le> 0x10000 then (0xFF, ucast (drop_bit 8 (afi_clocks - 1)), 0)
      else (0xFF, 0xFF, ucast (drop_bit 16 (afi_clocks - 1))))"

text \<open>\<open>do { run; } while (c_loop-- != 0);\<close>\<close>

definition run_idle_loop :: "'h sdram \<Rightarrow> u16 \<Rightarrow> ('h, unit) sq" where
  "run_idle_loop B c_loop =
     for_each (\<lambda>_. sdr_wr B RW_MGR_RUN_SINGLE_GROUP 0 INST_IDLE_LOOP2) [0..<Suc (unat c_loop)]"

definition delay_for_n_mem_clocks :: "'h sdram \<Rightarrow> u32 \<Rightarrow> ('h, unit) sq" where
  "delay_for_n_mem_clocks B clocks = do {
     let afi_clocks = (clocks + 1 - 1) div 1;
     let (inner, outer, c_loop) = delay_counters afi_clocks;
     if afi_clocks \<le> 0x100 then do {
       v \<leftarrow> skip_delay_value (ucast inner);
       sdr_wr B RW_MGR_LOAD_CNTR_1 0 v;
       sdr_wr B RW_MGR_LOAD_JUMP_ADD_1 0 INST_IDLE_LOOP1;
       sdr_wr B RW_MGR_RUN_SINGLE_GROUP 0 INST_IDLE_LOOP1
     } else do {
       v \<leftarrow> skip_delay_value (ucast inner);
       sdr_wr B RW_MGR_LOAD_CNTR_0 0 v;
       v \<leftarrow> skip_delay_value (ucast outer);
       sdr_wr B RW_MGR_LOAD_CNTR_1 0 v;
       sdr_wr B RW_MGR_LOAD_JUMP_ADD_0 0 INST_IDLE_LOOP2;
       sdr_wr B RW_MGR_LOAD_JUMP_ADD_1 0 INST_IDLE_LOOP2;
       (if afi_clocks \<le> 0x10000 then sdr_wr B RW_MGR_RUN_SINGLE_GROUP 0 INST_IDLE_LOOP2
        else run_idle_loop B c_loop)
     }
   }"

text \<open>\<open>AFI_CLK_FREQ\<close> is 401.\<close>

definition delay_for_n_ns :: "'h sdram \<Rightarrow> u32 \<Rightarrow> ('h, unit) sq" where
  "delay_for_n_ns B nanoseconds = delay_for_n_mem_clocks B (1000 * nanoseconds div (1000000 div 401) * 1)"

section \<open>Initialisation and hand-over\<close>

text \<open>A micro-program of group 0, after the jump that ends it.\<close>

definition run_mrs :: "'h sdram \<Rightarrow> u32 \<Rightarrow> ('h, unit) sq" where
  "run_mrs B instr = do { set_jump_as_return B; sdr_wr B RW_MGR_RUN_SINGLE_GROUP 0 instr }"

text \<open>The three counters and the three jump targets of a long wait, and its start.\<close>

definition long_wait :: "'h sdram \<Rightarrow> u32 \<Rightarrow> u32 \<Rightarrow> u32 \<Rightarrow> u32 \<Rightarrow> ('h, unit) sq" where
  "long_wait B cntr0 cntr1 cntr2 instr = do {
     v \<leftarrow> skip_delay_value cntr0;
     sdr_wr B RW_MGR_LOAD_CNTR_0 0 v;
     v \<leftarrow> skip_delay_value cntr1;
     sdr_wr B RW_MGR_LOAD_CNTR_1 0 v;
     v \<leftarrow> skip_delay_value cntr2;
     sdr_wr B RW_MGR_LOAD_CNTR_2 0 v;
     sdr_wr B RW_MGR_LOAD_JUMP_ADD_0 0 instr;
     sdr_wr B RW_MGR_LOAD_JUMP_ADD_1 0 instr;
     sdr_wr B RW_MGR_LOAD_JUMP_ADD_2 0 instr;
     sdr_wr B RW_MGR_RUN_SINGLE_GROUP 0 instr
   }"

text \<open>\<open>rw_mgr_rdimm_initialize\<close> has an empty body; a skipped rank is passed over.\<close>

definition for_ranks :: "nat \<Rightarrow> nat \<Rightarrow> (u32 \<Rightarrow> ('h, unit) sq) \<Rightarrow> ('h, unit) sq" where
  "for_ranks a b body = for_each (\<lambda>r. do {
     skip \<leftarrow> reads (\<lambda>s. skip_ranks (param s) ! unat r);
     if skip \<noteq> 0 then ret () else body r
   }) (upto32 a b)"

definition rw_mgr_mem_initialize :: "'h sdram \<Rightarrow> ('h, unit) sq" where
  "rw_mgr_mem_initialize B = do {
     sdr_wr B RW_MGR_SET_CS_AND_ODT_MASK 0 RW_MGR_RANK_ALL;
     long_wait B 99 32 32 INST_INIT_RESET_0_CKE_0;
     sdr_wr B PHY_MGR_RESET_MEM_STBL 0 1;
     long_wait B 99 99 10 INST_INIT_RESET_1_CKE_0;
     delay_for_n_mem_clocks B 250;
     for_ranks 0 1 (\<lambda>r. do {
       set_rank_and_odt_mask B r RW_MGR_ODT_MODE_OFF;
       (if drop_bit (unat r) RW_MGR_MEM_ADDRESS_MIRRORING AND 1 \<noteq> 0 then do {
          run_mrs B INST_MRS2_MIRR;
          delay_for_n_mem_clocks B 4;
          run_mrs B INST_MRS3_MIRR;
          delay_for_n_mem_clocks B 4;
          run_mrs B INST_MRS1_MIRR;
          delay_for_n_mem_clocks B 4;
          run_mrs B INST_MRS0_DLL_RESET_MIRR
        } else do {
          run_mrs B INST_MRS2;
          delay_for_n_mem_clocks B 4;
          run_mrs B INST_MRS3;
          delay_for_n_mem_clocks B 4;
          run_mrs B INST_MRS1;
          run_mrs B INST_MRS0_DLL_RESET
        });
       run_mrs B INST_ZQCL;
       delay_for_n_mem_clocks B 512
     })
   }"

definition rw_mgr_mem_handoff :: "'h sdram \<Rightarrow> ('h, unit) sq" where
  "rw_mgr_mem_handoff B = for_ranks 0 1 (\<lambda>r. do {
     set_rank_and_odt_mask B r RW_MGR_ODT_MODE_OFF;
     sdr_wr B RW_MGR_RUN_SINGLE_GROUP 0 INST_PRECHARGE_ALL;
     (if drop_bit (unat r) RW_MGR_MEM_ADDRESS_MIRRORING AND 1 \<noteq> 0 then do {
        run_mrs B INST_MRS2_MIRR;
        delay_for_n_mem_clocks B 4;
        run_mrs B INST_MRS3_MIRR;
        delay_for_n_mem_clocks B 4;
        run_mrs B INST_MRS1_MIRR;
        delay_for_n_mem_clocks B 4;
        run_mrs B INST_MRS0_USER_MIRR
      } else do {
        run_mrs B INST_MRS2;
        delay_for_n_mem_clocks B 4;
        run_mrs B INST_MRS3;
        delay_for_n_mem_clocks B 4;
        run_mrs B INST_MRS1;
        delay_for_n_mem_clocks B 4;
        run_mrs B INST_MRS0_USER
      })
   })"

definition mem_precharge_and_activate :: "'h sdram \<Rightarrow> ('h, unit) sq" where
  "mem_precharge_and_activate B = for_ranks 0 1 (\<lambda>r. do {
     set_rank_and_odt_mask B r RW_MGR_ODT_MODE_OFF;
     sdr_wr B RW_MGR_RUN_SINGLE_GROUP 0 INST_PRECHARGE_ALL;
     sdr_wr B RW_MGR_LOAD_CNTR_0 0 0x0F;
     sdr_wr B RW_MGR_LOAD_JUMP_ADD_0 0 INST_ACTIVATE_0_AND_1_WAIT1;
     sdr_wr B RW_MGR_LOAD_CNTR_1 0 0x0F;
     sdr_wr B RW_MGR_LOAD_JUMP_ADD_1 0 INST_ACTIVATE_0_AND_1_WAIT2;
     sdr_wr B RW_MGR_RUN_SINGLE_GROUP 0 INST_ACTIVATE_0_AND_1
   })"

text \<open>\<open>hc_initialize_rom_data\<close>: the two ROM images are generated tables, here the parameters
  \<open>inst\<close> and \<open>ac\<close>.\<close>

definition hc_initialize_rom_data :: "'h sdram \<Rightarrow> u32 list \<Rightarrow> u32 list \<Rightarrow> ('h, unit) sq" where
  "hc_initialize_rom_data B inst ac = do {
     for_each (\<lambda>(i, data). sdr_wr B RW_MGR_INST_ROM_WRITE (push_bit 2 i) data)
       (zip (upto32 0 (length inst)) inst);
     for_each (\<lambda>(i, data). sdr_wr B RW_MGR_AC_ROM_WRITE (push_bit 2 i) data)
       (zip (upto32 0 (length ac)) ac)
   }"

end
