(* ===== verification/Seq_Tests.thy ===== *)
theory Seq_Tests
  imports Seq_RW
begin

text \<open>
  The memory tests of the calibration (\<open>sequencer.c\<close>).  A test returns its verdict and the
  bits that passed (the C code's \<open>*bit_chk\<close>).  What the manager reads back at its base
  address is the hardware's answer: a 1 for every bit that was wrong.

  \<open>STATIC_CALIB_STEPS\<close> does not skip delay sweeps or writes, \<open>BFM_MODE\<close> is 0: the quick
  modes are off.
\<close>

section \<open>Loops over ranks\<close>

text \<open>\<open>for (r = rank_bgn; r < rank_end; r++) if (!param->skip_ranks[r]) ...\<close> with the running \<open>bit_chk\<close>.\<close>

definition rank_end :: "u32 \<Rightarrow> bool \<Rightarrow> u32" where
  "rank_end rank_bgn all_ranks =
     (if all_ranks then RW_MGR_MEM_NUMBER_OF_RANKS else rank_bgn + NUM_RANKS_PER_SHADOW_REG)"

definition fold_ranks :: "u32 \<Rightarrow> u32 \<Rightarrow> (u32 \<Rightarrow> ('h, u32) sq) \<Rightarrow> u32 \<Rightarrow> ('h, u32) sq" where
  "fold_ranks rank_bgn r_end body bit_chk = for_fold (\<lambda>r bit_chk. do {
     skip \<leftarrow> reads (\<lambda>s. skip_ranks (param s) ! unat r);
     if skip \<noteq> 0 then ret bit_chk
     else do { tmp_bit_chk \<leftarrow> body r; ret (bit_chk AND tmp_bit_chk) }
   }) (upto32 (unat rank_bgn) (unat r_end)) bit_chk"

text \<open>One virtual group per strobe: the loop over \<open>vg\<close> runs from 0 down to 0.\<close>

definition fold_vgs :: "(u32 \<Rightarrow> ('h, u32) sq) \<Rightarrow> u32 \<Rightarrow> ('h, u32) sq" where
  "fold_vgs body mask_vg = for_fold (\<lambda>vg tmp_bit_chk. do {
     v \<leftarrow> body vg;
     ret (push_bit (unat (RW_MGR_MEM_DQ_PER_READ_DQS div 1)) tmp_bit_chk OR (mask_vg AND NOT v))
   }) (rev (upto32 0 1)) 0"

section \<open>Reads\<close>

definition read_test_pattern_body :: "'h sdram \<Rightarrow> u32 \<Rightarrow> u32 \<Rightarrow> u32 \<Rightarrow> ('h, u32) sq" where
  "read_test_pattern_body B grp correct_mask_vg r = do {
     set_rank_and_odt_mask B r RW_MGR_ODT_MODE_READ_WRITE;
     sdr_wr B RW_MGR_LOAD_CNTR_0 0 0x20;
     sdr_wr B RW_MGR_LOAD_JUMP_ADD_0 0 INST_GUARANTEED_READ;
     sdr_wr B RW_MGR_LOAD_CNTR_1 0 0x20;
     sdr_wr B RW_MGR_LOAD_JUMP_ADD_1 0 INST_GUARANTEED_READ_CONT;
     fold_vgs (\<lambda>vg. do {
       sdr_wr B PHY_MGR_CMD_FIFO_RESET 0 0;
       sdr_wr B RW_MGR_RESET_READ_DATAPATH 0 0;
       sdr_wr B RW_MGR_RUN_SINGLE_GROUP
         (push_bit 2 (grp * RW_MGR_MEM_VIRTUAL_GROUPS_PER_READ_DQS + vg)) INST_GUARANTEED_READ;
       sdr_rd B BASE_RW_MGR 0
     }) correct_mask_vg
   }"

definition rw_mgr_mem_calibrate_read_test_patterns ::
  "'h sdram \<Rightarrow> u32 \<Rightarrow> u32 \<Rightarrow> u32 \<Rightarrow> bool \<Rightarrow> ('h, bool \<times> u32) sq" where
  "rw_mgr_mem_calibrate_read_test_patterns B rank_bgn grp num_tries all_ranks = do {
     p \<leftarrow> reads param;
     bit_chk \<leftarrow> fold_ranks rank_bgn (rank_end rank_bgn all_ranks)
       (read_test_pattern_body B grp (read_correct_mask_vg p)) (read_correct_mask p);
     sdr_wr B RW_MGR_RUN_SINGLE_GROUP (push_bit 2 grp) INST_CLEAR_DQS_ENABLE;
     set_rank_and_odt_mask B 0 RW_MGR_ODT_MODE_OFF;
     ret (bit_chk = read_correct_mask p, bit_chk)
   }"

text \<open>The sweep over the phases when the first guaranteed read fails.\<close>

fun guaranteed_read_phases :: "'h sdram \<Rightarrow> u32 \<Rightarrow> u32 \<Rightarrow> u32 list \<Rightarrow> ('h, bool) sq" where
  "guaranteed_read_phases B grp num_tries [] = ret False"
| "guaranteed_read_phases B grp num_tries (p # ps) = do {
     scc_mgr_set_dqs_en_phase_all_ranks B grp p;
     (ok, bit_chk) \<leftarrow> rw_mgr_mem_calibrate_read_test_patterns B 0 grp num_tries True;
     if ok then ret True else guaranteed_read_phases B grp num_tries ps
   }"

definition rw_mgr_mem_calibrate_read_test_patterns_all_ranks :: "'h sdram \<Rightarrow> u32 \<Rightarrow> u32 \<Rightarrow> ('h, bool) sq" where
  "rw_mgr_mem_calibrate_read_test_patterns_all_ranks B grp num_tries = do {
     (ok, bit_chk) \<leftarrow> rw_mgr_mem_calibrate_read_test_patterns B 0 grp num_tries True;
     if ok then ret True
     else guaranteed_read_phases B grp num_tries (upto32 0 (Suc (unat IO_DQS_EN_PHASE_MAX)))
   }"

definition rw_mgr_mem_calibrate_read_load_patterns :: "'h sdram \<Rightarrow> u32 \<Rightarrow> bool \<Rightarrow> ('h, unit) sq" where
  "rw_mgr_mem_calibrate_read_load_patterns B rank_bgn all_ranks = do {
     for_ranks (unat rank_bgn) (unat (rank_end rank_bgn all_ranks)) (\<lambda>r. do {
       set_rank_and_odt_mask B r RW_MGR_ODT_MODE_READ_WRITE;
       sdr_wr B RW_MGR_LOAD_CNTR_0 0 0x20;
       sdr_wr B RW_MGR_LOAD_JUMP_ADD_0 0 INST_GUARANTEED_WRITE_WAIT0;
       sdr_wr B RW_MGR_LOAD_CNTR_1 0 0x20;
       sdr_wr B RW_MGR_LOAD_JUMP_ADD_1 0 INST_GUARANTEED_WRITE_WAIT1;
       sdr_wr B RW_MGR_LOAD_CNTR_2 0 0x04;
       sdr_wr B RW_MGR_LOAD_JUMP_ADD_2 0 INST_GUARANTEED_WRITE_WAIT2;
       sdr_wr B RW_MGR_LOAD_CNTR_3 0 0x04;
       sdr_wr B RW_MGR_LOAD_JUMP_ADD_3 0 INST_GUARANTEED_WRITE_WAIT3;
       sdr_wr B RW_MGR_RUN_SINGLE_GROUP 0 INST_GUARANTEED_WRITE
     });
     set_rank_and_odt_mask B 0 RW_MGR_ODT_MODE_OFF
   }"

definition rw_mgr_mem_calibrate_read_load_patterns_all_ranks :: "'h sdram \<Rightarrow> ('h, unit) sq" where
  "rw_mgr_mem_calibrate_read_load_patterns_all_ranks B = rw_mgr_mem_calibrate_read_load_patterns B 0 True"

definition read_test_body :: "'h sdram \<Rightarrow> u32 \<Rightarrow> bool \<Rightarrow> u32 \<Rightarrow> u32 \<Rightarrow> ('h, u32) sq" where
  "read_test_body B grp all_groups correct_mask_vg r = do {
     set_rank_and_odt_mask B r RW_MGR_ODT_MODE_READ_WRITE;
     sdr_wr B RW_MGR_LOAD_CNTR_1 0 0x10;
     sdr_wr B RW_MGR_LOAD_JUMP_ADD_1 0 INST_READ_B2B_WAIT1;
     sdr_wr B RW_MGR_LOAD_CNTR_2 0 0x10;
     sdr_wr B RW_MGR_LOAD_JUMP_ADD_2 0 INST_READ_B2B_WAIT2;
     (if all_groups then sdr_wr B RW_MGR_LOAD_CNTR_0 0 0x06 else sdr_wr B RW_MGR_LOAD_CNTR_0 0 0x32);
     sdr_wr B RW_MGR_LOAD_JUMP_ADD_0 0 INST_READ_B2B;
     (if all_groups then sdr_wr B RW_MGR_LOAD_CNTR_3 0
        (RW_MGR_MEM_IF_READ_DQS_WIDTH * RW_MGR_MEM_VIRTUAL_GROUPS_PER_READ_DQS - 1)
      else sdr_wr B RW_MGR_LOAD_CNTR_3 0 0);
     sdr_wr B RW_MGR_LOAD_JUMP_ADD_3 0 INST_READ_B2B;
     fold_vgs (\<lambda>vg. do {
       sdr_wr B PHY_MGR_CMD_FIFO_RESET 0 0;
       sdr_wr B RW_MGR_RESET_READ_DATAPATH 0 0;
       sdr_wr B (if all_groups then RW_MGR_RUN_ALL_GROUPS else RW_MGR_RUN_SINGLE_GROUP)
         (push_bit 2 (grp * RW_MGR_MEM_VIRTUAL_GROUPS_PER_READ_DQS + vg)) INST_READ_B2B;
       sdr_rd B BASE_RW_MGR 0
     }) correct_mask_vg
   }"

definition rw_mgr_mem_calibrate_read_test ::
  "'h sdram \<Rightarrow> u32 \<Rightarrow> u32 \<Rightarrow> u32 \<Rightarrow> u32 \<Rightarrow> bool \<Rightarrow> bool \<Rightarrow> ('h, bool \<times> u32) sq" where
  "rw_mgr_mem_calibrate_read_test B rank_bgn grp num_tries all_correct all_groups all_ranks = do {
     p \<leftarrow> reads param;
     bit_chk \<leftarrow> fold_ranks rank_bgn (rank_end rank_bgn all_ranks)
       (read_test_body B grp all_groups (read_correct_mask_vg p)) (read_correct_mask p);
     sdr_wr B RW_MGR_RUN_SINGLE_GROUP (push_bit 2 grp) INST_CLEAR_DQS_ENABLE;
     set_rank_and_odt_mask B 0 RW_MGR_ODT_MODE_OFF;
     ret (if all_correct \<noteq> 0 then bit_chk = read_correct_mask p else bit_chk \<noteq> 0, bit_chk)
   }"

text \<open>Up to \<open>num_tries\<close> tests, at least one; it stops at the first failure.\<close>

fun read_tries :: "'h sdram \<Rightarrow> u32 \<Rightarrow> u32 \<Rightarrow> bool \<Rightarrow> nat \<Rightarrow> ('h, bool) sq" where
  "read_tries B grp all_correct all_groups 0 = ret True"
| "read_tries B grp all_correct all_groups (Suc n) = do {
     (one_test_success, bit_chk) \<leftarrow> rw_mgr_mem_calibrate_read_test B 0 grp 1 all_correct all_groups True;
     if \<not> one_test_success then ret False else read_tries B grp all_correct all_groups n
   }"

definition rw_mgr_mem_calibrate_read_test_all_ranks ::
  "'h sdram \<Rightarrow> u32 \<Rightarrow> u32 \<Rightarrow> u32 \<Rightarrow> bool \<Rightarrow> ('h, bool) sq" where
  "rw_mgr_mem_calibrate_read_test_all_ranks B grp num_tries all_correct all_groups =
     read_tries B grp all_correct all_groups (unat (if num_tries \<le> 0 then 1 else num_tries))"

section \<open>The read-valid FIFO\<close>

text \<open>\<open>*v\<close> is returned.\<close>

definition rw_mgr_incr_vfifo :: "'h sdram \<Rightarrow> u32 \<Rightarrow> u32 \<Rightarrow> ('h, u32) sq" where
  "rw_mgr_incr_vfifo B grp v = do {
     sdr_wr B PHY_MGR_CMD_INC_VFIFO_HARD_PHY 0 grp;
     ret (v + 1)
   }"

definition rw_mgr_decr_vfifo :: "'h sdram \<Rightarrow> u32 \<Rightarrow> u32 \<Rightarrow> ('h, u32) sq" where
  "rw_mgr_decr_vfifo B grp v =
     for_fold (\<lambda>i v. rw_mgr_incr_vfifo B grp v) (upto32 0 (unat (VFIFO_SIZE - 1))) v"

section \<open>Writes\<close>

text \<open>The jumps and the counter that depend on the write latency; the result is the micro-program.\<close>

definition write_test_setup :: "'h sdram \<Rightarrow> u32 \<Rightarrow> bool \<Rightarrow> ('h, u32) sq" where
  "write_test_setup B nop_cycles test_dm =
     (if nop_cycles = - 1 then do {
        sdr_wr B RW_MGR_LOAD_CNTR_2 0 0xFF;
        if test_dm then do {
          sdr_wr B RW_MGR_LOAD_JUMP_ADD_2 0 INST_LFSR_WR_RD_DM_BANK_0_DATA;
          sdr_wr B RW_MGR_LOAD_JUMP_ADD_3 0 INST_LFSR_WR_RD_DM_BANK_0_NOP;
          ret INST_LFSR_WR_RD_DM_BANK_0_WL_1
        } else do {
          sdr_wr B RW_MGR_LOAD_JUMP_ADD_2 0 INST_LFSR_WR_RD_BANK_0_DATA;
          sdr_wr B RW_MGR_LOAD_JUMP_ADD_3 0 INST_LFSR_WR_RD_BANK_0_NOP;
          ret INST_LFSR_WR_RD_BANK_0_WL_1
        }
      } else if nop_cycles = 0 then do {
        sdr_wr B RW_MGR_LOAD_CNTR_2 0 0xFF;
        if test_dm then do {
          sdr_wr B RW_MGR_LOAD_JUMP_ADD_2 0 INST_LFSR_WR_RD_DM_BANK_0_DQS;
          ret INST_LFSR_WR_RD_DM_BANK_0
        } else do {
          sdr_wr B RW_MGR_LOAD_JUMP_ADD_2 0 INST_LFSR_WR_RD_BANK_0_DQS;
          ret INST_LFSR_WR_RD_BANK_0
        }
      } else do {
        sdr_wr B RW_MGR_LOAD_CNTR_2 0 0;
        sdr_wr B RW_MGR_LOAD_JUMP_ADD_2 0 0;
        sdr_wr B RW_MGR_LOAD_CNTR_3 0 (nop_cycles - 1);
        if test_dm then do {
          sdr_wr B RW_MGR_LOAD_JUMP_ADD_3 0 INST_LFSR_WR_RD_DM_BANK_0_NOP;
          ret INST_LFSR_WR_RD_DM_BANK_0
        } else do {
          sdr_wr B RW_MGR_LOAD_JUMP_ADD_3 0 INST_LFSR_WR_RD_BANK_0_NOP;
          ret INST_LFSR_WR_RD_BANK_0
        }
      })"

definition rw_mgr_mem_calibrate_write_test_issue :: "'h sdram \<Rightarrow> u32 \<Rightarrow> bool \<Rightarrow> ('h, unit) sq" where
  "rw_mgr_mem_calibrate_write_test_issue B grp test_dm = do {
     nop_cycles \<leftarrow> reads (\<lambda>s. rw_wl_nop_cycles (gbl s));
     mcc_instruction \<leftarrow> write_test_setup B nop_cycles test_dm;
     sdr_wr B RW_MGR_RESET_READ_DATAPATH 0 0;
     sdr_wr B RW_MGR_LOAD_CNTR_0 0 0x40;
     sdr_wr B RW_MGR_LOAD_JUMP_ADD_0 0 mcc_instruction;
     sdr_wr B RW_MGR_LOAD_CNTR_1 0 0x30;
     (if test_dm then sdr_wr B RW_MGR_LOAD_JUMP_ADD_1 0 INST_LFSR_WR_RD_DM_BANK_0_WAIT
      else sdr_wr B RW_MGR_LOAD_JUMP_ADD_1 0 INST_LFSR_WR_RD_BANK_0_WAIT);
     sdr_wr B RW_MGR_RUN_SINGLE_GROUP (push_bit 2 grp) mcc_instruction
   }"

definition rw_mgr_mem_calibrate_write_test ::
  "'h sdram \<Rightarrow> u32 \<Rightarrow> u32 \<Rightarrow> bool \<Rightarrow> u32 \<Rightarrow> bool \<Rightarrow> ('h, bool \<times> u32) sq" where
  "rw_mgr_mem_calibrate_write_test B rank_bgn write_group use_dm all_correct all_ranks = do {
     p \<leftarrow> reads param;
     bit_chk \<leftarrow> fold_ranks rank_bgn (rank_end rank_bgn all_ranks) (\<lambda>r. do {
       set_rank_and_odt_mask B r RW_MGR_ODT_MODE_READ_WRITE;
       fold_vgs (\<lambda>vg. do {
         sdr_wr B PHY_MGR_CMD_FIFO_RESET 0 0;
         rw_mgr_mem_calibrate_write_test_issue B
           (write_group * RW_MGR_MEM_VIRTUAL_GROUPS_PER_WRITE_DQS + vg) use_dm;
         sdr_rd B BASE_RW_MGR 0
       }) (write_correct_mask_vg p)
     }) (write_correct_mask p);
     set_rank_and_odt_mask B 0 RW_MGR_ODT_MODE_OFF;
     ret (if all_correct \<noteq> 0 then bit_chk = write_correct_mask p else bit_chk \<noteq> 0, bit_chk)
   }"

definition rw_mgr_mem_calibrate_write_test_all_ranks ::
  "'h sdram \<Rightarrow> u32 \<Rightarrow> bool \<Rightarrow> u32 \<Rightarrow> ('h, bool \<times> u32) sq" where
  "rw_mgr_mem_calibrate_write_test_all_ranks B write_group use_dm all_correct =
     rw_mgr_mem_calibrate_write_test B 0 write_group use_dm all_correct True"

text \<open>\<open>success\<close> is assigned anew for every group that runs.\<close>

definition rw_mgr_mem_calibrate_full_test :: "'h sdram \<Rightarrow> u32 \<Rightarrow> bool \<Rightarrow> ('h, bool) sq" where
  "rw_mgr_mem_calibrate_full_test B min_correct test_dm = do {
     skip \<leftarrow> reads (\<lambda>s. skip_groups (param s));
     (success, run_groups) \<leftarrow> for_fold (\<lambda>g (success, run_groups). do {
       success \<leftarrow> (if run_groups AND (push_bit (unat RW_MGR_NUM_DQS_PER_WRITE_GROUP) 1 - 1) \<noteq> 0
         then do { (ok, bit_chk) \<leftarrow> rw_mgr_mem_calibrate_write_test_all_ranks B g test_dm PASS_ALL_BITS; ret ok }
         else ret success);
       ret (success, drop_bit (unat RW_MGR_NUM_DQS_PER_WRITE_GROUP) run_groups)
     }) (upto32 0 4) (False, NOT skip);
     ret success
   }"

end
