(* ===== verification/Seq_EnPhase.thy ===== *)
theory Seq_EnPhase
  imports Seq_Tests
begin

text \<open>
  \<open>rw_mgr_mem_calibrate_vfifo_find_dqs_en_phase\<close> (\<open>sequencer.c\<close>, the version for DDR3 with
  \<open>NEWVERSION_DQSEN\<close> and \<open>SKIP_PTAP_0_DQS_EN_CAL\<close>): the search for the moment at which the
  strobe is enabled.  A setting is a position of the read-valid FIFO, a phase tap
  (312 ps) and a delay tap (25 ps).  The search finds the first and the last setting that
  reads back at least one bit, and settles in the middle between them.

  Each loop of the function is a definition of its own, in the order of the code.  The
  counter \<open>max_working_cnt\<close> is written but never read in this build and is left out; the
  loops over shadow registers hold only report macros.
\<close>

section \<open>Step 0: delay taps per phase tap\<close>

function dtaps_loop :: "u32 \<Rightarrow> u32 \<Rightarrow> u32" where
  "dtaps_loop tmp_delay dtaps =
     (if tmp_delay < IO_DELAY_PER_OPA_TAP
      then dtaps_loop (tmp_delay + IO_DELAY_PER_DQS_EN_DCHAIN_TAP) (dtaps + 1) else dtaps)"
  by pat_completeness auto
termination
  by (relation "measure (\<lambda>(t, _). 312 - unat t)") (auto simp: unat_word_ariths word_less_nat_alt)

definition dtaps_per_ptap :: u32 where
  "dtaps_per_ptap = dtaps_loop 0 0 - 1"

section \<open>Steps 1 and 2: a failing read, then the first working one\<close>

abbreviation (input) one_bit_read :: "'h sdram \<Rightarrow> u32 \<Rightarrow> u32 \<Rightarrow> ('h, bool) sq" where
  "one_bit_read B grp tries \<equiv> rw_mgr_mem_calibrate_read_test_all_ranks B grp tries PASS_ONE_BIT False"

text \<open>\<open>for (v = 0; v < VFIFO_SIZE; )\<close>: every turn increments \<open>v\<close>; \<open>n\<close> turns are left.\<close>

fun push_until_fail :: "'h sdram \<Rightarrow> u32 \<Rightarrow> nat \<Rightarrow> u32 \<Rightarrow> u32 \<Rightarrow> ('h, u32) sq" where
  "push_until_fail B grp 0 v fail_cnt = ret v"
| "push_until_fail B grp (Suc n) v fail_cnt = do {
     test_status \<leftarrow> one_bit_read B grp 5;
     if \<not> test_status \<and> fail_cnt + 1 = 2 then ret v
     else do {
       v \<leftarrow> rw_mgr_incr_vfifo B grp v;
       push_until_fail B grp n v (if test_status then fail_cnt else fail_cnt + 1)
     }
   }"

text \<open>The innermost loop, over the phases: the phase that works, and \<open>work_bgn\<close> there.\<close>

fun begin_phases :: "'h sdram \<Rightarrow> u32 \<Rightarrow> u32 list \<Rightarrow> u32 \<Rightarrow> ('h, u32 option \<times> u32) sq" where
  "begin_phases B grp [] work_bgn = ret (None, work_bgn)"
| "begin_phases B grp (p # ps) work_bgn =
     (if p = 0 then begin_phases B grp ps (work_bgn + IO_DELAY_PER_OPA_TAP)
      else do {
        scc_mgr_set_dqs_en_phase_all_ranks B grp p;
        test_status \<leftarrow> one_bit_read B grp 5;
        if test_status then ret (Some p, work_bgn)
        else begin_phases B grp ps (work_bgn + IO_DELAY_PER_OPA_TAP)
      })"

text \<open>The loop over \<open>i < VFIFO_SIZE\<close>; when no phase works \<open>p\<close> has passed the last one.\<close>

fun begin_vfifo :: "'h sdram \<Rightarrow> u32 \<Rightarrow> u32 list \<Rightarrow> u32 \<Rightarrow> u32 \<Rightarrow> ('h, (u32 \<times> u32) option \<times> u32 \<times> u32) sq" where
  "begin_vfifo B grp [] work_bgn v = ret (None, work_bgn, v)"
| "begin_vfifo B grp (i # is) work_bgn v = do {
     (found, work_bgn) \<leftarrow> begin_phases B grp (upto32 0 8) work_bgn;
     case found of
       Some p \<Rightarrow> ret (Some (i, p), work_bgn, v)
     | None \<Rightarrow> do {
         v \<leftarrow> rw_mgr_incr_vfifo B grp v;
         begin_vfifo B grp is work_bgn v
       }
   }"

text \<open>The loop over the delay taps: \<open>(d, i, p, work_bgn, v)\<close> of the first working setting.\<close>

fun begin_dtaps :: "'h sdram \<Rightarrow> u32 \<Rightarrow> u32 list \<Rightarrow> u32 \<Rightarrow> u32
    \<Rightarrow> ('h, (u32 \<times> u32 \<times> u32 \<times> u32 \<times> u32) option) sq" where
  "begin_dtaps B grp [] tmp_delay v = ret None"
| "begin_dtaps B grp (d # ds) tmp_delay v = do {
     scc_mgr_set_dqs_en_delay_all_ranks B grp d;
     (found, work_bgn, v) \<leftarrow> begin_vfifo B grp (upto32 0 16) tmp_delay v;
     case found of
       Some (i, p) \<Rightarrow> ret (Some (d, i, p, work_bgn, v))
     | None \<Rightarrow> begin_dtaps B grp ds (tmp_delay + IO_DELAY_PER_DQS_EN_DCHAIN_TAP) v
   }"

section \<open>Step 3a: windows of several phases (d = 0)\<close>

text \<open>One phase back, delay taps forward: \<open>work_bgn\<close> moves to the first one that works.\<close>

fun begin_refine :: "'h sdram \<Rightarrow> u32 \<Rightarrow> u32 list \<Rightarrow> u32 \<Rightarrow> u32 \<Rightarrow> ('h, u32) sq" where
  "begin_refine B grp [] tmp_delay work_bgn = ret work_bgn"
| "begin_refine B grp (d # ds) tmp_delay work_bgn =
     (if tmp_delay < work_bgn then do {
        scc_mgr_set_dqs_en_delay_all_ranks B grp d;
        ok \<leftarrow> one_bit_read B grp 5;
        if ok then ret tmp_delay
        else begin_refine B grp ds (tmp_delay + IO_DELAY_PER_DQS_EN_DCHAIN_TAP) work_bgn
      } else ret work_bgn)"

text \<open>Forward over the phases to the first that fails; the very first may fail (\<open>j = 1\<close>).\<close>

fun end_phases :: "'h sdram \<Rightarrow> u32 \<Rightarrow> u32 list \<Rightarrow> u32 \<Rightarrow> u32 \<Rightarrow> u32
    \<Rightarrow> ('h, u32 option \<times> u32 \<times> u32 \<times> u32) sq" where
  "end_phases B grp [] j work_bgn work_end = ret (None, j, work_bgn, work_end)"
| "end_phases B grp (p # ps) j work_bgn work_end =
     (if p = 0 then end_phases B grp ps (j + 1) work_bgn (work_end + IO_DELAY_PER_OPA_TAP)
      else do {
        scc_mgr_set_dqs_en_phase_all_ranks B grp p;
        test_status \<leftarrow> one_bit_read B grp 5;
        if \<not> test_status \<and> j + 1 = 1
        then end_phases B grp ps (j + 1) work_end (work_end + IO_DELAY_PER_OPA_TAP)
        else if \<not> test_status then ret (Some p, j + 1, work_bgn, work_end)
        else end_phases B grp ps (j + 1) work_bgn (work_end + IO_DELAY_PER_OPA_TAP)
      })"

text \<open>The loop \<open>for (; i < VFIFO_SIZE + 1; i++)\<close>, with \<open>n\<close> turns left: \<open>(p, work_bgn, work_end, v)\<close>.\<close>

fun end_vfifo :: "'h sdram \<Rightarrow> u32 \<Rightarrow> nat \<Rightarrow> u32 \<Rightarrow> u32 \<Rightarrow> u32 \<Rightarrow> u32 \<Rightarrow> u32
    \<Rightarrow> ('h, (u32 \<times> u32 \<times> u32 \<times> u32) option) sq" where
  "end_vfifo B grp 0 p j work_bgn work_end v = ret None"
| "end_vfifo B grp (Suc n) p j work_bgn work_end v = do {
     (found, j, work_bgn, work_end) \<leftarrow> end_phases B grp (upto32 (unat p) 8) j work_bgn work_end;
     case found of
       Some p \<Rightarrow> ret (Some (p, work_bgn, work_end, v))
     | None \<Rightarrow> do {
         v \<leftarrow> rw_mgr_incr_vfifo B grp v;
         end_vfifo B grp n 0 j work_bgn work_end v
       }
   }"

text \<open>One phase back; below the first phase that is the last phase of the previous FIFO position.\<close>

definition phase_back :: "'h sdram \<Rightarrow> u32 \<Rightarrow> u32 \<Rightarrow> u32 \<Rightarrow> ('h, u32 \<times> u32) sq" where
  "phase_back B grp p v =
     (if p = 0 then do { v \<leftarrow> rw_mgr_decr_vfifo B grp v; ret (IO_DQS_EN_PHASE_MAX, v) }
      else ret (p - 1, v))"

definition phase_forward :: "'h sdram \<Rightarrow> u32 \<Rightarrow> u32 \<Rightarrow> u32 \<Rightarrow> ('h, u32 \<times> u32) sq" where
  "phase_forward B grp p v =
     (if p + 1 > IO_DQS_EN_PHASE_MAX then do { v \<leftarrow> rw_mgr_incr_vfifo B grp v; ret (0, v) }
      else ret (p + 1, v))"

text \<open>\<open>(p, work_bgn, work_end, v)\<close> at the last working phase, or None when there is no end.\<close>

definition window_of_phases :: "'h sdram \<Rightarrow> u32 \<Rightarrow> u32 \<Rightarrow> u32 \<Rightarrow> u32 \<Rightarrow> u32
    \<Rightarrow> ('h, (u32 \<times> u32 \<times> u32 \<times> u32) option) sq" where
  "window_of_phases B grp i p work_bgn v = do {
     let work_end = work_bgn;
     (p, v) \<leftarrow> phase_back B grp p v;
     let tmp_delay = work_bgn - IO_DELAY_PER_OPA_TAP;
     let (p, tmp_delay) = (if p = 0 then (1, work_bgn) else (p, tmp_delay));
     scc_mgr_set_dqs_en_phase_all_ranks B grp p;
     work_bgn \<leftarrow> begin_refine B grp (upto32 0 32) tmp_delay work_bgn;
     (p, v) \<leftarrow> phase_forward B grp p v;
     scc_mgr_set_dqs_en_delay_all_ranks B grp 0;
     let work_end = work_end + IO_DELAY_PER_OPA_TAP;
     (p, v) \<leftarrow> phase_forward B grp p v;
     found \<leftarrow> end_vfifo B grp (17 - unat i) p 0 work_bgn work_end v;
     case found of
       None \<Rightarrow> ret None
     | Some (p, work_bgn, work_end, v) \<Rightarrow> do {
         let (p, work_end) = (if p = 1 then (0, work_end - IO_DELAY_PER_OPA_TAP) else (p, work_end));
         (p, v) \<leftarrow> phase_back B grp p v;
         let work_end = work_end - IO_DELAY_PER_OPA_TAP;
         scc_mgr_set_dqs_en_phase_all_ranks B grp p;
         ret (Some (p, work_bgn, work_end, v))
       }
   }"

section \<open>Step 3b: the end of the window in delay taps\<close>

text \<open>\<open>for (; d <= 31; d++, work_end += 25)\<close> up to the first failing read: \<open>d\<close> and \<open>work_end\<close>.\<close>

fun end_dtaps :: "'h sdram \<Rightarrow> u32 \<Rightarrow> nat \<Rightarrow> u32 \<Rightarrow> u32 \<Rightarrow> ('h, u32 \<times> u32) sq" where
  "end_dtaps B grp 0 d work_end = ret (d, work_end)"
| "end_dtaps B grp (Suc n) d work_end = do {
     scc_mgr_set_dqs_en_delay_all_ranks B grp d;
     ok \<leftarrow> one_bit_read B grp 5;
     if \<not> ok then ret (d, work_end)
     else end_dtaps B grp n (d + 1) (work_end + IO_DELAY_PER_DQS_EN_DCHAIN_TAP)
   }"

section \<open>Step 4: delay taps per phase tap, measured\<close>

text \<open>Delay taps from \<open>d\<close> on, up to the first read with the verdict \<open>want\<close>: where it stops, and whether it found one.\<close>

fun seek_dtap :: "'h sdram \<Rightarrow> u32 \<Rightarrow> bool \<Rightarrow> nat \<Rightarrow> u32 \<Rightarrow> ('h, bool \<times> u32) sq" where
  "seek_dtap B grp want 0 d = ret (False, d)"
| "seek_dtap B grp want (Suc n) d = do {
     scc_mgr_set_dqs_en_delay_all_ranks B grp d;
     ok \<leftarrow> one_bit_read B grp 1;
     if ok = want then ret (True, d) else seek_dtap B grp want n (d + 1)
   }"

definition measure_dtaps :: "'h sdram \<Rightarrow> u32 \<Rightarrow> u32 \<Rightarrow> ('h, unit) sq" where
  "measure_dtaps B grp d = do {
     let initial_failing_dtap = d;
     (found_passing_read, d) \<leftarrow> seek_dtap B grp True (32 - unat d) d;
     (found_failing_read, d) \<leftarrow>
       (if found_passing_read then seek_dtap B grp False (32 - unat (d + 1)) (d + 1) else ret (False, d));
     sdr_wr B REG_FILE_DTAPS_PER_PTAP 0
       (if found_passing_read \<and> found_failing_read then d - initial_failing_dtap else dtaps_per_ptap)
   }"

section \<open>Step 5: the middle\<close>

text \<open>\<open>while (work_mid > tmp_delay) work_mid -= tmp_delay\<close>, for a period that is not 0.\<close>

function fold_back :: "u32 \<Rightarrow> u32 \<Rightarrow> u32" where
  "fold_back period work_mid =
     (if period \<noteq> 0 \<and> work_mid > period then fold_back period (work_mid - period) else work_mid)"
  by pat_completeness auto
termination
  by (relation "measure (\<lambda>(_, w). unat w)") (auto intro!: unat_sub_less)

declare dtaps_loop.simps [simp del] fold_back.simps [simp del]

text \<open>\<open>for (k = 0; k <= max && tmp_delay < work_mid; k++, tmp_delay += step)\<close>, with \<open>n\<close> turns left.\<close>

fun taps_up_to :: "u32 \<Rightarrow> u32 \<Rightarrow> nat \<Rightarrow> u32 \<Rightarrow> u32 \<Rightarrow> u32 \<times> u32" where
  "taps_up_to step work_mid 0 k tmp_delay = (k, tmp_delay)"
| "taps_up_to step work_mid (Suc n) k tmp_delay =
     (if tmp_delay < work_mid then taps_up_to step work_mid n (k + 1) (tmp_delay + step) else (k, tmp_delay))"

definition fifo_period :: u32 where
  "fifo_period = fold (\<lambda>_ t. t + IO_DELAY_PER_OPA_TAP) [0..<8] 0"

text \<open>The phase tap, plus one, and the delay tap; phase 0 is avoided.\<close>

definition centre_taps :: "u32 \<Rightarrow> u32 \<times> u32" where
  "centre_taps mid0 =
     (let work_mid = fold_back fifo_period mid0;
          (p, tmp_delay) = taps_up_to IO_DELAY_PER_OPA_TAP work_mid 8 0 0;
          tmp_delay = tmp_delay - IO_DELAY_PER_OPA_TAP;
          (d, tmp_delay) = taps_up_to IO_DELAY_PER_DQS_EN_DCHAIN_TAP work_mid 32 0 tmp_delay
      in if p = 1 then (2, 0) else (p, d))"

text \<open>\<open>for (i = 0; i < VFIFO_SIZE; i++)\<close>: FIFO positions until a read works.\<close>

fun push_until_pass :: "'h sdram \<Rightarrow> u32 \<Rightarrow> nat \<Rightarrow> u32 \<Rightarrow> ('h, bool) sq" where
  "push_until_pass B grp 0 v = ret False"
| "push_until_pass B grp (Suc n) v = do {
     ok \<leftarrow> one_bit_read B grp 1;
     if ok then ret True
     else do { v \<leftarrow> rw_mgr_incr_vfifo B grp v; push_until_pass B grp n v }
   }"

section \<open>The whole search\<close>

text \<open>From the end of the window on: \<open>p\<close>, \<open>d\<close> are the last setting tried.\<close>

definition settle :: "'h sdram \<Rightarrow> u32 \<Rightarrow> u32 \<Rightarrow> u32 \<Rightarrow> u32 \<Rightarrow> u32 \<Rightarrow> u32 \<Rightarrow> ('h, bool) sq" where
  "settle B grp p d work_bgn work_end v = do {
     (p, v) \<leftarrow> (if p = 0 \<or> p = 1
       then do { v \<leftarrow> rw_mgr_decr_vfifo B grp v; ret (IO_DQS_EN_PHASE_MAX, v) }
       else ret (p - 1, v));
     scc_mgr_set_dqs_en_phase_all_ranks B grp p;
     measure_dtaps B grp d;
     let (p, d) = centre_taps ((work_bgn + work_end) div 2);
     scc_mgr_set_dqs_en_phase_all_ranks B grp (p - 1);
     scc_mgr_set_dqs_en_delay_all_ranks B grp d;
     push_until_pass B grp 16 v
   }"

text \<open>The end of the window in delay taps, and the rest.\<close>

definition window_end :: "'h sdram \<Rightarrow> u32 \<Rightarrow> u32 \<Rightarrow> u32 \<Rightarrow> u32 \<Rightarrow> u32 \<Rightarrow> u32 \<Rightarrow> ('h, bool) sq" where
  "window_end B grp p d work_bgn work_end v = do {
     (d, work_end) \<leftarrow> end_dtaps B grp (32 - unat d) d work_end;
     let work_end = (if d \<noteq> 0 then work_end - IO_DELAY_PER_DQS_EN_DCHAIN_TAP else work_end);
     if work_end \<ge> work_bgn then settle B grp p d work_bgn work_end v else ret False
   }"

definition rw_mgr_mem_calibrate_vfifo_find_dqs_en_phase :: "'h sdram \<Rightarrow> u32 \<Rightarrow> ('h, bool) sq" where
  "rw_mgr_mem_calibrate_vfifo_find_dqs_en_phase B grp = do {
     reg_file_set_sub_stage B CAL_SUBSTAGE_VFIFO_CENTER;
     scc_mgr_set_dqs_en_delay_all_ranks B grp 0;
     scc_mgr_set_dqs_en_phase_all_ranks B grp 1;
     v \<leftarrow> push_until_fail B grp 16 0 0;
     if v \<ge> VFIFO_SIZE then ret False
     else do {
       first \<leftarrow> begin_dtaps B grp (upto32 0 (Suc (unat dtaps_per_ptap))) 0 v;
       case first of
         None \<Rightarrow> ret False
       | Some (d, i, p, work_bgn, v) \<Rightarrow>
           if d = 0 then do {
             w \<leftarrow> window_of_phases B grp i p work_bgn v;
             case w of
               None \<Rightarrow> ret False
             | Some (p, work_bgn, work_end, v) \<Rightarrow> window_end B grp p 0 work_bgn work_end v
           }
           else window_end B grp p d work_bgn work_bgn v
     }
   }"

definition sweep_dq_in_delay :: "'h sdram \<Rightarrow> u32 \<Rightarrow> u32 \<Rightarrow> u32 \<Rightarrow> ('h, bool) sq" where
  "sweep_dq_in_delay B write_group read_group test_bgn = do {
     let delay_step = 31 div (RW_MGR_MEM_DQ_PER_READ_DQS - 1);
     for_each (\<lambda>r. do {
       for_each (\<lambda>i. do {
         scc_mgr_set_dq_in_delay B write_group (test_bgn + i) (i * delay_step);
         scc_mgr_load_dq B (test_bgn + i)
       }) (upto32 0 8);
       scc_upd B
     }) (upto32 0 1);
     found \<leftarrow> rw_mgr_mem_calibrate_vfifo_find_dqs_en_phase B read_group;
     for_each (\<lambda>r. do {
       for_each (\<lambda>i. do {
         scc_mgr_set_dq_in_delay B write_group (test_bgn + i) 0;
         scc_mgr_load_dq B (test_bgn + i)
       }) (upto32 0 8);
       scc_upd B
     }) (upto32 0 1);
     ret found
   }"

end
