(* ===== verification/Seq_Center.thy ===== *)
theory Seq_Center
  imports Seq_Tests "HOL-Library.Signed_Division"
begin

text \<open>
  Per-bit deskew (\<open>sequencer.c\<close>): \<open>rw_mgr_mem_calibrate_vfifo_center\<close> for reads,
  \<open>rw_mgr_mem_calibrate_writes_center\<close> for writes.  Delays of the data pins, then of the
  strobe, are swept up to find for each bit the left and the right edge of its window; the
  pins are then shifted so that every window is centred on the strobe.

  \<open>alt_32\<close> values (edges, margins, shifts) are integers: they stay within a few hundred as
  long as the delay registers hold delays.  A register value enters as \<open>sint\<close> and leaves as
  \<open>of_int\<close>; where C mixes signed and unsigned, the operation is on words.  32 stands for
  "no edge seen yet".  \<open>IO_SHIFT_DQS_EN_WHEN_SHIFT_DQS\<close> and \<open>ENABLE_DQS_OUT_CENTERING\<close> are 0.
\<close>

section \<open>Edges\<close>

text \<open>The two arrays, as a list of pairs (left edge, right edge).\<close>

type_synonym edges = "(int \<times> int) list"

abbreviation (input) NO_EDGE :: int where "NO_EDGE \<equiv> 32"

definition no_edges :: edges where
  "no_edges = replicate 8 (NO_EDGE, NO_EDGE)"

text \<open>One pass over the bits, \<open>bit_chk\<close> shifted right after each.\<close>

fun edge_pass :: "(bool \<Rightarrow> int \<times> int \<Rightarrow> int \<times> int) \<Rightarrow> u32 \<Rightarrow> edges \<Rightarrow> edges" where
  "edge_pass f bit_chk [] = []"
| "edge_pass f bit_chk (e # es) = f (bit_chk AND 1 \<noteq> 0) e # edge_pass f (drop_bit 1 bit_chk) es"

definition left_step :: "u32 \<Rightarrow> bool \<Rightarrow> int \<times> int \<Rightarrow> int \<times> int" where
  "left_step d ok = (\<lambda>(l, r).
     if ok then (sint d, r)
     else if l = NO_EDGE then (l, sint (- (d + 1)))
     else (l, r))"

definition right_step :: "u32 \<Rightarrow> bool \<Rightarrow> int \<times> int \<Rightarrow> int \<times> int" where
  "right_step d ok = (\<lambda>(l, r).
     if ok then (l, sint d)
     else if d \<noteq> 0 then (if r = NO_EDGE then (sint (- (d + 1)), r) else (l, r))
     else if r = NO_EDGE \<and> l \<noteq> NO_EDGE then (l, - 1)
     else if r = NO_EDGE then (sint (- (d + 1)), r)
     else (l, r))"

text \<open>Between the two sweeps: a bit without a left edge forgets its right edge.\<close>

definition drop_half_edges :: "edges \<Rightarrow> edges" where
  "drop_half_edges = map (\<lambda>(l, r). if l = NO_EDGE \<and> r \<noteq> NO_EDGE then (l, NO_EDGE) else (l, r))"

text \<open>\<open>for (i = 7;; i--) sticky = sticky << 1 | ...\<close>\<close>

definition sticky_of :: "(int \<times> int \<Rightarrow> bool) \<Rightarrow> edges \<Rightarrow> u32" where
  "sticky_of seen es =
     fold (\<lambda>e s. if seen e then push_bit 1 s OR 1 else push_bit 1 s) (rev es) 0"

text \<open>The smallest difference of the edges, and the first bit that has it.\<close>

definition min_mid :: "edges \<Rightarrow> int \<times> nat" where
  "min_mid es = fold (\<lambda>i (mid_min, min_index).
     let mid = fst (es ! i) - snd (es ! i)
     in if mid < mid_min then (mid, i) else (mid_min, min_index))
     [1..<8] (fst (es ! 0) - snd (es ! 0), 0)"

definition half_up :: "int \<Rightarrow> int" where
  "half_up m = (if m > 0 then m + 1 else m) sdiv 2"

definition missing_edge :: "int \<times> int \<Rightarrow> bool" where
  "missing_edge = (\<lambda>(l, r). l = NO_EDGE \<or> r = NO_EDGE)"

text \<open>The first bit of a list that lacks an edge.\<close>

fun first_missing :: "u32 \<Rightarrow> edges \<Rightarrow> u32 option" where
  "first_missing i [] = None"
| "first_missing i (e # es) = (if missing_edge e then Some i else first_missing (i + 1) es)"

section \<open>Reads\<close>

text \<open>The test of one setting: \<open>stop\<close> and the bits that passed.\<close>

definition center_test :: "'h sdram \<Rightarrow> u32 \<Rightarrow> u32 \<Rightarrow> u32 \<Rightarrow> bool \<Rightarrow> ('h, bool \<times> u32) sq" where
  "center_test B rank_bgn write_group read_group use_read_test =
     (if use_read_test then do {
        (ok, bit_chk) \<leftarrow> rw_mgr_mem_calibrate_read_test B rank_bgn read_group NUM_READ_PB_TESTS PASS_ONE_BIT False False;
        ret (\<not> ok, bit_chk)
      } else do {
        (ok, bit_chk) \<leftarrow> rw_mgr_mem_calibrate_write_test B rank_bgn write_group False PASS_ONE_BIT False;
        let bit_chk = drop_bit (unat (RW_MGR_MEM_DQ_PER_READ_DQS *
          (read_group - write_group * RW_MGR_MEM_IF_READ_DQS_WIDTH div RW_MGR_MEM_IF_WRITE_DQS_WIDTH))) bit_chk;
        ret (bit_chk = 0, bit_chk)
      })"

text \<open>A sweep: set a delay, test, extend the edges; it stops when no bit passes any more.\<close>

fun edge_sweep :: "(u32 \<Rightarrow> ('h, unit) sq) \<Rightarrow> ('h, bool \<times> u32) sq \<Rightarrow> u32 \<Rightarrow> (u32 \<Rightarrow> bool \<Rightarrow> int \<times> int \<Rightarrow> int \<times> int)
    \<Rightarrow> u32 list \<Rightarrow> u32 \<Rightarrow> edges \<Rightarrow> ('h, edges) sq" where
  "edge_sweep setter test full_mask step [] sticky es = ret es"
| "edge_sweep setter test full_mask step (d # ds) sticky es = do {
     setter d;
     (stop, bit_chk) \<leftarrow> test;
     let sticky = sticky OR bit_chk;
     if stop \<and> sticky = full_mask then ret es
     else edge_sweep setter test full_mask step ds sticky (edge_pass (step d) bit_chk es)
   }"

text \<open>
  The delays of the strobe sweep: \<open>for (d = 0; d <= 31 - start_dqs; d++)\<close> compares an
  unsigned \<open>d\<close>.  For a start of 32 the bound is \<open>2 ^ 32 - 1\<close> and the loop would only end by its
  \<open>break\<close>; it is cut here after \<open>2 ^ 32\<close> turns.
\<close>

definition strobe_delays :: "int \<Rightarrow> u32 list" where
  "strobe_delays start_dqs = upto32 0 (Suc (unat (of_int (31 - start_dqs) :: u32)))"

text \<open>One bit of the final loop: its shift, then its delay written and loaded, and the margins.\<close>

definition center_bit :: "'h sdram \<Rightarrow> u32 \<Rightarrow> u32 \<Rightarrow> edges \<Rightarrow> nat \<Rightarrow> int \<Rightarrow> int \<Rightarrow> nat \<Rightarrow> int \<times> int
    \<Rightarrow> ('h, int \<times> int) sq" where
  "center_bit B write_group test_bgn es min_index orig_mid_min mid_min i = (\<lambda>(dq_margin, dqs_margin). do {
     let p = test_bgn + of_nat i;
     let (l, r) = es ! i;
     let shift_dq = (l - r - (fst (es ! min_index) - snd (es ! min_index))) sdiv 2 + (orig_mid_min - mid_min);
     v \<leftarrow> READ_SCC_DQ_IN_DELAY B p;
     shift_dq \<leftarrow> (if shift_dq + sint v > 31 then do {
         v \<leftarrow> READ_SCC_DQ_IN_DELAY B (of_nat i);
         ret (sint (31 - v))
       } else do {
         v \<leftarrow> READ_SCC_DQ_IN_DELAY B p;
         if shift_dq + sint v < 0
         then do { v \<leftarrow> READ_SCC_DQ_IN_DELAY B p; ret (- sint v) }
         else ret shift_dq
       });
     v \<leftarrow> READ_SCC_DQ_IN_DELAY B p;
     let final_dq = sint (v + of_int shift_dq);
     scc_mgr_set_dq_in_delay B write_group p (of_int final_dq);
     scc_mgr_load_dq B p;
     ret (min dq_margin (l - shift_dq + (- mid_min)), min dqs_margin (r + shift_dq - (- mid_min)))
   })"

text \<open>The strobe's new delay, clamped, and how far it moves.\<close>

definition clamp_dqs :: "int \<Rightarrow> int \<Rightarrow> int" where
  "clamp_dqs start_dqs mid_min =
     (let new_dqs = start_dqs - mid_min
      in if new_dqs > 31 then 31 else if new_dqs < 0 then 0 else new_dqs)"

text \<open>No usable window: the strobe goes back, the error is recorded.\<close>

definition center_fail :: "'h sdram \<Rightarrow> u32 \<Rightarrow> bool \<Rightarrow> int \<Rightarrow> u32 \<Rightarrow> ('h, bool) sq" where
  "center_fail B read_group use_read_test start_dqs i = do {
     scc_mgr_set_dqs_bus_in_delay B read_group (of_int start_dqs);
     scc_mgr_load_dqs B read_group;
     scc_upd B;
     set_failing_group_stage (read_group * RW_MGR_MEM_DQ_PER_READ_DQS + i)
       (if use_read_test then CAL_STAGE_VFIFO else CAL_STAGE_VFIFO_AFTER_WRITES) CAL_SUBSTAGE_VFIFO_CENTER;
     ret False
   }"

text \<open>The shifts, the strobe, the figure of merit.\<close>

definition center_apply :: "'h sdram \<Rightarrow> u32 \<Rightarrow> u32 \<Rightarrow> u32 \<Rightarrow> bool \<Rightarrow> int \<Rightarrow> edges \<Rightarrow> ('h, bool) sq" where
  "center_apply B write_group read_group test_bgn update_fom start_dqs es = do {
     let (mid_min, min_index) = min_mid es;
     let orig_mid_min = half_up mid_min;
     let new_dqs = clamp_dqs start_dqs orig_mid_min;
     let mid_min = start_dqs - new_dqs;
     let new_dqs = start_dqs - mid_min;
     (dq_margin, dqs_margin) \<leftarrow>
       for_fold (center_bit B write_group test_bgn es min_index orig_mid_min mid_min) [0..<8] (32, 32);
     scc_mgr_set_dqs_bus_in_delay B read_group (of_int new_dqs);
     scc_mgr_load_dqs B read_group;
     (if update_fom then changes (\<lambda>s. s\<lparr>gbl := (gbl s)\<lparr>fom_in := fom_in (gbl s) +
        of_int ((dq_margin + dqs_margin) sdiv (4 div 4))\<rparr>\<rparr>) else ret ());
     scc_upd B;
     ret (dq_margin \<ge> 0 \<and> dqs_margin \<ge> 0)
   }"

definition rw_mgr_mem_calibrate_vfifo_center ::
  "'h sdram \<Rightarrow> u32 \<Rightarrow> u32 \<Rightarrow> u32 \<Rightarrow> u32 \<Rightarrow> bool \<Rightarrow> bool \<Rightarrow> ('h, bool) sq" where
  "rw_mgr_mem_calibrate_vfifo_center B rank_bgn write_group read_group test_bgn use_read_test update_fom = do {
     v \<leftarrow> READ_SCC_DQS_IN_DELAY B read_group;
     let start_dqs = sint v;
     full_mask \<leftarrow> reads (\<lambda>s. read_correct_mask (param s));
     let test = center_test B rank_bgn write_group read_group use_read_test;
     es \<leftarrow> edge_sweep (\<lambda>d. do { scc_mgr_apply_group_dq_in_delay B write_group test_bgn d; scc_upd B })
       test full_mask left_step (upto32 0 32) 0 no_edges;
     scc_mgr_apply_group_dq_in_delay B write_group test_bgn 0;
     let es = drop_half_edges es;
     es \<leftarrow> edge_sweep (\<lambda>d. do {
         scc_mgr_set_dqs_bus_in_delay B read_group (d + of_int start_dqs);
         scc_mgr_load_dqs B read_group;
         scc_upd B
       }) test full_mask right_step (strobe_delays start_dqs) (sticky_of (\<lambda>e. \<not> missing_edge e) es) es;
     case first_missing 0 es of
       Some i \<Rightarrow> center_fail B read_group use_read_test start_dqs i
     | None \<Rightarrow> center_apply B write_group read_group test_bgn update_fom start_dqs es
   }"

section \<open>Writes: the data pins\<close>

text \<open>
  The sweep of the strobe for writes: like that for reads, but a setting at which nothing
  passes any more gives a missing right edge its value when it is the first.
\<close>

definition close_right_edges :: "edges \<Rightarrow> edges" where
  "close_right_edges = map (\<lambda>(l, r). if r = NO_EDGE \<and> l \<noteq> NO_EDGE then (l, - 1) else (l, r))"

fun write_strobe_sweep :: "'h sdram \<Rightarrow> u32 \<Rightarrow> u32 \<Rightarrow> int \<Rightarrow> u32 \<Rightarrow> u32 list \<Rightarrow> u32 \<Rightarrow> edges \<Rightarrow> ('h, edges) sq" where
  "write_strobe_sweep B rank_bgn write_group start_dqs full_mask [] sticky es = ret es"
| "write_strobe_sweep B rank_bgn write_group start_dqs full_mask (d # ds) sticky es = do {
     scc_mgr_apply_group_dqs_io_and_oct_out1 B write_group (d + of_int start_dqs);
     scc_upd B;
     (ok, bit_chk) \<leftarrow> rw_mgr_mem_calibrate_write_test B rank_bgn write_group False PASS_ONE_BIT False;
     let sticky = sticky OR bit_chk;
     if \<not> ok \<and> sticky = full_mask then ret (if d = 0 then close_right_edges es else es)
     else write_strobe_sweep B rank_bgn write_group start_dqs full_mask ds sticky
            (edge_pass (right_step d) bit_chk es)
   }"

text \<open>\<open>for (d = 0; d <= 31 - start_dqs; d++)\<close> with a signed \<open>d\<close>.\<close>

definition signed_delays :: "int \<Rightarrow> u32 list" where
  "signed_delays start_dqs = upto32 0 (nat (32 - start_dqs))"

definition write_center_bit :: "'h sdram \<Rightarrow> u32 \<Rightarrow> edges \<Rightarrow> nat \<Rightarrow> int \<Rightarrow> int \<Rightarrow> nat \<Rightarrow> int \<times> int
    \<Rightarrow> ('h, int \<times> int) sq" where
  "write_center_bit B write_group es min_index orig_mid_min mid_min i = (\<lambda>(dq_margin, dqs_margin). do {
     let (l, r) = es ! i;
     let shift_dq = (l - r - (fst (es ! min_index) - snd (es ! min_index))) sdiv 2 + (orig_mid_min - mid_min);
     v \<leftarrow> READ_SCC_DQ_OUT1_DELAY B (of_nat i);
     shift_dq \<leftarrow> (if shift_dq + sint v > 31 then do {
         v \<leftarrow> READ_SCC_DQ_OUT1_DELAY B (of_nat i);
         ret (sint (31 - v))
       } else do {
         v \<leftarrow> READ_SCC_DQ_OUT1_DELAY B (of_nat i);
         if shift_dq + sint v < 0
         then do { v \<leftarrow> READ_SCC_DQ_OUT1_DELAY B (of_nat i); ret (- sint v) }
         else ret shift_dq
       });
     v \<leftarrow> READ_SCC_DQ_OUT1_DELAY B (of_nat i);
     scc_mgr_set_dq_out1_delay B write_group (of_nat i) (v + of_int shift_dq);
     scc_mgr_load_dq B (of_nat i);
     ret (min dq_margin (l - shift_dq + (- mid_min)), min dqs_margin (r + shift_dq - (- mid_min)))
   })"

section \<open>Writes: the data mask\<close>

text \<open>
  The window of the mask pin: the current run of passing settings and the best one.
  Settings are numbered along one axis: \<open>- d\<close> for a delay \<open>d\<close> of the mask, \<open>d\<close> for one of the
  strobe.
\<close>

record dm_window =
  bgn_curr :: int
  end_curr :: int
  bgn_best :: int
  end_best :: int
  win_best :: int

definition dm_start :: dm_window where
  "dm_start = \<lparr>bgn_curr = NO_EDGE, end_curr = NO_EDGE, bgn_best = NO_EDGE, end_best = NO_EDGE, win_best = 0\<rparr>"

definition dm_note :: "int \<Rightarrow> bool \<Rightarrow> dm_window \<Rightarrow> dm_window" where
  "dm_note pos ok w =
     (if ok then
        let b = (if bgn_curr w = NO_EDGE then pos else bgn_curr w);
            w = w\<lparr>bgn_curr := b, end_curr := pos\<rparr>
        in if pos - b + 1 > win_best w
           then w\<lparr>win_best := pos - b + 1, bgn_best := b, end_best := pos\<rparr> else w
      else w\<lparr>bgn_curr := NO_EDGE, end_curr := NO_EDGE\<rparr>)"

text \<open>After the sweep of the mask: a run that does not reach delay 0 is over.\<close>

definition dm_turn :: "dm_window \<Rightarrow> dm_window" where
  "dm_turn w = (if end_curr w \<noteq> 0 then w\<lparr>bgn_curr := NO_EDGE, end_curr := NO_EDGE\<rparr> else w)"

definition dm_test :: "'h sdram \<Rightarrow> u32 \<Rightarrow> u32 \<Rightarrow> ('h, bool) sq" where
  "dm_test B rank_bgn write_group = do {
     (ok, bit_chk) \<leftarrow> rw_mgr_mem_calibrate_write_test B rank_bgn write_group True PASS_ALL_BITS False;
     ret ok
   }"

definition dm_sweep_mask :: "'h sdram \<Rightarrow> u32 \<Rightarrow> u32 \<Rightarrow> dm_window \<Rightarrow> ('h, dm_window) sq" where
  "dm_sweep_mask B rank_bgn write_group = for_fold (\<lambda>d w. do {
     scc_mgr_apply_group_dm_out1_delay B write_group d;
     scc_upd B;
     ok \<leftarrow> dm_test B rank_bgn write_group;
     ret (dm_note (- sint d) ok w)
   }) (rev (upto32 0 32))"

fun dm_sweep_strobe :: "'h sdram \<Rightarrow> u32 \<Rightarrow> u32 \<Rightarrow> int \<Rightarrow> u32 list \<Rightarrow> dm_window \<Rightarrow> ('h, dm_window) sq" where
  "dm_sweep_strobe B rank_bgn write_group new_dqs [] w = ret w"
| "dm_sweep_strobe B rank_bgn write_group new_dqs (d # ds) w = do {
     scc_mgr_apply_group_dqs_io_and_oct_out1 B write_group (d + of_int new_dqs);
     scc_upd B;
     ok \<leftarrow> dm_test B rank_bgn write_group;
     let w = dm_note (sint d) ok w;
     if \<not> ok \<and> win_best w - 1 > 31 - new_dqs - sint d then ret w
     else dm_sweep_strobe B rank_bgn write_group new_dqs ds w
   }"

text \<open>The delay of the mask and its margin.\<close>

definition dm_center :: "dm_window \<Rightarrow> int \<times> int" where
  "dm_center w =
     (let left_edge = - 1 * bgn_best w; right_edge = end_best w;
          mid = (left_edge - right_edge) sdiv 2; mid = (if mid < 0 then 0 else mid)
      in (mid, if win_best w = 0 then - 1 else left_edge - mid))"

definition calibrate_dm :: "'h sdram \<Rightarrow> u32 \<Rightarrow> u32 \<Rightarrow> int \<Rightarrow> ('h, int) sq" where
  "calibrate_dm B rank_bgn write_group new_dqs = do {
     w \<leftarrow> dm_sweep_mask B rank_bgn write_group dm_start;
     scc_mgr_apply_group_dm_out1_delay B write_group 0;
     w \<leftarrow> dm_sweep_strobe B rank_bgn write_group new_dqs (signed_delays new_dqs) (dm_turn w);
     scc_mgr_apply_group_dqs_io_and_oct_out1 B write_group (of_int new_dqs);
     let (mid, dm_margin) = dm_center w;
     scc_mgr_apply_group_dm_out1_delay B write_group (of_int mid);
     scc_upd B;
     ret dm_margin
   }"

definition write_center_apply :: "'h sdram \<Rightarrow> u32 \<Rightarrow> u32 \<Rightarrow> int \<Rightarrow> edges \<Rightarrow> ('h, bool) sq" where
  "write_center_apply B rank_bgn write_group start_dqs es = do {
     let (mid_min, min_index) = min_mid es;
     let orig_mid_min = half_up mid_min;
     let new_dqs = start_dqs;
     (dq_margin, dqs_margin) \<leftarrow>
       for_fold (write_center_bit B write_group es min_index orig_mid_min 0) [0..<8] (32, 32);
     scc_mgr_apply_group_dqs_io_and_oct_out1 B write_group (of_int new_dqs);
     scc_upd B;
     dm_margin \<leftarrow> calibrate_dm B rank_bgn write_group new_dqs;
     changes (\<lambda>s. s\<lparr>gbl := (gbl s)\<lparr>fom_out := fom_out (gbl s) + of_int (dq_margin + dqs_margin)\<rparr>\<rparr>);
     scc_upd B;
     ret (dq_margin \<ge> 0 \<and> dqs_margin \<ge> 0 \<and> dm_margin \<ge> 0)
   }"

definition rw_mgr_mem_calibrate_writes_center :: "'h sdram \<Rightarrow> u32 \<Rightarrow> u32 \<Rightarrow> u32 \<Rightarrow> ('h, bool) sq" where
  "rw_mgr_mem_calibrate_writes_center B rank_bgn write_group test_bgn = do {
     v \<leftarrow> READ_SCC_DQS_IO_OUT1_DELAY B;
     let start_dqs = sint v;
     full_mask \<leftarrow> reads (\<lambda>s. write_correct_mask (param s));
     es \<leftarrow> edge_sweep (\<lambda>d. do { scc_mgr_apply_group_dq_out1_delay B write_group test_bgn d; scc_upd B })
       (do {
         (ok, bit_chk) \<leftarrow> rw_mgr_mem_calibrate_write_test B rank_bgn write_group False PASS_ONE_BIT False;
         ret (\<not> ok, bit_chk)
       }) full_mask left_step (upto32 0 32) 0 no_edges;
     scc_mgr_apply_group_dq_out1_delay B write_group test_bgn 0;
     let es = drop_half_edges es;
     es \<leftarrow> write_strobe_sweep B rank_bgn write_group start_dqs full_mask (signed_delays start_dqs)
       (sticky_of (\<lambda>e. fst e \<noteq> NO_EDGE) es) es;
     case first_missing 0 es of
       Some i \<Rightarrow> do {
         set_failing_group_stage (test_bgn + i) CAL_STAGE_WRITES CAL_SUBSTAGE_WRITES_CENTER;
         ret False
       }
     | None \<Rightarrow> write_center_apply B rank_bgn write_group start_dqs es
   }"

end
