(* ===== verification/Seq_Main.thy ===== *)
theory Seq_Main
  imports Seq_EnPhase Seq_Center
begin

text \<open>
  The stages of the calibration and its entry points (\<open>sequencer.c\<close>): the read-valid FIFO of
  a group, its writes, the read latency, the loop over the groups, and
  \<open>sdram_calibration\<close>, which the boot loader calls.

  \<open>initialize_hps_phy\<close> packs its fields with macros of the boot loader's \<open>sdram.h\<close>; they are
  the record \<open>phyctrl\<close>.  The two ROM images are generated tables, the parameters \<open>inst\<close> and
  \<open>ac\<close>.  Groups of debug, report and TCL code are not compiled in this build.
\<close>

section \<open>The read-valid FIFO\<close>

text \<open>Loops over the shadow registers that are not skipped; there is one, for rank 0.\<close>

definition for_shadow_regs :: "(u32 \<Rightarrow> 'b \<Rightarrow> ('h, 'b) sq) \<Rightarrow> 'b \<Rightarrow> ('h, 'b) sq" where
  "for_shadow_regs body = for_fold (\<lambda>sr b. do {
     skip \<leftarrow> reads (\<lambda>s. skip_shadow_regs (param s) ! unat sr);
     if skip \<noteq> 0 then ret b else body sr b
   }) (upto32 0 1)"

definition set_dqs_in :: "'h sdram \<Rightarrow> u32 \<Rightarrow> u32 \<Rightarrow> ('h, unit) sq" where
  "set_dqs_in B read_group delay = do {
     WRITE_SCC_DQS_IN_DELAY B read_group delay;
     scc_mgr_load_dqs B read_group;
     scc_upd B
   }"

text \<open>The loop over \<open>dqs_in_dtaps\<close>: whether the group is calibrated, and the failed substage.\<close>

fun vfifo_strobes :: "'h sdram \<Rightarrow> u32 \<Rightarrow> u32 \<Rightarrow> u32 \<Rightarrow> u32 \<Rightarrow> u32 list \<Rightarrow> u32 \<Rightarrow> ('h, bool \<times> u32) sq" where
  "vfifo_strobes B write_group read_group test_bgn orig_start_dqs [] failed_substage = ret (False, failed_substage)"
| "vfifo_strobes B write_group read_group test_bgn orig_start_dqs (dqs_in_dtaps # ds) failed_substage = do {
     for_shadow_regs (\<lambda>rank_bgn _. set_dqs_in B read_group dqs_in_dtaps) ();
     found \<leftarrow> sweep_dq_in_delay B write_group read_group test_bgn;
     (grp_calibrated, failed_substage) \<leftarrow>
       (if found then for_shadow_regs (\<lambda>rank_bgn (cal, failed). do {
            set_dqs_in B read_group orig_start_dqs;
            ok \<leftarrow> rw_mgr_mem_calibrate_vfifo_center B rank_bgn write_group read_group test_bgn True False;
            ret (if ok then (cal, failed) else (False, CAL_SUBSTAGE_VFIFO_CENTER))
          }) (True, failed_substage)
        else ret (False, CAL_SUBSTAGE_DQS_EN_PHASE));
     if grp_calibrated then ret (True, failed_substage)
     else vfifo_strobes B write_group read_group test_bgn orig_start_dqs ds failed_substage
   }"

text \<open>
  The loop over the output phases.  It ends when the group is calibrated, or when the
  guaranteed read fails.  \<open>recover_mem_device_after_ck_dqs_violation\<close> is empty.
\<close>

fun vfifo_phases :: "'h sdram \<Rightarrow> u32 \<Rightarrow> u32 \<Rightarrow> u32 \<Rightarrow> u32 list \<Rightarrow> u32 \<Rightarrow> ('h, bool \<times> u32) sq" where
  "vfifo_phases B write_group read_group test_bgn [] failed_substage = ret (False, failed_substage)"
| "vfifo_phases B write_group read_group test_bgn (p # ps) failed_substage = do {
     scc_mgr_set_dqdqs_output_phase_all_ranks B read_group p;
     rw_mgr_mem_calibrate_read_load_patterns_all_ranks B;
     flags \<leftarrow> reads (\<lambda>s. phy_debug_mode_flags (gbl s));
     guaranteed \<leftarrow> (if flags AND PHY_DEBUG_DISABLE_GUARANTEED_READ = 0
       then rw_mgr_mem_calibrate_read_test_patterns_all_ranks B read_group 1 else ret True);
     if \<not> guaranteed then ret (False, failed_substage)
     else do {
       orig_start_dqs \<leftarrow> READ_SCC_DQS_IN_DELAY B read_group;
       (grp_calibrated, failed_substage) \<leftarrow> vfifo_strobes B write_group read_group test_bgn orig_start_dqs
         (upto32 (unat orig_start_dqs) 32) failed_substage;
       if grp_calibrated then ret (True, failed_substage)
       else vfifo_phases B write_group read_group test_bgn ps failed_substage
     }
   }"

text \<open>The loop over \<open>d\<close>, by twos; the second result is \<open>d\<close> after the loop's last increment.\<close>

fun vfifo_dtaps :: "'h sdram \<Rightarrow> u32 \<Rightarrow> u32 \<Rightarrow> u32 \<Rightarrow> u32 \<Rightarrow> u32 list \<Rightarrow> u32 \<Rightarrow> u32 \<Rightarrow> ('h, bool \<times> u32 \<times> u32) sq" where
  "vfifo_dtaps B write_group write_test_bgn read_group test_bgn [] d_end failed_substage =
     ret (False, d_end, failed_substage)"
| "vfifo_dtaps B write_group write_test_bgn read_group test_bgn (d # ds) d_end failed_substage = do {
     (if d > 0 then scc_mgr_apply_group_all_out_delay_add_all_ranks B write_group write_test_bgn d else ret ());
     (grp_calibrated, failed_substage) \<leftarrow> vfifo_phases B write_group read_group test_bgn
       (upto32 0 (Suc (unat IO_DQDQS_OUT_PHASE_MAX))) failed_substage;
     if grp_calibrated then ret (True, d + 2, failed_substage)
     else vfifo_dtaps B write_group write_test_bgn read_group test_bgn ds (d + 2) failed_substage
   }"

text \<open>\<open>DDRX\<close>: the write group is the read group.\<close>

definition rw_mgr_mem_calibrate_vfifo :: "'h sdram \<Rightarrow> u32 \<Rightarrow> u32 \<Rightarrow> ('h, bool) sq" where
  "rw_mgr_mem_calibrate_vfifo B read_group test_bgn = do {
     reg_file_set_stage B CAL_STAGE_VFIFO;
     let write_group = read_group;
     let write_test_bgn = test_bgn;
     reg_file_set_group B read_group;
     reg_file_set_sub_stage B CAL_SUBSTAGE_GUARANTEED_READ;
     (grp_calibrated, d, failed_substage) \<leftarrow>
       vfifo_dtaps B write_group write_test_bgn read_group test_bgn
         (map (\<lambda>k. 2 * of_nat k) [0..<Suc (unat dtaps_per_ptap div 2)]) 0 CAL_SUBSTAGE_GUARANTEED_READ;
     if \<not> grp_calibrated then do {
       set_failing_group_stage write_group CAL_STAGE_VFIFO failed_substage;
       ret False
     } else do {
       (if d > 2 then scc_mgr_zero_group B write_group write_test_bgn True else ret ());
       ret True
     }
   }"

definition rw_mgr_mem_calibrate_vfifo_end :: "'h sdram \<Rightarrow> u32 \<Rightarrow> u32 \<Rightarrow> ('h, bool) sq" where
  "rw_mgr_mem_calibrate_vfifo_end B read_group test_bgn = do {
     reg_file_set_stage B CAL_STAGE_VFIFO_AFTER_WRITES;
     reg_file_set_sub_stage B CAL_SUBSTAGE_VFIFO_CENTER;
     let write_group = read_group;
     reg_file_set_group B read_group;
     grp_calibrated \<leftarrow> for_shadow_regs (\<lambda>rank_bgn cal. do {
       ok \<leftarrow> rw_mgr_mem_calibrate_vfifo_center B rank_bgn write_group read_group test_bgn False True;
       ret (cal \<and> ok)
     }) True;
     if \<not> grp_calibrated then do {
       set_failing_group_stage write_group CAL_STAGE_VFIFO_AFTER_WRITES CAL_SUBSTAGE_VFIFO_CENTER;
       ret False
     } else ret True
   }"

section \<open>Writes and read latency\<close>

definition rw_mgr_mem_calibrate_writes :: "'h sdram \<Rightarrow> u32 \<Rightarrow> u32 \<Rightarrow> u32 \<Rightarrow> ('h, bool) sq" where
  "rw_mgr_mem_calibrate_writes B rank_bgn g test_bgn = do {
     reg_file_set_stage B CAL_STAGE_WRITES;
     reg_file_set_sub_stage B CAL_SUBSTAGE_WRITES_CENTER;
     reg_file_set_group B g;
     ok \<leftarrow> rw_mgr_mem_calibrate_writes_center B rank_bgn g test_bgn;
     if \<not> ok then do {
       set_failing_group_stage g CAL_STAGE_WRITES CAL_SUBSTAGE_WRITES_CENTER;
       ret False
     } else ret True
   }"

definition set_curr_read_lat :: "u32 \<Rightarrow> ('h, unit) sq" where
  [prog_defs]: "set_curr_read_lat lat = changes (\<lambda>s. s\<lparr>gbl := (gbl s)\<lparr>curr_read_lat := lat\<rparr>\<rparr>)"

text \<open>
  The do-while loop; \<open>lat\<close> is \<open>gbl->curr_read_lat\<close>.  It ends at the first failing test, or when
  the latency has come down to 0; a latency of 0 would wrap around.
\<close>

function lfifo_loop :: "'h sdram \<Rightarrow> u32 \<Rightarrow> bool \<Rightarrow> ('h, bool) sq" where
  "lfifo_loop B lat found_one = do {
     sdr_wr B PHY_MGR_PHY_RLAT 0 lat;
     ok \<leftarrow> rw_mgr_mem_calibrate_read_test_all_ranks B 0 NUM_READ_TESTS PASS_ALL_BITS True;
     if \<not> ok then ret found_one
     else do {
       set_curr_read_lat (lat - 1);
       if lat - 1 > 0 then lfifo_loop B (lat - 1) True else ret True
     }
   }"
  by pat_completeness auto
termination
  by (relation "measure (\<lambda>(_, lat, _). unat (lat - 1))") (auto intro!: unat_minus_two_less)

declare lfifo_loop.simps [simp del]

definition rw_mgr_mem_calibrate_lfifo :: "'h sdram \<Rightarrow> ('h, bool) sq" where
  "rw_mgr_mem_calibrate_lfifo B = do {
     reg_file_set_stage B CAL_STAGE_LFIFO;
     reg_file_set_sub_stage B CAL_SUBSTAGE_READ_LATENCY;
     rw_mgr_mem_calibrate_read_load_patterns_all_ranks B;
     lat \<leftarrow> reads (\<lambda>s. curr_read_lat (gbl s));
     found_one \<leftarrow> lfifo_loop B lat False;
     sdr_wr B PHY_MGR_CMD_FIFO_RESET 0 0;
     if found_one then do {
       lat \<leftarrow> reads (\<lambda>s. curr_read_lat (gbl s));
       set_curr_read_lat (lat + 2);
       sdr_wr B PHY_MGR_PHY_RLAT 0 (lat + 2);
       ret True
     } else do {
       set_failing_group_stage 0xFF CAL_STAGE_LFIFO CAL_SUBSTAGE_READ_LATENCY;
       ret False
     }
   }"

section \<open>Configuration\<close>

text \<open>Full rate: \<open>QUARTER_RATE_MODE\<close> and \<open>HALF_RATE_MODE\<close> are 0; \<open>MAX_LATENCY_COUNT_WIDTH\<close> is 5.\<close>

definition max_latency :: u32 where
  "max_latency = push_bit 5 1 div 1 - 1"

definition mem_config :: "'h sdram \<Rightarrow> ('h, unit) sq" where
  "mem_config B = do {
     wl \<leftarrow> sdr_rd B DATA_MGR_MEM_T_WL 0;
     t_add \<leftarrow> sdr_rd B DATA_MGR_MEM_T_ADD 0;
     let wlat = wl + t_add + 1;
     rlat \<leftarrow> sdr_rd B DATA_MGR_MEM_T_RL 0;
     changes (\<lambda>s. s\<lparr>gbl := (gbl s)\<lparr>rw_wl_nop_cycles := wlat - 2\<rparr>\<rparr>);
     let wlat = wlat + 1;
     let lat = (if rlat + 16 > max_latency then max_latency else rlat + 16);
     set_curr_read_lat lat;
     sdr_wr B PHY_MGR_PHY_RLAT 0 lat;
     changes (\<lambda>s. s\<lparr>gbl := (gbl s)\<lparr>curr_write_lat := wlat\<rparr>\<rparr>);
     sdr_wr B PHY_MGR_AFI_WLAT 0 (wlat - 2);
     mem_precharge_and_activate B
   }"

text \<open>\<open>1.25 * IO_DLL_CHAIN_LENGTH - 2\<close> is 8; \<open>CALIB_VFIFO_OFFSET\<close> is 6, \<open>CALIB_LFIFO_OFFSET\<close> is 8.\<close>

definition mem_skip_calibrate :: "'h sdram \<Rightarrow> ('h, unit) sq" where
  "mem_skip_calibrate B = do {
     for_each (\<lambda>r. do {
       for_each (\<lambda>i. do {
         scc_mgr_set_dqs_en_phase B i 0;
         scc_mgr_set_dqdqs_output_phase B i 8
       }) (upto32 0 4);
       sdr_wr B SCC_MGR_DQS_ENA 0 0xFF;
       sdr_wr B SCC_MGR_DQS_IO_ENA 0 0xFF;
       for_each (\<lambda>i. do {
         sdr_wr B SCC_MGR_GROUP_COUNTER 0 i;
         sdr_wr B SCC_MGR_DQ_ENA 0 0xFF;
         sdr_wr B SCC_MGR_DM_ENA 0 0xFF
       }) (upto32 0 4);
       scc_upd B
     }) (upto32 0 1);
     for_each (\<lambda>i. do {
       scc_mgr_set_dqs_bus_in_delay B i 10;
       scc_mgr_load_dqs B i
     }) (upto32 0 4);
     scc_upd B;
     for_each (\<lambda>j. sdr_wr B PHY_MGR_CMD_INC_VFIFO_HARD_PHY 0 0xFF) (upto32 0 6);
     sdr_wr B PHY_MGR_CMD_FIFO_RESET 0 0;
     set_curr_read_lat 8;
     sdr_wr B PHY_MGR_PHY_RLAT 0 8
   }"

section \<open>The loop over the groups\<close>

definition sweep_all_groups :: "('h, bool) sq" where
  [prog_defs]: "sweep_all_groups = reads (\<lambda>s. phy_debug_mode_flags (gbl s) AND PHY_DEBUG_SWEEP_ALL_GROUPS \<noteq> 0)"

text \<open>
  A stage that fails ends \<open>mem_calibrate\<close> (None) unless all groups are to be swept; then the
  group counts as failed.
\<close>

definition group_stage :: "('h, bool) sq \<Rightarrow> ('h, bool option) sq" where
  "group_stage stage = do {
     ok \<leftarrow> stage;
     if ok then ret (Some False)
     else do { sweep \<leftarrow> sweep_all_groups; ret (if sweep then Some True else None) }
   }"

text \<open>The read groups of a write group, while none has failed.\<close>

fun for_read_groups :: "(u32 \<Rightarrow> u32 \<Rightarrow> ('h, bool) sq) \<Rightarrow> u32 list \<Rightarrow> u32 \<Rightarrow> ('h, bool option) sq" where
  "for_read_groups stage [] read_test_bgn = ret (Some False)"
| "for_read_groups stage (g # gs) read_test_bgn = do {
     r \<leftarrow> group_stage (stage g read_test_bgn);
     if r = Some False then for_read_groups stage gs (read_test_bgn + RW_MGR_MEM_DQ_PER_READ_DQS) else ret r
   }"

text \<open>A later stage of a group runs only when no earlier one has failed.\<close>

definition and_then :: "('h, bool option) sq \<Rightarrow> ('h, bool option) sq \<Rightarrow> ('h, bool option) sq" where
  "and_then stage later = do { r \<leftarrow> stage; if r = Some False then later else ret r }"

text \<open>All static steps of a group are run: \<open>STATIC_CALIB_STEPS\<close> only skips the full test.  Write
  levelling is not for this device (\<open>CYCLONEV\<close>).\<close>

definition calibrate_group :: "'h sdram \<Rightarrow> u32 \<Rightarrow> u32 \<Rightarrow> ('h, bool option) sq" where
  "calibrate_group B write_group write_test_bgn = do {
     sdr_wr B SCC_MGR_GROUP_COUNTER 0 write_group;
     scc_mgr_zero_group B write_group write_test_bgn False;
     and_then (for_read_groups (rw_mgr_mem_calibrate_vfifo B) (read_groups_of write_group) 0)
       (and_then (for_shadow_regs (\<lambda>rank_bgn r.
            if r = None then ret None
            else do {
              w \<leftarrow> group_stage (rw_mgr_mem_calibrate_writes B rank_bgn write_group write_test_bgn);
              ret (if w = Some False then r else w)
            }) (Some False))
         (for_read_groups (rw_mgr_mem_calibrate_vfifo_end B) (read_groups_of write_group) 0))
   }"

text \<open>The groups that are not skipped; the result is the number of failing groups.\<close>

fun calibrate_groups :: "'h sdram \<Rightarrow> u32 list \<Rightarrow> u32 \<Rightarrow> u32 \<Rightarrow> u32 \<Rightarrow> ('h, u32 option) sq" where
  "calibrate_groups B [] write_test_bgn run_groups failing_groups = ret (Some failing_groups)"
| "calibrate_groups B (g # gs) write_test_bgn run_groups failing_groups = do {
     let current_run = run_groups AND (push_bit (unat RW_MGR_NUM_DQS_PER_WRITE_GROUP) 1 - 1);
     let run_groups = drop_bit (unat RW_MGR_NUM_DQS_PER_WRITE_GROUP) run_groups;
     if current_run = 0
     then calibrate_groups B gs (write_test_bgn + RW_MGR_MEM_DQ_PER_WRITE_DQS) run_groups failing_groups
     else do {
       r \<leftarrow> calibrate_group B g write_test_bgn;
       case r of
         None \<Rightarrow> ret None
       | Some group_failed \<Rightarrow>
           calibrate_groups B gs (write_test_bgn + RW_MGR_MEM_DQ_PER_WRITE_DQS) run_groups
             (if group_failed then failing_groups + 1 else failing_groups)
     }
   }"

text \<open>What comes before the groups: no error, no figure of merit, the latencies, the bypass modes.\<close>

definition calibrate_start :: "'h sdram \<Rightarrow> ('h, unit) sq" where
  "calibrate_start B = do {
     changes (\<lambda>s. s\<lparr>gbl := (gbl s)\<lparr>error_substage := CAL_SUBSTAGE_NIL, error_stage := CAL_STAGE_NIL,
       error_group := 0xFF, fom_in := 0, fom_out := 0\<rparr>\<rparr>);
     mem_config B;
     for_each (\<lambda>i. do {
       sdr_wr B SCC_MGR_GROUP_COUNTER 0 i;
       scc_set_bypass_mode B i 1
     }) (upto32 0 4)
   }"

definition mem_calibrate :: "'h sdram \<Rightarrow> ('h, bool) sq" where
  "mem_calibrate B = do {
     calibrate_start B;
     steps \<leftarrow> reads (\<lambda>s. ucast (dyn_calib_steps s) :: u32);
     if steps AND CALIB_SKIP_ALL = CALIB_SKIP_ALL then do {
       mem_skip_calibrate B;
       scc_upd B;
       ret True
     } else do {
       scc_mgr_zero_all B;
       skip \<leftarrow> reads (\<lambda>s. skip_groups (param s));
       failing \<leftarrow> calibrate_groups B (upto32 0 4) 0 (NOT skip) 0;
       if failing \<noteq> Some 0 then ret False
       else do {
         skip \<leftarrow> reads (\<lambda>s. skip_groups (param s));
         ok \<leftarrow> (if skip = 0 then rw_mgr_mem_calibrate_lfifo B else ret True);
         if \<not> ok then ret False else do { scc_upd B; ret True }
       }
     }
   }"

section \<open>Entry points\<close>

definition initialize :: "'h sdram \<Rightarrow> ('h, unit) sq" where
  "initialize B = do {
     sdr_wr B PHY_MGR_MUX_SEL 0 3;
     sdr_wr B PHY_MGR_RESET_MEM_STBL 0 0;
     sdr_wr B PHY_MGR_CAL_STATUS 0 0;
     sdr_wr B PHY_MGR_CAL_DEBUG_INFO 0 0;
     changes (\<lambda>s.
       if (ucast (dyn_calib_steps s) :: u32) AND CALIB_SKIP_ALL \<noteq> CALIB_SKIP_ALL
       then s\<lparr>param := (param s)\<lparr>read_correct_mask_vg := push_bit 8 1 - 1,
         write_correct_mask_vg := push_bit 8 1 - 1, read_correct_mask := push_bit 8 1 - 1,
         write_correct_mask := push_bit 8 1 - 1, dm_correct_mask := push_bit 8 1 - 1\<rparr>\<rparr>
       else s)
   }"

text \<open>The report of a run: figures of merit, or the failing stage; then the status.\<close>

definition error_info :: "gbl_t \<Rightarrow> u32" where
  "error_info g = error_stage g OR push_bit 8 (error_substage g) OR push_bit 16 (error_group g)"

definition fom_info :: "gbl_t \<Rightarrow> u32" where
  "fom_info g = fom_in g OR push_bit 8 (fom_out g)"

definition halve_fom :: "u32 \<Rightarrow> u32" where
  "halve_fom f = (if f div 2 > 0xFF then 0xFF else f div 2)"

definition report :: "'h sdram \<Rightarrow> bool \<Rightarrow> ('h, unit) sq" where
  "report B pass =
     (if pass then do {
        changes (\<lambda>s. s\<lparr>gbl := (gbl s)\<lparr>fom_in := halve_fom (fom_in (gbl s)),
          fom_out := halve_fom (fom_out (gbl s))\<rparr>\<rparr>);
        debug_info \<leftarrow> reads (\<lambda>s. fom_info (gbl s));
        sdr_wr B REG_FILE_FOM 0 debug_info;
        sdr_wr B PHY_MGR_CAL_DEBUG_INFO 0 debug_info;
        sdr_wr B PHY_MGR_CAL_STATUS 0 PHY_MGR_CAL_SUCCESS
      } else do {
        debug_info \<leftarrow> reads (\<lambda>s. error_info (gbl s));
        sdr_wr B REG_FILE_FAILING_STAGE 0 debug_info;
        sdr_wr B PHY_MGR_CAL_DEBUG_INFO 0 debug_info;
        sdr_wr B PHY_MGR_CAL_STATUS 0 PHY_MGR_CAL_FAIL;
        debug_info \<leftarrow> reads (\<lambda>s. error_info (gbl s));
        sdr_wr B REG_FILE_FAILING_STAGE 0 debug_info
      })"

text \<open>The memory is brought up with tracking disabled; the result is the register that had it enabled.\<close>

definition memory_start :: "'h sdram \<Rightarrow> ('h, u32) sq" where
  "memory_start B = do {
     sdr_wr B PHY_MGR_CAL_STATUS 0 PHY_MGR_CAL_RESET;
     ctrlcfg \<leftarrow> sdr_rd B CTRL_CONFIG_REG 0;
     sdr_wr B CTRL_CONFIG_REG 0 (ctrlcfg AND 0xFFBFFFFF);
     initialize B;
     rw_mgr_mem_initialize B;
     ret ctrlcfg
   }"

definition run_mem_calibrate :: "'h sdram \<Rightarrow> ('h, bool) sq" where
  "run_mem_calibrate B = do {
     ctrlcfg \<leftarrow> memory_start B;
     pass \<leftarrow> mem_calibrate B;
     mem_precharge_and_activate B;
     sdr_wr B PHY_MGR_CMD_FIFO_RESET 0 0;
     flags \<leftarrow> reads (\<lambda>s. phy_debug_mode_flags (gbl s));
     (if flags AND PHY_DEBUG_IN_DEBUG_MODE = 0
      then do { rw_mgr_mem_handoff B; sdr_wr B PHY_MGR_MUX_SEL 0 2 } else ret ());
     sdr_wr B CTRL_CONFIG_REG 0 ctrlcfg;
     report B pass;
     ret pass
   }"

text \<open>Fields of the PHY control registers, as the boot loader's header packs them.\<close>

record phyctrl =
  acdelayen_set :: "u32 \<Rightarrow> u32"
  dqdelayen_set :: "u32 \<Rightarrow> u32"
  dqsdelayen_set :: "u32 \<Rightarrow> u32"
  dqslogicdelayen_set :: "u32 \<Rightarrow> u32"
  resetdelayen_set :: "u32 \<Rightarrow> u32"
  lpddrdis_set :: "u32 \<Rightarrow> u32"
  addlatsel_set :: "u32 \<Rightarrow> u32"
  samplecount_19_0_set :: "u32 \<Rightarrow> u32"
  samplecount_31_20_set :: "u32 \<Rightarrow> u32"
  longidle_19_0_set :: "u32 \<Rightarrow> u32"
  longidle_31_20_set :: "u32 \<Rightarrow> u32"
  samplecount_19_0_width :: nat
  longidle_19_0_width :: nat
  phyctrl_0_offset :: u32
  phyctrl_1_offset :: u32
  phyctrl_2_offset :: u32

definition initialize_hps_phy :: "'h sdram \<Rightarrow> phyctrl \<Rightarrow> ('h, unit) sq" where
  "initialize_hps_phy B c = do {
     let trk_sample_count = 7500;
     let trk_long_idle_sample_count = push_bit 16 10 OR 100;
     sdr_wr B BASE_MMR (phyctrl_0_offset c)
       (acdelayen_set c 2 OR dqdelayen_set c 1 OR dqsdelayen_set c 1 OR dqslogicdelayen_set c 1 OR
        resetdelayen_set c 0 OR lpddrdis_set c 1 OR addlatsel_set c 0 OR
        samplecount_19_0_set c trk_sample_count);
     sdr_wr B BASE_MMR (phyctrl_1_offset c)
       (samplecount_31_20_set c (drop_bit (samplecount_19_0_width c) trk_sample_count) OR
        longidle_19_0_set c trk_long_idle_sample_count);
     sdr_wr B BASE_MMR (phyctrl_2_offset c)
       (longidle_31_20_set c (drop_bit (longidle_19_0_width c) trk_long_idle_sample_count))
   }"

text \<open>Bytes shifted in from the left: \<open>x = (x << k) ^ b\<close>.\<close>

abbreviation (input) shift_in :: "nat \<Rightarrow> u32 \<Rightarrow> u32 \<Rightarrow> u32" where
  "shift_in k x b \<equiv> push_bit k x XOR b"

definition initialize_tracking :: "'h sdram \<Rightarrow> ('h, unit) sq" where
  "initialize_tracking B = do {
     let concatenated_longidle = shift_in 16 (0 XOR 10) 100;
     let concatenated_delays = shift_in 8 (shift_in 8 (shift_in 8 (0 XOR 243) 14) 10) 4;
     let concatenated_rw_addr =
       shift_in 8 (shift_in 8 (shift_in 8 (0 XOR INST_IDLE) INST_ACTIVATE_1) INST_SGLE_READ) INST_PRECHARGE_ALL;
     let concatenated_refresh = shift_in 24 (0 XOR INST_REFRESH_ALL) 1000;
     sdr_wr B REG_FILE_DTAPS_PER_PTAP 0 dtaps_per_ptap;
     sdr_wr B REG_FILE_TRK_SAMPLE_COUNT 0 7500;
     sdr_wr B REG_FILE_TRK_LONGIDLE 0 concatenated_longidle;
     sdr_wr B REG_FILE_DELAYS 0 concatenated_delays;
     sdr_wr B REG_FILE_TRK_RW_MGR_ADDR 0 concatenated_rw_addr;
     sdr_wr B REG_FILE_TRK_READ_DQS_WIDTH 0 RW_MGR_MEM_IF_READ_DQS_WIDTH;
     sdr_wr B REG_FILE_TRK_RFSH 0 concatenated_refresh
   }"

definition user_init_cal_req :: "'h sdram \<Rightarrow> ('h, unit) sq" where
  "user_init_cal_req B = do {
     scc_afi_reg \<leftarrow> sdr_rd B SCC_MGR_AFI_CAL_INIT 0;
     if scc_afi_reg = 1 \<or> scc_afi_reg = 16 then do {
       initialize B;
       rw_mgr_mem_initialize B;
       rw_mgr_mem_handoff B;
       sdr_wr B PHY_MGR_MUX_SEL 0 0;
       sdr_wr B PHY_MGR_CAL_STATUS 0 PHY_MGR_CAL_SUCCESS
     } else if scc_afi_reg = 2 \<or> scc_afi_reg = 32 then do { run_mem_calibrate B; ret () }
     else ret ()
   }"

text \<open>What \<open>sdram_calibration\<close> does before it runs the calibration.\<close>

definition sdram_start :: "'h sdram \<Rightarrow> phyctrl \<Rightarrow> u32 list \<Rightarrow> u32 list \<Rightarrow> ('h, unit) sq" where
  "sdram_start B c inst ac = do {
     changes (\<lambda>s. s\<lparr>gbl := (gbl s)\<lparr>phy_debug_mode_flags := 0 OR PHY_DEBUG_ENABLE_CAL_RPT\<rparr>\<rparr>);
     initialize_reg_file B;
     initialize_hps_phy B c;
     scc_mgr_initialize B;
     initialize_tracking B;
     changes (\<lambda>s. s\<lparr>param := (param s)\<lparr>skip_ranks := [0], skip_shadow_regs := [0], skip_groups := 0\<rparr>\<rparr>);
     hc_initialize_rom_data B inst ac;
     reg_file_set_stage B CAL_STAGE_NIL;
     reg_file_set_group B 0;
     changes (\<lambda>s. s\<lparr>dyn_calib_steps := ucast STATIC_CALIB_STEPS\<rparr>);
     changes (\<lambda>s. s\<lparr>skip_delay_mask :=
       (if ucast (dyn_calib_steps s) AND CALIB_SKIP_DELAY_LOOPS = 0 then 0xFF else 0)\<rparr>)
   }"

definition sdram_calibration :: "'h sdram \<Rightarrow> phyctrl \<Rightarrow> u32 list \<Rightarrow> u32 list \<Rightarrow> ('h, bool) sq" where
  "sdram_calibration B c inst ac = do {
     sdram_start B c inst ac;
     run_mem_calibrate B
   }"

end
