(* ===== verification/Seq_Logic.thy ===== *)
theory Seq_Logic
  imports Seq_Main
begin

text \<open>
  Reasoning about programs of the sequencer: \<open>spost m Q s\<close> says that \<open>m\<close>, started in \<open>s\<close>, ends
  with a result and a state that satisfy \<open>Q\<close>; \<open>triple\<close> is the Hoare triple over it.  Every
  program is total, so there is no second reading.

  The locale \<open>seq_frame\<close> is the contract of a state predicate that register accesses keep:
  all reads, all writes outside the delay registers of the scan chain manager, and the
  \<open>allowed\<close> writes to those.  What each function of the sequencer keeps is proved once, in
  the locale; it is used for the values that reach the delay registers and for the error
  record.
\<close>

section \<open>Postconditions\<close>

definition spost :: "('s, 'a) state \<Rightarrow> ('a \<Rightarrow> 's \<Rightarrow> bool) \<Rightarrow> 's \<Rightarrow> bool" where
  "spost m Q s = (case run_state m s of (a, s') \<Rightarrow> Q a s')"

definition triple :: "('s \<Rightarrow> bool) \<Rightarrow> ('s, 'a) state \<Rightarrow> ('a \<Rightarrow> 's \<Rightarrow> bool) \<Rightarrow> bool" where
  "triple P m Q \<longleftrightarrow> (\<forall>s. P s \<longrightarrow> spost m Q s)"

lemma spost_bind [simp]: "spost (State_Monad.bind m f) Q s = spost m (\<lambda>a. spost (f a) Q) s"
  by (simp add: spost_def split: prod.splits)

lemma spost_ret [simp]: "spost (ret a) Q s = Q a s"
  by (simp add: spost_def)

lemma spost_State [simp]: "spost (State f) Q s = Q (fst (f s)) (snd (f s))"
  by (simp add: spost_def split: prod.splits)

lemma spost_run: "spost m Q s \<longleftrightarrow> Q (fst (run_state m s)) (snd (run_state m s))"
  by (simp add: spost_def split: prod.splits)

lemma spost_mono: "spost m Q s \<Longrightarrow> (\<And>a s'. Q a s' \<Longrightarrow> R a s') \<Longrightarrow> spost m R s"
  by (simp add: spost_def split: prod.splits)

lemma spost_conj: "spost m Q s \<Longrightarrow> spost m R s \<Longrightarrow> spost m (\<lambda>a s'. Q a s' \<and> R a s') s"
  by (simp add: spost_run)

lemma spost_wr [simp]:
  "spost (sdr_wr B base off d) Q s =
     Q () (s\<lparr>sq_hw := bus_wr (sd_bus B) (AVL_TO_APB B (base + off)) d (sq_hw s),
             sq_trace := sq_trace s @ [Wr (base + off) d]\<rparr>)"
  by (simp add: sdr_wr_def)

lemma spost_rd [simp]:
  "spost (sdr_rd B base off) Q s =
     (let (v, h) = bus_rd (sd_bus B) (AVL_TO_APB B (base + off)) (sq_hw s)
      in Q v (s\<lparr>sq_hw := h, sq_trace := sq_trace s @ [Rd (base + off) v]\<rparr>))"
  by (simp add: sdr_rd_def Let_def split: prod.splits)

lemma tripleI: "(\<And>s. P s \<Longrightarrow> spost m Q s) \<Longrightarrow> triple P m Q"
  by (simp add: triple_def)

lemma tripleD: "triple P m Q \<Longrightarrow> P s \<Longrightarrow> spost m Q s"
  by (simp add: triple_def)

lemma triple_run: "triple P m Q \<Longrightarrow> P s \<Longrightarrow> run_state m s = (a, s') \<Longrightarrow> Q a s'"
  by (auto simp: triple_def spost_def)

lemma triple_ret: "(\<And>s. P s \<Longrightarrow> Q a s) \<Longrightarrow> triple P (ret a) Q"
  by (simp add: triple_def)

lemma triple_bind:
  "triple P m R \<Longrightarrow> (\<And>a. triple (R a) (f a) Q) \<Longrightarrow> triple P (State_Monad.bind m f) Q"
  by (auto simp: triple_def intro: spost_mono)

lemma triple_if: "(b \<Longrightarrow> triple P m Q) \<Longrightarrow> (\<not> b \<Longrightarrow> triple P n Q) \<Longrightarrow> triple P (if b then m else n) Q"
  by simp

lemma triple_post: "triple P m Q \<Longrightarrow> (\<And>a s. Q a s \<Longrightarrow> R a s) \<Longrightarrow> triple P m R"
  by (auto simp: triple_def intro: spost_mono)

lemma triple_pre: "triple P m Q \<Longrightarrow> (\<And>s. R s \<Longrightarrow> P s) \<Longrightarrow> triple R m Q"
  by (simp add: triple_def)

text \<open>\<open>yields I m R\<close>: \<open>m\<close> keeps \<open>I\<close> and its result satisfies \<open>R\<close>; \<open>keeps\<close> is the case without a result.\<close>

definition yields :: "('s \<Rightarrow> bool) \<Rightarrow> ('s, 'a) state \<Rightarrow> ('a \<Rightarrow> bool) \<Rightarrow> bool" where
  "yields I m R = triple I m (\<lambda>a s. I s \<and> R a)"

definition keeps :: "('s \<Rightarrow> bool) \<Rightarrow> ('s, 'a) state \<Rightarrow> bool" where
  "keeps I m = triple I m (\<lambda>_. I)"

lemma keeps_yields: "keeps I m = yields I m (\<lambda>_. True)"
  by (simp add: keeps_def yields_def)

lemma yields_keeps: "yields I m R \<Longrightarrow> keeps I m"
  by (auto simp: keeps_def yields_def elim: triple_post)

lemma yields_mono: "yields I m R \<Longrightarrow> (\<And>a. R a \<Longrightarrow> T a) \<Longrightarrow> yields I m T"
  by (auto simp: yields_def elim: triple_post)

lemma yields_ret: "R a \<Longrightarrow> yields I (ret a) R"
  by (simp add: yields_def triple_ret)

lemma yields_bind:
  "yields I m R \<Longrightarrow> (\<And>a. R a \<Longrightarrow> yields I (f a) T) \<Longrightarrow> yields I (State_Monad.bind m f) T"
  by (auto simp: yields_def triple_def intro: spost_mono)

lemma yields_if: "(b \<Longrightarrow> yields I m R) \<Longrightarrow> (\<not> b \<Longrightarrow> yields I n R) \<Longrightarrow> yields I (if b then m else n) R"
  by simp

lemma keeps_then: "keeps I m \<Longrightarrow> (\<And>a. yields I (f a) T) \<Longrightarrow> yields I (State_Monad.bind m f) T"
  by (auto simp: keeps_yields intro: yields_bind)

lemma keepsD: "keeps I m \<Longrightarrow> I s \<Longrightarrow> I (snd (run_state m s))"
  by (simp add: keeps_def triple_def spost_run)

named_theorems keeps_intros "rules for showing that a program keeps a predicate"

lemma keeps_ret [keeps_intros]: "keeps I (ret a)"
  by (simp add: keeps_def triple_ret)

lemma keeps_bind [keeps_intros]:
  "keeps I m \<Longrightarrow> (\<And>a. keeps I (f a)) \<Longrightarrow> keeps I (State_Monad.bind m f)"
  unfolding keeps_def by (rule triple_bind)

lemma keeps_if [keeps_intros]: "keeps I m \<Longrightarrow> keeps I n \<Longrightarrow> keeps I (if b then m else n)"
  by simp

lemma keeps_case_prod [keeps_intros]: "(\<And>a b. keeps I (f a b)) \<Longrightarrow> keeps I (case_prod f p)"
  by (cases p) simp

lemma keeps_Let [keeps_intros]: "(\<And>a. keeps I (f a)) \<Longrightarrow> keeps I (Let x f)"
  by simp

lemma keeps_case_option [keeps_intros]:
  "keeps I n \<Longrightarrow> (\<And>a. keeps I (f a)) \<Longrightarrow> keeps I (case x of None \<Rightarrow> n | Some a \<Rightarrow> f a)"
  by (cases x) simp_all

lemma keeps_reads [keeps_intros]: "keeps I (State (\<lambda>s. (f s, s)))"
  by (simp add: keeps_def triple_def)

lemma keeps_changes: "(\<And>s. I s \<Longrightarrow> I (f s)) \<Longrightarrow> keeps I (State (\<lambda>s. ((), f s)))"
  by (simp add: keeps_def triple_def)

lemma keeps_for_each:
  "(\<And>x. x \<in> set xs \<Longrightarrow> keeps I (f x)) \<Longrightarrow> keeps I (for_each f xs)"
  by (induction xs) (auto intro: keeps_intros)

lemma keeps_for_fold:
  "(\<And>x b. x \<in> set xs \<Longrightarrow> keeps I (f x b)) \<Longrightarrow> keeps I (for_fold f xs b)"
  by (induction xs arbitrary: b) (auto intro: keeps_intros)

lemma set_upto32: "set (upto32 a b) = of_nat ` {a..<b}"
  by (simp add: upto32_def)

lemma upto32_less: "x \<in> set (upto32 a b) \<Longrightarrow> b \<le> 2 ^ 32 \<Longrightarrow> unat x < b"
  by (auto simp: set_upto32 unat_of_nat_32)

lemma upto32_cons: "a < b \<Longrightarrow> upto32 a b = of_nat a # upto32 (Suc a) b"
  by (simp add: upto32_def upt_conv_Cons)

lemma upto32_empty [simp]: "b \<le> a \<Longrightarrow> upto32 a b = []"
  by (simp add: upto32_def)

lemma wrong_bits: "(0xFF AND NOT v = (0xFF :: u32)) = (v AND 0xFF = 0)"
  by (auto simp: bit_eq_iff bit_simps)

lemma for_fold_once: "for_fold f [x] b = f x b"
proof -
  have "for_fold f [] = ret" by (rule ext) simp
  then show ?thesis by simp
qed

text \<open>The read groups of a group below 4 are the group itself.\<close>

lemma group_cases: "g < 4 \<Longrightarrow> g = 0 \<or> g = 1 \<or> g = 2 \<or> (g :: u32) = 3"
proof -
  assume "g < 4"
  then have "unat g < 4" by (simp add: word_less_nat_alt)
  then consider "unat g = 0" | "unat g = 1" | "unat g = 2" | "unat g = 3" by linarith
  then show ?thesis by cases (auto simp: word_unat_eq_iff)
qed

lemma read_groups_of_group: "g < 4 \<Longrightarrow> read_groups_of g = [g]"
  by (drule group_cases) (auto simp: read_groups_of_def upto32_def upt_rec)

text \<open>The low byte.\<close>

lemma low_byte: "(x :: u32) AND 0xFF = take_bit 8 x"
  by (simp add: take_bit_eq_mask mask_eq_exp_minus_1)

lemma byte_id: "x \<le> 0xFF \<Longrightarrow> take_bit 8 x = (x :: u32)"
  by (simp add: word_unat_eq_iff unsigned_take_bit_eq word_le_nat_alt take_bit_nat_eq_self)

section \<open>The frame contract\<close>

text \<open>The delay registers: from \<open>SCC_MGR_DQS_IN_DELAY\<close> up to \<open>SCC_MGR_HHP_GLOBALS\<close>.\<close>

definition delay_reg :: "u32 \<Rightarrow> bool" where
  "delay_reg a \<longleftrightarrow> SCC_MGR_DQS_IN_DELAY \<le> a \<and> a < SCC_MGR_HHP_GLOBALS"

lemma delay_reg_numeral [simp]:
  "delay_reg (numeral n) \<longleftrightarrow> 0x58100 \<le> (numeral n :: u32) \<and> numeral n < (0x58A00 :: u32)"
  by (simp add: delay_reg_def)

lemma run_reg [simp]:
  "g < 4 \<Longrightarrow> \<not> delay_reg (0x90000 + push_bit 2 g)" "g < 4 \<Longrightarrow> \<not> delay_reg (0x90400 + push_bit 2 g)"
  by (drule group_cases, auto)+

locale seq_frame =
  fixes I :: "'h seq \<Rightarrow> bool" and allowed :: "u32 \<Rightarrow> u32 \<Rightarrow> bool"
  assumes rd_ok: "I s \<Longrightarrow> I (s\<lparr>sq_hw := h, sq_trace := sq_trace s @ [Rd a v]\<rparr>)"
    and wr_ok: "I s \<Longrightarrow> allowed a d \<Longrightarrow> I (s\<lparr>sq_hw := h, sq_trace := sq_trace s @ [Wr a d]\<rparr>)"
    and free_ok: "\<not> delay_reg a \<Longrightarrow> allowed a d"
begin

lemma wr: "allowed (base + off) d \<Longrightarrow> keeps I (sdr_wr B base off d)"
  by (simp add: keeps_def triple_def wr_ok)

lemma rd [keeps_intros]: "keeps I (sdr_rd B base off)"
  by (simp add: keeps_def triple_def rd_ok Let_def split: prod.splits)

lemma wr_free [keeps_intros]: "\<not> delay_reg (base + off) \<Longrightarrow> keeps I (sdr_wr B base off d)"
  by (rule wr, rule free_ok)

lemma set_rank_keeps [keeps_intros]: "keeps I (set_rank_and_odt_mask B r m)"
  unfolding set_rank_and_odt_mask_def by (intro keeps_intros) simp

lemma upd_keeps [keeps_intros]: "keeps I (scc_upd B)"
  unfolding scc_upd_def by (intro keeps_intros) simp

lemma reg_file_keeps [keeps_intros]:
  "keeps I (reg_file_set_group B g)" "keeps I (reg_file_set_stage B g)" "keeps I (reg_file_set_sub_stage B g)"
  unfolding reg_file_set_group_def reg_file_set_stage_def reg_file_set_sub_stage_def
  by (intro keeps_intros, simp)+

lemma load_keeps [keeps_intros]:
  "keeps I (scc_mgr_load_dqs B g)" "keeps I (scc_mgr_load_dqs_io B)" "keeps I (scc_mgr_load_dq B g)"
  "keeps I (scc_mgr_load_dm B g)" "keeps I (scc_mgr_load_dqs_for_write_group B g)"
  unfolding scc_mgr_load_dqs_def scc_mgr_load_dqs_io_def scc_mgr_load_dq_def scc_mgr_load_dm_def
    scc_mgr_load_dqs_for_write_group_def
  by (intro keeps_intros keeps_for_each, simp)+

text \<open>The tests touch no delay register.\<close>

lemma fold_ranks_keeps: "(\<And>r. keeps I (body r)) \<Longrightarrow> keeps I (fold_ranks a b body c)"
  unfolding fold_ranks_def by (intro keeps_for_fold keeps_intros)

lemma fold_vgs_keeps: "keeps I (body 0) \<Longrightarrow> keeps I (fold_vgs body c)"
  unfolding fold_vgs_def by (rule keeps_for_fold) (auto simp: upto32_def intro!: keeps_intros)

lemma for_ranks_keeps: "(\<And>r. keeps I (body r)) \<Longrightarrow> keeps I (for_ranks a b body)"
  unfolding for_ranks_def by (intro keeps_for_each keeps_intros)

lemma read_test_keeps [keeps_intros]:
  "g < 4 \<Longrightarrow> keeps I (rw_mgr_mem_calibrate_read_test B rb g n ac ag ar)"
  unfolding rw_mgr_mem_calibrate_read_test_def read_test_body_def
  by (intro keeps_intros fold_ranks_keeps fold_vgs_keeps) simp_all

end

section \<open>A first state\<close>

text \<open>Full masks, nothing skipped, no error and the latency 27: a state for examples.\<close>

definition fresh_seq :: "'h \<Rightarrow> 'h seq" where
  "fresh_seq h = \<lparr>sq_hw = h, sq_trace = [],
     gbl = \<lparr>phy_debug_mode_flags = 0, curr_read_lat = 27, curr_write_lat = 0, error_substage = 0,
       error_stage = 0, error_group = 0, fom_in = 0, fom_out = 0, rw_wl_nop_cycles = 0\<rparr>,
     param = \<lparr>dm_correct_mask = 0xFF, read_correct_mask = 0xFF, read_correct_mask_vg = 0xFF,
       write_correct_mask = 0xFF, write_correct_mask_vg = 0xFF, skip_ranks = [0], skip_groups = 0,
       skip_shadow_regs = [0]\<rparr>,
     dyn_calib_steps = 0, skip_delay_mask = 0xFF\<rparr>"

text \<open>A memory on which every read is wrong.\<close>

definition dead_sdram :: "unit sdram" where
  "dead_sdram = \<lparr>sd_bus = \<lparr>bus_rd = (\<lambda>a h. (0xFF, h)), bus_wr = (\<lambda>a d h. h), bus_delay = (\<lambda>_ h. h)\<rparr>,
     apb_base_scc_mgr = 0, apb_base_phy_mgr = 0x1000, apb_base_rw_mgr = 0x2000,
     apb_base_data_mgr = 0x4000, apb_base_reg_file = 0x4800, apb_base_mmr = 0x5000\<rparr>"

end
