(* ===== verification/Seq_Frame.thy ===== *)
theory Seq_Frame
  imports Seq_Logic
begin

text \<open>
  What the functions of the sequencer keep, under the contract \<open>seq_frame\<close>: the tests, the
  settings of the scan chain manager, and the search for the strobe's enable phase, with the
  ranges of the phases and delays it tries.
\<close>

section \<open>Tests and single settings\<close>

context seq_frame
begin

lemma test_keeps [keeps_intros]:
  "g < 4 \<Longrightarrow> keeps I (rw_mgr_mem_calibrate_read_test_patterns B rb g n ar)"
  "keeps I (rw_mgr_mem_calibrate_read_load_patterns B rb ar)"
  "g < 4 \<Longrightarrow> keeps I (rw_mgr_mem_calibrate_write_test B rb g dm ac ar)"
  "g < 4 \<Longrightarrow> keeps I (rw_mgr_mem_calibrate_write_test_all_ranks B g dm ac)"
  unfolding rw_mgr_mem_calibrate_read_test_patterns_def read_test_pattern_body_def
    rw_mgr_mem_calibrate_read_load_patterns_def rw_mgr_mem_calibrate_write_test_all_ranks_def
    rw_mgr_mem_calibrate_write_test_def rw_mgr_mem_calibrate_write_test_issue_def write_test_setup_def
  by (intro keeps_intros fold_ranks_keeps fold_vgs_keeps for_ranks_keeps; simp)+

lemma read_tries_keeps: "g < 4 \<Longrightarrow> keeps I (read_tries B g ac ag n)"
  by (induction n) (auto intro!: keeps_intros)

lemma read_test_all_keeps [keeps_intros]:
  "g < 4 \<Longrightarrow> keeps I (rw_mgr_mem_calibrate_read_test_all_ranks B g n ac ag)"
  unfolding rw_mgr_mem_calibrate_read_test_all_ranks_def by (rule read_tries_keeps)

lemma load_patterns_keeps [keeps_intros]: "keeps I (rw_mgr_mem_calibrate_read_load_patterns_all_ranks B)"
  unfolding rw_mgr_mem_calibrate_read_load_patterns_all_ranks_def by (intro keeps_intros)

lemma vfifo_keeps [keeps_intros]:
  "keeps I (rw_mgr_incr_vfifo B g v)" "keeps I (rw_mgr_decr_vfifo B g v)"
  unfolding rw_mgr_decr_vfifo_def rw_mgr_incr_vfifo_def
  by (intro keeps_intros keeps_for_fold; simp)+

lemma en_phase_keeps:
  "allowed (SCC_MGR_DQS_EN_PHASE + push_bit 2 g) p \<Longrightarrow> keeps I (scc_mgr_set_dqs_en_phase_all_ranks B g p)"
  unfolding scc_mgr_set_dqs_en_phase_all_ranks_def scc_mgr_set_dqs_en_phase_def WRITE_SCC_DQS_EN_PHASE_def
  by (intro keeps_for_each keeps_intros wr) simp_all

lemma en_delay_keeps:
  "allowed (SCC_MGR_DQS_EN_DELAY + push_bit 2 g) d \<Longrightarrow> keeps I (scc_mgr_set_dqs_en_delay_all_ranks B g d)"
  unfolding scc_mgr_set_dqs_en_delay_all_ranks_def scc_mgr_set_dqs_en_delay_def WRITE_SCC_DQS_EN_DELAY_def
  by (intro keeps_for_each keeps_intros wr) simp_all

end

section \<open>The search for the enable phase\<close>

text \<open>A phase that may be set: not 0; a delay that may be set.\<close>

definition good_phase :: "u32 \<Rightarrow> bool" where
  "good_phase p \<longleftrightarrow> 1 \<le> unat p \<and> unat p \<le> 7"

definition good_delay :: "u32 \<Rightarrow> bool" where
  "good_delay d \<longleftrightarrow> unat d \<le> 31"

text \<open>The end of a window, when there is one: the phase is good, the times do not leave their range.\<close>

definition window_in :: "nat \<Rightarrow> nat \<Rightarrow> (u32 \<times> u32 \<times> u32 \<times> u32) option \<Rightarrow> bool" where
  "window_in M we0 f = (case f of None \<Rightarrow> True
     | Some (p, wb, we, v) \<Rightarrow> good_phase p \<and> 312 \<le> unat wb \<and> unat wb \<le> M \<and> we0 \<le> unat we \<and> unat we \<le> M)"

lemma window_in_simps [simp]:
  "window_in M we0 None"
  "window_in M we0 (Some (p, wb, we, v)) \<longleftrightarrow>
     good_phase p \<and> 312 \<le> unat wb \<and> unat wb \<le> M \<and> we0 \<le> unat we \<and> unat we \<le> M"
  by (simp_all add: window_in_def)

text \<open>\<open>en_frame\<close>: a contract for one group, which allows good phases and good delays.\<close>

lemma unat_add32: "unat a + unat b < 2 ^ 32 \<Longrightarrow> unat (a + b) = unat a + unat (b :: u32)"
  using unat_add_lem [of a b] by simp

locale en_frame = seq_frame +
  fixes grp :: u32
  assumes grp: "grp < 4"
    and phase_ok: "good_phase p \<Longrightarrow> allowed (SCC_MGR_DQS_EN_PHASE + push_bit 2 grp) p"
    and delay_ok: "good_delay d \<Longrightarrow> allowed (SCC_MGR_DQS_EN_DELAY + push_bit 2 grp) d"
begin

lemma set_phase [keeps_intros]: "good_phase p \<Longrightarrow> keeps I (scc_mgr_set_dqs_en_phase_all_ranks B grp p)"
  by (rule en_phase_keeps, rule phase_ok)

lemma set_delay [keeps_intros]: "good_delay d \<Longrightarrow> keeps I (scc_mgr_set_dqs_en_delay_all_ranks B grp d)"
  by (rule en_delay_keeps, rule delay_ok)

lemma one_bit_keeps [keeps_intros]: "keeps I (one_bit_read B grp n)"
  by (intro keeps_intros grp)

lemma push_until_fail_keeps: "keeps I (push_until_fail B grp n v k)"
proof (induction n arbitrary: v k)
  case (Suc n)
  then show ?case by (auto simp del: split_paired_All intro!: keeps_intros)
qed (simp add: keeps_intros)

lemma push_until_pass_keeps: "keeps I (push_until_pass B grp n v)"
  by (induction n arbitrary: v) (auto intro!: keeps_intros)

text \<open>The first working setting is found where the loops say.\<close>

lemma begin_phases_yields:
  "k \<le> 8 \<Longrightarrow> unat wb + 312 * (8 - k) < 2 ^ 32 \<Longrightarrow> yields I (begin_phases B grp (upto32 k 8) wb) (\<lambda>(f, wb').
     case f of None \<Rightarrow> unat wb' = unat wb + 312 * (8 - k)
     | Some p \<Rightarrow> good_phase p \<and> k \<le> unat p \<and> unat wb' = unat wb + 312 * (unat p - k))"
proof (induction "8 - k" arbitrary: k wb)
  case 0
  then show ?case by (auto intro!: yields_ret)
next
  case (Suc n)
  have k: "k < 8" and n: "n = 8 - Suc k" using Suc.hyps(2) by simp_all
  have wb: "unat (wb + 312) = unat wb + 312"
    using Suc.prems k by (intro unat_add32 [THEN trans]) simp_all
  have p: "unat (of_nat k :: u32) = k" using k by (simp add: unat_of_nat_32)
  have IH: "yields I (begin_phases B grp (upto32 (Suc k) 8) (wb + 312)) (\<lambda>(f, wb').
     case f of None \<Rightarrow> unat wb' = unat wb + 312 * (8 - k)
     | Some p \<Rightarrow> good_phase p \<and> k \<le> unat p \<and> unat wb' = unat wb + 312 * (unat p - k))"
    by (rule yields_mono [OF Suc.hyps(1) [OF n]]) (use k wb Suc.prems in \<open>auto split: option.splits\<close>)
  show ?case
  proof (cases "k = 0")
    case True
    then show ?thesis using IH k by (simp add: upto32_cons)
  next
    case False
    then have g: "good_phase (of_nat k)" and nz: "(of_nat k :: u32) \<noteq> 0"
      using p k by (auto simp: good_phase_def)
    show ?thesis
      using k nz g p
      by (simp add: upto32_cons [OF k])
         (intro keeps_then [OF set_phase] keeps_then [OF one_bit_keeps] yields_if IH yields_ret, simp_all)
  qed
qed

lemma begin_vfifo_yields:
  "i \<le> 16 \<Longrightarrow> unat wb + 2496 * (16 - i) < 2 ^ 32 \<Longrightarrow> yields I (begin_vfifo B grp (upto32 i 16) wb v) (\<lambda>(f, wb', v').
     case f of None \<Rightarrow> True
     | Some (i', p) \<Rightarrow> good_phase p \<and> i \<le> unat i' \<and> unat i' < 16 \<and>
         unat wb' = unat wb + 2496 * (unat i' - i) + 312 * unat p)"
proof (induction "16 - i" arbitrary: i wb v)
  case 0
  then show ?case by (auto intro!: yields_ret)
next
  case (Suc n)
  have i: "i < 16" and n: "n = 16 - Suc i" using Suc.hyps(2) by simp_all
  have u: "unat (of_nat i :: u32) = i" using i by (simp add: unat_of_nat_32)
  have b: "unat wb + 312 * (8 - 0) < 2 ^ 32" using Suc.prems i by simp
  have step: "yields I (begin_vfifo B grp (upto32 (Suc i) 16) wb' v') (\<lambda>(f, wb'', v'').
     case f of None \<Rightarrow> True
     | Some (i', p) \<Rightarrow> good_phase p \<and> i \<le> unat i' \<and> unat i' < 16 \<and>
         unat wb'' = unat wb + 2496 * (unat i' - i) + 312 * unat p)" if "unat wb' = unat wb + 2496" for wb' v'
    by (rule yields_mono [OF Suc.hyps(1) [OF n]]) (use i that Suc.prems in \<open>auto split: option.splits\<close>)
  show ?case
    apply (simp add: upto32_cons [OF i])
    apply (rule yields_bind [OF begin_phases_yields [OF _ b]])
     apply simp
    apply (auto split: option.splits intro!: yields_ret keeps_then [OF vfifo_keeps(1)] step simp: u i)
    done
qed

lemma begin_dtaps_yields:
  "d \<le> 13 \<Longrightarrow> unat tmp = 25 * d \<Longrightarrow> yields I (begin_dtaps B grp (upto32 d 13) tmp v) (\<lambda>f.
     case f of None \<Rightarrow> True
     | Some (d', i, p, wb, v') \<Rightarrow> unat d' \<le> 12 \<and> good_phase p \<and> unat i < 16 \<and>
         unat wb = 25 * unat d' + 2496 * unat i + 312 * unat p)"
proof (induction "13 - d" arbitrary: d tmp v)
  case 0
  then show ?case by (auto intro!: yields_ret)
next
  case (Suc n)
  have d: "d < 13" and n: "n = 13 - Suc d" using Suc.hyps(2) by simp_all
  have u: "unat (of_nat d :: u32) = d" using d by (simp add: unat_of_nat_32)
  have t: "unat (tmp + 25) = 25 * Suc d"
    using Suc.prems d by (intro unat_add32 [THEN trans]) simp_all
  have b: "unat tmp + 2496 * (16 - 0) < 2 ^ 32" using Suc.prems d by simp
  have good: "good_delay (of_nat d)" using d u by (simp add: good_delay_def)
  note IH = Suc.hyps(1) [OF n Suc_leI [OF d] t]
  show ?case
    apply (simp add: upto32_cons [OF d])
    apply (rule keeps_then [OF set_delay [OF good]])
    apply (rule yields_bind [OF begin_vfifo_yields [OF _ b]])
     apply simp
    apply (use d in \<open>auto split: option.split intro!: yields_ret IH [simplified] simp: u Suc.prems\<close>)
    done
qed

lemma phase_back_yields:
  "yields I (phase_back B grp p v) (\<lambda>(p', v'). p' = (if p = 0 then 7 else p - 1))"
  unfolding phase_back_def by (auto intro!: yields_if yields_ret keeps_then [OF vfifo_keeps(2)])

lemma phase_forward_yields:
  "unat p \<le> 7 \<Longrightarrow> yields I (phase_forward B grp p v) (\<lambda>(p', v'). unat p' \<le> 7)"
  unfolding phase_forward_def
  by (auto intro!: yields_if yields_ret keeps_then [OF vfifo_keeps(1)] simp: word_less_nat_alt not_less)

lemma begin_refine_yields:
  "m \<le> unat tmp \<Longrightarrow> m \<le> unat wb \<Longrightarrow> unat wb < 2 ^ 31 \<Longrightarrow>
   yields I (begin_refine B grp (upto32 k 32) tmp wb) (\<lambda>r. m \<le> unat r \<and> unat r \<le> unat wb)"
proof (induction "32 - k" arbitrary: k tmp)
  case 0
  then show ?case by (auto intro!: yields_ret)
next
  case (Suc n)
  have k: "k < 32" and n: "n = 32 - Suc k" using Suc.hyps(2) by simp_all
  have good: "good_delay (of_nat k)" using k by (simp add: good_delay_def unat_of_nat_32)
  have t: "m \<le> unat (tmp + 25)" if "tmp < wb"
    using that Suc.prems by (subst unat_add32) (simp_all add: word_less_nat_alt)
  show ?case
    unfolding upto32_cons [OF k] begin_refine.simps
    by (intro yields_if keeps_then [OF set_delay [OF good]] keeps_then [OF one_bit_keeps] yields_ret
          Suc.hyps(1) [OF n] t Suc.prems)
       (use Suc.prems in \<open>auto simp: word_less_nat_alt\<close>)
qed

lemma end_phases_yields:
  "k \<le> 8 \<Longrightarrow> 312 \<le> unat wb \<Longrightarrow> unat wb \<le> M \<Longrightarrow> we0 \<le> unat we \<Longrightarrow> 312 \<le> we0 \<Longrightarrow>
   unat we + 312 * (8 - k) \<le> M \<Longrightarrow> M < 2 ^ 31 \<Longrightarrow>
   yields I (end_phases B grp (upto32 k 8) j wb we) (\<lambda>(f, j', wb', we').
     312 \<le> unat wb' \<and> unat wb' \<le> M \<and> we0 \<le> unat we' \<and> unat we' \<le> unat we + 312 * (8 - k) \<and>
     (case f of None \<Rightarrow> True | Some p \<Rightarrow> good_phase p))"
proof (induction "8 - k" arbitrary: k j wb we)
  case 0
  then show ?case by (auto intro!: yields_ret)
next
  case (Suc n)
  have k: "k < 8" and n: "n = 8 - Suc k" using Suc.hyps(2) by simp_all
  have p: "unat (of_nat k :: u32) = k" using k by (simp add: unat_of_nat_32)
  have we: "unat (we + 312) = unat we + 312"
    using Suc.prems k by (intro unat_add32 [THEN trans]) simp_all
  have step: "yields I (end_phases B grp (upto32 (Suc k) 8) j' wb' (we + 312)) (\<lambda>(f, j', wb', we').
     312 \<le> unat wb' \<and> unat wb' \<le> M \<and> we0 \<le> unat we' \<and> unat we' \<le> unat we + 312 * (8 - k) \<and>
     (case f of None \<Rightarrow> True | Some p \<Rightarrow> good_phase p))" if "312 \<le> unat wb'" "unat wb' \<le> M" for j' wb'
    by (rule yields_mono [OF Suc.hyps(1) [OF n]]) (use k we Suc.prems that in auto)
  have good: "good_phase (of_nat k)" if "(of_nat k :: u32) \<noteq> 0"
  proof -
    have "k \<noteq> 0" using that by (auto intro: ccontr)
    then show ?thesis using p k by (simp add: good_phase_def)
  qed
  show ?case
    unfolding upto32_cons [OF k] end_phases.simps
    by (intro yields_if keeps_then [OF set_phase] keeps_then [OF one_bit_keeps] yields_ret step)
       (use Suc.prems good in auto)
qed

lemma end_vfifo_yields:
  "unat p \<le> 7 \<Longrightarrow> 312 \<le> unat wb \<Longrightarrow> unat wb \<le> M \<Longrightarrow> we0 \<le> unat we \<Longrightarrow> 312 \<le> we0 \<Longrightarrow>
   unat we + 2496 * n \<le> M \<Longrightarrow> M < 2 ^ 31 \<Longrightarrow>
   yields I (end_vfifo B grp n p j wb we v) (window_in M we0)"
proof (induction n arbitrary: p j wb we v)
  case 0
  then show ?case by (auto intro!: yields_ret)
next
  case (Suc n)
  have 1: "unat p \<le> 8" "unat we + 312 * (8 - unat p) \<le> M" using Suc.prems by simp_all
  have 2: "312 * (8 - unat p) \<le> 2496" by simp
  have step: "yields I (end_vfifo B grp n 0 j' wb' we' v') (window_in M we0)"
    if "312 \<le> unat wb'" "unat wb' \<le> M" "we0 \<le> unat we'" "unat we' \<le> unat we + 312 * (8 - unat p)"
    for j' wb' we' v'
    using that 2 Suc.prems by (intro Suc.IH) simp_all
  have last: "unat we' \<le> M" if "unat we' \<le> unat we + 312 * (8 - unat p)" for we' :: u32
    using that 1 by linarith
  show ?case
    unfolding end_vfifo.simps
    by (rule yields_bind [OF end_phases_yields [OF 1(1) Suc.prems(2-5) 1(2) Suc.prems(7)]])
       (auto split: option.split intro!: yields_ret keeps_then [OF vfifo_keeps(1)] step last)
qed

lemma window_of_phases_yields:
  assumes p: "good_phase p" and i: "unat i < 16" and wb: "unat wb = 2496 * unat i + 312 * unat p"
  shows "yields I (window_of_phases B grp i p wb v) (window_in 100000 0)"
proof -
  have p1: "1 \<le> unat p" "unat p \<le> 7" using p by (simp_all add: good_phase_def)
  have pm: "unat (p - 1) = unat p - 1" using p1 by (subst unat_minus_one) auto
  have wb1: "312 \<le> unat wb" "unat wb \<le> 40000" using wb p1 i by linarith+
  have we: "unat (wb + 312) = unat wb + 312" using wb1 by (intro unat_add32 [THEN trans]) simp_all
  have p2: "2 \<le> unat p" if "p \<noteq> 1"
    using that p1 by (cases "unat p = 1") (auto simp: word_unat_eq_iff)
  define q where "q = (if p - 1 = 0 then (1 :: u32, wb) else (p - 1, wb - 312))"
  have q: "good_phase (fst q)" "312 \<le> unat (snd q)"
    using p1 pm p2 wb wb1 by (auto simp: q_def good_phase_def unat_sub word_le_nat_alt)
  have q7: "unat (fst q) \<le> 7" using q(1) by (simp add: good_phase_def)
  have d0: "good_delay 0" by (simp add: good_delay_def)
  have n: "unat (wb + 312) + 2496 * (17 - unat i) \<le> 100000" using wb1 i we by simp
  have last: "yields I (do {
         let (p, work_end) = (if p' = 1 then (0, we' - 312) else (p', we'));
         (p, v) \<leftarrow> phase_back B grp p v';
         let work_end = work_end - 312;
         scc_mgr_set_dqs_en_phase_all_ranks B grp p;
         ret (Some (p, wb', work_end, v))
       }) (window_in 100000 0)"
    if "good_phase p'" "312 \<le> unat wb'" "unat wb' \<le> 100000" "624 \<le> unat we'" "unat we' \<le> 100000"
    for p' wb' we' v'
  proof -
    have g: "good_phase (if (if p' = 1 then 0 else p') = 0 then 7 else (if p' = 1 then 0 else p') - 1)"
    proof (cases "p' = 1")
      case False
      have "1 \<le> unat p'" "unat p' \<le> 7" using that(1) by (simp_all add: good_phase_def)
      moreover from this False have "2 \<le> unat p'"
        by (cases "unat p' = 1") (auto simp: word_unat_eq_iff)
      moreover from calculation have "unat (p' - 1) = unat p' - 1" by (subst unat_minus_one) auto
      ultimately show ?thesis using False by (auto simp: good_phase_def)
    qed (simp add: good_phase_def)
    have w: "unat (we' - 312 - 312) \<le> 100000" "unat (we' - 312) \<le> 100000"
    proof -
      have "unat (we' - 312) = unat we' - 312" using that by (simp add: unat_sub word_le_nat_alt)
      moreover from this have "unat (we' - 312 - 312) = unat we' - 312 - 312"
        using that by (subst unat_sub) (simp_all add: word_le_nat_alt)
      ultimately show "unat (we' - 312 - 312) \<le> 100000" "unat (we' - 312) \<le> 100000" using that by simp_all
    qed
    show ?thesis
      using g w that
      by (auto split: if_splits intro!: yields_bind [OF phase_back_yields] keeps_then [OF set_phase] yields_ret)
  qed
  have main: "yields I (do {
         scc_mgr_set_dqs_en_phase_all_ranks B grp (fst q);
         work_bgn \<leftarrow> begin_refine B grp (upto32 0 32) (snd q) wb;
         (p, v) \<leftarrow> phase_forward B grp (fst q) v0;
         scc_mgr_set_dqs_en_delay_all_ranks B grp 0;
         (p, v) \<leftarrow> phase_forward B grp p v;
         found \<leftarrow> end_vfifo B grp (17 - unat i) p 0 work_bgn (wb + 312) v;
         case found of
           None \<Rightarrow> ret None
         | Some (p, work_bgn, work_end, v) \<Rightarrow> do {
             let (p, work_end) = (if p = 1 then (0, work_end - 312) else (p, work_end));
             (p, v) \<leftarrow> phase_back B grp p v;
             let work_end = work_end - 312;
             scc_mgr_set_dqs_en_phase_all_ranks B grp p;
             ret (Some (p, work_bgn, work_end, v))
           }
       }) (window_in 100000 0)" for v0
    apply (rule keeps_then [OF set_phase [OF q(1)]])
    apply (rule yields_bind [OF begin_refine_yields [OF q(2) wb1(1)]], use wb1 in simp)
    apply (rule yields_bind [OF phase_forward_yields [OF q7]], clarsimp)
    apply (rule keeps_then [OF set_delay [OF d0]])
    apply (rule yields_bind [OF phase_forward_yields], simp, clarsimp)
    apply (rule_tac R = "window_in 100000 624" in yields_bind)
     apply (rule end_vfifo_yields)
           apply (simp_all add: we)
    subgoal using wb1 by simp
    subgoal using n we by simp
    subgoal for _ _ _ f
    proof (cases f)
      case (Some x)
      assume "window_in 100000 624 f"
      moreover obtain p' wb' we' v' where "x = (p', wb', we', v')" by (cases x)
      ultimately show ?thesis using last [of p' wb' we' v'] Some by simp
    qed (simp add: yields_ret)
    done
  show ?thesis
    unfolding window_of_phases_def Let_def
    apply (rule yields_bind [OF phase_back_yields])
    subgoal for a
      using main [of "snd a"] p1 by (cases a) (auto simp: q_def)
    done
qed

lemma end_dtaps_yields:
  "unat d + n \<le> 32 \<Longrightarrow> unat we + 25 * n < 2 ^ 31 \<Longrightarrow>
   yields I (end_dtaps B grp n d we) (\<lambda>(d', we').
     unat d' \<le> 32 \<and> unat d \<le> unat d' \<and> unat we' = unat we + 25 * (unat d' - unat d))"
proof (induction n arbitrary: d we)
  case 0
  then show ?case by (auto intro!: yields_ret)
next
  case (Suc n)
  have g: "good_delay d" using Suc.prems by (simp add: good_delay_def)
  have d: "unat (d + 1) = unat d + 1" and we: "unat (we + 25) = unat we + 25"
    using Suc.prems by (simp_all add: unat_add32)
  have step: "yields I (end_dtaps B grp n (d + 1) (we + 25)) (\<lambda>(d', we').
     unat d' \<le> 32 \<and> unat d \<le> unat d' \<and> unat we' = unat we + 25 * (unat d' - unat d))"
    by (rule yields_mono [OF Suc.IH]) (use Suc.prems d we in auto)
  show ?case
    unfolding end_dtaps.simps
    by (intro keeps_then [OF set_delay [OF g]] keeps_then [OF one_bit_keeps] yields_if yields_ret step)
       (use Suc.prems in auto)
qed

lemma seek_dtap_yields:
  "unat d + n \<le> 32 \<Longrightarrow>
   yields I (seek_dtap B grp want n d) (\<lambda>(f, d'). unat d' \<le> 32 \<and> (f \<longrightarrow> unat d' \<le> 31))"
proof (induction n arbitrary: d)
  case 0
  then show ?case by (auto intro!: yields_ret)
next
  case (Suc n)
  have g: "good_delay d" using Suc.prems by (simp add: good_delay_def)
  have d: "unat (d + 1) = unat d + 1" using Suc.prems by (simp add: unat_add32)
  show ?case
    unfolding seek_dtap.simps
    by (intro keeps_then [OF set_delay [OF g]] keeps_then [OF one_bit_keeps] yields_if yields_ret Suc.IH)
       (use Suc.prems d in auto)
qed

lemma measure_dtaps_keeps: 
  assumes "unat d \<le> 32"
  shows "keeps I (measure_dtaps B grp d)"
proof -
  have 1: "unat d + (32 - unat d) \<le> 32" using assms by simp
  have 2: "unat (d' + 1) + (32 - unat (d' + 1)) \<le> 32" if "unat d' \<le> 31" for d' :: u32
    using that unat_add32 [of d' 1] by simp
  show ?thesis
    unfolding keeps_yields measure_dtaps_def Let_def
    apply (rule yields_bind [OF seek_dtap_yields [OF 1]], clarsimp)
    apply (intro conjI impI)
    subgoal by (rule yields_bind [OF seek_dtap_yields [OF 2]])
      (auto simp flip: keeps_yields intro!: keeps_intros)
    subgoal by (auto simp flip: keeps_yields intro!: keeps_intros)
    done
qed

end

section \<open>The middle of the window\<close>

lemma taps_up_to_spec:
  assumes "unat t + unat step * n < 2 ^ 32" "unat k + n < 2 ^ 32"
  shows "\<exists>m \<le> n. taps_up_to step w n k t = (k + of_nat m, t + of_nat m * step) \<and>
    unat (k + of_nat m) = unat k + m \<and> unat (t + of_nat m * step) = unat t + m * unat step \<and>
    (m < n \<longrightarrow> unat w \<le> unat t + m * unat step) \<and> (0 < m \<longrightarrow> unat t + (m - 1) * unat step < unat w)"
  using assms
proof (induction n arbitrary: k t)
  case 0
  then show ?case by simp
next
  case (Suc n)
  show ?case
  proof (cases "t < w")
    case False
    then show ?thesis by (intro exI [of _ 0]) (simp add: word_less_nat_alt)
  next
    case True
    have t: "unat (t + step) = unat t + unat step" and k: "unat (k + 1) = unat k + 1"
      using Suc.prems by (simp_all add: unat_add32)
    have "unat (t + step) + unat step * n < 2 ^ 32" "unat (k + 1) + n < 2 ^ 32"
      using Suc.prems t k by simp_all
    from Suc.IH [OF this] obtain m where m: "m \<le> n"
      "taps_up_to step w n (k + 1) (t + step) = (k + 1 + of_nat m, t + step + of_nat m * step)"
      "unat (k + 1 + of_nat m) = unat (k + 1) + m"
      "unat (t + step + of_nat m * step) = unat (t + step) + m * unat step"
      "m < n \<longrightarrow> unat w \<le> unat (t + step) + m * unat step"
      "0 < m \<longrightarrow> unat (t + step) + (m - 1) * unat step < unat w" by blast
    have e: "k + 1 + of_nat m = k + of_nat (Suc m)" "t + step + of_nat m * step = t + of_nat (Suc m) * step"
      by (simp_all add: algebra_simps)
    have "unat t + m * unat step < unat w"
      using m(6) True t by (cases m) (auto simp: word_less_nat_alt)
    then show ?thesis
      using m True t k e by (intro exI [of _ "Suc m"]) (auto simp: algebra_simps)
  qed
qed

lemma fold_back_range:
  "0 < unat p \<Longrightarrow> 0 < unat w \<Longrightarrow> 0 < unat (fold_back p w) \<and> unat (fold_back p w) \<le> unat p"
proof (induction p w rule: fold_back.induct)
  case (1 p w)
  show ?case
  proof (cases "p \<noteq> 0 \<and> w > p")
    case True
    then have "0 < unat (w - p)" by (simp add: unat_sub word_less_nat_alt word_le_nat_alt)
    then show ?thesis using 1 True by (subst (1 2) fold_back.simps) simp
  next
    case False
    then show ?thesis using 1 by (subst (1 2) fold_back.simps) (auto simp: word_less_nat_alt)
  qed
qed

lemma fifo_period_2496: "fifo_period = 2496"
  by (simp add: fifo_period_def upt_rec)

lemma centre_taps_spec:
  assumes mid: "0 < unat mid0" and w: "w = unat (fold_back fifo_period mid0)"
    and pd: "centre_taps mid0 = (p, d)"
  shows "2 \<le> unat p \<and> unat p \<le> 8 \<and> unat d \<le> 13 \<and>
    (if w \<le> 312 then p = 2 \<and> d = 0
     else w \<le> 312 * (unat p - 1) + 25 * unat d \<and> 312 * (unat p - 1) + 25 * unat d < w + 25)"
proof -
  let ?w = "fold_back fifo_period mid0"
  have w1: "0 < w" "w \<le> 2496" using fold_back_range [of fifo_period mid0] mid by (simp_all add: w fifo_period_2496)
  obtain m where m: "m \<le> 8" "taps_up_to 312 ?w 8 0 0 = (of_nat m, of_nat m * 312)"
    "unat (of_nat m * 312 :: u32) = m * 312" "m < 8 \<longrightarrow> w \<le> m * 312" "0 < m \<longrightarrow> (m - 1) * 312 < w"
    using taps_up_to_spec [of 0 312 8 0 ?w] by (auto simp: w)
  have m0: "0 < m" using m(4) w1 by (cases m) auto
  have wm: "w \<le> 312 * m" using m(1,4) w1 by (cases "m = 8") auto
  have um: "unat (of_nat m :: u32) = m" using m(1) by (simp add: unat_of_nat_32)
  define t where "t = (of_nat m * 312 :: u32) - 312"
  have t: "unat t = 312 * (m - 1)"
  proof -
    have u: "unat (312 :: u32) = 312" by simp
    have "(312 :: u32) \<le> of_nat m * 312" unfolding word_le_nat_alt m(3) u using m0 by simp
    then have "unat t = unat (of_nat m * 312 :: u32) - unat (312 :: u32)" unfolding t_def by (rule unat_sub)
    then show ?thesis unfolding m(3) u by (simp add: diff_mult_distrib)
  qed
  have tb: "unat t \<le> 2184" unfolding t using m(1) by linarith
  then have side: "unat t + unat (25 :: u32) * 32 < 2 ^ 32" by simp
  obtain k where k: "k \<le> 32" "taps_up_to 25 ?w 32 0 t = (of_nat k, t + of_nat k * 25)"
    "k < 32 \<longrightarrow> w \<le> unat t + k * 25" "0 < k \<longrightarrow> unat t + (k - 1) * 25 < w"
    using taps_up_to_spec [OF side, of 0 ?w] by (auto simp: w)
  have k13: "k \<le> 13" using k(4) wm t m0 by (cases k) auto
  have uk: "unat (of_nat k :: u32) = k" using k(1) by (simp add: unat_of_nat_32)
  have c: "centre_taps mid0 = (if m = 1 then (2, 0) else (of_nat m, of_nat k))"
  proof -
    have "(of_nat m = (1 :: u32)) \<longleftrightarrow> m = 1" using um by (metis of_nat_1 unat_1)
    then show ?thesis
      using k(2) by (simp add: centre_taps_def Let_def m(2) t_def)
  qed
  show ?thesis
  proof (cases "m = 1")
    case True
    then show ?thesis using c pd wm by simp
  next
    case False
    then have "2 \<le> m" "312 < w" "312 * (m - 1) < w" using m0 m(5) by (auto simp: not_less mult.commute)
    then show ?thesis
      using c pd False um uk k(3,4) k13 t m(1) by (cases k) (auto simp: algebra_simps)
  qed
qed

context en_frame
begin

lemma settle_keeps:
  assumes p: "unat p \<le> 7" and d: "unat d \<le> 32" and wb: "312 \<le> unat wb" "unat wb \<le> 110000"
    and we: "unat wb \<le> unat we" "unat we \<le> 110000"
  shows "keeps I (settle B grp p d wb we v)"
proof -
  have mid: "0 < unat ((wb + we) div 2)"
    using wb we unat_add32 [of wb we] by (simp add: unat_div)
  obtain q e where c: "centre_taps ((wb + we) div 2) = (q, e)" by (cases "centre_taps ((wb + we) div 2)")
  have q: "2 \<le> unat q" "unat q \<le> 8" "unat e \<le> 13"
    using centre_taps_spec [OF mid refl c] by auto
  have gq: "good_phase (q - 1)"
  proof -
    have "unat (q - 1) = unat q - 1" using q by (subst unat_minus_one) auto
    then show ?thesis unfolding good_phase_def using q by linarith
  qed
  have ge: "good_delay e" using q by (simp add: good_delay_def)
  have g7: "good_phase 7" by (simp add: good_phase_def)
  have gp: "good_phase (p - 1)" if "\<not> (p = 0 \<or> p = 1)"
  proof -
    have "unat p \<noteq> 0" "unat p \<noteq> 1" using that by (auto simp: word_unat_eq_iff)
    moreover have "unat (p - 1) = unat p - 1" using that by (subst unat_minus_one) auto
    ultimately show ?thesis unfolding good_phase_def using p by linarith
  qed
  show ?thesis
    unfolding keeps_yields settle_def c Let_def prod.case
    apply (rule yields_bind [where R = "\<lambda>(p', v'). good_phase p'"])
    subgoal by (intro yields_if keeps_then [OF vfifo_keeps(2)] yields_ret) (simp_all add: g7 gp)
    subgoal for a
      by (cases a) (auto simp flip: keeps_yields
        intro!: keeps_intros set_phase measure_dtaps_keeps d gq ge push_until_pass_keeps)
    done
qed

lemma window_end_keeps:
  assumes p: "unat p \<le> 7" and d: "unat d \<le> 31" and wb: "312 \<le> unat wb" "unat wb \<le> 100000"
    and we: "unat we \<le> 100000" "d = 0 \<or> 312 \<le> unat we"
  shows "keeps I (window_end B grp p d wb we v)"
proof -
  have 1: "unat d + (32 - unat d) \<le> 32" "unat we + 25 * (32 - unat d) < 2 ^ 31"
    using d we(1) by simp_all
  have 2: "unat (if d' \<noteq> 0 then we' - 25 else we') \<le> 110000"
    if "unat d' \<le> 32" "unat d \<le> unat d'" "unat we' = unat we + 25 * (unat d' - unat d)" for d' we' :: u32
  proof -
    have "unat we' \<le> unat we + 800" using that by simp
    moreover have "25 \<le> unat we'" if "d' \<noteq> 0"
    proof (cases "d = 0")
      case True
      then have "1 \<le> unat d' - unat d" using \<open>d' \<noteq> 0\<close> by (simp add: Suc_leI unat_gt_0)
      then show ?thesis using \<open>unat we' = _\<close> by linarith
    next
      case False
      then show ?thesis using we(2) \<open>unat we' = _\<close> by linarith
    qed
    then have "unat (we' - 25) = unat we' - 25" if "d' \<noteq> 0"
      using that by (subst unat_sub) (simp_all add: word_le_nat_alt)
    ultimately show ?thesis using we(1) by auto
  qed
  show ?thesis
    unfolding keeps_yields window_end_def Let_def
    apply (rule yields_bind [OF end_dtaps_yields [OF 1]])
    subgoal for a
      using 2 [of "fst a" "snd a"] wb p
      by (cases a) (auto simp: word_le_nat_alt simp flip: keeps_yields intro!: keeps_intros settle_keeps split: if_splits)
    done
qed

lemma dtaps_12: "dtaps_per_ptap = 12"
  by (simp add: dtaps_per_ptap_def dtaps_loop.simps)

lemma find_dqs_en_phase_keeps: "keeps I (rw_mgr_mem_calibrate_vfifo_find_dqs_en_phase B grp)"
proof -
  have 1: "good_delay 0" "good_phase 1" by (simp_all add: good_delay_def good_phase_def)
  have list: "upto32 0 (Suc (unat dtaps_per_ptap)) = upto32 0 13" by (simp add: dtaps_12)
  have first: "keeps I (case f of None \<Rightarrow> ret False
       | Some (d, i, p, work_bgn, v) \<Rightarrow>
           if d = 0 then do {
             w \<leftarrow> window_of_phases B grp i p work_bgn v;
             case w of
               None \<Rightarrow> ret False
             | Some (p, work_bgn, work_end, v) \<Rightarrow> window_end B grp p 0 work_bgn work_end v
           }
           else window_end B grp p d work_bgn work_bgn v)"
    if f: "case f of None \<Rightarrow> True
     | Some (d', i, p, wb, v') \<Rightarrow> unat d' \<le> 12 \<and> good_phase p \<and> unat i < 16 \<and>
         unat wb = 25 * unat d' + 2496 * unat i + 312 * unat p" for f
  proof (cases f)
    case (Some x)
    obtain d i p wb v where x: "x = (d, i, p, wb, v)" by (cases x)
    have h: "unat d \<le> 12" "good_phase p" "unat i < 16" "unat wb = 25 * unat d + 2496 * unat i + 312 * unat p"
      using f Some x by simp_all
    have p: "1 \<le> unat p" "unat p \<le> 7" using h(2) by (simp_all add: good_phase_def)
    have wb: "312 \<le> unat wb" "unat wb \<le> 100000" using h p by linarith+
    show ?thesis
    proof (cases "d = 0")
      case True
      have "yields I (window_of_phases B grp i p wb v) (window_in 100000 0)"
        using h True by (intro window_of_phases_yields) simp_all
      then have "keeps I (do {
             w \<leftarrow> window_of_phases B grp i p wb v;
             case w of
               None \<Rightarrow> ret False
             | Some (p, work_bgn, work_end, v) \<Rightarrow> window_end B grp p 0 work_bgn work_end v
           })"
        unfolding keeps_yields
        by (rule yields_bind)
           (auto simp: good_phase_def simp flip: keeps_yields intro!: keeps_ret window_end_keeps split: option.split)
      then show ?thesis using Some x True by simp
    next
      case False
      then show ?thesis using Some x h p wb by (simp add: window_end_keeps)
    qed
  qed (simp add: keeps_ret)
  show ?thesis
    unfolding rw_mgr_mem_calibrate_vfifo_find_dqs_en_phase_def list
    apply (rule keeps_bind [OF reg_file_keeps(3)])
    apply (rule keeps_bind [OF set_delay [OF 1(1)]])
    apply (rule keeps_bind [OF set_phase [OF 1(2)]])
    apply (rule keeps_bind [OF push_until_fail_keeps])
    apply (rule keeps_if [OF keeps_ret])
    unfolding keeps_yields
    apply (rule yields_bind [OF begin_dtaps_yields], simp, simp)
    unfolding keeps_yields [symmetric]
    apply (rule first)
    apply simp
    done
qed

end

end
