(* ===== verification/Seq_Claims.thy ===== *)
theory Seq_Claims
  imports Seq_Frame
begin

text \<open>
  Properties of the search for the strobe's enable phase, on any hardware: what it writes to
  the phase and delay registers of its group.
\<close>

section \<open>Enable phase and delay stay in range\<close>

definition en_allowed :: "u32 \<Rightarrow> u32 \<Rightarrow> u32 \<Rightarrow> bool" where
  "en_allowed g a d \<longleftrightarrow>
     (a = SCC_MGR_DQS_EN_PHASE + push_bit 2 g \<longrightarrow> good_phase d) \<and>
     (a = SCC_MGR_DQS_EN_DELAY + push_bit 2 g \<longrightarrow> good_delay d)"

definition en_writes_ok :: "io_event list \<Rightarrow> u32 \<Rightarrow> 'h seq \<Rightarrow> bool" where
  "en_writes_ok tr g s \<longleftrightarrow> (\<exists>t. sq_trace s = tr @ t \<and> (\<forall>a d. Wr a d \<in> set t \<longrightarrow> en_allowed g a d))"

lemma group_and_3: "g < 4 \<Longrightarrow> g AND 3 = (g :: u32)"
  by (drule group_cases) auto

lemma and_3_less: "(g :: u32) AND 3 < 4"
proof -
  have "g AND 3 \<le> 3" by (rule word_and_le1)
  then show ?thesis by (rule le_less_trans) simp
qed

lemma en_writes_ok_event:
  assumes "en_writes_ok tr g s" and e: "\<And>a d. e = Wr a d \<Longrightarrow> en_allowed g a d"
  shows "en_writes_ok tr g (s\<lparr>sq_hw := h, sq_trace := sq_trace s @ [e]\<rparr>)"
proof -
  obtain t where "sq_trace s = tr @ t" "\<forall>a d. Wr a d \<in> set t \<longrightarrow> en_allowed g a d"
    using assms(1) by (auto simp: en_writes_ok_def)
  then show ?thesis
    unfolding en_writes_ok_def by (intro exI [of _ "t @ [e]"]) (auto simp: e)
qed

lemma en_allowed_free: "g < 4 \<Longrightarrow> \<not> delay_reg a \<Longrightarrow> en_allowed g a d"
  unfolding en_allowed_def by (drule group_cases) auto

interpretation en: en_frame "en_writes_ok tr (g AND 3)" "en_allowed (g AND 3)" "g AND 3" for tr g
proof unfold_locales
  show "en_writes_ok tr (g AND 3) (s\<lparr>sq_hw := h, sq_trace := sq_trace s @ [Rd a v]\<rparr>)"
    if "en_writes_ok tr (g AND 3) s" for s :: "'a seq" and h a v
    using that by (rule en_writes_ok_event) simp
  show "en_writes_ok tr (g AND 3) (s\<lparr>sq_hw := h, sq_trace := sq_trace s @ [Wr a d]\<rparr>)"
    if "en_writes_ok tr (g AND 3) s" "en_allowed (g AND 3) a d" for s :: "'a seq" and h a d
    using that(1) by (rule en_writes_ok_event) (simp add: that(2))
  show "g AND 3 < 4" by (rule and_3_less)
  show "en_allowed (g AND 3) a d" if "\<not> delay_reg a" for a d
    using that by (rule en_allowed_free [OF and_3_less])
  show "en_allowed (g AND 3) (SCC_MGR_DQS_EN_PHASE + push_bit 2 (g AND 3)) p" if "good_phase p" for p
    using that by (simp add: en_allowed_def)
  show "en_allowed (g AND 3) (SCC_MGR_DQS_EN_DELAY + push_bit 2 (g AND 3)) d" if "good_delay d" for d
    using that by (simp add: en_allowed_def)
qed

lemma writes_to_set: "d \<in> set (writes_to a t) \<longleftrightarrow> Wr a d \<in> set t"
  by (induction a t rule: writes_to.induct) auto

text \<open>
  C12. Whatever the memory answers, the search for the enable phase of a group ends, and every
  phase it writes for the group is from 1 to 7 (phase 0 is never used), every delay from 0 to 31.
\<close>

theorem dqs_enable_in_range:
  assumes "grp < 4"
  shows "\<exists>t. sq_trace (snd (run_state (rw_mgr_mem_calibrate_vfifo_find_dqs_en_phase B grp) s)) = sq_trace s @ t \<and>
    set (writes_to (SCC_MGR_DQS_EN_PHASE + push_bit 2 grp) t) \<subseteq> {1..7} \<and>
    set (writes_to (SCC_MGR_DQS_EN_DELAY + push_bit 2 grp) t) \<subseteq> {0..31}"
proof -
  have "en_writes_ok (sq_trace s) (grp AND 3) s" unfolding en_writes_ok_def by (intro exI [of _ "[]"]) simp
  from keepsD [OF en.find_dqs_en_phase_keeps this, of B] show ?thesis
    unfolding group_and_3 [OF assms] en_writes_ok_def
    by (auto simp: writes_to_set en_allowed_def good_phase_def good_delay_def word_le_nat_alt)
qed

theorem dqs_enable_in_range_witness:
  "\<exists>t. sq_trace (snd (run_state (rw_mgr_mem_calibrate_vfifo_find_dqs_en_phase dead_sdram 2) (fresh_seq ()))) = t \<and>
    set (writes_to (SCC_MGR_DQS_EN_PHASE + push_bit 2 2) t) \<subseteq> {1..7} \<and>
    set (writes_to (SCC_MGR_DQS_EN_DELAY + push_bit 2 2) t) \<subseteq> {0..31}"
proof -
  have "(2 :: u32) < 4" by simp
  from dqs_enable_in_range [OF this, of dead_sdram "fresh_seq ()"] show ?thesis
    by (simp add: fresh_seq_def)
qed

end
