(* ===== verification/Seq_Error.thy ===== *)
theory Seq_Error
  imports Seq_Frame
begin

text \<open>
  What the calibration keeps of the error record.  Two contracts: \<open>open_frame\<close> is a predicate
  that any access to the hardware keeps, \<open>error_state\<close> one that depends on the recorded
  stage and on what steers the calibration, and that survives the recording of a first
  error with one of the stages \<open>codes\<close>.  What keeps them is proved once; with no stage in
  \<open>codes\<close> the lemmas speak of runs that record nothing.
\<close>

section \<open>Any access to the hardware\<close>

locale open_frame =
  fixes I :: "'h seq \<Rightarrow> bool"
  assumes access: "I s \<Longrightarrow> I (s\<lparr>sq_hw := h, sq_trace := t\<rparr>)"
begin

sublocale en_frame I "\<lambda>_ _. True" "g AND 3" for g
proof unfold_locales
  have "g AND 3 \<le> 3" by (rule word_and_le1)
  then show "g AND 3 < 4" by (rule le_less_trans) simp
qed (simp_all add: access)

lemma any_wr [keeps_intros]: "keeps I (sdr_wr B base off d)"
  by (rule wr) simp

lemma find_phase_keeps [keeps_intros]:
  assumes "g < 4"
  shows "keeps I (rw_mgr_mem_calibrate_vfifo_find_dqs_en_phase B g)"
proof -
  have "g AND 3 = g" using group_cases [OF assms] by auto
  then show ?thesis using find_dqs_en_phase_keeps [of B g] by simp
qed

text \<open>Settings of the scan chain manager.\<close>

lemma scc_keeps [keeps_intros]:
  "keeps I (scc_mgr_zero_all B)" "keeps I (scc_set_bypass_mode B g m)" "keeps I (scc_mgr_zero_group B g t b)"
  "keeps I (scc_mgr_apply_group_dq_in_delay B g t d)" "keeps I (scc_mgr_apply_group_dq_out1_delay B g t d)"
  "keeps I (scc_mgr_apply_group_dm_out1_delay B g d)" "keeps I (scc_mgr_apply_group_dqs_io_and_oct_out1 B g d)"
  "keeps I (scc_mgr_apply_group_all_out_delay_add_all_ranks B g t d)"
  "keeps I (scc_mgr_set_dqdqs_output_phase_all_ranks B g p)"
  "keeps I (scc_mgr_set_dqs_en_phase_all_ranks B g p)"
  "keeps I (scc_mgr_set_dqs_bus_in_delay B g d)" "keeps I (scc_mgr_set_dq_in_delay B g t d)"
  "keeps I (scc_mgr_set_dq_out1_delay B g t d)" "keeps I (scc_mgr_set_dqs_en_phase B g p)"
  "keeps I (scc_mgr_set_dqdqs_output_phase B g p)" "keeps I (set_dqs_in B g d)"
  unfolding scc_mgr_zero_all_def scc_set_bypass_mode_def scc_mgr_zero_group_def
    scc_mgr_apply_group_dq_in_delay_def scc_mgr_apply_group_dq_out1_delay_def
    scc_mgr_apply_group_dm_out1_delay_def scc_mgr_apply_group_dqs_io_and_oct_out1_def
    scc_mgr_apply_group_all_out_delay_add_all_ranks_def scc_mgr_apply_group_all_out_delay_add_def
    scc_mgr_set_dqdqs_output_phase_all_ranks_def scc_mgr_set_dqs_en_phase_all_ranks_def
    scc_mgr_set_oct_out1_delay_def scc_mgr_set_oct_out2_delay_def scc_mgr_set_hhp_extras_def set_dqs_in_def prog_defs
  by (intro keeps_intros keeps_for_each)+

lemma read_scc_keeps [keeps_intros]:
  "keeps I (READ_SCC_DQS_IN_DELAY B g)" "keeps I (READ_SCC_DQ_IN_DELAY B g)"
  "keeps I (READ_SCC_DQ_OUT1_DELAY B g)" "keeps I (READ_SCC_DQS_IO_OUT1_DELAY B)"
  unfolding prog_defs by (intro keeps_intros)+

text \<open>What runs before and after the groups.\<close>

lemma delay_keeps [keeps_intros]: "keeps I (delay_for_n_mem_clocks B n)"
  unfolding delay_for_n_mem_clocks_def run_idle_loop_def skip_delay_value_def
  by (intro keeps_intros keeps_for_each)

lemma mrs_keeps [keeps_intros]: "keeps I (run_mrs B n)" "keeps I (long_wait B a b c n)"
  unfolding run_mrs_def set_jump_as_return_def long_wait_def skip_delay_value_def by (intro keeps_intros)+

lemma memory_keeps [keeps_intros]:
  "keeps I (rw_mgr_mem_initialize B)" "keeps I (rw_mgr_mem_handoff B)" "keeps I (mem_precharge_and_activate B)"
  unfolding rw_mgr_mem_initialize_def rw_mgr_mem_handoff_def mem_precharge_and_activate_def
  by (intro keeps_intros for_ranks_keeps)+

lemma start_keeps [keeps_intros]:
  "keeps I (initialize_reg_file B)" "keeps I (initialize_hps_phy B c)" "keeps I (scc_mgr_initialize B)"
  "keeps I (initialize_tracking B)" "keeps I (hc_initialize_rom_data B inst ac)"
  unfolding initialize_reg_file_def initialize_hps_phy_def scc_mgr_initialize_def initialize_tracking_def
    hc_initialize_rom_data_def Let_def
  by (intro keeps_intros keeps_for_each)+

end

section \<open>The recorded stage\<close>

text \<open>The same stage on record, the same debug flags, groups, shadow registers and steps to skip.\<close>

definition same_course :: "'h seq \<Rightarrow> 'h seq \<Rightarrow> bool" where
  "same_course s s' \<longleftrightarrow> error_stage (gbl s') = error_stage (gbl s) \<and>
     phy_debug_mode_flags (gbl s') = phy_debug_mode_flags (gbl s) \<and> skip_groups (param s') = skip_groups (param s) \<and>
     skip_shadow_regs (param s') = skip_shadow_regs (param s) \<and> dyn_calib_steps s' = dyn_calib_steps s"

locale error_state =
  fixes I :: "'h seq \<Rightarrow> bool" and codes :: "u32 set"
  assumes course: "I s \<Longrightarrow> same_course s s' \<Longrightarrow> I s'"
    and first_error: "I s \<Longrightarrow> error_stage (gbl s) = CAL_STAGE_NIL \<Longrightarrow> st \<in> codes \<Longrightarrow>
      I (s\<lparr>gbl := (gbl s)\<lparr>error_substage := sub, error_stage := st, error_group := g\<rparr>\<rparr>)"
begin

sublocale open_frame I
  by unfold_locales (erule course, simp add: same_course_def)

lemma gbl_keeps [keeps_intros]:
  "keeps I (set_curr_read_lat lat)"
  "keeps I (State (\<lambda>s. ((), s\<lparr>gbl := (gbl s)\<lparr>fom_in := f s\<rparr>\<rparr>)))"
  "keeps I (State (\<lambda>s. ((), s\<lparr>gbl := (gbl s)\<lparr>fom_out := f s\<rparr>\<rparr>)))"
  "keeps I (State (\<lambda>s. ((), s\<lparr>gbl := (gbl s)\<lparr>rw_wl_nop_cycles := f s\<rparr>\<rparr>)))"
  "keeps I (State (\<lambda>s. ((), s\<lparr>gbl := (gbl s)\<lparr>curr_write_lat := f s\<rparr>\<rparr>)))"
  unfolding set_curr_read_lat_def by (rule keeps_changes, erule course, simp add: same_course_def)+

lemma set_failing_keeps: "st \<in> codes \<Longrightarrow> keeps I (set_failing_group_stage g st sub)"
  unfolding set_failing_group_stage_def
  by (rule keeps_changes) (simp add: first_error split: if_split)

text \<open>Per-bit deskew.\<close>

lemma edge_sweep_keeps:
  "(\<And>d. keeps I (setter d)) \<Longrightarrow> keeps I test \<Longrightarrow> keeps I (edge_sweep setter test m step ds sticky es)"
  by (induction ds arbitrary: sticky es) (auto intro!: keeps_intros)

lemma center_test_keeps [keeps_intros]:
  "w < 4 \<Longrightarrow> g < 4 \<Longrightarrow> keeps I (center_test B r w g u)"
  unfolding center_test_def by (intro keeps_intros)

lemma center_bit_keeps [keeps_intros]: "keeps I (center_bit B w t es k o' mm i x)"
  unfolding center_bit_def by (intro keeps_intros)

lemma center_end_keeps [keeps_intros]:
  "keeps I (center_apply B w g t u sd es)"
  "(if u then CAL_STAGE_VFIFO else CAL_STAGE_VFIFO_AFTER_WRITES) \<in> codes \<Longrightarrow> keeps I (center_fail B g u sd i)"
  unfolding center_apply_def center_fail_def
  by (intro keeps_intros keeps_for_fold set_failing_keeps; assumption)+

lemma vfifo_center_keeps [keeps_intros]:
  "w < 4 \<Longrightarrow> g < 4 \<Longrightarrow> (if u then CAL_STAGE_VFIFO else CAL_STAGE_VFIFO_AFTER_WRITES) \<in> codes \<Longrightarrow>
   keeps I (rw_mgr_mem_calibrate_vfifo_center B r w g t u f)"
  unfolding rw_mgr_mem_calibrate_vfifo_center_def Let_def
  by (intro keeps_intros edge_sweep_keeps)

lemma write_strobe_sweep_keeps:
  "w < 4 \<Longrightarrow> keeps I (write_strobe_sweep B r w sd m ds sticky es)"
  by (induction ds arbitrary: sticky es) (auto intro!: keeps_intros)

lemma dm_keeps [keeps_intros]:
  "w < 4 \<Longrightarrow> keeps I (dm_test B r w)" "w < 4 \<Longrightarrow> keeps I (dm_sweep_mask B r w x)"
  unfolding dm_sweep_mask_def dm_test_def by (intro keeps_intros keeps_for_fold; simp)+

lemma dm_strobe_keeps [keeps_intros]: "w < 4 \<Longrightarrow> keeps I (dm_sweep_strobe B r w nd ds x)"
  by (induction ds arbitrary: x) (auto intro!: keeps_intros)

lemma write_bit_keeps [keeps_intros]: "keeps I (write_center_bit B w es k o' mm i x)"
  unfolding write_center_bit_def by (intro keeps_intros)

lemma write_apply_keeps [keeps_intros]: "w < 4 \<Longrightarrow> keeps I (write_center_apply B r w sd es)"
  unfolding write_center_apply_def calibrate_dm_def by (intro keeps_intros keeps_for_fold)

lemma writes_center_keeps [keeps_intros]:
  "w < 4 \<Longrightarrow> CAL_STAGE_WRITES \<in> codes \<Longrightarrow> keeps I (rw_mgr_mem_calibrate_writes_center B r w t)"
  unfolding rw_mgr_mem_calibrate_writes_center_def
  by (intro keeps_intros edge_sweep_keeps write_strobe_sweep_keeps set_failing_keeps; simp)

text \<open>The stages.\<close>

lemma for_shadow_keeps: "(\<And>r b. keeps I (body r b)) \<Longrightarrow> keeps I (for_shadow_regs body b)"
  unfolding for_shadow_regs_def by (intro keeps_for_fold keeps_intros)

lemma guaranteed_keeps: "g < 4 \<Longrightarrow> keeps I (guaranteed_read_phases B g n ps)"
  by (induction ps) (auto intro!: keeps_intros)

lemma guaranteed_all_keeps [keeps_intros]:
  "g < 4 \<Longrightarrow> keeps I (rw_mgr_mem_calibrate_read_test_patterns_all_ranks B g n)"
  unfolding rw_mgr_mem_calibrate_read_test_patterns_all_ranks_def by (intro keeps_intros guaranteed_keeps)

lemma sweep_dq_keeps [keeps_intros]: "g < 4 \<Longrightarrow> keeps I (sweep_dq_in_delay B w g t)"
  unfolding sweep_dq_in_delay_def by (intro keeps_intros keeps_for_each)

lemma strobes_keeps [keeps_intros]:
  "w < 4 \<Longrightarrow> g < 4 \<Longrightarrow> CAL_STAGE_VFIFO \<in> codes \<Longrightarrow> keeps I (vfifo_strobes B w g t o' ds f)"
  by (induction ds arbitrary: f) (auto intro!: keeps_intros for_shadow_keeps)

lemma phases_keeps [keeps_intros]: "w < 4 \<Longrightarrow> g < 4 \<Longrightarrow> CAL_STAGE_VFIFO \<in> codes \<Longrightarrow> keeps I (vfifo_phases B w g t ps f)"
  by (induction ps arbitrary: f) (auto intro!: keeps_intros)

lemma dtaps_keeps [keeps_intros]: "w < 4 \<Longrightarrow> g < 4 \<Longrightarrow> CAL_STAGE_VFIFO \<in> codes \<Longrightarrow> keeps I (vfifo_dtaps B w wt g t ds d f)"
  by (induction ds arbitrary: d f) (auto intro!: keeps_intros)

lemma stages_keeps [keeps_intros]:
  "g < 4 \<Longrightarrow> CAL_STAGE_VFIFO \<in> codes \<Longrightarrow> keeps I (rw_mgr_mem_calibrate_vfifo B g t)"
  "g < 4 \<Longrightarrow> CAL_STAGE_VFIFO_AFTER_WRITES \<in> codes \<Longrightarrow> keeps I (rw_mgr_mem_calibrate_vfifo_end B g t)"
  "g < 4 \<Longrightarrow> CAL_STAGE_WRITES \<in> codes \<Longrightarrow> keeps I (rw_mgr_mem_calibrate_writes B r g t)"
  unfolding rw_mgr_mem_calibrate_vfifo_def rw_mgr_mem_calibrate_vfifo_end_def rw_mgr_mem_calibrate_writes_def Let_def
  by (intro keeps_intros for_shadow_keeps set_failing_keeps; simp)+

lemma lfifo_loop_keeps [keeps_intros]: "keeps I (lfifo_loop B lat found)"
proof (induction B lat found rule: lfifo_loop.induct)
  case (1 B lat found)
  show ?case
  proof (cases "lat - 1 > 0")
    case True
    with 1 have "keeps I (lfifo_loop B (lat - 1) True)" by simp
    then show ?thesis by (subst lfifo_loop.simps) (intro keeps_intros; simp)
  next
    case False
    then show ?thesis by (subst lfifo_loop.simps, simp only: if_False) (intro keeps_intros; simp)
  qed
qed

lemma lfifo_keeps [keeps_intros]: "CAL_STAGE_LFIFO \<in> codes \<Longrightarrow> keeps I (rw_mgr_mem_calibrate_lfifo B)"
  unfolding rw_mgr_mem_calibrate_lfifo_def
  by (intro keeps_intros set_failing_keeps; simp)

lemma mem_config_keeps [keeps_intros]: "keeps I (mem_config B)"
  unfolding mem_config_def by (intro keeps_intros)

lemma initialize_keeps [keeps_intros]: "keeps I (initialize B)"
proof -
  have "keeps I (State (\<lambda>s. ((), if (ucast (dyn_calib_steps s) :: u32) AND CALIB_SKIP_ALL \<noteq> CALIB_SKIP_ALL
       then s\<lparr>param := (param s)\<lparr>read_correct_mask_vg := push_bit 8 1 - 1,
         write_correct_mask_vg := push_bit 8 1 - 1, read_correct_mask := push_bit 8 1 - 1,
         write_correct_mask := push_bit 8 1 - 1, dm_correct_mask := push_bit 8 1 - 1\<rparr>\<rparr>
       else s)))"
    by (rule keeps_changes, erule course) (simp add: same_course_def)
  then show ?thesis unfolding initialize_def by (intro keeps_intros)
qed

lemma memory_start_keeps [keeps_intros]: "keeps I (memory_start B)"
  unfolding memory_start_def by (intro keeps_intros)

end

end
