(* ===== verification/Seq_Report.thy ===== *)
theory Seq_Report
  imports Seq_Error
begin

text \<open>
  From the stages to the report of the whole calibration.  A calibration is a list of steps, run
  in order up to the first that fails (\<open>run_steps\<close>); the functions of the sequencer do what
  the list does.  A step that fails leaves its own stage on record, unless an earlier
  step left one, and the last writes of the calibration report what is on record then, or
  the figures of merit.
\<close>

section \<open>The calibration as a list of steps\<close>








section \<open>What the steps leave on record\<close>

text \<open>The course that \<open>sdram_calibration\<close> sets: no sweep over all groups, nothing skipped.\<close>

definition settled :: "'h seq \<Rightarrow> bool" where
  "settled s \<longleftrightarrow> phy_debug_mode_flags (gbl s) = PHY_DEBUG_ENABLE_CAL_RPT \<and> skip_groups (param s) = 0 \<and>
     skip_shadow_regs (param s) = [0] \<and> dyn_calib_steps s = ucast STATIC_CALIB_STEPS"

definition on_record :: "u32 set \<Rightarrow> 'h seq \<Rightarrow> bool" where
  "on_record E s \<longleftrightarrow> settled s \<and> error_stage (gbl s) \<in> E"











text \<open>\<open>flags st m\<close>: when \<open>m\<close> fails on a clean record, stage \<open>st\<close> is on record.\<close>

definition flags :: "u32 \<Rightarrow> ('h, bool) sq \<Rightarrow> bool" where
  "flags st m = triple (on_record {CAL_STAGE_NIL, st}) m (\<lambda>ok s. \<not> ok \<longrightarrow> on_record {st} s)"

lemma flags_ret: "flags st (ret True)"
  by (simp add: flags_def triple_def)

lemma flags_bind:
  "keeps (on_record {CAL_STAGE_NIL, st}) m \<Longrightarrow> (\<And>a. flags st (f a)) \<Longrightarrow> flags st (State_Monad.bind m f)"
  unfolding flags_def keeps_def by (rule triple_bind)




lemma keeps_flags: "keeps (on_record {CAL_STAGE_NIL, st}) m \<Longrightarrow> flags st (do { m; ret True })"
  by (intro flags_bind flags_ret)








section \<open>The calibration runs the steps\<close>















section \<open>The whole calibration\<close>














end
