(* ===== verification/Seq_Latency.thy ===== *)
theory Seq_Latency
  imports Seq_Logic
begin

text \<open>
  The read latency: the search of \<open>rw_mgr_mem_calibrate_lfifo\<close> on a memory that answers
  right from some latency on.
\<close>

section \<open>A memory that reads right from a latency on\<close>

text \<open>
  \<open>rl\<close> is the latency register in the hardware.  Of the registers written during the search
  only \<open>PHY_MGR_PHY_RLAT\<close> sets it, and the manager reports no wrong bit exactly when it is at
  least \<open>k\<close>.
\<close>

definition lfifo_registers :: "u32 list" where
  "lfifo_registers = [RW_MGR_SET_CS_AND_ODT_MASK, RW_MGR_LOAD_CNTR_0, RW_MGR_LOAD_CNTR_1, RW_MGR_LOAD_CNTR_2,
     RW_MGR_LOAD_CNTR_3, RW_MGR_LOAD_JUMP_ADD_0, RW_MGR_LOAD_JUMP_ADD_1, RW_MGR_LOAD_JUMP_ADD_2,
     RW_MGR_LOAD_JUMP_ADD_3, RW_MGR_RESET_READ_DATAPATH, RW_MGR_RUN_SINGLE_GROUP, RW_MGR_RUN_ALL_GROUPS,
     PHY_MGR_CMD_FIFO_RESET, REG_FILE_CUR_STAGE]"

definition reads_right_from :: "'h sdram \<Rightarrow> ('h \<Rightarrow> u32) \<Rightarrow> u32 \<Rightarrow> bool" where
  "reads_right_from B rl k \<longleftrightarrow>
     (\<forall>d h. rl (bus_wr (sd_bus B) (AVL_TO_APB B PHY_MGR_PHY_RLAT) d h) = d) \<and>
     (\<forall>a \<in> set lfifo_registers. \<forall>d h. rl (bus_wr (sd_bus B) (AVL_TO_APB B a) d h) = rl h) \<and>
     (\<forall>a h. rl (snd (bus_rd (sd_bus B) a h)) = rl h) \<and>
     (\<forall>h. (fst (bus_rd (sd_bus B) (AVL_TO_APB B BASE_RW_MGR) h) AND 0xFF = 0) = (k \<le> rl h))"

section \<open>The test at one latency\<close>

text \<open>The program's variables and the latency in the hardware.\<close>

definition at_latency :: "('h \<Rightarrow> u32) \<Rightarrow> param_t \<Rightarrow> gbl_t \<Rightarrow> u32 \<Rightarrow> 'h seq \<Rightarrow> bool" where
  "at_latency rl p g r s \<longleftrightarrow> param s = p \<and> gbl s = g \<and> rl (sq_hw s) = r"

lemma at_latency_wr:
  assumes "reads_right_from B rl k" "base + off \<in> set lfifo_registers"
  shows "keeps (at_latency rl p g r) (sdr_wr B base off d)"
  using assms by (simp add: keeps_def triple_def at_latency_def reads_right_from_def)

lemma at_latency_rlat:
  assumes "reads_right_from B rl k"
  shows "triple (at_latency rl p g r) (sdr_wr B PHY_MGR_PHY_RLAT 0 d) (\<lambda>_. at_latency rl p g d)"
  using assms by (simp add: triple_def at_latency_def reads_right_from_def)

lemma at_latency_rd:
  assumes "reads_right_from B rl k"
  shows "keeps (at_latency rl p g r) (sdr_rd B base off)"
  using assms by (simp add: keeps_def triple_def at_latency_def reads_right_from_def case_prod_unfold Let_def)

lemma at_latency_verdict:
  assumes "reads_right_from B rl k"
  shows "yields (at_latency rl p g r) (sdr_rd B BASE_RW_MGR 0) (\<lambda>v. (v AND 0xFF = 0) = (k \<le> r))"
  using assms by (simp add: yields_def triple_def at_latency_def reads_right_from_def case_prod_unfold Let_def)

lemma at_latency_reads:
  "yields (at_latency rl p g r) (f (e p)) T \<Longrightarrow>
   yields (at_latency rl p g r) (State_Monad.bind (State (\<lambda>s. (e (param s), s))) f) T"
  by (simp add: yields_def triple_def at_latency_def)

text \<open>Full masks, and the rank is not skipped.\<close>

definition full_masks :: "param_t \<Rightarrow> bool" where
  "full_masks p \<longleftrightarrow> read_correct_mask p = 0xFF \<and> read_correct_mask_vg p = 0xFF \<and> skip_ranks p ! 0 = 0"

lemma read_vg_verdict:
  assumes mem: "reads_right_from B rl k"
  shows "yields (at_latency rl p g r) (read_test_body B 0 True 0xFF 0)
    (\<lambda>x. (0xFF AND x = 0xFF) = (k \<le> r))"
  unfolding read_test_body_def set_rank_and_odt_mask_def fold_vgs_def upto32_def
  apply (simp add: for_fold_once odt_masks_def)
  apply (rule keeps_then [OF at_latency_wr [OF mem]], simp add: lfifo_registers_def)+
  apply (rule yields_bind [OF at_latency_verdict [OF mem]])
  apply (rule yields_ret)
  apply (simp add: wrong_bits and.assoc [symmetric])
  done

lemma read_test_verdict:
  assumes mem: "reads_right_from B rl k" and p: "full_masks p"
  shows "yields (at_latency rl p g r) (rw_mgr_mem_calibrate_read_test B 0 0 1 PASS_ALL_BITS True True)
    (\<lambda>x. fst x = (k \<le> r))"
proof -
  have m: "read_correct_mask p = 0xFF" "read_correct_mask_vg p = 0xFF" "skip_ranks p ! 0 = 0"
    using p by (simp_all add: full_masks_def)
  show ?thesis
    unfolding rw_mgr_mem_calibrate_read_test_def fold_ranks_def rank_end_def upto32_def set_rank_and_odt_mask_def
    apply (simp add: for_fold_once odt_masks_def)
    apply (rule at_latency_reads [where e = "\<lambda>p. p"])
    apply (rule at_latency_reads [where e = "\<lambda>p. skip_ranks p ! 0"])
    apply (simp add: m)
    apply (rule yields_bind [OF read_vg_verdict [OF mem]])
    apply (rule keeps_then [OF at_latency_wr [OF mem]], simp add: lfifo_registers_def)+
    apply (rule yields_ret)
    apply simp
    done
qed

lemma read_tries_verdict:
  assumes mem: "reads_right_from B rl k" and p: "full_masks p"
  shows "yields (at_latency rl p g r) (read_tries B 0 PASS_ALL_BITS True n) (\<lambda>ok. ok = (n = 0 \<or> k \<le> r))"
proof (induction n)
  case (Suc n)
  show ?case
    apply (simp only: read_tries.simps case_prod_unfold)
    apply (rule yields_bind [OF read_test_verdict [OF mem p]])
    apply (rule yields_if)
     apply (rule yields_ret, simp)
    apply (rule yields_mono [OF Suc])
    apply auto
    done
qed (simp add: yields_ret)

section \<open>The search\<close>

text \<open>
  From a latency above 0, the loop ends at \<open>k - 1\<close>, or at 0 when \<open>k\<close> is 0, if \<open>k\<close> is not
  above the latency it starts at; else it fails at once.
\<close>

lemma lfifo_loop_result:
  assumes mem: "reads_right_from B rl k" and p: "full_masks p"
  shows "0 < lat \<Longrightarrow>
   triple (at_latency rl p (g\<lparr>curr_read_lat := lat\<rparr>) r) (lfifo_loop B lat found)
     (\<lambda>ok s. ok = (found \<or> k \<le> lat) \<and> (\<exists>r. at_latency rl p
        (g\<lparr>curr_read_lat := if k \<le> lat then max k 1 - 1 else lat\<rparr>) r s))"
  using mem
proof (induction B lat found arbitrary: r rule: lfifo_loop.induct)
  case (1 B lat found)
  let ?at = "\<lambda>l r. at_latency rl p (g\<lparr>curr_read_lat := l\<rparr>) r"
  let ?Q = "\<lambda>ok s. ok = (found \<or> k \<le> lat) \<and> (\<exists>r. ?at (if k \<le> lat then max k 1 - 1 else lat) r s)"
  have nz: "lat \<noteq> 0" using 1(2) by auto
  have u: "unat (lat - 1) = unat lat - 1" by (rule unat_minus_one [OF nz])
  have pos: "0 < unat lat" using nz by (simp add: unat_gt_0)
  have step: "triple (?at lat lat) (set_curr_read_lat (lat - 1)) (\<lambda>_. ?at (lat - 1) lat)"
    by (simp add: triple_def set_curr_read_lat_def at_latency_def)
  have tail: "triple (?at (lat - 1) lat) (if lat - 1 > 0 then lfifo_loop B (lat - 1) True else ret True) ?Q"
    if k: "k \<le> lat"
  proof (cases "lat - 1 > 0")
    case True
    have ih: "triple (?at (lat - 1) lat) (lfifo_loop B (lat - 1) True)
      (\<lambda>ok s. ok = (True \<or> k \<le> lat - 1) \<and> (\<exists>r. ?at (if k \<le> lat - 1 then max k 1 - 1 else lat - 1) r s))"
      by (rule 1(1) [of True]) (use True 1(3) in simp_all)
    have "k = lat" if "\<not> k \<le> lat - 1"
      using that k pos by (simp add: word_le_nat_alt word_unat_eq_iff u)
    moreover have "1 \<le> lat" using pos by (simp add: word_le_nat_alt)
    ultimately have "(if k \<le> lat - 1 then max k 1 - 1 else lat - 1) = max k 1 - 1" by (auto simp: max_absorb1)
    with ih show ?thesis using k True by simp
  next
    case False
    then have "lat = 1" using pos by (simp add: word_less_nat_alt u word_unat_eq_iff)
    then show ?thesis using k by (auto simp: triple_def max_absorb2)
  qed
  show ?case
    apply (subst lfifo_loop.simps)
    apply (rule triple_bind [OF at_latency_rlat [OF 1(3)]])
    unfolding rw_mgr_mem_calibrate_read_test_all_ranks_def
    apply (rule triple_bind [OF read_tries_verdict [OF 1(3) p, unfolded yields_def]])
    apply (rule tripleI)
    subgoal for _ ok s
      using tripleD [OF triple_bind [OF step tail], of s] by (cases ok) auto
    done
qed

text \<open>What comes before the loop.\<close>

lemma reg_file_at_latency:
  assumes "reads_right_from B rl k"
  shows "keeps (at_latency rl p g r) (reg_file_set_stage B n)" "keeps (at_latency rl p g r) (reg_file_set_sub_stage B n)"
  unfolding reg_file_set_stage_def reg_file_set_sub_stage_def
  by (rule keeps_bind at_latency_rd [OF assms] at_latency_wr [OF assms] | simp add: lfifo_registers_def)+

lemma patterns_at_latency:
  assumes "reads_right_from B rl k"
  shows "keeps (at_latency rl p g r) (rw_mgr_mem_calibrate_read_load_patterns_all_ranks B)"
  unfolding rw_mgr_mem_calibrate_read_load_patterns_all_ranks_def rw_mgr_mem_calibrate_read_load_patterns_def
    set_rank_and_odt_mask_def for_ranks_def
  by (rule keeps_bind keeps_Let keeps_case_prod keeps_for_each keeps_if keeps_reads keeps_ret
      at_latency_wr [OF assms] | simp add: lfifo_registers_def)+

section \<open>The latency found\<close>

text \<open>
  C11. On a memory that reads right from the latency \<open>k\<close> on, the search succeeds exactly when the
  latency it starts at is at least \<open>k\<close>; then the latency in the hardware and the one on record
  are \<open>k + 1\<close> (2 when \<open>k\<close> is 0), one above the least that is tried and works.  Otherwise the
  latency on record stays and the failure is recorded, unless an earlier one is.  The group
  recorded is the 0xFF that the code passes, although \<open>set_failing_group_stage\<close> asserts that the
  group is below 4: \<open>ALTERA_ASSERT\<close> is an empty macro in this build (\<open>sequencer.h\<close>), so the
  assertion is no branch of the model, and its violation is a finding of the development.
\<close>

theorem lfifo_finds_latency:
  assumes mem: "reads_right_from B rl k" and p: "full_masks (param s)" and pos: "0 < curr_read_lat (gbl s)"
  shows "let (ok, s') = run_state (rw_mgr_mem_calibrate_lfifo B) s; lat = curr_read_lat (gbl s)
    in ok = (k \<le> lat) \<and>
       (if k \<le> lat
        then gbl s' = (gbl s)\<lparr>curr_read_lat := max k 1 + 1\<rparr> \<and> rl (sq_hw s') = max k 1 + 1
        else gbl s' = (if error_stage (gbl s) = CAL_STAGE_NIL
          then (gbl s)\<lparr>error_substage := CAL_SUBSTAGE_READ_LATENCY, error_stage := CAL_STAGE_LFIFO,
            error_group := 0xFF\<rparr> else gbl s))"
proof -
  let ?lat = "curr_read_lat (gbl s)"
  let ?g = "gbl s"
  let ?at = "\<lambda>l r. at_latency rl (param s) (?g\<lparr>curr_read_lat := l\<rparr>) r"
  have start: "?at ?lat (rl (sq_hw s)) s" by (simp add: at_latency_def)
  let ?Q = "\<lambda>ok s'. ok = (k \<le> ?lat) \<and>
       (if k \<le> ?lat
        then gbl s' = ?g\<lparr>curr_read_lat := max k 1 + 1\<rparr> \<and> rl (sq_hw s') = max k 1 + 1
        else gbl s' = (if error_stage ?g = CAL_STAGE_NIL
          then ?g\<lparr>error_substage := CAL_SUBSTAGE_READ_LATENCY, error_stage := CAL_STAGE_LFIFO,
            error_group := 0xFF\<rparr> else ?g))"
  have finish: "triple (\<lambda>s. ok = (k \<le> ?lat) \<and> (\<exists>r. ?at (if k \<le> ?lat then max k 1 - 1 else ?lat) r s))
    (do {
       sdr_wr B PHY_MGR_CMD_FIFO_RESET 0 0;
       if ok then do {
         lat \<leftarrow> reads (\<lambda>s. curr_read_lat (gbl s));
         set_curr_read_lat (lat + 2);
         sdr_wr B PHY_MGR_PHY_RLAT 0 (lat + 2);
         ret True
       } else do {
         set_failing_group_stage 0xFF CAL_STAGE_LFIFO CAL_SUBSTAGE_READ_LATENCY;
         ret False
       }
     }) ?Q" for ok
    using mem by (auto simp: triple_def at_latency_def reads_right_from_def set_curr_read_lat_def
        set_failing_group_stage_def)
  have "triple (?at ?lat (rl (sq_hw s))) (rw_mgr_mem_calibrate_lfifo B) ?Q"
    unfolding rw_mgr_mem_calibrate_lfifo_def
    apply (rule triple_bind [OF reg_file_at_latency(1) [OF mem, unfolded keeps_def]])
    apply (rule triple_bind [OF reg_file_at_latency(2) [OF mem, unfolded keeps_def]])
    apply (rule triple_bind [OF patterns_at_latency [OF mem, unfolded keeps_def]])
    apply (rule triple_bind [where R = "\<lambda>lat s'. lat = ?lat \<and> ?at ?lat (rl (sq_hw s)) s'"])
     apply (simp add: triple_def at_latency_def)
    apply (rule triple_bind [where R = "\<lambda>ok s. ok = (k \<le> ?lat) \<and> (\<exists>r. ?at (if k \<le> ?lat then max k 1 - 1 else ?lat) r s)"])
    subgoal for _ _ _ lat
      using lfifo_loop_result [OF mem p pos, of ?g "rl (sq_hw s)" False] by (cases "lat = ?lat") (auto simp: triple_def)
    apply (rule finish)
    done
  from tripleD [OF this start] show ?thesis by (simp add: spost_def Let_def)
qed

text \<open>A memory whose only state is the latency register and that reads right from 5 on.\<close>

definition late_sdram :: "u32 sdram" where
  "late_sdram = \<lparr>sd_bus = \<lparr>bus_rd = (\<lambda>a h. (if 5 \<le> h then 0 else 1, h)),
       bus_wr = (\<lambda>a d h. if a = 0x1040 then d else h), bus_delay = (\<lambda>_ h. h)\<rparr>,
     apb_base_scc_mgr = 0, apb_base_phy_mgr = 0x1000, apb_base_rw_mgr = 0x2000,
     apb_base_data_mgr = 0x4000, apb_base_reg_file = 0x4800, apb_base_mmr = 0x5000\<rparr>"

lemma late_sdram_reads: "reads_right_from late_sdram id 5"
  by (auto simp: reads_right_from_def lfifo_registers_def late_sdram_def AVL_TO_APB_def)

theorem lfifo_finds_latency_witness:
  "fst (run_state (rw_mgr_mem_calibrate_lfifo late_sdram) (fresh_seq 0)) \<and>
   curr_read_lat (gbl (snd (run_state (rw_mgr_mem_calibrate_lfifo late_sdram) (fresh_seq 0)))) = 6"
proof -
  have 1: "full_masks (param (fresh_seq 0))" by (simp add: full_masks_def fresh_seq_def)
  have 2: "0 < curr_read_lat (gbl (fresh_seq 0))" by (simp add: fresh_seq_def)
  show ?thesis
    using lfifo_finds_latency [OF late_sdram_reads 1 2]
    by (simp add: case_prod_unfold Let_def fresh_seq_def)
qed

end
