(* ===== verification/Seq_Window.thy ===== *)
theory Seq_Window
  imports Seq_Logic
begin

text \<open>
  The window of the data mask: the sweep of \<open>calibrate_dm\<close> over the delays of the mask keeps
  the longest run of settings that pass.  What passed is read off the register accesses.
\<close>

section \<open>Runs\<close>

text \<open>\<open>n\<close> settings from the \<open>i\<close>-th one on pass.\<close>

definition run_at :: "bool list \<Rightarrow> nat \<Rightarrow> nat \<Rightarrow> bool" where
  "run_at oks i n \<longleftrightarrow> i + n \<le> length oks \<and> (\<forall>j<n. oks ! (i + j))"

lemma run_at_shorter: "run_at oks i n \<Longrightarrow> m \<le> n \<Longrightarrow> run_at oks i m"
  by (auto simp: run_at_def)

lemma run_at_nth: "run_at oks i n \<Longrightarrow> i \<le> k \<Longrightarrow> k < i + n \<Longrightarrow> oks ! k"
  unfolding run_at_def by (metis add_less_cancel_left le_add_diff_inverse)

lemma run_at_append: "run_at oks i n \<Longrightarrow> run_at (oks @ [b]) i n"
  by (auto simp: run_at_def nth_append)

lemma run_at_butlast: "run_at (oks @ [b]) i n \<Longrightarrow> i + n \<le> length oks \<Longrightarrow> run_at oks i n"
  by (auto simp: run_at_def nth_append)

lemma run_at_extend: "run_at oks i (length oks - i) \<Longrightarrow> i \<le> length oks \<Longrightarrow> run_at (oks @ [True]) i (Suc (length oks) - i)"
  by (auto simp: run_at_def nth_append)

section \<open>The bookkeeping finds the longest run\<close>

definition note_all :: "int \<Rightarrow> bool list \<Rightarrow> dm_window" where
  "note_all a oks = fold (\<lambda>i. dm_note (a + int i) (oks ! i)) [0..<length oks] dm_start"

lemma note_all_snoc: "note_all a (oks @ [b]) = dm_note (a + int (length oks)) b (note_all a oks)"
proof -
  have "fold (\<lambda>i. dm_note (a + int i) ((oks @ [b]) ! i)) [0..<length oks] w =
        fold (\<lambda>i. dm_note (a + int i) (oks ! i)) [0..<length oks] w" for w
    by (rule fold_cong) (auto simp: nth_append)
  then show ?thesis by (simp add: note_all_def)
qed

text \<open>The run that is open at the end starts at \<open>c\<close>.\<close>

definition open_run :: "int \<Rightarrow> bool list \<Rightarrow> dm_window \<Rightarrow> nat \<Rightarrow> bool" where
  "open_run a oks w c \<longleftrightarrow> c \<le> length oks \<and> run_at oks c (length oks - c) \<and> (c = 0 \<or> \<not> oks ! (c - 1)) \<and>
     bgn_curr w = (if c = length oks then NO_EDGE else a + int c)"

text \<open>The best run: \<open>n\<close> settings from the \<open>i\<close>-th on, and none is longer.\<close>

definition best_run :: "int \<Rightarrow> bool list \<Rightarrow> dm_window \<Rightarrow> nat \<Rightarrow> nat \<Rightarrow> bool" where
  "best_run a oks w i n \<longleftrightarrow> win_best w = int n \<and> run_at oks i n \<and> (\<nexists>k. run_at oks k (Suc n)) \<and>
     (if n = 0 then bgn_best w = NO_EDGE \<and> end_best w = NO_EDGE
      else bgn_best w = a + int i \<and> end_best w = a + int i + int n - 1)"

lemma note_all_runs:
  "a + int (length oks) \<le> NO_EDGE \<Longrightarrow>
   (\<exists>c. open_run a oks (note_all a oks) c) \<and> (\<exists>i n. best_run a oks (note_all a oks) i n)"
proof (induction oks rule: rev_induct)
  case Nil
  then show ?case by (simp add: note_all_def dm_start_def open_run_def best_run_def run_at_def)
next
  case (snoc b oks)
  let ?w = "note_all a oks" and ?len = "length oks"
  let ?w' = "dm_note (a + int ?len) b ?w"
  obtain c i n where o: "open_run a oks ?w c" and best: "best_run a oks ?w i n"
    using snoc by auto
  show ?case
  proof (cases b)
    case False
    have "open_run a (oks @ [b]) ?w' (Suc ?len)"
      using False by (simp add: open_run_def dm_note_def run_at_def nth_append)
    moreover have "\<nexists>k. run_at (oks @ [b]) k (Suc n)"
    proof
      assume "\<exists>k. run_at (oks @ [b]) k (Suc n)"
      then obtain k where k: "run_at (oks @ [b]) k (Suc n)" by blast
      have "k + Suc n \<le> ?len"
      proof (rule ccontr)
        assume "\<not> k + Suc n \<le> ?len"
        then have "(oks @ [b]) ! ?len" using k by (intro run_at_nth [OF k]) (auto simp: run_at_def)
        then show False using False by simp
      qed
      then show False using best run_at_butlast [OF k] by (auto simp: best_run_def)
    qed
    then have "best_run a (oks @ [b]) ?w' i n"
      using best False by (auto simp: best_run_def dm_note_def run_at_append)
    ultimately show ?thesis by (auto simp: note_all_snoc)
  next
    case True
    have c: "c \<le> ?len" "run_at oks c (?len - c)" "c = 0 \<or> \<not> oks ! (c - 1)"
      and bgn: "(if bgn_curr ?w = NO_EDGE then a + int ?len else bgn_curr ?w) = a + int c"
      using o snoc.prems by (auto simp: open_run_def)
    let ?v = "dm_note (a + int ?len) True ?w"
    let ?m = "Suc ?len - c"
    have w': "?v = (let w = ?w\<lparr>bgn_curr := a + int c, end_curr := a + int ?len\<rparr> in
        if n < ?m then w\<lparr>win_best := int ?m, bgn_best := a + int c, end_best := a + int ?len\<rparr> else w)"
      using best c(1) unfolding dm_note_def bgn Let_def by (auto simp: best_run_def of_nat_diff)
    have "open_run a (oks @ [True]) ?v c"
      using c run_at_extend [OF c(2,1)] by (auto simp: open_run_def w' Let_def nth_append Suc_diff_le)
    moreover have ends: "k + q \<le> ?len \<or> c \<le> k" if k: "run_at (oks @ [True]) k q" "0 < q" for k q
    proof (rule ccontr)
      assume "\<not> ?thesis"
      then have "k < c" "?len < k + q" by auto
      then have "(oks @ [True]) ! (c - 1)" using c(1) by (intro run_at_nth [OF k(1)]) auto
      then show False using c(1,3) \<open>k < c\<close> by (auto simp: nth_append split: if_splits)
    qed
    have none: "\<nexists>k. run_at (oks @ [True]) k (Suc (max n ?m))"
    proof
      assume "\<exists>k. run_at (oks @ [True]) k (Suc (max n ?m))"
      then obtain k where k: "run_at (oks @ [True]) k (Suc (max n ?m))" by blast
      have len: "k + Suc (max n ?m) \<le> Suc ?len" using k by (simp add: run_at_def)
      from ends [OF k] have "k + Suc (max n ?m) \<le> ?len" using len c(1) by auto
      from run_at_butlast [OF k this] have "run_at oks k (Suc n)" by (rule run_at_shorter) simp
      then show False using best by (auto simp: best_run_def)
    qed
    have "\<exists>i n. best_run a (oks @ [True]) ?v i n"
    proof (cases "n < ?m")
      case True': True
      then have "best_run a (oks @ [True]) ?v c ?m"
        using none c run_at_extend [OF c(2,1)] by (auto simp: best_run_def w' max_def of_nat_diff split: if_splits)
      then show ?thesis by blast
    next
      case False
      then have "best_run a (oks @ [True]) ?v i n"
        using none best by (auto simp: best_run_def w' max_def run_at_append split: if_splits)
      then show ?thesis by blast
    qed
    ultimately show ?thesis using True by (auto simp: note_all_snoc)
  qed
qed

section \<open>The sweep of the mask\<close>

text \<open>What the manager answered: the values read at its base address.\<close>

fun answers :: "io_event list \<Rightarrow> u32 list" where
  "answers [] = []"
| "answers (Rd a v # t) = (if a = BASE_RW_MGR then v # answers t else answers t)"
| "answers (e # t) = answers t"

lemma answers_append: "answers (t @ u) = answers t @ answers u"
  by (induction t rule: answers.induct) auto

definition full_write_masks :: "param_t \<Rightarrow> bool" where
  "full_write_masks p \<longleftrightarrow> write_correct_mask p = 0xFF \<and> write_correct_mask_vg p = 0xFF \<and> skip_ranks p ! 0 = 0"

definition answered :: "param_t \<Rightarrow> io_event list \<Rightarrow> u32 list \<Rightarrow> 'h seq \<Rightarrow> bool" where
  "answered p tr vs s \<longleftrightarrow> param s = p \<and> (\<exists>t. sq_trace s = tr @ t \<and> answers t = vs)"

lemma answered_wr: "keeps (answered p tr vs) (sdr_wr B base off d)"
  by (auto simp: keeps_def triple_def answered_def answers_append)

lemma answered_rd:
  "triple (answered p tr vs) (sdr_rd B BASE_RW_MGR 0) (\<lambda>v. answered p tr (vs @ [v]))"
  by (auto simp: triple_def answered_def answers_append Let_def split: prod.split)

lemma answered_issue: "keeps (answered p tr vs) (rw_mgr_mem_calibrate_write_test_issue B g dm)"
  unfolding rw_mgr_mem_calibrate_write_test_issue_def write_test_setup_def
  by (intro keeps_intros answered_wr)

lemma answered_settings:
  "keeps (answered p tr vs) (scc_mgr_apply_group_dm_out1_delay B g d)" "keeps (answered p tr vs) (scc_upd B)"
  unfolding scc_mgr_apply_group_dm_out1_delay_def prog_defs
  by (intro keeps_intros keeps_for_each answered_wr)+

lemma answered_reads:
  "triple (answered p tr vs) (f (e p)) T \<Longrightarrow>
   triple (answered p tr vs) (State_Monad.bind (State (\<lambda>s. (e (param s), s))) f) T"
  by (simp add: triple_def answered_def)

lemmas answered_then = answered_wr [unfolded keeps_def, THEN triple_bind]
  answered_issue [unfolded keeps_def, THEN triple_bind]

lemma dm_test_answer:
  assumes p: "full_write_masks p"
  shows "triple (answered p tr vs) (dm_test B 0 g)
    (\<lambda>ok s. \<exists>v. ok = (v AND 0xFF = 0) \<and> answered p tr (vs @ [v]) s)"
proof -
  have m: "write_correct_mask p = 0xFF" "write_correct_mask_vg p = 0xFF" "skip_ranks p ! 0 = 0"
    using p by (simp_all add: full_write_masks_def)
  have body: "triple (answered p tr vs) (do {
         sdr_wr B PHY_MGR_CMD_FIFO_RESET 0 0;
         rw_mgr_mem_calibrate_write_test_issue B g True;
         sdr_rd B BASE_RW_MGR 0
       }) (\<lambda>v. answered p tr (vs @ [v]))"
    by (intro answered_then) (rule answered_rd)
  show ?thesis
    unfolding dm_test_def rw_mgr_mem_calibrate_write_test_def fold_ranks_def rank_end_def upto32_def
      set_rank_and_odt_mask_def fold_vgs_def
    apply (simp add: for_fold_once odt_masks_def)
    apply (rule answered_reads [where e = "\<lambda>p. p"])
    apply (rule answered_reads [where e = "\<lambda>p. skip_ranks p ! 0"])
    apply (simp add: m odt_masks_def)
    apply (intro answered_then)
    apply (rule triple_bind [OF answered_rd])
    apply (intro answered_then)
    apply (rule triple_ret)
    apply (auto simp: wrong_bits and.assoc [symmetric])
    done
qed

definition passed :: "u32 list \<Rightarrow> bool list" where
  "passed vs = map (\<lambda>v. v AND 0xFF = 0) vs"

text \<open>One turn of the sweep, and all of them: setting \<open>d\<close> is the position \<open>- d\<close>.\<close>

lemma sweep_answers:
  assumes p: "full_write_masks p" and vs: "length vs + n = 32"
  shows "triple (answered p tr vs)
    (for_fold (\<lambda>d w. do {
       scc_mgr_apply_group_dm_out1_delay B g d;
       scc_upd B;
       ok \<leftarrow> dm_test B 0 g;
       ret (dm_note (- sint d) ok w)
     }) (rev (upto32 0 n)) (note_all (- 31) (passed vs)))
    (\<lambda>w s. \<exists>us. length us = 32 \<and> w = note_all (- 31) (passed us) \<and> answered p tr us s)"
  using vs
proof (induction n arbitrary: vs)
  case 0
  then show ?case by (auto simp: upto32_def triple_def)
next
  case (Suc n)
  have list: "rev (upto32 0 (Suc n)) = of_nat n # rev (upto32 0 n)" by (simp add: upto32_def)
  have "n < 2 ^ 31" using Suc.prems by simp
  then have pos: "- sint (of_nat n :: u32) = - 31 + int (length vs)"
    using Suc.prems by (simp add: sint_of_nat_31)
  have noted: "dm_note (- sint (of_nat n :: u32)) ok (note_all (- 31) (passed vs)) =
    note_all (- 31) (passed (vs @ [v]))" if "ok = (v AND 0xFF = 0)" for ok v
    unfolding pos using that by (simp add: note_all_snoc passed_def)
  show ?case
    unfolding list for_fold.simps
    apply (rule triple_bind [where R = "\<lambda>w s. \<exists>v. w = note_all (- 31) (passed (vs @ [v])) \<and> answered p tr (vs @ [v]) s"])
     apply (rule triple_bind [OF answered_settings(1) [unfolded keeps_def]])
     apply (rule triple_bind [OF answered_settings(2) [unfolded keeps_def]])
     apply (rule triple_bind [OF dm_test_answer [OF p]])
     apply (rule triple_ret)
     apply (auto simp: noted) []
    apply (rule tripleI)
    subgoal for w s
      using Suc.IH [of "vs @ [_]"] Suc.prems by (auto simp: triple_def)
    done
qed

text \<open>
  C26. Whatever the memory answers, the sweep of the mask tests its 32 delays once each and
  keeps the longest run of those at which every bit came back right: the window it reports
  is such a run, on the axis from -31 to 0, and there is none longer.
\<close>

theorem dm_mask_window_longest:
  assumes p: "full_write_masks (param s)"
  shows "\<exists>t. sq_trace (snd (run_state (dm_sweep_mask B 0 g dm_start) s)) = sq_trace s @ t \<and>
    (let oks = passed (answers t); w = fst (run_state (dm_sweep_mask B 0 g dm_start) s)
     in length oks = 32 \<and>
        (\<exists>i n. win_best w = int n \<and> run_at oks i n \<and> (\<nexists>k. run_at oks k (Suc n)) \<and>
           (if n = 0 then bgn_best w = NO_EDGE \<and> end_best w = NO_EDGE
            else bgn_best w = int i - 31 \<and> end_best w = int i + int n - 32)))"
proof -
  have start: "answered (param s) (sq_trace s) [] s" by (simp add: answered_def)
  have nil: "note_all (- 31) (passed []) = dm_start" by (simp add: note_all_def passed_def)
  from tripleD [OF sweep_answers [OF p, where vs = "[]" and n = 32 and B = B and g = g] start]
  obtain us t where u: "length us = 32" "fst (run_state (dm_sweep_mask B 0 g dm_start) s) = note_all (- 31) (passed us)"
    "sq_trace (snd (run_state (dm_sweep_mask B 0 g dm_start) s)) = sq_trace s @ t" "answers t = us"
    by (auto simp: spost_run nil dm_sweep_mask_def answered_def)
  have len: "length (passed us) = 32" using u by (simp add: passed_def)
  then obtain i n where "best_run (- 31) (passed us) (note_all (- 31) (passed us)) i n"
    using note_all_runs [of "- 31" "passed us"] by auto
  then show ?thesis
    using u len unfolding best_run_def Let_def
    by (intro exI [of _ t] conjI exI [of _ i] exI [of _ n]) (auto split: if_splits)
qed

theorem dm_mask_window_longest_witness:
  "\<exists>t. sq_trace (snd (run_state (dm_sweep_mask dead_sdram 0 1 dm_start) (fresh_seq ()))) = t \<and>
     length (passed (answers t)) = 32"
proof -
  have "full_write_masks (param (fresh_seq ()))" by (simp add: full_write_masks_def fresh_seq_def)
  from dm_mask_window_longest [OF this, of dead_sdram 1] show ?thesis
    by (auto simp: fresh_seq_def Let_def)
qed

end
