(* ===== verification/Seq_Delay.thy ===== *)
theory Seq_Delay
  imports Seq_Logic
begin

text \<open>
  How long the micro-programs that \<open>delay_for_n_mem_clocks\<close> starts on the read/write manager
  run: an interpreter of the idle loops in the manager's instruction ROM, driven by the
  registers the function writes, and the number of instructions executed.
\<close>

section \<open>The idle loops of the instruction ROM\<close>

text \<open>The ROM of the manager, as the generated table of the hand-off has it.\<close>

definition inst_rom_init :: "u32 list" where
  "inst_rom_init =
    [0x80000, 0x80680, 0x8180, 0x8200, 0x8280, 0x8300, 0x8380, 0x8100, 0x8480, 0x8500,
     0x8580, 0x8600, 0x8400, 0x800, 0x8680, 0x880, 0xA680, 0x80680, 0x900, 0x80680,
     0x980, 0xA680, 0x8680, 0x80680, 0xB68, 0xCCE8, 0xAE8, 0x8CE8, 0xB88, 0xEC88,
     0xA08, 0xAC88, 0x80680, 0xCE00, 0xCD80, 0xE700, 0xC00, 0x20CE0, 0x20CE0, 0x20CE0,
     0x20CE0, 0xD00, 0x680, 0x680, 0x680, 0x680, 0x60E80, 0x61080, 0x61080, 0x61080,
     0xA680, 0x8680, 0x80680, 0xCE00, 0xCD80, 0xE700, 0xC00, 0x30CE0, 0x30CE0, 0x30CE0,
     0x30CE0, 0xD00, 0x680, 0x680, 0x680, 0x680, 0x70E80, 0x71080, 0x71080, 0x71080,
     0xA680, 0x8680, 0x80680, 0x1158, 0x6D8, 0x80680, 0x1168, 0x7E8, 0x7E8, 0x87E8,
     0x40FE8, 0x410E8, 0x410E8, 0x410E8, 0x1168, 0x7E8, 0x7E8, 0xA7E8, 0x80680, 0x40E88,
     0x41088, 0x41088, 0x41088, 0x40F68, 0x410E8, 0x410E8, 0x410E8, 0xA680, 0x40FE8, 0x410E8,
     0x410E8, 0x410E8, 0x41008, 0x41088, 0x41088, 0x41088, 0x1100, 0xC680, 0x8680, 0xE680,
     0x80680, 0x0, 0x8000, 0xA000, 0xC000, 0x80000, 0x80, 0x8080, 0xA080, 0xC080,
     0x80080, 0x9180, 0x8680, 0xA680, 0x80680, 0x40F08, 0x80680]"

text \<open>
  The three words the idle loops consist of.  What they mean is in the comment of
  \<open>delay_for_n_mem_clocks\<close>: \<open>IDLE_LOOP2: jnz cntr0, TARGET_A\<close>, \<open>IDLE_LOOP1: jnz cntr1, TARGET_B\<close>,
  \<open>return\<close>.
\<close>

datatype idle_instr = Jnz_cntr0 | Jnz_cntr1 | Return

definition idle_instr_at :: "u32 \<Rightarrow> idle_instr option" where
  "idle_instr_at a =
     (if unat a < length inst_rom_init then
        (if inst_rom_init ! unat a = 0x8680 then Some Jnz_cntr0
         else if inst_rom_init ! unat a = 0xA680 then Some Jnz_cntr1
         else if inst_rom_init ! unat a = 0x80680 then Some Return
         else None)
      else None)"

lemma idle_loops_in_rom [simp]:
  "idle_instr_at INST_IDLE_LOOP2 = Some Jnz_cntr0"
  "idle_instr_at INST_IDLE_LOOP1 = Some Jnz_cntr1"
  "idle_instr_at 0x7C = Some Return"
  by code_simp+

text \<open>The registers of the manager that the loops use: the counters and the jump targets.\<close>

record idle_regs =
  load_cntr_0 :: nat
  load_cntr_1 :: nat
  target_a :: u32
  target_b :: u32

text \<open>
  A run from address \<open>pc\<close> with the counters at \<open>c0\<close> and \<open>c1\<close>: the number of \<open>jnz\<close> executed until
  the return.  A counter is tested before it is decremented; one that is 0 is loaded anew and
  control falls through.  A run that leaves the idle loops, or never returns, has no result.
\<close>

partial_function (option) run_idle :: "idle_regs \<Rightarrow> u32 \<Rightarrow> nat \<Rightarrow> nat \<Rightarrow> nat option" where
  "run_idle r pc c0 c1 =
     (case idle_instr_at pc of
        None \<Rightarrow> None
      | Some Return \<Rightarrow> Some 0
      | Some Jnz_cntr0 \<Rightarrow>
          Option.bind (if c0 = 0 then run_idle r (pc + 1) (load_cntr_0 r) c1
                       else run_idle r (target_a r) (c0 - 1) c1) (\<lambda>n. Some (Suc n))
      | Some Jnz_cntr1 \<Rightarrow>
          Option.bind (if c1 = 0 then run_idle r (pc + 1) c0 (load_cntr_1 r)
                       else run_idle r (target_b r) c0 (c1 - 1)) (\<lambda>n. Some (Suc n)))"

text \<open>All runs that a sequence of register writes starts.\<close>

fun idle_clocks :: "idle_regs \<Rightarrow> io_event list \<Rightarrow> nat option" where
  "idle_clocks r [] = Some 0"
| "idle_clocks r (Wr a d # t) =
     (if a = RW_MGR_LOAD_CNTR_0 then idle_clocks (r\<lparr>load_cntr_0 := unat d\<rparr>) t
      else if a = RW_MGR_LOAD_CNTR_1 then idle_clocks (r\<lparr>load_cntr_1 := unat d\<rparr>) t
      else if a = RW_MGR_LOAD_JUMP_ADD_0 then idle_clocks (r\<lparr>target_a := d\<rparr>) t
      else if a = RW_MGR_LOAD_JUMP_ADD_1 then idle_clocks (r\<lparr>target_b := d\<rparr>) t
      else if a = RW_MGR_RUN_SINGLE_GROUP then
        Option.bind (run_idle r d (load_cntr_0 r) (load_cntr_1 r))
          (\<lambda>n. Option.bind (idle_clocks r t) (\<lambda>m. Some (n + m)))
      else idle_clocks r t)"
| "idle_clocks r (Rd a v # t) = idle_clocks r t"

text \<open>The single loop, the nested loops, and a run repeated.\<close>

lemma run_idle_return: "run_idle r 0x7C c0 c1 = Some 0"
  by (subst run_idle.simps) simp

lemma run_idle_single:
  "target_b r = INST_IDLE_LOOP1 \<Longrightarrow> run_idle r INST_IDLE_LOOP1 c0 c1 = Some (c1 + 1)"
proof (induction c1)
  case 0
  then show ?case by (subst run_idle.simps) (simp add: run_idle_return)
next
  case (Suc c1)
  then show ?case by (subst run_idle.simps) simp
qed

lemma run_idle_inner:
  "target_a r = INST_IDLE_LOOP2 \<Longrightarrow>
   run_idle r INST_IDLE_LOOP2 c0 c1 =
     Option.bind (run_idle r INST_IDLE_LOOP1 (load_cntr_0 r) c1) (\<lambda>n. Some (Suc c0 + n))"
proof (induction c0)
  case 0
  then show ?case by (subst run_idle.simps) simp
next
  case (Suc c0)
  then show ?case by (subst run_idle.simps) (simp add: Option.bind_assoc)
qed

lemma run_idle_nested:
  "target_a r = INST_IDLE_LOOP2 \<Longrightarrow> target_b r = INST_IDLE_LOOP2 \<Longrightarrow>
   run_idle r INST_IDLE_LOOP2 (load_cntr_0 r) c1 = Some ((load_cntr_0 r + 2) * (c1 + 1))"
proof (induction c1)
  case 0
  have "run_idle r INST_IDLE_LOOP1 (load_cntr_0 r) 0 = Some 1"
    by (subst run_idle.simps) (simp add: run_idle_return)
  with 0 show ?case by (simp add: run_idle_inner)
next
  case (Suc c1)
  have "run_idle r INST_IDLE_LOOP1 (load_cntr_0 r) (Suc c1) = Some (Suc ((load_cntr_0 r + 2) * (c1 + 1)))"
    using Suc by (subst run_idle.simps) simp
  with Suc.prems show ?case by (simp add: run_idle_inner)
qed

lemma run_idle_from_load:
  "target_a r = INST_IDLE_LOOP2 \<Longrightarrow> target_b r = INST_IDLE_LOOP2 \<Longrightarrow> c0 = load_cntr_0 r \<Longrightarrow>
   run_idle r INST_IDLE_LOOP2 c0 c1 = Some ((c0 + 2) * (c1 + 1))"
  using run_idle_nested by blast

lemma idle_clocks_runs:
  "run_idle r INST_IDLE_LOOP2 (load_cntr_0 r) (load_cntr_1 r) = Some c \<Longrightarrow>
   idle_clocks r (replicate n (Wr RW_MGR_RUN_SINGLE_GROUP INST_IDLE_LOOP2)) = Some (n * c)"
  by (induction n) simp_all

text \<open>What \<open>run_idle_loop\<close> writes.\<close>

lemma for_each_wr_trace:
  "sq_trace (snd (run_state (for_each (\<lambda>_. sdr_wr B base off d) xs) s)) =
     sq_trace s @ replicate (length xs) (Wr (base + off) d)"
  by (induction xs arbitrary: s) (simp_all add: sdr_wr_def)

lemma run_idle_loop_trace:
  "sq_trace (snd (run_state (run_idle_loop B c) s)) =
     sq_trace s @ replicate (Suc (unat c)) (Wr RW_MGR_RUN_SINGLE_GROUP INST_IDLE_LOOP2)"
  unfolding run_idle_loop_def for_each_wr_trace by simp

lemma ucast_byte: "unat (ucast (b :: u8) AND 0xFF :: u32) = unat b"
  using unsigned_less [of b, where ?'a = nat] by (simp add: low_byte unsigned_take_bit_eq unsigned_ucast_eq take_bit_nat_eq_self)

text \<open>The counters in the three ranges.\<close>

lemma ucast_small:
  "unat x < 2 ^ 8 \<Longrightarrow> unat (ucast x :: u8) = unat x"
  "unat x < 2 ^ 16 \<Longrightarrow> unat (ucast x :: u16) = unat x" for x :: u32
  by (simp_all add: unsigned_ucast_eq take_bit_nat_eq_self)

lemma delay_counters_single:
  assumes "n \<le> 0x100"
  obtains inner where "delay_counters n = (inner, 0, 0)"
    and "unat inner + 1 = (if n = 0 then 1 else unat n)"
proof (cases "n = 0")
  case False
  have "unat (n - 1) = unat n - 1" "0 < unat n" using False by (simp_all add: unat_minus_one unat_gt_0)
  then have "unat (ucast (n - 1) :: u8) + 1 = unat n"
    using assms by (simp add: unsigned_ucast_eq word_le_nat_alt take_bit_nat_eq_self)
  then show ?thesis using that assms False by (simp add: delay_counters_def)
qed (use that in \<open>simp add: delay_counters_def\<close>)

lemma delay_counters_nested:
  assumes "0x100 < n" "n \<le> 0x10000"
  obtains outer where "delay_counters n = (0xFF, outer, 0)" and "unat outer = (unat n - 1) div 256"
proof -
  have n: "n \<noteq> 0" "\<not> n \<le> 0x100" using assms by auto
  then have "unat (drop_bit 8 (n - 1)) = (unat n - 1) div 256"
    by (subst unat_drop_bit_eq) (simp add: drop_bit_eq_div unat_minus_one)
  moreover have "(unat n - 1) div 256 < 2 ^ 8" using assms by (auto simp: word_le_nat_alt)
  ultimately have "unat (ucast (drop_bit 8 (n - 1)) :: u8) = (unat n - 1) div 256"
    by (metis ucast_small(1))
  then show ?thesis using that assms n by (simp add: delay_counters_def)
qed

lemma delay_counters_repeated:
  assumes "0x10000 < n"
  obtains c_loop where "delay_counters n = (0xFF, 0xFF, c_loop)"
    and "unat c_loop = (unat n - 1) div 65536"
proof -
  have n: "n \<noteq> 0" "\<not> n \<le> 0x100" "\<not> n \<le> 0x10000"
    using assms by (auto simp: word_less_nat_alt word_le_nat_alt)
  then have "unat (drop_bit 16 (n - 1)) = (unat n - 1) div 65536"
    by (subst unat_drop_bit_eq) (simp add: drop_bit_eq_div unat_minus_one)
  moreover have "(unat n - 1) div 65536 < 2 ^ 16" using unsigned_less [of n, where ?'a = nat] by simp
  ultimately have "unat (ucast (drop_bit 16 (n - 1)) :: u16) = (unat n - 1) div 65536"
    by (metis ucast_small(2))
  then show ?thesis using that n by (simp add: delay_counters_def)
qed

section \<open>The delay is long enough\<close>

text \<open>
  C27. When delays are not skipped, the idle loops that \<open>delay_for_n_mem_clocks\<close> sets up and starts
  return, whatever the registers held before.  Counting one clock for each \<open>jnz\<close>, and with counters
  that are loaded anew when they have run down, they take exactly: 1 clock when none is asked,
  the clocks asked up to 0x100, 257 for each 256 clocks begun up to 0x10000, and 257 times 256
  for each 65536 clocks begun beyond (each turn of the outer loop has one \<open>IDLE_LOOP1\<close> more than
  the 256 of the inner loop).  So the delay is never shorter than asked.
\<close>

theorem mem_clock_delay_covers:
  "\<exists>t c. sq_trace (snd (run_state (delay_for_n_mem_clocks B n) (s\<lparr>skip_delay_mask := 0xFF\<rparr>))) = sq_trace s @ t \<and>
     idle_clocks r t = Some c \<and>
     c = (if n = 0 then 1
          else if n \<le> 0x100 then unat n
          else if n \<le> 0x10000 then 257 * ((unat n - 1) div 256 + 1)
          else 257 * 256 * ((unat n - 1) div 65536 + 1)) \<and>
     unat n \<le> c"
proof -
  have up: "m \<le> k * ((m - 1) div k + 1)" if "0 < k" for m k :: nat
    using mult_div_mod_eq [of k "m - 1"] mod_less_divisor [OF that, of "m - 1"]
    unfolding distrib_left mult_1_right by linarith
  consider "n \<le> 0x100" | "0x100 < n" "n \<le> 0x10000" | "0x10000 < n" by fastforce
  then show ?thesis
  proof cases
    case 1
    obtain i where "delay_counters n = (i, 0, 0)" "unat i + 1 = (if n = 0 then 1 else unat n)"
      by (rule delay_counters_single [OF 1])
    then show ?thesis using 1
      by (simp add: delay_for_n_mem_clocks_def skip_delay_value_def sdr_wr_def Let_def ucast_byte run_idle_single)
  next
    case 2
    obtain ou where c: "delay_counters n = (0xFF, ou, 0)" "unat ou = (unat n - 1) div 256"
      by (rule delay_counters_nested [OF 2])
    have "\<not> n \<le> 0x100" "n \<noteq> 0" using 2 by auto
    then show ?thesis using 2 c up [of 256 "unat n"]
      by (simp add: delay_for_n_mem_clocks_def skip_delay_value_def sdr_wr_def Let_def ucast_byte run_idle_from_load)
  next
    case 3
    obtain cl where c: "delay_counters n = (0xFF, 0xFF, cl)" "unat cl = (unat n - 1) div 65536"
      by (rule delay_counters_repeated [OF 3])
    have "\<not> n \<le> 0x100" "\<not> n \<le> 0x10000" "n \<noteq> 0" using 3 by (auto simp: word_less_nat_alt word_le_nat_alt)
    then show ?thesis using c up [of 65536 "unat n"]
      by (simp add: delay_for_n_mem_clocks_def skip_delay_value_def sdr_wr_def Let_def ucast_byte
        run_idle_loop_trace idle_clocks_runs [OF run_idle_nested] del: replicate_Suc)
  qed
qed

end
