(* ===== verification/Seq_Level.thy ===== *)
theory Seq_Level
  imports Seq_EnPhase
begin

text \<open>
  Write levelling (\<open>sequencer.c\<close>): the output phase and delay of a group, swept up until
  writes work and on until they stop.  The code is compiled for this device but
  \<open>mem_calibrate\<close> does not call it (\<open>CYCLONEV\<close>).  \<open>IO_DQDQS_OUT_PHASE_MAX\<close> is 0 and
  \<open>num_additional_fr_cycles\<close> is 0, so phase 0 is the only one;
  \<open>scc_mgr_spread_out2_delay_all_ranks\<close> has no body here.
\<close>

abbreviation (input) "CAL_SUBSTAGE_WORKING_DELAY \<equiv> 1 :: u32"
abbreviation (input) "CAL_SUBSTAGE_LAST_WORKING_DELAY \<equiv> 2 :: u32"

definition is_write_group_enabled_for_dm :: "u32 \<Rightarrow> u32" where
  "is_write_group_enabled_for_dm write_group = 1"

definition rw_mgr_incr_vfifo_all :: "'h sdram \<Rightarrow> u32 \<Rightarrow> u32 \<Rightarrow> ('h, u32) sq" where
  "rw_mgr_incr_vfifo_all B grp v = rw_mgr_incr_vfifo B grp v"

section \<open>The beginning of the window\<close>

definition level_test :: "'h sdram \<Rightarrow> u32 \<Rightarrow> ('h, bool) sq" where
  "level_test B g = do {
     (ok, bit_chk) \<leftarrow> rw_mgr_mem_calibrate_write_test_all_ranks B g False PASS_ONE_BIT;
     ret ok
   }"

text \<open>The phases at one delay: the first that works and \<open>work_bgn\<close>.\<close>

fun level_phases :: "'h sdram \<Rightarrow> u32 \<Rightarrow> u32 list \<Rightarrow> u32 \<Rightarrow> ('h, u32 option \<times> u32) sq" where
  "level_phases B g [] work_bgn = ret (None, work_bgn)"
| "level_phases B g (p # ps) work_bgn = do {
     scc_mgr_set_dqdqs_output_phase_all_ranks B g p;
     ok \<leftarrow> level_test B g;
     if ok then ret (Some p, work_bgn) else level_phases B g ps (work_bgn + IO_DELAY_PER_OPA_TAP)
   }"

text \<open>The delays: delay, phase and \<open>work_bgn\<close> of the first setting that works.\<close>

fun level_begin :: "'h sdram \<Rightarrow> u32 \<Rightarrow> u32 \<Rightarrow> u32 list \<Rightarrow> u32 \<Rightarrow> ('h, (u32 \<times> u32 \<times> u32) option) sq" where
  "level_begin B g test_bgn [] tmp_delay = ret None"
| "level_begin B g test_bgn (d # ds) tmp_delay = do {
     scc_mgr_apply_group_all_out_delay_all_ranks B g test_bgn d;
     (found, work_bgn) \<leftarrow> level_phases B g (upto32 0 (Suc (unat IO_DQDQS_OUT_PHASE_MAX))) tmp_delay;
     case found of
       Some p \<Rightarrow> ret (Some (d, p, work_bgn))
     | None \<Rightarrow> level_begin B g test_bgn ds (tmp_delay + IO_DELAY_PER_DCHAIN_TAP)
   }"

text \<open>Between the last phase that fails and the first that works: \<open>work_bgn\<close> in delay taps.\<close>

fun level_refine :: "'h sdram \<Rightarrow> u32 \<Rightarrow> u32 \<Rightarrow> u32 list \<Rightarrow> u32 \<Rightarrow> u32 \<Rightarrow> ('h, u32) sq" where
  "level_refine B g test_bgn [] tmp_delay work_bgn = ret work_bgn"
| "level_refine B g test_bgn (d # ds) tmp_delay work_bgn =
     (if tmp_delay < work_bgn then do {
        scc_mgr_apply_group_all_out_delay_all_ranks B g test_bgn d;
        ok \<leftarrow> level_test B g;
        if ok then ret tmp_delay
        else level_refine B g test_bgn ds (tmp_delay + IO_DELAY_PER_DCHAIN_TAP) work_bgn
      } else ret work_bgn)"

section \<open>The end of the window\<close>

text \<open>\<open>for (p = p + 1; p <= max; p++, work_end += ...)\<close>: \<open>p\<close> and \<open>work_end\<close> after the loop.\<close>

fun level_end_phases :: "'h sdram \<Rightarrow> u32 \<Rightarrow> u32 list \<Rightarrow> u32 \<Rightarrow> u32 \<Rightarrow> ('h, u32 \<times> u32) sq" where
  "level_end_phases B g [] p work_end = ret (p, work_end)"
| "level_end_phases B g (q # qs) p work_end = do {
     scc_mgr_set_dqdqs_output_phase_all_ranks B g q;
     ok \<leftarrow> level_test B g;
     if \<not> ok then ret (q, work_end) else level_end_phases B g qs (q + 1) (work_end + IO_DELAY_PER_OPA_TAP)
   }"

fun level_end_dtaps :: "'h sdram \<Rightarrow> u32 \<Rightarrow> u32 \<Rightarrow> u32 list \<Rightarrow> u32 \<Rightarrow> ('h, u32) sq" where
  "level_end_dtaps B g test_bgn [] work_end = ret work_end"
| "level_end_dtaps B g test_bgn (d # ds) work_end = do {
     scc_mgr_apply_group_all_out_delay_all_ranks B g test_bgn d;
     ok \<leftarrow> level_test B g;
     if \<not> ok then ret work_end else level_end_dtaps B g test_bgn ds (work_end + IO_DELAY_PER_DCHAIN_TAP)
   }"

text \<open>When delay 0 works already: both ends by phases first; \<open>work_bgn\<close> and \<open>work_end\<close>.\<close>

definition level_overlap :: "'h sdram \<Rightarrow> u32 \<Rightarrow> u32 \<Rightarrow> u32 \<Rightarrow> u32 \<Rightarrow> ('h, u32 \<times> u32) sq" where
  "level_overlap B g test_bgn p work_bgn = do {
     let work_end = work_bgn + IO_DELAY_PER_OPA_TAP;
     work_bgn \<leftarrow> (if p > 0 then do {
         scc_mgr_set_dqdqs_output_phase_all_ranks B g (p - 1);
         work_bgn \<leftarrow> level_refine B g test_bgn (upto32 0 32) (work_bgn - IO_DELAY_PER_OPA_TAP) work_bgn;
         scc_mgr_apply_group_all_out_delay_all_ranks B g test_bgn 0;
         ret work_bgn
       } else ret work_bgn);
     (p, work_end) \<leftarrow> level_end_phases B g
       (upto32 (unat (p + 1)) (Suc (unat IO_DQDQS_OUT_PHASE_MAX))) (p + 1) work_end;
     scc_mgr_set_dqdqs_output_phase_all_ranks B g (p - 1);
     ret (work_bgn, work_end - IO_DELAY_PER_OPA_TAP)
   }"

section \<open>The middle\<close>

text \<open>\<open>while (p > IO_DQDQS_OUT_PHASE_MAX)\<close>.\<close>

function level_cap :: "u32 \<Rightarrow> u32 \<Rightarrow> u32 \<times> u32" where
  "level_cap p tmp_delay =
     (if p > IO_DQDQS_OUT_PHASE_MAX then level_cap (p - 1) (tmp_delay - IO_DELAY_PER_OPA_TAP) else (p, tmp_delay))"
  by pat_completeness auto
termination
  by (relation "measure (\<lambda>(p, _). unat p)") (auto intro!: unat_minus_one_less)

declare level_cap.simps [simp del]

text \<open>One tap back when the sum is past the middle.\<close>

definition step_back :: "u32 \<Rightarrow> u32 \<Rightarrow> u32 \<times> u32 \<Rightarrow> u32 \<times> u32" where
  "step_back step work_mid = (\<lambda>(k, tmp_delay).
     if tmp_delay > work_mid then (k - 1, tmp_delay - step) else (k, tmp_delay))"

definition level_centre :: "u32 \<Rightarrow> u32 \<times> u32" where
  "level_centre work_mid =
     (let (p, tmp_delay) = step_back IO_DELAY_PER_OPA_TAP work_mid
            (taps_up_to IO_DELAY_PER_OPA_TAP work_mid (Suc (unat IO_DQDQS_OUT_PHASE_MAX)) 0 0);
          (p, tmp_delay) = level_cap p tmp_delay;
          (d, tmp_delay) = step_back IO_DELAY_PER_DCHAIN_TAP work_mid
            (taps_up_to IO_DELAY_PER_DCHAIN_TAP work_mid 32 0 tmp_delay)
      in (p, d))"

text \<open>
  The number of delays to try is read from the register file; for a value of
  \<open>2 ^ 32 - 1\<close>, which nothing writes there, the loop of the code would not end by its bound.
\<close>

definition rw_mgr_mem_calibrate_wlevel :: "'h sdram \<Rightarrow> u32 \<Rightarrow> u32 \<Rightarrow> ('h, bool) sq" where
  "rw_mgr_mem_calibrate_wlevel B g test_bgn = do {
     reg_file_set_stage B CAL_STAGE_WLEVEL;
     reg_file_set_sub_stage B CAL_SUBSTAGE_WORKING_DELAY;
     dtaps \<leftarrow> sdr_rd B REG_FILE_DTAPS_PER_PTAP 0;
     reg_file_set_group B g;
     first \<leftarrow> level_begin B g test_bgn (upto32 0 (Suc (unat dtaps))) 0;
     case first of
       None \<Rightarrow> do {
         set_failing_group_stage g CAL_STAGE_WLEVEL CAL_SUBSTAGE_WORKING_DELAY;
         ret False
       }
     | Some (d, p, work_bgn) \<Rightarrow> do {
         reg_file_set_sub_stage B CAL_SUBSTAGE_LAST_WORKING_DELAY;
         (work_bgn, work_end) \<leftarrow>
           (if d = 0 then level_overlap B g test_bgn p work_bgn else ret (work_bgn, work_bgn));
         work_end \<leftarrow> level_end_dtaps B g test_bgn (upto32 (unat d) 32) work_end;
         scc_mgr_zero_group B g test_bgn True;
         let work_end = work_end - IO_DELAY_PER_DCHAIN_TAP;
         if work_end < work_bgn then do {
           set_failing_group_stage g CAL_STAGE_WLEVEL CAL_SUBSTAGE_LAST_WORKING_DELAY;
           ret False
         } else do {
           let (p, d) = level_centre ((work_bgn + work_end) div 2);
           scc_mgr_set_dqdqs_output_phase_all_ranks B g p;
           scc_mgr_apply_group_all_out_delay_add_all_ranks B g test_bgn d;
           ret True
         }
       }
   }"

section \<open>The setting chosen\<close>

lemma level_cap_phase: "fst (level_cap p t) = 0"
proof (induction p t rule: level_cap.induct)
  case (1 p t)
  then show ?case by (subst level_cap.simps) (auto simp: not_less)
qed

text \<open>
  The phase is 0, the only one.  The delay stays within the 31 of the pins only because the
  sweeps keep the middle of the window small: for a middle far out it would be 32.
\<close>

lemma level_centre_phase: "fst (level_centre m) = 0"
  using level_cap_phase by (simp add: level_centre_def case_prod_unfold Let_def)

lemma level_centre_beyond: "snd (level_centre 2000) = 32"
  by code_simp

end
