(* ===== verification/Spec2Isabelle.thy ===== *)
theory Spec2Isabelle
  imports I2C_Init HAL_FD_Claims HAL_Time_Claims App_Video_Claims App_Span_Claims JTAG_Small_Claims App_MemTest_Claims
    HAL_Boot_Claims HAL_Cache_Claims HAL_Stdio_Claims HAL_Log_Claims
    App_FrameLoader_Claims HAL_Load_Claims HAL_Timestamp_Claims HAL_Gmon_Claims HAL_Process_Claims
    Seq_Claims Seq_Report Seq_Latency Seq_Window Seq_Delay Seq_Level
begin

text \<open>
  This development models the C software of the repository: the firmware of a Nios II soft
  processor that drives the HDMI pipeline of a DE10-Nano board (\<open>nios_software/video_app2\<close>), a
  memory test (\<open>nios_software/nios_ddr3_test\<close>), and the hardware abstraction layer and device
  drivers under them (\<open>nios_software/nios_ddr3_test_bsp\<close>, HAL and drivers).

  \<^bold>\<open>How programs are modelled.\<close>  A C function is a HOL function over an explicit state that
  returns \<open>Some (result, state)\<close>, or \<open>None\<close> where the run has no result: a loop that never
  ends, a call through a null pointer, an access outside an array.  Integers keep their width
  (\<open>8/16/32/64 word\<close>), signed comparisons go through \<open>sint\<close>.  The state is one record extended
  from layer to layer: \<open>mach\<close> (hardware, trace of bus accesses, status register), \<open>irq_st\<close>
  (interrupt tables), \<open>hal\<close> (descriptor pool, lists, byte memory), \<open>time_st\<close> (ticks, alarms,
  clock, heap), then \<open>i2c_st\<close>, \<open>uart_st\<close> and \<open>app_st\<close> for the drivers and the application.
  Hardware is a parameter: a \<open>bus\<close> of read, write and delay functions over any type of hardware
  states.  What a theorem needs of a device is a named hypothesis that states its documented
  behaviour (\<open>i2c_core_ready\<close>, \<open>timer_board\<close>, \<open>dma_board\<close>, \<open>span_board\<close>, \<open>cell_board\<close>), and its
  witness runs on a concrete device.  The trace is never read by a program; properties speak
  about it.  Loops that wait for hardware without a bound are \<open>partial_function (option)\<close>, so that
  returning is something to prove; loops with a bound are \<open>fun\<close> or \<open>function\<close> with a measure.  No
  definition uses fuel.

  \<^bold>\<open>Theories, from the bottom up.\<close>
  \<^item> Prelude: word types, \<open>wp\<close> and \<open>wlp\<close> (total and partial correctness), \<open>timed_poll\<close>, byte
    buffers, regions of words.
  \<^item> Bus_IO: \<open>io.h\<close>, the interrupt enable of \<open>alt_irq.h\<close>, \<open>alt_busy_sleep.c\<close>; traces.
  \<^item> HAL_List: \<open>alt_llist.h\<close>, \<open>alt_find_dev.c\<close>, \<open>alt_find_file.c\<close>; the linked lists implement
    sequences.
  \<^item> HAL_Irq, HAL_Irq_Claims: \<open>alt_iic.c\<close>, \<open>alt_irq_handler.c\<close>, \<open>alt_irq_register.c\<close>, exceptions;
    which handlers run, in which order, and what registration changes.
  \<^item> HAL_FD, HAL_FD_Props, HAL_FD_Claims: \<open>alt_open.c\<close>, \<open>alt_close.c\<close>, \<open>alt_read.c\<close>,
    \<open>alt_write.c\<close>, \<open>alt_lseek.c\<close>, \<open>alt_ioctl.c\<close>, \<open>alt_fcntl.c\<close>, \<open>alt_fstat.c\<close>, \<open>alt_isatty.c\<close>,
    \<open>alt_get_fd.c\<close>, \<open>alt_fd_lock.c\<close> and others; the invariant of the descriptor pool under any
    sequence of calls (\<open>fd_step\<close>), the locking protocol and its gap, the contract with drivers
    (locale \<open>device_table\<close>).
  \<^item> HAL_Time, HAL_Time_Claims: \<open>alt_tick.c\<close>, \<open>alt_alarm_start.c\<close>, \<open>alt_gettod.c\<close>,
    \<open>alt_settod.c\<close>, \<open>alt_sbrk.c\<close>, \<open>altera_avalon_timer_sc.c\<close>; when alarms fire, across the wrap of
    the 32-bit counter.
  \<^item> I2C_Driver, I2C_Transfer, I2C_Props, I2C_Correct, I2C_Claims, I2C_Init:
    \<open>altera_avalon_i2c.c\<close>; flow control on any hardware, transactions on a ready core, time-outs
    and retries, initialise then open.
  \<^item> HAL_Cache, HAL_Cache_Claims: \<open>alt_dcache_flush.c\<close>, \<open>alt_icache_flush.c\<close>,
    \<open>alt_uncached_malloc.c\<close> and others; which lines a flush of a range names.
  \<^item> HAL_Stdio, HAL_Stdio_Claims: \<open>alt_printf.c\<close>, \<open>alt_putchar.c\<close>; what is printed, against a
    reference reading of the format and the usual base 16 conversion.
  \<^item> HAL_Log, HAL_Log_Props, HAL_Log_Claims: \<open>alt_log_printf.c\<close>, the logging that
    \<open>ALT_LOG_ENABLE\<close> turns on (this configuration leaves it off); its \<open>printf\<close> against a reference
    reading of the format, the period of the heartbeat, the echo of a \<open>write\<close>.  Radix holds the
    numerals that both formatted outputs are measured against.
  \<^item> JTAG_Ring, JTAG_UART, JTAG_Props, JTAG_Calls, JTAG_Claims, JTAG_Small_Claims: the JTAG UART
    driver, both variants; the copies of runs of bytes against byte-wise queues (locale
    \<open>bounded_queue\<close>), calls under interrupts at every access to shared members (locale
    \<open>uart_interrupts\<close>), conservation of both byte streams in every reachable state.
  \<^item> HAL_Boot, HAL_Boot_Claims: \<open>alt_main.c\<close>, \<open>alt_sys_init.c\<close>, \<open>alt_exit.c\<close>, the constructor
    tables; what holds when \<open>main\<close> starts, and the way of a \<open>write\<close> on standard output through
    the descriptor table to the UART (the build passes \<open>ALT_USE_SMALL_DRIVERS\<close>, so the polled
    driver is the one that is linked).
  \<^item> App_Common, App_Timer_Claims: \<open>common.c\<close>; the cycle counter is exact under interrupts.
  \<^item> App_HDMI, App_HDMI_Props, App_HDMI_Claims: \<open>hdmi_config.c\<close>; the PLL wait and the
    transmitter's register sequence on the I2C bus.
  \<^item> App_Video_Claims: \<open>hdmi_control.c\<close>; frame buffer, gamma tables, pattern menu.
  \<^item> App_DMA, App_DMA_Props, App_Menu_Props, App_Menu_Claims, App_DMA_Claims, App_Span_Claims:
    \<open>burst_master_test.c\<close> and \<open>main.c\<close>; what the menu keeps (locale \<open>app_keeps\<close>), and what the
    verdicts of the two DMA tests are worth.
  \<^item> HAL_Timestamp, HAL_Timestamp_Claims: \<open>altera_avalon_timer_ts.c\<close> and the initialisation macro
    of \<open>altera_avalon_timer.h\<close>; a timestamp is the number of cycles since the start.
  \<^item> HAL_Gmon, HAL_Gmon_Claims: \<open>alt_gmon.c\<close>, \<open>alt_mcount.S\<close>; the call graph counts calls, and
    where a sample is counted.
  \<^item> HAL_Process, HAL_Process_Claims: \<open>alt_kill.c\<close>, \<open>alt_stat.c\<close>, \<open>alt_putcharbuf.c\<close>, the calls that
    one process does not support, DMA channels and flash devices (\<open>alt_dma.h\<close>, \<open>alt_flash.h\<close>); what
    \<open>stat\<close> leaves behind.
  \<^item> HAL_Load, HAL_Load_Claims: \<open>alt_load.c\<close>, \<open>alt_load.h\<close>; the sections of a program that starts
    in flash reach their run addresses.
  \<^item> Seq_Base, Seq_SCC, Seq_RW, Seq_Tests, Seq_EnPhase, Seq_Center, Seq_Level, Seq_Main: the
    calibration of the DDR3 memory that the boot loader of the ARM side runs (\<open>hps_isw_handoff\<close>: \<open>sequencer.c\<close>,
    \<open>sequencer.h\<close>, \<open>sdram_io.h\<close>), from the register access over the scan chains, the memory
    tests, the search for the strobe's enable phase, the per-bit deskew and the write levelling
    (compiled, but not called on this device) up to \<open>sdram_calibration\<close>.  It waits for nothing, so its functions are total programs of the
    library's state monad; the configuration (DDR3, one rank, four groups of eight bits, hard
    PHY) is fixed as the generated headers fix it.
  \<^item> Seq_Logic, Seq_Frame, Seq_Error: postconditions of such programs and what they keep (locales
    \<open>seq_frame\<close>, \<open>en_frame\<close>, \<open>open_frame\<close>, \<open>error_state\<close>).  Seq_Claims: the phases and delays the
    search sets stay in range.  Seq_Report: the calibration as a list of steps, and the report of
    the figures of merit or of the stage of the step that failed.
    Seq_Latency: the read latency found on a memory that reads right from some latency on.
    Seq_Window: the window of the data mask is the longest run.  Seq_Delay: an interpreter of the
    idle loops in the instruction ROM (\<open>sequencer_auto_inst_init.c\<close>); delays are long enough.
  \<^item> App_FrameLoader, App_FrameLoader_Claims: the Linux program \<open>frame_loader.c\<close>, over a record of
    the system calls it makes; what it gives back and what it writes, on every path.
  \<^item> App_MemTest, App_MemTest_Props, App_MemTest_Claims: \<open>mem_verify.c\<close> and the main program of
    the memory test; its verdict on any memory with aliasing and read-back faults.

  \<^bold>\<open>Bounds and idealisations.\<close>  Interrupts are taken at explicit points: in the JTAG UART driver
  at every access to a member shared with the handler, in \<open>get_total_cycles\<close> between its accesses;
  a \<open>memcpy\<close> is one step.  \<open>double\<close> values of the gamma tables are reals, with \<open>pow\<close> a
  parameter.  Objects that hardware also sees are reached through the bus, which contains the
  data cache; other C objects are fields of the state.  \<open>printf\<close> appends its format and its
  arguments to a list.

  \<^bold>\<open>Not modelled.\<close>  In \<open>hps_isw_handoff\<close>: what the configuration compiles out of the sequencer
  (other memories, run-time reports, assertions, the TCL debug interface \<open>tclrpt.c\<close>), and the
  micro-instructions other than the idle loops; the two ROM tables are parameters of the entry point.  The Verilog sources, the assembly start-up code and exception entry (but
  \<open>alt_mcount.S\<close>), hooks without a body, and the Python tools.
\<close>

end
